(* ===== verification/Prelude.thy ===== *)
theory Prelude
  imports Main "HOL-Library.List_Lexorder" "HOL-Library.Char_ord"
    "HOL-Library.Code_Target_Numeral"
begin

text \<open>
  Shared vocabulary of the development: the model of Rust's \<^verbatim>\<open>Result\<close> and of the
  \<^verbatim>\<open>?\<close> operator, loops over slices that stop at the first error, iterators that
  collect into a \<^verbatim>\<open>Result<Vec<_>>\<close>, three-valued comparison, and the string
  predicates the kernel calls. A fallible function returns a sum whose left summand is
  the error. A function that also updates a mutable counter (the fuel) returns the pair of
  that sum and the new counter, because the source keeps the counter on the error path.
\<close>

named_theorems res_simps "evaluation of the error monads"
named_theorems env_lookup "what the environment operations do to a lookup"

section \<open>Result values\<close>

definition rbind :: "'e + 'a \<Rightarrow> ('a \<Rightarrow> 'e + 'b) \<Rightarrow> 'e + 'b" where
  "rbind m f = (case m of Inl e \<Rightarrow> Inl e | Inr a \<Rightarrow> f a)"

definition map_err :: "('e \<Rightarrow> 'f) \<Rightarrow> 'e + 'a \<Rightarrow> 'f + 'a" where
  "map_err g m = (case m of Inl e \<Rightarrow> Inl (g e) | Inr a \<Rightarrow> Inr a)"

definition ok_or :: "'e \<Rightarrow> 'a option \<Rightarrow> 'e + 'a" where
  "ok_or e x = (case x of None \<Rightarrow> Inl e | Some a \<Rightarrow> Inr a)"

definition is_ok :: "'e + 'a \<Rightarrow> bool" where
  "is_ok m = (case m of Inl _ \<Rightarrow> False | Inr _ \<Rightarrow> True)"

definition guard_res :: "bool \<Rightarrow> 'e \<Rightarrow> 'e + unit" where
  "guard_res b e = (if b then Inl e else Inr ())"

lemma rbind_Inl [simp, res_simps]: "rbind (Inl e) f = Inl e"
  by (simp add: rbind_def)

lemma rbind_Inr [simp, res_simps]: "rbind (Inr a) f = f a"
  by (simp add: rbind_def)

lemma rbind_return [simp, res_simps]: "rbind m Inr = m"
  by (cases m) simp_all

lemma rbind_eq_Inr: "rbind m f = Inr b \<longleftrightarrow> (\<exists>a. m = Inr a \<and> f a = Inr b)"
  by (cases m) simp_all

lemma rbind_eq_Inl:
  "rbind m f = Inl e \<longleftrightarrow> m = Inl e \<or> (\<exists>a. m = Inr a \<and> f a = Inl e)"
  by (cases m) simp_all

lemma rbind_not_Inl: "m \<noteq> Inl e \<Longrightarrow> (\<And>a. f a \<noteq> Inl e) \<Longrightarrow> rbind m f \<noteq> Inl e"
  by (cases m) simp_all

lemma rbind_InrE:
  assumes "rbind m f = Inr b"
  obtains a where "m = Inr a" "f a = Inr b"
  using assms by (auto simp: rbind_eq_Inr)

lemma rbind_cong [fundef_cong]:
  assumes "m = m'" and "\<And>a. m' = Inr a \<Longrightarrow> f a = f' a"
  shows "rbind m f = rbind m' f'"
  using assms by (cases m') simp_all

lemma rbind_assoc: "rbind (rbind m f) g = rbind m (\<lambda>a. rbind (f a) g)"
  by (cases m) simp_all

lemma map_err_simps [simp, res_simps]:
  "map_err g (Inl e) = Inl (g e)" "map_err g (Inr a) = Inr a"
  by (simp_all add: map_err_def)

lemma map_err_eq_Inr [simp]: "map_err g m = Inr a \<longleftrightarrow> m = Inr a"
  by (cases m) simp_all

lemma ok_or_simps [simp, res_simps]: "ok_or e None = Inl e" "ok_or e (Some a) = Inr a"
  by (simp_all add: ok_or_def)

lemma ok_or_eq_Inr [simp]: "ok_or e x = Inr a \<longleftrightarrow> x = Some a"
  by (cases x) simp_all

lemma is_ok_simps [simp, res_simps]: "is_ok (Inl e) = False" "is_ok (Inr a) = True"
  by (simp_all add: is_ok_def)

lemma is_ok_iff: "is_ok m \<longleftrightarrow> (\<exists>a. m = Inr a)"
  by (cases m) simp_all

lemma guard_res_simps [simp, res_simps]:
  "guard_res True e = Inl e" "guard_res False e = Inr ()"
  by (simp_all add: guard_res_def)

lemma guard_res_eq_Inr [simp]: "guard_res b e = Inr u \<longleftrightarrow> \<not> b"
  by (cases b) simp_all

lemma guard_res_eq_Inl [simp]: "guard_res b e = Inl e' \<longleftrightarrow> b \<and> e' = e"
  by (cases b) auto

section \<open>Loops that stop at the first error\<close>

text \<open>
  \<open>fold_res\<close> is a \<^verbatim>\<open>for\<close> loop over a slice whose body may leave the function with
  an error; \<open>traverse\<close> is \<^verbatim>\<open>iter().map(f).collect::<Result<Vec<_>>>()\<close>;
  \<open>check_all\<close> is a loop whose body only checks.
\<close>

primrec fold_res :: "('a \<Rightarrow> 's \<Rightarrow> 'e + 's) \<Rightarrow> 'a list \<Rightarrow> 's \<Rightarrow> 'e + 's" where
  "fold_res f [] s = Inr s"
| "fold_res f (x # xs) s = rbind (f x s) (fold_res f xs)"

primrec traverse :: "('a \<Rightarrow> 'e + 'b) \<Rightarrow> 'a list \<Rightarrow> 'e + 'b list" where
  "traverse f [] = Inr []"
| "traverse f (x # xs) = rbind (f x) (\<lambda>y. rbind (traverse f xs) (\<lambda>ys. Inr (y # ys)))"

primrec check_all :: "('a \<Rightarrow> 'e + unit) \<Rightarrow> 'a list \<Rightarrow> 'e + unit" where
  "check_all f [] = Inr ()"
| "check_all f (x # xs) = rbind (f x) (\<lambda>_. check_all f xs)"

lemma fold_res_append: "fold_res f (xs @ ys) s = rbind (fold_res f xs s) (fold_res f ys)"
  by (induction xs arbitrary: s) (auto simp: rbind_assoc intro: rbind_cong)

lemma fold_res_invariant:
  assumes "fold_res f xs s = Inr s'" and "P s"
    and "\<And>x t t'. x \<in> set xs \<Longrightarrow> P t \<Longrightarrow> f x t = Inr t' \<Longrightarrow> P t'"
  shows "P s'"
  using assms
proof (induction xs arbitrary: s)
  case Nil
  then show ?case by simp
next
  case (Cons x xs)
  from Cons.prems(1) obtain t where t: "f x s = Inr t" "fold_res f xs t = Inr s'"
    by (auto elim: rbind_InrE)
  from Cons.prems(2,3) t(1) have "P t" by force
  with t(2) show ?case using Cons.prems(3) by (auto intro: Cons.IH)
qed

text \<open>An invariant of a loop over \<^verbatim>\<open>iter().enumerate()\<close>.\<close>

lemma fold_res_enumerate:
  assumes "fold_res f (enumerate n xs) s = Inr s'" and "P n s"
    and "\<And>i t t'. i < length xs \<Longrightarrow> P (n + i) t \<Longrightarrow> f (n + i, xs ! i) t = Inr t' \<Longrightarrow> P (Suc (n + i)) t'"
  shows "P (n + length xs) s'"
  using assms
proof (induction xs arbitrary: n s)
  case Nil
  then show ?case by simp
next
  case (Cons x xs)
  from Cons.prems(1) obtain t where t: "f (n, x) s = Inr t" "fold_res f (enumerate (Suc n) xs) t = Inr s'"
    by (auto elim: rbind_InrE)
  from Cons.prems(2) Cons.prems(3) [of 0 s t] t(1) have "P (Suc n) t" by simp
  moreover have "P (Suc (Suc n + i)) t'" if "i < length xs" "P (Suc n + i) u" "f (Suc n + i, xs ! i) u = Inr t'" for i u t'
    using Cons.prems(3) [of "Suc i" u t'] that by simp
  ultimately show ?case using Cons.IH [OF t(2)] by simp
qed

lemma fold_res_cong [fundef_cong]:
  assumes "xs = ys" and "s = t" and "\<And>x u. x \<in> set ys \<Longrightarrow> f x u = g x u"
  shows "fold_res f xs s = fold_res g ys t"
  using assms(3) unfolding assms(1,2)
  by (induction ys arbitrary: t) (auto intro: rbind_cong)

lemma fold_res_not_Inl: "(\<And>x t. f x t \<noteq> Inl e) \<Longrightarrow> fold_res f xs s \<noteq> Inl e"
  by (induction xs arbitrary: s) (auto simp: rbind_eq_Inl)

lemma check_all_not_Inl: "(\<And>x. f x \<noteq> Inl e) \<Longrightarrow> check_all f xs \<noteq> Inl e"
  by (induction xs) (auto simp: rbind_eq_Inl)

lemma check_all_eq_Inr: "check_all f xs = Inr u \<longleftrightarrow> (\<forall>x \<in> set xs. f x = Inr ())"
  by (induction xs) (auto simp: rbind_eq_Inr)

lemma check_all_cong [fundef_cong]:
  assumes "xs = ys" and "\<And>x. x \<in> set ys \<Longrightarrow> f x = g x"
  shows "check_all f xs = check_all g ys"
  using assms(2) unfolding assms(1) by (induction ys) (auto intro: rbind_cong)

lemma traverse_eq_Inr: "traverse f xs = Inr ys \<longleftrightarrow> list_all2 (\<lambda>x y. f x = Inr y) xs ys"
  by (induction xs arbitrary: ys) (auto simp: rbind_eq_Inr list_all2_Cons1)

lemma traverse_set: "traverse f xs = Inr ys \<Longrightarrow> y \<in> set ys \<Longrightarrow> \<exists>x \<in> set xs. f x = Inr y"
  by (induction xs arbitrary: ys) (auto simp: rbind_eq_Inr)

lemma traverse_length: "traverse f xs = Inr ys \<Longrightarrow> length ys = length xs"
  by (simp add: traverse_eq_Inr list_all2_lengthD)

section \<open>Position, checked indexing, sorting and deduplication\<close>

primrec position :: "('a \<Rightarrow> bool) \<Rightarrow> 'a list \<Rightarrow> nat option" where
  "position p [] = None"
| "position p (x # xs) = (if p x then Some 0 else map_option Suc (position p xs))"

definition get_at :: "'a list \<Rightarrow> nat \<Rightarrow> 'a option" where
  "get_at xs i = (if i < length xs then Some (xs ! i) else None)"

definition sort_dedup :: "('a \<Rightarrow> 'k::linorder) \<Rightarrow> 'a list \<Rightarrow> 'a list" where
  "sort_dedup key xs = remdups_adj (sort_key key xs)"

lemma position_Some:
  "position p xs = Some i \<Longrightarrow> i < length xs \<and> p (xs ! i) \<and> (\<forall>j < i. \<not> p (xs ! j))"
proof (induction xs arbitrary: i)
  case Nil
  then show ?case by simp
next
  case (Cons x xs)
  then show ?case
    by (cases i) (auto split: if_splits simp: nth_Cons' less_Suc_eq_0_disj)
qed

lemma position_None: "position p xs = None \<longleftrightarrow> (\<forall>x \<in> set xs. \<not> p x)"
  by (induction xs) auto

lemma get_at_eq_Some: "get_at xs i = Some x \<longleftrightarrow> i < length xs \<and> xs ! i = x"
  by (auto simp: get_at_def)

lemma set_sort_dedup [simp]: "set (sort_dedup key xs) = set xs"
  by (simp add: sort_dedup_def)

section \<open>Slices\<close>

text \<open>
  Operations that panic outside their range: \<^verbatim>\<open>a - b\<close> on \<^verbatim>\<open>usize\<close> and the slices
  \<^verbatim>\<open>xs[i..]\<close> and \<^verbatim>\<open>xs[..i]\<close>; the first argument is the error value of a panic.
\<close>

definition checked_sub :: "(string \<Rightarrow> 'e) \<Rightarrow> nat \<Rightarrow> nat \<Rightarrow> 'e + nat" where
  "checked_sub panic a b =
     (if b \<le> a then Inr (a - b) else Inl (panic ''attempt to subtract with overflow''))"

definition slice_from :: "(string \<Rightarrow> 'e) \<Rightarrow> 'a list \<Rightarrow> nat \<Rightarrow> 'e + 'a list" where
  "slice_from panic xs i =
     (if i \<le> length xs then Inr (drop i xs) else Inl (panic ''range start index out of range''))"

definition slice_to :: "(string \<Rightarrow> 'e) \<Rightarrow> 'a list \<Rightarrow> nat \<Rightarrow> 'e + 'a list" where
  "slice_to panic xs i =
     (if i \<le> length xs then Inr (take i xs) else Inl (panic ''range end index out of range''))"

lemma checked_sub_Inr [simp]: "checked_sub p a b = Inr c \<longleftrightarrow> b \<le> a \<and> c = a - b"
  by (auto simp: checked_sub_def)

lemma slice_from_Inr [simp]: "slice_from p xs i = Inr ys \<longleftrightarrow> i \<le> length xs \<and> ys = drop i xs"
  by (auto simp: slice_from_def)

lemma slice_to_Inr [simp]: "slice_to p xs i = Inr ys \<longleftrightarrow> i \<le> length xs \<and> ys = take i xs"
  by (auto simp: slice_to_def)

section \<open>Unsigned widths\<close>

text \<open>\<open>fits w n\<close>: the number is representable in \<open>w\<close> unsigned bits.\<close>

definition fits :: "nat \<Rightarrow> nat \<Rightarrow> bool" where
  "fits w n \<longleftrightarrow> int n < 2 ^ w"

lemma fits_iff: "fits w n \<longleftrightarrow> n < 2 ^ w"
  unfolding fits_def by (metis of_nat_less_iff of_nat_numeral of_nat_power)

lemma fits_mono: "fits w n \<Longrightarrow> m \<le> n \<Longrightarrow> fits w m"
  by (simp add: fits_def)

section \<open>Three-valued comparison\<close>

datatype ordering = Less | Equal | Greater

definition cmp :: "'a::linorder \<Rightarrow> 'a \<Rightarrow> ordering" where
  "cmp a b = (if a < b then Less else if a = b then Equal else Greater)"

definition then_with :: "ordering \<Rightarrow> ordering \<Rightarrow> ordering" where
  "then_with a b = (case a of Equal \<Rightarrow> b | _ \<Rightarrow> a)"

lemma cmp_Equal [simp]: "cmp a b = Equal \<longleftrightarrow> a = b"
  by (auto simp: cmp_def)

lemma cmp_Less [simp]: "cmp a b = Less \<longleftrightarrow> a < b"
  by (auto simp: cmp_def)

lemma cmp_Greater [simp]: "cmp a b = Greater \<longleftrightarrow> b < a"
  by (auto simp: cmp_def)

lemma cmp_refl [simp]: "cmp a a = Equal"
  by simp

lemma then_with_simps [simp]:
  "then_with Less b = Less" "then_with Greater b = Greater" "then_with Equal b = b"
  by (simp_all add: then_with_def)

lemma then_with_assoc: "then_with (then_with a b) c = then_with a (then_with b c)"
  by (cases a) simp_all

lemma then_with_Equal [simp]: "then_with a b = Equal \<longleftrightarrow> a = Equal \<and> b = Equal"
  by (cases a) simp_all

lemma then_with_Less: "then_with a b = Less \<longleftrightarrow> a = Less \<or> a = Equal \<and> b = Less"
  by (cases a) simp_all

lemma then_with_Greater:
  "then_with a b = Greater \<longleftrightarrow> a = Greater \<or> a = Equal \<and> b = Greater"
  by (cases a) simp_all

section \<open>Strings\<close>

text \<open>
  A Rust \<^verbatim>\<open>String\<close> is the list of its UTF-8 bytes, which is what its \<^verbatim>\<open>Ord\<close>
  compares and what \<^verbatim>\<open>bytes()\<close> yields; Isabelle's \<open>char\<close> is such a byte and the
  order on \<open>string\<close> is the lexicographic one of \<open>List_Lexorder\<close>.
\<close>

definition starts_with :: "string \<Rightarrow> string \<Rightarrow> bool" where
  "starts_with pre s = (take (length pre) s = pre)"

definition contains_char :: "char \<Rightarrow> string \<Rightarrow> bool" where
  "contains_char c s = (c \<in> set s)"

fun show_nat :: "nat \<Rightarrow> string" where
  "show_nat n = (if n < 10 then [char_of (48 + n)]
     else show_nat (n div 10) @ [char_of (48 + n mod 10)])"

declare show_nat.simps [simp del]

end
