(* ===== verification/Kernel_Syntax.thy ===== *)
theory Kernel_Syntax
  imports Prelude
begin

text \<open>
  The data of the kernel: universe levels and universe constraints
  (\<^verbatim>\<open>npa-kernel/src/level.rs\<close>), the six-form expressions (\<^verbatim>\<open>expr.rs\<close>), the error
  values (\<^verbatim>\<open>error.rs\<close>) and the declarations (\<^verbatim>\<open>decl.rs\<close>), with the functions of
  \<^verbatim>\<open>expr.rs\<close> and \<^verbatim>\<open>decl.rs\<close> over them.

  A reference-counted subterm is the subterm itself. A \<^verbatim>\<open>u32\<close> index is a natural
  number; the places where its width matters (\<^verbatim>\<open>subst.rs\<close>) write the conversions out.
  \<open>Panic\<close> is the one constructor of \<open>kerror\<close> that is not a variant of the source's
  \<^verbatim>\<open>Error\<close>: it is the outcome of an operation that panics, such as an arithmetic
  overflow under the \<^verbatim>\<open>dev\<close> profile the README builds with.
\<close>

section \<open>Levels and universe constraints\<close>

datatype level =
    LZero
  | LSucc level
  | LMax level level
  | LIMax level level
  | LParam string

datatype universe_constraint_relation = RLe | REq

record universe_constraint =
  uc_lhs :: level
  uc_relation :: universe_constraint_relation
  uc_rhs :: level

definition constraint_le :: "level \<Rightarrow> level \<Rightarrow> universe_constraint" where
  "constraint_le l r = \<lparr>uc_lhs = l, uc_relation = RLe, uc_rhs = r\<rparr>"

definition constraint_eq :: "level \<Rightarrow> level \<Rightarrow> universe_constraint" where
  "constraint_eq l r = \<lparr>uc_lhs = l, uc_relation = REq, uc_rhs = r\<rparr>"

section \<open>Expressions\<close>

datatype expr =
    Sort level
  | BVar nat
  | Const string "level list"
  | App expr expr
  | Lam string expr expr
  | Pi string expr expr

definition apps :: "expr \<Rightarrow> expr list \<Rightarrow> expr" where
  "apps f args = foldl App f args"

text \<open>
  The worklist of \<^verbatim>\<open>syntactic_eq_iterative\<close>, last element of the vector first. The
  source also drops a pair it has met before at the same two addresses, and a pair whose
  two addresses coincide; values have no addresses here, and dropping such a pair repeats
  no comparison that could fail.
\<close>

function syntactic_eq_loop :: "bool \<Rightarrow> (expr \<times> expr) list \<Rightarrow> bool" where
  "syntactic_eq_loop names [] = True"
| "syntactic_eq_loop names ((l, r) # pending) =
     (case (l, r) of
        (Sort a, Sort b) \<Rightarrow> if a = b then syntactic_eq_loop names pending else False
      | (BVar i, BVar j) \<Rightarrow> if i = j then syntactic_eq_loop names pending else False
      | (Const c us, Const d vs) \<Rightarrow>
          if c = d \<and> us = vs then syntactic_eq_loop names pending else False
      | (App f a, App g b) \<Rightarrow> syntactic_eq_loop names ((f, g) # (a, b) # pending)
      | (Lam x t b, Lam y u c) \<Rightarrow>
          if names \<and> x \<noteq> y then False
          else syntactic_eq_loop names ((t, u) # (b, c) # pending)
      | (Pi x t b, Pi y u c) \<Rightarrow>
          if names \<and> x \<noteq> y then False
          else syntactic_eq_loop names ((t, u) # (b, c) # pending)
      | _ \<Rightarrow> False)"
  by pat_completeness auto
termination
  by (relation "measure (\<lambda>(_, ps). \<Sum>(l, r) \<leftarrow> ps. 2 * size l + 1)") auto

definition syntactic_eq_iterative :: "expr \<Rightarrow> expr \<Rightarrow> bool \<Rightarrow> bool" where
  "syntactic_eq_iterative l r names = syntactic_eq_loop names [(l, r)]"

definition quick_syntactic_eq :: "expr \<Rightarrow> expr \<Rightarrow> bool" where
  "quick_syntactic_eq l r = syntactic_eq_iterative l r False"

text \<open>\<^verbatim>\<open>collect_apps\<close>: the loop pushes each argument and reverses at the end.\<close>

fun collect_apps_loop :: "expr \<Rightarrow> expr list \<Rightarrow> expr \<times> expr list" where
  "collect_apps_loop (App f a) args = collect_apps_loop f (args @ [a])"
| "collect_apps_loop h args = (h, args)"

definition collect_apps :: "expr \<Rightarrow> expr \<times> expr list" where
  "collect_apps t = (case collect_apps_loop t [] of (h, args) \<Rightarrow> (h, rev args))"

section \<open>Errors\<close>

datatype resource_limit_kind = RWhnf | RConversion | RUniverseConstraints

datatype kerror =
    UnknownConstant string
  | UnknownUniverseParam string
  | UnresolvedUniverseMeta string
  | DuplicateUniverseParam string
  | NonCanonicalUniverseParams "string list"
  | NonCanonicalUniverseLevel level
  | NonCanonicalUniverseConstraints
  | DuplicateUniverseConstraint
  | UnsupportedUniverseConstraint universe_constraint
  | UnsatisfiableUniverseConstraints
  | UniverseConstraintViolation string universe_constraint
  | BadUniverseArity string nat nat
  | InvalidBVar nat
  | ExpectedSort expr
  | ExpectedPi expr
  | TypeMismatch expr expr
  | NotDefEq expr expr
  | InvalidDeclarationName string
  | DuplicateDecl string
  | InvalidInductive string
  | NonPositiveOccurrence string string expr
  | BadConstructorResult string string expr
  | ConstructorUniverseBoundViolation string string nat level level
  | ResourceLimit resource_limit_kind
  | Panic string

type_synonym 'a kresult = "kerror + 'a"

section \<open>Declarations\<close>

datatype reducibility = Reducible | Opaque

record bndr =
  bndr_name :: string
  bndr_ty :: expr

record constructor_decl =
  ctor_name :: string
  ctor_ty :: expr

record recursor_rules =
  minor_start :: nat
  major_index :: nat

record recursor_decl =
  rec_name :: string
  rec_universe_params :: "string list"
  rec_ty :: expr
  rec_rules :: "recursor_rules option"

record inductive_decl =
  ind_name :: string
  ind_universe_params :: "string list"
  ind_universe_constraints :: "universe_constraint list"
  ind_params :: "bndr list"
  ind_indices :: "bndr list"
  ind_sort :: level
  ind_constructors :: "constructor_decl list"
  ind_recursor :: "recursor_decl option"

record mutual_inductive_block =
  blk_name :: string
  blk_universe_params :: "string list"
  blk_universe_constraints :: "universe_constraint list"
  blk_inductives :: "inductive_decl list"

datatype decl =
    Axiom string "string list" expr
  | AxiomConstrained string "string list" "universe_constraint list" expr
  | Def string "string list" expr expr reducibility
  | DefConstrained string "string list" "universe_constraint list" expr expr reducibility
  | Theorem string "string list" expr expr
  | TheoremConstrained string "string list" "universe_constraint list" expr expr
  | Inductive string "string list" expr inductive_decl
  | Constructor string "string list" expr string
  | Recursor string "string list" expr string recursor_rules
  | MutualInductiveBlock string "string list" mutual_inductive_block

fun decl_name :: "decl \<Rightarrow> string" where
  "decl_name (Axiom n _ _) = n"
| "decl_name (AxiomConstrained n _ _ _) = n"
| "decl_name (Def n _ _ _ _) = n"
| "decl_name (DefConstrained n _ _ _ _ _) = n"
| "decl_name (Theorem n _ _ _) = n"
| "decl_name (TheoremConstrained n _ _ _ _) = n"
| "decl_name (Inductive n _ _ _) = n"
| "decl_name (Constructor n _ _ _) = n"
| "decl_name (Recursor n _ _ _ _) = n"
| "decl_name (MutualInductiveBlock n _ _) = n"

fun decl_universe_params :: "decl \<Rightarrow> string list" where
  "decl_universe_params (Axiom _ ps _) = ps"
| "decl_universe_params (AxiomConstrained _ ps _ _) = ps"
| "decl_universe_params (Def _ ps _ _ _) = ps"
| "decl_universe_params (DefConstrained _ ps _ _ _ _) = ps"
| "decl_universe_params (Theorem _ ps _ _) = ps"
| "decl_universe_params (TheoremConstrained _ ps _ _ _) = ps"
| "decl_universe_params (Inductive _ ps _ _) = ps"
| "decl_universe_params (Constructor _ ps _ _) = ps"
| "decl_universe_params (Recursor _ ps _ _ _) = ps"
| "decl_universe_params (MutualInductiveBlock _ ps _) = ps"

fun decl_universe_constraints :: "decl \<Rightarrow> universe_constraint list" where
  "decl_universe_constraints (AxiomConstrained _ _ cs _) = cs"
| "decl_universe_constraints (DefConstrained _ _ cs _ _ _) = cs"
| "decl_universe_constraints (TheoremConstrained _ _ cs _ _) = cs"
| "decl_universe_constraints (Inductive _ _ _ d) = ind_universe_constraints d"
| "decl_universe_constraints (MutualInductiveBlock _ _ b) = blk_universe_constraints b"
| "decl_universe_constraints _ = []"

text \<open>\<^verbatim>\<open>Decl::ty\<close> panics on a mutual block, which has no singular type.\<close>

fun decl_ty :: "decl \<Rightarrow> expr kresult" where
  "decl_ty (Axiom _ _ t) = Inr t"
| "decl_ty (AxiomConstrained _ _ _ t) = Inr t"
| "decl_ty (Def _ _ t _ _) = Inr t"
| "decl_ty (DefConstrained _ _ _ t _ _) = Inr t"
| "decl_ty (Theorem _ _ t _) = Inr t"
| "decl_ty (TheoremConstrained _ _ _ t _) = Inr t"
| "decl_ty (Inductive _ _ t _) = Inr t"
| "decl_ty (Constructor _ _ t _) = Inr t"
| "decl_ty (Recursor _ _ t _ _) = Inr t"
| "decl_ty (MutualInductiveBlock n _ _) =
     Inl (Panic (''mutual inductive block `'' @ n @ ''` has no singular type''))"

section \<open>Equality up to display names, and application spines\<close>

primrec erase_names :: "expr \<Rightarrow> expr" where
  "erase_names (Sort l) = Sort l"
| "erase_names (BVar i) = BVar i"
| "erase_names (Const c us) = Const c us"
| "erase_names (App f a) = App (erase_names f) (erase_names a)"
| "erase_names (Lam x t b) = Lam [] (erase_names t) (erase_names b)"
| "erase_names (Pi x t b) = Pi [] (erase_names t) (erase_names b)"

lemma syntactic_eq_loop_names:
  "syntactic_eq_loop True ps \<longleftrightarrow> (\<forall>(l, r) \<in> set ps. l = r)"
proof (induction "True" ps rule: syntactic_eq_loop.induct)
  case 1
  then show ?case by simp
next
  case (2 l r pending)
  then show ?case by (cases l; cases r) (simp_all, auto)
qed

lemma syntactic_eq_loop_no_names:
  "syntactic_eq_loop False ps \<longleftrightarrow> (\<forall>(l, r) \<in> set ps. erase_names l = erase_names r)"
proof (induction "False" ps rule: syntactic_eq_loop.induct)
  case 1
  then show ?case by simp
next
  case (2 l r pending)
  then show ?case by (cases l; cases r) (simp_all, auto)
qed

lemma syntactic_eq_iterative_names: "syntactic_eq_iterative l r True \<longleftrightarrow> l = r"
  by (simp add: syntactic_eq_iterative_def syntactic_eq_loop_names del: syntactic_eq_loop.simps)

lemma quick_syntactic_eq_iff: "quick_syntactic_eq l r \<longleftrightarrow> erase_names l = erase_names r"
  by (simp add: quick_syntactic_eq_def syntactic_eq_iterative_def syntactic_eq_loop_no_names
      del: syntactic_eq_loop.simps)

lemma apps_simps [simp]:
  "apps f [] = f" "apps f (a # as) = apps (App f a) as" "apps f (as @ bs) = apps (apps f as) bs"
  by (simp_all add: apps_def)

lemma apps_snoc: "apps f (as @ [a]) = App (apps f as) a"
  by simp

lemma collect_apps_loop_acc:
  "collect_apps_loop t args = (fst (collect_apps_loop t []), args @ snd (collect_apps_loop t []))"
proof (induction t arbitrary: args)
  case (App f a)
  show ?case
    by (simp, subst App.IH(1), subst (2) App.IH(1), subst (3) App.IH(1)) simp
qed simp_all

lemma collect_apps_App [simp]:
  "collect_apps (App f a) = (fst (collect_apps f), snd (collect_apps f) @ [a])"
  using collect_apps_loop_acc [of f "[a]"]
  by (cases "collect_apps_loop f []") (simp add: collect_apps_def)

definition is_app :: "expr \<Rightarrow> bool" where
  "is_app t = (case t of App _ _ \<Rightarrow> True | _ \<Rightarrow> False)"

lemma is_app_simps [simp]:
  "is_app (Sort l) = False" "is_app (BVar i) = False" "is_app (Const c us) = False"
  "is_app (App f a) = True" "is_app (Lam x t b) = False" "is_app (Pi x t b) = False"
  by (simp_all add: is_app_def)

lemma collect_apps_atom [simp]: "\<not> is_app t \<Longrightarrow> collect_apps t = (t, [])"
  by (cases t) (simp_all add: collect_apps_def)

lemma apps_collect_apps: "apps (fst (collect_apps t)) (snd (collect_apps t)) = t"
  by (induction t) simp_all

lemma collect_apps_head: "\<not> is_app (fst (collect_apps t))"
  by (induction t) simp_all

lemma collect_apps_apps:
  "collect_apps (apps f as) = (fst (collect_apps f), snd (collect_apps f) @ as)"
  by (induction as arbitrary: f) simp_all

lemma collect_apps_eqD: "collect_apps t = (h, args) \<Longrightarrow> t = apps h args \<and> \<not> is_app h"
  using apps_collect_apps [of t] collect_apps_head [of t] by simp

lemma size_collect_apps_arg: "a \<in> set (snd (collect_apps t)) \<Longrightarrow> size a < size t"
  by (induction t) (auto simp: less_Suc_eq trans_less_add1)

section \<open>Properties of terms\<close>

text \<open>
  the iterative comparison decides equality of terms; without binder names, the quick
  comparison decides equality up to the names of binders.
\<close>

theorem syntactic_equality:
  "(syntactic_eq_iterative l r True \<longleftrightarrow> l = r) \<and> (quick_syntactic_eq l r \<longleftrightarrow> erase_names l = erase_names r)"
  by (simp add: syntactic_eq_iterative_names quick_syntactic_eq_iff)

text \<open>
  Taking an application apart and building it again are inverse: the spine of a term
  rebuilds the term and its head is no application, and the spine of a built application has
  the arguments it was built with.
\<close>

theorem spine_round_trip:
  "apps (fst (collect_apps t)) (snd (collect_apps t)) = t \<and> \<not> is_app (fst (collect_apps t)) \<and>
   collect_apps (apps t as) = (fst (collect_apps t), snd (collect_apps t) @ as)"
  by (simp add: apps_collect_apps collect_apps_head collect_apps_apps)

end
