(* ===== verification/Universe_Level.thy ===== *)
theory Universe_Level
  imports Kernel_Syntax
begin

text \<open>
  Universe levels (\<^verbatim>\<open>npa-kernel/src/level.rs\<close>): the total order, the stack-safe
  traversals that clone, normalize and substitute, well-formedness and canonicity checks.
  The source replaces recursion by explicit frame and value stacks; the model keeps the
  stacks, and the lemmas show that each traversal computes the recursive function one
  would write, that normalization keeps the value of a level under every assignment of
  its parameters, and that it is idempotent.
\<close>

section \<open>Comparison\<close>

fun level_rank :: "level \<Rightarrow> nat" where
  "level_rank LZero = 0"
| "level_rank (LSucc _) = 1"
| "level_rank (LMax _ _) = 2"
| "level_rank (LIMax _ _) = 3"
| "level_rank (LParam _) = 4"

function level_cmp_loop :: "(level \<times> level) list \<Rightarrow> ordering" where
  "level_cmp_loop [] = Equal"
| "level_cmp_loop ((l, r) # pending) =
     (let ord = cmp (level_rank l) (level_rank r) in
      if ord \<noteq> Equal then ord else
      (case (l, r) of
         (LZero, LZero) \<Rightarrow> level_cmp_loop pending
       | (LSucc a, LSucc b) \<Rightarrow> level_cmp_loop ((a, b) # pending)
       | (LMax a b, LMax c d) \<Rightarrow> level_cmp_loop ((a, c) # (b, d) # pending)
       | (LIMax a b, LIMax c d) \<Rightarrow> level_cmp_loop ((a, c) # (b, d) # pending)
       | (LParam x, LParam y) \<Rightarrow>
           (let o' = cmp x y in if o' \<noteq> Equal then o' else level_cmp_loop pending)
       | _ \<Rightarrow> ord))"
  by pat_completeness auto
termination
  by (relation "measure (\<lambda>ps. \<Sum>(l, r) \<leftarrow> ps. 2 * size l + 1)") auto

definition level_cmp_stack_safe :: "level \<Rightarrow> level \<Rightarrow> ordering" where
  "level_cmp_stack_safe l r = level_cmp_loop [(l, r)]"

definition level_eq_stack_safe :: "level \<Rightarrow> level \<Rightarrow> bool" where
  "level_eq_stack_safe l r = (level_cmp_stack_safe l r = Equal)"

text \<open>The recursive comparison the loop stands for.\<close>

fun level_cmp :: "level \<Rightarrow> level \<Rightarrow> ordering" where
  "level_cmp (LSucc a) (LSucc b) = level_cmp a b"
| "level_cmp (LMax a b) (LMax c d) = then_with (level_cmp a c) (level_cmp b d)"
| "level_cmp (LIMax a b) (LIMax c d) = then_with (level_cmp a c) (level_cmp b d)"
| "level_cmp (LParam x) (LParam y) = cmp x y"
| "level_cmp l r = cmp (level_rank l) (level_rank r)"

lemma level_rank_eq_0 [simp]: "level_rank l = 0 \<longleftrightarrow> l = LZero"
  by (cases l) simp_all

lemma level_cmp_loop_Cons:
  "level_cmp_loop ((l, r) # ps) = then_with (level_cmp l r) (level_cmp_loop ps)"
proof (induction l r arbitrary: ps rule: level_cmp.induct)
  case (4 x y)
  then show ?case by (simp add: cmp_def)
qed (simp_all add: then_with_assoc, simp_all add: cmp_def)

lemma level_cmp_stack_safe_eq: "level_cmp_stack_safe l r = level_cmp l r"
  by (simp add: level_cmp_stack_safe_def level_cmp_loop_Cons del: level_cmp_loop.simps(2))
    (cases "level_cmp l r"; simp)

lemma level_cmp_Equal [simp]: "level_cmp l r = Equal \<longleftrightarrow> l = r"
  by (induction l r rule: level_cmp.induct) auto

lemma level_cmp_refl [simp]: "level_cmp l l = Equal"
  by simp

lemma level_cmp_Greater: "level_cmp l r = Greater \<longleftrightarrow> level_cmp r l = Less"
  by (induction l r rule: level_cmp.induct)
    (auto simp: then_with_Less then_with_Greater)

lemma level_cmp_asym: "level_cmp l r = Less \<Longrightarrow> level_cmp r l = Greater"
  by (simp add: level_cmp_Greater)

lemma level_cmp_Less_rank: "level_cmp l r = Less \<Longrightarrow> level_rank l \<le> level_rank r"
  by (induction l r rule: level_cmp.induct) auto

lemma level_cmp_trans: "level_cmp a b = Less \<Longrightarrow> level_cmp b c = Less \<Longrightarrow> level_cmp a c = Less"
proof (induction a arbitrary: b c)
  case LZero
  then show ?case by (cases b; cases c) simp_all
next
  case (LSucc a)
  then show ?case by (cases b; cases c) simp_all
next
  case (LMax a1 a2)
  then show ?case by (cases b; cases c) (auto simp: then_with_Less)
next
  case (LIMax a1 a2)
  then show ?case by (cases b; cases c) (auto simp: then_with_Less)
next
  case (LParam x)
  then show ?case by (cases b; cases c) auto
qed

instantiation level :: linorder
begin

definition less_level :: "level \<Rightarrow> level \<Rightarrow> bool" where
  "less_level l r = (level_cmp_stack_safe l r = Less)"

definition less_eq_level :: "level \<Rightarrow> level \<Rightarrow> bool" where
  "less_eq_level l r = (level_cmp_stack_safe l r \<noteq> Greater)"

instance
proof
  fix a b c :: level
  show "a < b \<longleftrightarrow> a \<le> b \<and> \<not> b \<le> a"
    using level_cmp_asym [of a b] level_cmp_asym [of b a]
    by (cases "level_cmp a b"; cases "level_cmp b a")
      (auto simp: less_level_def less_eq_level_def level_cmp_stack_safe_eq)
  show "a \<le> a"
    using level_cmp_Equal [of a a] by (simp add: less_eq_level_def level_cmp_stack_safe_eq)
  show "a \<le> b \<Longrightarrow> b \<le> c \<Longrightarrow> a \<le> c"
    using level_cmp_trans [of c b a] level_cmp_trans [of a b c]
    by (cases "level_cmp a b"; cases "level_cmp b c")
      (auto simp: less_eq_level_def level_cmp_stack_safe_eq level_cmp_Greater)
  show "a \<le> b \<Longrightarrow> b \<le> a \<Longrightarrow> a = b"
    by (cases "level_cmp a b") (auto simp: less_eq_level_def level_cmp_stack_safe_eq
        level_cmp_Greater)
  show "a \<le> b \<or> b \<le> a"
    by (cases "level_cmp a b") (auto simp: less_eq_level_def level_cmp_stack_safe_eq
        level_cmp_Greater)
qed

end

lemma level_eq_stack_safe_iff [simp]: "level_eq_stack_safe l r \<longleftrightarrow> l = r"
  by (simp add: level_eq_stack_safe_def level_cmp_stack_safe_eq)

lemma level_cmp_stack_safe_cmp: "level_cmp_stack_safe l r = cmp l r"
  unfolding cmp_def less_level_def level_cmp_stack_safe_eq
  by (metis level_cmp_Equal ordering.exhaust)

section \<open>The frame machine behind clone, normalize and substitute\<close>

datatype level_frame = FVisit level | FSucc | FMax | FIMax

definition pop_or_zero :: "level list \<Rightarrow> level \<times> level list" where
  "pop_or_zero vs = (case vs of [] \<Rightarrow> (LZero, []) | v # vs' \<Rightarrow> (v, vs'))"

text \<open>
  The loop shared by \<^verbatim>\<open>Level::clone\<close>, \<^verbatim>\<open>normalize_level\<close> and
  \<^verbatim>\<open>substitute_level\<close>: they differ in what a parameter pushes and in how the two
  operands of a \<^verbatim>\<open>Max\<close> and of an \<^verbatim>\<open>IMax\<close> are combined. The head of each list is
  the end of the source's vector; the operands are popped right operand first.
\<close>

fun frame_weight :: "level_frame \<Rightarrow> nat" where
  "frame_weight (FVisit l) = 3 * size l + 1"
| "frame_weight FSucc = 1"
| "frame_weight FMax = 1"
| "frame_weight FIMax = 1"

function (sequential) level_walk ::
  "(string \<Rightarrow> level) \<Rightarrow> (level \<Rightarrow> level \<Rightarrow> level) \<Rightarrow> (level \<Rightarrow> level \<Rightarrow> level)
   \<Rightarrow> level_frame list \<Rightarrow> level list \<Rightarrow> level" where
  "level_walk fp fm fi [] vs = fst (pop_or_zero vs)"
| "level_walk fp fm fi (FVisit LZero # fs) vs = level_walk fp fm fi fs (LZero # vs)"
| "level_walk fp fm fi (FVisit (LParam n) # fs) vs = level_walk fp fm fi fs (fp n # vs)"
| "level_walk fp fm fi (FVisit (LSucc i) # fs) vs =
     level_walk fp fm fi (FVisit i # FSucc # fs) vs"
| "level_walk fp fm fi (FVisit (LMax l r) # fs) vs =
     level_walk fp fm fi (FVisit l # FVisit r # FMax # fs) vs"
| "level_walk fp fm fi (FVisit (LIMax l r) # fs) vs =
     level_walk fp fm fi (FVisit l # FVisit r # FIMax # fs) vs"
| "level_walk fp fm fi (FSucc # fs) vs =
     (let (i, vs1) = pop_or_zero vs in level_walk fp fm fi fs (LSucc i # vs1))"
| "level_walk fp fm fi (FMax # fs) vs =
     (let (r, vs1) = pop_or_zero vs; (l, vs2) = pop_or_zero vs1
      in level_walk fp fm fi fs (fm l r # vs2))"
| "level_walk fp fm fi (FIMax # fs) vs =
     (let (r, vs1) = pop_or_zero vs; (l, vs2) = pop_or_zero vs1
      in level_walk fp fm fi fs (fi l r # vs2))"
  by pat_completeness auto
termination
  by (relation "measure (\<lambda>(_, _, _, fs, _). sum_list (map frame_weight fs))") auto

definition level_clone :: "level \<Rightarrow> level" where
  "level_clone l = level_walk LParam LMax LIMax [FVisit l] []"

fun level_as_nat_loop :: "level \<Rightarrow> nat \<Rightarrow> nat option" where
  "level_as_nat_loop LZero v = Some v"
| "level_as_nat_loop (LSucc i) v = (if fits 32 (v + 1) then level_as_nat_loop i (v + 1) else None)"
| "level_as_nat_loop _ v = None"

definition level_as_nat :: "level \<Rightarrow> nat option" where
  "level_as_nat l = level_as_nat_loop l 0"

definition level_from_nat :: "nat \<Rightarrow> level" where
  "level_from_nat n = fold (\<lambda>_ l. LSucc l) [0..<n] LZero"

definition normalize_max_pair :: "level \<Rightarrow> level \<Rightarrow> level" where
  "normalize_max_pair l r =
     (if level_eq_stack_safe l r then l
      else if l = LZero then r
      else if r = LZero then l
      else (case (level_as_nat l, level_as_nat r) of
              (Some m, Some n) \<Rightarrow> level_from_nat (max m n)
            | _ \<Rightarrow> if level_cmp_stack_safe r l = Less then LMax r l else LMax l r))"

definition normalize_imax_pair :: "level \<Rightarrow> level \<Rightarrow> level" where
  "normalize_imax_pair l r =
     (case r of
        LZero \<Rightarrow> LZero
      | LSucc i \<Rightarrow> normalize_max_pair l (LSucc i)
      | _ \<Rightarrow> LIMax l r)"

definition normalize_level :: "level \<Rightarrow> level" where
  "normalize_level l = level_walk LParam normalize_max_pair normalize_imax_pair [FVisit l] []"

definition level_max :: "level \<Rightarrow> level \<Rightarrow> level" where
  "level_max l r = normalize_level (LMax l r)"

definition level_imax :: "level \<Rightarrow> level \<Rightarrow> level" where
  "level_imax l r = normalize_level (LIMax l r)"

definition level_eq :: "level \<Rightarrow> level \<Rightarrow> bool" where
  "level_eq l r = level_eq_stack_safe (normalize_level l) (normalize_level r)"

definition levels_eq :: "level list \<Rightarrow> level list \<Rightarrow> bool" where
  "levels_eq ls rs = (length ls = length rs \<and> list_all (\<lambda>(l, r). level_eq l r) (zip ls rs))"

text \<open>
  Indexing \<^verbatim>\<open>levels[index]\<close> panics when there are fewer levels than parameters; every
  caller in the source has compared the two lengths, and \<open>substitute_level\<close> is only
  used where they agree.
\<close>

definition substitute_level :: "level \<Rightarrow> string list \<Rightarrow> level list \<Rightarrow> level" where
  "substitute_level l params levels =
     level_walk
       (\<lambda>n. case position (\<lambda>p. p = n) params of Some i \<Rightarrow> levels ! i | None \<Rightarrow> LParam n)
       level_max level_imax [FVisit l] []"

section \<open>Well-formed and canonical levels\<close>

definition human_universe_meta_prefix :: string where
  "human_universe_meta_prefix = ''__npa_internal_human_universe_meta#''"

definition is_unresolved_universe_meta_param :: "string \<Rightarrow> bool" where
  "is_unresolved_universe_meta_param p \<longleftrightarrow>
     starts_with human_universe_meta_prefix p \<or> contains_char (CHR ''?'') p"

fun validate_params_loop :: "string list \<Rightarrow> string list \<Rightarrow> unit kresult" where
  "validate_params_loop seen [] = Inr ()"
| "validate_params_loop seen (p # ps) =
     (if is_unresolved_universe_meta_param p then Inl (UnresolvedUniverseMeta p)
      else if p \<in> set seen then Inl (DuplicateUniverseParam p)
      else validate_params_loop (p # seen) ps)"

definition validate_universe_params :: "string list \<Rightarrow> string list kresult" where
  "validate_universe_params params =
     rbind (validate_params_loop [] params) (\<lambda>_.
       if \<not> list_all (\<lambda>(a, b). a < b) (zip params (tl params))
       then Inl (NonCanonicalUniverseParams params)
       else Inr params)"

function ensure_level_wf_loop :: "string list \<Rightarrow> level list \<Rightarrow> unit kresult" where
  "ensure_level_wf_loop delta [] = Inr ()"
| "ensure_level_wf_loop delta (l # pending) =
     (case l of
        LZero \<Rightarrow> ensure_level_wf_loop delta pending
      | LSucc i \<Rightarrow> ensure_level_wf_loop delta (i # pending)
      | LMax a b \<Rightarrow> ensure_level_wf_loop delta (a # b # pending)
      | LIMax a b \<Rightarrow> ensure_level_wf_loop delta (a # b # pending)
      | LParam n \<Rightarrow>
          if is_unresolved_universe_meta_param n then Inl (UnresolvedUniverseMeta n)
          else if \<not> list_ex (\<lambda>p. p = n) delta then Inl (UnknownUniverseParam n)
          else ensure_level_wf_loop delta pending)"
  by pat_completeness auto
termination
  by (relation "measure (\<lambda>(_, ls). \<Sum>l \<leftarrow> ls. 2 * size l + 1)") auto

definition ensure_level_wf :: "string list \<Rightarrow> level \<Rightarrow> unit kresult" where
  "ensure_level_wf delta l = ensure_level_wf_loop delta [l]"

definition ensure_canonical_level :: "string list \<Rightarrow> level \<Rightarrow> unit kresult" where
  "ensure_canonical_level delta l =
     rbind (ensure_level_wf delta l) (\<lambda>_.
       if level_eq_stack_safe (normalize_level l) l then Inr ()
       else Inl (NonCanonicalUniverseLevel l))"

definition universe_constraint_cmp_stack_safe ::
  "universe_constraint \<Rightarrow> universe_constraint \<Rightarrow> ordering" where
  "universe_constraint_cmp_stack_safe a b =
     then_with (level_cmp_stack_safe (uc_lhs a) (uc_lhs b))
       (then_with (case (uc_relation a, uc_relation b) of
           (RLe, REq) \<Rightarrow> Less | (REq, RLe) \<Rightarrow> Greater | _ \<Rightarrow> Equal)
         (level_cmp_stack_safe (uc_rhs a) (uc_rhs b)))"

definition ensure_universe_constraints_wf ::
  "string list \<Rightarrow> universe_constraint list \<Rightarrow> unit kresult" where
  "ensure_universe_constraints_wf delta constraints =
     rbind (check_all (\<lambda>c. rbind (ensure_canonical_level delta (uc_lhs c))
                              (\<lambda>_. ensure_canonical_level delta (uc_rhs c))) constraints)
       (\<lambda>_. check_all (\<lambda>(a, b).
              (case universe_constraint_cmp_stack_safe a b of
                 Greater \<Rightarrow> Inl NonCanonicalUniverseConstraints
               | Equal \<Rightarrow> Inl DuplicateUniverseConstraint
               | Less \<Rightarrow> Inr ())) (zip constraints (tl constraints)))"

section \<open>The traversals compute their recursive counterparts\<close>

primrec level_fold ::
  "(string \<Rightarrow> level) \<Rightarrow> (level \<Rightarrow> level \<Rightarrow> level) \<Rightarrow> (level \<Rightarrow> level \<Rightarrow> level)
   \<Rightarrow> level \<Rightarrow> level" where
  "level_fold fp fm fi LZero = LZero"
| "level_fold fp fm fi (LSucc l) = LSucc (level_fold fp fm fi l)"
| "level_fold fp fm fi (LMax l r) = fm (level_fold fp fm fi l) (level_fold fp fm fi r)"
| "level_fold fp fm fi (LIMax l r) = fi (level_fold fp fm fi l) (level_fold fp fm fi r)"
| "level_fold fp fm fi (LParam n) = fp n"

lemma level_walk_visit:
  "level_walk fp fm fi (FVisit l # fs) vs = level_walk fp fm fi fs (level_fold fp fm fi l # vs)"
  by (induction l arbitrary: fs vs) (simp_all add: pop_or_zero_def)

lemma level_walk_fold: "level_walk fp fm fi [FVisit l] [] = level_fold fp fm fi l"
  by (simp add: level_walk_visit pop_or_zero_def)

lemma level_clone_id: "level_clone l = l"
  unfolding level_clone_def level_walk_fold by (induction l) simp_all

lemma normalize_level_simps [simp]:
  "normalize_level LZero = LZero"
  "normalize_level (LSucc l) = LSucc (normalize_level l)"
  "normalize_level (LMax l r) = normalize_max_pair (normalize_level l) (normalize_level r)"
  "normalize_level (LIMax l r) = normalize_imax_pair (normalize_level l) (normalize_level r)"
  "normalize_level (LParam n) = LParam n"
  by (simp_all add: normalize_level_def level_walk_fold)

section \<open>The value of a level\<close>

primrec level_val :: "(string \<Rightarrow> nat) \<Rightarrow> level \<Rightarrow> nat" where
  "level_val \<rho> LZero = 0"
| "level_val \<rho> (LSucc l) = Suc (level_val \<rho> l)"
| "level_val \<rho> (LMax l r) = max (level_val \<rho> l) (level_val \<rho> r)"
| "level_val \<rho> (LIMax l r) =
     (if level_val \<rho> r = 0 then 0 else max (level_val \<rho> l) (level_val \<rho> r))"
| "level_val \<rho> (LParam n) = \<rho> n"

primrec numeral_level :: "nat \<Rightarrow> level" where
  "numeral_level 0 = LZero"
| "numeral_level (Suc n) = LSucc (numeral_level n)"

lemma level_from_nat_eq: "level_from_nat n = numeral_level n"
  by (induction n) (simp_all add: level_from_nat_def)

lemma level_val_numeral [simp]: "level_val \<rho> (numeral_level n) = n"
  by (induction n) simp_all

lemma normalize_numeral [simp]: "normalize_level (numeral_level n) = numeral_level n"
  by (induction n) simp_all

lemma level_as_nat_loop_Some:
  "level_as_nat_loop l v = Some n \<Longrightarrow> v \<le> n \<and> l = numeral_level (n - v)"
  by (induction l v rule: level_as_nat_loop.induct)
    (auto split: if_splits simp: Suc_diff_le dest: Suc_leD intro: arg_cong [where f = numeral_level]
      simp flip: numeral_level.simps(2))

lemma level_as_nat_Some: "level_as_nat l = Some n \<Longrightarrow> l = numeral_level n"
  using level_as_nat_loop_Some [of l 0 n] by (simp add: level_as_nat_def)

lemma level_val_normalize_max_pair [simp]:
  "level_val \<rho> (normalize_max_pair l r) = max (level_val \<rho> l) (level_val \<rho> r)"
  by (auto simp: normalize_max_pair_def level_from_nat_eq max.commute
      split: option.splits dest!: level_as_nat_Some)

lemma level_val_normalize_imax_pair [simp]:
  "level_val \<rho> (normalize_imax_pair l r) = level_val \<rho> (LIMax l r)"
  by (cases r) (simp_all add: normalize_imax_pair_def)

lemma level_val_normalize [simp]: "level_val \<rho> (normalize_level l) = level_val \<rho> l"
  by (induction l) simp_all

lemma level_val_level_max [simp]:
  "level_val \<rho> (level_max l r) = max (level_val \<rho> l) (level_val \<rho> r)"
  unfolding level_max_def by simp

lemma level_val_level_imax [simp]: "level_val \<rho> (level_imax l r) = level_val \<rho> (LIMax l r)"
  unfolding level_imax_def by simp

section \<open>Canonical levels\<close>

lemma normalize_max_pair_canonical:
  assumes "normalize_level l = l" and "normalize_level r = r"
  shows "normalize_level (normalize_max_pair l r) = normalize_max_pair l r"
proof -
  have swap: "level_cmp_stack_safe r l = Less \<Longrightarrow> level_cmp_stack_safe l r \<noteq> Less"
    by (simp add: level_cmp_stack_safe_cmp)
  show ?thesis
    using assms swap
    by (auto simp: normalize_max_pair_def level_from_nat_eq split: option.splits)
qed

lemma normalize_imax_pair_canonical:
  assumes "normalize_level l = l" and "normalize_level r = r"
  shows "normalize_level (normalize_imax_pair l r) = normalize_imax_pair l r"
  using assms normalize_max_pair_canonical [OF assms]
  by (cases r) (simp_all add: normalize_imax_pair_def)

lemma normalize_level_idem [simp]: "normalize_level (normalize_level l) = normalize_level l"
  by (induction l) (simp_all add: normalize_max_pair_canonical normalize_imax_pair_canonical)

lemma level_eq_iff: "level_eq l r \<longleftrightarrow> normalize_level l = normalize_level r"
  by (simp add: level_eq_def)

lemma level_eq_refl [simp]: "level_eq l l"
  by (simp add: level_eq_iff)

lemma level_eq_val: "level_eq l r \<Longrightarrow> level_val \<rho> l = level_val \<rho> r"
  unfolding level_eq_iff by (metis level_val_normalize)

lemma levels_eq_iff: "levels_eq ls rs \<longleftrightarrow> list_all2 level_eq ls rs"
  by (simp add: levels_eq_def list_all2_iff list_all_iff)

lemma levels_eq_refl [simp]: "levels_eq ls ls"
  by (simp add: levels_eq_iff list_all2_refl)

section \<open>Well-formed levels and parameter lists\<close>

primrec level_params :: "level \<Rightarrow> string set" where
  "level_params LZero = {}"
| "level_params (LSucc l) = level_params l"
| "level_params (LMax l r) = level_params l \<union> level_params r"
| "level_params (LIMax l r) = level_params l \<union> level_params r"
| "level_params (LParam n) = {n}"

definition level_wf :: "string list \<Rightarrow> level \<Rightarrow> bool" where
  "level_wf delta l \<longleftrightarrow>
     (\<forall>n \<in> level_params l. n \<in> set delta \<and> \<not> is_unresolved_universe_meta_param n)"

lemma ensure_level_wf_loop_iff:
  "ensure_level_wf_loop delta ls = Inr u \<longleftrightarrow> (\<forall>l \<in> set ls. level_wf delta l)"
proof (induction delta ls rule: ensure_level_wf_loop.induct)
  case (1 delta)
  then show ?case by simp
next
  case (2 delta l pending)
  then show ?case
    by (cases l) (auto simp: level_wf_def list_ex_iff)
qed

lemma ensure_level_wf_iff: "ensure_level_wf delta l = Inr u \<longleftrightarrow> level_wf delta l"
  using ensure_level_wf_loop_iff [of delta "[l]" u]
  by (simp add: ensure_level_wf_def del: ensure_level_wf_loop.simps)

lemma level_val_cong:
  "(\<And>n. n \<in> level_params l \<Longrightarrow> \<rho> n = \<sigma> n) \<Longrightarrow> level_val \<rho> l = level_val \<sigma> l"
  by (induction l) auto

lemma level_params_normalize_max_pair:
  "level_params (normalize_max_pair l r) \<subseteq> level_params l \<union> level_params r"
proof -
  have "level_params (numeral_level n) = {}" for n
    by (induction n) simp_all
  then show ?thesis
    by (auto simp: normalize_max_pair_def level_from_nat_eq split: option.splits if_splits)
qed

lemma level_params_normalize: "level_params (normalize_level l) \<subseteq> level_params l"
proof (induction l)
  case (LMax l r)
  then show ?case
    using level_params_normalize_max_pair [of "normalize_level l" "normalize_level r"] by auto
next
  case (LIMax l r)
  then show ?case
    using level_params_normalize_max_pair [of "normalize_level l" "normalize_level r"]
    by (cases "normalize_level r") (auto simp: normalize_imax_pair_def)
qed auto

lemma level_wf_normalize: "level_wf delta l \<Longrightarrow> level_wf delta (normalize_level l)"
  using level_params_normalize [of l] by (auto simp: level_wf_def)

lemma validate_params_loop_iff:
  "validate_params_loop seen ps = Inr u \<longleftrightarrow>
     distinct ps \<and> set ps \<inter> set seen = {} \<and>
     (\<forall>p \<in> set ps. \<not> is_unresolved_universe_meta_param p)"
  by (induction seen ps rule: validate_params_loop.induct) auto

lemma adjacent_less_iff:
  "list_all (\<lambda>(a, b). a < b) (zip xs (tl xs)) \<longleftrightarrow> sorted_wrt (<) (xs :: 'a::linorder list)"
proof (induction xs)
  case Nil
  then show ?case by simp
next
  case (Cons x xs)
  then show ?case by (cases xs) (auto dest: less_trans)
qed

lemma validate_universe_params_iff:
  "validate_universe_params ps = Inr qs \<longleftrightarrow>
     qs = ps \<and> sorted_wrt (<) ps \<and> (\<forall>p \<in> set ps. \<not> is_unresolved_universe_meta_param p)"
  by (auto simp: validate_universe_params_def rbind_eq_Inr validate_params_loop_iff
      adjacent_less_iff strict_sorted_iff)

section \<open>Level substitution\<close>

definition subst_val ::
  "string list \<Rightarrow> level list \<Rightarrow> (string \<Rightarrow> nat) \<Rightarrow> string \<Rightarrow> nat" where
  "subst_val params levels \<rho> n =
     (case position (\<lambda>p. p = n) params of Some i \<Rightarrow> level_val \<rho> (levels ! i) | None \<Rightarrow> \<rho> n)"

lemma level_val_substitute:
  "level_val \<rho> (substitute_level l params levels) = level_val (subst_val params levels \<rho>) l"
  unfolding substitute_level_def level_walk_fold
  by (induction l) (simp_all add: subst_val_def split: option.split)

section \<open>Properties of levels\<close>

text \<open>
  C26: normalization is correct. The normal form of a level has the same value under every
  assignment of the parameters, is itself normal and mentions no new parameter.
\<close>

theorem normalization_correct:
  "level_val \<rho> (normalize_level l) = level_val \<rho> l \<and>
   normalize_level (normalize_level l) = normalize_level l \<and>
   level_params (normalize_level l) \<subseteq> level_params l"
  using level_params_normalize by simp

text \<open>
  C27: the comparison with an explicit stack computes the recursive comparison, and it is a
  total order: equal exactly on equal levels, antisymmetric and transitive.
\<close>

theorem level_comparison_order:
  "level_cmp_stack_safe l r = level_cmp l r \<and>
   (level_cmp_stack_safe l r = Equal \<longleftrightarrow> l = r) \<and>
   (level_cmp_stack_safe l r = Less \<longleftrightarrow> level_cmp_stack_safe r l = Greater) \<and>
   (level_cmp_stack_safe l r = Less \<longrightarrow> level_cmp_stack_safe r s = Less \<longrightarrow>
      level_cmp_stack_safe l s = Less)"
  unfolding level_cmp_stack_safe_eq by (auto simp: level_cmp_Greater intro: level_cmp_trans)

theorem level_comparison_order_witness:
  "level_cmp_stack_safe LZero (LParam ''u'') = Less"
proof -
  have "level_cmp_stack_safe LZero (LSucc LZero) = Less"
    "level_cmp_stack_safe (LSucc LZero) (LParam ''u'') = Less" by code_simp+
  with level_comparison_order [of LZero "LSucc LZero" "LParam ''u''"] show ?thesis by simp
qed

text \<open>
  level substitution is simultaneous: the value of the substituted level is the value of
  the level where each listed parameter reads the value of its level, the first occurrence of
  a parameter counting.
\<close>

theorem substitute_level_correct:
  "level_val \<rho> (substitute_level l params levels) = level_val (subst_val params levels \<rho>) l"
  by (rule level_val_substitute)

end
