(* ===== verification/Kernel_Subst.thy ===== *)
theory Kernel_Subst
  imports Universe_Level
begin

text \<open>
  Substitution (\<^verbatim>\<open>npa-kernel/src/subst.rs\<close>) and local contexts (\<^verbatim>\<open>context.rs\<close>). The
  source returns \<^verbatim>\<open>None\<close> for a subterm it leaves unchanged and rebuilds only the rest,
  and it computes de Bruijn indices in \<^verbatim>\<open>u32\<close> and \<^verbatim>\<open>i32\<close>; both are kept here. The
  lemmas relate these functions to the textbook operations \<open>lift\<close> and \<open>bsubst\<close> on
  terms whose indices are below \<open>2 ^ 31\<close>, and show that this bound is kept.
\<close>

section \<open>Machine integers\<close>

definition as_i32 :: "nat \<Rightarrow> int" where
  "as_i32 n = (let m = int n mod 2 ^ 32 in if m < 2 ^ 31 then m else m - 2 ^ 32)"

definition i32_add :: "int \<Rightarrow> int \<Rightarrow> int kresult" where
  "i32_add a b =
     (if - (2 ^ 31) \<le> a + b \<and> a + b < 2 ^ 31 then Inr (a + b)
      else Inl (Panic ''attempt to add with overflow''))"

definition u32_succ :: "nat \<Rightarrow> nat kresult" where
  "u32_succ n =
     (if fits 32 (n + 1) then Inr (n + 1) else Inl (Panic ''attempt to add with overflow''))"

section \<open>Rebuilding only what changed\<close>

definition unwrap_or :: "'a \<Rightarrow> 'a option \<Rightarrow> 'a" where
  "unwrap_or d x = (case x of None \<Rightarrow> d | Some v \<Rightarrow> v)"

definition rebuild :: "('a \<Rightarrow> 'a \<Rightarrow> 'b) \<Rightarrow> 'a \<Rightarrow> 'a \<Rightarrow> 'a option \<Rightarrow> 'a option \<Rightarrow> 'b option" where
  "rebuild con x y nx ny =
     (if nx = None \<and> ny = None then None else Some (con (unwrap_or x nx) (unwrap_or y ny)))"

lemma unwrap_or_simps [simp]: "unwrap_or d None = d" "unwrap_or d (Some v) = v"
  by (simp_all add: unwrap_or_def)

lemma unwrap_or_rebuild [simp]:
  "unwrap_or (con x y) (rebuild con x y nx ny) = con (unwrap_or x nx) (unwrap_or y ny)"
  by (simp add: rebuild_def)

section \<open>Universe parameters\<close>

text \<open>Indexing \<^verbatim>\<open>levels[index]\<close> out of range panics.\<close>

primrec subst_level_changed :: "level \<Rightarrow> string list \<Rightarrow> level list \<Rightarrow> level option kresult" where
  "subst_level_changed LZero params levels = Inr None"
| "subst_level_changed (LSucc i) params levels =
     rbind (subst_level_changed i params levels) (\<lambda>n. Inr (map_option LSucc n))"
| "subst_level_changed (LMax l r) params levels =
     rbind (subst_level_changed l params levels) (\<lambda>nl.
     rbind (subst_level_changed r params levels) (\<lambda>nr. Inr (rebuild level_max l r nl nr)))"
| "subst_level_changed (LIMax l r) params levels =
     rbind (subst_level_changed l params levels) (\<lambda>nl.
     rbind (subst_level_changed r params levels) (\<lambda>nr. Inr (rebuild level_imax l r nl nr)))"
| "subst_level_changed (LParam n) params levels =
     (case position (\<lambda>p. p = n) params of
        None \<Rightarrow> Inr None
      | Some i \<Rightarrow> (case get_at levels i of
          None \<Rightarrow> Inl (Panic ''index out of bounds'') | Some l \<Rightarrow> Inr (Some l)))"

text \<open>
  The loop over the arguments of a constant: \<open>visited\<close> are the levels already seen,
  \<open>substituted\<close> the vector that exists from the first change on.
\<close>

fun subst_const_loop ::
  "string list \<Rightarrow> level list \<Rightarrow> level list \<Rightarrow> level list option \<Rightarrow> level list
   \<Rightarrow> level list option kresult" where
  "subst_const_loop params levels visited substituted [] = Inr substituted"
| "subst_const_loop params levels visited substituted (u # us) =
     rbind (subst_level_changed u params levels) (\<lambda>n.
       subst_const_loop params levels (visited @ [u])
         (case n of
            Some v \<Rightarrow> Some (unwrap_or visited substituted @ [v])
          | None \<Rightarrow> map_option (\<lambda>s. s @ [u]) substituted) us)"

primrec subst_levels_expr_changed ::
  "expr \<Rightarrow> string list \<Rightarrow> level list \<Rightarrow> expr option kresult" where
  "subst_levels_expr_changed (Sort l) params levels =
     rbind (subst_level_changed l params levels) (\<lambda>n. Inr (map_option Sort n))"
| "subst_levels_expr_changed (BVar i) params levels = Inr None"
| "subst_levels_expr_changed (Const c us) params levels =
     rbind (subst_const_loop params levels [] None us) (\<lambda>n. Inr (map_option (Const c) n))"
| "subst_levels_expr_changed (App f a) params levels =
     rbind (subst_levels_expr_changed f params levels) (\<lambda>nf.
     rbind (subst_levels_expr_changed a params levels) (\<lambda>na. Inr (rebuild App f a nf na)))"
| "subst_levels_expr_changed (Lam x t b) params levels =
     rbind (subst_levels_expr_changed t params levels) (\<lambda>nt.
     rbind (subst_levels_expr_changed b params levels) (\<lambda>nb. Inr (rebuild (Lam x) t b nt nb)))"
| "subst_levels_expr_changed (Pi x t b) params levels =
     rbind (subst_levels_expr_changed t params levels) (\<lambda>nt.
     rbind (subst_levels_expr_changed b params levels) (\<lambda>nb. Inr (rebuild (Pi x) t b nt nb)))"

definition subst_levels_expr :: "expr \<Rightarrow> string list \<Rightarrow> level list \<Rightarrow> expr kresult" where
  "subst_levels_expr e params levels =
     (if params = [] then Inr e
      else rbind (subst_levels_expr_changed e params levels) (\<lambda>n. Inr (unwrap_or e n)))"

section \<open>Bound variables\<close>

primrec shift_changed :: "expr \<Rightarrow> int \<Rightarrow> nat \<Rightarrow> expr option kresult" where
  "shift_changed (Sort l) amount cutoff = Inr None"
| "shift_changed (BVar i) amount cutoff =
     (if i < cutoff then Inr None
      else rbind (i32_add (as_i32 i) amount) (\<lambda>shifted.
        if shifted < 0 then Inl (InvalidBVar i) else Inr (Some (BVar (nat shifted)))))"
| "shift_changed (Const c us) amount cutoff = Inr None"
| "shift_changed (App f a) amount cutoff =
     rbind (shift_changed f amount cutoff) (\<lambda>nf.
     rbind (shift_changed a amount cutoff) (\<lambda>na. Inr (rebuild App f a nf na)))"
| "shift_changed (Lam x t b) amount cutoff =
     rbind (shift_changed t amount cutoff) (\<lambda>nt.
     rbind (u32_succ cutoff) (\<lambda>cutoff'.
     rbind (shift_changed b amount cutoff') (\<lambda>nb. Inr (rebuild (Lam x) t b nt nb))))"
| "shift_changed (Pi x t b) amount cutoff =
     rbind (shift_changed t amount cutoff) (\<lambda>nt.
     rbind (u32_succ cutoff) (\<lambda>cutoff'.
     rbind (shift_changed b amount cutoff') (\<lambda>nb. Inr (rebuild (Pi x) t b nt nb))))"

definition shift :: "expr \<Rightarrow> int \<Rightarrow> nat \<Rightarrow> expr kresult" where
  "shift e amount cutoff =
     (if amount = 0 then Inr e
      else rbind (shift_changed e amount cutoff) (\<lambda>n. Inr (unwrap_or e n)))"

primrec subst_changed :: "expr \<Rightarrow> nat \<Rightarrow> expr \<Rightarrow> expr option kresult" where
  "subst_changed (Sort l) target replacement = Inr None"
| "subst_changed (BVar i) target replacement =
     (if i = target then rbind (shift replacement (as_i32 target) 0) (\<lambda>e. Inr (Some e))
      else if i > target then Inr (Some (BVar (i - 1)))
      else Inr None)"
| "subst_changed (Const c us) target replacement = Inr None"
| "subst_changed (App f a) target replacement =
     rbind (subst_changed f target replacement) (\<lambda>nf.
     rbind (subst_changed a target replacement) (\<lambda>na. Inr (rebuild App f a nf na)))"
| "subst_changed (Lam x t b) target replacement =
     rbind (subst_changed t target replacement) (\<lambda>nt.
     rbind (u32_succ target) (\<lambda>target'.
     rbind (subst_changed b target' replacement) (\<lambda>nb. Inr (rebuild (Lam x) t b nt nb))))"
| "subst_changed (Pi x t b) target replacement =
     rbind (subst_changed t target replacement) (\<lambda>nt.
     rbind (u32_succ target) (\<lambda>target'.
     rbind (subst_changed b target' replacement) (\<lambda>nb. Inr (rebuild (Pi x) t b nt nb))))"

definition subst_expr :: "expr \<Rightarrow> nat \<Rightarrow> expr \<Rightarrow> expr kresult" where
  "subst_expr e target replacement =
     rbind (subst_changed e target replacement) (\<lambda>n. Inr (unwrap_or e n))"

definition instantiate :: "expr \<Rightarrow> expr \<Rightarrow> expr kresult" where
  "instantiate body arg = subst_expr body 0 arg"

section \<open>Local contexts\<close>

record ctx =
  locals :: "expr list"

definition ctx_new :: ctx where
  "ctx_new = \<lparr>locals = []\<rparr>"

definition push_assumption :: "ctx \<Rightarrow> expr \<Rightarrow> ctx" where
  "push_assumption c t = c\<lparr>locals := locals c @ [t]\<rparr>"

definition ctx_lookup :: "ctx \<Rightarrow> nat \<Rightarrow> expr kresult" where
  "ctx_lookup c i =
     (if i \<ge> length (locals c) then Inl (InvalidBVar i)
      else Inr (locals c ! (length (locals c) - 1 - i)))"

definition lookup_type :: "ctx \<Rightarrow> nat \<Rightarrow> expr kresult" where
  "lookup_type c i =
     rbind (ctx_lookup c i) (\<lambda>t. rbind (i32_add (as_i32 i) 1) (\<lambda>amount. shift t amount 0))"

definition ensure_bound :: "ctx \<Rightarrow> nat \<Rightarrow> unit kresult" where
  "ensure_bound c i = rbind (ctx_lookup c i) (\<lambda>_. Inr ())"

section \<open>The textbook operations\<close>

primrec lift :: "nat \<Rightarrow> nat \<Rightarrow> expr \<Rightarrow> expr" where
  "lift n k (Sort l) = Sort l"
| "lift n k (BVar i) = (if i < k then BVar i else BVar (i + n))"
| "lift n k (Const c us) = Const c us"
| "lift n k (App f a) = App (lift n k f) (lift n k a)"
| "lift n k (Lam x t b) = Lam x (lift n k t) (lift n (Suc k) b)"
| "lift n k (Pi x t b) = Pi x (lift n k t) (lift n (Suc k) b)"

primrec bsubst :: "expr \<Rightarrow> nat \<Rightarrow> expr \<Rightarrow> expr" where
  "bsubst (Sort l) k s = Sort l"
| "bsubst (BVar i) k s = (if i = k then lift k 0 s else if i > k then BVar (i - 1) else BVar i)"
| "bsubst (Const c us) k s = Const c us"
| "bsubst (App f a) k s = App (bsubst f k s) (bsubst a k s)"
| "bsubst (Lam x t b) k s = Lam x (bsubst t k s) (bsubst b (Suc k) s)"
| "bsubst (Pi x t b) k s = Pi x (bsubst t k s) (bsubst b (Suc k) s)"

text \<open>\<open>bvars_below n e\<close>: every index that occurs in \<open>e\<close>, bound or loose, is below \<open>n\<close>.\<close>

primrec bvars_below :: "nat \<Rightarrow> expr \<Rightarrow> bool" where
  "bvars_below n (Sort l) = True"
| "bvars_below n (BVar i) = (i < n)"
| "bvars_below n (Const c us) = True"
| "bvars_below n (App f a) = (bvars_below n f \<and> bvars_below n a)"
| "bvars_below n (Lam x t b) = (bvars_below n t \<and> bvars_below n b)"
| "bvars_below n (Pi x t b) = (bvars_below n t \<and> bvars_below n b)"

text \<open>\<open>closed_at k e\<close>: every loose index of \<open>e\<close> is below \<open>k\<close>.\<close>

primrec closed_at :: "nat \<Rightarrow> expr \<Rightarrow> bool" where
  "closed_at k (Sort l) = True"
| "closed_at k (BVar i) = (i < k)"
| "closed_at k (Const c us) = True"
| "closed_at k (App f a) = (closed_at k f \<and> closed_at k a)"
| "closed_at k (Lam x t b) = (closed_at k t \<and> closed_at (Suc k) b)"
| "closed_at k (Pi x t b) = (closed_at k t \<and> closed_at (Suc k) b)"

primrec binder_depth :: "expr \<Rightarrow> nat" where
  "binder_depth (Sort l) = 0"
| "binder_depth (BVar i) = 0"
| "binder_depth (Const c us) = 0"
| "binder_depth (App f a) = max (binder_depth f) (binder_depth a)"
| "binder_depth (Lam x t b) = max (binder_depth t) (Suc (binder_depth b))"
| "binder_depth (Pi x t b) = max (binder_depth t) (Suc (binder_depth b))"

definition idx_limit :: nat where
  "idx_limit = 2 ^ 31"

abbreviation small :: "expr \<Rightarrow> bool" where
  "small \<equiv> bvars_below idx_limit"

section \<open>Agreement on small terms\<close>

lemma lift_0 [simp]: "lift 0 k e = e"
  by (induction e arbitrary: k) simp_all

lemma as_i32_small: "n < idx_limit \<Longrightarrow> as_i32 n = int n"
  by (simp add: as_i32_def idx_limit_def Let_def)

lemma i32_add_Inr: "i32_add a b = Inr c \<longleftrightarrow> c = a + b \<and> - (2 ^ 31) \<le> a + b \<and> a + b < 2 ^ 31"
  by (auto simp: i32_add_def)

lemma u32_succ_Inr: "u32_succ n = Inr m \<longleftrightarrow> m = Suc n \<and> Suc n < 2 ^ 32"
  by (auto simp: u32_succ_def fits_iff)

lemma bvars_below_mono: "bvars_below m e \<Longrightarrow> m \<le> n \<Longrightarrow> bvars_below n e"
  by (induction e) auto

lemma closed_at_mono: "closed_at m e \<Longrightarrow> m \<le> n \<Longrightarrow> closed_at n e"
  by (induction e arbitrary: m n) auto

lemma closed_at_bvars_below: "closed_at k e \<Longrightarrow> bvars_below (k + binder_depth e) e"
proof (induction e arbitrary: k)
  case (App f a)
  then show ?case
    by (auto intro: bvars_below_mono [of "k + binder_depth f"] bvars_below_mono [of "k + binder_depth a"])
next
  case (Lam x t b)
  from Lam.IH(1) [of k] Lam.IH(2) [of "Suc k"] Lam.prems show ?case
    by (auto elim!: bvars_below_mono)
next
  case (Pi x t b)
  from Pi.IH(1) [of k] Pi.IH(2) [of "Suc k"] Pi.prems show ?case
    by (auto elim!: bvars_below_mono)
qed auto

lemma shift_changed_lift:
  "small e \<Longrightarrow> shift_changed e (int n) k = Inr r \<Longrightarrow>
   unwrap_or e r = lift n k e \<and> small (lift n k e)"
proof (induction e arbitrary: k r)
  case (BVar i)
  then show ?case
    by (auto simp: as_i32_small rbind_eq_Inr i32_add_Inr idx_limit_def split: if_splits)
next
  case (App f a)
  from App.prems(2) obtain nf na where
    "shift_changed f (int n) k = Inr nf" "shift_changed a (int n) k = Inr na" "r = rebuild App f a nf na"
    by (auto elim!: rbind_InrE)
  with App show ?case by simp
next
  case (Lam x t b)
  from Lam.prems(2) obtain nt nb where
    "shift_changed t (int n) k = Inr nt" "shift_changed b (int n) (Suc k) = Inr nb"
    "r = rebuild (Lam x) t b nt nb"
    by (auto elim!: rbind_InrE simp: u32_succ_Inr)
  with Lam show ?case by simp
next
  case (Pi x t b)
  from Pi.prems(2) obtain nt nb where
    "shift_changed t (int n) k = Inr nt" "shift_changed b (int n) (Suc k) = Inr nb"
    "r = rebuild (Pi x) t b nt nb"
    by (auto elim!: rbind_InrE simp: u32_succ_Inr)
  with Pi show ?case by simp
qed auto

lemma shift_lift:
  "small e \<Longrightarrow> shift e (int n) k = Inr e' \<Longrightarrow> e' = lift n k e \<and> small e'"
  using shift_changed_lift [of e n k] by (auto simp: shift_def rbind_eq_Inr split: if_splits)

lemma shift_changed_total:
  "bvars_below B e \<Longrightarrow> B + n \<le> idx_limit \<Longrightarrow> k + binder_depth e < 2 ^ 32 \<Longrightarrow>
   \<exists>r. shift_changed e (int n) k = Inr r"
proof (induction e arbitrary: k)
  case (BVar i)
  then show ?case by (auto simp: as_i32_small i32_add_def idx_limit_def)
next
  case (App f a)
  from App.prems have "k + binder_depth f < 2 ^ 32" "k + binder_depth a < 2 ^ 32" by simp_all
  with App.IH [of k] App.prems obtain nf na where
    "shift_changed f (int n) k = Inr nf" "shift_changed a (int n) k = Inr na" by auto
  then show ?case by simp
next
  case (Lam x t b)
  from Lam.IH(1) [of k] Lam.IH(2) [of "Suc k"] Lam.prems show ?case
    by (fastforce simp: rbind_eq_Inr u32_succ_Inr)
next
  case (Pi x t b)
  from Pi.IH(1) [of k] Pi.IH(2) [of "Suc k"] Pi.prems show ?case
    by (fastforce simp: rbind_eq_Inr u32_succ_Inr)
qed auto

lemma shift_total:
  assumes "bvars_below B e" and "B + n \<le> idx_limit" and "k + binder_depth e < 2 ^ 32"
  shows "shift e (int n) k = Inr (lift n k e)"
proof -
  from assms(1,2) have "small e" by (auto intro: bvars_below_mono)
  with shift_changed_total [OF assms] shift_changed_lift [of e n k] show ?thesis
    by (fastforce simp: shift_def)
qed

lemma subst_changed_bsubst:
  "small e \<Longrightarrow> small s \<Longrightarrow> subst_changed e k s = Inr r \<Longrightarrow>
   unwrap_or e r = bsubst e k s \<and> small (bsubst e k s)"
proof (induction e arbitrary: k r)
  case (BVar i)
  then show ?case
    using shift_lift [of s k 0] by (auto simp: as_i32_small rbind_eq_Inr split: if_splits)
next
  case (App f a)
  from App.prems(3) obtain nf na where
    "subst_changed f k s = Inr nf" "subst_changed a k s = Inr na" "r = rebuild App f a nf na"
    by (auto elim!: rbind_InrE)
  with App show ?case by simp
next
  case (Lam x t b)
  from Lam.prems(3) obtain nt nb where
    "subst_changed t k s = Inr nt" "subst_changed b (Suc k) s = Inr nb"
    "r = rebuild (Lam x) t b nt nb"
    by (auto elim!: rbind_InrE simp: u32_succ_Inr)
  with Lam show ?case by simp
next
  case (Pi x t b)
  from Pi.prems(3) obtain nt nb where
    "subst_changed t k s = Inr nt" "subst_changed b (Suc k) s = Inr nb"
    "r = rebuild (Pi x) t b nt nb"
    by (auto elim!: rbind_InrE simp: u32_succ_Inr)
  with Pi show ?case by simp
qed auto

lemma instantiate_bsubst:
  "small e \<Longrightarrow> small s \<Longrightarrow> instantiate e s = Inr e' \<Longrightarrow> e' = bsubst e 0 s \<and> small e'"
  using subst_changed_bsubst [of e s 0] by (auto simp: instantiate_def subst_expr_def rbind_eq_Inr)

lemma subst_changed_total:
  "bvars_below B e \<Longrightarrow> k + binder_depth e < C \<Longrightarrow> bvars_below D s \<Longrightarrow> D + C \<le> idx_limit \<Longrightarrow>
   binder_depth s < 2 ^ 32 \<Longrightarrow> \<exists>r. subst_changed e k s = Inr r"
proof (induction e arbitrary: k)
  case (BVar i)
  then show ?case
    using shift_total [of D s k 0] by (auto simp: as_i32_small idx_limit_def)
next
  case (App f a)
  from App.IH [of k] App.prems show ?case by (fastforce simp: rbind_eq_Inr)
next
  case (Lam x t b)
  from Lam.IH(1) [of k] Lam.IH(2) [of "Suc k"] Lam.prems show ?case
    by (fastforce simp: rbind_eq_Inr u32_succ_Inr idx_limit_def)
next
  case (Pi x t b)
  from Pi.IH(1) [of k] Pi.IH(2) [of "Suc k"] Pi.prems show ?case
    by (fastforce simp: rbind_eq_Inr u32_succ_Inr idx_limit_def)
qed auto

lemma instantiate_total:
  assumes "small e" and "bvars_below D s" and "D + binder_depth e < idx_limit"
    and "binder_depth s < 2 ^ 32"
  shows "instantiate e s = Inr (bsubst e 0 s)"
proof -
  from assms(2,3) have "small s" by (auto intro: bvars_below_mono)
  with subst_changed_total [of idx_limit e 0 "Suc (binder_depth e)" D s] assms
    subst_changed_bsubst [of e s 0] show ?thesis
    by (fastforce simp: instantiate_def subst_expr_def)
qed

section \<open>Scoping\<close>

lemma closed_at_lift: "closed_at (m + k) e \<Longrightarrow> closed_at (m + n + k) (lift n k e)"
proof (induction e arbitrary: k)
  case (Lam x t b)
  from Lam.IH(1) [of k] Lam.IH(2) [of "Suc k"] Lam.prems show ?case by simp
next
  case (Pi x t b)
  from Pi.IH(1) [of k] Pi.IH(2) [of "Suc k"] Pi.prems show ?case by simp
qed auto

lemma closed_at_bsubst:
  "closed_at (Suc (m + k)) e \<Longrightarrow> closed_at m s \<Longrightarrow> closed_at (m + k) (bsubst e k s)"
proof (induction e arbitrary: k)
  case (BVar i)
  then show ?case using closed_at_lift [of m 0 s k] by (auto simp: ac_simps)
next
  case (Lam x t b)
  from Lam.IH(1) [of k] Lam.IH(2) [of "Suc k"] Lam.prems show ?case by simp
next
  case (Pi x t b)
  from Pi.IH(1) [of k] Pi.IH(2) [of "Suc k"] Pi.prems show ?case by simp
qed auto

lemma lift_closed: "closed_at k e \<Longrightarrow> lift n k e = e"
  by (induction e arbitrary: k) auto

lemma bsubst_closed: "closed_at k e \<Longrightarrow> bsubst e k s = e"
  by (induction e arbitrary: k) auto

section \<open>Properties of substitution\<close>

text \<open>
  C22: instantiation computes capture-avoiding substitution of the innermost binder. For a
  term with indices below the cast limit and an argument whose indices stay below it under
  the binders of the term, the 32-bit code returns the reference substitution, and the
  instance of a body closed up to one binder by a closed argument is closed.
\<close>

theorem instantiate_correct:
  assumes "small e" and "bvars_below D s" and "D + binder_depth e < 2 ^ 31"
    and "binder_depth s < 2 ^ 32"
  shows "instantiate e s = Inr (bsubst e 0 s) \<and>
    (closed_at 1 e \<longrightarrow> closed_at 0 s \<longrightarrow> closed_at 0 (bsubst e 0 s))"
proof -
  have "instantiate e s = Inr (bsubst e 0 s)"
    by (rule instantiate_total [OF assms(1,2)]) (use assms(3,4) in \<open>simp_all add: idx_limit_def\<close>)
  with closed_at_bsubst [of 0 0 e s] show ?thesis by simp
qed

theorem instantiate_correct_witness:
  "instantiate (Lam ''x'' (Sort LZero) (App (BVar 1) (BVar 0))) (Const ''c'' []) =
     Inr (bsubst (Lam ''x'' (Sort LZero) (App (BVar 1) (BVar 0))) 0 (Const ''c'' []))"
  using instantiate_correct [of "Lam ''x'' (Sort LZero) (App (BVar 1) (BVar 0))" 0 "Const ''c'' []"]
  by (simp add: idx_limit_def)

text \<open>
  Shifting computes lifting for terms whose shifted indices stay below the cast limit,
  and closed terms are not changed by it.
\<close>

theorem shift_correct:
  assumes "bvars_below B e" and "B + n \<le> 2 ^ 31" and "k + binder_depth e < 2 ^ 32"
  shows "shift e (int n) k = Inr (lift n k e) \<and> (closed_at k e \<longrightarrow> lift n k e = e)"
  using shift_total [OF assms(1) _ assms(3)] assms(2) lift_closed by (simp add: idx_limit_def)

theorem shift_correct_witness:
  "shift (Lam ''x'' (BVar 0) (BVar 1)) (int 2) 0 = Inr (lift 2 0 (Lam ''x'' (BVar 0) (BVar 1)))"
  using shift_correct [of 2 "Lam ''x'' (BVar 0) (BVar 1)" 2 0] by simp

text \<open>Lifting in 32-bit arithmetic: the index of a free variable is reduced modulo \<open>2\<^sup>3\<^sup>2\<close>.\<close>

primrec wrapping_lift :: "nat \<Rightarrow> nat \<Rightarrow> expr \<Rightarrow> expr" where
  "wrapping_lift n k (Sort l) = Sort l"
| "wrapping_lift n k (BVar i) = BVar (if i < k then i else (i + n) mod 2 ^ 32)"
| "wrapping_lift n k (Const c us) = Const c us"
| "wrapping_lift n k (App f a) = App (wrapping_lift n k f) (wrapping_lift n k a)"
| "wrapping_lift n k (Lam x t b) = Lam x (wrapping_lift n k t) (wrapping_lift n (k + 1) b)"
| "wrapping_lift n k (Pi x t b) = Pi x (wrapping_lift n k t) (wrapping_lift n (k + 1) b)"

lemma as_i32_large: "2 ^ 31 \<le> i \<Longrightarrow> i < 2 ^ 32 \<Longrightarrow> as_i32 i = int i - 2 ^ 32"
  by (simp add: as_i32_def Let_def)

lemma shifted_index:
  assumes "i < 2 ^ 32" and "n < 2 ^ 31" and "i32_add (as_i32 i) (int n) = Inr m" and "\<not> m < 0"
  shows "nat m = (i + n) mod 2 ^ 32"
proof (cases "i < 2 ^ 31")
  case True
  with assms show ?thesis by (auto simp: i32_add_def as_i32_def Let_def split: if_splits)
next
  case False
  with assms have m: "m = int i + int n - 2 ^ 32" by (auto simp: i32_add_def as_i32_large split: if_splits)
  with assms(4) have "nat m = i + n - 2 ^ 32" "2 ^ 32 \<le> i + n" by auto
  moreover from this assms(1,2) have "(i + n) mod 2 ^ 32 = i + n - 2 ^ 32"
    by (simp add: le_mod_geq)
  ultimately show ?thesis by simp
qed

lemma shift_changed_wrapping:
  "bvars_below (2 ^ 32) e \<Longrightarrow> n < 2 ^ 31 \<Longrightarrow> shift_changed e (int n) k = Inr r \<Longrightarrow>
   unwrap_or e r = wrapping_lift n k e"
  by (induction e arbitrary: k r)
    (auto simp: u32_succ_def shifted_index elim!: rbind_InrE split: if_splits)

text \<open>
  C23: the bound is needed. The cast reads an index of at least \<open>2\<^sup>3\<^sup>1\<close> as a negative number.
  Whenever shifting by a positive amount succeeds, it is lifting with the indices reduced modulo
  \<open>2\<^sup>3\<^sup>2\<close>. For a free variable with an index of at least \<open>2\<^sup>3\<^sup>1\<close> it succeeds exactly if the sum of
  index and amount reaches \<open>2\<^sup>3\<^sup>2\<close>, and then gives the sum less \<open>2\<^sup>3\<^sup>2\<close>, the index of another
  variable, instead of an error; for smaller sums the variable is refused as invalid.
\<close>

theorem shift_wraps_large_index:
  assumes "bvars_below (2 ^ 32) e" and "0 < n" and "n < 2 ^ 31"
  shows "(\<forall>e'. shift e (int n) k = Inr e' \<longrightarrow> e' = wrapping_lift n k e) \<and>
    (\<forall>i. 2 ^ 31 \<le> i \<and> i < 2 ^ 32 \<and> k \<le> i \<longrightarrow>
       shift (BVar i) (int n) k = (if 2 ^ 32 \<le> i + n then Inr (BVar (i + n - 2 ^ 32)) else Inl (InvalidBVar i)))"
proof (intro conjI allI impI)
  fix e' assume "shift e (int n) k = Inr e'"
  with assms show "e' = wrapping_lift n k e"
    by (auto simp: shift_def shift_changed_wrapping elim!: rbind_InrE)
next
  fix i :: nat assume "2 ^ 31 \<le> i \<and> i < 2 ^ 32 \<and> k \<le> i"
  with assms show "shift (BVar i) (int n) k =
      (if 2 ^ 32 \<le> i + n then Inr (BVar (i + n - 2 ^ 32)) else Inl (InvalidBVar i))"
    by (auto simp: shift_def i32_add_def as_i32_large)
qed

theorem shift_wraps_large_index_witness:
  "shift (App (BVar 4294967295) (BVar 7)) (int 3) 0 = Inr (App (BVar 2) (BVar 10)) \<and>
   shift (BVar 4294967294) (int 2) 1 = Inr (BVar 0) \<and> shift (BVar 2147483648) (int 2) 1 = Inl (InvalidBVar 2147483648)"
proof -
  have "is_ok (shift (App (BVar 4294967295) (BVar 7)) (int 3) 0)" by code_simp
  then obtain e' where e': "shift (App (BVar 4294967295) (BVar 7)) (int 3) 0 = Inr e'" by (auto simp: is_ok_iff)
  moreover have "e' = wrapping_lift 3 0 (App (BVar 4294967295) (BVar 7))"
    using shift_wraps_large_index [of "App (BVar 4294967295) (BVar 7)" 3 0] e' by simp
  ultimately show ?thesis
    using shift_wraps_large_index [of "BVar 0" 2 1] by simp
qed

end
