(* ===== verification/Kernel_Name.thy ===== *)
theory Kernel_Name
  imports Kernel_Syntax
begin

text \<open>
  Global declaration names (\<^verbatim>\<open>npa-kernel/src/name.rs\<close>): one or more components
  separated by dots, each an ASCII identifier. The lemmas show that the split-based check
  accepts exactly the dotted names: a name is canonical if and only if it is the join of a
  nonempty list of canonical components, and that list is unique.
\<close>

definition in_range :: "char \<Rightarrow> char \<Rightarrow> char \<Rightarrow> bool" where
  "in_range lo hi b \<longleftrightarrow> lo \<le> b \<and> b \<le> hi"

definition is_ascii_alphabetic :: "char \<Rightarrow> bool" where
  "is_ascii_alphabetic b \<longleftrightarrow> in_range CHR ''a'' CHR ''z'' b \<or> in_range CHR ''A'' CHR ''Z'' b"

definition is_ascii_alphanumeric :: "char \<Rightarrow> bool" where
  "is_ascii_alphanumeric b \<longleftrightarrow> is_ascii_alphabetic b \<or> in_range CHR ''0'' CHR ''9'' b"

definition is_name_component_start :: "char \<Rightarrow> bool" where
  "is_name_component_start b \<longleftrightarrow> is_ascii_alphabetic b \<or> b = CHR ''_''"

definition is_name_component_continue :: "char \<Rightarrow> bool" where
  "is_name_component_continue b \<longleftrightarrow>
     is_ascii_alphanumeric b \<or> b = CHR ''_'' \<or> b = CHR 0x27"

definition is_canonical_name_component :: "string \<Rightarrow> bool" where
  "is_canonical_name_component component =
     (case component of
        [] \<Rightarrow> False
      | first # rest \<Rightarrow> is_name_component_start first \<and> list_all is_name_component_continue rest)"

text \<open>\<^verbatim>\<open>str::split\<close> on one separator: always at least one piece.\<close>

primrec split_on :: "char \<Rightarrow> string \<Rightarrow> string list" where
  "split_on c [] = [[]]"
| "split_on c (b # s) =
     (if b = c then [] # split_on c s
      else (case split_on c s of [] \<Rightarrow> [[b]] | p # ps \<Rightarrow> (b # p) # ps))"

definition is_canonical_dotted_name :: "string \<Rightarrow> bool" where
  "is_canonical_dotted_name name \<longleftrightarrow>
     name \<noteq> [] \<and> list_all is_canonical_name_component (split_on CHR ''.'' name)"

section \<open>Names and their components\<close>

fun join_dots :: "string list \<Rightarrow> string" where
  "join_dots [] = []"
| "join_dots [p] = p"
| "join_dots (p # ps) = p @ CHR ''.'' # join_dots ps"

lemma split_on_nonempty [simp]: "split_on c s \<noteq> []"
  by (induction s) (auto split: list.split)

lemma join_split: "join_dots (split_on CHR ''.'' s) = s"
proof (induction s)
  case Nil
  then show ?case by simp
next
  case (Cons b s)
  show ?case
  proof (cases "split_on CHR ''.'' s")
    case (Cons p ps)
    with Cons.IH show ?thesis by (cases ps) auto
  qed simp
qed

lemma split_on_no_sep: "c \<notin> set p \<Longrightarrow> split_on c p = [p]"
  by (induction p) auto

lemma split_on_sep: "c \<notin> set p \<Longrightarrow> split_on c (p @ c # s) = p # split_on c s"
  by (induction p) (auto split: list.split)

lemma split_join:
  "ps \<noteq> [] \<Longrightarrow> (\<And>p. p \<in> set ps \<Longrightarrow> CHR ''.'' \<notin> set p) \<Longrightarrow> split_on CHR ''.'' (join_dots ps) = ps"
  by (induction ps rule: join_dots.induct) (auto simp: split_on_no_sep split_on_sep)

lemma component_no_dot: "is_canonical_name_component p \<Longrightarrow> CHR ''.'' \<notin> set p"
proof -
  have "\<not> is_name_component_start CHR ''.''" "\<not> is_name_component_continue CHR ''.''"
    by code_simp+
  then show "is_canonical_name_component p \<Longrightarrow> CHR ''.'' \<notin> set p"
    by (auto simp: is_canonical_name_component_def list_all_iff split: list.splits)
qed

text \<open>
  a declaration name is canonical exactly when it is the join by dots of a non-empty list
  of canonical components, and that list is unique.
\<close>

theorem dotted_name_components:
  "is_canonical_dotted_name s \<longleftrightarrow>
     (\<exists>!ps. ps \<noteq> [] \<and> list_all is_canonical_name_component ps \<and> s = join_dots ps)"
proof
  assume s: "is_canonical_dotted_name s"
  show "\<exists>!ps. ps \<noteq> [] \<and> list_all is_canonical_name_component ps \<and> s = join_dots ps"
  proof (rule ex1I [of _ "split_on CHR ''.'' s"])
    show "split_on CHR ''.'' s \<noteq> [] \<and> list_all is_canonical_name_component (split_on CHR ''.'' s) \<and>
        s = join_dots (split_on CHR ''.'' s)"
      using s by (simp add: is_canonical_dotted_name_def join_split)
  next
    fix ps
    assume "ps \<noteq> [] \<and> list_all is_canonical_name_component ps \<and> s = join_dots ps"
    then show "ps = split_on CHR ''.'' s"
      using split_join [of ps] component_no_dot by (auto simp: list_all_iff)
  qed
next
  assume "\<exists>!ps. ps \<noteq> [] \<and> list_all is_canonical_name_component ps \<and> s = join_dots ps"
  then obtain ps where ps: "ps \<noteq> []" "list_all is_canonical_name_component ps" "s = join_dots ps"
    by blast
  then have "split_on CHR ''.'' s = ps"
    using component_no_dot by (auto simp: list_all_iff intro!: split_join)
  moreover have "s \<noteq> []"
    using ps by (cases ps rule: join_dots.cases) (auto simp: is_canonical_name_component_def)
  ultimately show "is_canonical_dotted_name s"
    using ps(2) by (simp add: is_canonical_dotted_name_def)
qed

end
