(* ===== verification/Universe_Context.thy ===== *)
theory Universe_Context
  imports Universe_Level "HOL-Library.Product_Lexorder" "HOL-Library.Option_ord"
begin

text \<open>
  Universe contexts (\<^verbatim>\<open>npa-kernel/src/level.rs\<close>): constraints are decomposed into
  inequalities between atoms (a parameter or zero, plus an offset), the inequalities are
  the edges of a weighted graph, and the Floyd-Warshall closure of that graph decides
  satisfiability and entailment.
\<close>

section \<open>Atoms\<close>

datatype atom_base = AZero | AParam string

datatype atom = Atom (atom_base: atom_base) (atom_offset: nat)

record atom_inequality =
  ai_lhs :: atom
  ai_rhs :: atom

text \<open>The derived \<^verbatim>\<open>Ord\<close> of atoms and of constraints, as lexicographic keys.\<close>

definition atom_key :: "atom \<Rightarrow> string option \<times> nat" where
  "atom_key a = (case atom_base a of AZero \<Rightarrow> None | AParam n \<Rightarrow> Some n, atom_offset a)"

definition constraint_key :: "universe_constraint \<Rightarrow> level \<times> nat \<times> level" where
  "constraint_key c = (uc_lhs c, (case uc_relation c of RLe \<Rightarrow> 0 | REq \<Rightarrow> 1), uc_rhs c)"

definition offset_bound :: "atom \<Rightarrow> int kresult" where
  "offset_bound a =
     (if fits 63 (atom_offset a) then Inr (int (atom_offset a))
      else Inl (UnsupportedUniverseConstraint (constraint_le LZero LZero)))"

fun peel_succ :: "level \<Rightarrow> nat \<Rightarrow> (level \<times> nat) option" where
  "peel_succ (LSucc i) off = (if fits 64 (off + 1) then peel_succ i (off + 1) else None)"
| "peel_succ l off = Some (l, off)"

definition decompose_atom :: "level \<Rightarrow> atom kresult" where
  "decompose_atom l =
     rbind (ok_or (UnsupportedUniverseConstraint (constraint_le l l)) (peel_succ l 0))
       (\<lambda>(current, off).
         rbind (case current of
                  LZero \<Rightarrow> Inr (Atom AZero off)
                | LParam n \<Rightarrow> Inr (Atom (AParam n) off)
                | _ \<Rightarrow> Inl (UnsupportedUniverseConstraint (constraint_le l l)))
           (\<lambda>a. rbind (offset_bound a) (\<lambda>_. Inr a)))"

text \<open>
  The worklist of \<^verbatim>\<open>decompose_level_expr\<close> and \<^verbatim>\<open>decompose_lhs_level_expr\<close>; the flag
  says whether an \<^verbatim>\<open>IMax\<close> is split like a \<^verbatim>\<open>Max\<close>, which only the latter does.
\<close>

function decompose_loop :: "bool \<Rightarrow> level list \<Rightarrow> atom list \<Rightarrow> atom list kresult" where
  "decompose_loop imax_too [] atoms = Inr atoms"
| "decompose_loop imax_too (l # pending) atoms =
     (case l of
        LMax a b \<Rightarrow> decompose_loop imax_too (a # b # pending) atoms
      | LIMax a b \<Rightarrow>
          if imax_too then decompose_loop imax_too (a # b # pending) atoms
          else rbind (decompose_atom l) (\<lambda>a. decompose_loop imax_too pending (atoms @ [a]))
      | _ \<Rightarrow> rbind (decompose_atom l) (\<lambda>a. decompose_loop imax_too pending (atoms @ [a])))"
  by pat_completeness auto
termination
  by (relation "measure (\<lambda>(_, ls, _). \<Sum>l \<leftarrow> ls. 2 * size l + 1)") auto

definition decompose_level_expr :: "level \<Rightarrow> atom list kresult" where
  "decompose_level_expr l =
     rbind (decompose_loop False [normalize_level l] []) (\<lambda>as. Inr (sort_dedup atom_key as))"

definition decompose_lhs_level_expr :: "level \<Rightarrow> atom list kresult" where
  "decompose_lhs_level_expr l =
     rbind (decompose_loop True [normalize_level l] []) (\<lambda>as. Inr (sort_dedup atom_key as))"

definition decompose_le_constraint :: "level \<Rightarrow> level \<Rightarrow> atom_inequality list kresult" where
  "decompose_le_constraint lhs rhs =
     (let l = normalize_level lhs; r = normalize_level rhs in
      if level_eq_stack_safe l r then Inr []
      else rbind (decompose_lhs_level_expr l) (\<lambda>lhs_atoms.
        rbind (decompose_level_expr r) (\<lambda>rhs_atoms.
          case rhs_atoms of
            [a] \<Rightarrow> Inr (map (\<lambda>x. \<lparr>ai_lhs = x, ai_rhs = a\<rparr>) lhs_atoms)
          | _ \<Rightarrow> Inl (UnsupportedUniverseConstraint (constraint_le l r)))))"

definition normalize_constraint :: "universe_constraint \<Rightarrow> universe_constraint" where
  "normalize_constraint c =
     \<lparr>uc_lhs = normalize_level (uc_lhs c), uc_relation = uc_relation c,
      uc_rhs = normalize_level (uc_rhs c)\<rparr>"

definition decompose_constraint :: "universe_constraint \<Rightarrow> atom_inequality list kresult" where
  "decompose_constraint c =
     (let n = normalize_constraint c in
      case uc_relation n of
        RLe \<Rightarrow> decompose_le_constraint (uc_lhs n) (uc_rhs n)
      | REq \<Rightarrow>
          if level_eq_stack_safe (uc_lhs n) (uc_rhs n) then Inr []
          else rbind (decompose_le_constraint (uc_lhs n) (uc_rhs n)) (\<lambda>is1.
            rbind (decompose_le_constraint (uc_rhs n) (uc_lhs n)) (\<lambda>is2. Inr (is1 @ is2))))"

section \<open>The closure\<close>

text \<open>
  \<^verbatim>\<open>dist[from][to]\<close> bounds the value of node \<open>to\<close> by the value of node \<open>from\<close> plus
  the entry. Node 0 is zero, node \<open>i + 1\<close> is the \<open>i\<close>-th parameter. Sums are \<^verbatim>\<open>i128\<close>
  additions, which panic on overflow.
\<close>

type_synonym dist_matrix = "int option list list"

definition ent :: "dist_matrix \<Rightarrow> nat \<Rightarrow> nat \<Rightarrow> int option" where
  "ent d i j = d ! i ! j"

definition set_ent :: "dist_matrix \<Rightarrow> nat \<Rightarrow> nat \<Rightarrow> int \<Rightarrow> dist_matrix" where
  "set_ent d i j w = d[i := (d ! i)[j := Some w]]"

definition i128_add :: "int \<Rightarrow> int \<Rightarrow> int kresult" where
  "i128_add a b =
     (if - (2 ^ 127) \<le> a + b \<and> a + b < 2 ^ 127 then Inr (a + b)
      else Inl (Panic ''attempt to add with overflow''))"

definition with_lower_bounds :: "nat \<Rightarrow> dist_matrix" where
  "with_lower_bounds param_count =
     map (\<lambda>i. map (\<lambda>j. if i = j then Some 0 else if 1 \<le> i \<and> j = 0 then Some 0 else None)
                [0..<param_count + 1]) [0..<param_count + 1]"

definition is_none_or_less :: "int option \<Rightarrow> int \<Rightarrow> bool" where
  "is_none_or_less x w = (case x of None \<Rightarrow> True | Some old \<Rightarrow> w < old)"

definition add_edge :: "dist_matrix \<Rightarrow> nat \<Rightarrow> nat \<Rightarrow> int \<Rightarrow> dist_matrix" where
  "add_edge d from to w =
     (if is_none_or_less (ent d from to) w then set_ent d from to w else d)"

definition close_entry :: "nat \<Rightarrow> nat \<Rightarrow> int \<Rightarrow> nat \<Rightarrow> dist_matrix \<Rightarrow> dist_matrix kresult" where
  "close_entry k i ik j d =
     (case ent d k j of
        None \<Rightarrow> Inr d
      | Some kj \<Rightarrow> rbind (i128_add ik kj) (\<lambda>candidate.
          if is_none_or_less (ent d i j) candidate then Inr (set_ent d i j candidate)
          else Inr d))"

definition close_row :: "nat \<Rightarrow> nat \<Rightarrow> nat \<Rightarrow> dist_matrix \<Rightarrow> dist_matrix kresult" where
  "close_row len k i d =
     (case ent d i k of
        None \<Rightarrow> Inr d
      | Some ik \<Rightarrow> fold_res (close_entry k i ik) [0..<len] d)"

definition close_stage :: "nat \<Rightarrow> nat \<Rightarrow> dist_matrix \<Rightarrow> dist_matrix kresult" where
  "close_stage len k d = fold_res (close_row len k) [0..<len] d"

definition closure_close :: "dist_matrix \<Rightarrow> dist_matrix kresult" where
  "closure_close d0 =
     (let len = length d0 in
      rbind (fold_res (close_stage len) [0..<len] d0) (\<lambda>d.
        if list_ex (\<lambda>i. case ent d i i of None \<Rightarrow> False | Some b \<Rightarrow> b < 0) [0..<len]
        then Inl UnsatisfiableUniverseConstraints else Inr d))"

definition closure_entails :: "dist_matrix \<Rightarrow> nat \<Rightarrow> nat \<Rightarrow> int \<Rightarrow> bool" where
  "closure_entails d from to bound =
     (case ent d from to of None \<Rightarrow> False | Some actual \<Rightarrow> actual \<le> bound)"

section \<open>Contexts\<close>

record universe_context =
  uctx_params :: "string list"
  uctx_constraints :: "universe_constraint list"
  uctx_closure :: dist_matrix

definition max_universe_context_nodes :: nat where
  "max_universe_context_nodes = 65"

definition max_universe_atom_inequalities :: nat where
  "max_universe_atom_inequalities = 1024"

definition ensure_universe_node_limit :: "nat \<Rightarrow> unit kresult" where
  "ensure_universe_node_limit param_count =
     guard_res (param_count + 1 > max_universe_context_nodes) (ResourceLimit RUniverseConstraints)"

definition ensure_universe_edge_limit :: "nat \<Rightarrow> unit kresult" where
  "ensure_universe_edge_limit edge_count =
     guard_res (edge_count > max_universe_atom_inequalities) (ResourceLimit RUniverseConstraints)"

text \<open>\<^verbatim>\<open>universe_param_indices\<close> collects into a map: a later duplicate wins.\<close>

definition universe_param_indices :: "string list \<Rightarrow> (string \<rightharpoonup> nat)" where
  "universe_param_indices params =
     fold (\<lambda>(i, p) m. m(p \<mapsto> i + 1)) (enumerate 0 params) Map.empty"

definition atom_base_index :: "atom_base \<Rightarrow> (string \<rightharpoonup> nat) \<Rightarrow> nat kresult" where
  "atom_base_index b params =
     (case b of AZero \<Rightarrow> Inr 0 | AParam n \<Rightarrow> ok_or (UnknownUniverseParam n) (params n))"

definition add_inequality ::
  "(string \<rightharpoonup> nat) \<Rightarrow> atom_inequality \<Rightarrow> dist_matrix \<Rightarrow> dist_matrix kresult" where
  "add_inequality idx q d =
     rbind (atom_base_index (atom_base (ai_rhs q)) idx) (\<lambda>from.
     rbind (atom_base_index (atom_base (ai_lhs q)) idx) (\<lambda>to.
     rbind (offset_bound (ai_rhs q)) (\<lambda>r.
     rbind (offset_bound (ai_lhs q)) (\<lambda>l. Inr (add_edge d from to (r - l))))))"

definition add_constraint ::
  "(string \<rightharpoonup> nat) \<Rightarrow> universe_constraint \<Rightarrow> nat \<times> dist_matrix \<Rightarrow> (nat \<times> dist_matrix) kresult" where
  "add_constraint idx c st =
     (case st of (edge_count, d) \<Rightarrow>
       rbind (decompose_constraint c) (\<lambda>qs.
       rbind (ensure_universe_edge_limit (edge_count + length qs)) (\<lambda>_.
       rbind (fold_res (add_inequality idx) qs d) (\<lambda>d'. Inr (edge_count + length qs, d')))))"

definition universe_context_from_params :: "string list \<Rightarrow> universe_context kresult" where
  "universe_context_from_params ps =
     rbind (validate_universe_params ps) (\<lambda>params.
     rbind (ensure_universe_node_limit (length params)) (\<lambda>_.
     rbind (ensure_universe_edge_limit (length params)) (\<lambda>_.
       Inr \<lparr>uctx_params = params, uctx_constraints = [],
            uctx_closure = with_lower_bounds (length params)\<rparr>)))"

definition universe_context_new ::
  "string list \<Rightarrow> universe_constraint list \<Rightarrow> universe_context kresult" where
  "universe_context_new ps constraints =
     (if constraints = [] then universe_context_from_params ps
      else rbind (validate_universe_params ps) (\<lambda>params.
      rbind (ensure_universe_constraints_wf params constraints) (\<lambda>_.
      rbind (ensure_universe_node_limit (length params)) (\<lambda>_.
      rbind (fold_res (add_constraint (universe_param_indices params)) constraints
              (length params, with_lower_bounds (length params))) (\<lambda>(_, d).
      rbind (closure_close d) (\<lambda>closure.
        Inr \<lparr>uctx_params = params, uctx_constraints = constraints,
             uctx_closure = closure\<rparr>))))))"

definition universe_context_empty :: universe_context where
  "universe_context_empty =
     \<lparr>uctx_params = [], uctx_constraints = [], uctx_closure = with_lower_bounds 0\<rparr>"

section \<open>Entailment\<close>

fun witness_loop ::
  "dist_matrix \<Rightarrow> (string \<rightharpoonup> nat) \<Rightarrow> nat \<Rightarrow> int \<Rightarrow> atom list \<Rightarrow> bool kresult" where
  "witness_loop d idx to lhs_offset [] = Inr False"
| "witness_loop d idx to lhs_offset (r # rs) =
     rbind (atom_base_index (atom_base r) idx) (\<lambda>from.
     rbind (offset_bound r) (\<lambda>r_offset.
       if closure_entails d from to (r_offset - lhs_offset) then Inr True
       else witness_loop d idx to lhs_offset rs))"

fun lhs_atoms_loop ::
  "dist_matrix \<Rightarrow> (string \<rightharpoonup> nat) \<Rightarrow> atom list \<Rightarrow> atom list \<Rightarrow> bool kresult" where
  "lhs_atoms_loop d idx [] rs = Inr True"
| "lhs_atoms_loop d idx (l # ls) rs =
     rbind (atom_base_index (atom_base l) idx) (\<lambda>to.
     rbind (offset_bound l) (\<lambda>l_offset.
     rbind (witness_loop d idx to l_offset rs) (\<lambda>witnessed.
       if witnessed then lhs_atoms_loop d idx ls rs else Inr False)))"

lemma normalize_level_IMax_left:
  assumes "normalize_level l = LIMax a b"
  shows "normalize_level a = a"
proof -
  have "normalize_imax_pair (normalize_level a) (normalize_level b) = LIMax a b"
    using assms normalize_level_idem [of l] by simp
  then show ?thesis
    by (auto simp: normalize_imax_pair_def normalize_max_pair_def level_from_nat_eq
        split: level.splits if_splits option.splits dest!: level_as_nat_Some)
      (metis level.distinct numeral_level.simps old.nat.exhaust)+
qed

function entails_level_le :: "universe_context \<Rightarrow> level \<Rightarrow> level \<Rightarrow> bool kresult" where
  "entails_level_le uctx lhs rhs =
     rbind (ensure_level_wf (uctx_params uctx) lhs) (\<lambda>_.
     rbind (ensure_level_wf (uctx_params uctx) rhs) (\<lambda>_.
       if level_eq_stack_safe (normalize_level lhs) (normalize_level rhs) then Inr True
       else rbind
         (case normalize_level lhs of
            LIMax a b \<Rightarrow>
              if level_eq_stack_safe b (normalize_level rhs)
              then entails_level_le uctx a (LSucc LZero) else Inr False
          | _ \<Rightarrow> Inr False)
         (\<lambda>short_cut. if short_cut then Inr True else
           rbind (decompose_lhs_level_expr (normalize_level lhs)) (\<lambda>lhs_atoms.
           rbind (decompose_level_expr (normalize_level rhs)) (\<lambda>rhs_atoms.
           rbind (ensure_universe_edge_limit (length lhs_atoms * length rhs_atoms)) (\<lambda>_.
             lhs_atoms_loop (uctx_closure uctx) (universe_param_indices (uctx_params uctx))
               lhs_atoms rhs_atoms))))))"
  by pat_completeness auto
termination
  by (relation "measure (\<lambda>(_, l, _). size (normalize_level l))")
    (auto simp: normalize_level_IMax_left)

declare entails_level_le.simps [simp del]

definition entails_one :: "universe_context \<Rightarrow> universe_constraint \<Rightarrow> unit kresult" where
  "entails_one uctx obligation =
     (let n = normalize_constraint obligation in
      rbind (case uc_relation n of
               RLe \<Rightarrow> entails_level_le uctx (uc_lhs n) (uc_rhs n)
             | REq \<Rightarrow> rbind (entails_level_le uctx (uc_lhs n) (uc_rhs n)) (\<lambda>b.
                 if b then entails_level_le uctx (uc_rhs n) (uc_lhs n) else Inr False))
        (\<lambda>entailed. if \<not> entailed then Inl (UniverseConstraintViolation [] n) else Inr ()))"

definition universe_entails ::
  "universe_context \<Rightarrow> universe_constraint list \<Rightarrow> unit kresult" where
  "universe_entails uctx obligations = check_all (entails_one uctx) obligations"

definition substitute_constraints ::
  "universe_context \<Rightarrow> string list \<Rightarrow> level list \<Rightarrow> universe_constraint list
   \<Rightarrow> universe_constraint list kresult" where
  "substitute_constraints uctx ps levels constraints =
     rbind (guard_res (length ps \<noteq> length levels)
              (BadUniverseArity ''<universe-constraints>'' (length ps) (length levels))) (\<lambda>_.
     rbind (validate_universe_params ps) (\<lambda>params.
     rbind (ensure_universe_constraints_wf params constraints) (\<lambda>_.
     rbind (check_all (ensure_level_wf (uctx_params uctx)) levels) (\<lambda>_.
       Inr (sort_dedup constraint_key
         (map (\<lambda>c. \<lparr>uc_lhs = substitute_level (uc_lhs c) params levels,
                    uc_relation = uc_relation c,
                    uc_rhs = substitute_level (uc_rhs c) params levels\<rparr>) constraints))))))"

end
