(* ===== verification/Kernel_Env.thy ===== *)
theory Kernel_Env
  imports Kernel_Subst Kernel_Name Universe_Context
begin

text \<open>
  The environment (\<^verbatim>\<open>npa-kernel/src/env.rs\<close>): declarations by name, mutual groups by the
  name of each of their families, freshness of names, and the type of a constant at given
  universe levels. The execution options and the work counter sink only select how work is
  counted and cached and are no part of the state here.
\<close>

record mutual_group_info =
  grp_inductives :: "string list"
  grp_recursors :: "string \<rightharpoonup> string"
  grp_universe_params :: "string list"
  grp_universe_constraints :: "universe_constraint list"

record env =
  decls :: "string \<rightharpoonup> decl"
  mutual_groups :: "string \<rightharpoonup> mutual_group_info"

definition env_new :: env where
  "env_new = \<lparr>decls = Map.empty, mutual_groups = Map.empty\<rparr>"

definition insert_decl :: "string \<Rightarrow> decl \<Rightarrow> env \<Rightarrow> env" where
  "insert_decl n d E = E\<lparr>decls := (decls E)(n \<mapsto> d)\<rparr>"

definition env_decl :: "env \<Rightarrow> string \<Rightarrow> decl option" where
  "env_decl E n = decls E n"

definition expose_checked_opaque_definition :: "env \<Rightarrow> string \<Rightarrow> bool \<times> env" where
  "expose_checked_opaque_definition E n =
     (case decls E n of
        Some (Def m ps t v Opaque) \<Rightarrow> (True, insert_decl n (Def m ps t v Reducible) E)
      | Some (DefConstrained m ps cs t v Opaque) \<Rightarrow>
          (True, insert_decl n (DefConstrained m ps cs t v Reducible) E)
      | _ \<Rightarrow> (False, E))"

section \<open>Fresh names\<close>

definition ensure_fresh :: "env \<Rightarrow> string \<Rightarrow> unit kresult" where
  "ensure_fresh E n =
     (if \<not> is_canonical_dotted_name n then Inl (InvalidDeclarationName n)
      else if decls E n \<noteq> None then Inl (DuplicateDecl n)
      else Inr ())"

fun ensure_names_fresh :: "env \<Rightarrow> string list \<Rightarrow> string list \<Rightarrow> unit kresult" where
  "ensure_names_fresh E seen [] = Inr ()"
| "ensure_names_fresh E seen (n # ns) =
     (if n \<in> set seen then Inl (DuplicateDecl n)
      else rbind (ensure_fresh E n) (\<lambda>_. ensure_names_fresh E (n # seen) ns))"

definition recursor_names :: "inductive_decl \<Rightarrow> string list" where
  "recursor_names data = (case ind_recursor data of None \<Rightarrow> [] | Some r \<Rightarrow> [rec_name r])"

definition ensure_inductive_names_fresh :: "env \<Rightarrow> inductive_decl \<Rightarrow> unit kresult" where
  "ensure_inductive_names_fresh E data =
     ensure_names_fresh E []
       (ind_name data # map ctor_name (ind_constructors data) @ recursor_names data)"

definition ensure_mutual_inductive_names_fresh ::
  "env \<Rightarrow> mutual_inductive_block \<Rightarrow> unit kresult" where
  "ensure_mutual_inductive_names_fresh E block =
     ensure_names_fresh E []
       (blk_name block # map ind_name (blk_inductives block)
        @ concat (map (\<lambda>data. map ctor_name (ind_constructors data)) (blk_inductives block))
        @ concat (map recursor_names (blk_inductives block)))"

section \<open>Lookups into inductive declarations\<close>

definition constructor_belongs_to :: "env \<Rightarrow> string \<Rightarrow> string \<Rightarrow> bool" where
  "constructor_belongs_to E c ind =
     (case decls E c of Some (Constructor _ _ _ owner) \<Rightarrow> owner = ind | _ \<Rightarrow> False)"

definition inductive_data :: "env \<Rightarrow> string \<Rightarrow> inductive_decl kresult" where
  "inductive_data E n =
     (case decls E n of Some (Inductive _ _ _ data) \<Rightarrow> Inr data | _ \<Rightarrow> Inl (InvalidInductive n))"

definition inductive_constraint_context ::
  "env \<Rightarrow> string \<Rightarrow> (string list \<times> universe_constraint list) kresult" where
  "inductive_constraint_context E ind =
     (case mutual_groups E ind of
        Some g \<Rightarrow> Inr (grp_universe_params g, grp_universe_constraints g)
      | None \<Rightarrow>
          (case decls E ind of
             Some (Inductive _ _ _ data) \<Rightarrow>
               Inr (ind_universe_params data, ind_universe_constraints data)
           | _ \<Rightarrow> Inl (InvalidInductive
               (ind @ '' constraint context is missing its parent inductive''))))"

definition decl_constraint_context ::
  "env \<Rightarrow> decl \<Rightarrow> (string list \<times> universe_constraint list) kresult" where
  "decl_constraint_context E d =
     (case d of
        Inductive n _ _ _ \<Rightarrow> inductive_constraint_context E n
      | Constructor _ _ _ ind \<Rightarrow> inductive_constraint_context E ind
      | Recursor _ _ _ ind _ \<Rightarrow> inductive_constraint_context E ind
      | MutualInductiveBlock _ _ b \<Rightarrow> Inr (blk_universe_params b, blk_universe_constraints b)
      | _ \<Rightarrow> Inr (decl_universe_params d, decl_universe_constraints d))"

section \<open>The type of a constant\<close>

definition declaration_constraint_levels ::
  "string \<Rightarrow> string list \<Rightarrow> level list \<Rightarrow> string list \<Rightarrow> level list kresult" where
  "declaration_constraint_levels n params levels constraint_params =
     traverse (\<lambda>cp.
       rbind (ok_or (UnknownUniverseParam cp) (position (\<lambda>p. p = cp) params)) (\<lambda>i.
         ok_or (BadUniverseArity n (length params) (length levels)) (get_at levels i)))
       constraint_params"

definition blame_declaration :: "string \<Rightarrow> kerror \<Rightarrow> kerror" where
  "blame_declaration n e =
     (case e of UniverseConstraintViolation _ c \<Rightarrow> UniverseConstraintViolation n c | _ \<Rightarrow> e)"

definition check_constant_constraints ::
  "env \<Rightarrow> universe_context \<Rightarrow> string \<Rightarrow> level list \<Rightarrow> decl \<Rightarrow> unit kresult" where
  "check_constant_constraints E u n levels d =
     rbind (decl_constraint_context E d) (\<lambda>(constraint_params, constraints).
       if constraints = [] then Inr ()
       else
         rbind (declaration_constraint_levels n (decl_universe_params d) levels constraint_params)
           (\<lambda>constraint_levels.
         rbind (substitute_constraints u constraint_params constraint_levels constraints)
           (\<lambda>obligations. map_err (blame_declaration n) (universe_entails u obligations))))"

definition infer_const_type ::
  "env \<Rightarrow> universe_context \<Rightarrow> string \<Rightarrow> level list \<Rightarrow> expr kresult" where
  "infer_const_type E u n levels =
     rbind (ok_or (UnknownConstant n) (decls E n)) (\<lambda>d.
     rbind (guard_res (length (decl_universe_params d) \<noteq> length levels)
              (BadUniverseArity n (length (decl_universe_params d)) (length levels))) (\<lambda>_.
     rbind (check_all (ensure_level_wf (uctx_params u)) levels) (\<lambda>_.
     rbind (check_constant_constraints E u n levels d) (\<lambda>_.
     rbind (decl_ty d) (\<lambda>t. subst_levels_expr t (decl_universe_params d) levels)))))"

section \<open>What the operations do to a lookup\<close>

lemma decls_insert [simp, env_lookup]: "decls (insert_decl n d E) = (decls E)(n \<mapsto> d)"
  by (simp add: insert_decl_def)

lemma groups_insert [simp, env_lookup]: "mutual_groups (insert_decl n d E) = mutual_groups E"
  by (simp add: insert_decl_def)

lemma decls_new [simp, env_lookup]: "decls env_new n = None"
  by (simp add: env_new_def)

lemma ensure_fresh_iff:
  "ensure_fresh E n = Inr u \<longleftrightarrow> is_canonical_dotted_name n \<and> decls E n = None"
  by (simp add: ensure_fresh_def)

lemma ensure_names_fresh_iff:
  "ensure_names_fresh E seen ns = Inr u \<longleftrightarrow>
     distinct ns \<and> set ns \<inter> set seen = {} \<and>
     (\<forall>n \<in> set ns. is_canonical_dotted_name n \<and> decls E n = None)"
  by (induction E seen ns rule: ensure_names_fresh.induct) (auto simp: rbind_eq_Inr ensure_fresh_iff)

lemma infer_const_typeE:
  assumes "infer_const_type E u n levels = Inr t"
  obtains d t0 where "decls E n = Some d" "length levels = length (decl_universe_params d)"
    "\<forall>l \<in> set levels. level_wf (uctx_params u) l" "check_constant_constraints E u n levels d = Inr ()"
    "decl_ty d = Inr t0" "subst_levels_expr t0 (decl_universe_params d) levels = Inr t"
  using assms
  by (auto simp: infer_const_type_def rbind_eq_Inr check_all_eq_Inr ensure_level_wf_iff)

lemma inductive_dataE:
  assumes "inductive_data E n = Inr data"
  obtains m ps t where "decls E n = Some (Inductive m ps t data)"
  using assms by (auto simp: inductive_data_def split: option.splits decl.splits)

end
