(* ===== verification/Kernel_Shape.thy ===== *)
theory Kernel_Shape
  imports Kernel_Env
begin

text \<open>
  The shape of inductive declarations (the free functions at the end of
  \<^verbatim>\<open>npa-kernel/src/env.rs\<close>, and \<^verbatim>\<open>positivity.rs\<close>): telescopes, recursive occurrences,
  strict positivity, instantiation of constructor arguments and the minor premise types a
  recursor must have. The lemmas relate the positivity test to an inductive definition of
  strictly positive domains.
\<close>

section \<open>Telescopes\<close>

fun peel_pi_loop :: "expr list \<Rightarrow> expr \<Rightarrow> expr list \<times> expr" where
  "peel_pi_loop domains (Pi x t b) = peel_pi_loop (domains @ [t]) b"
| "peel_pi_loop domains e = (domains, e)"

definition peel_pi_domains :: "expr \<Rightarrow> expr list \<times> expr" where
  "peel_pi_domains t = peel_pi_loop [] t"

definition mk_pi_from_domains :: "expr list \<Rightarrow> expr \<Rightarrow> expr" where
  "mk_pi_from_domains domains body = fold (\<lambda>d b. Pi ''_'' d b) (rev domains) body"

definition mk_pi_telescope :: "bndr list \<Rightarrow> expr \<Rightarrow> expr" where
  "mk_pi_telescope bs body = fold (\<lambda>b e. Pi (bndr_name b) (bndr_ty b) e) (rev bs) body"

definition inductive_type :: "inductive_decl \<Rightarrow> expr" where
  "inductive_type data =
     mk_pi_telescope (ind_params data @ ind_indices data) (Sort (ind_sort data))"

definition bvar_for_abs :: "nat \<Rightarrow> nat \<Rightarrow> expr kresult" where
  "bvar_for_abs ctx_len a =
     (if a \<ge> ctx_len then Inl (InvalidInductive (''binder index '' @ show_nat a
        @ '' escapes context of length '' @ show_nat ctx_len))
      else Inr (BVar ((ctx_len - 1 - a) mod 2 ^ 32)))"

definition motive_app :: "nat \<Rightarrow> nat \<Rightarrow> expr list \<Rightarrow> expr \<Rightarrow> expr kresult" where
  "motive_app ctx_len motive_abs index_args target =
     rbind (bvar_for_abs ctx_len motive_abs) (\<lambda>m. Inr (apps m (index_args @ [target])))"

primrec remap_bvars :: "expr \<Rightarrow> nat \<Rightarrow> nat \<Rightarrow> nat list \<Rightarrow> expr kresult" where
  "remap_bvars (Sort l) source target m = Inr (Sort l)"
| "remap_bvars (BVar i) source target m =
     (if i \<ge> source then Inl (InvalidInductive (''binder index '' @ show_nat i
        @ '' escapes context of length '' @ show_nat source))
      else (case get_at m (source - 1 - i) of
          None \<Rightarrow> Inl (InvalidInductive (''binder index '' @ show_nat i
            @ '' has no target in recursor minor''))
        | Some target_abs \<Rightarrow> bvar_for_abs target target_abs))"
| "remap_bvars (Const c us) source target m = Inr (Const c us)"
| "remap_bvars (App f a) source target m =
     rbind (remap_bvars f source target m) (\<lambda>f'.
     rbind (remap_bvars a source target m) (\<lambda>a'. Inr (App f' a')))"
| "remap_bvars (Lam x t b) source target m =
     rbind (remap_bvars t source target m) (\<lambda>t'.
     rbind (remap_bvars b (source + 1) (target + 1) (m @ [target])) (\<lambda>b'. Inr (Lam x t' b')))"
| "remap_bvars (Pi x t b) source target m =
     rbind (remap_bvars t source target m) (\<lambda>t'.
     rbind (remap_bvars b (source + 1) (target + 1) (m @ [target])) (\<lambda>b'. Inr (Pi x t' b')))"

primrec instantiate_constructor_args_at :: "expr \<Rightarrow> expr list \<Rightarrow> nat \<Rightarrow> expr kresult" where
  "instantiate_constructor_args_at (Sort l) args depth = Inr (Sort l)"
| "instantiate_constructor_args_at (BVar i) args depth =
     (if i < depth then Inr (BVar i)
      else if i - depth \<ge> length args then
        Inl (InvalidInductive (''binder index '' @ show_nat i
          @ '' escapes constructor argument context''))
      else shift (args ! (length args - 1 - (i - depth))) (as_i32 depth) 0)"
| "instantiate_constructor_args_at (Const c us) args depth = Inr (Const c us)"
| "instantiate_constructor_args_at (App f a) args depth =
     rbind (instantiate_constructor_args_at f args depth) (\<lambda>f'.
     rbind (instantiate_constructor_args_at a args depth) (\<lambda>a'. Inr (App f' a')))"
| "instantiate_constructor_args_at (Lam x t b) args depth =
     rbind (instantiate_constructor_args_at t args depth) (\<lambda>t'.
     rbind (u32_succ depth) (\<lambda>depth'.
     rbind (instantiate_constructor_args_at b args depth') (\<lambda>b'. Inr (Lam x t' b'))))"
| "instantiate_constructor_args_at (Pi x t b) args depth =
     rbind (instantiate_constructor_args_at t args depth) (\<lambda>t'.
     rbind (u32_succ depth) (\<lambda>depth'.
     rbind (instantiate_constructor_args_at b args depth') (\<lambda>b'. Inr (Pi x t' b'))))"

definition instantiate_constructor_args :: "expr \<Rightarrow> expr list \<Rightarrow> expr kresult" where
  "instantiate_constructor_args e args = instantiate_constructor_args_at e args 0"

section \<open>Recursive occurrences\<close>

primrec contains_const :: "expr \<Rightarrow> string \<Rightarrow> bool" where
  "contains_const (Sort l) n = False"
| "contains_const (BVar i) n = False"
| "contains_const (Const c us) n = (c = n)"
| "contains_const (App f a) n = (contains_const f n \<or> contains_const a n)"
| "contains_const (Lam x t b) n = (contains_const t n \<or> contains_const b n)"
| "contains_const (Pi x t b) n = (contains_const t n \<or> contains_const b n)"

definition contains_any_const :: "expr \<Rightarrow> string list \<Rightarrow> bool" where
  "contains_any_const e ns = list_ex (contains_const e) ns"

definition expected_levels :: "inductive_decl \<Rightarrow> level list" where
  "expected_levels data = map LParam (ind_universe_params data)"

definition check_param_arg :: "inductive_decl \<Rightarrow> nat \<Rightarrow> nat \<times> expr \<Rightarrow> unit kresult" where
  "check_param_arg data ctx_len p =
     (case p of (param_index, arg) \<Rightarrow>
       rbind (bvar_for_abs ctx_len param_index) (\<lambda>v.
         if arg \<noteq> v then Inl (InvalidInductive (ind_name data)) else Inr ()))"

definition direct_recursive_index_args ::
  "inductive_decl \<Rightarrow> expr \<Rightarrow> nat \<Rightarrow> expr list kresult" where
  "direct_recursive_index_args data domain ctx_len =
     (case collect_apps domain of
        (Const n levels, args) \<Rightarrow>
          if n \<noteq> ind_name data then Inl (InvalidInductive (ind_name data))
          else if \<not> levels_eq levels (expected_levels data) \<or>
              length args \<noteq> length (ind_params data) + length (ind_indices data)
          then Inl (InvalidInductive (ind_name data))
          else rbind (check_all (check_param_arg data ctx_len)
                 (enumerate 0 (take (length (ind_params data)) args))) (\<lambda>_.
            if list_all (\<lambda>arg. \<not> contains_const arg (ind_name data)) args
            then Inr (drop (length (ind_params data)) args)
            else Inl (InvalidInductive (ind_name data)))
      | _ \<Rightarrow> Inl (InvalidInductive (ind_name data)))"

definition is_direct_recursive_domain :: "inductive_decl \<Rightarrow> expr \<Rightarrow> nat \<Rightarrow> bool" where
  "is_direct_recursive_domain data domain ctx_len =
     is_ok (direct_recursive_index_args data domain ctx_len)"

fun direct_mutual_loop ::
  "env \<Rightarrow> string list \<Rightarrow> expr \<Rightarrow> nat \<Rightarrow> (string \<times> expr list) kresult" where
  "direct_mutual_loop E [] domain ctx_len =
     Inl (InvalidInductive ''not a direct mutual recursive domain'')"
| "direct_mutual_loop E (n # ns) domain ctx_len =
     rbind (inductive_data E n) (\<lambda>data.
       case direct_recursive_index_args data domain ctx_len of
         Inr indices \<Rightarrow> Inr (n, indices)
       | Inl _ \<Rightarrow> direct_mutual_loop E ns domain ctx_len)"

definition direct_mutual_recursive_index_args ::
  "env \<Rightarrow> mutual_group_info \<Rightarrow> expr \<Rightarrow> nat \<Rightarrow> (string \<times> expr list) kresult" where
  "direct_mutual_recursive_index_args E g domain ctx_len =
     direct_mutual_loop E (grp_inductives g) domain ctx_len"

fun direct_block_loop ::
  "string \<Rightarrow> (nat \<times> inductive_decl) list \<Rightarrow> expr \<Rightarrow> nat \<Rightarrow> (nat \<times> expr list) kresult" where
  "direct_block_loop block_name [] domain ctx_len =
     Inl (InvalidInductive (block_name @ '' domain is not a direct mutual recursive occurrence''))"
| "direct_block_loop block_name ((i, data) # ds) domain ctx_len =
     (case direct_recursive_index_args data domain ctx_len of
        Inr indices \<Rightarrow> Inr (i, indices)
      | Inl _ \<Rightarrow> direct_block_loop block_name ds domain ctx_len)"

definition direct_mutual_recursive_index_args_in_block ::
  "mutual_inductive_block \<Rightarrow> expr \<Rightarrow> nat \<Rightarrow> (nat \<times> expr list) kresult" where
  "direct_mutual_recursive_index_args_in_block block domain ctx_len =
     direct_block_loop (blk_name block) (enumerate 0 (blk_inductives block)) domain ctx_len"

definition constructor_result_index_args ::
  "inductive_decl \<Rightarrow> constructor_decl \<Rightarrow> expr \<Rightarrow> expr list kresult" where
  "constructor_result_index_args data c result =
     (case collect_apps result of
        (Const n levels, args) \<Rightarrow>
          if n \<noteq> ind_name data \<or> \<not> levels_eq levels (expected_levels data) \<or>
             length args \<noteq> length (ind_params data) + length (ind_indices data)
          then Inl (BadConstructorResult (ind_name data) (ctor_name c) result)
          else Inr (drop (length (ind_params data)) args)
      | _ \<Rightarrow> Inl (BadConstructorResult (ind_name data) (ctor_name c) result))"

section \<open>Recursor layout\<close>

definition generated_recursor_rules :: "inductive_decl \<Rightarrow> recursor_rules" where
  "generated_recursor_rules data =
     (let start = length (ind_params data) + 1 in
      \<lparr>minor_start = start,
       major_index = start + length (ind_constructors data) + length (ind_indices data)\<rparr>)"

definition mutual_constructor_count :: "mutual_inductive_block \<Rightarrow> nat" where
  "mutual_constructor_count block =
     sum_list (map (\<lambda>data. length (ind_constructors data)) (blk_inductives block))"

definition generated_mutual_recursor_rules ::
  "mutual_inductive_block \<Rightarrow> inductive_decl \<Rightarrow> recursor_rules" where
  "generated_mutual_recursor_rules block data =
     (let start = length (ind_params data) + length (blk_inductives block) in
      \<lparr>minor_start = start,
       major_index = start + mutual_constructor_count block + length (ind_indices data)\<rparr>)"

fun mutual_offset_loop :: "env \<Rightarrow> string \<Rightarrow> nat \<Rightarrow> string list \<Rightarrow> nat kresult" where
  "mutual_offset_loop E target offset [] =
     Inl (InvalidInductive (target @ '' is not in mutual group''))"
| "mutual_offset_loop E target offset (n # ns) =
     (if n = target then Inr offset
      else rbind (inductive_data E n) (\<lambda>data.
        mutual_offset_loop E target (offset + length (ind_constructors data)) ns))"

definition mutual_constructor_offset ::
  "env \<Rightarrow> mutual_group_info \<Rightarrow> string \<Rightarrow> nat kresult" where
  "mutual_constructor_offset E g target = mutual_offset_loop E target 0 (grp_inductives g)"

definition mutual_family_index :: "mutual_inductive_block \<Rightarrow> string \<Rightarrow> nat kresult" where
  "mutual_family_index block n =
     ok_or (InvalidInductive (n @ '' is not in mutual block''))
       (position (\<lambda>data. ind_name data = n) (blk_inductives block))"

definition recursor_prefix_ctx :: "expr list \<Rightarrow> ctx" where
  "recursor_prefix_ctx domains = foldl push_assumption ctx_new domains"

section \<open>Expected minor premises\<close>

record minor_state =
  ms_map :: "nat list"
  ms_len :: nat
  ms_domains :: "expr list"
  ms_fields :: "nat list"

text \<open>
  One field of the constructor: its domain, then the induction hypothesis where the field
  is a direct recursive occurrence. \<open>recursive_field\<close> gives the motive and the indices of
  such an occurrence; \<open>None\<close> for any other field.
\<close>

definition minor_field ::
  "(expr \<Rightarrow> nat \<Rightarrow> (nat \<times> expr list) option kresult) \<Rightarrow> nat \<Rightarrow> nat \<times> expr \<Rightarrow> minor_state
   \<Rightarrow> minor_state kresult" where
  "minor_field recursive_field param_count p st =
     (case p of (field_index, field_domain) \<Rightarrow>
       let source = param_count + field_index in
       rbind (remap_bvars field_domain source (ms_len st) (ms_map st)) (\<lambda>d.
       let st1 = \<lparr>ms_map = ms_map st @ [ms_len st], ms_len = ms_len st + 1,
                  ms_domains = ms_domains st @ [d], ms_fields = ms_fields st @ [ms_len st]\<rparr> in
       rbind (recursive_field field_domain source) (\<lambda>r.
         case r of
           None \<Rightarrow> Inr st1
         | Some (motive_abs, index_args) \<Rightarrow>
             rbind (traverse (\<lambda>a. remap_bvars a source (ms_len st1) (ms_map st1)) index_args)
               (\<lambda>index_args'.
             rbind (motive_app (ms_len st1) motive_abs index_args' (BVar 0)) (\<lambda>h.
               Inr (st1\<lparr>ms_domains := ms_domains st1 @ [h], ms_len := ms_len st1 + 1\<rparr>))))))"

definition minor_type ::
  "(expr \<Rightarrow> nat \<Rightarrow> (nat \<times> expr list) option kresult) \<Rightarrow> inductive_decl \<Rightarrow> constructor_decl
   \<Rightarrow> nat \<Rightarrow> nat \<Rightarrow> expr kresult" where
  "minor_type recursive_field data c prefix_len motive_abs =
     (case peel_pi_domains (ctor_ty c) of (domains, constructor_result) \<Rightarrow>
       let param_count = length (ind_params data) in
       if length domains < param_count then
         Inl (InvalidInductive (ctor_name c @ '' constructor is missing parameter binders''))
       else
         rbind (constructor_result_index_args data c constructor_result) (\<lambda>result_indices.
         rbind (fold_res (minor_field recursive_field param_count)
                  (enumerate 0 (drop param_count domains))
                  \<lparr>ms_map = [0..<param_count], ms_len = prefix_len, ms_domains = [], ms_fields = []\<rparr>)
           (\<lambda>st.
         rbind (traverse (bvar_for_abs (ms_len st)) ([0..<param_count] @ ms_fields st))
           (\<lambda>constructor_args.
         rbind (traverse (\<lambda>a. remap_bvars a (length domains) (ms_len st) (ms_map st)) result_indices)
           (\<lambda>result_index_args.
         rbind (motive_app (ms_len st) motive_abs result_index_args
                  (apps (Const (ctor_name c) (expected_levels data)) constructor_args))
           (\<lambda>result. Inr (mk_pi_from_domains (ms_domains st) result)))))))"

definition expected_minor_type ::
  "inductive_decl \<Rightarrow> constructor_decl \<Rightarrow> nat \<Rightarrow> expr kresult" where
  "expected_minor_type data c constructor_index =
     minor_type
       (\<lambda>domain source.
         if is_direct_recursive_domain data domain source
         then rbind (direct_recursive_index_args data domain source)
                (\<lambda>idx. Inr (Some (length (ind_params data), idx)))
         else Inr None)
       data c (length (ind_params data) + 1 + constructor_index) (length (ind_params data))"

definition expected_mutual_minor_type ::
  "mutual_inductive_block \<Rightarrow> nat \<Rightarrow> constructor_decl \<Rightarrow> nat \<Rightarrow> expr kresult" where
  "expected_mutual_minor_type block family_index c constructor_index =
     rbind (ok_or (InvalidInductive (blk_name block @ '' constructor family index ''
              @ show_nat family_index @ '' is out of range''))
              (get_at (blk_inductives block) family_index)) (\<lambda>owner.
       minor_type
         (\<lambda>domain source.
           case direct_mutual_recursive_index_args_in_block block domain source of
             Inr (field_family, idx) \<Rightarrow> Inr (Some (length (ind_params owner) + field_family, idx))
           | Inl _ \<Rightarrow> Inr None)
         owner c (length (ind_params owner) + length (blk_inductives block) + constructor_index)
         (length (ind_params owner) + family_index))"

section \<open>Approved nested functors\<close>

record approved_functor =
  fun_name :: string
  fun_arity :: nat
  positive_args :: "nat list"

definition approved_nested_functors :: "approved_functor list" where
  "approved_nested_functors =
     [\<lparr>fun_name = ''List'', fun_arity = 1, positive_args = [0]\<rparr>,
      \<lparr>fun_name = ''Option'', fun_arity = 1, positive_args = [0]\<rparr>,
      \<lparr>fun_name = ''Prod'', fun_arity = 2, positive_args = [0, 1]\<rparr>]"

definition approved_nested_functor :: "string \<Rightarrow> nat \<Rightarrow> approved_functor option" where
  "approved_nested_functor n arity =
     find (\<lambda>f. fun_name f = n \<and> fun_arity f = arity) approved_nested_functors"

fun expr_eq_ignoring_binder_names :: "expr \<Rightarrow> expr \<Rightarrow> bool" where
  "expr_eq_ignoring_binder_names (Sort l) (Sort r) = level_eq l r"
| "expr_eq_ignoring_binder_names (BVar i) (BVar j) = (i = j)"
| "expr_eq_ignoring_binder_names (Const c us) (Const d vs) = (c = d \<and> levels_eq us vs)"
| "expr_eq_ignoring_binder_names (App f a) (App g b) =
     (expr_eq_ignoring_binder_names f g \<and> expr_eq_ignoring_binder_names a b)"
| "expr_eq_ignoring_binder_names (Lam x t b) (Lam y u c) =
     (expr_eq_ignoring_binder_names t u \<and> expr_eq_ignoring_binder_names b c)"
| "expr_eq_ignoring_binder_names (Pi x t b) (Pi y u c) =
     (expr_eq_ignoring_binder_names t u \<and> expr_eq_ignoring_binder_names b c)"
| "expr_eq_ignoring_binder_names _ _ = False"

definition approved_list_decl :: "inductive_decl \<Rightarrow> bool" where
  "approved_list_decl data =
     (case (ind_universe_params data, ind_params data, ind_indices data, ind_constructors data) of
        ([p], [a], [], [c0, c1]) \<Rightarrow>
          let u = LParam p; list_a = (\<lambda>a. App (Const ''List'' [u]) a) in
          ind_name data = ''List'' \<and> ind_universe_constraints data = [] \<and>
          bndr_ty a = Sort u \<and> level_eq (ind_sort data) u \<and>
          ctor_name c0 = ''List.nil'' \<and>
          expr_eq_ignoring_binder_names (ctor_ty c0) (Pi ''A'' (Sort u) (list_a (BVar 0))) \<and>
          ctor_name c1 = ''List.cons'' \<and>
          expr_eq_ignoring_binder_names (ctor_ty c1)
            (Pi ''A'' (Sort u) (Pi ''x'' (BVar 0) (Pi ''xs'' (list_a (BVar 1)) (list_a (BVar 2)))))
      | _ \<Rightarrow> False)"

definition approved_option_decl :: "inductive_decl \<Rightarrow> bool" where
  "approved_option_decl data =
     (case (ind_universe_params data, ind_params data, ind_indices data, ind_constructors data) of
        ([p], [a], [], [c0, c1]) \<Rightarrow>
          let u = LParam p; option_a = (\<lambda>a. App (Const ''Option'' [u]) a) in
          ind_name data = ''Option'' \<and> ind_universe_constraints data = [] \<and>
          bndr_ty a = Sort u \<and> level_eq (ind_sort data) u \<and>
          ctor_name c0 = ''Option.none'' \<and>
          expr_eq_ignoring_binder_names (ctor_ty c0) (Pi ''A'' (Sort u) (option_a (BVar 0))) \<and>
          ctor_name c1 = ''Option.some'' \<and>
          expr_eq_ignoring_binder_names (ctor_ty c1)
            (Pi ''A'' (Sort u) (Pi ''value'' (BVar 0) (option_a (BVar 1))))
      | _ \<Rightarrow> False)"

definition approved_prod_decl :: "inductive_decl \<Rightarrow> bool" where
  "approved_prod_decl data =
     (case (ind_universe_params data, ind_params data, ind_indices data, ind_constructors data) of
        ([p], [a, b], [], [c0]) \<Rightarrow>
          let u = LParam p; prod_ab = (\<lambda>a b. apps (Const ''Prod'' [u]) [a, b]) in
          ind_name data = ''Prod'' \<and> ind_universe_constraints data = [] \<and>
          bndr_ty a = Sort u \<and> bndr_ty b = Sort u \<and> level_eq (ind_sort data) u \<and>
          ctor_name c0 = ''Prod.mk'' \<and>
          expr_eq_ignoring_binder_names (ctor_ty c0)
            (Pi ''A'' (Sort u) (Pi ''B'' (Sort u) (Pi ''fst'' (BVar 1)
               (Pi ''snd'' (BVar 1) (prod_ab (BVar 3) (BVar 2))))))
      | _ \<Rightarrow> False)"

definition approved_nested_functor_decl_is_valid :: "env \<Rightarrow> string \<Rightarrow> nat \<Rightarrow> bool" where
  "approved_nested_functor_decl_is_valid E n arity =
     (case decls E n of
        Some (Inductive _ _ _ data) \<Rightarrow>
          if n = ''List'' \<and> arity = 1 then approved_list_decl data
          else if n = ''Option'' \<and> arity = 1 then approved_option_decl data
          else if n = ''Prod'' \<and> arity = 2 then approved_prod_decl data
          else False
      | _ \<Rightarrow> False)"

section \<open>Strict positivity\<close>

text \<open>
  The single and the mutual test differ in the recognizer of direct occurrences and in the
  names that count as occurrences; both are arguments here.
\<close>

lemma list_all_enumerate_cong [fundef_cong]:
  "xs = ys \<Longrightarrow> (\<And>p. p \<in> set ys \<Longrightarrow> f p = g p) \<Longrightarrow> list_all f xs = list_all g ys"
  by (auto simp: list_all_iff)

function positive_occurrences ::
  "env \<Rightarrow> (expr \<Rightarrow> nat \<Rightarrow> bool) \<Rightarrow> string list \<Rightarrow> expr \<Rightarrow> nat \<Rightarrow> bool" where
  "positive_occurrences E direct ns domain ctx_len =
     (if direct domain ctx_len then True
      else (case domain of
        Sort _ \<Rightarrow> True
      | BVar _ \<Rightarrow> True
      | Const n _ \<Rightarrow> n \<notin> set ns
      | App _ _ \<Rightarrow>
          (case collect_apps domain of
             (Const n _, args) \<Rightarrow>
               (case approved_nested_functor n (length args) of
                  None \<Rightarrow> \<not> contains_any_const domain ns
                | Some f \<Rightarrow>
                    if \<not> approved_nested_functor_decl_is_valid E (fun_name f) (fun_arity f)
                    then \<not> contains_any_const domain ns
                    else list_all (\<lambda>(i, arg).
                      if i \<in> set (positive_args f)
                      then positive_occurrences E direct ns arg ctx_len
                      else \<not> contains_any_const arg ns) (enumerate 0 args))
           | _ \<Rightarrow> \<not> contains_any_const domain ns)
      | Pi _ t b \<Rightarrow>
          \<not> contains_any_const t ns \<and> positive_occurrences E direct ns b (ctx_len + 1)
      | Lam _ _ _ \<Rightarrow> \<not> contains_any_const domain ns))"
  by pat_completeness auto
termination
proof (relation "measure (\<lambda>(_, _, _, e, _). size e)")
  fix E direct ns domain ctx_len x41 x42 head args c us f p i arg
  assume "(head, args) = collect_apps domain" and "p \<in> set (enumerate 0 args)" and "(i, arg) = p"
  moreover from this have "arg \<in> set (snd (collect_apps domain))"
    by (cases "collect_apps domain") (auto simp: in_set_enumerate_eq)
  ultimately show "((E, direct, ns, arg, ctx_len), (E, direct, ns, domain, ctx_len))
      \<in> measure (\<lambda>(_, _, _, e, _). size e)"
    using size_collect_apps_arg by simp
qed auto

declare positive_occurrences.simps [simp del]

definition recursive_occurrences_strictly_positive ::
  "env \<Rightarrow> inductive_decl \<Rightarrow> expr \<Rightarrow> nat \<Rightarrow> bool" where
  "recursive_occurrences_strictly_positive E data domain ctx_len =
     positive_occurrences E (\<lambda>d n. is_ok (direct_recursive_index_args data d n))
       [ind_name data] domain ctx_len"

definition block_names :: "mutual_inductive_block \<Rightarrow> string list" where
  "block_names block = map ind_name (blk_inductives block)"

definition mutual_recursive_occurrences_strictly_positive ::
  "env \<Rightarrow> mutual_inductive_block \<Rightarrow> expr \<Rightarrow> nat \<Rightarrow> bool" where
  "mutual_recursive_occurrences_strictly_positive E block domain ctx_len =
     positive_occurrences E (\<lambda>d n. is_ok (direct_mutual_recursive_index_args_in_block block d n))
       (block_names block) domain ctx_len"

definition check_constructor_domain_positive ::
  "env \<Rightarrow> inductive_decl \<Rightarrow> string \<Rightarrow> nat \<times> expr \<Rightarrow> unit kresult" where
  "check_constructor_domain_positive E data c p =
     (case p of (domain_index, domain) \<Rightarrow>
       let allowed = domain_index \<ge> length (ind_params data) \<and>
         recursive_occurrences_strictly_positive E data domain domain_index in
       if \<not> allowed \<and> contains_const domain (ind_name data)
       then Inl (NonPositiveOccurrence (ind_name data) c domain) else Inr ())"

definition check_mutual_constructor_domain_positive ::
  "env \<Rightarrow> mutual_inductive_block \<Rightarrow> inductive_decl \<Rightarrow> string \<Rightarrow> nat \<times> expr \<Rightarrow> unit kresult" where
  "check_mutual_constructor_domain_positive E block data c p =
     (case p of (domain_index, domain) \<Rightarrow>
       let allowed = domain_index \<ge> length (ind_params data) \<and>
         mutual_recursive_occurrences_strictly_positive E block domain domain_index in
       if \<not> allowed \<and> contains_any_const domain (block_names block)
       then Inl (NonPositiveOccurrence (ind_name data) c domain) else Inr ())"

section \<open>The positivity test against its specification\<close>

text \<open>
  A domain is strictly positive in the names \<open>ns\<close> when it has none of them, is a direct
  recursive occurrence, is a function into such a domain from a domain without the names, or
  is an approved functor applied to such domains at its positive arguments.
\<close>

inductive strictly_positive ::
  "env \<Rightarrow> (expr \<Rightarrow> nat \<Rightarrow> bool) \<Rightarrow> string list \<Rightarrow> expr \<Rightarrow> nat \<Rightarrow> bool" for E direct ns where
  sp_absent: "\<not> contains_any_const d ns \<Longrightarrow> strictly_positive E direct ns d k"
| sp_direct: "direct d k \<Longrightarrow> strictly_positive E direct ns d k"
| sp_pi: "\<not> contains_any_const t ns \<Longrightarrow> strictly_positive E direct ns b (Suc k) \<Longrightarrow>
    strictly_positive E direct ns (Pi x t b) k"
| sp_functor: "is_app d \<Longrightarrow> collect_apps d = (Const n us, args) \<Longrightarrow>
    approved_nested_functor n (length args) = Some f \<Longrightarrow>
    approved_nested_functor_decl_is_valid E (fun_name f) (fun_arity f) \<Longrightarrow>
    (\<And>i. i < length args \<Longrightarrow> i \<in> set (positive_args f) \<Longrightarrow> strictly_positive E direct ns (args ! i) k) \<Longrightarrow>
    (\<And>i. i < length args \<Longrightarrow> i \<notin> set (positive_args f) \<Longrightarrow> \<not> contains_any_const (args ! i) ns) \<Longrightarrow>
    strictly_positive E direct ns d k"

lemma contains_any_const_simps [simp]:
  "contains_any_const (Sort l) ns = False"
  "contains_any_const (BVar i) ns = False"
  "contains_any_const (Const c us) ns \<longleftrightarrow> c \<in> set ns"
  "contains_any_const (App f a) ns \<longleftrightarrow> contains_any_const f ns \<or> contains_any_const a ns"
  "contains_any_const (Lam x t b) ns \<longleftrightarrow> contains_any_const t ns \<or> contains_any_const b ns"
  "contains_any_const (Pi x t b) ns \<longleftrightarrow> contains_any_const t ns \<or> contains_any_const b ns"
  by (auto simp: contains_any_const_def list_ex_iff)

lemma contains_any_const_apps [simp]:
  "contains_any_const (apps f as) ns \<longleftrightarrow>
     contains_any_const f ns \<or> (\<exists>a \<in> set as. contains_any_const a ns)"
  by (induction as arbitrary: f) auto

lemma list_all_enumerate:
  "list_all (\<lambda>(i, x). P i x) (enumerate 0 xs) \<longleftrightarrow> (\<forall>i < length xs. P i (xs ! i))"
  by (auto simp: list_all_iff in_set_enumerate_eq)

text \<open>The functor an application is headed by, when it is approved and declared as such.\<close>

definition functor_spine :: "env \<Rightarrow> expr \<Rightarrow> (expr list \<times> nat list) option" where
  "functor_spine E d =
     (case collect_apps d of
        (Const n _, args) \<Rightarrow>
          (case approved_nested_functor n (length args) of
             Some f \<Rightarrow>
               if approved_nested_functor_decl_is_valid E (fun_name f) (fun_arity f)
               then Some (args, positive_args f) else None
           | None \<Rightarrow> None)
      | _ \<Rightarrow> None)"

lemma functor_spine_Some:
  "functor_spine E d = Some (args, pos) \<longleftrightarrow>
     (\<exists>n us f. collect_apps d = (Const n us, args) \<and> approved_nested_functor n (length args) = Some f \<and>
        approved_nested_functor_decl_is_valid E (fun_name f) (fun_arity f) \<and> pos = positive_args f)"
  by (auto simp: functor_spine_def split: prod.splits expr.splits option.splits if_splits)

lemma positive_occurrences_app:
  assumes "is_app d"
  shows "positive_occurrences E direct ns d k \<longleftrightarrow> direct d k \<or>
    (case functor_spine E d of
       None \<Rightarrow> \<not> contains_any_const d ns
     | Some (args, pos) \<Rightarrow> \<forall>i < length args.
         if i \<in> set pos then positive_occurrences E direct ns (args ! i) k
         else \<not> contains_any_const (args ! i) ns)"
proof -
  from assms obtain f a where d: "d = App f a" by (cases d) simp_all
  show ?thesis
    unfolding positive_occurrences.simps [of E direct ns d] functor_spine_def list_all_enumerate
    by (simp add: d del: collect_apps_App
        split: prod.split expr.split option.split del: if_split cong: if_cong)
qed

lemma positive_occurrences_simps [simp]:
  "positive_occurrences E direct ns (Sort l) k"
  "positive_occurrences E direct ns (BVar i) k"
  "positive_occurrences E direct ns (Const n us) k \<longleftrightarrow> direct (Const n us) k \<or> n \<notin> set ns"
  "positive_occurrences E direct ns (Lam x t b) k \<longleftrightarrow>
     direct (Lam x t b) k \<or> \<not> contains_any_const (Lam x t b) ns"
  "positive_occurrences E direct ns (Pi x t b) k \<longleftrightarrow> direct (Pi x t b) k \<or>
     \<not> contains_any_const t ns \<and> positive_occurrences E direct ns b (Suc k)"
  by (subst positive_occurrences.simps; simp)+

lemma spine_args:
  assumes "functor_spine E d = Some (args, pos)" and "i < length args"
  shows "size (args ! i) < size d" and "\<not> contains_any_const d ns \<Longrightarrow> \<not> contains_any_const (args ! i) ns"
proof -
  from assms obtain n us where c: "collect_apps d = (Const n us, args)" by (auto simp: functor_spine_Some)
  with assms(2) show "size (args ! i) < size d" using size_collect_apps_arg [of "args ! i" d] by simp
  show "\<not> contains_any_const (args ! i) ns" if "\<not> contains_any_const d ns"
    using that c assms(2) apps_collect_apps [of d] by (metis contains_any_const_apps fst_conv nth_mem snd_conv)
qed

lemma positive_absent:
  "\<not> contains_any_const d ns \<Longrightarrow> positive_occurrences E direct ns d k"
proof (induction d arbitrary: k rule: measure_induct_rule [where f = size])
  case (less d)
  show ?case
  proof (cases "is_app d")
    case True
    then show ?thesis
      using less spine_args [of E d] by (auto simp: positive_occurrences_app split: option.split)
  next
    case False
    with less show ?thesis by (cases d) simp_all
  qed
qed

lemma positive_occurrences_spec:
  "positive_occurrences E direct ns d k \<longleftrightarrow> strictly_positive E direct ns d k"
proof
  show "strictly_positive E direct ns d k" if "positive_occurrences E direct ns d k"
    using that
  proof (induction d arbitrary: k rule: measure_induct_rule [where f = size])
    case (less d)
    show ?case
    proof (cases "is_app d")
      case True
      show ?thesis
      proof (cases "functor_spine E d")
        case None
        with less.prems True show ?thesis by (auto simp: positive_occurrences_app intro: sp_absent sp_direct)
      next
        case (Some q)
        obtain args pos where q: "q = (args, pos)" by (cases q)
        with Some obtain n us f where f: "collect_apps d = (Const n us, args)"
          "approved_nested_functor n (length args) = Some f"
          "approved_nested_functor_decl_is_valid E (fun_name f) (fun_arity f)" "pos = positive_args f"
          by (auto simp: functor_spine_Some)
        show ?thesis
        proof (cases "direct d k")
          case False
          with less True Some q f(4) spine_args(1) [of E d args pos] show ?thesis
            by (auto simp: positive_occurrences_app intro!: sp_functor [OF True f(1-3)] split: if_splits)
        qed (rule sp_direct)
      qed
    next
      case False
      with less show ?thesis
        by (cases d) (auto intro: strictly_positive.intros)
    qed
  qed
next
  assume "strictly_positive E direct ns d k"
  then show "positive_occurrences E direct ns d k"
  proof induction
    case (sp_functor d n us args f k)
    then have "functor_spine E d = Some (args, positive_args f)" by (auto simp: functor_spine_Some)
    with sp_functor show ?case by (simp add: positive_occurrences_app)
  next
    case (sp_direct d k)
    then show ?case by (subst positive_occurrences.simps) simp
  qed (simp_all add: positive_absent)
qed


lemma peel_pi_loop_acc: "peel_pi_loop acc e = (acc @ fst (peel_pi_loop [] e), snd (peel_pi_loop [] e))"
proof (induction e arbitrary: acc)
  case (Pi x t b)
  from Pi(2) [of "acc @ [t]"] Pi(2) [of "[t]"] show ?case by simp
qed simp_all

lemma peel_pi_simps [simp]:
  "peel_pi_domains (Pi x t b) = (t # fst (peel_pi_domains b), snd (peel_pi_domains b))"
  "peel_pi_domains (Sort l) = ([], Sort l)" "peel_pi_domains (BVar i) = ([], BVar i)"
  "peel_pi_domains (Const c us) = ([], Const c us)" "peel_pi_domains (App f a) = ([], App f a)"
  "peel_pi_domains (Lam x t b) = ([], Lam x t b)"
  using peel_pi_loop_acc [of "[t]" b] by (simp_all add: peel_pi_domains_def)

lemma peel_pi_other: "peel_pi_domains e = ([], e) \<or> (\<exists>x t b. e = Pi x t b)"
  by (cases e) simp_all

lemma present_domain:
  "t \<in> set (fst (peel_pi_domains d)) \<Longrightarrow> contains_any_const t ns \<Longrightarrow> contains_any_const d ns"
  by (induction d) auto

lemma direct_not_pi: "is_ok (direct_recursive_index_args data d k) \<Longrightarrow> peel_pi_domains d = ([], d)"
  using peel_pi_other [of d] by (auto simp: direct_recursive_index_args_def collect_apps_def)

lemma strictly_positive_domains:
  assumes "strictly_positive E direct ns d k" and "\<And>d k. direct d k \<Longrightarrow> peel_pi_domains d = ([], d)"
  shows "\<forall>t \<in> set (fst (peel_pi_domains d)). \<not> contains_any_const t ns"
  using assms(1)
proof induction
  case (sp_absent d k)
  then show ?case using present_domain by blast
next
  case (sp_functor d n us args f k)
  then have "peel_pi_domains d = ([], d)" using peel_pi_other [of d] by auto
  then show ?case by simp
qed (use assms(2) in auto)

lemma peel_mk_pi:
  "peel_pi_domains (mk_pi_from_domains ds body) =
     (ds @ fst (peel_pi_domains body), snd (peel_pi_domains body))"
  by (induction ds) (simp_all add: mk_pi_from_domains_def)

lemma mk_peel_pi:
  "erase_names (mk_pi_from_domains (fst (peel_pi_domains e)) (snd (peel_pi_domains e))) = erase_names e"
  by (induction e) (simp_all add: mk_pi_from_domains_def)

text \<open>
  C21: the positivity check of a constructor field accepts exactly the fields that do not
  mention the inductive and the non-parameter fields that are strictly positive in it.
\<close>

theorem constructor_domain_positivity:
  "check_constructor_domain_positive E data c (i, d) = Inr () \<longleftrightarrow>
     (if contains_const d (ind_name data)
      then length (ind_params data) \<le> i \<and>
        strictly_positive E (\<lambda>d n. is_ok (direct_recursive_index_args data d n)) [ind_name data] d i
      else True)"
  by (auto simp: check_constructor_domain_positive_def recursive_occurrences_strictly_positive_def
      positive_occurrences_spec)

text \<open>
  in a field the check accepts, the inductive occurs in no domain to the left of an arrow.
\<close>

theorem accepted_domain_arrows:
  assumes "check_constructor_domain_positive E data c (i, d) = Inr ()"
    and "t \<in> set (fst (peel_pi_domains d))"
  shows "\<not> contains_const t (ind_name data)"
proof -
  from assms(1) have "strictly_positive E (\<lambda>d n. is_ok (direct_recursive_index_args data d n))
      [ind_name data] d i"
    by (auto simp: check_constructor_domain_positive_def recursive_occurrences_strictly_positive_def
        positive_occurrences_spec contains_any_const_def intro: sp_absent split: if_splits)
  from strictly_positive_domains [OF this direct_not_pi] assms(2) show ?thesis
    by (auto simp: contains_any_const_def)
qed

theorem accepted_domain_arrows_witness:
  "\<not> contains_const (Sort LZero) ''T''"
proof -
  let ?d = "Pi ''x'' (Sort LZero) (Const ''T'' [])"
  let ?T = "\<lparr>ind_name = ''T'', ind_universe_params = [], ind_universe_constraints = [], ind_params = [],
    ind_indices = [], ind_sort = LSucc LZero, ind_constructors = [], ind_recursor = None\<rparr>"
  have "check_constructor_domain_positive env_new ?T ''T.mk'' (0, ?d) = Inr ()" by code_simp
  from accepted_domain_arrows [OF this, of "Sort LZero"] show ?thesis by simp
qed

text \<open>
  Telescopes round trip. Peeling the domains of a type built from domains gives them
  back before the domains of the body, and rebuilding a peeled type gives the type up to the
  names of its binders.
\<close>

theorem telescope_round_trip:
  "peel_pi_domains (mk_pi_from_domains ds body) =
     (ds @ fst (peel_pi_domains body), snd (peel_pi_domains body)) \<and>
   erase_names (mk_pi_from_domains (fst (peel_pi_domains e)) (snd (peel_pi_domains e))) = erase_names e"
  using peel_mk_pi mk_peel_pi by blast

end
