(* ===== verification/Metered.thy ===== *)
theory Metered
  imports Kernel_Syntax
begin

text \<open>
  Computations that spend fuel, and what it means that the fuel only bounds the work: the
  locale \<open>fuelled\<close> states that a run never gains fuel and that, unless it ran out, more
  fuel changes neither its answer nor its cost. Its lemmas are the client's view: the
  answer does not depend on the fuel, and exhaustion is monotone.
\<close>

section \<open>Fuel\<close>

text \<open>
  A metered computation is the pair of its result and the fuel it leaves, on the error
  path too, as a function that updates a \<^verbatim>\<open>&mut usize\<close> leaves it.
\<close>

type_synonym ('a, 's) metered = "'a kresult \<times> 's"

definition fbind ::
  "('a, 's) metered \<Rightarrow> ('a \<Rightarrow> 's \<Rightarrow> ('b, 's) metered) \<Rightarrow> ('b, 's) metered" where
  "fbind m f = (case m of (Inl e, n) \<Rightarrow> (Inl e, n) | (Inr a, n) \<Rightarrow> f a n)"

lemma fbind_simps [simp, res_simps]: "fbind (Inl e, n) f = (Inl e, n)" "fbind (Inr a, n) f = f a n"
  by (simp_all add: fbind_def)

lemma fbind_cong [fundef_cong]:
  "m = m' \<Longrightarrow> (\<And>a n. m' = (Inr a, n) \<Longrightarrow> f a n = f' a n) \<Longrightarrow> fbind m f = fbind m' f'"
  by (auto simp: fbind_def split: prod.split sum.split)

lemma fbind_eq_Inr:
  "fbind m f = (Inr b, n') \<longleftrightarrow> (\<exists>a n. m = (Inr a, n) \<and> f a n = (Inr b, n'))"
  by (cases m; cases "fst m") auto

lemma fbind_InrE:
  assumes "fbind m f = (Inr b, n')"
  obtains a n where "m = (Inr a, n)" "f a n = (Inr b, n')"
  using assms by (auto simp: fbind_eq_Inr)

lemma fbind_assoc: "fbind (fbind m f) g = fbind m (\<lambda>a n. fbind (f a n) g)"
  by (cases m; cases "fst m") auto

lemma fbind_le:
  fixes n0 :: "'s::order"
  assumes "snd m \<le> n0" and "\<And>a n. m = (Inr a, n) \<Longrightarrow> snd (f a n) \<le> n"
  shows "snd (fbind m f) \<le> n0"
proof (cases m)
  case (Pair r n)
  with assms show ?thesis by (cases r) (auto intro: order_trans)
qed

definition spend_fuel :: "nat \<Rightarrow> resource_limit_kind \<Rightarrow> (unit, nat) metered" where
  "spend_fuel fuel kind =
     (if fuel = 0 then (Inl (ResourceLimit kind), fuel) else (Inr (), fuel - 1))"

lemma spend_fuel_Inr: "spend_fuel fuel kind = (Inr u, n) \<longleftrightarrow> fuel = Suc n"
  by (auto simp: spend_fuel_def)

lemma spend_fuel_le: "snd (spend_fuel fuel kind) \<le> fuel"
  by (simp add: spend_fuel_def)

section \<open>Runs that more fuel does not change\<close>

definition stable_at :: "kerror \<Rightarrow> nat \<Rightarrow> (nat \<Rightarrow> ('a, nat) metered) \<Rightarrow> nat \<Rightarrow> bool" where
  "stable_at e k m n \<longleftrightarrow> (fst (m n) \<noteq> Inl e \<longrightarrow> m (n + k) = (fst (m n), snd (m n) + k))"

lemma stable_at_pure [intro!, simp]: "stable_at e k (Pair r) n"
  by (simp add: stable_at_def)

lemma stable_at_spend: "stable_at (ResourceLimit kind) k (\<lambda>n. spend_fuel n kind) n"
  by (simp add: stable_at_def spend_fuel_def)

lemma stable_at_fbind:
  assumes "stable_at e k m n" and "\<And>a n'. m n = (Inr a, n') \<Longrightarrow> stable_at e k (f a) n'"
  shows "stable_at e k (\<lambda>n. fbind (m n) f) n"
proof (cases "m n")
  case (Pair r n')
  with assms show ?thesis by (cases r) (auto simp: stable_at_def)
qed

lemma stable_at_pure_bind:
  "(\<And>a. r = Inr a \<Longrightarrow> stable_at e k (f a) n) \<Longrightarrow> stable_at e k (\<lambda>n. fbind (r, n) f) n"
  by (rule stable_at_fbind) auto

lemma stable_at_case_option:
  "(x = None \<Longrightarrow> stable_at e k g n) \<Longrightarrow> (\<And>v. x = Some v \<Longrightarrow> stable_at e k (f v) n) \<Longrightarrow>
   stable_at e k (\<lambda>n. case x of None \<Rightarrow> g n | Some v \<Rightarrow> f v n) n"
  by (cases x) auto

lemmas stable_at_intros = stable_at_pure_bind stable_at_case_option stable_at_fbind

locale fuelled =
  fixes run :: "'i \<Rightarrow> nat \<Rightarrow> ('o, nat) metered"
    and kind_of :: "'i \<Rightarrow> resource_limit_kind"
  assumes run_le: "snd (run i n) \<le> n"
    and run_stable: "stable_at (ResourceLimit (kind_of i)) k (run i) n"
begin

lemma run_more:
  assumes "fst (run i m) \<noteq> Inl (ResourceLimit (kind_of i))" and "m \<le> n"
  shows "run i n = (fst (run i m), snd (run i m) + (n - m))"
  using run_stable [of i "n - m" m] assms by (simp add: stable_at_def)

lemma answer_independent:
  assumes "fst (run i m) \<noteq> Inl (ResourceLimit (kind_of i))"
    and "fst (run i n) \<noteq> Inl (ResourceLimit (kind_of i))"
  shows "fst (run i m) = fst (run i n) \<and> m - snd (run i m) = n - snd (run i n)"
proof -
  have *: "fst (run i a) = fst (run i b) \<and> a - snd (run i a) = b - snd (run i b)"
    if "a \<le> b" "fst (run i a) \<noteq> Inl (ResourceLimit (kind_of i))" for a b
  proof -
    have "fst (run i b) = fst (run i a)" "snd (run i b) = snd (run i a) + (b - a)"
      by (simp_all add: run_more [OF that(2,1)])
    with run_le [of i a] that(1) show ?thesis by simp
  qed
  show ?thesis
  proof (cases "m \<le> n")
    case True
    then show ?thesis using assms(1) by (rule *)
  next
    case False
    then have "n \<le> m" by simp
    from * [OF this assms(2)] show ?thesis by metis
  qed
qed

lemma exhaustion_monotone:
  assumes "fst (run i n) = Inl (ResourceLimit (kind_of i))" and "m \<le> n"
  shows "fst (run i m) = Inl (ResourceLimit (kind_of i))"
proof (rule ccontr)
  assume "fst (run i m) \<noteq> Inl (ResourceLimit (kind_of i))"
  with run_more [OF this assms(2)] assms(1) show False by simp
qed

end

end
