(* ===== verification/Kernel_Whnf.thy ===== *)
theory Kernel_Whnf
  imports Kernel_Shape Metered
begin

text \<open>
  Weak head normalization (\<^verbatim>\<open>npa-kernel/src/env.rs\<close>). \<open>whnf_loop\<close> is the explicit-stack
  machine \<^verbatim>\<open>whnf_machine\<close> with the uncached driver: a control word, a stack of frames,
  and the fuel, which a \<^verbatim>\<open>Reduce\<close> control spends. \<open>whnf_oracle\<close> is the recursive
  function the source keeps for its tests. The machine computes the oracle: same result,
  same error, same fuel left, on every input.
\<close>

section \<open>Delta and iota\<close>

text \<open>The value of a reducible definition at given levels; \<open>None\<close> for any other constant.\<close>

definition delta_value :: "env \<Rightarrow> string \<Rightarrow> level list \<Rightarrow> expr kresult option" where
  "delta_value E n levels =
     (case decls E n of
        Some (Def _ ps _ v Reducible) \<Rightarrow> Some (subst_levels_expr v ps levels)
      | Some (DefConstrained _ ps _ _ v Reducible) \<Rightarrow> Some (subst_levels_expr v ps levels)
      | _ \<Rightarrow> None)"

definition reduce_field ::
  "env \<Rightarrow> mutual_group_info option \<Rightarrow> inductive_decl \<Rightarrow> string \<Rightarrow> level list \<Rightarrow> expr list \<Rightarrow> nat
   \<Rightarrow> expr list \<Rightarrow> nat \<times> expr \<times> expr \<Rightarrow> expr \<Rightarrow> expr kresult" where
  "reduce_field E grp data rec_nm levels args index_start constructor_args p reduced =
     (case p of (field_index, field_arg, field_domain) \<Rightarrow>
       let source = length (ind_params data) + field_index;
           source_args = take source constructor_args;
           reduced' = App reduced field_arg in
       (case grp of
         Some g \<Rightarrow>
           (case direct_mutual_recursive_index_args E g field_domain source of
              Inl _ \<Rightarrow> Inr reduced'
            | Inr (field_inductive, index_args) \<Rightarrow>
                rbind (ok_or (InvalidInductive (field_inductive @ '' has no mutual recursor''))
                         (grp_recursors g field_inductive)) (\<lambda>recursive_name.
                rbind (inductive_data E field_inductive) (\<lambda>recursive_data.
                rbind (slice_to Panic args index_start) (\<lambda>first_args.
                rbind (traverse (\<lambda>a. instantiate_constructor_args a source_args) index_args)
                  (\<lambda>idx.
                  if length (first_args @ idx) \<noteq> index_start + length (ind_indices recursive_data)
                  then Inl (InvalidInductive
                    (recursive_name @ '' recursive call index arity mismatch''))
                  else Inr (App reduced'
                    (apps (Const recursive_name levels) (first_args @ idx @ [field_arg]))))))))
       | None \<Rightarrow>
           if is_direct_recursive_domain data field_domain source then
             rbind (slice_to Panic args index_start) (\<lambda>first_args.
             rbind (direct_recursive_index_args data field_domain source) (\<lambda>index_args.
             rbind (traverse (\<lambda>a. instantiate_constructor_args a source_args) index_args) (\<lambda>idx.
               Inr (App reduced' (apps (Const rec_nm levels) (first_args @ idx @ [field_arg]))))))
           else Inr reduced'))"

definition reduce_constructor ::
  "env \<Rightarrow> inductive_decl \<Rightarrow> string \<Rightarrow> level list \<Rightarrow> recursor_rules \<Rightarrow> expr list \<Rightarrow> nat \<Rightarrow> expr
   \<Rightarrow> expr list \<Rightarrow> mutual_group_info option \<Rightarrow> expr option kresult" where
  "reduce_constructor E data rec_nm levels rules args constructor_index minor constructor_args grp =
     (let domains = fst (peel_pi_domains (ctor_ty (ind_constructors data ! constructor_index)));
          parameter_count = length (ind_params data) in
      if length constructor_args < parameter_count then Inr None
      else
        rbind (checked_sub Panic (major_index rules) (length (ind_indices data))) (\<lambda>index_start.
        rbind (slice_from Panic domains parameter_count) (\<lambda>field_domains.
          let field_args = drop parameter_count constructor_args in
          if length field_args < length field_domains then Inr None
          else
            rbind (fold_res
                     (reduce_field E grp data rec_nm levels args index_start constructor_args)
                     (enumerate 0 (zip field_args field_domains)) minor) (\<lambda>reduced.
            rbind (slice_from Panic args (major_index rules + 1)) (\<lambda>rest.
              Inr (Some (apps reduced rest)))))))"

definition finish_recursor ::
  "env \<Rightarrow> string \<Rightarrow> level list \<Rightarrow> string \<Rightarrow> recursor_rules \<Rightarrow> expr list \<Rightarrow> expr \<times> expr list
   \<Rightarrow> expr option kresult" where
  "finish_recursor E rec_nm levels ind rules args major_view =
     (case major_view of
        (Const constructor_name _, constructor_args) \<Rightarrow>
          if \<not> constructor_belongs_to E constructor_name ind then Inr None
          else rbind (inductive_data E ind) (\<lambda>data.
            case position (\<lambda>c. ctor_name c = constructor_name) (ind_constructors data) of
              None \<Rightarrow> Inr None
            | Some constructor_index \<Rightarrow>
                rbind (case mutual_groups E ind of
                         Some g \<Rightarrow> mutual_constructor_offset E g ind | None \<Rightarrow> Inr 0) (\<lambda>offset.
                  case get_at args (minor_start rules + offset + constructor_index) of
                    None \<Rightarrow> Inr None
                  | Some minor \<Rightarrow>
                      reduce_constructor E data rec_nm levels rules args constructor_index minor
                        constructor_args (mutual_groups E ind)))
      | _ \<Rightarrow> Inr None)"

text \<open>
  Whether an application, given by its head and arguments, has a recursor at its head and
  enough arguments to have a major premise.
\<close>

definition classify_recursor ::
  "env \<Rightarrow> expr \<times> expr list \<Rightarrow> (string \<times> recursor_rules \<times> expr) option" where
  "classify_recursor E view =
     (case view of
        (Const n _, args) \<Rightarrow>
          (case decls E n of
             Some (Recursor _ _ _ ind rules) \<Rightarrow>
               if length args > major_index rules
               then Some (ind, rules, args ! major_index rules) else None
           | _ \<Rightarrow> None)
      | _ \<Rightarrow> None)"

section \<open>The machine\<close>

datatype whnf_application = WAtom | WDeferred | WKnown expr "expr list"

record whnf_value =
  wv_expr :: expr
  wv_application :: whnf_application

definition wv_atom :: "expr \<Rightarrow> whnf_value" where
  "wv_atom e = \<lparr>wv_expr = e, wv_application = WAtom\<rparr>"

definition wv_memo_hit :: "expr \<Rightarrow> whnf_value" where
  "wv_memo_hit e =
     \<lparr>wv_expr = e, wv_application = (case e of App _ _ \<Rightarrow> WDeferred | _ \<Rightarrow> WAtom)\<rparr>"

definition recover_deferred_application :: "whnf_value \<Rightarrow> whnf_value" where
  "recover_deferred_application v =
     (case wv_application v of
        WDeferred \<Rightarrow>
          (case collect_apps_loop (wv_expr v) [] of
             (head, arguments) \<Rightarrow> v\<lparr>wv_application := WKnown head (rev arguments)\<rparr>)
      | _ \<Rightarrow> v)"

definition application_view :: "whnf_value \<Rightarrow> expr \<times> expr list" where
  "application_view v =
     (let r = recover_deferred_application v in
      case wv_application r of WKnown head arguments \<Rightarrow> (head, arguments) | _ \<Rightarrow> (wv_expr r, []))"

definition wv_append :: "whnf_value \<Rightarrow> expr \<Rightarrow> whnf_value" where
  "wv_append v argument =
     (let r = recover_deferred_application v in
      \<lparr>wv_expr = App (wv_expr r) argument,
       wv_application =
         (case wv_application r of
            WKnown head arguments \<Rightarrow> WKnown head (arguments @ [argument])
          | _ \<Rightarrow> WKnown (wv_expr r) [argument])\<rparr>)"

datatype whnf_frame =
    FApply expr
  | FRecursorMajor whnf_value string recursor_rules

datatype whnf_control =
    CReduce expr
  | CComplete whnf_value
  | CResume whnf_value

text \<open>The source declares a recursor frame without a constant at its head unreachable.\<close>

definition finish_recursor_reduction_from_views ::
  "env \<Rightarrow> whnf_value \<Rightarrow> string \<Rightarrow> recursor_rules \<Rightarrow> whnf_value \<Rightarrow> expr option kresult" where
  "finish_recursor_reduction_from_views E application ind rules major =
     (case application_view application of
        (Const rec_nm levels, args) \<Rightarrow>
          finish_recursor E rec_nm levels ind rules args (application_view major)
      | _ \<Rightarrow> Inl (Panic
          ''internal error: entered unreachable code: resolved recursor application has a constant head''))"

fun control_weight :: "whnf_frame list \<Rightarrow> whnf_control \<Rightarrow> nat" where
  "control_weight frames (CReduce t) = 0"
| "control_weight frames (CComplete v) = 2 * length frames + 2"
| "control_weight frames (CResume v) = 2 * length frames + 1"

function whnf_loop ::
  "env \<Rightarrow> ctx \<Rightarrow> resource_limit_kind \<Rightarrow> whnf_frame list \<Rightarrow> whnf_control \<Rightarrow> nat
   \<Rightarrow> (expr, nat) metered" where
  "whnf_loop E c kind frames (CReduce current) fuel =
     fbind (spend_fuel fuel kind) (\<lambda>_ fuel.
       case current of
         BVar i \<Rightarrow>
           fbind (ensure_bound c i, fuel) (\<lambda>_ fuel.
             whnf_loop E c kind frames (CComplete (wv_atom (BVar i))) fuel)
       | Const n levels \<Rightarrow>
           (case delta_value E n levels of
              Some v \<Rightarrow> fbind (v, fuel) (\<lambda>e fuel. whnf_loop E c kind frames (CReduce e) fuel)
            | None \<Rightarrow> whnf_loop E c kind frames (CComplete (wv_atom current)) fuel)
       | App f a \<Rightarrow> whnf_loop E c kind (FApply a # frames) (CReduce f) fuel
       | _ \<Rightarrow> whnf_loop E c kind frames (CComplete (wv_atom current)) fuel)"
| "whnf_loop E c kind frames (CComplete v) fuel = whnf_loop E c kind frames (CResume v) fuel"
| "whnf_loop E c kind [] (CResume v) fuel = (Inr (wv_expr v), fuel)"
| "whnf_loop E c kind (FApply argument # frames) (CResume v) fuel =
     (case wv_expr v of
        Lam x t body \<Rightarrow>
          fbind (instantiate body argument, fuel) (\<lambda>e fuel.
            whnf_loop E c kind frames (CReduce e) fuel)
      | _ \<Rightarrow>
          let application = wv_append v argument in
          (case classify_recursor E (application_view application) of
             Some (ind, rules, major) \<Rightarrow>
               whnf_loop E c kind (FRecursorMajor application ind rules # frames)
                 (CReduce major) fuel
           | None \<Rightarrow> whnf_loop E c kind frames (CComplete application) fuel))"
| "whnf_loop E c kind (FRecursorMajor application ind rules # frames) (CResume v) fuel =
     fbind (finish_recursor_reduction_from_views E application ind rules v, fuel) (\<lambda>r fuel.
       case r of
         Some reduced \<Rightarrow> whnf_loop E c kind frames (CReduce reduced) fuel
       | None \<Rightarrow> whnf_loop E c kind frames (CComplete application) fuel)"
  by pat_completeness auto
termination whnf_loop
  by (relation "measures [\<lambda>(_, _, _, _, _, fuel). fuel,
      \<lambda>(_, _, _, frames, control, _). control_weight frames control]")
    (auto simp: spend_fuel_Inr)

definition whnf_with_remaining_fuel ::
  "env \<Rightarrow> ctx \<Rightarrow> expr \<Rightarrow> nat \<Rightarrow> resource_limit_kind \<Rightarrow> (expr, nat) metered" where
  "whnf_with_remaining_fuel E c t fuel kind = whnf_loop E c kind [] (CReduce t) fuel"

section \<open>The recursive oracle\<close>

text \<open>
  \<open>whnf_oracle\<close> with \<^verbatim>\<open>recursive_oracle_reduce_recursor\<close> in place (its finish step is
  the same text as the machine's). The recursion is nested: the fuel of a call is what the
  previous call left.
\<close>

record recursor_redex =
  rx_name :: string
  rx_levels :: "level list"
  rx_inductive :: string
  rx_rules :: recursor_rules
  rx_args :: "expr list"

definition rx_major :: "recursor_redex \<Rightarrow> expr" where
  "rx_major r = rx_args r ! major_index (rx_rules r)"

definition find_redex :: "env \<Rightarrow> expr \<Rightarrow> recursor_redex option" where
  "find_redex E t =
     (case collect_apps t of
        (Const n levels, args) \<Rightarrow>
          (case decls E n of
             Some (Recursor _ _ _ ind rules) \<Rightarrow>
               if length args \<le> major_index rules then None
               else Some \<lparr>rx_name = n, rx_levels = levels, rx_inductive = ind,
                          rx_rules = rules, rx_args = args\<rparr>
           | _ \<Rightarrow> None)
      | _ \<Rightarrow> None)"

definition finish_redex :: "env \<Rightarrow> recursor_redex \<Rightarrow> expr \<Rightarrow> expr option kresult" where
  "finish_redex E r m =
     finish_recursor E (rx_name r) (rx_levels r) (rx_inductive r) (rx_rules r) (rx_args r)
       (collect_apps m)"

definition lam_body :: "expr \<Rightarrow> expr option" where
  "lam_body e = (case e of Lam _ _ b \<Rightarrow> Some b | _ \<Rightarrow> None)"

function whnf_oracle ::
  "env \<Rightarrow> ctx \<Rightarrow> resource_limit_kind \<Rightarrow> expr \<Rightarrow> nat \<Rightarrow> (expr, nat) metered" where
  "whnf_oracle E c kind current fuel =
     fbind (spend_fuel fuel kind) (\<lambda>_ fuel.
       case current of
         BVar i \<Rightarrow> fbind (ensure_bound c i, fuel) (\<lambda>_ fuel. (Inr (BVar i), fuel))
       | Const n levels \<Rightarrow>
           (case delta_value E n levels of
              Some v \<Rightarrow> fbind (v, fuel) (\<lambda>e fuel. whnf_oracle E c kind e fuel)
            | None \<Rightarrow> (Inr current, fuel))
       | App f a \<Rightarrow>
           fbind (whnf_oracle E c kind f fuel) (\<lambda>fn fuel.
             case lam_body fn of
               Some body \<Rightarrow>
                 fbind (instantiate body a, fuel) (\<lambda>e fuel. whnf_oracle E c kind e fuel)
             | None \<Rightarrow>
                 (case find_redex E (App fn a) of
                    Some r \<Rightarrow>
                      fbind (whnf_oracle E c kind (rx_major r) fuel) (\<lambda>m fuel.
                        fbind (finish_redex E r m, fuel) (\<lambda>reduct fuel.
                          case reduct of
                            Some reduced \<Rightarrow> whnf_oracle E c kind reduced fuel
                          | None \<Rightarrow> (Inr (App fn a), fuel)))
                  | None \<Rightarrow> (Inr (App fn a), fuel)))
       | _ \<Rightarrow> (Inr current, fuel))"
  by pat_completeness auto

lemma whnf_oracle_dom_le:
  "whnf_oracle_dom (E, c, kind, t, fuel) \<Longrightarrow> snd (whnf_oracle E c kind t fuel) \<le> fuel"
proof (induct E c kind t fuel rule: whnf_oracle.pinduct)
  case (1 E c kind current fuel)
  show ?case
    unfolding whnf_oracle.psimps [OF 1(1)]
    by (rule fbind_le [OF spend_fuel_le])
      (auto split: expr.split option.split intro!: fbind_le; force intro: 1(2-))
qed

lemma whnf_oracle_dom_leD:
  "whnf_oracle_dom (E, c, kind, t, fuel) \<Longrightarrow> whnf_oracle E c kind t fuel = (r, n) \<Longrightarrow> n \<le> fuel"
  using whnf_oracle_dom_le by fastforce

termination whnf_oracle
  by (relation "measure (\<lambda>(_, _, _, _, fuel). fuel)")
    (auto simp: spend_fuel_Inr dest!: whnf_oracle_dom_leD)

declare whnf_oracle.simps [simp del]

lemma whnf_oracle_le: "snd (whnf_oracle E c kind t fuel) \<le> fuel"
proof (induction E c kind t fuel rule: whnf_oracle.induct)
  case (1 E c kind current fuel)
  show ?case
    unfolding whnf_oracle.simps [of E c kind current]
    by (rule fbind_le [OF spend_fuel_le])
      (auto split: expr.split option.split intro!: fbind_le; force intro: 1)
qed

section \<open>The machine computes the oracle\<close>

declare whnf_loop.simps(1) [simp del]

definition mk_value :: "expr \<Rightarrow> whnf_value" where
  "mk_value r =
     (if is_app r
      then \<lparr>wv_expr = r, wv_application = WKnown (fst (collect_apps r)) (snd (collect_apps r))\<rparr>
      else wv_atom r)"

lemma wv_expr_mk_value [simp]: "wv_expr (mk_value r) = r"
  by (simp add: mk_value_def wv_atom_def)

lemma recover_mk_value [simp]: "recover_deferred_application (mk_value r) = mk_value r"
  by (simp add: mk_value_def recover_deferred_application_def wv_atom_def)

lemma view_mk_value [simp]: "application_view (mk_value r) = collect_apps r"
  unfolding application_view_def
  by (simp add: Let_def) (simp add: mk_value_def wv_atom_def)

lemma append_mk_value [simp]: "wv_append (mk_value f) a = mk_value (App f a)"
  unfolding wv_append_def
  by (simp add: Let_def) (simp add: mk_value_def wv_atom_def)

text \<open>A value taken from the memo table has the view of the expression it holds.\<close>

lemma view_memo_hit: "application_view (wv_memo_hit e) = collect_apps e"
  by (cases e) (simp_all add: application_view_def wv_memo_hit_def recover_deferred_application_def
      collect_apps_def split: prod.split)

lemma atom_mk_value: "\<not> is_app e \<Longrightarrow> wv_atom e = mk_value e"
  by (simp add: mk_value_def)

lemma classify_find_redex:
  "classify_recursor E (collect_apps t) =
     map_option (\<lambda>r. (rx_inductive r, rx_rules r, rx_major r)) (find_redex E t)"
  by (auto simp: classify_recursor_def find_redex_def rx_major_def
      split: prod.split expr.split option.split decl.split)

lemma find_redex_view:
  "find_redex E t = Some r \<Longrightarrow> collect_apps t = (Const (rx_name r) (rx_levels r), rx_args r)"
  by (auto simp: find_redex_def split: prod.splits expr.splits option.splits decl.splits if_splits)

lemma finish_views_redex:
  "find_redex E t = Some r \<Longrightarrow>
   finish_recursor_reduction_from_views E (mk_value t) (rx_inductive r) (rx_rules r) (mk_value m) =
     finish_redex E r m"
  by (simp add: finish_recursor_reduction_from_views_def finish_redex_def find_redex_view)

lemma resume_apply_lam:
  "lam_body fn = Some body \<Longrightarrow>
   whnf_loop E c kind (FApply a # fs) (CResume (mk_value fn)) n =
     fbind (instantiate body a, n) (\<lambda>e n. whnf_loop E c kind fs (CReduce e) n)"
  by (auto simp: lam_body_def split: expr.splits)

lemma resume_apply_other:
  "lam_body fn = None \<Longrightarrow>
   whnf_loop E c kind (FApply a # fs) (CResume (mk_value fn)) n =
     (case find_redex E (App fn a) of
        Some r \<Rightarrow> whnf_loop E c kind
          (FRecursorMajor (mk_value (App fn a)) (rx_inductive r) (rx_rules r) # fs)
          (CReduce (rx_major r)) n
      | None \<Rightarrow> whnf_loop E c kind fs (CResume (mk_value (App fn a))) n)"
  using classify_find_redex [of E "App fn a"]
  by (cases fn; cases "find_redex E (App fn a)") (simp_all add: lam_body_def Let_def)

lemma machine_computes_oracle:
  "whnf_loop E c kind fs (CReduce t) fuel =
     fbind (whnf_oracle E c kind t fuel) (\<lambda>r n. whnf_loop E c kind fs (CResume (mk_value r)) n)"
proof (induction E c kind t fuel arbitrary: fs rule: whnf_oracle.induct)
  case (1 E c kind current fuel)
  show ?case
  proof (cases "spend_fuel fuel kind")
    case (Pair r n)
    show ?thesis
    proof (cases r)
      case (Inl e)
      with Pair show ?thesis
        by (simp add: whnf_oracle.simps [of E c kind current] whnf_loop.simps(1))
    next
      case (Inr u)
      note spent = Pair [unfolded Inr]
      have app: ?thesis if cur: "current = App f a" for f a
      proof -
        have "whnf_loop E c kind fs (CReduce current) fuel =
            whnf_loop E c kind (FApply a # fs) (CReduce f) n"
          using spent cur by (simp add: whnf_loop.simps(1))
        also have "\<dots> = fbind (whnf_oracle E c kind f n)
            (\<lambda>fn n. whnf_loop E c kind (FApply a # fs) (CResume (mk_value fn)) n)"
          using 1(2) [OF spent cur] .
        also have "\<dots> = fbind (whnf_oracle E c kind current fuel)
            (\<lambda>r n. whnf_loop E c kind fs (CResume (mk_value r)) n)"
          unfolding whnf_oracle.simps [of E c kind current fuel] spent
          using 1(3) [OF spent cur] 1(4-5) [OF spent cur]
          by (auto simp: cur fbind_assoc resume_apply_lam resume_apply_other finish_views_redex
              simp del: whnf_loop.simps(4) intro!: fbind_cong split: option.split)
        finally show ?thesis .
      qed
      show ?thesis
      proof (cases current)
        case (Const m ls)
        show ?thesis
          unfolding whnf_oracle.simps [of E c kind current fuel]
            whnf_loop.simps(1) [of E c kind fs current fuel]
          using spent 1(1) [OF spent Const]
          by (auto simp: Const atom_mk_value fbind_assoc split: option.split intro!: fbind_cong)
      qed (use spent app in \<open>auto simp: whnf_oracle.simps [of E c kind _ fuel]
          whnf_loop.simps(1) [of E c kind fs _ fuel] atom_mk_value fbind_assoc intro!: fbind_cong\<close>)
    qed
  qed
qed

lemma whnf_machine_oracle:
  "whnf_with_remaining_fuel E c t fuel kind = whnf_oracle E c kind t fuel"
  unfolding whnf_with_remaining_fuel_def machine_computes_oracle
  by (cases "whnf_oracle E c kind t fuel"; cases "fst (whnf_oracle E c kind t fuel)") auto

section \<open>Fuel\<close>

lemma whnf_oracle_stable: "stable_at (ResourceLimit kind) k (whnf_oracle E c kind t) fuel"
proof (induction E c kind t fuel rule: whnf_oracle.induct)
  case (1 E c kind current fuel)
  show ?case
    unfolding whnf_oracle.simps [of E c kind current]
    by (rule stable_at_fbind [OF stable_at_spend])
      (cases current; auto intro!: stable_at_intros; force intro: 1)
qed

interpretation whnf_fuel: fuelled
  "\<lambda>(E, c, kind, t) fuel. whnf_with_remaining_fuel E c t fuel kind" "\<lambda>(E, c, kind, t). kind"
  by unfold_locales
    (auto simp: whnf_machine_oracle whnf_oracle_le whnf_oracle_stable split: prod.split)

section \<open>Properties of normalization\<close>

text \<open>
  C9: the frame machine computes the recursive definition of weak head normalization: the
  same normal form or error, with the same fuel left, for every amount of fuel.
\<close>

theorem machine_refines_oracle:
  "whnf_with_remaining_fuel E c t fuel kind = whnf_oracle E c kind t fuel"
  by (rule whnf_machine_oracle)

text \<open>
  C24: fuel only limits normalization. A run that is not stopped by the limit has the same
  outcome with more fuel and leaves the difference, and a run the limit stops is stopped with
  less fuel too.
\<close>

theorem whnf_fuel_monotone:
  assumes "m \<le> n"
  shows "(fst (whnf_with_remaining_fuel E c t m kind) \<noteq> Inl (ResourceLimit kind) \<longrightarrow>
      whnf_with_remaining_fuel E c t n kind =
        (fst (whnf_with_remaining_fuel E c t m kind),
         snd (whnf_with_remaining_fuel E c t m kind) + (n - m))) \<and>
    (fst (whnf_with_remaining_fuel E c t n kind) = Inl (ResourceLimit kind) \<longrightarrow>
      fst (whnf_with_remaining_fuel E c t m kind) = Inl (ResourceLimit kind))"
proof (intro conjI impI)
  assume "fst (whnf_with_remaining_fuel E c t m kind) \<noteq> Inl (ResourceLimit kind)"
  then show "whnf_with_remaining_fuel E c t n kind =
      (fst (whnf_with_remaining_fuel E c t m kind),
       snd (whnf_with_remaining_fuel E c t m kind) + (n - m))"
    using whnf_fuel.run_more [of "(E, c, kind, t)" m n, OF _ assms] by simp
next
  assume "fst (whnf_with_remaining_fuel E c t n kind) = Inl (ResourceLimit kind)"
  then show "fst (whnf_with_remaining_fuel E c t m kind) = Inl (ResourceLimit kind)"
    using whnf_fuel.exhaustion_monotone [of "(E, c, kind, t)" n m, OF _ assms] by simp
qed

definition beta_sample :: expr where
  "beta_sample = App (Lam ''x'' (Sort LZero) (BVar 0)) (Const ''c'' [])"

theorem whnf_fuel_monotone_witness:
  "whnf_with_remaining_fuel env_new ctx_new beta_sample 100000 RWhnf = (Inr (Const ''c'' []), 99997)"
proof -
  have "whnf_with_remaining_fuel env_new ctx_new beta_sample 5 RWhnf = (Inr (Const ''c'' []), 2)"
    by code_simp
  with whnf_fuel_monotone [of 5 100000 env_new ctx_new beta_sample RWhnf] show ?thesis by simp
qed

end
