(* ===== verification/Kernel_Conversion.thy ===== *)
theory Kernel_Conversion
  imports Kernel_Whnf
begin

text \<open>
  Definitional equality (\<^verbatim>\<open>is_defeq_with_remaining_fuel\<close> of
  \<^verbatim>\<open>npa-kernel/src/env.rs\<close>) and its specification: \<open>conv\<close> is the congruence generated
  by beta, delta and iota with the textbook substitution, up to display names and up to
  equality of normalized levels. Weak head normalization stays inside \<open>conv\<close>, and two
  terms the checker accepts are convertible.
\<close>

section \<open>The checker\<close>

text \<open>
  The arms of the match on two weak head normal forms: decided at once, two comparisons in
  the same context, or two comparisons of which the second is under a binder.
\<close>

datatype comparison =
    Decided bool
  | Both expr expr expr expr
  | UnderBinder expr expr expr expr

fun compare_whnf :: "expr \<Rightarrow> expr \<Rightarrow> comparison" where
  "compare_whnf (Sort a) (Sort b) = Decided (level_eq a b)"
| "compare_whnf (BVar i) (BVar j) = Decided (i = j)"
| "compare_whnf (Const n us) (Const m vs) = Decided (n = m \<and> levels_eq us vs)"
| "compare_whnf (App f a) (App g b) = Both f g a b"
| "compare_whnf (Pi x t b) (Pi y u d) = UnderBinder t u b d"
| "compare_whnf (Lam x t b) (Lam y u d) = UnderBinder t u b d"
| "compare_whnf _ _ = Decided False"

function is_defeq_with_remaining_fuel ::
  "env \<Rightarrow> ctx \<Rightarrow> expr \<Rightarrow> expr \<Rightarrow> nat \<Rightarrow> (bool, nat) metered" where
  "is_defeq_with_remaining_fuel E c lhs rhs fuel =
     fbind (spend_fuel fuel RConversion) (\<lambda>_ fuel.
       if quick_syntactic_eq lhs rhs then (Inr True, fuel)
       else
         fbind (whnf_with_remaining_fuel E c lhs fuel RConversion) (\<lambda>l fuel.
         fbind (whnf_with_remaining_fuel E c rhs fuel RConversion) (\<lambda>r fuel.
           case compare_whnf l r of
             Decided b \<Rightarrow> (Inr b, fuel)
           | Both t u b d \<Rightarrow>
               fbind (is_defeq_with_remaining_fuel E c t u fuel) (\<lambda>same fuel.
                 if same then is_defeq_with_remaining_fuel E c b d fuel else (Inr False, fuel))
           | UnderBinder t u b d \<Rightarrow>
               fbind (is_defeq_with_remaining_fuel E c t u fuel) (\<lambda>same fuel.
                 if \<not> same then (Inr False, fuel)
                 else is_defeq_with_remaining_fuel E (push_assumption c t) b d fuel))))"
  by pat_completeness auto

lemma whnf_fuel_le: "whnf_with_remaining_fuel E c t fuel kind = (r, n) \<Longrightarrow> n \<le> fuel"
  using whnf_oracle_le [of E c kind t fuel] by (simp add: whnf_machine_oracle)

lemma is_defeq_dom_le:
  "is_defeq_with_remaining_fuel_dom (E, c, lhs, rhs, fuel) \<Longrightarrow>
   snd (is_defeq_with_remaining_fuel E c lhs rhs fuel) \<le> fuel"
proof (induct E c lhs rhs fuel rule: is_defeq_with_remaining_fuel.pinduct)
  case (1 E c lhs rhs fuel)
  have w: "snd (whnf_with_remaining_fuel E c t n k) \<le> n" for t n k
    by (simp add: whnf_machine_oracle whnf_oracle_le)
  show ?case
    unfolding is_defeq_with_remaining_fuel.psimps [OF 1(1)]
    by (rule fbind_le [OF spend_fuel_le])
      (auto split: comparison.split intro!: fbind_le w; force intro: 1(2-))
qed

lemma is_defeq_dom_leD:
  "is_defeq_with_remaining_fuel_dom (E, c, lhs, rhs, fuel) \<Longrightarrow>
   is_defeq_with_remaining_fuel E c lhs rhs fuel = (b, n) \<Longrightarrow> n \<le> fuel"
  using is_defeq_dom_le by fastforce

termination is_defeq_with_remaining_fuel
  by (relation "measure (\<lambda>(_, _, _, _, fuel). fuel)")
    (auto simp: spend_fuel_Inr dest!: whnf_fuel_le is_defeq_dom_leD)

declare is_defeq_with_remaining_fuel.simps [simp del]

lemma is_defeq_le: "snd (is_defeq_with_remaining_fuel E c lhs rhs fuel) \<le> fuel"
proof (induction E c lhs rhs fuel rule: is_defeq_with_remaining_fuel.induct)
  case (1 E c lhs rhs fuel)
  have w: "snd (whnf_with_remaining_fuel E c t n k) \<le> n" for t n k
    by (simp add: whnf_machine_oracle whnf_oracle_le)
  show ?case
    unfolding is_defeq_with_remaining_fuel.simps [of E c lhs]
    by (rule fbind_le [OF spend_fuel_le])
      (auto split: comparison.split intro!: fbind_le w; force intro: 1)
qed

lemma stable_at_case_comparison:
  "(\<And>b. x = Decided b \<Longrightarrow> stable_at e k (f b) n) \<Longrightarrow>
   (\<And>t u b d. x = Both t u b d \<Longrightarrow> stable_at e k (g t u b d) n) \<Longrightarrow>
   (\<And>t u b d. x = UnderBinder t u b d \<Longrightarrow> stable_at e k (h t u b d) n) \<Longrightarrow>
   stable_at e k (\<lambda>n. case x of Decided b \<Rightarrow> f b n | Both t u b d \<Rightarrow> g t u b d n
     | UnderBinder t u b d \<Rightarrow> h t u b d n) n"
  by (cases x) auto

lemma stable_at_if:
  "(p \<Longrightarrow> stable_at e k f n) \<Longrightarrow> (\<not> p \<Longrightarrow> stable_at e k g n) \<Longrightarrow>
   stable_at e k (\<lambda>n. if p then f n else g n) n"
  by (cases p) auto

lemma is_defeq_stable:
  "stable_at (ResourceLimit RConversion) k (is_defeq_with_remaining_fuel E c lhs rhs) fuel"
proof (induction E c lhs rhs fuel rule: is_defeq_with_remaining_fuel.induct)
  case (1 E c lhs rhs fuel)
  have w: "stable_at (ResourceLimit RConversion) k
      (\<lambda>n. whnf_with_remaining_fuel E c t n RConversion) n" for t n
    by (simp add: whnf_machine_oracle whnf_oracle_stable)
  show ?case
    unfolding is_defeq_with_remaining_fuel.simps [of E c lhs rhs]
    by (rule stable_at_fbind [OF stable_at_spend])
      (auto intro!: stable_at_intros stable_at_case_comparison stable_at_if w; force intro: 1)
qed

interpretation defeq_fuel: fuelled
  "\<lambda>(E, c, l, r) fuel. is_defeq_with_remaining_fuel E c l r fuel" "\<lambda>_. RConversion"
  by unfold_locales (auto simp: is_defeq_le is_defeq_stable split: prod.split)

section \<open>Indices stay small\<close>

lemma bvars_below_apps [simp]:
  "bvars_below n (apps f as) \<longleftrightarrow> bvars_below n f \<and> (\<forall>a \<in> set as. bvars_below n a)"
  by (induction as arbitrary: f) auto

lemma bvars_below_collect:
  assumes "bvars_below n t"
  shows "bvars_below n (fst (collect_apps t)) \<and> (\<forall>a \<in> set (snd (collect_apps t)). bvars_below n a)"
  using assms apps_collect_apps [of t] bvars_below_apps [of n] by metis

lemma bvars_below_levels:
  "subst_levels_expr_changed e ps ls = Inr r \<Longrightarrow> bvars_below n (unwrap_or e r) = bvars_below n e"
proof (induction e arbitrary: r)
  case (Sort l)
  then show ?case by (auto simp: rbind_eq_Inr unwrap_or_def split: option.splits)
next
  case (Const c us)
  then show ?case by (auto simp: rbind_eq_Inr unwrap_or_def split: option.splits)
qed (fastforce elim!: rbind_InrE)+

lemma subst_levels_small: "subst_levels_expr e ps ls = Inr e' \<Longrightarrow> bvars_below n e' = bvars_below n e"
  using bvars_below_levels [of e ps ls _ n] by (auto simp: subst_levels_expr_def rbind_eq_Inr split: if_splits)

lemma peel_pi_loop_small:
  "bvars_below n t \<Longrightarrow> (\<forall>d \<in> set ds. bvars_below n d) \<Longrightarrow>
   \<forall>d \<in> set (fst (peel_pi_loop ds t)). bvars_below n d"
  by (induction ds t rule: peel_pi_loop.induct) auto

lemma peel_pi_domains_small:
  "bvars_below n t \<Longrightarrow> d \<in> set (fst (peel_pi_domains t)) \<Longrightarrow> bvars_below n d"
  using peel_pi_loop_small [of n t "[]"] by (simp add: peel_pi_domains_def)

lemma direct_recursive_index_args_subset:
  "direct_recursive_index_args data d k = Inr idx \<Longrightarrow> set idx \<subseteq> set (snd (collect_apps d))"
  by (auto simp: direct_recursive_index_args_def rbind_eq_Inr
      split: prod.splits expr.splits if_splits dest: in_set_dropD)

lemma direct_mutual_loop_subset:
  "direct_mutual_loop E ns d k = Inr (n, idx) \<Longrightarrow> set idx \<subseteq> set (snd (collect_apps d))"
proof (induction E ns d k rule: direct_mutual_loop.induct)
  case (2 E m ns d k)
  then obtain data where data: "inductive_data E m = Inr data"
    by (auto elim: rbind_InrE)
  with 2 show ?case
    by (cases "direct_recursive_index_args data d k")
      (simp_all add: direct_recursive_index_args_subset)
qed simp

lemma instantiate_constructor_args_small:
  "small e \<Longrightarrow> (\<forall>a \<in> set args. small a) \<Longrightarrow>
   instantiate_constructor_args_at e args k = Inr e' \<Longrightarrow> small e'"
proof (induction e arbitrary: k e')
  case (BVar i)
  show ?case
  proof (cases "i < k")
    case False
    with BVar have "as_i32 k = int k" by (intro as_i32_small) simp
    with BVar.prems False have s: "length args - 1 - (i - k) < length args"
      "shift (args ! (length args - 1 - (i - k))) (int k) 0 = Inr e'"
      by (auto split: if_splits)
    with BVar.prems(2) have "small (args ! (length args - 1 - (i - k)))" by (meson nth_mem)
    from shift_lift [OF this s(2)] show ?thesis by blast
  qed (use BVar in auto)
next
  case (App f a)
  from App.prems(3) obtain f' a' where "instantiate_constructor_args_at f args k = Inr f'"
    "instantiate_constructor_args_at a args k = Inr a'" "e' = App f' a'"
    by (auto elim!: rbind_InrE)
  with App.IH(1) [of k f'] App.IH(2) [of k a'] App.prems(1,2) show ?case by auto
next
  case (Lam x t b)
  from Lam.prems(3) obtain t' b' where "instantiate_constructor_args_at t args k = Inr t'"
    "instantiate_constructor_args_at b args (Suc k) = Inr b'" "e' = Lam x t' b'"
    by (auto elim!: rbind_InrE simp: u32_succ_Inr)
  with Lam.IH(1) [of k t'] Lam.IH(2) [of "Suc k" b'] Lam.prems(1,2) show ?case by auto
next
  case (Pi x t b)
  from Pi.prems(3) obtain t' b' where "instantiate_constructor_args_at t args k = Inr t'"
    "instantiate_constructor_args_at b args (Suc k) = Inr b'" "e' = Pi x t' b'"
    by (auto elim!: rbind_InrE simp: u32_succ_Inr)
  with Pi.IH(1) [of k t'] Pi.IH(2) [of "Suc k" b'] Pi.prems(1,2) show ?case by auto
qed auto

lemma traverse_instantiate_small:
  assumes "traverse (\<lambda>a. instantiate_constructor_args a args) es = Inr rs"
    and "\<forall>e \<in> set es. small e" and "\<forall>a \<in> set args. small a" and "r \<in> set rs"
  shows "small r"
  using traverse_set [OF assms(1,4)] assms(2,3)
  by (auto simp: instantiate_constructor_args_def intro: instantiate_constructor_args_small)

lemma reduce_field_cases:
  assumes "reduce_field E grp data rn ls args k cargs (i, farg, fdom) red = Inr r"
  obtains (plain) "r = App red farg"
  | (recursive) rn' fidx idx where "set fidx \<subseteq> set (snd (collect_apps fdom))"
      "traverse (\<lambda>a. instantiate_constructor_args a (take (length (ind_params data) + i) cargs)) fidx
        = Inr idx"
      "r = App (App red farg) (apps (Const rn' ls) (take k args @ idx @ [farg]))"
proof (cases grp)
  case None
  show thesis
  proof (cases "is_direct_recursive_domain data fdom (length (ind_params data) + i)")
    case True
    with None assms obtain fidx idx where
      "direct_recursive_index_args data fdom (length (ind_params data) + i) = Inr fidx"
      "traverse (\<lambda>a. instantiate_constructor_args a (take (length (ind_params data) + i) cargs)) fidx
        = Inr idx"
      "r = App (App red farg) (apps (Const rn ls) (take k args @ idx @ [farg]))"
      by (auto simp: reduce_field_def Let_def rbind_eq_Inr)
    then show thesis using recursive direct_recursive_index_args_subset by blast
  qed (use None assms plain in \<open>simp add: reduce_field_def Let_def\<close>)
next
  case (Some g)
  show thesis
  proof (cases "direct_mutual_recursive_index_args E g fdom (length (ind_params data) + i)")
    case (Inr p)
    then obtain n fidx where "direct_mutual_recursive_index_args E g fdom (length (ind_params data) + i)
        = Inr (n, fidx)" by (cases p) auto
    moreover from this Some assms obtain rn' idx where
      "traverse (\<lambda>a. instantiate_constructor_args a (take (length (ind_params data) + i) cargs)) fidx
        = Inr idx"
      "r = App (App red farg) (apps (Const rn' ls) (take k args @ idx @ [farg]))"
      by (auto simp: reduce_field_def Let_def rbind_eq_Inr split: if_splits)
    ultimately show thesis
      using recursive direct_mutual_loop_subset
      unfolding direct_mutual_recursive_index_args_def by blast
  qed (use Some assms plain in \<open>simp add: reduce_field_def Let_def\<close>)
qed

lemma reduce_field_small:
  assumes "reduce_field E grp data rn ls args k cargs (i, farg, fdom) red = Inr r"
    and "\<forall>a \<in> set args. small a" and "\<forall>a \<in> set cargs. small a"
    and "small farg" and "small fdom" and "small red"
  shows "small r"
  using assms(1)
proof (cases rule: reduce_field_cases)
  case plain
  with assms show ?thesis by simp
next
  case (recursive rn' fidx idx)
  have "\<forall>e \<in> set fidx. small e"
    using recursive(1) bvars_below_collect [OF assms(5)] by blast
  moreover have "\<forall>a \<in> set (take (length (ind_params data) + i) cargs). small a"
    using assms(3) by (auto dest: in_set_takeD)
  ultimately have "\<forall>e \<in> set idx. small e"
    using traverse_instantiate_small [OF recursive(2)] by blast
  with recursive(3) assms show ?thesis by (auto dest: in_set_takeD)
qed

lemma reduce_constructor_small:
  assumes "reduce_constructor E data rn ls rules args ci minor cargs grp = Inr (Some r)"
    and "\<forall>a \<in> set args. small a" and "\<forall>a \<in> set cargs. small a" and "small minor"
    and "small (ctor_ty (ind_constructors data ! ci))"
  shows "small r"
proof -
  let ?domains = "fst (peel_pi_domains (ctor_ty (ind_constructors data ! ci)))"
  let ?n = "length (ind_params data)"
  let ?fields = "enumerate 0 (zip (drop ?n cargs) (drop ?n ?domains))"
  from assms(1) obtain k red where
    fold: "fold_res (reduce_field E grp data rn ls args k cargs) ?fields minor = Inr red"
    and r: "r = apps red (drop (major_index rules + 1) args)"
    by (auto simp: reduce_constructor_def Let_def rbind_eq_Inr split: if_splits)
  have "small red"
  proof (rule fold_res_invariant [OF fold, where P = small])
    fix x t t'
    assume x: "x \<in> set ?fields" and t: "small t"
      and step: "reduce_field E grp data rn ls args k cargs x t = Inr t'"
    obtain i farg fdom where xx: "x = (i, farg, fdom)" by (cases x)
    with x have "farg \<in> set cargs" "fdom \<in> set ?domains"
      by (auto simp: in_set_enumerate_eq dest!: in_set_zipE in_set_dropD nth_mem
          intro: set_zip_leftD set_zip_rightD)
    with step t xx assms peel_pi_domains_small [OF assms(5)] show "small t'"
      by (auto intro: reduce_field_small)
  qed (rule assms(4))
  with r assms(2) show ?thesis by (auto dest: in_set_dropD)
qed

text \<open>The parts of the environment that reduction copies into terms have small indices.\<close>

definition decl_small :: "decl \<Rightarrow> bool" where
  "decl_small d =
     (case d of
        Def _ _ t v _ \<Rightarrow> small t \<and> small v
      | DefConstrained _ _ _ t v _ \<Rightarrow> small t \<and> small v
      | Inductive _ _ t data \<Rightarrow> small t \<and> (\<forall>c \<in> set (ind_constructors data). small (ctor_ty c))
      | MutualInductiveBlock _ _ _ \<Rightarrow> True
      | Axiom _ _ t \<Rightarrow> small t
      | AxiomConstrained _ _ _ t \<Rightarrow> small t
      | Theorem _ _ t _ \<Rightarrow> small t
      | TheoremConstrained _ _ _ t _ \<Rightarrow> small t
      | Constructor _ _ t _ \<Rightarrow> small t
      | Recursor _ _ t _ _ \<Rightarrow> small t)"

definition env_small :: "env \<Rightarrow> bool" where
  "env_small E \<longleftrightarrow> (\<forall>n d. decls E n = Some d \<longrightarrow> decl_small d)"

lemma decl_small_ty: "decl_small d \<Longrightarrow> decl_ty d = Inr t \<Longrightarrow> small t"
  by (cases d) (auto simp: decl_small_def)

lemma delta_value_small:
  assumes "env_small E" and "delta_value E n ls = Some (Inr v)"
  shows "small v"
proof -
  from assms(2) obtain d where d: "decls E n = Some d" by (cases "decls E n") (auto simp: delta_value_def)
  with assms(1) have "decl_small d" by (simp add: env_small_def)
  with assms(2) d obtain e ps where "subst_levels_expr e ps ls = Inr v" "small e"
    by (cases d) (auto simp: delta_value_def decl_small_def split: reducibility.splits)
  then show ?thesis by (simp add: subst_levels_small)
qed

lemma finish_recursor_small:
  assumes "finish_recursor E rn ls ind rules args (collect_apps m) = Inr (Some r)"
    and "env_small E" and "\<forall>a \<in> set args. small a" and "small m"
  shows "small r"
proof -
  obtain h cargs where view: "collect_apps m = (h, cargs)" by (cases "collect_apps m")
  with assms(1) obtain cn cls where h: "h = Const cn cls"
    by (auto simp: finish_recursor_def split: expr.splits)
  with assms(1) view obtain data where data: "inductive_data E ind = Inr data"
    by (auto simp: finish_recursor_def rbind_eq_Inr split: if_splits)
  with assms(1) view h obtain ci where
    ci: "position (\<lambda>c. ctor_name c = cn) (ind_constructors data) = Some ci"
    by (auto simp: finish_recursor_def rbind_eq_Inr split: if_splits option.splits)
  with assms(1) view h data obtain j minor where
    minor: "get_at args j = Some minor"
    and red: "reduce_constructor E data rn ls rules args ci minor cargs (mutual_groups E ind) = Inr (Some r)"
    by (auto simp: finish_recursor_def rbind_eq_Inr split: if_splits option.splits)
  from data obtain a b t where "decls E ind = Some (Inductive a b t data)" by (rule inductive_dataE)
  with assms(2) position_Some [OF ci] have "small (ctor_ty (ind_constructors data ! ci))"
    by (force simp: env_small_def decl_small_def)
  with red minor assms(3) bvars_below_collect [OF assms(4)] view show ?thesis
    by (auto intro!: reduce_constructor_small [OF red] simp: get_at_eq_Some)
qed

lemma redex_args: "find_redex E t = Some r \<Longrightarrow> t = apps (Const (rx_name r) (rx_levels r)) (rx_args r)"
  using apps_collect_apps [of t] by (simp add: find_redex_view)

lemma redex_major_in: "find_redex E t = Some r \<Longrightarrow> rx_major r \<in> set (rx_args r)"
  by (auto simp: find_redex_def rx_major_def split: prod.splits expr.splits option.splits
      decl.splits if_splits)

lemma redex_small:
  "find_redex E t = Some r \<Longrightarrow> small t \<Longrightarrow> small (rx_major r) \<and> (\<forall>a \<in> set (rx_args r). small a)"
  using redex_args [of E t r] redex_major_in [of E t r] by auto

lemma finish_redex_small:
  "find_redex E t = Some r \<Longrightarrow> small t \<Longrightarrow> env_small E \<Longrightarrow> small m \<Longrightarrow>
   finish_redex E r m = Inr (Some t') \<Longrightarrow> small t'"
  using redex_small [of E t r] finish_recursor_small unfolding finish_redex_def by blast

section \<open>Convertibility\<close>

inductive conv :: "env \<Rightarrow> expr \<Rightarrow> expr \<Rightarrow> bool" for E where
  conv_names: "erase_names a = erase_names b \<Longrightarrow> conv E a b"
| conv_sort: "level_eq l r \<Longrightarrow> conv E (Sort l) (Sort r)"
| conv_const: "levels_eq us vs \<Longrightarrow> conv E (Const n us) (Const n vs)"
| conv_app: "conv E f g \<Longrightarrow> conv E a b \<Longrightarrow> conv E (App f a) (App g b)"
| conv_lam: "conv E t u \<Longrightarrow> conv E b d \<Longrightarrow> conv E (Lam x t b) (Lam y u d)"
| conv_pi: "conv E t u \<Longrightarrow> conv E b d \<Longrightarrow> conv E (Pi x t b) (Pi y u d)"
| conv_beta: "conv E (App (Lam x t b) a) (bsubst b 0 a)"
| conv_delta: "delta_value E n us = Some (Inr v) \<Longrightarrow> conv E (Const n us) v"
| conv_iota: "find_redex E t = Some r \<Longrightarrow> conv E (rx_major r) m \<Longrightarrow>
    finish_redex E r m = Inr (Some t') \<Longrightarrow> conv E t t'"
| conv_sym: "conv E a b \<Longrightarrow> conv E b a"
| conv_trans: "conv E a b \<Longrightarrow> conv E b c \<Longrightarrow> conv E a c"

lemma conv_refl [simp, intro]: "conv E a a"
  by (rule conv_names) simp

lemma conv_apps: "conv E f g \<Longrightarrow> list_all2 (conv E) as bs \<Longrightarrow> conv E (apps f as) (apps g bs)"
proof (induction as arbitrary: f g bs)
  case Nil
  then show ?case by simp
next
  case (Cons a as)
  then obtain b bs' where "bs = b # bs'" "conv E a b" "list_all2 (conv E) as bs'"
    by (auto simp: list_all2_Cons1)
  with Cons show ?case by (simp add: conv_app)
qed

lemma lam_body_Some: "lam_body e = Some b \<longleftrightarrow> (\<exists>x t. e = Lam x t b)"
  by (cases e) (auto simp: lam_body_def)

lemma whnf_oracle_conv:
  assumes "whnf_oracle E c kind t fuel = (Inr r, n)" and "small t" and "env_small E"
  shows "conv E t r \<and> small r"
  using assms(1,2)
proof (induction E\<equiv>E c kind t fuel arbitrary: r n rule: whnf_oracle.induct)
  case (1 c kind current fuel)
  from 1(6) obtain n0 where spent: "spend_fuel fuel kind = (Inr (), n0)"
    by (auto simp: whnf_oracle.simps [of E c kind current] elim: fbind_InrE)
  note body = 1(6) [unfolded whnf_oracle.simps [of E c kind current] spent, simplified]
  show ?case
  proof (cases current)
    case (BVar i)
    with body 1(7) show ?thesis by (auto elim!: fbind_InrE)
  next
    case (Const m us)
    show ?thesis
    proof (cases "delta_value E m us")
      case None
      with Const body show ?thesis by auto
    next
      case (Some w)
      with Const body obtain v where v: "w = Inr v" "whnf_oracle E c kind v n0 = (Inr r, n)"
        by (auto elim!: fbind_InrE)
      with Some have small: "small v" using assms(3) by (blast intro: delta_value_small)
      from 1(1) [OF spent Const Some _ v(2) small] v(1) have "conv E v r \<and> small r" by simp
      with Some v(1) Const show ?thesis by (auto intro: conv_delta conv_trans)
    qed
  next
    case (App f a)
    from App body obtain fn n1 where fn: "whnf_oracle E c kind f n0 = (Inr fn, n1)"
      by (auto elim!: fbind_InrE)
    from 1(7) App have "small f" "small a" by simp_all
    with 1(2) [OF spent App fn] have f: "conv E f fn" "small fn" by simp_all
    then have fa: "conv E current (App fn a)" using App by (auto intro: conv_app)
    show ?thesis
    proof (cases "lam_body fn")
      case (Some b)
      with App body fn obtain e where e: "instantiate b a = Inr e" "whnf_oracle E c kind e n1 = (Inr r, n)"
        by (auto elim!: fbind_InrE)
      from Some f \<open>small a\<close> have "small b" by (auto simp: lam_body_Some)
      with instantiate_bsubst [OF _ \<open>small a\<close> e(1)] have ee: "e = bsubst b 0 a" "small e" by auto
      from 1(5) [OF spent App fn Some _ e(2) ee(2)] e(1) have "conv E e r \<and> small r" by simp
      moreover from Some obtain x t where "fn = Lam x t b" by (auto simp: lam_body_Some)
      ultimately show ?thesis using fa ee conv_beta [of E x t b a] by (blast intro: conv_trans)
    next
      case None
      show ?thesis
      proof (cases "find_redex E (App fn a)")
        case None
        with \<open>lam_body fn = None\<close> App body fn fa f \<open>small a\<close> show ?thesis by auto
      next
        case (Some rx)
        with None App body fn obtain m n2 red where
          m: "whnf_oracle E c kind (rx_major rx) n1 = (Inr m, n2)" and
          red: "finish_redex E rx m = Inr red" and
          rest: "(case red of Some e \<Rightarrow> whnf_oracle E c kind e n2 | None \<Rightarrow> (Inr (App fn a), n2))
            = (Inr r, n)"
          by (auto elim!: fbind_InrE)
        have fna: "small (App fn a)" using f \<open>small a\<close> by simp
        from redex_small [OF Some this] have "small (rx_major rx)" by blast
        from 1(3) [OF spent App fn None Some m this] have major: "conv E (rx_major rx) m" "small m"
          by blast+
        show ?thesis
        proof (cases red)
          case None
          with rest fa fna show ?thesis by simp
        next
          case (Some e)
          with rest have e: "whnf_oracle E c kind e n2 = (Inr r, n)" by simp
          have es: "small e"
            using finish_redex_small [OF \<open>find_redex E (App fn a) = Some rx\<close> fna assms(3) major(2)]
              red Some by simp
          from 1(4) [OF spent App fn \<open>lam_body fn = None\<close> \<open>find_redex E (App fn a) = Some rx\<close>
              m _ Some e es] red
          have "conv E e r \<and> small r" by simp
          moreover have "conv E (App fn a) e"
            using conv_iota [OF \<open>find_redex E (App fn a) = Some rx\<close> major(1)] red Some by simp
          ultimately show ?thesis using fa by (blast intro: conv_trans)
        qed
      qed
    qed
  qed (use body 1(7) in auto)
qed

lemma whnf_conv:
  "whnf_with_remaining_fuel E c t fuel kind = (Inr r, n) \<Longrightarrow> small t \<Longrightarrow> env_small E \<Longrightarrow>
   conv E t r \<and> small r"
  by (simp add: whnf_machine_oracle whnf_oracle_conv)

lemma compare_whnf_cases:
  "compare_whnf l r = Decided True \<Longrightarrow> conv E l r"
  "compare_whnf l r = Both f g a b \<Longrightarrow> l = App f a \<and> r = App g b"
  "compare_whnf l r = UnderBinder t u b d \<Longrightarrow>
     (\<exists>x y. l = Pi x t b \<and> r = Pi y u d) \<or> (\<exists>x y. l = Lam x t b \<and> r = Lam y u d)"
  by (cases l; cases r; auto intro: conv_sort conv_const)+

lemma is_defeq_conv:
  assumes "is_defeq_with_remaining_fuel E c lhs rhs fuel = (Inr True, n)"
    and "small lhs" and "small rhs" and "env_small E"
  shows "conv E lhs rhs"
  using assms(1-3)
proof (induction E\<equiv>E c lhs rhs fuel arbitrary: n rule: is_defeq_with_remaining_fuel.induct)
  case (1 c lhs rhs fuel)
  from 1(5) obtain n0 where spent: "spend_fuel fuel RConversion = (Inr (), n0)"
    by (auto simp: is_defeq_with_remaining_fuel.simps [of E c lhs] elim: fbind_InrE)
  note body = 1(5) [unfolded is_defeq_with_remaining_fuel.simps [of E c lhs] spent, simplified]
  show ?case
  proof (cases "quick_syntactic_eq lhs rhs")
    case True
    then show ?thesis by (simp add: quick_syntactic_eq_iff conv_names)
  next
    case quick: False
    with body obtain l n1 r n2 where
      l: "whnf_with_remaining_fuel E c lhs n0 RConversion = (Inr l, n1)" and
      r: "whnf_with_remaining_fuel E c rhs n1 RConversion = (Inr r, n2)"
      by (auto elim!: fbind_InrE)
    note step = body [unfolded if_not_P [OF quick] l fbind_simps r]
    have cl: "conv E lhs l" "small l" and cr: "conv E rhs r" "small r"
      using whnf_conv [OF l 1(6) assms(4)] whnf_conv [OF r 1(7) assms(4)] by auto
    have "conv E l r"
    proof (cases "compare_whnf l r")
      case (Decided b)
      with step compare_whnf_cases(1) [of l r E] show ?thesis by simp
    next
      case (Both f g a b)
      from Both step obtain n3 where
        d1: "is_defeq_with_remaining_fuel E c f g n2 = (Inr True, n3)" and
        d2: "is_defeq_with_remaining_fuel E c a b n3 = (Inr True, n)"
        by (auto elim!: fbind_InrE split: if_splits)
      note shape = compare_whnf_cases(2) [OF Both]
      with cl cr have "small f" "small g" "small a" "small b" by auto
      then have "conv E f g" "conv E a b"
        using 1(1) [OF spent quick l r Both d1] 1(2) [OF spent quick l r Both d1 _ d2] by auto
      with shape show ?thesis by (simp add: conv_app)
    next
      case (UnderBinder t u b d)
      from UnderBinder step obtain n3 where
        d1: "is_defeq_with_remaining_fuel E c t u n2 = (Inr True, n3)" and
        d2: "is_defeq_with_remaining_fuel E (push_assumption c t) b d n3 = (Inr True, n)"
        by (auto elim!: fbind_InrE split: if_splits)
      note shape = compare_whnf_cases(3) [OF UnderBinder]
      with cl cr have "small t" "small u" "small b" "small d" by auto
      then have "conv E t u" "conv E b d"
        using 1(3) [OF spent quick l r UnderBinder d1] 1(4) [OF spent quick l r UnderBinder d1 _ d2]
        by auto
      with shape show ?thesis by (auto intro: conv_pi conv_lam)
    qed
    with cl cr show ?thesis by (blast intro: conv_trans conv_sym)
  qed
qed

section \<open>Properties of conversion\<close>

text \<open>
  normalization stays inside convertibility: beta, delta and iota steps, renaming of
  binders and equal universe levels.
\<close>

theorem whnf_convertible:
  assumes "whnf_with_remaining_fuel E c t fuel kind = (Inr r, n)" and "small t" and "env_small E"
  shows "conv E t r"
  using whnf_conv [OF assms] by simp

theorem whnf_convertible_witness: "conv env_new beta_sample (Const ''c'' [])"
proof -
  have w: "whnf_with_remaining_fuel env_new ctx_new beta_sample 5 RWhnf = (Inr (Const ''c'' []), 2)"
    by code_simp
  have "small beta_sample" by code_simp
  from whnf_convertible [OF w this] show ?thesis by (simp add: env_small_def)
qed

text \<open>
  C5: definitional equality is sound. When the fuelled test answers true, the two terms are
  convertible.
\<close>

theorem is_defeq_sound:
  assumes "is_defeq_with_remaining_fuel E c lhs rhs fuel = (Inr True, n)"
    and "small lhs" and "small rhs" and "env_small E"
  shows "conv E lhs rhs"
  using is_defeq_conv [OF assms] .

theorem is_defeq_sound_witness:
  "conv env_new (Pi ''x'' beta_sample (Sort LZero)) (Pi ''y'' (Const ''c'' []) (Sort (LMax LZero LZero)))"
proof -
  let ?l = "Pi ''x'' beta_sample (Sort LZero)"
  let ?r = "Pi ''y'' (Const ''c'' []) (Sort (LMax LZero LZero))"
  have "fst (is_defeq_with_remaining_fuel env_new ctx_new ?l ?r 100) = Inr True" by code_simp
  then obtain n where d: "is_defeq_with_remaining_fuel env_new ctx_new ?l ?r 100 = (Inr True, n)"
    by (cases "is_defeq_with_remaining_fuel env_new ctx_new ?l ?r 100") auto
  have "small ?l" "small ?r" by code_simp+
  from is_defeq_sound [OF d this] show ?thesis by (simp add: env_small_def)
qed

text \<open>
  C25: fuel only limits definitional equality. An answer that is not the resource limit does
  not depend on the fuel and uses the same amount of it.
\<close>

theorem is_defeq_fuel_independent:
  assumes "fst (is_defeq_with_remaining_fuel E c l r m) \<noteq> Inl (ResourceLimit RConversion)"
    and "fst (is_defeq_with_remaining_fuel E c l r n) \<noteq> Inl (ResourceLimit RConversion)"
  shows "fst (is_defeq_with_remaining_fuel E c l r m) = fst (is_defeq_with_remaining_fuel E c l r n) \<and>
    m - snd (is_defeq_with_remaining_fuel E c l r m) = n - snd (is_defeq_with_remaining_fuel E c l r n)"
  using defeq_fuel.answer_independent [of "(E, c, l, r)" m n] assms by simp

theorem is_defeq_fuel_independent_witness:
  "fst (is_defeq_with_remaining_fuel env_new ctx_new beta_sample (Const ''c'' []) 50) =
   fst (is_defeq_with_remaining_fuel env_new ctx_new beta_sample (Const ''c'' []) 5000000)"
proof -
  have "fst (is_defeq_with_remaining_fuel env_new ctx_new beta_sample (Const ''c'' []) 50) \<noteq>
      Inl (ResourceLimit RConversion)"
    "fst (is_defeq_with_remaining_fuel env_new ctx_new beta_sample (Const ''c'' []) 5000000) \<noteq>
      Inl (ResourceLimit RConversion)" by code_simp+
  from is_defeq_fuel_independent [OF this] show ?thesis by blast
qed

end
