(* ===== verification/Universe_Closure.thy ===== *)
theory Universe_Closure
  imports Universe_Context
begin

text \<open>
  The shortest-path closure of \<^verbatim>\<open>UniverseConstraintClosure\<close>. A node valuation obeys
  a matrix when every entry is a true bound; closing keeps exactly the valuations that
  respect the matrix. A closed matrix satisfies the triangle inequality, so it has a
  valuation, and an entry is the best bound there is.
\<close>

section \<open>Bounds with infinity\<close>

definition ole :: "int option \<Rightarrow> int option \<Rightarrow> bool" where
  "ole a b = (case b of None \<Rightarrow> True | Some y \<Rightarrow> (case a of None \<Rightarrow> False | Some x \<Rightarrow> x \<le> y))"

definition oadd :: "int option \<Rightarrow> int option \<Rightarrow> int option" where
  "oadd a b = (case (a, b) of (Some x, Some y) \<Rightarrow> Some (x + y) | _ \<Rightarrow> None)"

definition omin :: "int option \<Rightarrow> int option \<Rightarrow> int option" where
  "omin a b = (case b of None \<Rightarrow> a | Some y \<Rightarrow>
     (case a of None \<Rightarrow> Some y | Some x \<Rightarrow> Some (min x y)))"

lemma ole_simps [simp]:
  "ole a None" "ole None (Some y) = False" "ole (Some x) (Some y) = (x \<le> y)"
  by (simp_all add: ole_def)

lemma oadd_simps [simp]:
  "oadd None b = None" "oadd a None = None" "oadd (Some x) (Some y) = Some (x + y)"
  by (simp_all add: oadd_def split: option.split)

lemma omin_simps [simp]:
  "omin a None = a" "omin None (Some y) = Some y" "omin (Some x) (Some y) = Some (min x y)"
  by (simp_all add: omin_def)

lemma omin_ole: "ole (omin a b) a" "ole (omin a b) b"
  by (cases a; cases b; simp)+

lemma ole_refl [simp]: "ole a a"
  by (cases a) simp_all

lemma ole_trans: "ole a b \<Longrightarrow> ole b c \<Longrightarrow> ole a c"
  by (cases a; cases b; cases c) auto

section \<open>Matrices\<close>

definition mat_ok :: "nat \<Rightarrow> dist_matrix \<Rightarrow> bool" where
  "mat_ok n d \<longleftrightarrow> length d = n \<and> (\<forall>r \<in> set d. length r = n)"

definition obeys :: "nat \<Rightarrow> (nat \<Rightarrow> int) \<Rightarrow> dist_matrix \<Rightarrow> bool" where
  "obeys n v d \<longleftrightarrow>
     (\<forall>i < n. \<forall>j < n. \<forall>w. ent d i j = Some w \<longrightarrow> v j \<le> v i + w)"

definition below :: "nat \<Rightarrow> dist_matrix \<Rightarrow> dist_matrix \<Rightarrow> bool" where
  "below n d' d \<longleftrightarrow> (\<forall>i < n. \<forall>j < n. ole (ent d' i j) (ent d i j))"

definition no_negative :: "nat \<Rightarrow> dist_matrix \<Rightarrow> bool" where
  "no_negative n d \<longleftrightarrow> (\<forall>i < n. ole (Some 0) (ent d i i))"

definition triangle_upto :: "nat \<Rightarrow> nat \<Rightarrow> dist_matrix \<Rightarrow> bool" where
  "triangle_upto n m d \<longleftrightarrow>
     (\<forall>k < m. \<forall>i < n. \<forall>j < n. ole (ent d i j) (oadd (ent d i k) (ent d k j)))"

lemma ent_set_ent:
  "mat_ok n d \<Longrightarrow> i < n \<Longrightarrow> j < n \<Longrightarrow>
   ent (set_ent d i j w) a b = (if a = i \<and> b = j then Some w else ent d a b)"
  by (auto simp: mat_ok_def ent_def set_ent_def nth_list_update)

lemma mat_ok_set_ent: "mat_ok n d \<Longrightarrow> mat_ok n (set_ent d i j w)"
  by (cases "i < length d")
    (auto simp: mat_ok_def set_ent_def list_update_beyond dest!: set_update_subset_insert [THEN subsetD])

lemma mat_ok_lower_bounds: "mat_ok (Suc n) (with_lower_bounds n)"
  by (auto simp: mat_ok_def with_lower_bounds_def)

lemma ent_lower_bounds:
  "i \<le> n \<Longrightarrow> j \<le> n \<Longrightarrow>
   ent (with_lower_bounds n) i j = (if i = j \<or> j = 0 then Some 0 else None)"
  by (auto simp: ent_def with_lower_bounds_def simp del: upt_Suc)

lemma obeys_below: "below n d' d \<Longrightarrow> obeys n v d' \<Longrightarrow> obeys n v d"
  unfolding obeys_def below_def
proof (intro allI impI)
  fix i j w
  assume b: "\<forall>i < n. \<forall>j < n. ole (ent d' i j) (ent d i j)"
    and r: "\<forall>i < n. \<forall>j < n. \<forall>w. ent d' i j = Some w \<longrightarrow> v j \<le> v i + w"
    and ij: "i < n" "j < n" and w: "ent d i j = Some w"
  from b ij w obtain w' where "ent d' i j = Some w'" "w' \<le> w"
    by (cases "ent d' i j") (force+)
  with r ij show "v j \<le> v i + w" by force
qed

lemma below_refl: "below n d d"
  by (simp add: below_def)

lemma below_trans: "below n a b \<Longrightarrow> below n b c \<Longrightarrow> below n a c"
  unfolding below_def by (blast intro: ole_trans)

lemma no_negative_below: "below n d' d \<Longrightarrow> no_negative n d' \<Longrightarrow> no_negative n d"
  unfolding below_def no_negative_def by (blast intro: ole_trans)

section \<open>What one step of the closure does\<close>

lemma omin_is_none_or_less:
  "is_none_or_less x w \<Longrightarrow> omin x (Some w) = Some w"
  "\<not> is_none_or_less x w \<Longrightarrow> omin x (Some w) = x"
  by (cases x; simp add: is_none_or_less_def)+

lemma i128_add_Inr: "i128_add a b = Inr c \<Longrightarrow> c = a + b"
  by (simp add: i128_add_def split: if_splits)

lemma close_entry_ent:
  assumes "close_entry k i ik j d = Inr d'" and "mat_ok n d" and "i < n" and "j < n"
  shows "mat_ok n d' \<and> (\<forall>a b. ent d' a b =
    (if a = i \<and> b = j then omin (ent d i j) (oadd (Some ik) (ent d k j)) else ent d a b))"
proof (cases "ent d k j")
  case None
  with assms show ?thesis by (simp add: close_entry_def)
next
  case (Some kj)
  with assms(1) have "d' = (if is_none_or_less (ent d i j) (ik + kj)
      then set_ent d i j (ik + kj) else d)"
    by (auto simp: close_entry_def rbind_eq_Inr dest!: i128_add_Inr split: if_splits)
  with Some assms(2-4) show ?thesis
    by (simp add: omin_is_none_or_less ent_set_ent [OF assms(2-4)] mat_ok_set_ent)
qed

lemma close_entries_ent:
  assumes "fold_res (close_entry k i ik) [0..<m] d = Inr d'" and "mat_ok n d"
    and "i < n" and "m \<le> n"
  shows "mat_ok n d' \<and> (\<forall>a b. ent d' a b =
    (if a = i \<and> b < m then omin (ent d i b) (oadd (Some ik) (ent d k b)) else ent d a b))"
  using assms
proof (induction m arbitrary: d')
  case 0
  then show ?case by simp
next
  case (Suc m)
  from Suc.prems(1) obtain e where e: "fold_res (close_entry k i ik) [0..<m] d = Inr e"
    "close_entry k i ik m e = Inr d'"
    by (auto simp: fold_res_append rbind_eq_Inr)
  from Suc.IH [OF e(1)] Suc.prems have IH: "mat_ok n e" "\<And>a b. ent e a b =
    (if a = i \<and> b < m then omin (ent d i b) (oadd (Some ik) (ent d k b)) else ent d a b)"
    by auto
  from close_entry_ent [OF e(2) IH(1)] Suc.prems show ?case
    by (auto simp: IH(2) less_Suc_eq)
qed

lemma close_row_ent:
  assumes "close_row n k i d = Inr d'" and "mat_ok n d" and "i < n"
  shows "mat_ok n d' \<and> (\<forall>a b. ent d' a b =
    (if a = i \<and> b < n then omin (ent d i b) (oadd (ent d i k) (ent d k b)) else ent d a b))"
  using assms close_entries_ent [of k i _ n d d' n]
  by (auto simp: close_row_def split: option.splits)

lemma close_row_below:
  assumes "close_row n k i d = Inr d'" and "mat_ok n d" and "i < n"
  shows "below n d' d"
  using close_row_ent [OF assms] by (auto simp: below_def omin_ole)

lemma close_row_obeys:
  assumes "close_row n k i d = Inr d'" and "mat_ok n d" and "i < n" and "k < n"
    and "obeys n v d"
  shows "obeys n v d'"
proof -
  have "v b \<le> v i + w" if "b < n" "omin (ent d i b) (oadd (ent d i k) (ent d k b)) = Some w" for b w
  proof -
    from \<open>obeys n v d\<close> have "\<And>x. ent d i b = Some x \<Longrightarrow> v b \<le> v i + x"
      "\<And>x. ent d i k = Some x \<Longrightarrow> v k \<le> v i + x" "\<And>x. ent d k b = Some x \<Longrightarrow> v b \<le> v k + x"
      using assms(3,4) that(1) by (auto simp: obeys_def)
    with that(2) show ?thesis
      by (cases "ent d i b"; cases "ent d i k"; cases "ent d k b") (fastforce simp: min_def split: if_splits)+
  qed
  then show ?thesis
    using close_row_ent [OF assms(1-3)] assms(5) by (auto simp: obeys_def split: if_splits)
qed

lemma close_rows_ent:
  assumes "fold_res (close_row n k) [0..<m] d = Inr d'" and "mat_ok n d" and "m \<le> n"
    and "k < n" and "ole (Some 0) (ent d k k)"
  shows "mat_ok n d' \<and> (\<forall>a b. ent d' a b =
    (if a < m \<and> b < n then omin (ent d a b) (oadd (ent d a k) (ent d k b)) else ent d a b))"
  using assms(1,3)
proof (induction m arbitrary: d')
  case 0
  with assms(2) show ?case by simp
next
  case (Suc m)
  from Suc.prems(1) obtain e where e: "fold_res (close_row n k) [0..<m] d = Inr e"
    "close_row n k m e = Inr d'"
    by (auto simp: fold_res_append rbind_eq_Inr)
  from Suc.IH [OF e(1)] Suc.prems have IH: "mat_ok n e" "\<And>a b. ent e a b =
    (if a < m \<and> b < n then omin (ent d a b) (oadd (ent d a k) (ent d k b)) else ent d a b)"
    by auto
  have "omin (ent d k b) (oadd (ent d k k) (ent d k b)) = ent d k b" for b
    using assms(5) by (cases "ent d k k"; cases "ent d k b") auto
  then have row_k: "ent e k b = ent d k b" for b
    by (simp add: IH(2))
  have row_m: "ent e m b = ent d m b" for b
    by (simp add: IH(2))
  show ?case
    using close_row_ent [OF e(2) IH(1)] Suc.prems
    by (auto simp: row_k row_m less_Suc_eq) (auto simp: IH(2))
qed

section \<open>What a stage and the whole closure do\<close>

definition refines_matrix :: "nat \<Rightarrow> (nat \<Rightarrow> int) \<Rightarrow> dist_matrix \<Rightarrow> dist_matrix \<Rightarrow> bool" where
  "refines_matrix n v d t \<longleftrightarrow> mat_ok n t \<and> below n t d \<and> (obeys n v d \<longrightarrow> obeys n v t)"

lemma refines_matrix_refl: "mat_ok n d \<Longrightarrow> refines_matrix n v d d"
  by (simp add: refines_matrix_def below_refl)

lemma refines_matrix_trans:
  "refines_matrix n v d t \<Longrightarrow> refines_matrix n v t u \<Longrightarrow> refines_matrix n v d u"
  unfolding refines_matrix_def by (blast intro: below_trans)

lemma close_row_refines:
  assumes "close_row n k i d = Inr d'" and "mat_ok n d" and "i < n" and "k < n"
  shows "refines_matrix n v d d'"
  unfolding refines_matrix_def
  using close_row_ent [OF assms(1-3), THEN conjunct1] close_row_below [OF assms(1-3)]
    close_row_obeys [OF assms] by blast

lemma close_stage_refines:
  assumes "close_stage n k d = Inr d'" and "mat_ok n d" and "k < n"
  shows "refines_matrix n v d d'"
proof (rule fold_res_invariant [OF assms(1) [unfolded close_stage_def],
      where P = "refines_matrix n v d"])
  show "refines_matrix n v d d" using assms(2) by (rule refines_matrix_refl)
next
  fix i t t'
  assume "i \<in> set [0..<n]" and t: "refines_matrix n v d t" and row: "close_row n k i t = Inr t'"
  from t have "mat_ok n t" by (simp add: refines_matrix_def)
  with row have "refines_matrix n v t t'"
    using \<open>i \<in> set [0..<n]\<close> assms(3) by (intro close_row_refines [where k = k and i = i]) auto
  with t show "refines_matrix n v d t'" by (rule refines_matrix_trans)
qed

lemma close_stages_refines:
  assumes "fold_res (close_stage n) [0..<m] d = Inr d'" and "mat_ok n d" and "m \<le> n"
  shows "refines_matrix n v d d'"
proof (rule fold_res_invariant [OF assms(1), where P = "refines_matrix n v d"])
  show "refines_matrix n v d d" using assms(2) by (rule refines_matrix_refl)
next
  fix k t t'
  assume "k \<in> set [0..<m]" and t: "refines_matrix n v d t" and st: "close_stage n k t = Inr t'"
  from t have "mat_ok n t" by (simp add: refines_matrix_def)
  with st have "refines_matrix n v t t'"
    using \<open>k \<in> set [0..<m]\<close> assms(3) by (intro close_stage_refines [where k = k]) auto
  with t show "refines_matrix n v d t'" by (rule refines_matrix_trans)
qed

lemma triangle_extend:
  assumes tri: "triangle_upto n k d" and "k < n" and diag: "ole (Some 0) (ent d k k)"
    and ent': "\<And>a b. a < n \<Longrightarrow> b < n \<Longrightarrow>
      ent d' a b = omin (ent d a b) (oadd (ent d a k) (ent d k b))"
  shows "triangle_upto n (Suc k) d'"
  unfolding triangle_upto_def
proof (intro allI impI)
  fix m i j
  assume m: "m < Suc k" and ij: "i < n" "j < n"
  have col: "ent d' i k = ent d i k" "ent d' k j = ent d k j"
    using ent' ij \<open>k < n\<close> diag
    by (cases "ent d i k"; cases "ent d k k"; cases "ent d k j"; simp)+
  show "ole (ent d' i j) (oadd (ent d' i m) (ent d' m j))"
  proof (cases "m = k")
    case True
    with col ij ent' show ?thesis by (simp add: omin_ole)
  next
    case False
    with m have "m < k" by simp
    with \<open>k < n\<close> have "m < n" by simp
    have t: "ole (ent d i j) (oadd (ent d i m) (ent d m j))"
      "ole (ent d k j) (oadd (ent d k m) (ent d m j))"
      "ole (ent d i k) (oadd (ent d i m) (ent d m k))"
      "ole (ent d k k) (oadd (ent d k m) (ent d m k))"
      using tri \<open>m < k\<close> ij \<open>k < n\<close> by (auto simp: triangle_upto_def)
    show ?thesis
      using t diag ij \<open>m < n\<close>
      by (simp add: ent')
        (cases "ent d i j"; cases "ent d i m"; cases "ent d m j"; cases "ent d i k";
         cases "ent d k j"; cases "ent d k m"; cases "ent d m k"; cases "ent d k k"; simp)
  qed
qed

lemma close_stages_triangle:
  assumes "fold_res (close_stage n) [0..<m] d = Inr d'" and "mat_ok n d" and "m \<le> n"
    and "no_negative n d'"
  shows "triangle_upto n m d'"
  using assms(1,3,4)
proof (induction m arbitrary: d')
  case 0
  then show ?case by (simp add: triangle_upto_def)
next
  case (Suc m)
  from Suc.prems(1) obtain e where e: "fold_res (close_stage n) [0..<m] d = Inr e"
    "close_stage n m e = Inr d'"
    by (auto simp: fold_res_append rbind_eq_Inr)
  from close_stages_refines [OF e(1) assms(2)] Suc.prems(2) have ok: "mat_ok n e"
    by (simp add: refines_matrix_def)
  with close_stage_refines [OF e(2)] Suc.prems(2) have "below n d' e"
    by (simp add: refines_matrix_def)
  with Suc.prems(3) have neg: "no_negative n e" by (blast intro: no_negative_below)
  with Suc.IH [OF e(1)] Suc.prems(2) have "triangle_upto n m e" by simp
  moreover have diag: "ole (Some 0) (ent e m m)"
    using neg Suc.prems(2) by (simp add: no_negative_def)
  ultimately show ?case
    using close_rows_ent [OF e(2) [unfolded close_stage_def] ok _ _ diag] Suc.prems(2)
    by (intro triangle_extend [of n m e]) auto
qed

text \<open>A closed matrix, as \<^verbatim>\<open>close\<close> leaves it when it succeeds.\<close>

definition closed_matrix :: "nat \<Rightarrow> dist_matrix \<Rightarrow> bool" where
  "closed_matrix n d \<longleftrightarrow> mat_ok n d \<and> triangle_upto n n d \<and> no_negative n d \<and>
     (\<forall>i < n. ole (ent d i 0) (Some 0) \<and> ole (ent d i i) (Some 0))"

lemma closure_close_Inr:
  assumes "closure_close d = Inr d'" and "mat_ok n d"
    and "\<forall>i < n. ole (ent d i 0) (Some 0) \<and> ole (ent d i i) (Some 0)"
  shows "closed_matrix n d' \<and> (\<forall>v. obeys n v d' \<longleftrightarrow> obeys n v d)"
proof -
  from assms(2) have len: "length d = n" by (simp add: mat_ok_def)
  from assms(1) have fold: "fold_res (close_stage n) [0..<n] d = Inr d'"
    and diag: "\<And>i b. i < n \<Longrightarrow> ent d' i i = Some b \<Longrightarrow> 0 \<le> b"
    by (auto simp: closure_close_def Let_def len rbind_eq_Inr list_ex_iff split: if_splits option.splits)
      fastforce
  have neg: "no_negative n d'"
    unfolding no_negative_def ole_def using diag by (auto split: option.splits)
  have facts: "mat_ok n d'" "below n d' d" "\<And>v. obeys n v d \<Longrightarrow> obeys n v d'"
    using close_stages_refines [OF fold assms(2)] by (simp_all add: refines_matrix_def)
  have "closed_matrix n d'"
    unfolding closed_matrix_def
    using facts(1,2) neg close_stages_triangle [OF fold assms(2) _ neg] assms(3)
    by (auto simp: below_def intro: ole_trans)
  with facts show ?thesis by (blast intro: obeys_below)
qed

lemma closure_close_unsat:
  assumes "closure_close d = Inl UnsatisfiableUniverseConstraints" and "mat_ok n d"
  shows "\<not> obeys n v d"
proof
  assume r: "obeys n v d"
  from assms(2) have len: "length d = n" by (simp add: mat_ok_def)
  have entry: "close_entry k i ik j e \<noteq> Inl UnsatisfiableUniverseConstraints" for k i ik j e
    by (auto simp: close_entry_def i128_add_def rbind_eq_Inl split: option.splits if_splits)
  have fold: "fold_res f xs s \<noteq> Inl x" if "\<And>y t. f y t \<noteq> Inl x"
    for f :: "nat \<Rightarrow> dist_matrix \<Rightarrow> dist_matrix kresult" and xs s x
    using that by (induction xs arbitrary: s) (auto simp: rbind_eq_Inl)
  have row: "close_row m k i e \<noteq> Inl UnsatisfiableUniverseConstraints" for m k i e
    by (auto simp: close_row_def entry fold split: option.splits)
  have "close_stage m k e \<noteq> Inl UnsatisfiableUniverseConstraints" for m k e
    by (simp add: close_stage_def fold row)
  with fold have "fold_res (close_stage n) [0..<n] d \<noteq> Inl UnsatisfiableUniverseConstraints"
    by blast
  with assms(1) obtain d' i b where d': "fold_res (close_stage n) [0..<n] d = Inr d'"
    and i: "i < n" "ent d' i i = Some b" "b < 0"
    by (auto simp: closure_close_def Let_def len rbind_eq_Inl list_ex_iff split: if_splits option.splits)
  from close_stages_refines [OF d' assms(2)] r have "obeys n v d'"
    by (simp add: refines_matrix_def)
  with i show False by (fastforce simp: obeys_def)
qed

section \<open>Valuations of a closed matrix\<close>

lemma closed_matrix_column:
  assumes "closed_matrix n d" and "i < n"
  obtains x where "ent d i 0 = Some x" "x \<le> 0"
  using assms by (cases "ent d i 0") (auto simp: closed_matrix_def)

lemma closed_matrix_diag:
  assumes "closed_matrix n d" and "i < n"
  shows "ent d i i = Some 0"
  using assms unfolding closed_matrix_def no_negative_def
  by (cases "ent d i i") (auto, fastforce)

lemma closed_matrix_triangle:
  assumes "closed_matrix n d" and "i < n" "j < n" "k < n"
    and "ent d i k = Some x" and "ent d k j = Some y"
  obtains z where "ent d i j = Some z" "z \<le> x + y"
proof -
  from assms(1-4) have "ole (ent d i j) (oadd (ent d i k) (ent d k j))"
    by (simp add: closed_matrix_def triangle_upto_def)
  with assms(5,6) that show thesis by (cases "ent d i j") auto
qed

text \<open>
  \<open>low d t j\<close> is the least valuation that obeys \<open>d\<close> and gives node \<open>j\<close> at least the
  value \<open>t\<close>, where that is possible.
\<close>

definition low :: "dist_matrix \<Rightarrow> int \<Rightarrow> nat \<Rightarrow> nat \<Rightarrow> int" where
  "low d t j x = (case ent d x j of
     None \<Rightarrow> - the (ent d x 0)
   | Some w \<Rightarrow> max (- the (ent d x 0)) (t - w))"

lemma low_obeys:
  assumes "closed_matrix n d" and "j < n"
  shows "obeys n (low d t j) d"
  unfolding obeys_def
proof (intro allI impI)
  fix x y w
  assume xy: "x < n" "y < n" and w: "ent d x y = Some w"
  from closed_matrix_column [OF assms(1)] xy obtain x0 y0
    where x0: "ent d x 0 = Some x0" and y0: "ent d y 0 = Some y0" by metis
  have "0 < n" using xy by simp
  then have base: "x0 \<le> w + y0"
    using closed_matrix_triangle [OF assms(1) xy(1) _ xy(2) w y0] x0 by auto
  have *: "\<exists>z. ent d x j = Some z \<and> z \<le> w + u" if "ent d y j = Some u" for u
    using closed_matrix_triangle [OF assms(1) xy(1) assms(2) xy(2) w that] by blast
  have far: "low d t j y \<le> low d t j x + w" if "ent d y j = Some u" for u
  proof -
    from * [OF that] obtain z where "ent d x j = Some z" "z \<le> w + u" by blast
    with that base x0 y0 show ?thesis by (auto simp: low_def max_def)
  qed
  have "- x0 \<le> low d t j x"
    using x0 by (simp add: low_def split: option.split)
  with base y0 have "ent d y j = None \<Longrightarrow> low d t j y \<le> low d t j x + w"
    by (simp add: low_def)
  with far show "low d t j y \<le> low d t j x + w" by blast
qed

lemma low_nonneg:
  assumes "closed_matrix n d" and "x < n"
  shows "0 \<le> low d t j x"
proof -
  obtain y where "ent d x 0 = Some y" "y \<le> 0" using assms by (rule closed_matrix_column)
  then show ?thesis by (auto simp: low_def max_def split: option.split)
qed

lemma low_zero:
  assumes "closed_matrix n d" and "0 < n" and "\<And>w. ent d 0 j = Some w \<Longrightarrow> t \<le> w"
  shows "low d t j 0 = 0"
  using closed_matrix_diag [OF assms(1,2)] assms(3)
  by (auto simp: low_def split: option.splits)

theorem closure_entails_exact:
  assumes d: "closed_matrix n d" and "i < n" "j < n"
  shows "closure_entails d i j bound \<longleftrightarrow>
    (\<forall>v. obeys n v d \<longrightarrow> v 0 = 0 \<longrightarrow> (\<forall>x < n. 0 \<le> v x) \<longrightarrow> v j \<le> v i + bound)"
proof (intro iffI allI impI)
  fix v
  assume "closure_entails d i j bound" and "obeys n v d"
  then show "v j \<le> v i + bound"
    using assms(2,3) by (fastforce simp: closure_entails_def obeys_def split: option.splits)
next
  assume all: "\<forall>v. obeys n v d \<longrightarrow> v 0 = 0 \<longrightarrow> (\<forall>x < n. 0 \<le> v x) \<longrightarrow> v j \<le> v i + bound"
  show "closure_entails d i j bound"
  proof (rule ccontr)
    assume no: "\<not> closure_entails d i j bound"
    obtain i0 where i0: "ent d i 0 = Some i0" using closed_matrix_column [OF d \<open>i < n\<close>] by blast
    define t where "t = (case ent d 0 j of None \<Rightarrow> bound - i0 + 1 | Some u \<Rightarrow> u)"
    have jj: "ent d j j = Some 0" using d \<open>j < n\<close> by (rule closed_matrix_diag)
    have "t \<le> low d t j j" by (simp add: low_def jj)
    moreover have "low d t j i + bound < t"
    proof (cases "ent d 0 j")
      case None
      with no show ?thesis
        by (auto simp: low_def t_def i0 closure_entails_def split: option.splits)
    next
      case (Some u)
      with closed_matrix_triangle [OF d \<open>i < n\<close> \<open>j < n\<close> _ i0 Some] \<open>i < n\<close>
      obtain w where "ent d i j = Some w" "w \<le> i0 + u" by auto
      with no Some show ?thesis by (auto simp: low_def t_def i0 closure_entails_def)
    qed
    moreover have "low d t j j \<le> low d t j i + bound"
      using all low_obeys [OF d \<open>j < n\<close>] low_nonneg [OF d] low_zero [OF d, of j t] \<open>j < n\<close>
      by (auto simp: t_def split: option.splits)
    ultimately show False by simp
  qed
qed

end
