(* ===== verification/Universe_Soundness.thy ===== *)
theory Universe_Soundness
  imports Universe_Closure
begin

text \<open>
  What a universe context means. A valuation satisfies a constraint when the values of
  its two levels stand in the relation. The inequalities a constraint is decomposed into
  imply it; where its left side has no \<^verbatim>\<open>IMax\<close> they are equivalent to it.
\<close>

section \<open>Values of atoms and constraints\<close>

definition base_val :: "(string \<Rightarrow> nat) \<Rightarrow> atom_base \<Rightarrow> nat" where
  "base_val \<rho> b = (case b of AZero \<Rightarrow> 0 | AParam n \<Rightarrow> \<rho> n)"

definition atom_val :: "(string \<Rightarrow> nat) \<Rightarrow> atom \<Rightarrow> nat" where
  "atom_val \<rho> a = base_val \<rho> (atom_base a) + atom_offset a"

definition inequality_holds :: "(string \<Rightarrow> nat) \<Rightarrow> atom_inequality \<Rightarrow> bool" where
  "inequality_holds \<rho> q \<longleftrightarrow> atom_val \<rho> (ai_lhs q) \<le> atom_val \<rho> (ai_rhs q)"

definition constraint_holds :: "(string \<Rightarrow> nat) \<Rightarrow> universe_constraint \<Rightarrow> bool" where
  "constraint_holds \<rho> c = (case uc_relation c of
     RLe \<Rightarrow> level_val \<rho> (uc_lhs c) \<le> level_val \<rho> (uc_rhs c)
   | REq \<Rightarrow> level_val \<rho> (uc_lhs c) = level_val \<rho> (uc_rhs c))"

definition constraint_inequalities_hold :: "(string \<Rightarrow> nat) \<Rightarrow> universe_constraint \<Rightarrow> bool" where
  "constraint_inequalities_hold \<rho> c = (case decompose_constraint c of
     Inl _ \<Rightarrow> False | Inr qs \<Rightarrow> list_all (inequality_holds \<rho>) qs)"

primrec imax_free :: "level \<Rightarrow> bool" where
  "imax_free LZero = True"
| "imax_free (LSucc l) = imax_free l"
| "imax_free (LMax l r) = (imax_free l \<and> imax_free r)"
| "imax_free (LIMax l r) = False"
| "imax_free (LParam n) = True"

lemma imax_free_numeral [simp]: "imax_free (numeral_level n)"
  by (induction n) simp_all

lemma imax_free_normalize: "imax_free l \<Longrightarrow> imax_free (normalize_level l)"
  by (induction l)
    (auto simp: normalize_max_pair_def level_from_nat_eq split: option.splits)

section \<open>Decomposition\<close>

lemma peel_succ_val:
  "peel_succ l off = Some (c, off') \<Longrightarrow> level_val \<rho> l + off = level_val \<rho> c + off'"
  by (induction l off rule: peel_succ.induct) (auto split: if_splits)

lemma decompose_atom_val: "decompose_atom l = Inr a \<Longrightarrow> level_val \<rho> l = atom_val \<rho> a"
proof -
  assume a: "decompose_atom l = Inr a"
  then obtain c off where c: "peel_succ l 0 = Some (c, off)"
    by (auto simp: decompose_atom_def rbind_eq_Inr)
  with a peel_succ_val [OF c, of \<rho>] show ?thesis
    by (cases c) (auto simp: decompose_atom_def rbind_eq_Inr atom_val_def base_val_def)
qed

text \<open>The atoms bound the levels; without \<^verbatim>\<open>IMax\<close> the bound is attained.\<close>

declare decompose_loop.simps(2) [simp del]

definition split_level :: "bool \<Rightarrow> level \<Rightarrow> (level \<times> level) option" where
  "split_level imax_too l = (case l of
     LMax a b \<Rightarrow> Some (a, b) | LIMax a b \<Rightarrow> if imax_too then Some (a, b) else None | _ \<Rightarrow> None)"

lemma decompose_loop_split:
  "split_level i l = Some (a, b) \<Longrightarrow>
   decompose_loop i (l # p) acc = decompose_loop i (a # b # p) acc"
  by (subst decompose_loop.simps(2)) (cases l; auto simp: split_level_def split: if_splits)

lemma decompose_loop_atom:
  "split_level i l = None \<Longrightarrow> decompose_loop i (l # p) acc =
     rbind (decompose_atom l) (\<lambda>a. decompose_loop i p (acc @ [a]))"
  by (subst decompose_loop.simps(2)) (cases l; auto simp: split_level_def split: if_splits)

lemma decompose_loop_induct [case_names Nil split atom]:
  assumes "\<And>acc. P [] acc"
    and "\<And>l a b p acc. split_level i l = Some (a, b) \<Longrightarrow> P (a # b # p) acc \<Longrightarrow> P (l # p) acc"
    and "\<And>l p acc. split_level i l = None \<Longrightarrow> (\<And>a. P p (acc @ [a])) \<Longrightarrow> P (l # p) acc"
  shows "P ls acc"
proof (induction "\<Sum>l \<leftarrow> ls. 2 * size l + 1" arbitrary: ls acc rule: less_induct)
  case less
  show ?case
  proof (cases ls)
    case Nil
    with assms(1) show ?thesis by simp
  next
    case (Cons l p)
    show ?thesis
    proof (cases "split_level i l")
      case None
      with less Cons assms(3) show ?thesis by simp
    next
      case (Some ab)
      then obtain a b where ab: "split_level i l = Some (a, b)" by (cases ab) auto
      then have "size a + size b < size l"
        by (cases l) (auto simp: split_level_def split: if_splits)
      with less [of "a # b # p"] Cons assms(2) [OF ab] show ?thesis by simp
    qed
  qed
qed

lemma split_level_val:
  "split_level i l = Some (a, b) \<Longrightarrow> level_val \<rho> l \<le> max (level_val \<rho> a) (level_val \<rho> b)"
  by (cases l) (auto simp: split_level_def split: if_splits)

lemma split_level_imax_free:
  assumes "split_level i l = Some (a, b)" and "i \<Longrightarrow> imax_free l"
  shows "level_val \<rho> l = max (level_val \<rho> a) (level_val \<rho> b) \<and>
    (i \<longrightarrow> imax_free a \<and> imax_free b)"
  using assms by (cases l) (auto simp: split_level_def split: if_splits)

lemma decompose_loop_upper:
  assumes "decompose_loop imax_too ls acc = Inr as" and "\<forall>a \<in> set as. atom_val \<rho> a \<le> m"
  shows "(\<forall>a \<in> set acc. atom_val \<rho> a \<le> m) \<and> (\<forall>l \<in> set ls. level_val \<rho> l \<le> m)"
  using assms(1)
proof (induction ls acc rule: decompose_loop_induct [of _ imax_too])
  case (Nil acc)
  with assms(2) show ?case by simp
next
  case (split l a b p acc)
  with split_level_val [OF split.hyps, of \<rho>] show ?case
    by (auto simp: decompose_loop_split)
next
  case (atom l p acc)
  then obtain a where a: "decompose_atom l = Inr a" "decompose_loop imax_too p (acc @ [a]) = Inr as"
    by (auto simp: decompose_loop_atom rbind_eq_Inr)
  with atom.IH [OF a(2)] decompose_atom_val [OF a(1), of \<rho>] show ?case by simp
qed

lemma decompose_loop_lower:
  assumes "decompose_loop imax_too ls acc = Inr as"
    and "imax_too \<Longrightarrow> \<forall>l \<in> set ls. imax_free l"
    and "\<forall>a \<in> set acc. atom_val \<rho> a \<le> m" and "\<forall>l \<in> set ls. level_val \<rho> l \<le> m"
  shows "\<forall>a \<in> set as. atom_val \<rho> a \<le> m"
  using assms
proof (induction ls acc rule: decompose_loop_induct [of _ imax_too])
  case (Nil acc)
  then show ?case by simp
next
  case (split l a b p acc)
  from split_level_imax_free [OF split.hyps, of \<rho>] split.prems(2)
  have v: "level_val \<rho> l = max (level_val \<rho> a) (level_val \<rho> b)"
    "imax_too \<Longrightarrow> imax_free a" "imax_too \<Longrightarrow> imax_free b" by auto
  show ?case
    by (rule split.IH) (use split.prems v in \<open>auto simp: decompose_loop_split [OF split.hyps]\<close>)
next
  case (atom l p acc)
  then obtain a where a: "decompose_atom l = Inr a" "decompose_loop imax_too p (acc @ [a]) = Inr as"
    by (auto simp: decompose_loop_atom rbind_eq_Inr)
  show ?case
    by (rule atom.IH [OF a(2)]) (use atom.prems decompose_atom_val [OF a(1), of \<rho>] in auto)
qed

lemma decompose_lhs_upper:
  assumes "decompose_lhs_level_expr l = Inr as" and "\<And>a. a \<in> set as \<Longrightarrow> atom_val \<rho> a \<le> m"
  shows "level_val \<rho> l \<le> m"
  using assms decompose_loop_upper [of True "[normalize_level l]" "[]" _ \<rho> m]
  by (auto simp: decompose_lhs_level_expr_def rbind_eq_Inr simp del: decompose_loop.simps)

lemma decompose_lhs_lower:
  assumes "decompose_lhs_level_expr l = Inr as" and "imax_free l" and "a \<in> set as"
  shows "atom_val \<rho> a \<le> level_val \<rho> l"
  using assms decompose_loop_lower [of True "[normalize_level l]" "[]" _ \<rho> "level_val \<rho> l"]
  by (auto simp: decompose_lhs_level_expr_def rbind_eq_Inr imax_free_normalize
      simp del: decompose_loop.simps)

lemma decompose_rhs_lower:
  assumes "decompose_level_expr l = Inr as" and "a \<in> set as"
  shows "atom_val \<rho> a \<le> level_val \<rho> l"
  using assms decompose_loop_lower [of False "[normalize_level l]" "[]" _ \<rho> "level_val \<rho> l"]
  by (auto simp: decompose_level_expr_def rbind_eq_Inr simp del: decompose_loop.simps)

lemma decompose_rhs_single:
  assumes "decompose_level_expr l = Inr [a]"
  shows "level_val \<rho> l = atom_val \<rho> a"
proof (rule antisym)
  obtain as where as: "decompose_loop False [normalize_level l] [] = Inr as" "set as = {a}"
  proof -
    from assms obtain as where "decompose_loop False [normalize_level l] [] = Inr as"
      "sort_dedup atom_key as = [a]"
      by (auto simp: decompose_level_expr_def rbind_eq_Inr)
    with set_sort_dedup [of atom_key as] that show thesis by simp
  qed
  from decompose_loop_upper [OF as(1), of \<rho> "atom_val \<rho> a"] as(2)
  show "level_val \<rho> l \<le> atom_val \<rho> a" by simp
  show "atom_val \<rho> a \<le> level_val \<rho> l"
    using assms by (rule decompose_rhs_lower) simp
qed

lemma decompose_le_constraintE:
  assumes "decompose_le_constraint l r = Inr qs" and "normalize_level l \<noteq> normalize_level r"
  obtains las a where "decompose_lhs_level_expr (normalize_level l) = Inr las"
    and "decompose_level_expr (normalize_level r) = Inr [a]"
    and "qs = map (\<lambda>x. \<lparr>ai_lhs = x, ai_rhs = a\<rparr>) las"
proof -
  from assms obtain las ras where "decompose_lhs_level_expr (normalize_level l) = Inr las"
    "decompose_level_expr (normalize_level r) = Inr ras"
    "(case ras of [a] \<Rightarrow> Inr (map (\<lambda>x. \<lparr>ai_lhs = x, ai_rhs = a\<rparr>) las)
      | _ \<Rightarrow> Inl (UnsupportedUniverseConstraint (constraint_le (normalize_level l)
          (normalize_level r)))) = Inr qs"
    by (auto simp: decompose_le_constraint_def Let_def rbind_eq_Inr)
  with that show thesis by (cases ras; cases "tl ras") auto
qed

lemma decompose_le_constraint_sound:
  assumes "decompose_le_constraint l r = Inr qs" and "\<forall>q \<in> set qs. inequality_holds \<rho> q"
  shows "level_val \<rho> l \<le> level_val \<rho> r"
proof (cases "normalize_level l = normalize_level r")
  case True
  then show ?thesis by (metis level_val_normalize order_refl)
next
  case False
  with assms(1) obtain las a where las: "decompose_lhs_level_expr (normalize_level l) = Inr las"
    and a: "decompose_level_expr (normalize_level r) = Inr [a]"
    and qs: "qs = map (\<lambda>x. \<lparr>ai_lhs = x, ai_rhs = a\<rparr>) las"
    by (rule decompose_le_constraintE)
  from assms(2) qs have "\<And>x. x \<in> set las \<Longrightarrow> atom_val \<rho> x \<le> atom_val \<rho> a"
    by (auto simp: inequality_holds_def)
  with decompose_lhs_upper [OF las] decompose_rhs_single [OF a, of \<rho>] show ?thesis by simp
qed

lemma decompose_le_constraint_complete:
  assumes "decompose_le_constraint l r = Inr qs" and "imax_free l"
    and "level_val \<rho> l \<le> level_val \<rho> r"
  shows "\<forall>q \<in> set qs. inequality_holds \<rho> q"
proof (cases "normalize_level l = normalize_level r")
  case True
  with assms(1) show ?thesis by (simp add: decompose_le_constraint_def Let_def)
next
  case False
  with assms(1) obtain las a where las: "decompose_lhs_level_expr (normalize_level l) = Inr las"
    and a: "decompose_level_expr (normalize_level r) = Inr [a]"
    and qs: "qs = map (\<lambda>x. \<lparr>ai_lhs = x, ai_rhs = a\<rparr>) las"
    by (rule decompose_le_constraintE)
  have "atom_val \<rho> x \<le> atom_val \<rho> a" if "x \<in> set las" for x
    using decompose_lhs_lower [OF las _ that, of \<rho>] decompose_rhs_single [OF a, of \<rho>]
      assms(2,3) by (simp add: imax_free_normalize)
  with qs show ?thesis by (auto simp: inequality_holds_def)
qed

lemma inequalities_imply_constraint:
  "constraint_inequalities_hold \<rho> c \<Longrightarrow> constraint_holds \<rho> c"
proof -
  assume "constraint_inequalities_hold \<rho> c"
  then obtain qs where qs: "decompose_constraint c = Inr qs" "\<forall>q \<in> set qs. inequality_holds \<rho> q"
    by (auto simp: constraint_inequalities_hold_def list_all_iff split: sum.splits)
  show ?thesis
  proof (cases "uc_relation c")
    case RLe
    with qs decompose_le_constraint_sound [of "normalize_level (uc_lhs c)"] show ?thesis
      by (fastforce simp: decompose_constraint_def normalize_constraint_def constraint_holds_def)
  next
    case REq
    show ?thesis
    proof (cases "normalize_level (uc_lhs c) = normalize_level (uc_rhs c)")
      case True
      with REq show ?thesis by (simp add: constraint_holds_def) (metis level_val_normalize)
    next
      case False
      with REq qs obtain q1 q2 where
        q1: "decompose_le_constraint (normalize_level (uc_lhs c)) (normalize_level (uc_rhs c)) = Inr q1"
        and q2: "decompose_le_constraint (normalize_level (uc_rhs c)) (normalize_level (uc_lhs c)) = Inr q2"
        and "qs = q1 @ q2"
        by (auto simp: decompose_constraint_def normalize_constraint_def rbind_eq_Inr)
      with qs(2) REq decompose_le_constraint_sound [OF q1, of \<rho>]
        decompose_le_constraint_sound [OF q2, of \<rho>] show ?thesis
        by (simp add: constraint_holds_def)
    qed
  qed
qed

text \<open>A constraint whose decomposition loses nothing.\<close>

definition exact_constraint :: "universe_constraint \<Rightarrow> bool" where
  "exact_constraint c \<longleftrightarrow> imax_free (uc_lhs c) \<and> (uc_relation c = REq \<longrightarrow> imax_free (uc_rhs c))"

lemma constraint_implies_inequalities:
  assumes "decompose_constraint c = Inr qs" and "exact_constraint c" and "constraint_holds \<rho> c"
  shows "\<forall>q \<in> set qs. inequality_holds \<rho> q"
proof (cases "uc_relation c")
  case RLe
  with assms decompose_le_constraint_complete
      [of "normalize_level (uc_lhs c)" "normalize_level (uc_rhs c)" qs \<rho>]
  show ?thesis
    by (simp add: decompose_constraint_def normalize_constraint_def exact_constraint_def
        constraint_holds_def imax_free_normalize)
next
  case REq
  with assms show ?thesis
    using decompose_le_constraint_complete
      [of "normalize_level (uc_lhs c)" "normalize_level (uc_rhs c)" _ \<rho>]
      decompose_le_constraint_complete
      [of "normalize_level (uc_rhs c)" "normalize_level (uc_lhs c)" _ \<rho>]
    by (auto simp: decompose_constraint_def normalize_constraint_def exact_constraint_def
        constraint_holds_def imax_free_normalize rbind_eq_Inr Let_def split: if_splits)
qed

lemma exact_constraint_inequalities:
  "decompose_constraint c = Inr qs \<Longrightarrow> exact_constraint c \<Longrightarrow> constraint_holds \<rho> c \<Longrightarrow>
   constraint_inequalities_hold \<rho> c"
  using constraint_implies_inequalities [of c qs \<rho>]
  by (simp add: constraint_inequalities_hold_def list_all_iff)

section \<open>Parameter indices and node valuations\<close>

lemma universe_param_indices_fold:
  "distinct ps \<Longrightarrow>
   fold (\<lambda>(i, p) m. m(p \<mapsto> i + 1)) (enumerate k ps) m n =
     (case position (\<lambda>p. p = n) ps of Some i \<Rightarrow> Some (k + i + 1) | None \<Rightarrow> m n)"
proof (induction ps arbitrary: k m)
  case Nil
  then show ?case by simp
next
  case (Cons p ps)
  then have "position (\<lambda>q. q = p) ps = None"
    by (auto simp: position_None)
  with Cons show ?case by (auto split: option.splits)
qed

lemma universe_param_indices_eq:
  "distinct ps \<Longrightarrow>
   universe_param_indices ps n = map_option Suc (position (\<lambda>p. p = n) ps)"
  using universe_param_indices_fold [of ps 0 Map.empty n]
  by (simp add: universe_param_indices_def split: option.splits)

definition node_val :: "string list \<Rightarrow> (string \<Rightarrow> nat) \<Rightarrow> nat \<Rightarrow> int" where
  "node_val ps \<rho> i = (case i of 0 \<Rightarrow> 0 | Suc j \<Rightarrow> int (\<rho> (ps ! j)))"

lemma atom_base_index_val:
  assumes "atom_base_index b (universe_param_indices ps) = Inr i" and "distinct ps"
  shows "i < Suc (length ps) \<and> node_val ps \<rho> i = int (base_val \<rho> b)"
  using assms
  by (auto simp: atom_base_index_def universe_param_indices_eq node_val_def base_val_def
      split: atom_base.splits dest!: position_Some)

lemma offset_bound_Inr: "offset_bound a = Inr w \<Longrightarrow> w = int (atom_offset a)"
  by (simp add: offset_bound_def split: if_splits)

lemma obeys_add_edge:
  assumes "mat_ok n d" and "i < n" and "j < n"
  shows "mat_ok n (add_edge d i j w) \<and> below n (add_edge d i j w) d \<and>
    (obeys n v (add_edge d i j w) \<longleftrightarrow> obeys n v d \<and> v j \<le> v i + w)"
proof -
  have e: "ent (add_edge d i j w) a b = (if a = i \<and> b = j then omin (ent d i j) (Some w) else ent d a b)"
    for a b
    using assms by (auto simp: add_edge_def ent_set_ent omin_is_none_or_less)
  have "obeys n v d \<and> v j \<le> v i + w" if o: "obeys n v (add_edge d i j w)"
  proof
    show "v j \<le> v i + w"
    proof -
      have "omin (ent d i j) (Some w) = Some x \<Longrightarrow> v j \<le> v i + x" for x
        using o assms by (simp add: obeys_def e)
      then show ?thesis by (cases "ent d i j") (fastforce simp: min_def split: if_splits)+
    qed
    show "obeys n v d"
      using o by (rule obeys_below [rotated]) (auto simp: below_def e omin_ole)
  qed
  moreover have "obeys n v (add_edge d i j w)" if "obeys n v d" "v j \<le> v i + w"
    using that assms by (cases "ent d i j") (auto simp: obeys_def e min_def split: if_splits)
  moreover have "mat_ok n (add_edge d i j w)"
    using assms(1) by (simp add: add_edge_def mat_ok_set_ent)
  moreover have "below n (add_edge d i j w) d"
    by (auto simp: below_def e omin_ole)
  ultimately show ?thesis by blast
qed

text \<open>The matrix before closing: its bounds are the inequalities added so far.\<close>

definition graph_of :: "string list \<Rightarrow> atom_inequality list \<Rightarrow> dist_matrix \<Rightarrow> bool" where
  "graph_of ps qs d \<longleftrightarrow> mat_ok (Suc (length ps)) d \<and>
     below (Suc (length ps)) d (with_lower_bounds (length ps)) \<and>
     (\<forall>\<rho>. obeys (Suc (length ps)) (node_val ps \<rho>) d \<longleftrightarrow> (\<forall>q \<in> set qs. inequality_holds \<rho> q))"

lemma graph_of_lower_bounds: "graph_of ps [] (with_lower_bounds (length ps))"
  by (auto simp: graph_of_def mat_ok_lower_bounds below_refl obeys_def ent_lower_bounds
      less_Suc_eq_le node_val_def split: if_splits nat.splits)

lemma graph_of_add_inequality:
  assumes "graph_of ps qs d" and "distinct ps"
    and "add_inequality (universe_param_indices ps) q d = Inr d'"
  shows "graph_of ps (qs @ [q]) d'"
proof -
  from assms(3) obtain i j where
    i: "atom_base_index (atom_base (ai_rhs q)) (universe_param_indices ps) = Inr i" and
    j: "atom_base_index (atom_base (ai_lhs q)) (universe_param_indices ps) = Inr j" and
    d': "d' = add_edge d i j (int (atom_offset (ai_rhs q)) - int (atom_offset (ai_lhs q)))"
    by (auto simp: add_inequality_def rbind_eq_Inr dest!: offset_bound_Inr)
  note iv = atom_base_index_val [OF i assms(2)] and jv = atom_base_index_val [OF j assms(2)]
  let ?n = "Suc (length ps)"
  let ?w = "int (atom_offset (ai_rhs q)) - int (atom_offset (ai_lhs q))"
  have g: "mat_ok ?n d" "below ?n d (with_lower_bounds (length ps))"
    "\<And>\<rho>. obeys ?n (node_val ps \<rho>) d \<longleftrightarrow> (\<forall>q \<in> set qs. inequality_holds \<rho> q)"
    using assms(1) by (simp_all add: graph_of_def)
  have e: "mat_ok ?n d'" "below ?n d' d"
    "\<And>v. obeys ?n v d' \<longleftrightarrow> obeys ?n v d \<and> v j \<le> v i + ?w"
    using obeys_add_edge [OF g(1), of i j ?w] iv jv by (simp_all add: d')
  have "inequality_holds \<rho> q \<longleftrightarrow> node_val ps \<rho> j \<le> node_val ps \<rho> i + ?w" for \<rho>
    using iv [of \<rho>] jv [of \<rho>] by (auto simp: inequality_holds_def atom_val_def)
  with e g below_trans [OF e(2) g(2)] show ?thesis
    by (auto simp: graph_of_def)
qed

lemma graph_of_add_inequalities:
  assumes "graph_of ps qs d" and "distinct ps"
    and "fold_res (add_inequality (universe_param_indices ps)) qs' d = Inr d'"
  shows "graph_of ps (qs @ qs') d'"
  using assms(1,3)
proof (induction qs' arbitrary: qs d)
  case Nil
  then show ?case by simp
next
  case (Cons q qs')
  then obtain e where "add_inequality (universe_param_indices ps) q d = Inr e"
    "fold_res (add_inequality (universe_param_indices ps)) qs' e = Inr d'"
    by (auto simp: rbind_eq_Inr)
  with Cons.IH [of "qs @ [q]" e] graph_of_add_inequality [OF Cons.prems(1) assms(2)] show ?case
    by simp
qed

lemma graph_of_add_constraints:
  assumes "graph_of ps qs d" and "distinct ps"
    and "fold_res (add_constraint (universe_param_indices ps)) cs (n, d) = Inr (n', d')"
  shows "\<exists>qss. list_all2 (\<lambda>c qs'. decompose_constraint c = Inr qs') cs qss \<and>
    graph_of ps (qs @ concat qss) d'"
  using assms(1,3)
proof (induction cs arbitrary: qs n d)
  case Nil
  then show ?case by auto
next
  case (Cons c cs)
  then obtain n1 d1 where first: "add_constraint (universe_param_indices ps) c (n, d) = Inr (n1, d1)"
    and rest: "fold_res (add_constraint (universe_param_indices ps)) cs (n1, d1) = Inr (n', d')"
    by (auto elim!: rbind_InrE)
  from first obtain q1 where q1: "decompose_constraint c = Inr q1"
    "fold_res (add_inequality (universe_param_indices ps)) q1 d = Inr d1"
    by (auto simp: rbind_eq_Inr add_constraint_def)
  from graph_of_add_inequalities [OF Cons.prems(1) assms(2) q1(2)] have "graph_of ps (qs @ q1) d1" .
  from Cons.IH [OF this rest] obtain qss where
    "list_all2 (\<lambda>c qs'. decompose_constraint c = Inr qs') cs qss" "graph_of ps ((qs @ q1) @ concat qss) d'"
    by blast
  with q1(1) show ?case by (intro exI [of _ "q1 # qss"]) simp
qed

section \<open>Contexts\<close>

text \<open>
  A context is well formed when its closure is a closed matrix whose solutions are the
  valuations that satisfy the stored inequalities.
\<close>

definition context_holds :: "universe_context \<Rightarrow> (string \<Rightarrow> nat) \<Rightarrow> bool" where
  "context_holds u \<rho> \<longleftrightarrow> list_all (constraint_inequalities_hold \<rho>) (uctx_constraints u)"

definition context_ok :: "universe_context \<Rightarrow> bool" where
  "context_ok u \<longleftrightarrow> distinct (uctx_params u) \<and>
     closed_matrix (Suc (length (uctx_params u))) (uctx_closure u) \<and>
     (\<forall>\<rho>. obeys (Suc (length (uctx_params u))) (node_val (uctx_params u) \<rho>) (uctx_closure u)
        \<longleftrightarrow> context_holds u \<rho>)"

lemma closed_lower_bounds: "closed_matrix (Suc n) (with_lower_bounds n)"
  unfolding closed_matrix_def triangle_upto_def no_negative_def
  by (auto simp: mat_ok_lower_bounds ent_lower_bounds less_Suc_eq_le)

lemma strict_sorted_distinct: "sorted_wrt (<) (xs :: 'a::linorder list) \<Longrightarrow> distinct xs"
  by (simp add: strict_sorted_iff)

lemma graph_of_columns:
  "graph_of ps qs d \<Longrightarrow> i < Suc (length ps) \<Longrightarrow>
   ole (ent d i 0) (Some 0) \<and> ole (ent d i i) (Some 0)"
  using ent_lower_bounds [of i "length ps" 0] ent_lower_bounds [of i "length ps" i]
  unfolding graph_of_def below_def by (metis less_Suc_eq_le zero_less_Suc)

lemma decomposed_constraints_hold:
  "list_all2 (\<lambda>c qs. decompose_constraint c = Inr qs) cs qss \<Longrightarrow>
   (\<forall>q \<in> set (concat qss). inequality_holds \<rho> q) \<longleftrightarrow> list_all (constraint_inequalities_hold \<rho>) cs"
  by (induction rule: list_all2_induct) (auto simp: constraint_inequalities_hold_def list_all_iff)

lemma universe_context_new_ok:
  assumes "universe_context_new ps cs = Inr u"
  shows "context_ok u \<and> uctx_params u = ps \<and> uctx_constraints u = cs"
proof (cases "cs = []")
  case True
  with assms have u: "u = \<lparr>uctx_params = ps, uctx_constraints = [],
      uctx_closure = with_lower_bounds (length ps)\<rparr>" and "sorted_wrt (<) ps"
    by (auto simp: universe_context_new_def universe_context_from_params_def rbind_eq_Inr
        validate_universe_params_iff)
  then show ?thesis
    using graph_of_lower_bounds [of ps] True
    by (auto simp: context_ok_def context_holds_def graph_of_def closed_lower_bounds
        strict_sorted_distinct)
next
  case False
  with assms obtain n d closure where ps: "sorted_wrt (<) ps"
    and d: "fold_res (add_constraint (universe_param_indices ps)) cs
      (length ps, with_lower_bounds (length ps)) = Inr (n, d)"
    and closure: "closure_close d = Inr closure"
    and u: "u = \<lparr>uctx_params = ps, uctx_constraints = cs, uctx_closure = closure\<rparr>"
    by (auto simp: universe_context_new_def rbind_eq_Inr validate_universe_params_iff)
  from graph_of_add_constraints [OF graph_of_lower_bounds strict_sorted_distinct [OF ps] d]
  obtain qss where qss: "list_all2 (\<lambda>c qs. decompose_constraint c = Inr qs) cs qss"
    and g: "graph_of ps (concat qss) d" by auto
  from g have "mat_ok (Suc (length ps)) d" by (simp add: graph_of_def)
  from closure_close_Inr [OF closure this] graph_of_columns [OF g]
  have c: "closed_matrix (Suc (length ps)) closure"
    "\<And>v. obeys (Suc (length ps)) v closure \<longleftrightarrow> obeys (Suc (length ps)) v d" by auto
  with u g strict_sorted_distinct [OF ps] decomposed_constraints_hold [OF qss] show ?thesis
    by (simp add: context_ok_def context_holds_def graph_of_def)
qed

lemma context_holds_constraints:
  "context_holds u \<rho> \<Longrightarrow> list_all (constraint_holds \<rho>) (uctx_constraints u)"
  by (auto simp: context_holds_def list_all_iff intro: inequalities_imply_constraint)

text \<open>The valuation that reads the values of the nodes.\<close>

definition read_val :: "string list \<Rightarrow> (nat \<Rightarrow> int) \<Rightarrow> string \<Rightarrow> nat" where
  "read_val ps v n = (case position (\<lambda>p. p = n) ps of None \<Rightarrow> 0 | Some i \<Rightarrow> nat (v (Suc i)))"

lemma position_nth: "distinct ps \<Longrightarrow> i < length ps \<Longrightarrow> position (\<lambda>p. p = ps ! i) ps = Some i"
proof (induction ps arbitrary: i)
  case Nil
  then show ?case by simp
next
  case (Cons p ps)
  then show ?case by (cases i) auto
qed

lemma node_val_read_val:
  assumes "distinct ps" and "v 0 = 0" and "\<And>x. x < Suc (length ps) \<Longrightarrow> 0 \<le> v x"
    and "i < Suc (length ps)"
  shows "node_val ps (read_val ps v) i = v i"
  using assms by (cases i) (simp_all add: node_val_def read_val_def position_nth)

lemma obeys_cong: "(\<And>i. i < n \<Longrightarrow> v i = v' i) \<Longrightarrow> obeys n v d \<longleftrightarrow> obeys n v' d"
  by (simp add: obeys_def)

lemma context_closure_exact:
  assumes "context_ok u"
    and "i < Suc (length (uctx_params u))" and "j < Suc (length (uctx_params u))"
  shows "closure_entails (uctx_closure u) i j bound \<longleftrightarrow>
    (\<forall>\<rho>. context_holds u \<rho> \<longrightarrow>
       node_val (uctx_params u) \<rho> j \<le> node_val (uctx_params u) \<rho> i + bound)"
proof -
  let ?ps = "uctx_params u" and ?d = "uctx_closure u"
  let ?n = "Suc (length (uctx_params u))"
  from assms(1) have c: "closed_matrix ?n ?d" and ps: "distinct ?ps"
    and h: "\<And>\<rho>. obeys ?n (node_val ?ps \<rho>) ?d \<longleftrightarrow> context_holds u \<rho>"
    by (auto simp: context_ok_def)
  have nonneg: "node_val ?ps \<rho> 0 = 0" "0 \<le> node_val ?ps \<rho> x" for \<rho> x
    by (simp_all add: node_val_def split: nat.split)
  show ?thesis
    unfolding closure_entails_exact [OF c assms(2,3)] h [symmetric]
  proof (intro iffI allI impI)
    fix \<rho>
    assume "\<forall>v. obeys ?n v ?d \<longrightarrow> v 0 = 0 \<longrightarrow> (\<forall>x < ?n. 0 \<le> v x) \<longrightarrow> v j \<le> v i + bound"
      and "obeys ?n (node_val ?ps \<rho>) ?d"
    then show "node_val ?ps \<rho> j \<le> node_val ?ps \<rho> i + bound"
      using nonneg by simp
  next
    fix v
    assume all: "\<forall>\<rho>. obeys ?n (node_val ?ps \<rho>) ?d \<longrightarrow>
        node_val ?ps \<rho> j \<le> node_val ?ps \<rho> i + bound"
      and v: "obeys ?n v ?d" "v 0 = 0" "\<forall>x < ?n. 0 \<le> v x"
    have r: "node_val ?ps (read_val ?ps v) x = v x" if "x < ?n" for x
      using ps v that by (intro node_val_read_val) auto
    with v(1) obeys_cong [of ?n "node_val ?ps (read_val ?ps v)" v ?d]
    have "obeys ?n (node_val ?ps (read_val ?ps v)) ?d" by blast
    with all r assms(2,3) show "v j \<le> v i + bound" by metis
  qed
qed

section \<open>Entailment between levels\<close>

lemma witness_loop_sound:
  assumes "witness_loop d (universe_param_indices ps) to w rs = Inr True" and "distinct ps"
    and "obeys (Suc (length ps)) (node_val ps \<rho>) d" and "to < Suc (length ps)"
  shows "\<exists>r \<in> set rs. node_val ps \<rho> to + w \<le> int (atom_val \<rho> r)"
  using assms(1)
proof (induction rs)
  case Nil
  then show ?case by simp
next
  case (Cons r rs)
  then obtain src where f: "atom_base_index (atom_base r) (universe_param_indices ps) = Inr src"
    and alt: "closure_entails d src to (int (atom_offset r) - w) \<or>
      witness_loop d (universe_param_indices ps) to w rs = Inr True"
    by (auto simp: rbind_eq_Inr split: if_splits dest!: offset_bound_Inr)
  note fv = atom_base_index_val [OF f assms(2), of \<rho>]
  from alt show ?case
  proof
    assume "closure_entails d src to (int (atom_offset r) - w)"
    with assms(3,4) fv have "node_val ps \<rho> to \<le> node_val ps \<rho> src + (int (atom_offset r) - w)"
      by (fastforce simp: closure_entails_def obeys_def split: option.splits)
    with fv show ?thesis by (simp add: atom_val_def)
  qed (use Cons.IH in simp)
qed

lemma lhs_atoms_loop_sound:
  assumes "lhs_atoms_loop d (universe_param_indices ps) ls rs = Inr True" and "distinct ps"
    and "obeys (Suc (length ps)) (node_val ps \<rho>) d" and "l \<in> set ls"
  shows "\<exists>r \<in> set rs. atom_val \<rho> l \<le> atom_val \<rho> r"
  using assms(1,4)
proof (induction ls)
  case Nil
  then show ?case by simp
next
  case (Cons a ls)
  then obtain to where t: "atom_base_index (atom_base a) (universe_param_indices ps) = Inr to"
    and w: "witness_loop d (universe_param_indices ps) to (int (atom_offset a)) rs = Inr True"
    and rest: "lhs_atoms_loop d (universe_param_indices ps) ls rs = Inr True"
    by (auto simp: rbind_eq_Inr split: if_splits dest!: offset_bound_Inr)
  note tv = atom_base_index_val [OF t assms(2), of \<rho>]
  from witness_loop_sound [OF w assms(2,3)] tv
  have "\<exists>r \<in> set rs. atom_val \<rho> a \<le> atom_val \<rho> r"
    by (auto simp: atom_val_def simp flip: of_nat_add)
  with Cons.IH [OF rest] Cons.prems(2) show ?case by auto
qed

lemma entails_level_leE:
  assumes "entails_level_le u lhs rhs = Inr True"
  obtains (same) "normalize_level lhs = normalize_level rhs"
  | (imax) a where "normalize_level lhs = LIMax a (normalize_level rhs)"
      "entails_level_le u a (LSucc LZero) = Inr True"
  | (atoms) las ras where "decompose_lhs_level_expr (normalize_level lhs) = Inr las"
      "decompose_level_expr (normalize_level rhs) = Inr ras"
      "lhs_atoms_loop (uctx_closure u) (universe_param_indices (uctx_params u)) las ras = Inr True"
proof -
  let ?short = "case normalize_level lhs of
      LIMax a b \<Rightarrow> if level_eq_stack_safe b (normalize_level rhs)
        then entails_level_le u a (LSucc LZero) else Inr False
    | _ \<Rightarrow> Inr False"
  have short: "\<exists>a. normalize_level lhs = LIMax a (normalize_level rhs) \<and>
      entails_level_le u a (LSucc LZero) = Inr True" if "?short = Inr True"
    using that by (cases "normalize_level lhs") (auto split: if_splits)
  from assms [unfolded entails_level_le.simps [of u lhs rhs]] show thesis
    using same short imax atoms
    by (elim rbind_InrE) (auto simp: rbind_eq_Inr split: if_splits)
qed

theorem entails_level_le_sound:
  assumes "entails_level_le u lhs rhs = Inr True" and "context_ok u" and "context_holds u \<rho>"
  shows "level_val \<rho> lhs \<le> level_val \<rho> rhs"
  using assms(1)
proof (induction "size (normalize_level lhs)" arbitrary: lhs rhs rule: less_induct)
  case less
  from less.prems show ?case
  proof (cases rule: entails_level_leE)
    case same
    then show ?thesis by (metis level_val_normalize order_refl)
  next
    case (imax a)
    from normalize_level_IMax_left [OF imax(1)] imax(1)
    have "size (normalize_level a) < size (normalize_level lhs)" by simp
    from less.hyps [OF this imax(2)] have "level_val \<rho> a \<le> 1" by simp
    then have "level_val \<rho> (normalize_level lhs) \<le> level_val \<rho> rhs"
      unfolding imax(1) by (cases "level_val \<rho> rhs") auto
    then show ?thesis by simp
  next
    case (atoms las ras)
    from assms(2,3) have "distinct (uctx_params u)"
      "obeys (Suc (length (uctx_params u))) (node_val (uctx_params u) \<rho>) (uctx_closure u)"
      by (auto simp: context_ok_def)
    note step = lhs_atoms_loop_sound [OF atoms(3) this]
    have "atom_val \<rho> l \<le> level_val \<rho> rhs" if "l \<in> set las" for l
      using step [OF that] decompose_rhs_lower [OF atoms(2), of _ \<rho>] by force
    with decompose_lhs_upper [OF atoms(1)] show ?thesis by fastforce
  qed
qed

section \<open>The interface other components use\<close>

text \<open>
  A universe oracle answers whether one level is below another in a context. What a client
  concludes from it is proved once from this law: an answered list of obligations holds in
  every model of the context, and so do the declared constraints of an instantiated
  declaration.
\<close>

definition check_obligation ::
  "('c \<Rightarrow> level \<Rightarrow> level \<Rightarrow> bool kresult) \<Rightarrow> 'c \<Rightarrow> universe_constraint \<Rightarrow> bool kresult" where
  "check_obligation le u n =
     (case uc_relation n of
        RLe \<Rightarrow> le u (uc_lhs n) (uc_rhs n)
      | REq \<Rightarrow> rbind (le u (uc_lhs n) (uc_rhs n)) (\<lambda>b.
          if b then le u (uc_rhs n) (uc_lhs n) else Inr False))"

locale universe_oracle =
  fixes valid :: "'c \<Rightarrow> bool"
    and models :: "'c \<Rightarrow> (string \<Rightarrow> nat) \<Rightarrow> bool"
    and le :: "'c \<Rightarrow> level \<Rightarrow> level \<Rightarrow> bool kresult"
  assumes le_sound: "valid u \<Longrightarrow> le u a b = Inr True \<Longrightarrow> models u \<rho> \<Longrightarrow> level_val \<rho> a \<le> level_val \<rho> b"
begin

lemma obligation_sound:
  assumes "valid u" and "check_obligation le u n = Inr True" and "models u \<rho>"
  shows "constraint_holds \<rho> n"
  using assms le_sound [OF assms(1) _ assms(3)]
  by (auto simp: check_obligation_def constraint_holds_def rbind_eq_Inr
      split: universe_constraint_relation.splits if_splits intro!: antisym)

lemma equal_levels:
  assumes "valid u" and "le u a b = Inr True" and "le u b a = Inr True" and "models u \<rho>"
  shows "level_val \<rho> a = level_val \<rho> b"
  using assms by (blast intro: antisym le_sound)

end

interpretation kernel_oracle: universe_oracle context_ok context_holds entails_level_le
  by unfold_locales (rule entails_level_le_sound)

lemma constraint_holds_normalize [simp]:
  "constraint_holds \<rho> (normalize_constraint c) \<longleftrightarrow> constraint_holds \<rho> c"
  by (simp add: constraint_holds_def normalize_constraint_def split: universe_constraint_relation.split)

lemma entails_one_check:
  "entails_one u c = Inr () \<longleftrightarrow> check_obligation entails_level_le u (normalize_constraint c) = Inr True"
  by (auto simp: entails_one_def check_obligation_def Let_def rbind_eq_Inr split: if_splits)

lemma universe_entails_models:
  assumes "context_ok u" and "universe_entails u cs = Inr ()" and "context_holds u \<rho>"
  shows "list_all (constraint_holds \<rho>) cs"
proof -
  have "constraint_holds \<rho> c" if "c \<in> set cs" for c
  proof -
    from assms(2) that have "check_obligation entails_level_le u (normalize_constraint c) = Inr True"
      by (simp add: universe_entails_def check_all_eq_Inr entails_one_check)
    from kernel_oracle.obligation_sound [OF assms(1) this assms(3)] show ?thesis by simp
  qed
  then show ?thesis by (simp add: list_all_iff)
qed

lemma constraint_holds_substitute:
  "constraint_holds \<rho> \<lparr>uc_lhs = substitute_level (uc_lhs c) ps ls, uc_relation = uc_relation c,
     uc_rhs = substitute_level (uc_rhs c) ps ls\<rparr> \<longleftrightarrow> constraint_holds (subst_val ps ls \<rho>) c"
  by (cases "uc_relation c") (simp_all add: constraint_holds_def level_val_substitute)

lemma substitute_constraints_models:
  assumes "substitute_constraints u ps ls cs = Inr cs'"
  shows "list_all (constraint_holds \<rho>) cs' \<longleftrightarrow> list_all (constraint_holds (subst_val ps ls \<rho>)) cs"
  using assms
  by (auto simp: substitute_constraints_def rbind_eq_Inr validate_universe_params_iff
      list_all_iff constraint_holds_substitute)

section \<open>Satisfiability\<close>

lemma context_ok_satisfiable:
  assumes "context_ok u"
  obtains \<rho> where "context_holds u \<rho>"
proof -
  let ?ps = "uctx_params u" and ?d = "uctx_closure u"
  let ?n = "Suc (length (uctx_params u))" and ?v = "low (uctx_closure u) 0 0"
  from assms have c: "closed_matrix ?n ?d" and ps: "distinct ?ps"
    and h: "\<And>\<rho>. obeys ?n (node_val ?ps \<rho>) ?d \<longleftrightarrow> context_holds u \<rho>"
    by (auto simp: context_ok_def)
  have "?v 0 = 0"
    using closed_matrix_diag [OF c, of 0] by (intro low_zero [OF c]) auto
  then have "node_val ?ps (read_val ?ps ?v) x = ?v x" if "x < ?n" for x
    using ps low_nonneg [OF c] that by (intro node_val_read_val) auto
  with low_obeys [OF c, of 0 0] obeys_cong [of ?n "node_val ?ps (read_val ?ps ?v)" ?v ?d]
  have "obeys ?n (node_val ?ps (read_val ?ps ?v)) ?d" by blast
  with h that show thesis by blast
qed

lemma not_unsat_parts:
  "decompose_constraint c \<noteq> Inl UnsatisfiableUniverseConstraints"
  "add_inequality idx q d \<noteq> Inl UnsatisfiableUniverseConstraints"
  "ensure_universe_edge_limit n \<noteq> Inl UnsatisfiableUniverseConstraints"
proof -
  have atom: "decompose_atom l \<noteq> Inl UnsatisfiableUniverseConstraints" for l
    by (cases "peel_succ l 0")
      (auto simp: decompose_atom_def offset_bound_def rbind_eq_Inl split: level.splits if_splits)
  have loop: "decompose_loop i ls acc \<noteq> Inl UnsatisfiableUniverseConstraints" for i ls acc
  proof (induction ls acc rule: decompose_loop_induct [of _ i])
    case (split l a b p acc)
    then show ?case by (simp add: decompose_loop_split)
  next
    case (atom l p acc)
    with \<open>\<And>l. decompose_atom l \<noteq> _\<close> show ?case by (auto simp: decompose_loop_atom rbind_eq_Inl)
  qed simp
  have le: "decompose_le_constraint l r \<noteq> Inl UnsatisfiableUniverseConstraints" for l r
    using loop by (auto simp: decompose_le_constraint_def decompose_lhs_level_expr_def
        decompose_level_expr_def Let_def rbind_eq_Inl split: list.splits)
  then show "decompose_constraint c \<noteq> Inl UnsatisfiableUniverseConstraints"
    by (auto simp: decompose_constraint_def Let_def rbind_eq_Inl
        split: universe_constraint_relation.splits)
  show "add_inequality idx q d \<noteq> Inl UnsatisfiableUniverseConstraints"
    by (auto simp: add_inequality_def atom_base_index_def offset_bound_def rbind_eq_Inl ok_or_def
        split: atom_base.splits if_splits option.splits)
  show "ensure_universe_edge_limit n \<noteq> Inl UnsatisfiableUniverseConstraints"
    by (simp add: ensure_universe_edge_limit_def)
qed

lemma validate_params_not_unsat:
  "validate_universe_params ps \<noteq> Inl UnsatisfiableUniverseConstraints"
proof -
  have "validate_params_loop seen qs \<noteq> Inl UnsatisfiableUniverseConstraints" for seen qs
    by (induction seen qs rule: validate_params_loop.induct) auto
  then show ?thesis by (auto simp: validate_universe_params_def rbind_eq_Inl)
qed

lemma constraints_wf_not_unsat:
  "ensure_universe_constraints_wf ps cs \<noteq> Inl UnsatisfiableUniverseConstraints"
proof -
  have loop: "ensure_level_wf_loop ps ls \<noteq> Inl UnsatisfiableUniverseConstraints" for ls
  proof (induction ps ls rule: ensure_level_wf_loop.induct)
    case (2 delta l pending)
    then show ?case by (cases l) auto
  qed simp
  have lev: "ensure_canonical_level ps l \<noteq> Inl UnsatisfiableUniverseConstraints" for l
    using loop [of "[l]"] by (auto simp: ensure_canonical_level_def ensure_level_wf_def rbind_eq_Inl)
  have inner: "rbind (ensure_canonical_level ps (uc_lhs c)) (\<lambda>_. ensure_canonical_level ps (uc_rhs c))
      \<noteq> Inl UnsatisfiableUniverseConstraints" for c
    using lev by (auto simp: rbind_eq_Inl)
  have pair: "(case p of (a, b) \<Rightarrow> (case universe_constraint_cmp_stack_safe a b of
      Greater \<Rightarrow> Inl NonCanonicalUniverseConstraints
    | Equal \<Rightarrow> Inl DuplicateUniverseConstraint
    | Less \<Rightarrow> Inr ())) \<noteq> Inl UnsatisfiableUniverseConstraints" for p
    by (cases p) (auto split: ordering.split)
  show ?thesis
    unfolding ensure_universe_constraints_wf_def
    by (intro rbind_not_Inl check_all_not_Inl inner pair)
qed

lemma universe_context_new_unsat:
  assumes "universe_context_new ps cs = Inl UnsatisfiableUniverseConstraints"
  shows "\<not> list_all (constraint_inequalities_hold \<rho>) cs \<and>
    (\<forall>c \<in> set cs. \<exists>qs. decompose_constraint c = Inr qs)"
proof -
  have cs: "cs \<noteq> []"
    using assms validate_params_not_unsat [of ps]
    by (auto simp: universe_context_new_def universe_context_from_params_def rbind_eq_Inl
        ensure_universe_node_limit_def ensure_universe_edge_limit_def)
  have con: "add_constraint idx c t \<noteq> Inl UnsatisfiableUniverseConstraints" for idx c t
    using not_unsat_parts fold_res_not_Inl [of "add_inequality idx"]
    by (auto simp: add_constraint_def rbind_eq_Inl split: prod.split)
  note none = fold_res_not_Inl [of "add_constraint (universe_param_indices ps)", OF con]
  from assms cs none validate_params_not_unsat [of ps] constraints_wf_not_unsat [of ps cs]
  obtain n d where ps: "sorted_wrt (<) ps"
    and d: "fold_res (add_constraint (universe_param_indices ps)) cs
      (length ps, with_lower_bounds (length ps)) = Inr (n, d)"
    and closure: "closure_close d = Inl UnsatisfiableUniverseConstraints"
    by (auto simp: universe_context_new_def rbind_eq_Inl validate_universe_params_iff
        ensure_universe_node_limit_def)
  from graph_of_add_constraints [OF graph_of_lower_bounds strict_sorted_distinct [OF ps] d]
  obtain qss where qss: "list_all2 (\<lambda>c qs. decompose_constraint c = Inr qs) cs qss"
    and g: "graph_of ps (concat qss) d" by auto
  from g closure_close_unsat [OF closure, of "Suc (length ps)" "node_val ps \<rho>"]
  have "\<not> (\<forall>q \<in> set (concat qss). inequality_holds \<rho> q)" by (auto simp: graph_of_def)
  with decomposed_constraints_hold [OF qss] qss show ?thesis
    by (auto simp: list_all2_conv_all_nth in_set_conv_nth)
qed

section \<open>Properties\<close>

lemma exact_context_holds:
  assumes "universe_context_new ps cs = Inr u" and "list_all exact_constraint cs"
  shows "context_holds u \<rho> \<longleftrightarrow> list_all (constraint_holds \<rho>) cs"
proof -
  note ok = universe_context_new_ok [OF assms(1)]
  from ok obtain \<rho>0 where "context_holds u \<rho>0" by (blast elim: context_ok_satisfiable)
  with ok have "\<exists>qs. decompose_constraint c = Inr qs" if "c \<in> set cs" for c
    using that by (cases "decompose_constraint c")
      (auto simp: context_holds_def list_all_iff constraint_inequalities_hold_def)
  with assms(2) have "constraint_holds \<rho> c \<Longrightarrow> constraint_inequalities_hold \<rho> c"
    if "c \<in> set cs" for c
    using that unfolding list_all_iff by (blast intro: exact_constraint_inequalities)
  with ok context_holds_constraints [of u \<rho>] show ?thesis
    by (auto simp: context_holds_def list_all_iff)
qed

definition sample_params :: "string list" where
  "sample_params = [''u'', ''v'']"

definition sample_constraints :: "universe_constraint list" where
  "sample_constraints = [constraint_le (LSucc (LParam ''u'')) (LParam ''v'')]"

definition sample_obligations :: "universe_constraint list" where
  "sample_obligations =
     [constraint_le (LMax (LParam ''u'') (LSucc LZero)) (LParam ''v''),
      constraint_le (LIMax (LParam ''v'') (LParam ''u'')) (LParam ''v'')]"

definition sample_context :: universe_context where
  "sample_context = projr (universe_context_new sample_params sample_constraints)"

definition sample_valuation :: "string \<Rightarrow> nat" where
  "sample_valuation n = (if n = ''u'' then 4 else 7)"

lemma sample_computed:
  "case universe_context_new sample_params sample_constraints of
     Inl _ \<Rightarrow> False
   | Inr u \<Rightarrow> universe_entails u sample_obligations = Inr () \<and> closure_entails (uctx_closure u) 2 1 (- 1)"
  by code_simp

lemma sample_context_new: "universe_context_new sample_params sample_constraints = Inr sample_context"
  using sample_computed by (simp add: sample_context_def split: sum.splits)

lemma sample_context_entails: "universe_entails sample_context sample_obligations = Inr ()"
  "closure_entails (uctx_closure sample_context) 2 1 (- 1)"
  using sample_computed by (simp_all add: sample_context_new)

text \<open>
  C10: entailment is sound. When a universe context is built from constraints whose assumed
  sides have no \<^verbatim>\<open>IMax\<close>, every list of obligations the context accepts (equalities and
  inequalities between arbitrary levels, \<^verbatim>\<open>IMax\<close> included) holds under every assignment
  of the parameters that satisfies the constraints.
\<close>

theorem universe_entails_sound:
  assumes "universe_context_new ps cs = Inr u" and "list_all exact_constraint cs"
    and "universe_entails u obligations = Inr ()" and "list_all (constraint_holds \<rho>) cs"
  shows "list_all (constraint_holds \<rho>) obligations"
  using universe_context_new_ok [OF assms(1)] exact_context_holds [OF assms(1,2)] assms(3,4)
  by (blast intro: universe_entails_models)

theorem universe_entails_sound_witness:
  "list_all (constraint_holds sample_valuation) sample_obligations"
proof (rule universe_entails_sound [OF sample_context_new])
  show "list_all exact_constraint sample_constraints" by code_simp
  show "universe_entails sample_context sample_obligations = Inr ()" by (rule sample_context_entails)
  show "list_all (constraint_holds sample_valuation) sample_constraints" by code_simp
qed

text \<open>
  C12: what the context constructor says about satisfiability is true. A context that is
  built has constraints some assignment satisfies, whatever the constraints; constraints rejected
  as unsatisfiable have no satisfying assignment, when no assumed side has an \<^verbatim>\<open>IMax\<close>.
\<close>

theorem universe_context_satisfiability:
  "(\<forall>u. universe_context_new ps cs = Inr u \<longrightarrow> (\<exists>\<rho>. list_all (constraint_holds \<rho>) cs)) \<and>
   (universe_context_new ps cs = Inl UnsatisfiableUniverseConstraints \<longrightarrow>
     list_all exact_constraint cs \<longrightarrow> (\<forall>\<rho>. \<not> list_all (constraint_holds \<rho>) cs))"
proof (intro conjI allI impI)
  fix u
  assume "universe_context_new ps cs = Inr u"
  from universe_context_new_ok [OF this] show "\<exists>\<rho>. list_all (constraint_holds \<rho>) cs"
    by (metis context_ok_satisfiable context_holds_constraints)
next
  fix \<rho>
  assume "universe_context_new ps cs = Inl UnsatisfiableUniverseConstraints"
    and "list_all exact_constraint cs"
  with universe_context_new_unsat [of ps cs \<rho>] show "\<not> list_all (constraint_holds \<rho>) cs"
    by (auto simp: list_all_iff dest: exact_constraint_inequalities)
qed

theorem universe_context_satisfiability_witness:
  "(\<exists>\<rho>. list_all (constraint_holds \<rho>) sample_constraints) \<and>
   (\<forall>\<rho>. \<not> list_all (constraint_holds \<rho>) [constraint_le (LSucc (LParam ''u'')) (LParam ''u'')])"
proof
  show "\<exists>\<rho>. list_all (constraint_holds \<rho>) sample_constraints"
    using universe_context_satisfiability [of sample_params sample_constraints] sample_context_new
    by blast
  have "universe_context_new [''u''] [constraint_le (LSucc (LParam ''u'')) (LParam ''u'')]
      = Inl UnsatisfiableUniverseConstraints" by code_simp
  moreover have "list_all exact_constraint [constraint_le (LSucc (LParam ''u'')) (LParam ''u'')]"
    by code_simp
  ultimately show "\<forall>\<rho>. \<not> list_all (constraint_holds \<rho>)
      [constraint_le (LSucc (LParam ''u'')) (LParam ''u'')]"
    using universe_context_satisfiability [of "[''u'']"] by blast
qed

text \<open>
  C11: on atoms the closure decides entailment exactly, when no assumed side of a constraint has
  an \<^verbatim>\<open>IMax\<close>: node \<open>j\<close> is bounded by node \<open>i\<close> plus an offset in the closed matrix if and only if
  the bound holds under every assignment that satisfies the constraints (node 0 is zero, node
  \<open>k + 1\<close> the \<open>k\<close>-th parameter).
\<close>

theorem closure_decides_atoms:
  assumes "universe_context_new ps cs = Inr u" and "list_all exact_constraint cs"
    and "i \<le> length ps" and "j \<le> length ps"
  shows "closure_entails (uctx_closure u) i j bound \<longleftrightarrow>
    (\<forall>\<rho>. list_all (constraint_holds \<rho>) cs \<longrightarrow> node_val ps \<rho> j \<le> node_val ps \<rho> i + bound)"
proof -
  from universe_context_new_ok [OF assms(1)] have "context_ok u" "uctx_params u = ps" by auto
  with context_closure_exact [of u i j bound] exact_context_holds [OF assms(1,2)] assms(3,4)
  show ?thesis by (simp add: less_Suc_eq_le)
qed

theorem closure_decides_atoms_witness:
  "closure_entails (uctx_closure sample_context) 2 1 (- 1) \<and>
   closure_entails (uctx_closure sample_context) 2 1 (- 1) =
     (\<forall>\<rho>. list_all (constraint_holds \<rho>) sample_constraints \<longrightarrow>
       node_val sample_params \<rho> 1 \<le> node_val sample_params \<rho> 2 + (- 1))"
proof -
  note e = sample_context_entails(2)
  have x: "list_all exact_constraint sample_constraints" by code_simp
  have "2 \<le> length sample_params" "1 \<le> length sample_params" by (simp_all add: sample_params_def)
  from closure_decides_atoms [OF sample_context_new x this, of "- 1"] e show ?thesis by blast
qed

definition imax_constraint :: universe_constraint where
  "imax_constraint = constraint_le (LIMax (LSucc (LSucc LZero)) (LParam ''v'')) (LParam ''w'')"

text \<open>
  C18: the restriction on \<^verbatim>\<open>IMax\<close> is needed. The constructor decomposes the left side of
  an assumed constraint with the rule \<^verbatim>\<open>IMax a b = Max a b\<close> that is only sound for a goal:
  from \<open>imax 2 v \<le> w\<close> the context accepts \<open>2 \<le> w\<close>, which fails for
  \<open>v = 0\<close> and \<open>w = 1\<close>, where the assumption holds; the instance of the assumption at
  these levels is accepted in the empty context.
\<close>

theorem imax_assumption_unsound:
  "\<exists>u. universe_context_new [''v'', ''w''] [imax_constraint] = Inr u \<and>
     universe_entails u [constraint_le (LSucc (LSucc LZero)) (LParam ''w'')] = Inr () \<and>
     (let \<rho> = (\<lambda>n. if n = ''v'' then 0 else 1) in
        constraint_holds \<rho> imax_constraint \<and>
        \<not> constraint_holds \<rho> (constraint_le (LSucc (LSucc LZero)) (LParam ''w''))) \<and>
     rbind (substitute_constraints universe_context_empty [''v'', ''w''] [LZero, LSucc LZero]
         [imax_constraint]) (universe_entails universe_context_empty) = Inr ()"
proof -
  have "case universe_context_new [''v'', ''w''] [imax_constraint] of
      Inl _ \<Rightarrow> False
    | Inr u \<Rightarrow> universe_entails u [constraint_le (LSucc (LSucc LZero)) (LParam ''w'')] = Inr ()" by code_simp
  then obtain u where "universe_context_new [''v'', ''w''] [imax_constraint] = Inr u"
    "universe_entails u [constraint_le (LSucc (LSucc LZero)) (LParam ''w'')] = Inr ()" by (auto split: sum.splits)
  moreover
  have "let \<rho> = (\<lambda>n. if n = ''v'' then 0 else 1) in
      constraint_holds \<rho> imax_constraint \<and>
      \<not> constraint_holds \<rho> (constraint_le (LSucc (LSucc LZero)) (LParam ''w''))" by code_simp
  moreover have "rbind (substitute_constraints universe_context_empty [''v'', ''w''] [LZero, LSucc LZero]
      [imax_constraint]) (universe_entails universe_context_empty) = Inr ()" by code_simp
  ultimately show ?thesis by blast
qed

end
