(* ===== verification/Kernel_Typing.thy ===== *)
theory Kernel_Typing
  imports Kernel_Conversion Universe_Soundness
begin

text \<open>
  Type inference and checking (\<^verbatim>\<open>infer\<close>, \<^verbatim>\<open>check\<close> and \<^verbatim>\<open>expect_sort\<close> of
  \<^verbatim>\<open>npa-kernel/src/env.rs\<close>, in a universe context and with the fuel each call of
  normalization and conversion gets; and their variants that draw on two shared fuel
  counters). \<open>has_type\<close> is the declarative judgement; what the checker accepts is
  derivable in it.
\<close>

section \<open>The checker\<close>

definition whnf_fuel_limit :: nat where
  "whnf_fuel_limit = 100000"

definition defeq_fuel_limit :: nat where
  "defeq_fuel_limit = 5000000"

definition whnf :: "env \<Rightarrow> ctx \<Rightarrow> expr \<Rightarrow> expr kresult" where
  "whnf E c t = fst (whnf_with_remaining_fuel E c t whnf_fuel_limit RWhnf)"

definition is_defeq :: "env \<Rightarrow> ctx \<Rightarrow> expr \<Rightarrow> expr \<Rightarrow> bool kresult" where
  "is_defeq E c l r = fst (is_defeq_with_remaining_fuel E c l r defeq_fuel_limit)"

definition as_sort :: "expr \<Rightarrow> level kresult" where
  "as_sort t = (case t of Sort l \<Rightarrow> Inr l | actual \<Rightarrow> Inl (ExpectedSort actual))"

definition as_pi :: "expr \<Rightarrow> (expr \<times> expr) kresult" where
  "as_pi t = (case t of Pi x a b \<Rightarrow> Inr (a, b) | actual \<Rightarrow> Inl (ExpectedPi actual))"

function infer :: "env \<Rightarrow> universe_context \<Rightarrow> ctx \<Rightarrow> expr \<Rightarrow> expr kresult"
  and check :: "env \<Rightarrow> universe_context \<Rightarrow> ctx \<Rightarrow> expr \<Rightarrow> expr \<Rightarrow> unit kresult"
  and expect_sort :: "env \<Rightarrow> universe_context \<Rightarrow> ctx \<Rightarrow> expr \<Rightarrow> level kresult"
where
  "infer E u c (Sort l) =
     rbind (ensure_level_wf (uctx_params u) l) (\<lambda>_. Inr (Sort (LSucc l)))"
| "infer E u c (BVar i) = lookup_type c i"
| "infer E u c (Const n levels) = infer_const_type E u n levels"
| "infer E u c (Pi x a b) =
     rbind (expect_sort E u c a) (\<lambda>domain_sort.
     rbind (expect_sort E u (push_assumption c a) b) (\<lambda>body_sort.
       Inr (Sort (level_imax domain_sort body_sort))))"
| "infer E u c (Lam x a b) =
     rbind (expect_sort E u c a) (\<lambda>_.
     rbind (infer E u (push_assumption c a) b) (\<lambda>body_ty. Inr (Pi x a body_ty)))"
| "infer E u c (App f a) =
     rbind (infer E u c f) (\<lambda>fun_ty.
     rbind (whnf E c fun_ty) (\<lambda>w.
     rbind (as_pi w) (\<lambda>(t, b).
     rbind (check E u c a t) (\<lambda>_. instantiate b a))))"
| "check E u c term expected =
     rbind (infer E u c term) (\<lambda>actual.
     rbind (is_defeq E c actual expected) (\<lambda>same.
       if same then Inr () else Inl (TypeMismatch expected actual)))"
| "expect_sort E u c term =
     rbind (infer E u c term) (\<lambda>inferred.
     rbind (whnf E c inferred) as_sort)"
  by pat_completeness auto
termination
  by (relation "measure (\<lambda>x. case x of
      Inl (_, _, _, t) \<Rightarrow> 2 * size t
    | Inr (Inl (_, _, _, t, _)) \<Rightarrow> 2 * size t + 1
    | Inr (Inr (_, _, _, t)) \<Rightarrow> 2 * size t + 1)") auto

declare check.simps [simp del] expect_sort.simps [simp del]

section \<open>The checker on shared fuel\<close>

text \<open>
  The state is the pair of the two counters: the fuel of \<^verbatim>\<open>whnf\<close> calls and the fuel of
  conversion.
\<close>

definition on_whnf_fuel ::
  "(nat \<Rightarrow> ('a, nat) metered) \<Rightarrow> nat \<times> nat \<Rightarrow> ('a, nat \<times> nat) metered" where
  "on_whnf_fuel m s = (case m (fst s) of (r, n) \<Rightarrow> (r, (n, snd s)))"

definition on_conversion_fuel ::
  "(nat \<Rightarrow> ('a, nat) metered) \<Rightarrow> nat \<times> nat \<Rightarrow> ('a, nat \<times> nat) metered" where
  "on_conversion_fuel m s = (case m (snd s) of (r, n) \<Rightarrow> (r, (fst s, n)))"

function infer_with_remaining_fuel ::
    "env \<Rightarrow> universe_context \<Rightarrow> ctx \<Rightarrow> expr \<Rightarrow> nat \<times> nat \<Rightarrow> (expr, nat \<times> nat) metered"
  and check_with_remaining_fuel ::
    "env \<Rightarrow> universe_context \<Rightarrow> ctx \<Rightarrow> expr \<Rightarrow> expr \<Rightarrow> nat \<times> nat \<Rightarrow> (unit, nat \<times> nat) metered"
  and expect_sort_with_remaining_fuel ::
    "env \<Rightarrow> universe_context \<Rightarrow> ctx \<Rightarrow> expr \<Rightarrow> nat \<times> nat \<Rightarrow> (level, nat \<times> nat) metered"
where
  "infer_with_remaining_fuel E u c (Sort l) s =
     fbind (ensure_level_wf (uctx_params u) l, s) (\<lambda>_ s. (Inr (Sort (LSucc l)), s))"
| "infer_with_remaining_fuel E u c (BVar i) s = (lookup_type c i, s)"
| "infer_with_remaining_fuel E u c (Const n levels) s = (infer_const_type E u n levels, s)"
| "infer_with_remaining_fuel E u c (Pi x a b) s =
     fbind (expect_sort_with_remaining_fuel E u c a s) (\<lambda>domain_sort s.
     fbind (expect_sort_with_remaining_fuel E u (push_assumption c a) b s) (\<lambda>body_sort s.
       (Inr (Sort (level_imax domain_sort body_sort)), s)))"
| "infer_with_remaining_fuel E u c (Lam x a b) s =
     fbind (expect_sort_with_remaining_fuel E u c a s) (\<lambda>_ s.
     fbind (infer_with_remaining_fuel E u (push_assumption c a) b s) (\<lambda>body_ty s.
       (Inr (Pi x a body_ty), s)))"
| "infer_with_remaining_fuel E u c (App f a) s =
     fbind (infer_with_remaining_fuel E u c f s) (\<lambda>fun_ty s.
     fbind (on_whnf_fuel (\<lambda>n. whnf_with_remaining_fuel E c fun_ty n RWhnf) s) (\<lambda>w s.
     fbind (as_pi w, s) (\<lambda>p s.
     fbind (check_with_remaining_fuel E u c a (fst p) s) (\<lambda>_ s. (instantiate (snd p) a, s)))))"
| "check_with_remaining_fuel E u c term expected s =
     fbind (infer_with_remaining_fuel E u c term s) (\<lambda>actual s.
     fbind (on_conversion_fuel (is_defeq_with_remaining_fuel E c actual expected) s) (\<lambda>same s.
       if same then (Inr (), s) else (Inl (TypeMismatch expected actual), s)))"
| "expect_sort_with_remaining_fuel E u c term s =
     fbind (infer_with_remaining_fuel E u c term s) (\<lambda>inferred s.
     fbind (on_whnf_fuel (\<lambda>n. whnf_with_remaining_fuel E c inferred n RWhnf) s) (\<lambda>w s.
       (as_sort w, s)))"
  by pat_completeness auto
termination
  by (relation "measure (\<lambda>x. case x of
      Inl (_, _, _, t, _) \<Rightarrow> 2 * size t
    | Inr (Inl (_, _, _, t, _, _)) \<Rightarrow> 2 * size t + 1
    | Inr (Inr (_, _, _, t, _)) \<Rightarrow> 2 * size t + 1)") auto

declare check_with_remaining_fuel.simps [simp del] expect_sort_with_remaining_fuel.simps [simp del]

section \<open>Typing\<close>

text \<open>
  The constraints of a declaration hold at given levels when every valuation of the
  universe context, read through the levels, satisfies them.
\<close>

definition constraints_hold_at ::
  "env \<Rightarrow> universe_context \<Rightarrow> decl \<Rightarrow> level list \<Rightarrow> bool" where
  "constraints_hold_at E u d levels \<longleftrightarrow>
     (\<exists>ps cs. decl_constraint_context E d = Inr (ps, cs) \<and>
       (\<forall>\<rho>. context_holds u \<rho> \<longrightarrow>
         list_all (constraint_holds (subst_val (decl_universe_params d) levels \<rho>)) cs))"

inductive has_type ::
  "env \<Rightarrow> universe_context \<Rightarrow> expr list \<Rightarrow> expr \<Rightarrow> expr \<Rightarrow> bool" for E u where
  T_sort: "level_wf (uctx_params u) l \<Longrightarrow> has_type E u \<Gamma> (Sort l) (Sort (LSucc l))"
| T_var: "i < length \<Gamma> \<Longrightarrow>
    has_type E u \<Gamma> (BVar i) (lift (Suc i) 0 (\<Gamma> ! (length \<Gamma> - 1 - i)))"
| T_const: "decls E n = Some d \<Longrightarrow> length levels = length (decl_universe_params d) \<Longrightarrow>
    \<forall>l \<in> set levels. level_wf (uctx_params u) l \<Longrightarrow> constraints_hold_at E u d levels \<Longrightarrow>
    decl_ty d = Inr t0 \<Longrightarrow> subst_levels_expr t0 (decl_universe_params d) levels = Inr t \<Longrightarrow>
    has_type E u \<Gamma> (Const n levels) t"
| T_pi: "has_type E u \<Gamma> a (Sort k) \<Longrightarrow> has_type E u (\<Gamma> @ [a]) b (Sort l) \<Longrightarrow>
    has_type E u \<Gamma> (Pi x a b) (Sort (LIMax k l))"
| T_lam: "has_type E u \<Gamma> a (Sort k) \<Longrightarrow> has_type E u (\<Gamma> @ [a]) b t \<Longrightarrow>
    has_type E u \<Gamma> (Lam x a b) (Pi x a t)"
| T_app: "has_type E u \<Gamma> f (Pi x t b) \<Longrightarrow> has_type E u \<Gamma> a t \<Longrightarrow>
    has_type E u \<Gamma> (App f a) (bsubst b 0 a)"
| T_conv: "has_type E u \<Gamma> e t \<Longrightarrow> conv E t t' \<Longrightarrow> has_type E u \<Gamma> e t'"

section \<open>Constants\<close>

lemma declaration_constraint_levels_Inr:
  assumes "declaration_constraint_levels n ps ls cps = Inr cls"
  shows "length cls = length cps \<and>
    (\<forall>i < length cps. \<exists>j < length ls. position (\<lambda>p. p = cps ! i) ps = Some j \<and> cls ! i = ls ! j)"
  using assms unfolding declaration_constraint_levels_def
  by (auto simp: traverse_eq_Inr list_all2_conv_all_nth rbind_eq_Inr get_at_eq_Some)

lemma subst_val_constraint_levels:
  assumes "declaration_constraint_levels n ps ls cps = Inr cls" and "m \<in> set cps"
  shows "subst_val cps cls \<rho> m = subst_val ps ls \<rho> m"
proof -
  obtain i where i: "position (\<lambda>p. p = m) cps = Some i"
    using assms(2) by (cases "position (\<lambda>p. p = m) cps") (auto simp: position_None)
  from position_Some [OF i] declaration_constraint_levels_Inr [OF assms(1)] obtain j where
    "position (\<lambda>p. p = m) ps = Some j" "cls ! i = ls ! j" by auto
  with i show ?thesis by (simp add: subst_val_def)
qed

lemma constraint_holds_cong:
  assumes "\<And>m. m \<in> level_params (uc_lhs c) \<union> level_params (uc_rhs c) \<Longrightarrow> \<rho> m = \<sigma> m"
  shows "constraint_holds \<rho> c = constraint_holds \<sigma> c"
  using assms level_val_cong [of "uc_lhs c" \<rho> \<sigma>] level_val_cong [of "uc_rhs c" \<rho> \<sigma>]
  by (cases "uc_relation c") (simp_all add: constraint_holds_def)

lemma constraints_wf_params:
  assumes "ensure_universe_constraints_wf ps cs = Inr ()" and "c \<in> set cs"
  shows "level_params (uc_lhs c) \<union> level_params (uc_rhs c) \<subseteq> set ps"
  using assms
  by (auto simp: ensure_universe_constraints_wf_def rbind_eq_Inr check_all_eq_Inr
      ensure_canonical_level_def ensure_level_wf_iff level_wf_def)

lemma check_constant_constraints_hold:
  assumes "check_constant_constraints E u n levels d = Inr ()" and "context_ok u"
  shows "constraints_hold_at E u d levels"
proof -
  from assms(1) obtain cps cs where ctx: "decl_constraint_context E d = Inr (cps, cs)"
    by (auto simp: check_constant_constraints_def elim!: rbind_InrE)
  have "list_all (constraint_holds (subst_val (decl_universe_params d) levels \<rho>)) cs"
    if \<rho>: "context_holds u \<rho>" for \<rho>
  proof (cases "cs = []")
    case False
    with assms(1) ctx obtain cls obs where
      cls: "declaration_constraint_levels n (decl_universe_params d) levels cps = Inr cls"
      and obs: "substitute_constraints u cps cls cs = Inr obs" "universe_entails u obs = Inr ()"
      by (auto simp: check_constant_constraints_def rbind_eq_Inr)
    from obs(1) have wf: "ensure_universe_constraints_wf cps cs = Inr ()"
      by (auto simp: substitute_constraints_def rbind_eq_Inr validate_universe_params_iff)
    from universe_entails_models [OF assms(2) obs(2) \<rho>] substitute_constraints_models [OF obs(1)]
    have "list_all (constraint_holds (subst_val cps cls \<rho>)) cs" by blast
    moreover have "constraint_holds (subst_val cps cls \<rho>) c
        = constraint_holds (subst_val (decl_universe_params d) levels \<rho>) c" if "c \<in> set cs" for c
      using constraints_wf_params [OF wf that] subst_val_constraint_levels [OF cls]
      by (intro constraint_holds_cong) blast
    ultimately show ?thesis by (simp add: list_all_iff)
  qed simp
  with ctx show ?thesis by (auto simp: constraints_hold_at_def)
qed

section \<open>Soundness\<close>

definition ctx_small :: "ctx \<Rightarrow> bool" where
  "ctx_small c \<longleftrightarrow> (\<forall>t \<in> set (locals c). small t)"

definition derives :: "env \<Rightarrow> universe_context \<Rightarrow> ctx \<Rightarrow> expr \<Rightarrow> expr \<Rightarrow> bool" where
  "derives E u c e t \<longleftrightarrow> has_type E u (locals c) e t \<and> small t"

lemma locals_push [simp]: "locals (push_assumption c t) = locals c @ [t]"
  by (simp add: push_assumption_def)

lemma locals_new [simp]: "locals ctx_new = []"
  by (simp add: ctx_new_def)

lemma ctx_small_new [simp]: "ctx_small ctx_new"
  by (simp add: ctx_small_def)

lemma ctx_small_push [simp]: "ctx_small (push_assumption c t) \<longleftrightarrow> ctx_small c \<and> small t"
  by (auto simp: ctx_small_def)

text \<open>
  What the checker needs from normalization and conversion: an answer stays inside
  convertibility and keeps indices small. The two checkers differ in how these calls are
  fuelled; the steps of their soundness proofs that depend on the calls are lemmas of this
  interface.
\<close>

locale conversion_oracle =
  fixes normalizes :: "env \<Rightarrow> ctx \<Rightarrow> expr \<Rightarrow> expr \<Rightarrow> bool"
    and equates :: "env \<Rightarrow> ctx \<Rightarrow> expr \<Rightarrow> expr \<Rightarrow> bool"
  assumes normalizes_conv:
      "env_small E \<Longrightarrow> small t \<Longrightarrow> normalizes E c t r \<Longrightarrow> conv E t r \<and> small r"
    and equates_conv:
      "env_small E \<Longrightarrow> small l \<Longrightarrow> small r \<Longrightarrow> equates E c l r \<Longrightarrow> conv E l r"
begin

lemma sort_step:
  assumes "env_small E" and "derives E u c e t" and "normalizes E c t w" and "as_sort w = Inr l"
  shows "has_type E u (locals c) e (Sort l)"
proof -
  from assms(4) have "w = Sort l" by (auto simp: as_sort_def split: expr.splits)
  with assms normalizes_conv [of E t c w] show ?thesis
    by (auto simp: derives_def intro: T_conv)
qed

lemma fun_step:
  assumes "env_small E" and "derives E u c f t" and "normalizes E c t w" and "as_pi w = Inr (a, b)"
  shows "small a \<and> small b \<and> (\<exists>x. has_type E u (locals c) f (Pi x a b))"
proof -
  from assms(4) obtain x where "w = Pi x a b" by (auto simp: as_pi_def split: expr.splits)
  with assms normalizes_conv [of E t c w] show ?thesis
    by (auto simp: derives_def intro: T_conv)
qed

lemma arg_step:
  assumes "env_small E" and "derives E u c e t" and "equates E c t t'" and "small t'"
  shows "derives E u c e t'"
  using assms equates_conv [of E t t' c] by (auto simp: derives_def intro: T_conv)

end

lemma whnf_answer:
  "whnf E c t = Inr r \<Longrightarrow> env_small E \<Longrightarrow> small t \<Longrightarrow> conv E t r \<and> small r"
  using whnf_conv [of E c t whnf_fuel_limit RWhnf r]
  by (cases "whnf_with_remaining_fuel E c t whnf_fuel_limit RWhnf") (auto simp: whnf_def)

lemma is_defeq_answer:
  "is_defeq E c l r = Inr True \<Longrightarrow> env_small E \<Longrightarrow> small l \<Longrightarrow> small r \<Longrightarrow> conv E l r"
  using is_defeq_conv [of E c l r defeq_fuel_limit]
  by (cases "is_defeq_with_remaining_fuel E c l r defeq_fuel_limit") (auto simp: is_defeq_def)

interpretation direct: conversion_oracle
  "\<lambda>E c t r. whnf E c t = Inr r" "\<lambda>E c l r. is_defeq E c l r = Inr True"
  by unfold_locales (auto dest: whnf_answer is_defeq_answer)

interpretation shared: conversion_oracle
  "\<lambda>E c t r. \<exists>n m. whnf_with_remaining_fuel E c t n RWhnf = (Inr r, m)"
  "\<lambda>E c l r. \<exists>n m. is_defeq_with_remaining_fuel E c l r n = (Inr True, m)"
  by unfold_locales (auto dest: whnf_conv is_defeq_conv)

lemma lookup_type_derives:
  assumes "lookup_type c i = Inr t" and "ctx_small c" and "i < idx_limit"
  shows "derives E u c (BVar i) t"
proof -
  from assms(1) obtain a where i: "i < length (locals c)"
    and a: "i32_add (as_i32 i) 1 = Inr a" "shift (locals c ! (length (locals c) - 1 - i)) a 0 = Inr t"
    by (auto simp: lookup_type_def ctx_lookup_def rbind_eq_Inr split: if_splits)
  from a(1) assms(3) have "a = int (Suc i)" by (simp add: as_i32_small i32_add_Inr)
  moreover have "small (locals c ! (length (locals c) - 1 - i))"
    using assms(2) i by (simp add: ctx_small_def)
  ultimately have "t = lift (Suc i) 0 (locals c ! (length (locals c) - 1 - i))" "small t"
    using shift_lift [of _ "Suc i" 0 t] a(2) by auto
  with i T_var [of i "locals c" E u] show ?thesis by (simp add: derives_def)
qed

lemma infer_const_derives:
  assumes "infer_const_type E u n levels = Inr t" and "env_small E" and "context_ok u"
  shows "derives E u c (Const n levels) t"
  using assms(1)
proof (rule infer_const_typeE)
  fix d t0
  assume d: "decls E n = Some d" "length levels = length (decl_universe_params d)"
    "\<forall>l \<in> set levels. level_wf (uctx_params u) l" "check_constant_constraints E u n levels d = Inr ()"
    and t: "decl_ty d = Inr t0" "subst_levels_expr t0 (decl_universe_params d) levels = Inr t"
  from d(1) assms(2) t(1) have "small t0" by (auto simp: env_small_def intro: decl_small_ty)
  with subst_levels_small [OF t(2)] have "small t" by simp
  with d t check_constant_constraints_hold [OF d(4) assms(3)] show ?thesis
    by (auto simp: derives_def intro: T_const)
qed

lemma pi_derives:
  assumes "has_type E u (locals c) a (Sort k)" and "has_type E u (locals c @ [a]) b (Sort l)"
  shows "derives E u c (Pi x a b) (Sort (level_imax k l))"
proof -
  have "conv E (Sort (LIMax k l)) (Sort (level_imax k l))"
    by (rule conv_sort) (simp add: level_eq_iff level_imax_def del: normalize_level_simps)
  with T_pi [OF assms, of x] show ?thesis by (auto simp: derives_def intro: T_conv)
qed

lemma app_derives:
  assumes "has_type E u (locals c) f (Pi x t b)" and "derives E u c a t"
    and "instantiate b a = Inr r" and "small b" and "small a"
  shows "derives E u c (App f a) r"
  using assms instantiate_bsubst [OF assms(4,5,3)] by (auto simp: derives_def intro: T_app)

theorem infer_check_sound:
  assumes "env_small E" and "context_ok u"
  shows "ctx_small c \<Longrightarrow> small e \<Longrightarrow> infer E u c e = Inr t \<Longrightarrow> derives E u c e t"
    and "ctx_small c \<Longrightarrow> small e \<Longrightarrow> small t' \<Longrightarrow> check E u c e t' = Inr () \<Longrightarrow> derives E u c e t'"
    and "ctx_small c \<Longrightarrow> small e \<Longrightarrow> expect_sort E u c e = Inr l \<Longrightarrow>
      has_type E u (locals c) e (Sort l)"
proof (induction E\<equiv>E u\<equiv>u c e and E\<equiv>E u\<equiv>u c e t' and E\<equiv>E u\<equiv>u c e
    arbitrary: t and t' and l rule: infer_check_expect_sort.induct)
  case (1 c l)
  then show ?case by (auto simp: derives_def rbind_eq_Inr ensure_level_wf_iff intro: T_sort)
next
  case (2 c i)
  then show ?case by (auto intro: lookup_type_derives)
next
  case (3 c n levels)
  then show ?case using assms by (auto intro: infer_const_derives)
next
  case (4 c x a b)
  from 4(5) obtain k l where "expect_sort E u c a = Inr k"
    "expect_sort E u (push_assumption c a) b = Inr l" "t = Sort (level_imax k l)"
    by (auto elim!: rbind_InrE)
  with 4 show ?case by (auto intro!: pi_derives)
next
  case (5 c x a b)
  from 5(5) obtain k bt where "expect_sort E u c a = Inr k"
    "infer E u (push_assumption c a) b = Inr bt" "t = Pi x a bt"
    by (auto elim!: rbind_InrE)
  with 5 show ?case by (auto simp: derives_def intro: T_lam)
next
  case (6 c f a)
  from 6(5) obtain ft w ta b where ft: "infer E u c f = Inr ft" and w: "whnf E c ft = Inr w"
    and p: "as_pi w = Inr (ta, b)" and ck: "check E u c a ta = Inr ()" and r: "instantiate b a = Inr t"
    by (auto elim!: rbind_InrE)
  from 6(4) have sm: "small f" "small a" by simp_all
  from 6(1) [OF 6(3) sm(1) ft] have "derives E u c f ft" .
  from direct.fun_step [OF assms(1) this w p] obtain x where
    f: "small ta" "small b" "has_type E u (locals c) f (Pi x ta b)" by blast
  from 6(2) [OF ft w p refl 6(3) sm(2) f(1) ck] show ?case
    using app_derives [OF f(3) _ r f(2) sm(2)] by blast
next
  case (7 c e t')
  from 7(5) obtain s where "infer E u c e = Inr s" "is_defeq E c s t' = Inr True"
    by (auto simp: check.simps elim!: rbind_InrE split: if_splits)
  with 7 show ?case by (auto intro: direct.arg_step [OF assms(1)])
next
  case (8 c e)
  from 8(4) obtain s w where "infer E u c e = Inr s" "whnf E c s = Inr w" "as_sort w = Inr l"
    by (auto simp: expect_sort.simps elim!: rbind_InrE)
  with 8 show ?case by (auto intro: direct.sort_step [OF assms(1)])
qed

lemma on_whnf_fuel_Inr: "on_whnf_fuel m s = (Inr r, s') \<Longrightarrow> \<exists>n. m (fst s) = (Inr r, n)"
  by (auto simp: on_whnf_fuel_def split: prod.splits)

lemma on_conversion_fuel_Inr: "on_conversion_fuel m s = (Inr r, s') \<Longrightarrow> \<exists>n. m (snd s) = (Inr r, n)"
  by (auto simp: on_conversion_fuel_def split: prod.splits)

theorem shared_fuel_sound:
  assumes "env_small E" and "context_ok u"
  shows "ctx_small c \<Longrightarrow> small e \<Longrightarrow> infer_with_remaining_fuel E u c e s = (Inr t, s') \<Longrightarrow>
      derives E u c e t"
    and "ctx_small c \<Longrightarrow> small e \<Longrightarrow> small t' \<Longrightarrow>
      check_with_remaining_fuel E u c e t' s = (Inr (), s') \<Longrightarrow> derives E u c e t'"
    and "ctx_small c \<Longrightarrow> small e \<Longrightarrow>
      expect_sort_with_remaining_fuel E u c e s = (Inr l, s') \<Longrightarrow>
      has_type E u (locals c) e (Sort l)"
proof (induction E\<equiv>E u\<equiv>u c e s and E\<equiv>E u\<equiv>u c e t' s and E\<equiv>E u\<equiv>u c e s
    arbitrary: t s' and t' s' and l s'
    rule: infer_with_remaining_fuel_check_with_remaining_fuel_expect_sort_with_remaining_fuel.induct)
  case (1 c l s)
  then show ?case
    by (auto simp: derives_def fbind_eq_Inr ensure_level_wf_iff intro: T_sort)
next
  case (2 c i s)
  then show ?case by (auto intro: lookup_type_derives)
next
  case (3 c n levels s)
  then show ?case using assms by (auto intro: infer_const_derives)
next
  case (4 c x a b s)
  from 4(5) obtain k s1 l where "expect_sort_with_remaining_fuel E u c a s = (Inr k, s1)"
    "expect_sort_with_remaining_fuel E u (push_assumption c a) b s1 = (Inr l, s')"
    "t = Sort (level_imax k l)"
    by (auto elim!: fbind_InrE)
  with 4 show ?case by (auto intro!: pi_derives)
next
  case (5 c x a b s)
  from 5(5) obtain k s1 bt where "expect_sort_with_remaining_fuel E u c a s = (Inr k, s1)"
    "infer_with_remaining_fuel E u (push_assumption c a) b s1 = (Inr bt, s')" "t = Pi x a bt"
    by (auto elim!: fbind_InrE)
  with 5 show ?case by (auto simp: derives_def intro: T_lam)
next
  case (6 c f a s)
  from 6(5) obtain ft s1 w s2 p s3 where ft: "infer_with_remaining_fuel E u c f s = (Inr ft, s1)"
    and w: "on_whnf_fuel (\<lambda>n. whnf_with_remaining_fuel E c ft n RWhnf) s1 = (Inr w, s2)"
    and p: "as_pi w = Inr p" and ck: "check_with_remaining_fuel E u c a (fst p) s2 = (Inr (), s3)"
    and r: "instantiate (snd p) a = Inr t"
    by (auto elim!: fbind_InrE)
  from 6(4) have sm: "small f" "small a" by simp_all
  from 6(1) [OF 6(3) sm(1) ft] have d: "derives E u c f ft" .
  from on_whnf_fuel_Inr [OF w] have "\<exists>n m. whnf_with_remaining_fuel E c ft n RWhnf = (Inr w, m)"
    by blast
  from shared.fun_step [OF assms(1) d this, of "fst p" "snd p"] p obtain x where
    f: "small (fst p)" "small (snd p)" "has_type E u (locals c) f (Pi x (fst p) (snd p))"
    by auto
  have "derives E u c a (fst p)"
    using 6(2) [OF ft w _ 6(3) sm(2) f(1) ck] p by simp
  then show ?case using app_derives [OF f(3) _ r f(2) sm(2)] by blast
next
  case (7 c e t' s)
  from 7(5) obtain ty s1 where ty: "infer_with_remaining_fuel E u c e s = (Inr ty, s1)"
    and "\<exists>s2. on_conversion_fuel (is_defeq_with_remaining_fuel E c ty t') s1 = (Inr True, s2)"
    by (auto simp: check_with_remaining_fuel.simps elim!: fbind_InrE split: if_splits)
  then have "\<exists>n m. is_defeq_with_remaining_fuel E c ty t' n = (Inr True, m)"
    by (blast dest: on_conversion_fuel_Inr)
  with 7 ty show ?case by (blast intro: shared.arg_step [OF assms(1)])
next
  case (8 c e s)
  from 8(4) obtain ty s1 w s2 where ty: "infer_with_remaining_fuel E u c e s = (Inr ty, s1)"
    and w: "on_whnf_fuel (\<lambda>n. whnf_with_remaining_fuel E c ty n RWhnf) s1 = (Inr w, s2)"
    and l: "as_sort w = Inr l"
    by (auto simp: expect_sort_with_remaining_fuel.simps elim!: fbind_InrE)
  from on_whnf_fuel_Inr [OF w] have "\<exists>n m. whnf_with_remaining_fuel E c ty n RWhnf = (Inr w, m)"
    by blast
  with 8 ty l show ?case by (blast intro: shared.sort_step [OF assms(1)])
qed

section \<open>Agreement of the two checkers\<close>

text \<open>
  An answer of the checker on shared fuel that starts with no more fuel than one call of the
  other checker gets is the answer of the other checker.
\<close>

lemma whnf_from_shared:
  assumes "on_whnf_fuel (\<lambda>n. whnf_with_remaining_fuel E c t n RWhnf) s = (Inr r, s')"
    and "fst s \<le> whnf_fuel_limit"
  shows "whnf E c t = Inr r"
proof -
  from on_whnf_fuel_Inr [OF assms(1)] obtain n where
    "whnf_with_remaining_fuel E c t (fst s) RWhnf = (Inr r, n)" by blast
  with whnf_fuel.run_more [of "(E, c, RWhnf, t)" "fst s" whnf_fuel_limit, OF _ assms(2)] show ?thesis
    by (simp add: whnf_def)
qed

lemma is_defeq_from_shared:
  assumes "on_conversion_fuel (is_defeq_with_remaining_fuel E c l r) s = (Inr b, s')"
    and "snd s \<le> defeq_fuel_limit"
  shows "is_defeq E c l r = Inr b"
proof -
  from on_conversion_fuel_Inr [OF assms(1)] obtain n where
    "is_defeq_with_remaining_fuel E c l r (snd s) = (Inr b, n)" by blast
  with defeq_fuel.run_more [of "(E, c, l, r)" "snd s" defeq_fuel_limit, OF _ assms(2)] show ?thesis
    by (simp add: is_defeq_def)
qed

lemma on_fuel_le:
  "on_whnf_fuel (\<lambda>n. whnf_with_remaining_fuel E c t n RWhnf) s = (r, s') \<Longrightarrow>
     fst s' \<le> fst s \<and> snd s' = snd s"
  "on_conversion_fuel (is_defeq_with_remaining_fuel E c l k) s = (q, s') \<Longrightarrow>
     fst s' = fst s \<and> snd s' \<le> snd s"
  using whnf_fuel.run_le [of "(E, c, RWhnf, t)" "fst s"] defeq_fuel.run_le [of "(E, c, l, k)" "snd s"]
  by (auto simp: on_whnf_fuel_def on_conversion_fuel_def split: prod.splits)

definition within_limits :: "nat \<times> nat \<Rightarrow> bool" where
  "within_limits s \<longleftrightarrow> fst s \<le> whnf_fuel_limit \<and> snd s \<le> defeq_fuel_limit"

lemma shared_agrees:
  shows "infer_with_remaining_fuel E u c e s = (Inr t, s') \<Longrightarrow> within_limits s \<Longrightarrow>
      infer E u c e = Inr t \<and> within_limits s'"
    and "check_with_remaining_fuel E u c e t' s = (Inr (), s') \<Longrightarrow> within_limits s \<Longrightarrow>
      check E u c e t' = Inr () \<and> within_limits s'"
    and "expect_sort_with_remaining_fuel E u c e s = (Inr l, s') \<Longrightarrow> within_limits s \<Longrightarrow>
      expect_sort E u c e = Inr l \<and> within_limits s'"
proof (induction E u c e s and E u c e t' s and E u c e s
    arbitrary: t s' and s' and l s'
    rule: infer_with_remaining_fuel_check_with_remaining_fuel_expect_sort_with_remaining_fuel.induct)
  case (4 E u c x a b s)
  from 4(3) obtain k s1 l where "expect_sort_with_remaining_fuel E u c a s = (Inr k, s1)"
    "expect_sort_with_remaining_fuel E u (push_assumption c a) b s1 = (Inr l, s')"
    "t = Sort (level_imax k l)" by (auto elim!: fbind_InrE)
  with 4 show ?case by fastforce
next
  case (5 E u c x a b s)
  from 5(3) obtain k s1 bt where "expect_sort_with_remaining_fuel E u c a s = (Inr k, s1)"
    "infer_with_remaining_fuel E u (push_assumption c a) b s1 = (Inr bt, s')" "t = Pi x a bt"
    by (auto elim!: fbind_InrE)
  with 5 show ?case by fastforce
next
  case (6 E u c f a s)
  from 6(3) obtain ft s1 w s2 p where ft: "infer_with_remaining_fuel E u c f s = (Inr ft, s1)"
    and w: "on_whnf_fuel (\<lambda>n. whnf_with_remaining_fuel E c ft n RWhnf) s1 = (Inr w, s2)"
    and p: "as_pi w = Inr p" and ck: "check_with_remaining_fuel E u c a (fst p) s2 = (Inr (), s')"
    and r: "instantiate (snd p) a = Inr t"
    by (auto elim!: fbind_InrE)
  from 6(1) [OF ft 6(4)] have f: "infer E u c f = Inr ft" "within_limits s1" by blast+
  with whnf_from_shared [OF w] on_fuel_le(1) [OF w] have n: "whnf E c ft = Inr w" "within_limits s2"
    by (auto simp: within_limits_def)
  from 6(2) [OF ft w _ ck n(2)] p
  have "check E u c a (fst p) = Inr () \<and> within_limits s'" by simp
  with f n p r show ?case by (cases p) simp
next
  case (7 E u c e t' s)
  from 7(2) obtain ty s1 b where ty: "infer_with_remaining_fuel E u c e s = (Inr ty, s1)"
    and d: "on_conversion_fuel (is_defeq_with_remaining_fuel E c ty t') s1 = (Inr True, s')"
    by (auto simp: check_with_remaining_fuel.simps elim!: fbind_InrE split: if_splits)
  from 7(1) [OF ty 7(3)] have "infer E u c e = Inr ty" "within_limits s1" by blast+
  with is_defeq_from_shared [OF d] on_fuel_le(2) [OF d] show ?case
    by (auto simp: check.simps within_limits_def)
next
  case (8 E u c e s)
  from 8(2) obtain ty s1 w where ty: "infer_with_remaining_fuel E u c e s = (Inr ty, s1)"
    and w: "on_whnf_fuel (\<lambda>n. whnf_with_remaining_fuel E c ty n RWhnf) s1 = (Inr w, s')"
    and l: "as_sort w = Inr l"
    by (auto simp: expect_sort_with_remaining_fuel.simps elim!: fbind_InrE)
  from 8(1) [OF ty 8(3)] have "infer E u c e = Inr ty" "within_limits s1" by blast+
  with whnf_from_shared [OF w] on_fuel_le(1) [OF w] l show ?case
    by (auto simp: expect_sort.simps within_limits_def)
qed (auto elim!: fbind_InrE)

section \<open>Properties of the checker\<close>

text \<open>
  C4: type inference is sound. In an environment, context and term with indices below the
  cast limit, and in a universe context that was built, an inferred type is derivable in the
  declarative typing judgement.
\<close>

theorem infer_sound:
  assumes "env_small E" and "universe_context_new ps cs = Inr u" and "ctx_small c" and "small e"
    and "infer E u c e = Inr t"
  shows "has_type E u (locals c) e t"
  using infer_check_sound(1) [OF assms(1) _ assms(3-5)] universe_context_new_ok [OF assms(2)]
  by (auto simp: derives_def)

definition id_term :: expr where
  "id_term = Lam ''A'' (Sort (LParam ''u'')) (Lam ''x'' (BVar 0) (BVar 0))"

definition id_type :: expr where
  "id_type = Pi ''A'' (Sort (LParam ''u'')) (Pi ''x'' (BVar 0) (BVar 1))"

definition u_context :: universe_context where
  "u_context = projr (universe_context_new [''u''] [])"

lemma u_context_new: "universe_context_new [''u''] [] = Inr u_context"
  by code_simp

theorem infer_sound_witness: "has_type env_new u_context [] id_term id_type"
proof -
  have i: "infer env_new u_context ctx_new id_term = Inr id_type" by code_simp
  have s: "small id_term" by code_simp
  have e: "env_small env_new" by (simp add: env_small_def)
  from infer_sound [OF e u_context_new _ s i] show ?thesis by simp
qed

text \<open>
  type checking is sound, and so is the test that a term is a type.
\<close>

theorem check_sound:
  assumes "env_small E" and "universe_context_new ps cs = Inr u" and "ctx_small c" and "small e"
  shows "(small t \<longrightarrow> check E u c e t = Inr () \<longrightarrow> has_type E u (locals c) e t) \<and>
    (expect_sort E u c e = Inr l \<longrightarrow> has_type E u (locals c) e (Sort l))"
  using infer_check_sound(2,3) [OF assms(1) _ assms(3,4)] universe_context_new_ok [OF assms(2)]
  by (auto simp: derives_def)

theorem check_sound_witness:
  "has_type env_new u_context [] id_term
     (Pi ''B'' (Sort (LMax (LParam ''u'') LZero)) (Pi ''y'' (BVar 0) (BVar 1)))"
proof -
  let ?t = "Pi ''B'' (Sort (LMax (LParam ''u'') LZero)) (Pi ''y'' (BVar 0) (BVar 1))"
  have i: "check env_new u_context ctx_new id_term ?t = Inr ()" by code_simp
  have s: "small id_term" "small ?t" by code_simp+
  have e: "env_small env_new" by (simp add: env_small_def)
  from check_sound [OF e u_context_new _ s(1), of ctx_new ?t] i s(2) show ?thesis by simp
qed

text \<open>
  the checker on shared fuel agrees with the checker that gives every call its own fuel:
  whatever it infers when it starts within the limits, the other checker infers too.
\<close>

theorem shared_fuel_infers_the_same:
  assumes "infer_with_remaining_fuel E u c e (n, m) = (Inr t, s')"
    and "n \<le> 100000" and "m \<le> 5000000"
  shows "infer E u c e = Inr t"
  using shared_agrees(1) [OF assms(1)] assms(2,3)
  by (simp add: within_limits_def whnf_fuel_limit_def defeq_fuel_limit_def)

theorem shared_fuel_infers_the_same_witness:
  "infer env_new u_context ctx_new id_term = Inr id_type"
proof -
  have "fst (infer_with_remaining_fuel env_new u_context ctx_new id_term (100, 100)) = Inr id_type"
    by code_simp
  then obtain s where
    "infer_with_remaining_fuel env_new u_context ctx_new id_term (100, 100) = (Inr id_type, s)"
    by (cases "infer_with_remaining_fuel env_new u_context ctx_new id_term (100, 100)") auto
  from shared_fuel_infers_the_same [OF this] show ?thesis by simp
qed

text \<open>
  C20: a constant is used only where its universe constraints hold. When the type of a
  constant is inferred in a context built from constraints without an assumed \<^verbatim>\<open>IMax\<close>, the
  constraints of its declaration hold at the given levels under every assignment that
  satisfies the constraints of the context.
\<close>

theorem constant_constraints_sound:
  assumes "universe_context_new ps cs = Inr u" and "list_all exact_constraint cs"
    and "infer_const_type E u n levels = Inr t" and "decls E n = Some d"
    and "decl_constraint_context E d = Inr (qs, ds)" and "list_all (constraint_holds \<rho>) cs"
  shows "list_all (constraint_holds (subst_val (decl_universe_params d) levels \<rho>)) ds"
  using assms(3)
proof (rule infer_const_typeE)
  fix d' assume d': "decls E n = Some d'" "check_constant_constraints E u n levels d' = Inr ()"
  have ok: "context_ok u" using universe_context_new_ok [OF assms(1)] by blast
  from check_constant_constraints_hold [OF d'(2) ok] d'(1) assms(4,5)
    exact_context_holds [OF assms(1,2)] assms(6)
  show ?thesis by (auto simp: constraints_hold_at_def)
qed

definition constrained_axiom :: decl where
  "constrained_axiom =
     AxiomConstrained ''k'' [''a'', ''b''] [constraint_le (LSucc (LParam ''a'')) (LParam ''b'')] (Sort LZero)"

theorem constant_constraints_sound_witness:
  "list_all (constraint_holds (subst_val [''a'', ''b''] [LParam ''u'', LParam ''v''] sample_valuation))
     [constraint_le (LSucc (LParam ''a'')) (LParam ''b'')]"
proof -
  let ?E = "insert_decl ''k'' constrained_axiom env_new"
  have x: "list_all exact_constraint sample_constraints" by code_simp
  have i: "infer_const_type ?E sample_context ''k'' [LParam ''u'', LParam ''v''] = Inr (Sort LZero)"
    by code_simp
  have d: "decls ?E ''k'' = Some constrained_axiom" by simp
  have c: "decl_constraint_context ?E constrained_axiom =
      Inr ([''a'', ''b''], [constraint_le (LSucc (LParam ''a'')) (LParam ''b'')])" by code_simp
  have v: "list_all (constraint_holds sample_valuation) sample_constraints" by code_simp
  from constant_constraints_sound [OF sample_context_new x i d c v] show ?thesis
    by (simp add: constrained_axiom_def)
qed

end
