(* ===== verification/Kernel_Extension.thy ===== *)
theory Kernel_Extension
  imports Kernel_Typing
begin

text \<open>
  Growing environments. An environment extends another when it keeps every declaration
  and every mutual group of a declared name. Convertibility and typing survive extension,
  so that a declaration that was well typed when it was admitted stays so.
\<close>

text \<open>
  A declaration is refined by itself and, when it is an opaque definition, by the same
  definition made reducible.
\<close>

definition exposed :: "decl \<Rightarrow> decl" where
  "exposed d =
     (case d of
        Def n ps t v Opaque \<Rightarrow> Def n ps t v Reducible
      | DefConstrained n ps cs t v Opaque \<Rightarrow> DefConstrained n ps cs t v Reducible
      | _ \<Rightarrow> d)"

definition has_recursor :: "env \<Rightarrow> string \<Rightarrow> bool" where
  "has_recursor E n \<longleftrightarrow>
     decls E n \<noteq> None \<and> (\<exists>m k ps t rules. decls E m = Some (Recursor k ps t n rules))"

definition env_extends :: "env \<Rightarrow> env \<Rightarrow> bool" where
  "env_extends E E' \<longleftrightarrow>
     (\<forall>n d. decls E n = Some d \<longrightarrow> decls E' n = Some d \<or> decls E' n = Some (exposed d)) \<and>
     (\<forall>n. decls E n \<noteq> None \<longrightarrow>
        inductive_constraint_context E' n = inductive_constraint_context E n) \<and>
     (\<forall>n. has_recursor E n \<longrightarrow> mutual_groups E' n = mutual_groups E n)"

definition is_inductive_name :: "env \<Rightarrow> string \<Rightarrow> bool" where
  "is_inductive_name E n \<longleftrightarrow> is_ok (inductive_data E n)"

text \<open>Every family of a recorded mutual group is a declared inductive.\<close>

definition groups_ok :: "env \<Rightarrow> bool" where
  "groups_ok E \<longleftrightarrow>
     (\<forall>n g. mutual_groups E n = Some g \<longrightarrow>
        decls E n \<noteq> None \<and> list_all (is_inductive_name E) (grp_inductives g))"

lemma exposed_simps [simp]:
  "exposed (exposed d) = exposed d" "decl_name (exposed d) = decl_name d"
  "decl_universe_params (exposed d) = decl_universe_params d"
  "decl_universe_constraints (exposed d) = decl_universe_constraints d"
  "decl_ty (exposed d) = decl_ty d"
  by (auto simp: exposed_def split: decl.split reducibility.split)

lemma exposed_rigid [simp]:
  "exposed (Axiom n ps t) = Axiom n ps t"
  "exposed (Inductive n ps t data) = Inductive n ps t data"
  "exposed (Constructor n ps t ind) = Constructor n ps t ind"
  "exposed (Recursor n ps t ind rules) = Recursor n ps t ind rules"
  by (simp_all add: exposed_def)

lemma env_extends_decl:
  "env_extends E E' \<Longrightarrow> decls E n = Some d \<Longrightarrow> decls E' n = Some d \<or> decls E' n = Some (exposed d)"
  by (simp add: env_extends_def)

lemma env_extends_rigid:
  "env_extends E E' \<Longrightarrow> decls E n = Some d \<Longrightarrow> exposed d = d \<Longrightarrow> decls E' n = Some d"
  using env_extends_decl by metis

lemma env_extends_declared: "env_extends E E' \<Longrightarrow> decls E n \<noteq> None \<Longrightarrow> decls E' n \<noteq> None"
  using env_extends_decl by fastforce

lemma env_extends_group:
  "env_extends E E' \<Longrightarrow> has_recursor E n \<Longrightarrow> mutual_groups E' n = mutual_groups E n"
  by (simp add: env_extends_def)

lemma has_recursor_extends: "env_extends E E' \<Longrightarrow> has_recursor E n \<Longrightarrow> has_recursor E' n"
  unfolding has_recursor_def using env_extends_rigid env_extends_declared exposed_rigid(4) by metis

lemma env_extends_refl [simp]: "env_extends E E"
  by (simp add: env_extends_def)

lemma env_extends_trans:
  assumes "env_extends E E'" and "env_extends E' E''"
  shows "env_extends E E''"
  unfolding env_extends_def
proof (intro conjI allI impI)
  fix n d assume "decls E n = Some d"
  with env_extends_decl [OF assms(1) this] env_extends_decl [OF assms(2), of n]
  show "decls E'' n = Some d \<or> decls E'' n = Some (exposed d)" by auto
next
  fix n assume "decls E n \<noteq> None"
  with assms env_extends_declared [OF assms(1) this]
  show "inductive_constraint_context E'' n = inductive_constraint_context E n"
    by (simp add: env_extends_def)
next
  fix n assume "has_recursor E n"
  with assms has_recursor_extends [OF assms(1) this]
  show "mutual_groups E'' n = mutual_groups E n" by (simp add: env_extends_group)
qed

lemma inductive_constraint_context_cong:
  assumes "mutual_groups E' n = mutual_groups E n" and "decls E' n = decls E n"
  shows "inductive_constraint_context E' n = inductive_constraint_context E n"
  unfolding inductive_constraint_context_def assms ..

lemma env_extends_insert:
  assumes "decls E n = None"
  shows "env_extends E (insert_decl n d E)"
  unfolding env_extends_def
  using assms by (auto intro!: inductive_constraint_context_cong)

lemma inductive_data_extends:
  "env_extends E E' \<Longrightarrow> inductive_data E n = Inr data \<Longrightarrow> inductive_data E' n = Inr data"
  by (erule inductive_dataE, drule (1) env_extends_rigid) (simp_all add: inductive_data_def)

lemma direct_mutual_loop_extends:
  "env_extends E E' \<Longrightarrow> list_all (is_inductive_name E) ns \<Longrightarrow>
   direct_mutual_loop E' ns d k = direct_mutual_loop E ns d k"
proof (induction ns)
  case (Cons n ns)
  then obtain data where data: "inductive_data E n = Inr data"
    by (auto simp: is_inductive_name_def is_ok_iff)
  with Cons inductive_data_extends [OF Cons.prems(1) data] show ?case
    by (simp split: sum.split)
qed simp

lemma direct_mutual_loop_name:
  "direct_mutual_loop E ns d k = Inr (n, idx) \<Longrightarrow> \<exists>data. inductive_data E n = Inr data"
proof (induction E ns d k rule: direct_mutual_loop.induct)
  case (2 E m ns d k)
  then obtain data where "inductive_data E m = Inr data" by (auto elim: rbind_InrE)
  with 2 show ?case by (cases "direct_recursive_index_args data d k") auto
qed simp

lemma mutual_offset_loop_extends:
  "env_extends E E' \<Longrightarrow> mutual_offset_loop E n off ns = Inr r \<Longrightarrow>
   mutual_offset_loop E' n off ns = Inr r"
proof (induction ns arbitrary: off)
  case (Cons m ns)
  show ?case
  proof (cases "m = n")
    case False
    with Cons.prems(2) obtain data where "inductive_data E m = Inr data"
      "mutual_offset_loop E n (off + length (ind_constructors data)) ns = Inr r"
      by (auto elim: rbind_InrE)
    with Cons.IH Cons.prems(1) inductive_data_extends [OF Cons.prems(1)] False show ?thesis by simp
  qed (use Cons.prems in simp)
qed simp

lemma reduce_field_extends:
  assumes ext: "env_extends E E'"
    and grp: "\<And>g. grp = Some g \<Longrightarrow> list_all (is_inductive_name E) (grp_inductives g)"
    and r: "reduce_field E grp data rn ls args k cargs p red = Inr r"
  shows "reduce_field E' grp data rn ls args k cargs p red = Inr r"
proof -
  obtain i farg fdom where p: "p = (i, farg, fdom)" by (cases p)
  show ?thesis
  proof (cases grp)
    case None
    with r p show ?thesis by (simp add: reduce_field_def)
  next
    case (Some g)
    let ?src = "length (ind_params data) + i"
    have same: "direct_mutual_recursive_index_args E' g fdom ?src =
        direct_mutual_recursive_index_args E g fdom ?src"
      unfolding direct_mutual_recursive_index_args_def
      using direct_mutual_loop_extends [OF ext grp [OF Some]] .
    show ?thesis
    proof (cases "direct_mutual_recursive_index_args E g fdom ?src")
      case (Inl e)
      with r Some p same show ?thesis by (simp add: reduce_field_def Let_def)
    next
      case (Inr q)
      obtain n idx where q: "q = (n, idx)" by (cases q)
      with Inr direct_mutual_loop_name obtain rd where rd: "inductive_data E n = Inr rd"
        unfolding direct_mutual_recursive_index_args_def by blast
      from rd inductive_data_extends [OF ext rd] r Some p same Inr q show ?thesis
        by (simp add: reduce_field_def Let_def)
    qed
  qed
qed

lemma fold_res_mono:
  assumes "\<And>x s t. f x s = Inr t \<Longrightarrow> g x s = Inr t" and "fold_res f xs s = Inr t"
  shows "fold_res g xs s = Inr t"
  using assms(2)
proof (induction xs arbitrary: s)
  case (Cons x xs)
  then obtain v where "f x s = Inr v" "fold_res f xs v = Inr t" by (auto elim: rbind_InrE)
  with Cons.IH assms(1) show ?case by simp
qed simp

lemma reduce_constructor_extends:
  assumes ext: "env_extends E E'"
    and grp: "\<And>g. grp = Some g \<Longrightarrow> list_all (is_inductive_name E) (grp_inductives g)"
    and r: "reduce_constructor E data rn ls rules args ci minor cargs grp = Inr r"
  shows "reduce_constructor E' data rn ls rules args ci minor cargs grp = Inr r"
proof -
  have step: "reduce_field E grp data rn ls args k cargs x s = Inr t \<Longrightarrow>
      reduce_field E' grp data rn ls args k cargs x s = Inr t" for k x s t
    using reduce_field_extends [OF ext grp] .
  have "fold_res (reduce_field E' grp data rn ls args k cargs) xs s = Inr t"
    if "fold_res (reduce_field E grp data rn ls args k cargs) xs s = Inr t" for k xs s t
    using step that by (rule fold_res_mono)
  with r show ?thesis
    unfolding reduce_constructor_def Let_def
    by (auto simp: rbind_eq_Inr split: if_splits)
qed

lemma finish_recursor_extends:
  assumes ext: "env_extends E E'" and ok: "groups_ok E"
    and reco: "decls E ind \<noteq> None \<Longrightarrow> has_recursor E ind"
    and r: "finish_recursor E rn ls ind rules args view = Inr (Some r)"
  shows "finish_recursor E' rn ls ind rules args view = Inr (Some r)"
proof -
  obtain h cargs where view: "view = (h, cargs)" by (cases view)
  with r obtain cn cls where h: "h = Const cn cls"
    by (auto simp: finish_recursor_def split: expr.splits)
  note r = r [unfolded view h finish_recursor_def, simplified]
  from r have own: "constructor_belongs_to E cn ind" by (auto split: if_splits)
  with ext have own': "constructor_belongs_to E' cn ind"
    by (auto simp: constructor_belongs_to_def dest!: env_extends_rigid
        split: option.splits decl.splits)
  from r own obtain data where data: "inductive_data E ind = Inr data" by (auto elim: rbind_InrE)
  note data' = inductive_data_extends [OF ext data]
  from data have "has_recursor E ind" by (intro reco) (auto elim: inductive_dataE)
  note grp = env_extends_group [OF ext this]
  have names: "list_all (is_inductive_name E) (grp_inductives g)" if "mutual_groups E ind = Some g" for g
    using ok that by (simp add: groups_ok_def)
  let ?offset = "\<lambda>D. case mutual_groups D ind of
      Some g \<Rightarrow> mutual_constructor_offset D g ind | None \<Rightarrow> Inr 0"
  from r own data obtain ci off minor where
    ci: "position (\<lambda>c. ctor_name c = cn) (ind_constructors data) = Some ci"
    and off: "?offset E = Inr off"
    and minor: "get_at args (minor_start rules + off + ci) = Some minor"
    and red: "reduce_constructor E data rn ls rules args ci minor cargs (mutual_groups E ind) = Inr (Some r)"
    by (auto simp: rbind_eq_Inr split: option.splits)
  have off': "?offset E' = Inr off"
    using off mutual_offset_loop_extends [OF ext] unfolding grp mutual_constructor_offset_def
    by (auto split: option.splits)
  have "reduce_constructor E' data rn ls rules args ci minor cargs (mutual_groups E ind) = Inr (Some r)"
    by (rule reduce_constructor_extends [OF ext names red])
  with own' data' ci off' minor grp show ?thesis
    by (simp add: view h finish_recursor_def)
qed

lemma find_redex_extends: "env_extends E E' \<Longrightarrow> find_redex E t = Some r \<Longrightarrow> find_redex E' t = Some r"
  by (auto simp: find_redex_def dest!: env_extends_rigid
      split: prod.splits expr.splits option.splits decl.splits if_splits)

lemma find_redex_recursor:
  "find_redex E t = Some r \<Longrightarrow> decls E (rx_inductive r) \<noteq> None \<Longrightarrow> has_recursor E (rx_inductive r)"
  unfolding has_recursor_def find_redex_def
  by (force split: prod.splits expr.splits option.splits decl.splits if_splits)

lemma delta_value_extends:
  assumes "env_extends E E'" and "delta_value E n us = Some v"
  shows "delta_value E' n us = Some v"
proof -
  from assms(2) obtain d where d: "decls E n = Some d" "exposed d = d"
    by (auto simp: delta_value_def exposed_def split: option.splits decl.splits reducibility.splits)
  with assms env_extends_rigid [OF assms(1) d] show ?thesis by (simp add: delta_value_def)
qed

theorem conv_extends:
  assumes "conv E a b" and ext: "env_extends E E'" and ok: "groups_ok E"
  shows "conv E' a b"
  using assms(1)
proof induction
  case (conv_iota t r m t')
  then show ?case
    using find_redex_extends [OF ext] finish_recursor_extends [OF ext ok find_redex_recursor]
    unfolding finish_redex_def by (blast intro: conv.conv_iota [unfolded finish_redex_def])
qed (auto intro: conv.intros delta_value_extends [OF ext])

lemma inductive_constraint_context_extends:
  assumes ext: "env_extends E E'" and ok: "groups_ok E"
    and c: "inductive_constraint_context E m = Inr r"
  shows "inductive_constraint_context E' m = Inr r"
proof -
  from c ok have "decls E m \<noteq> None"
    by (auto simp: inductive_constraint_context_def groups_ok_def split: option.splits)
  with ext c show ?thesis by (simp add: env_extends_def)
qed

lemma decl_constraint_context_extends:
  assumes "env_extends E E'" and "groups_ok E" and "decl_constraint_context E d = Inr r"
  shows "decl_constraint_context E' d = Inr r"
  using assms(3) inductive_constraint_context_extends [OF assms(1,2)]
  by (cases d) (auto simp: decl_constraint_context_def)

lemma constraints_hold_at_extends:
  assumes "env_extends E E'" and "groups_ok E" and "constraints_hold_at E u d ls"
  shows "constraints_hold_at E' u d ls"
  using assms(3) decl_constraint_context_extends [OF assms(1,2)]
  unfolding constraints_hold_at_def by blast

lemma decl_constraint_context_exposed [simp]:
  "decl_constraint_context E (exposed d) = decl_constraint_context E d"
  by (auto simp: decl_constraint_context_def exposed_def split: decl.split reducibility.split)

lemma constraints_hold_at_exposed [simp]:
  "constraints_hold_at E u (exposed d) ls = constraints_hold_at E u d ls"
  by (simp add: constraints_hold_at_def)

theorem has_type_extends:
  assumes "has_type E u \<Gamma> e t" and ext: "env_extends E E'" and ok: "groups_ok E"
  shows "has_type E' u \<Gamma> e t"
  using assms(1)
proof induction
  case (T_const n d levels t0 t \<Gamma>)
  then obtain d' where "decls E' n = Some d'" "d' = d \<or> d' = exposed d"
    using env_extends_decl [OF ext] by blast
  with T_const constraints_hold_at_extends [OF ext ok] show ?case
    by (intro has_type.T_const [of E' n d' levels u t0 t \<Gamma>]) auto
next
  case (T_conv \<Gamma> e t t')
  then show ?case using conv_extends [OF _ ext ok] by (blast intro: has_type.T_conv)
qed (auto intro: has_type.intros)

section \<open>Declarations that are well typed\<close>

text \<open>
  A type is well formed in the universe context of its declaration, and a value has the
  declared type there. The constraints of an inductive, of its constructors and of its
  recursor are those of its mutual group when it has one.
\<close>

definition type_ok :: "env \<Rightarrow> string list \<Rightarrow> universe_constraint list \<Rightarrow> expr \<Rightarrow> bool" where
  "type_ok E ps cs t \<longleftrightarrow>
     (\<exists>u l. universe_context_new ps cs = Inr u \<and> has_type E u [] t (Sort l))"

definition value_ok ::
  "env \<Rightarrow> string list \<Rightarrow> universe_constraint list \<Rightarrow> expr \<Rightarrow> expr \<Rightarrow> bool" where
  "value_ok E ps cs v t \<longleftrightarrow> (\<exists>u. universe_context_new ps cs = Inr u \<and> has_type E u [] v t)"

definition decl_value :: "decl \<Rightarrow> expr option" where
  "decl_value d =
     (case d of
        Def _ _ _ v _ \<Rightarrow> Some v
      | DefConstrained _ _ _ _ v _ \<Rightarrow> Some v
      | Theorem _ _ _ v \<Rightarrow> Some v
      | TheoremConstrained _ _ _ _ v \<Rightarrow> Some v
      | _ \<Rightarrow> None)"

definition decl_typed :: "env \<Rightarrow> decl \<Rightarrow> bool" where
  "decl_typed E d \<longleftrightarrow>
     (\<exists>ps cs t. decl_constraint_context E d = Inr (ps, cs) \<and> decl_ty d = Inr t \<and>
        type_ok E (decl_universe_params d) cs t \<and>
        (\<forall>v. decl_value d = Some v \<longrightarrow> value_ok E (decl_universe_params d) cs v t))"

lemma decl_value_exposed [simp]: "decl_value (exposed d) = decl_value d"
  by (auto simp: decl_value_def exposed_def split: decl.split reducibility.split)

lemma decl_typed_exposed [simp]: "decl_typed E (exposed d) = decl_typed E d"
  by (simp add: decl_typed_def)

lemma type_ok_extends:
  "type_ok E ps cs t \<Longrightarrow> env_extends E E' \<Longrightarrow> groups_ok E \<Longrightarrow> type_ok E' ps cs t"
  unfolding type_ok_def by (blast intro: has_type_extends)

lemma value_ok_extends:
  "value_ok E ps cs v t \<Longrightarrow> env_extends E E' \<Longrightarrow> groups_ok E \<Longrightarrow> value_ok E' ps cs v t"
  unfolding value_ok_def by (blast intro: has_type_extends)

lemma decl_typed_extends:
  "decl_typed E d \<Longrightarrow> env_extends E E' \<Longrightarrow> groups_ok E \<Longrightarrow> decl_typed E' d"
  unfolding decl_typed_def
  by (blast intro: type_ok_extends value_ok_extends decl_constraint_context_extends)

end
