(* ===== verification/Kernel_Builtins.thy ===== *)
theory Kernel_Builtins
  imports Kernel_Syntax
begin

text \<open>
  The built-in declarations (\<^verbatim>\<open>npa-kernel/src/builtins.rs\<close>) and the constructors of
  declaration values (\<^verbatim>\<open>decl.rs\<close>).
\<close>

definition prop_level :: level where
  "prop_level = LZero"

definition type0 :: level where
  "type0 = LSucc prop_level"

definition nat_const :: expr where
  "nat_const = Const ''Nat'' []"

definition nat_zero :: expr where
  "nat_zero = Const ''Nat.zero'' []"

definition nat_succ :: "expr \<Rightarrow> expr" where
  "nat_succ arg = App (Const ''Nat.succ'' []) arg"

definition eq_expr :: "level \<Rightarrow> expr \<Rightarrow> expr \<Rightarrow> expr \<Rightarrow> expr" where
  "eq_expr l t a b = apps (Const ''Eq'' [l]) [t, a, b]"

definition eq_refl :: "level \<Rightarrow> expr \<Rightarrow> expr \<Rightarrow> expr" where
  "eq_refl l t v = apps (Const ''Eq.refl'' [l]) [t, v]"

definition eq_type :: "level \<Rightarrow> expr" where
  "eq_type l = Pi ''A'' (Sort l) (Pi ''lhs'' (BVar 0) (Pi ''rhs'' (BVar 1) (Sort prop_level)))"

definition eq_refl_type :: "level \<Rightarrow> expr" where
  "eq_refl_type l =
     Pi ''A'' (Sort l) (Pi ''x'' (BVar 0) (eq_expr l (BVar 1) (BVar 0) (BVar 0)))"

definition eq_rec_type :: "level \<Rightarrow> level \<Rightarrow> expr" where
  "eq_rec_type value_level motive_level =
     (let motive_ty = Pi ''b'' (BVar 1) (Pi ''h'' (eq_expr value_level (BVar 2) (BVar 1) (BVar 0))
            (Sort motive_level));
          refl_proof = eq_refl value_level (BVar 2) (BVar 1);
          minor_ty = apps (BVar 0) [BVar 1, refl_proof];
          major_ty = eq_expr value_level (BVar 4) (BVar 3) (BVar 0);
          result_ty = apps (BVar 3) [BVar 1, BVar 0]
      in Pi ''A'' (Sort value_level) (Pi ''a'' (BVar 0) (Pi ''motive'' motive_ty
           (Pi ''minor'' minor_ty (Pi ''b'' (BVar 3) (Pi ''h'' major_ty result_ty))))))"

definition nat_rec_type :: "level \<Rightarrow> expr" where
  "nat_rec_type l =
     (let motive_ty = Pi ''_'' nat_const (Sort l);
          z_ty = App (BVar 0) nat_zero;
          s_ty = Pi ''n'' nat_const (Pi ''ih'' (App (BVar 2) (BVar 0))
                   (App (BVar 3) (nat_succ (BVar 1))))
      in Pi ''motive'' motive_ty (Pi ''z'' z_ty (Pi ''s'' s_ty
           (Pi ''n'' nat_const (App (BVar 3) (BVar 0))))))"

definition recursor_decl_new :: "string \<Rightarrow> string list \<Rightarrow> expr \<Rightarrow> recursor_decl" where
  "recursor_decl_new n ps t =
     \<lparr>rec_name = n, rec_universe_params = ps, rec_ty = t, rec_rules = None\<rparr>"

definition recursor_decl_with_rules ::
  "string \<Rightarrow> string list \<Rightarrow> expr \<Rightarrow> recursor_rules \<Rightarrow> recursor_decl" where
  "recursor_decl_with_rules n ps t rules =
     \<lparr>rec_name = n, rec_universe_params = ps, rec_ty = t, rec_rules = Some rules\<rparr>"

definition inductive_decl_new ::
  "string \<Rightarrow> string list \<Rightarrow> bndr list \<Rightarrow> bndr list \<Rightarrow> level \<Rightarrow> constructor_decl list
   \<Rightarrow> recursor_decl option \<Rightarrow> inductive_decl" where
  "inductive_decl_new n ps params indices srt ctors rcr =
     \<lparr>ind_name = n, ind_universe_params = ps, ind_universe_constraints = [],
      ind_params = params, ind_indices = indices, ind_sort = srt, ind_constructors = ctors,
      ind_recursor = rcr\<rparr>"

definition inductive_with_universe_constraints ::
  "inductive_decl \<Rightarrow> universe_constraint list \<Rightarrow> inductive_decl" where
  "inductive_with_universe_constraints data cs = data\<lparr>ind_universe_constraints := cs\<rparr>"

definition mutual_block_new ::
  "string \<Rightarrow> string list \<Rightarrow> inductive_decl list \<Rightarrow> mutual_inductive_block" where
  "mutual_block_new n ps inds =
     \<lparr>blk_name = n, blk_universe_params = ps, blk_universe_constraints = [], blk_inductives = inds\<rparr>"

definition nat_inductive :: inductive_decl where
  "nat_inductive =
     inductive_decl_new ''Nat'' [] [] [] type0
       [\<lparr>ctor_name = ''Nat.zero'', ctor_ty = nat_const\<rparr>,
        \<lparr>ctor_name = ''Nat.succ'', ctor_ty = Pi ''_'' nat_const nat_const\<rparr>]
       (Some (recursor_decl_new ''Nat.rec'' [''u''] (nat_rec_type (LParam ''u''))))"

definition eq_inductive :: inductive_decl where
  "eq_inductive =
     inductive_decl_new ''Eq'' [''u'']
       [\<lparr>bndr_name = ''A'', bndr_ty = Sort (LParam ''u'')\<rparr>,
        \<lparr>bndr_name = ''lhs'', bndr_ty = BVar 0\<rparr>]
       [\<lparr>bndr_name = ''rhs'', bndr_ty = BVar 1\<rparr>]
       prop_level
       [\<lparr>ctor_name = ''Eq.refl'', ctor_ty = eq_refl_type (LParam ''u'')\<rparr>]
       None"

end
