(* ===== verification/Kernel_Admission.thy ===== *)
theory Kernel_Admission
  imports Kernel_Typing Kernel_Builtins
begin

text \<open>
  Admission of declarations (\<^verbatim>\<open>add_axiom\<close>, \<^verbatim>\<open>add_def\<close>, \<^verbatim>\<open>add_theorem\<close>,
  \<^verbatim>\<open>add_inductive\<close>, \<^verbatim>\<open>add_mutual_inductive\<close> and \<^verbatim>\<open>with_builtins\<close> of
  \<^verbatim>\<open>npa-kernel/src/env.rs\<close>) with the checks of constructors and recursors. The source
  updates the environment only after every check has passed, on a clone for the inductive
  forms; here an admission returns the new environment or the error.
\<close>

section \<open>Constructors\<close>

definition check_constructor_result ::
  "inductive_decl \<Rightarrow> constructor_decl \<Rightarrow> nat \<Rightarrow> expr \<Rightarrow> unit kresult" where
  "check_constructor_result data c domain_count result =
     (let bad = BadConstructorResult (ind_name data) (ctor_name c) result;
          param_count = length (ind_params data) in
      case collect_apps result of
        (Const n levels, args) \<Rightarrow>
          if n \<noteq> ind_name data then Inl bad
          else if \<not> levels_eq levels (expected_levels data) \<or>
              length args \<noteq> param_count + length (ind_indices data) \<or> domain_count < param_count
          then Inl bad
          else check_all (\<lambda>(param_index, arg).
              if arg \<noteq> BVar ((domain_count - 1 - param_index) mod 2 ^ 32) then Inl bad else Inr ())
            (enumerate 0 (take param_count args))
      | _ \<Rightarrow> Inl bad)"

definition check_field_bound ::
  "env \<Rightarrow> inductive_decl \<Rightarrow> constructor_decl \<Rightarrow> universe_context \<Rightarrow> level \<Rightarrow> nat \<times> expr
   \<Rightarrow> ctx \<times> nat \<times> nat \<Rightarrow> (ctx \<times> nat \<times> nat) kresult" where
  "check_field_bound E data c u inductive_sort p st =
     (case (p, st) of ((domain_index, domain), (cx, fuel)) \<Rightarrow>
       (case expect_sort_with_remaining_fuel E u cx domain fuel of
          (Inl e, _) \<Rightarrow> Inl e
        | (Inr field_level, fuel') \<Rightarrow>
            rbind (if domain_index \<ge> length (ind_params data)
                   then rbind (entails_level_le u field_level inductive_sort) (\<lambda>le. Inr (\<not> le))
                   else Inr False) (\<lambda>violated.
              if violated
              then Inl (ConstructorUniverseBoundViolation (ind_name data) (ctor_name c)
                     (domain_index - length (ind_params data)) (normalize_level field_level)
                     inductive_sort)
              else Inr (push_assumption cx domain, fuel'))))"

definition check_constructor_universe_bounds ::
  "env \<Rightarrow> inductive_decl \<Rightarrow> constructor_decl \<Rightarrow> expr list \<Rightarrow> universe_context \<Rightarrow> unit kresult" where
  "check_constructor_universe_bounds E data c domains u =
     (let inductive_sort = normalize_level (ind_sort data) in
      if inductive_sort = LZero then Inr ()
      else rbind (fold_res (check_field_bound E data c u inductive_sort) (enumerate 0 domains)
                    (ctx_new, (whnf_fuel_limit, defeq_fuel_limit))) (\<lambda>_. Inr ()))"

definition check_constructor_decl ::
  "env \<Rightarrow> inductive_decl \<Rightarrow> constructor_decl \<Rightarrow> universe_context \<Rightarrow> unit kresult" where
  "check_constructor_decl E data c u =
     rbind (expect_sort E u ctx_new (ctor_ty c)) (\<lambda>_.
     (case peel_pi_domains (ctor_ty c) of (domains, result) \<Rightarrow>
       rbind (check_all (check_constructor_domain_positive E data (ctor_name c))
                (enumerate 0 domains)) (\<lambda>_.
       rbind (whnf E ctx_new result) (\<lambda>result'.
       rbind (check_constructor_result data c (length domains) result') (\<lambda>_.
         check_constructor_universe_bounds E data c domains u)))))"

definition check_mutual_constructor_decl ::
  "env \<Rightarrow> mutual_inductive_block \<Rightarrow> inductive_decl \<Rightarrow> constructor_decl \<Rightarrow> universe_context
   \<Rightarrow> unit kresult" where
  "check_mutual_constructor_decl E block data c u =
     rbind (expect_sort E u ctx_new (ctor_ty c)) (\<lambda>_.
     (case peel_pi_domains (ctor_ty c) of (domains, result) \<Rightarrow>
       rbind (check_all (check_mutual_constructor_domain_positive E block data (ctor_name c))
                (enumerate 0 domains)) (\<lambda>_.
       rbind (whnf E ctx_new result) (\<lambda>result'.
       rbind (check_constructor_result data c (length domains) result') (\<lambda>_.
         check_constructor_universe_bounds E data c domains u)))))"

section \<open>Recursors\<close>

definition invalid_unless :: "bool \<Rightarrow> string \<Rightarrow> unit kresult" where
  "invalid_unless ok msg = guard_res (\<not> ok) (InvalidInductive msg)"

definition defeq_or_invalid :: "env \<Rightarrow> ctx \<Rightarrow> expr \<Rightarrow> expr \<Rightarrow> string \<Rightarrow> unit kresult" where
  "defeq_or_invalid E c l r msg =
     rbind (is_defeq E c l r) (\<lambda>same. invalid_unless same msg)"

definition check_recursor_params ::
  "env \<Rightarrow> inductive_decl \<Rightarrow> recursor_decl \<Rightarrow> expr list \<Rightarrow> universe_context \<Rightarrow> unit kresult" where
  "check_recursor_params E data r domains u =
     rbind (invalid_unless (length domains \<ge> length (ind_params data))
              (rec_name r @ '' recursor is missing parameter binders'')) (\<lambda>_.
     rbind (fold_res (\<lambda>(param_index, param) cx.
              rbind (expect_sort E u cx (bndr_ty param)) (\<lambda>_.
              rbind (defeq_or_invalid E cx (domains ! param_index) (bndr_ty param)
                       (rec_name r @ '' recursor parameter '' @ bndr_name param
                        @ '' does not match inductive'')) (\<lambda>_.
                Inr (push_assumption cx (bndr_ty param)))))
              (enumerate 0 (ind_params data)) ctx_new) (\<lambda>_. Inr ()))"

definition check_recursor_target ::
  "inductive_decl \<Rightarrow> recursor_decl \<Rightarrow> expr \<Rightarrow> string \<Rightarrow> nat \<Rightarrow> nat \<Rightarrow> unit kresult" where
  "check_recursor_target data r target label ctx_len index_abs_start =
     (let bad = InvalidInductive (rec_name r @ '' '' @ label @ '' must target '' @ ind_name data);
          param_count = length (ind_params data) in
      case collect_apps target of
        (Const n levels, args) \<Rightarrow>
          if n \<noteq> ind_name data then Inl bad
          else if \<not> levels_eq levels (expected_levels data) \<or>
              length args \<noteq> param_count + length (ind_indices data)
          then Inl bad
          else
            rbind (check_all (\<lambda>(i, arg). rbind (bvar_for_abs ctx_len i) (\<lambda>v.
                invalid_unless (arg = v) (rec_name r @ '' '' @ label
                  @ '' has non-canonical parameter '' @ show_nat i)))
              (enumerate 0 (take param_count args))) (\<lambda>_.
            check_all (\<lambda>(i, arg). rbind (bvar_for_abs ctx_len (index_abs_start + i)) (\<lambda>v.
                invalid_unless (arg = v) (rec_name r @ '' '' @ label
                  @ '' has non-canonical index '' @ show_nat i)))
              (enumerate 0 (drop param_count args)))
      | _ \<Rightarrow> Inl bad)"

definition check_motive_domain ::
  "inductive_decl \<Rightarrow> recursor_decl \<Rightarrow> expr \<Rightarrow> unit kresult" where
  "check_motive_domain data r motive_domain =
     (case peel_pi_domains motive_domain of (motive_domains, motive_result) \<Rightarrow>
       let param_count = length (ind_params data); index_count = length (ind_indices data) in
       rbind (invalid_unless (length motive_domains = index_count + 1)
                (rec_name r @ '' motive must take indices and one major premise in kernel core''))
         (\<lambda>_.
       rbind (check_all (\<lambda>(i, expected).
                rbind (remap_bvars (bndr_ty expected) (param_count + i) (param_count + i)
                         [0..<param_count + i]) (\<lambda>expected_ty.
                  invalid_unless (motive_domains ! i = expected_ty)
                    (rec_name r @ '' motive index '' @ bndr_name expected
                     @ '' does not match inductive'')))
                (enumerate 0 (ind_indices data))) (\<lambda>_.
       rbind (check_recursor_target data r (motive_domains ! index_count) ''motive domain''
                (param_count + index_count) param_count) (\<lambda>_.
         case motive_result of
           Sort l \<Rightarrow>
             invalid_unless (\<not> (level_eq (ind_sort data) LZero \<and> \<not> level_eq l LZero))
               (rec_name r @ '' Prop recursor motive must return Prop'')
         | _ \<Rightarrow> Inl (InvalidInductive (rec_name r @ '' motive must return a Sort''))))))"

definition check_recursor_indices_at ::
  "env \<Rightarrow> inductive_decl \<Rightarrow> recursor_decl \<Rightarrow> nat \<Rightarrow> expr list \<Rightarrow> unit kresult" where
  "check_recursor_indices_at E data r index_start domains =
     rbind (fold_res (\<lambda>(i, expected) source_to_target.
              let domain_index = index_start + i in
              rbind (ok_or (InvalidInductive (rec_name r @ '' recursor is missing index binder ''
                       @ bndr_name expected)) (get_at domains domain_index)) (\<lambda>actual.
              rbind (remap_bvars (bndr_ty expected) (length (ind_params data) + i) domain_index
                       source_to_target) (\<lambda>expected_ty.
              rbind (defeq_or_invalid E (recursor_prefix_ctx (take domain_index domains)) actual
                       expected_ty (rec_name r @ '' recursor index '' @ bndr_name expected
                        @ '' does not match inductive'')) (\<lambda>_.
                Inr (source_to_target @ [domain_index])))))
              (enumerate 0 (ind_indices data)) [0..<length (ind_params data)]) (\<lambda>_. Inr ())"

definition check_recursor_indices ::
  "env \<Rightarrow> inductive_decl \<Rightarrow> recursor_decl \<Rightarrow> recursor_rules \<Rightarrow> expr list \<Rightarrow> unit kresult" where
  "check_recursor_indices E data r rules domains =
     check_recursor_indices_at E data r (minor_start rules + length (ind_constructors data)) domains"

definition check_result_motive ::
  "env \<Rightarrow> inductive_decl \<Rightarrow> recursor_rules \<Rightarrow> expr list \<Rightarrow> expr \<Rightarrow> nat \<Rightarrow> nat \<Rightarrow> string
   \<Rightarrow> unit kresult" where
  "check_result_motive E data rules domains result motive_abs index_start msg =
     rbind (traverse (\<lambda>i. bvar_for_abs (length domains) (index_start + i))
              [0..<length (ind_indices data)]) (\<lambda>index_args.
     rbind (bvar_for_abs (length domains) (major_index rules)) (\<lambda>major.
     rbind (motive_app (length domains) motive_abs index_args major) (\<lambda>expected.
       defeq_or_invalid E (recursor_prefix_ctx domains) result expected msg)))"

definition check_recursor_result ::
  "env \<Rightarrow> inductive_decl \<Rightarrow> recursor_decl \<Rightarrow> recursor_rules \<Rightarrow> expr list \<Rightarrow> expr \<Rightarrow> unit kresult" where
  "check_recursor_result E data r rules domains result =
     check_result_motive E data rules domains result (length (ind_params data))
       (minor_start rules + length (ind_constructors data))
       (rec_name r @ '' result must apply motive to the major premise'')"

definition check_mutual_recursor_result ::
  "env \<Rightarrow> inductive_decl \<Rightarrow> recursor_decl \<Rightarrow> recursor_rules \<Rightarrow> expr list \<Rightarrow> expr \<Rightarrow> nat \<Rightarrow> nat
   \<Rightarrow> unit kresult" where
  "check_mutual_recursor_result E data r rules domains result family_index index_start =
     check_result_motive E data rules domains result (length (ind_params data) + family_index)
       index_start
       (rec_name r @ '' result must apply the matching mutual motive to the major premise'')"

definition check_recursor_decl ::
  "env \<Rightarrow> inductive_decl \<Rightarrow> recursor_decl \<Rightarrow> recursor_rules \<Rightarrow> universe_context \<Rightarrow> unit kresult" where
  "check_recursor_decl E data r rules u =
     (let param_count = length (ind_params data); ctor_count = length (ind_constructors data) in
      rbind (invalid_unless (minor_start rules = param_count + 1)
               (ind_name data @ '' recursor minor_start must be params + motive'')) (\<lambda>_.
      rbind (invalid_unless
               (major_index rules = minor_start rules + ctor_count + length (ind_indices data))
               (ind_name data @ '' recursor major_index must follow constructor minor premises and indices''))
        (\<lambda>_.
      (case peel_pi_domains (rec_ty r) of (domains, result) \<Rightarrow>
        rbind (invalid_unless (length domains > major_index rules)
                 (rec_name r @ '' recursor has no major premise'')) (\<lambda>_.
        rbind (invalid_unless (length domains = major_index rules + 1)
                 (rec_name r @ '' recursor major premise must be the final binder in kernel core''))
          (\<lambda>_.
        rbind (check_recursor_params E data r domains u) (\<lambda>_.
        rbind (ok_or (InvalidInductive (rec_name r @ '' recursor is missing motive''))
                 (get_at domains param_count)) (\<lambda>motive_domain.
        rbind (check_motive_domain data r motive_domain) (\<lambda>_.
        rbind (check_recursor_indices E data r rules domains) (\<lambda>_.
        rbind (check_recursor_target data r (domains ! major_index rules) ''major premise''
                 (major_index rules) (minor_start rules + ctor_count)) (\<lambda>_.
        rbind (check_recursor_result E data r rules domains result) (\<lambda>_.
          check_all (\<lambda>(i, c).
            rbind (expected_minor_type data c i) (\<lambda>expected_minor.
              defeq_or_invalid E (recursor_prefix_ctx (take (minor_start rules + i) domains))
                (domains ! (minor_start rules + i)) expected_minor
                (rec_name r @ '' minor premise for '' @ ctor_name c
                 @ '' does not match constructor'')))
            (enumerate 0 (ind_constructors data))))))))))))))"

definition check_mutual_recursor_decl ::
  "env \<Rightarrow> mutual_inductive_block \<Rightarrow> inductive_decl \<Rightarrow> recursor_decl \<Rightarrow> recursor_rules
   \<Rightarrow> universe_context \<Rightarrow> unit kresult" where
  "check_mutual_recursor_decl E block data r rules u =
     (let param_count = length (ind_params data);
          start = param_count + length (blk_inductives block);
          constructor_count = mutual_constructor_count block in
      rbind (invalid_unless (minor_start rules = start)
               (rec_name r @ '' mutual recursor minor_start must follow params and motives'')) (\<lambda>_.
      rbind (invalid_unless
               (major_index rules = start + constructor_count + length (ind_indices data))
               (rec_name r @ '' mutual recursor major_index must follow all minor premises and target indices''))
        (\<lambda>_.
      (case peel_pi_domains (rec_ty r) of (domains, result) \<Rightarrow>
        rbind (invalid_unless (length domains = major_index rules + 1)
                 (rec_name r @ '' mutual recursor major premise must be the final binder'')) (\<lambda>_.
        rbind (check_recursor_params E data r domains u) (\<lambda>_.
        rbind (check_all (\<lambda>(i, family).
                 rbind (ok_or (InvalidInductive (rec_name r
                          @ '' mutual recursor is missing motive for '' @ ind_name family))
                          (get_at domains (param_count + i))) (check_motive_domain family r))
                 (enumerate 0 (blk_inductives block))) (\<lambda>_.
        rbind (mutual_family_index block (ind_name data)) (\<lambda>target_family_index.
        (let index_start = minor_start rules + constructor_count in
        rbind (check_recursor_indices_at E data r index_start domains) (\<lambda>_.
        rbind (check_recursor_target data r (domains ! major_index rules) ''major premise''
                 (major_index rules) index_start) (\<lambda>_.
        rbind (check_mutual_recursor_result E data r rules domains result target_family_index
                 index_start) (\<lambda>_.
          check_all (\<lambda>(i, family_index, c).
            rbind (expected_mutual_minor_type block family_index c i) (\<lambda>expected_minor.
              defeq_or_invalid E (recursor_prefix_ctx (take (minor_start rules + i) domains))
                (domains ! (minor_start rules + i)) expected_minor
                (rec_name r @ '' minor premise for '' @ ctor_name c
                 @ '' does not match mutual constructor'')))
            (enumerate 0 (concat (map (\<lambda>(fi, family). map (Pair fi) (ind_constructors family))
               (enumerate 0 (blk_inductives block)))))))))))))))))"

section \<open>Admission\<close>

definition add_axiom_with_universe_constraints ::
  "string \<Rightarrow> string list \<Rightarrow> universe_constraint list \<Rightarrow> expr \<Rightarrow> env \<Rightarrow> env kresult" where
  "add_axiom_with_universe_constraints n ps cs t E =
     rbind (ensure_fresh E n) (\<lambda>_.
     rbind (universe_context_new ps cs) (\<lambda>u.
     rbind (expect_sort E u ctx_new t) (\<lambda>_.
       Inr (insert_decl n (if cs = [] then Axiom n ps t else AxiomConstrained n ps cs t) E))))"

definition add_axiom :: "string \<Rightarrow> string list \<Rightarrow> expr \<Rightarrow> env \<Rightarrow> env kresult" where
  "add_axiom n ps t E = add_axiom_with_universe_constraints n ps [] t E"

definition add_def_with_universe_constraints ::
  "string \<Rightarrow> string list \<Rightarrow> universe_constraint list \<Rightarrow> expr \<Rightarrow> expr \<Rightarrow> reducibility \<Rightarrow> env
   \<Rightarrow> env kresult" where
  "add_def_with_universe_constraints n ps cs t v red E =
     rbind (ensure_fresh E n) (\<lambda>_.
     rbind (universe_context_new ps cs) (\<lambda>u.
     rbind (expect_sort E u ctx_new t) (\<lambda>_.
     rbind (check E u ctx_new v t) (\<lambda>_.
       Inr (insert_decl n
         (if cs = [] then Def n ps t v red else DefConstrained n ps cs t v red) E)))))"

definition add_def ::
  "string \<Rightarrow> string list \<Rightarrow> expr \<Rightarrow> expr \<Rightarrow> reducibility \<Rightarrow> env \<Rightarrow> env kresult" where
  "add_def n ps t v red E = add_def_with_universe_constraints n ps [] t v red E"

definition add_theorem_with_universe_constraints ::
  "string \<Rightarrow> string list \<Rightarrow> universe_constraint list \<Rightarrow> expr \<Rightarrow> expr \<Rightarrow> env \<Rightarrow> env kresult" where
  "add_theorem_with_universe_constraints n ps cs t pf E =
     rbind (ensure_fresh E n) (\<lambda>_.
     rbind (universe_context_new ps cs) (\<lambda>u.
     rbind (expect_sort E u ctx_new t) (\<lambda>_.
     rbind (check E u ctx_new pf t) (\<lambda>_.
       Inr (insert_decl n
         (if cs = [] then Theorem n ps t pf else TheoremConstrained n ps cs t pf) E)))))"

definition add_theorem :: "string \<Rightarrow> string list \<Rightarrow> expr \<Rightarrow> expr \<Rightarrow> env \<Rightarrow> env kresult" where
  "add_theorem n ps t pf E = add_theorem_with_universe_constraints n ps [] t pf E"

definition inductive_entry :: "inductive_decl \<Rightarrow> decl" where
  "inductive_entry data =
     Inductive (ind_name data) (ind_universe_params data) (inductive_type data) data"

definition constructor_entry :: "inductive_decl \<Rightarrow> constructor_decl \<Rightarrow> decl" where
  "constructor_entry data c =
     Constructor (ctor_name c) (ind_universe_params data) (ctor_ty c) (ind_name data)"

definition recursor_entry :: "inductive_decl \<Rightarrow> recursor_decl \<Rightarrow> recursor_rules \<Rightarrow> decl" where
  "recursor_entry data r rules =
     Recursor (rec_name r) (rec_universe_params r) (rec_ty r) (ind_name data) rules"

definition add_constructor ::
  "inductive_decl \<Rightarrow> universe_context \<Rightarrow> constructor_decl \<Rightarrow> env \<Rightarrow> env kresult" where
  "add_constructor data u c E =
     rbind (check_constructor_decl E data c u) (\<lambda>_.
       Inr (insert_decl (ctor_name c) (constructor_entry data c) E))"

definition add_recursor :: "inductive_decl \<Rightarrow> env \<Rightarrow> env kresult" where
  "add_recursor data E =
     (case ind_recursor data of
        None \<Rightarrow> Inr E
      | Some r \<Rightarrow>
          rbind (universe_context_new (rec_universe_params r) (ind_universe_constraints data)) (\<lambda>u.
          rbind (expect_sort E u ctx_new (rec_ty r)) (\<lambda>_.
          let rules = (case rec_rules r of
            Some rules \<Rightarrow> rules | None \<Rightarrow> generated_recursor_rules data) in
          rbind (check_recursor_decl E data r rules u) (\<lambda>_.
            Inr (insert_decl (rec_name r) (recursor_entry data r rules) E)))))"

definition add_inductive :: "inductive_decl \<Rightarrow> env \<Rightarrow> env kresult" where
  "add_inductive data E =
     rbind (universe_context_new (ind_universe_params data) (ind_universe_constraints data)) (\<lambda>u.
     rbind (ensure_level_wf (uctx_params u) (ind_sort data)) (\<lambda>_.
     rbind (ensure_inductive_names_fresh E data) (\<lambda>_.
     rbind (expect_sort E u ctx_new (inductive_type data)) (\<lambda>_.
     rbind (fold_res (add_constructor data u) (ind_constructors data)
              (insert_decl (ind_name data) (inductive_entry data) E)) (add_recursor data)))))"

definition check_shared_telescope ::
  "mutual_inductive_block \<Rightarrow> universe_context \<Rightarrow> inductive_decl \<Rightarrow> unit kresult" where
  "check_shared_telescope block u data =
     rbind (guard_res
              (ind_universe_params data \<noteq> blk_universe_params block \<or>
               ind_universe_constraints data \<noteq> [] \<or>
               length (ind_params data) \<noteq> length (ind_params (hd (blk_inductives block))) \<or>
               ind_params data \<noteq> ind_params (hd (blk_inductives block)))
              (InvalidInductive (blk_name block
                @ '' mutual block requires shared universe and parameter telescopes''))) (\<lambda>_.
       ensure_level_wf (uctx_params u) (ind_sort data))"

definition add_mutual_family ::
  "universe_context \<Rightarrow> inductive_decl \<Rightarrow> env \<Rightarrow> env kresult" where
  "add_mutual_family u data E =
     rbind (expect_sort E u ctx_new (inductive_type data)) (\<lambda>_.
       Inr (insert_decl (ind_name data) (inductive_entry data) E))"

definition add_mutual_constructor ::
  "mutual_inductive_block \<Rightarrow> universe_context \<Rightarrow> inductive_decl \<times> constructor_decl \<Rightarrow> env
   \<Rightarrow> env kresult" where
  "add_mutual_constructor block u p E =
     (case p of (data, c) \<Rightarrow>
       rbind (check_mutual_constructor_decl E block data c u) (\<lambda>_.
         Inr (insert_decl (ctor_name c) (constructor_entry data c) E)))"

definition add_mutual_recursor ::
  "mutual_inductive_block \<Rightarrow> inductive_decl \<Rightarrow> env \<Rightarrow> env kresult" where
  "add_mutual_recursor block data E =
     (case ind_recursor data of
        None \<Rightarrow> Inr E
      | Some r \<Rightarrow>
          rbind (universe_context_new (rec_universe_params r) (blk_universe_constraints block)) (\<lambda>u.
          rbind (expect_sort E u ctx_new (rec_ty r)) (\<lambda>_.
          let rules = (case rec_rules r of
            Some rules \<Rightarrow> rules | None \<Rightarrow> generated_mutual_recursor_rules block data) in
          rbind (check_mutual_recursor_decl E block data r rules u) (\<lambda>_.
            Inr (insert_decl (rec_name r) (recursor_entry data r rules) E)))))"

definition block_recursors :: "mutual_inductive_block \<Rightarrow> (string \<rightharpoonup> string)" where
  "block_recursors block =
     fold (\<lambda>data m. case ind_recursor data of
         None \<Rightarrow> m | Some r \<Rightarrow> m(ind_name data \<mapsto> rec_name r))
       (blk_inductives block) Map.empty"

definition block_group :: "mutual_inductive_block \<Rightarrow> mutual_group_info" where
  "block_group block =
     \<lparr>grp_inductives = map ind_name (blk_inductives block),
      grp_recursors = block_recursors block,
      grp_universe_params = blk_universe_params block,
      grp_universe_constraints = blk_universe_constraints block\<rparr>"

definition insert_group :: "mutual_group_info \<Rightarrow> env \<Rightarrow> env" where
  "insert_group g E =
     E\<lparr>mutual_groups := fold (\<lambda>n m. m(n \<mapsto> g)) (grp_inductives g) (mutual_groups E)\<rparr>"

definition add_mutual_inductive :: "mutual_inductive_block \<Rightarrow> env \<Rightarrow> env kresult" where
  "add_mutual_inductive block E =
     rbind (guard_res (blk_inductives block = []) (InvalidInductive (blk_name block
              @ '' mutual block must contain at least one inductive''))) (\<lambda>_.
     rbind (universe_context_new (blk_universe_params block) (blk_universe_constraints block)) (\<lambda>u.
     rbind (ensure_mutual_inductive_names_fresh E block) (\<lambda>_.
     rbind (check_all (check_shared_telescope block u) (blk_inductives block)) (\<lambda>_.
     rbind (fold_res (add_mutual_family u) (blk_inductives block) E) (\<lambda>E1.
     rbind (fold_res (add_mutual_constructor block u)
              (concat (map (\<lambda>data. map (Pair data) (ind_constructors data)) (blk_inductives block)))
              E1) (\<lambda>E2.
     rbind (fold_res (add_mutual_recursor block) (blk_inductives block) E2) (\<lambda>E3.
       Inr (insert_group (block_group block) E3))))))))"

definition env_with_builtins :: "env kresult" where
  "env_with_builtins =
     rbind (add_inductive nat_inductive env_new) (\<lambda>E.
     rbind (add_inductive eq_inductive E) (\<lambda>E.
       add_axiom ''Eq.rec'' [''u'', ''v''] (eq_rec_type (LParam ''u'') (LParam ''v'')) E))"

end
