(* ===== verification/Kernel_Invariant.thy ===== *)
theory Kernel_Invariant
  imports Kernel_Extension Kernel_Admission
begin

text \<open>
  The invariant of the environment and what the admissions keep of it. A well-formed
  environment files every declaration under its own canonical name, holds only de Bruijn
  indices in the range of the index casts and only mutual groups of declared inductives;
  a typed environment holds only declarations that are well typed in it. Admission of a
  request and exposure of an opaque definition are the steps of a state machine whose
  reachable states satisfy the invariant.
\<close>

section \<open>The invariant\<close>

definition decls_named :: "env \<Rightarrow> bool" where
  "decls_named E \<longleftrightarrow>
     (\<forall>n d. decls E n = Some d \<longrightarrow> decl_name d = n \<and> is_canonical_dotted_name n)"

definition env_wf :: "env \<Rightarrow> bool" where
  "env_wf E \<longleftrightarrow> decls_named E \<and> env_small E \<and> groups_ok E"

definition env_typed :: "env \<Rightarrow> bool" where
  "env_typed E \<longleftrightarrow> (\<forall>n d. decls E n = Some d \<longrightarrow> decl_typed E d)"

lemma env_wfD [dest]: "env_wf E \<Longrightarrow> decls_named E" "env_wf E \<Longrightarrow> env_small E" "env_wf E \<Longrightarrow> groups_ok E"
  by (simp_all add: env_wf_def)

lemma env_wf_new: "env_wf env_new"
  by (simp add: env_wf_def decls_named_def env_small_def groups_ok_def env_new_def)

lemma env_typed_new: "env_typed env_new"
  by (simp add: env_typed_def)

lemma is_inductive_name_extends:
  "env_extends E E' \<Longrightarrow> is_inductive_name E n \<Longrightarrow> is_inductive_name E' n"
  by (auto simp: is_inductive_name_def is_ok_iff dest: inductive_data_extends)

lemma groups_ok_insert:
  assumes "groups_ok E" and "decls E n = None"
  shows "groups_ok (insert_decl n d E)"
  unfolding groups_ok_def
proof (intro allI impI conjI)
  fix m g assume g: "mutual_groups (insert_decl n d E) m = Some g"
  with assms(1) show "decls (insert_decl n d E) m \<noteq> None" by (auto simp: groups_ok_def)
  from g assms(1) have "list_all (is_inductive_name E) (grp_inductives g)" by (auto simp: groups_ok_def)
  then show "list_all (is_inductive_name (insert_decl n d E)) (grp_inductives g)"
    using is_inductive_name_extends [OF env_extends_insert [OF assms(2)]] by (auto simp: list_all_iff)
qed

lemma env_wf_insert:
  assumes "env_wf E" and "decls E n = None" and "is_canonical_dotted_name n"
    and "decl_name d = n" and "decl_small d"
  shows "env_wf (insert_decl n d E)"
  using assms groups_ok_insert [of E n d]
  by (auto simp: env_wf_def decls_named_def env_small_def)

lemma env_typed_insert:
  assumes "env_typed E" and "groups_ok E" and "decls E n = None"
    and "decl_typed (insert_decl n d E) d"
  shows "env_typed (insert_decl n d E)"
  using assms decl_typed_extends [OF _ env_extends_insert [OF assms(3)] assms(2)]
  by (auto simp: env_typed_def)

section \<open>What the checks establish\<close>

lemma expect_sort_type_ok:
  assumes "env_small E" and "universe_context_new ps cs = Inr u" and "small t"
    and "expect_sort E u ctx_new t = Inr l"
  shows "type_ok E ps cs t"
proof -
  have "context_ok u" using universe_context_new_ok [OF assms(2)] by blast
  from infer_check_sound(3) [OF assms(1) this _ assms(3,4)] assms(2) show ?thesis
    by (auto simp: type_ok_def)
qed

lemma check_value_ok:
  assumes "env_small E" and "universe_context_new ps cs = Inr u" and "small v" and "small t"
    and "check E u ctx_new v t = Inr ()"
  shows "value_ok E ps cs v t"
proof -
  have "context_ok u" using universe_context_new_ok [OF assms(2)] by blast
  from infer_check_sound(2) [OF assms(1) this _ assms(3,4,5)] assms(2) show ?thesis
    by (auto simp: value_ok_def derives_def)
qed

text \<open>A declaration whose constraints do not depend on the environment.\<close>

definition standalone :: "decl \<Rightarrow> bool" where
  "standalone d =
     (case d of Inductive _ _ _ _ \<Rightarrow> False | Constructor _ _ _ _ \<Rightarrow> False
      | Recursor _ _ _ _ _ \<Rightarrow> False | MutualInductiveBlock _ _ _ \<Rightarrow> False | _ \<Rightarrow> True)"

lemma standalone_typed:
  assumes "standalone d" and "decl_ty d = Inr t"
    and "type_ok E (decl_universe_params d) (decl_universe_constraints d) t"
    and "\<And>v. decl_value d = Some v \<Longrightarrow>
      value_ok E (decl_universe_params d) (decl_universe_constraints d) v t"
  shows "decl_typed E d"
  using assms by (cases d) (auto simp: decl_typed_def decl_constraint_context_def standalone_def)

lemma env_typed_insert_standalone:
  assumes "env_typed E" and "groups_ok E" and "decls E n = None" and "decl_typed E d"
  shows "env_typed (insert_decl n d E)"
  using assms decl_typed_extends [OF assms(4) env_extends_insert [OF assms(3)] assms(2)]
  by (intro env_typed_insert)

text \<open>What an admission that files one declaration under a fresh name does.\<close>

lemma insert_keeps:
  assumes "ensure_fresh E n = Inr x" and "decl_name d = n" and "decl_small d"
  shows "env_wf E \<Longrightarrow> env_wf (insert_decl n d E)" and "env_extends E (insert_decl n d E)"
    and "env_wf E \<Longrightarrow> env_typed E \<Longrightarrow> decl_typed E d \<Longrightarrow> env_typed (insert_decl n d E)"
  using assms
  by (auto simp: ensure_fresh_iff intro: env_wf_insert env_extends_insert env_typed_insert_standalone)

section \<open>The admission interface\<close>

locale admission =
  fixes add :: "'r \<Rightarrow> env \<Rightarrow> env kresult" and ok :: "'r \<Rightarrow> bool"
  assumes keeps_wf: "env_wf E \<Longrightarrow> ok r \<Longrightarrow> add r E = Inr E' \<Longrightarrow> env_wf E'"
    and extends: "env_wf E \<Longrightarrow> ok r \<Longrightarrow> add r E = Inr E' \<Longrightarrow> env_extends E E'"
begin

lemma keeps_all:
  "env_wf E \<Longrightarrow> list_all ok rs \<Longrightarrow> fold_res add rs E = Inr E' \<Longrightarrow> env_wf E' \<and> env_extends E E'"
proof (induction rs arbitrary: E)
  case (Cons r rs)
  then obtain D where D: "add r E = Inr D" "fold_res add rs D = Inr E'" by (auto elim: rbind_InrE)
  with Cons.prems keeps_wf extends have "env_wf D" "env_extends E D" by auto
  with Cons.IH [of D] Cons.prems D(2) show ?case by (auto intro: env_extends_trans)
qed simp

lemma keeps_judgements:
  "env_wf E \<Longrightarrow> ok r \<Longrightarrow> add r E = Inr E' \<Longrightarrow> has_type E u \<Gamma> e t \<Longrightarrow> has_type E' u \<Gamma> e t"
  by (rule has_type_extends) (auto intro: extends)

end

locale typed_admission = admission +
  assumes keeps_typed: "env_wf E \<Longrightarrow> env_typed E \<Longrightarrow> ok r \<Longrightarrow> add r E = Inr E' \<Longrightarrow> env_typed E'"
begin

lemma all_typed:
  "env_wf E \<Longrightarrow> env_typed E \<Longrightarrow> list_all ok rs \<Longrightarrow> fold_res add rs E = Inr E' \<Longrightarrow> env_typed E'"
proof (induction rs arbitrary: E)
  case (Cons r rs)
  then obtain D where "add r E = Inr D" "fold_res add rs D = Inr E'" by (auto elim: rbind_InrE)
  with Cons keeps_wf [of E r D] keeps_typed [of E r D] show ?case by auto
qed simp

end

section \<open>Axioms, definitions and theorems\<close>

lemma add_axiomE:
  assumes "add_axiom_with_universe_constraints n ps cs t E = Inr E'"
  obtains u l where "ensure_fresh E n = Inr ()" "universe_context_new ps cs = Inr u"
    "expect_sort E u ctx_new t = Inr l"
    "E' = insert_decl n (if cs = [] then Axiom n ps t else AxiomConstrained n ps cs t) E"
  using assms by (auto simp: add_axiom_with_universe_constraints_def elim!: rbind_InrE)

lemma add_defE:
  assumes "add_def_with_universe_constraints n ps cs t v red E = Inr E'"
  obtains u l where "ensure_fresh E n = Inr ()" "universe_context_new ps cs = Inr u"
    "expect_sort E u ctx_new t = Inr l" "check E u ctx_new v t = Inr ()"
    "E' = insert_decl n (if cs = [] then Def n ps t v red else DefConstrained n ps cs t v red) E"
  using assms by (auto simp: add_def_with_universe_constraints_def elim!: rbind_InrE)

lemma add_theoremE:
  assumes "add_theorem_with_universe_constraints n ps cs t pf E = Inr E'"
  obtains u l where "ensure_fresh E n = Inr ()" "universe_context_new ps cs = Inr u"
    "expect_sort E u ctx_new t = Inr l" "check E u ctx_new pf t = Inr ()"
    "E' = insert_decl n (if cs = [] then Theorem n ps t pf else TheoremConstrained n ps cs t pf) E"
  using assms by (auto simp: add_theorem_with_universe_constraints_def elim!: rbind_InrE)

lemmas standalone_simps = standalone_def decl_value_def decl_small_def

interpretation axioms: typed_admission
  "\<lambda>(n, ps, cs, t). add_axiom_with_universe_constraints n ps cs t" "\<lambda>(n, ps, cs, t). small t"
  by unfold_locales
    (auto simp: standalone_simps elim!: add_axiomE
      intro!: insert_keeps standalone_typed expect_sort_type_ok)

interpretation definitions: typed_admission
  "\<lambda>(n, ps, cs, t, v, red). add_def_with_universe_constraints n ps cs t v red"
  "\<lambda>(n, ps, cs, t, v, red). small t \<and> small v"
  by unfold_locales
    (auto simp: standalone_simps split: if_splits elim!: add_defE
      intro!: insert_keeps standalone_typed expect_sort_type_ok check_value_ok)

interpretation theorems: typed_admission
  "\<lambda>(n, ps, cs, t, pf). add_theorem_with_universe_constraints n ps cs t pf"
  "\<lambda>(n, ps, cs, t, pf). small t \<and> small pf"
  by unfold_locales
    (auto simp: standalone_simps split: if_splits elim!: add_theoremE
      intro!: insert_keeps standalone_typed expect_sort_type_ok check_value_ok)

section \<open>Sequences of insertions\<close>

text \<open>
  The constructors of an inductive and the parts of a mutual block are inserted one after
  the other. Each step files at most one declaration, under a name of \<open>names x\<close>.
\<close>

definition inserts ::
  "('x \<Rightarrow> string list) \<Rightarrow> ('x \<Rightarrow> env \<Rightarrow> env kresult) \<Rightarrow> 'x \<Rightarrow> bool" where
  "inserts names f x \<longleftrightarrow>
     (\<forall>D D'. f x D = Inr D' \<longrightarrow> names x = [] \<and> D' = D \<or>
        (\<exists>n d. names x = [n] \<and> D' = insert_decl n d D \<and> decl_name d = n \<and> decl_small d))"

definition grows :: "string set \<Rightarrow> env \<Rightarrow> env \<Rightarrow> bool" where
  "grows N E E' \<longleftrightarrow> env_wf E' \<and> env_extends E E' \<and> mutual_groups E' = mutual_groups E \<and>
     (\<forall>n. n \<notin> N \<longrightarrow> decls E' n = decls E n)"

lemma grows_refl [simp]: "grows N E E \<longleftrightarrow> env_wf E"
  by (simp add: grows_def)

lemma grows_trans: "grows N E D \<Longrightarrow> grows M D E' \<Longrightarrow> grows (N \<union> M) E E'"
  by (auto simp: grows_def intro: env_extends_trans)

lemma grows_fresh: "grows N E E' \<Longrightarrow> decls E n = None \<Longrightarrow> n \<notin> N \<Longrightarrow> decls E' n = None"
  by (simp add: grows_def)

definition fresh_names :: "env \<Rightarrow> string list \<Rightarrow> bool" where
  "fresh_names E ns \<longleftrightarrow> distinct ns \<and> (\<forall>n \<in> set ns. is_canonical_dotted_name n \<and> decls E n = None)"

lemma fresh_names_append:
  "fresh_names E (ns @ ms) \<longleftrightarrow> fresh_names E ns \<and> fresh_names E ms \<and> set ns \<inter> set ms = {}"
  by (auto simp: fresh_names_def)

lemma fresh_names_Cons:
  "fresh_names E (n # ns) \<longleftrightarrow>
     is_canonical_dotted_name n \<and> decls E n = None \<and> n \<notin> set ns \<and> fresh_names E ns"
  by (auto simp: fresh_names_def)

lemma ensure_inductive_names_fresh_iff:
  "ensure_inductive_names_fresh E data = Inr x \<longleftrightarrow>
     fresh_names E (ind_name data # map ctor_name (ind_constructors data) @ recursor_names data)"
  unfolding ensure_inductive_names_fresh_def ensure_names_fresh_iff fresh_names_def by simp

lemma ensure_mutual_inductive_names_fresh_iff:
  "ensure_mutual_inductive_names_fresh E block = Inr x \<longleftrightarrow>
     fresh_names E (blk_name block # map ind_name (blk_inductives block)
       @ concat (map (\<lambda>data. map ctor_name (ind_constructors data)) (blk_inductives block))
       @ concat (map recursor_names (blk_inductives block)))"
  unfolding ensure_mutual_inductive_names_fresh_def ensure_names_fresh_iff fresh_names_def by simp

lemma fresh_names_grows:
  "fresh_names E ms \<Longrightarrow> grows N E E' \<Longrightarrow> N \<inter> set ms = {} \<Longrightarrow> fresh_names E' ms"
  unfolding fresh_names_def by (blast intro: grows_fresh)

lemma insert_grows:
  assumes "env_wf E" and "decls E n = None" and "is_canonical_dotted_name n"
    and "decl_name d = n" and "decl_small d"
  shows "grows {n} E (insert_decl n d E)"
  using assms by (auto simp: grows_def intro: env_wf_insert env_extends_insert)

lemma inserts_grows:
  assumes "inserts names f x" and "fresh_names E (names x)" and "env_wf E" and "f x E = Inr E'"
  shows "grows (set (names x)) E E'"
proof -
  from assms(1,4) consider "names x = []" "E' = E"
    | n d where "names x = [n]" "E' = insert_decl n d E" "decl_name d = n" "decl_small d"
    unfolding inserts_def by blast
  then show ?thesis using assms(2,3) by cases (auto simp: fresh_names_def intro!: insert_grows)
qed

lemma fold_inserts:
  assumes "fold_res f xs E = Inr E'" and "env_wf E" and "fresh_names E (concat (map names xs))"
    and "\<And>x. x \<in> set xs \<Longrightarrow> inserts names f x" and "Q E"
    and "\<And>x D D'. x \<in> set xs \<Longrightarrow> env_wf D \<Longrightarrow> fresh_names D (names x) \<Longrightarrow> Q D \<Longrightarrow>
      f x D = Inr D' \<Longrightarrow> grows (set (names x)) D D' \<Longrightarrow> Q D'"
  shows "grows (set (concat (map names xs))) E E' \<and> Q E'"
  using assms
proof (induction xs arbitrary: E)
  case (Cons x xs)
  then obtain D where D: "f x E = Inr D" "fold_res f xs D = Inr E'" by (auto elim: rbind_InrE)
  from Cons.prems(3) have fresh: "fresh_names E (names x)" "fresh_names E (concat (map names xs))"
    "set (names x) \<inter> set (concat (map names xs)) = {}"
    by (simp_all add: fresh_names_append del: set_concat)
  from inserts_grows [OF Cons.prems(4) fresh(1) Cons.prems(2) D(1)]
  have grows: "grows (set (names x)) E D" by simp
  have "Q D" by (rule Cons.prems(6) [OF _ Cons.prems(2) fresh(1) Cons.prems(5) D(1) grows]) simp
  moreover have "env_wf D" using grows by (simp add: grows_def)
  ultimately have "grows (set (concat (map names xs))) D E' \<and> Q E'"
    using fresh_names_grows [OF fresh(2) grows fresh(3)] D(2) Cons.prems(4,6)
    by (intro Cons.IH) auto
  with grows_trans [OF grows] show ?case by auto
qed simp

section \<open>Inductives\<close>

definition inductive_small :: "inductive_decl \<Rightarrow> bool" where
  "inductive_small data \<longleftrightarrow> small (inductive_type data) \<and>
     list_all (\<lambda>c. small (ctor_ty c)) (ind_constructors data) \<and>
     (case ind_recursor data of None \<Rightarrow> True | Some r \<Rightarrow> small (rec_ty r))"

lemma inductive_entry_small: "inductive_small data \<Longrightarrow> decl_small (inductive_entry data)"
  by (simp add: inductive_small_def inductive_entry_def decl_small_def list_all_iff)

lemma entry_names [simp]:
  "decl_name (inductive_entry data) = ind_name data"
  "decl_name (constructor_entry data c) = ctor_name c"
  "decl_name (recursor_entry data r rules) = rec_name r"
  by (simp_all add: inductive_entry_def constructor_entry_def recursor_entry_def)

text \<open>
  An inductive that is filed and in no group gives its constraints to its constructors and
  its recursor.
\<close>

definition filed :: "inductive_decl \<Rightarrow> env \<Rightarrow> bool" where
  "filed data E \<longleftrightarrow> decls E (ind_name data) = Some (inductive_entry data) \<and>
     mutual_groups E (ind_name data) = None"

lemma filed_typed:
  assumes "filed data E"
  shows "type_ok E (ind_universe_params data) (ind_universe_constraints data) (inductive_type data) \<Longrightarrow>
      decl_typed E (inductive_entry data)"
    and "type_ok E (ind_universe_params data) (ind_universe_constraints data) (ctor_ty c) \<Longrightarrow>
      decl_typed E (constructor_entry data c)"
    and "type_ok E (rec_universe_params r) (ind_universe_constraints data) (rec_ty r) \<Longrightarrow>
      decl_typed E (recursor_entry data r rules)"
  using assms
  by (auto simp: filed_def decl_typed_def decl_constraint_context_def decl_value_def
      inductive_constraint_context_def inductive_entry_def constructor_entry_def recursor_entry_def)

lemma filed_grows: "filed data E \<Longrightarrow> grows N E E' \<Longrightarrow> filed data E'"
  unfolding filed_def grows_def
  using env_extends_rigid [of E E' "ind_name data" "inductive_entry data"]
  by (auto simp: inductive_entry_def)

lemma group_fresh: "env_wf E \<Longrightarrow> decls E n = None \<Longrightarrow> mutual_groups E n = None"
  unfolding env_wf_def groups_ok_def by (metis not_None_eq)

text \<open>A declaration typed before it is filed keeps the environment typed.\<close>

lemma env_typed_filed:
  assumes "env_typed E" and "env_wf E" and "decls E n = None"
    and "type_ok E ps cs t"
    and "type_ok (insert_decl n d E) ps cs t \<Longrightarrow> decl_typed (insert_decl n d E) d"
  shows "env_typed (insert_decl n d E)"
  using assms type_ok_extends [OF assms(4) env_extends_insert [OF assms(3)]] env_typed_insert
  by blast

lemma constructor_inserts:
  "small (ctor_ty c) \<Longrightarrow> inserts (\<lambda>c. [ctor_name c]) (add_constructor data u) c"
  by (auto simp: inserts_def add_constructor_def constructor_entry_def decl_small_def
      elim!: rbind_InrE)

lemma recursor_inserts:
  assumes "inductive_small data"
  shows "inserts recursor_names add_recursor data"
  unfolding inserts_def
proof (intro allI impI)
  fix D D' assume a: "add_recursor data D = Inr D'"
  show "recursor_names data = [] \<and> D' = D \<or>
    (\<exists>n d. recursor_names data = [n] \<and> D' = insert_decl n d D \<and> decl_name d = n \<and> decl_small d)"
  proof (cases "ind_recursor data")
    case None
    with a show ?thesis by (simp add: add_recursor_def recursor_names_def)
  next
    case (Some r)
    with a obtain rules where "D' = insert_decl (rec_name r) (recursor_entry data r rules) D"
      by (auto simp: add_recursor_def Let_def elim!: rbind_InrE)
    moreover have "decl_small (recursor_entry data r rules)"
      using Some assms by (simp add: inductive_small_def recursor_entry_def decl_small_def)
    ultimately show ?thesis
      using Some entry_names(3) by (auto simp: recursor_names_def)
  qed
qed

lemma add_constructor_typed:
  assumes "add_constructor data u c D = Inr D'" and "env_wf D" and "env_typed D" and "filed data D"
    and "decls D (ctor_name c) = None" and "small (ctor_ty c)"
    and "universe_context_new (ind_universe_params data) (ind_universe_constraints data) = Inr u"
    and "filed data D'"
  shows "env_typed D'"
proof -
  from assms(1) obtain l where "expect_sort D u ctx_new (ctor_ty c) = Inr l"
    and D': "D' = insert_decl (ctor_name c) (constructor_entry data c) D"
    by (auto simp: add_constructor_def check_constructor_decl_def elim!: rbind_InrE)
  with assms have ok:
    "type_ok D (ind_universe_params data) (ind_universe_constraints data) (ctor_ty c)"
    by (blast intro: expect_sort_type_ok)
  show ?thesis
    unfolding D' using assms(8) filed_typed(2) [OF assms(8), of c]
    by (intro env_typed_filed [OF assms(3,2,5) ok]) (simp add: D')
qed

lemma add_recursor_typed:
  assumes "add_recursor data D = Inr D'" and "env_wf D" and "env_typed D" and "filed data D'"
    and "fresh_names D (recursor_names data)" and "inductive_small data"
  shows "env_typed D'"
proof (cases "ind_recursor data")
  case None
  with assms show ?thesis by (simp add: add_recursor_def)
next
  case (Some r)
  with assms(1) obtain u l rules where
    u: "universe_context_new (rec_universe_params r) (ind_universe_constraints data) = Inr u"
    and sort: "expect_sort D u ctx_new (rec_ty r) = Inr l"
    and D': "D' = insert_decl (rec_name r) (recursor_entry data r rules) D"
    by (auto simp: add_recursor_def Let_def elim!: rbind_InrE)
  from Some assms(5,6) have fresh: "decls D (rec_name r) = None" and small: "small (rec_ty r)"
    by (simp_all add: fresh_names_def recursor_names_def inductive_small_def)
  have ok: "type_ok D (rec_universe_params r) (ind_universe_constraints data) (rec_ty r)"
    using assms(2) by (blast intro: expect_sort_type_ok [OF _ u small sort])
  show ?thesis
    unfolding D' using filed_typed(3) [OF assms(4), of r rules]
    by (intro env_typed_filed [OF assms(3,2) fresh ok]) (simp add: D')
qed

lemma add_inductiveE:
  assumes "add_inductive data E = Inr E'"
  obtains u l D where
    "universe_context_new (ind_universe_params data) (ind_universe_constraints data) = Inr u"
    "fresh_names E (ind_name data # map ctor_name (ind_constructors data) @ recursor_names data)"
    "expect_sort E u ctx_new (inductive_type data) = Inr l"
    "fold_res (add_constructor data u) (ind_constructors data)
       (insert_decl (ind_name data) (inductive_entry data) E) = Inr D"
    "add_recursor data D = Inr E'"
  using assms unfolding add_inductive_def
  by (elim rbind_InrE) (simp add: ensure_inductive_names_fresh_iff)

lemma add_inductive_keeps:
  assumes "add_inductive data E = Inr E'" and "env_wf E" and "inductive_small data"
  shows "env_wf E' \<and> env_extends E E' \<and> (env_typed E \<longrightarrow> env_typed E')"
  using assms(1)
proof (rule add_inductiveE)
  fix u l D
  let ?E1 = "insert_decl (ind_name data) (inductive_entry data) E"
  let ?Q = "\<lambda>D. filed data D \<and> (env_typed E \<longrightarrow> env_typed D)"
  assume u: "universe_context_new (ind_universe_params data) (ind_universe_constraints data) = Inr u"
    and fresh: "fresh_names E (ind_name data # map ctor_name (ind_constructors data) @ recursor_names data)"
    and sort: "expect_sort E u ctx_new (inductive_type data) = Inr l"
    and ctors: "fold_res (add_constructor data u) (ind_constructors data) ?E1 = Inr D"
    and reco: "add_recursor data D = Inr E'"
  from fresh have n: "decls E (ind_name data) = None" "is_canonical_dotted_name (ind_name data)"
    by (simp_all add: fresh_names_Cons)
  have g1: "grows {ind_name data} E ?E1"
    using assms(2,3) n by (intro insert_grows) (simp_all add: inductive_entry_small)
  have filed: "filed data ?E1" using group_fresh [OF assms(2) n(1)] by (simp add: filed_def)
  have "type_ok E (ind_universe_params data) (ind_universe_constraints data) (inductive_type data)"
    using assms(2,3) by (blast intro: expect_sort_type_ok [OF _ u _ sort] dest: inductive_small_def [THEN iffD1])
  then have typed: "env_typed E \<longrightarrow> env_typed ?E1"
    using filed_typed(1) [OF filed] assms(2) n(1) by (auto intro: env_typed_filed)
  have names: "fresh_names ?E1 (concat (map (\<lambda>c. [ctor_name c]) (ind_constructors data)))"
    using fresh fresh_names_grows [OF _ g1] by (auto simp: fresh_names_Cons fresh_names_append)
  have small: "small (ctor_ty c)" if "c \<in> set (ind_constructors data)" for c
    using assms(3) that by (simp add: inductive_small_def list_all_iff)
  have "env_wf ?E1" using g1 by (simp add: grows_def)
  have step: "grows (set (concat (map (\<lambda>c. [ctor_name c]) (ind_constructors data)))) ?E1 D \<and> ?Q D"
    by (rule fold_inserts [OF ctors \<open>env_wf ?E1\<close> names])
      (use filed typed small u in \<open>auto intro: constructor_inserts filed_grows
        add_constructor_typed simp: fresh_names_def\<close>)
  then have D: "env_wf D" "?Q D" by (auto simp: grows_def)
  have fresh_rec: "fresh_names D (recursor_names data)"
    using fresh fresh_names_grows [OF _ grows_trans [OF g1 conjunct1 [OF step]]]
    by (auto simp: fresh_names_Cons fresh_names_append)
  from inserts_grows [OF recursor_inserts [OF assms(3)] fresh_rec D(1) reco]
  have g3: "grows (set (recursor_names data)) D E'" .
  with D add_recursor_typed [OF reco D(1) _ filed_grows fresh_rec assms(3)]
  have "env_typed E \<longrightarrow> env_typed E'" by blast
  with grows_trans [OF grows_trans [OF g1 conjunct1 [OF step]] g3] show ?thesis
    by (simp add: grows_def)
qed

interpretation inductives: typed_admission add_inductive inductive_small
  by unfold_locales (auto dest: add_inductive_keeps)

end
