(* ===== verification/Kernel_Mutual.thy ===== *)
theory Kernel_Mutual
  imports Kernel_Invariant
begin

text \<open>
  Mutual blocks and the invariant. The source files the families, the constructors and the
  recursors of a block one after the other and records its group at the end. Every block
  keeps the environment well formed and extends it; a block that has no universe
  constraints and at most one recursor also keeps it typed.
\<close>

section \<open>Mutual blocks\<close>

lemma decls_insert_group [simp]: "decls (insert_group g E) = decls E"
  by (simp add: insert_group_def)

lemma fold_group:
  "fold (\<lambda>n m. m(n \<mapsto> g)) ns m k = (if k \<in> set ns then Some g else m k)"
  by (induction ns arbitrary: m) auto

lemma groups_insert_group [simp]:
  "mutual_groups (insert_group g E) n =
     (if n \<in> set (grp_inductives g) then Some g else mutual_groups E n)"
  by (simp add: insert_group_def fold_group)

lemma insert_group_insert_decl:
  "insert_group g (insert_decl n d E) = insert_decl n d (insert_group g E)"
  by (simp add: insert_group_def insert_decl_def)

lemma is_inductive_name_group [simp]: "is_inductive_name (insert_group g E) = is_inductive_name E"
  by (rule ext) (simp add: is_inductive_name_def inductive_data_def)

lemma has_recursor_group [simp]: "has_recursor (insert_group g E) = has_recursor E"
  by (rule ext) (simp add: has_recursor_def)

text \<open>Recording a group of filed inductives keeps the environment well formed.\<close>

lemma env_wf_insert_group:
  assumes "env_wf E" and "list_all (\<lambda>data. filed data E) fs" and "grp_inductives g = map ind_name fs"
  shows "env_wf (insert_group g E)"
proof -
  have named: "decls E (ind_name data) \<noteq> None \<and> is_inductive_name E (ind_name data)"
    if "data \<in> set fs" for data
    using assms(2) that
    by (auto simp: list_all_iff filed_def is_inductive_name_def inductive_data_def inductive_entry_def)
  have "groups_ok (insert_group g E)"
    unfolding groups_ok_def
    using assms(1,3) named by (auto simp: env_wf_def groups_ok_def list_all_iff)
  with assms(1) show ?thesis by (simp add: env_wf_def decls_named_def env_small_def)
qed

lemma env_extends_insert_group_fresh:
  assumes "env_extends E D" and "\<And>n. n \<in> set (grp_inductives g) \<Longrightarrow> decls E n = None"
  shows "env_extends E (insert_group g D)"
  unfolding env_extends_def
proof (intro conjI allI impI)
  fix n assume n: "decls E n \<noteq> None"
  with assms(2) have "n \<notin> set (grp_inductives g)" by auto
  then have "inductive_constraint_context (insert_group g D) n = inductive_constraint_context D n"
    by (intro inductive_constraint_context_cong) auto
  with assms(1) n show "inductive_constraint_context (insert_group g D) n = inductive_constraint_context E n"
    by (simp add: env_extends_def)
next
  fix n assume "has_recursor E n"
  with assms show "mutual_groups (insert_group g D) n = mutual_groups E n"
    by (auto simp: has_recursor_def env_extends_group)
qed (use assms(1) in \<open>auto dest: env_extends_decl\<close>)

text \<open>
  Recording a group changes no conversion when its families have no recursor yet, and no
  constraint when the families carry the constraints of the group.
\<close>

lemma env_extends_regroup:
  assumes "\<And>n. n \<in> set (grp_inductives g) \<Longrightarrow> \<not> has_recursor E n"
    and "\<And>n. n \<in> set (grp_inductives g) \<Longrightarrow> inductive_constraint_context E n =
      Inr (grp_universe_params g, grp_universe_constraints g)"
  shows "env_extends E (insert_group g E)"
proof -
  have "inductive_constraint_context (insert_group g E) n = inductive_constraint_context E n" for n
  proof (cases "n \<in> set (grp_inductives g)")
    case True
    with assms(2) show ?thesis by (simp add: inductive_constraint_context_def)
  next
    case False
    then show ?thesis by (intro inductive_constraint_context_cong) auto
  qed
  with assms(1) show ?thesis by (auto simp: env_extends_def)
qed

lemma fold_marks:
  assumes "fold_res f xs E = Inr E'" and "env_wf E" and "fresh_names E (concat (map names xs))"
    and "\<And>x. x \<in> set xs \<Longrightarrow> inserts names f x"
    and "\<And>x D D'. x \<in> set xs \<Longrightarrow> env_wf D \<Longrightarrow> fresh_names D (names x) \<Longrightarrow> f x D = Inr D' \<Longrightarrow> R x D'"
    and "\<And>x N D D'. R x D \<Longrightarrow> grows N D D' \<Longrightarrow> R x D'"
  shows "list_all (\<lambda>x. R x E') xs"
  using assms(1-5)
proof (induction xs arbitrary: E)
  case (Cons x xs)
  then obtain D where D: "f x E = Inr D" "fold_res f xs D = Inr E'" by (auto elim: rbind_InrE)
  from Cons.prems(3) have fresh: "fresh_names E (names x)" "fresh_names E (concat (map names xs))"
    "set (names x) \<inter> set (concat (map names xs)) = {}"
    by (simp_all add: fresh_names_append del: set_concat)
  have grows: "grows (set (names x)) E D"
    using inserts_grows [OF Cons.prems(4) fresh(1) Cons.prems(2) D(1)] by simp
  then have wf: "env_wf D" by (simp add: grows_def)
  note fresh' = fresh_names_grows [OF fresh(2) grows fresh(3)]
  have rest: "grows (set (concat (map names xs))) D E'"
    using fold_inserts [OF D(2) wf fresh', of "\<lambda>_. True"] Cons.prems(4) by auto
  have "R x D" using Cons.prems(5) [OF _ Cons.prems(2) fresh(1) D(1)] by simp
  with assms(6) rest have "R x E'" by blast
  moreover have "list_all (\<lambda>x. R x E') xs"
    using Cons.IH [OF D(2) wf fresh'] Cons.prems(4,5) by simp
  ultimately show ?case by simp
qed simp

lemma check_shared_telescopes:
  assumes "check_all (check_shared_telescope block u) fs = Inr x"
  shows "\<forall>data \<in> set fs. ind_universe_params data = blk_universe_params block \<and>
    ind_universe_constraints data = []"
  using assms by (fastforce simp: check_all_eq_Inr check_shared_telescope_def rbind_eq_Inr)

lemma add_mutual_inductiveE:
  assumes "add_mutual_inductive block E = Inr E'"
  obtains u E1 E2 E3 where
    "universe_context_new (blk_universe_params block) (blk_universe_constraints block) = Inr u"
    "fresh_names E (blk_name block # map ind_name (blk_inductives block)
       @ concat (map (\<lambda>data. map ctor_name (ind_constructors data)) (blk_inductives block))
       @ concat (map recursor_names (blk_inductives block)))"
    "\<forall>data \<in> set (blk_inductives block). ind_universe_params data = blk_universe_params block \<and>
       ind_universe_constraints data = []"
    "fold_res (add_mutual_family u) (blk_inductives block) E = Inr E1"
    "fold_res (add_mutual_constructor block u)
       (concat (map (\<lambda>data. map (Pair data) (ind_constructors data)) (blk_inductives block))) E1
       = Inr E2"
    "fold_res (add_mutual_recursor block) (blk_inductives block) E2 = Inr E3"
    "E' = insert_group (block_group block) E3"
  using assms unfolding add_mutual_inductive_def
  by (elim rbind_InrE)
    (simp add: ensure_mutual_inductive_names_fresh_iff check_shared_telescopes)

lemma family_inserts:
  "inductive_small data \<Longrightarrow> inserts (\<lambda>data. [ind_name data]) (add_mutual_family u) data"
  by (auto simp: inserts_def add_mutual_family_def intro: inductive_entry_small elim!: rbind_InrE)

lemma mutual_constructor_inserts:
  "small (ctor_ty (snd p)) \<Longrightarrow>
   inserts (\<lambda>p. [ctor_name (snd p)]) (add_mutual_constructor block u) p"
  by (cases p) (auto simp: inserts_def add_mutual_constructor_def constructor_entry_def decl_small_def
      elim!: rbind_InrE)

lemma add_mutual_recursorE:
  assumes "add_mutual_recursor block data D = Inr D'" and "ind_recursor data = Some r"
  obtains u l rules where
    "universe_context_new (rec_universe_params r) (blk_universe_constraints block) = Inr u"
    "expect_sort D u ctx_new (rec_ty r) = Inr l"
    "D' = insert_decl (rec_name r) (recursor_entry data r rules) D"
  using assms by (auto simp: add_mutual_recursor_def Let_def elim!: rbind_InrE)

lemma mutual_recursor_inserts:
  assumes "inductive_small data"
  shows "inserts recursor_names (add_mutual_recursor block) data"
  unfolding inserts_def
proof (intro allI impI)
  fix D D' assume a: "add_mutual_recursor block data D = Inr D'"
  show "recursor_names data = [] \<and> D' = D \<or>
    (\<exists>n d. recursor_names data = [n] \<and> D' = insert_decl n d D \<and> decl_name d = n \<and> decl_small d)"
  proof (cases "ind_recursor data")
    case None
    with a show ?thesis by (simp add: add_mutual_recursor_def recursor_names_def)
  next
    case (Some r)
    from a Some obtain rules where "D' = insert_decl (rec_name r) (recursor_entry data r rules) D"
      by (rule add_mutual_recursorE)
    moreover have "decl_small (recursor_entry data r rules)"
      using Some assms by (simp add: inductive_small_def recursor_entry_def decl_small_def)
    ultimately show ?thesis
      using Some entry_names(3) by (auto simp: recursor_names_def)
  qed
qed

text \<open>
  A block is simple when it has no universe constraints and at most one recursor. For such
  a block the missing group has no effect while the block is checked.
\<close>

definition simple_block :: "mutual_inductive_block \<Rightarrow> bool" where
  "simple_block block \<longleftrightarrow> blk_universe_constraints block = [] \<and>
     length (concat (map recursor_names (blk_inductives block))) \<le> 1"

definition block_small :: "mutual_inductive_block \<Rightarrow> bool" where
  "block_small block \<longleftrightarrow> list_all inductive_small (blk_inductives block)"

text \<open>No recursor belongs to one of the families.\<close>

definition unowned :: "inductive_decl list \<Rightarrow> env \<Rightarrow> bool" where
  "unowned fs D \<longleftrightarrow>
     (\<forall>n k ps t m rules. decls D n = Some (Recursor k ps t m rules) \<longrightarrow> m \<notin> ind_name ` set fs)"

lemma recursor_owner_declared:
  assumes "env_typed E" and "groups_ok E" and "decls E n = Some (Recursor k ps t m rules)"
  shows "decls E m \<noteq> None"
proof -
  from assms(1,3) have "decl_typed E (Recursor k ps t m rules)" by (simp add: env_typed_def)
  then obtain c where "inductive_constraint_context E m = Inr c"
    by (auto simp: decl_typed_def decl_constraint_context_def)
  with assms(2) show ?thesis
    by (auto simp: inductive_constraint_context_def groups_ok_def split: option.splits)
qed

lemma unowned_fresh:
  "env_typed E \<Longrightarrow> groups_ok E \<Longrightarrow> (\<And>data. data \<in> set fs \<Longrightarrow> decls E (ind_name data) = None) \<Longrightarrow>
   unowned fs E"
  unfolding unowned_def using recursor_owner_declared by (metis (no_types, lifting) imageE)

lemma unowned_insert [simp]:
  "unowned fs D \<Longrightarrow> unowned fs (insert_decl n (inductive_entry data) D)"
  "unowned fs D \<Longrightarrow> unowned fs (insert_decl n (constructor_entry data c) D)"
  by (auto simp: unowned_def inductive_entry_def constructor_entry_def)

lemma unowned_no_recursor: "unowned fs D \<Longrightarrow> n \<in> ind_name ` set fs \<Longrightarrow> \<not> has_recursor D n"
  unfolding unowned_def has_recursor_def by blast

lemma families_stage:
  assumes "fold_res (add_mutual_family u) fs E = Inr E1" and "env_wf E"
    and "fresh_names E (map ind_name fs)" and "list_all inductive_small fs" and "P E"
    and "\<And>data D D'. data \<in> set fs \<Longrightarrow> env_wf D \<Longrightarrow> decls D (ind_name data) = None \<Longrightarrow>
      add_mutual_family u data D = Inr D' \<Longrightarrow> filed data D' \<Longrightarrow> P D \<Longrightarrow> P D'"
  shows "grows (set (map ind_name fs)) E E1 \<and> list_all (\<lambda>data. filed data E1) fs \<and> P E1"
proof -
  have names: "fresh_names E (concat (map (\<lambda>data. [ind_name data]) fs))" using assms(3) by simp
  have filed: "filed data D'" if "env_wf D" "fresh_names D [ind_name data]"
    "add_mutual_family u data D = Inr D'" for data D D'
    using that group_fresh [of D "ind_name data"]
    by (auto simp: add_mutual_family_def filed_def fresh_names_def elim!: rbind_InrE)
  have "list_all (\<lambda>data. filed data E1) fs"
    by (rule fold_marks [OF assms(1,2) names])
      (use assms(4) in \<open>auto simp: list_all_iff intro: family_inserts filed filed_grows\<close>)
  moreover have "grows (set (concat (map (\<lambda>data. [ind_name data]) fs))) E E1 \<and> P E1"
    by (rule fold_inserts [OF assms(1,2) names])
      (use assms(4-6) filed in \<open>auto simp: list_all_iff fresh_names_Cons intro: family_inserts\<close>)
  ultimately show ?thesis by simp
qed

lemma constructors_stage:
  assumes "fold_res (add_mutual_constructor block u)
      (concat (map (\<lambda>data. map (Pair data) (ind_constructors data)) fs)) E1 = Inr E2"
    and "env_wf E1" and "fresh_names E1 (concat (map (\<lambda>data. map ctor_name (ind_constructors data)) fs))"
    and "list_all inductive_small fs" and "P E1"
    and "\<And>data c D D'. data \<in> set fs \<Longrightarrow> c \<in> set (ind_constructors data) \<Longrightarrow> env_wf D \<Longrightarrow>
      decls D (ctor_name c) = None \<Longrightarrow> add_mutual_constructor block u (data, c) D = Inr D' \<Longrightarrow>
      grows {ctor_name c} D D' \<Longrightarrow> P D \<Longrightarrow> P D'"
  shows "grows (set (concat (map (\<lambda>data. map ctor_name (ind_constructors data)) fs))) E1 E2 \<and> P E2"
proof -
  let ?xs = "concat (map (\<lambda>data. map (Pair data) (ind_constructors data)) fs)"
  have names: "concat (map (\<lambda>p. [ctor_name (snd p)]) ?xs) =
      concat (map (\<lambda>data. map ctor_name (ind_constructors data)) fs)"
    by (induction fs) (simp_all add: comp_def)
  have small: "small (ctor_ty c)" if "data \<in> set fs" "c \<in> set (ind_constructors data)" for data c
    using assms(4) that by (auto simp: list_all_iff inductive_small_def)
  have "grows (set (concat (map (\<lambda>p. [ctor_name (snd p)]) ?xs))) E1 E2 \<and> P E2"
    by (rule fold_inserts [OF assms(1,2) assms(3) [folded names]])
      (use small assms(5,6) in \<open>auto simp: fresh_names_Cons intro: mutual_constructor_inserts\<close>)
  then show ?thesis unfolding names .
qed

lemma recursors_stage:
  assumes "fold_res (add_mutual_recursor block) fs E2 = Inr E3" and "env_wf E2"
    and "fresh_names E2 (concat (map recursor_names fs))" and "list_all inductive_small fs"
  shows "grows (set (concat (map recursor_names fs))) E2 E3"
  using fold_inserts [OF assms(1-3), of "\<lambda>_. True"] assms(4)
  by (auto simp: list_all_iff intro: mutual_recursor_inserts)

lemma filed_all_grows:
  "list_all (\<lambda>data. filed data D) fs \<Longrightarrow> grows N D D' \<Longrightarrow> list_all (\<lambda>data. filed data D') fs"
  by (auto simp: list_all_iff intro: filed_grows)

lemma fresh_stage:
  "fresh_names E (b # ns @ ms @ ks) \<Longrightarrow> fresh_names E ns"
  "fresh_names E (b # ns @ ms @ ks) \<Longrightarrow> grows (set ns) E E1 \<Longrightarrow> fresh_names E1 ms"
  "fresh_names E (b # ns @ ms @ ks) \<Longrightarrow> grows (set ns \<union> set ms) E E2 \<Longrightarrow> fresh_names E2 ks"
  by (auto simp: fresh_names_Cons fresh_names_append intro: fresh_names_grows)

text \<open>
  The stages of a block: its families and constructors are filed, with a property \<open>P\<close> kept
  by every step; then its recursors, and at the end its group.
\<close>

lemma mutual_stages:
  assumes "add_mutual_inductive block E = Inr E'" and "env_wf E" and "block_small block" and "P E"
    and family: "\<And>u data D D'. universe_context_new (blk_universe_params block)
        (blk_universe_constraints block) = Inr u \<Longrightarrow> data \<in> set (blk_inductives block) \<Longrightarrow>
      ind_universe_params data = blk_universe_params block \<Longrightarrow> ind_universe_constraints data = [] \<Longrightarrow>
      env_wf D \<Longrightarrow> decls D (ind_name data) = None \<Longrightarrow> add_mutual_family u data D = Inr D' \<Longrightarrow>
      filed data D' \<Longrightarrow> P D \<Longrightarrow> P D'"
    and ctor: "\<And>u data c D D'. universe_context_new (blk_universe_params block)
        (blk_universe_constraints block) = Inr u \<Longrightarrow> data \<in> set (blk_inductives block) \<Longrightarrow>
      ind_universe_params data = blk_universe_params block \<Longrightarrow> ind_universe_constraints data = [] \<Longrightarrow>
      c \<in> set (ind_constructors data) \<Longrightarrow> env_wf D \<Longrightarrow> decls D (ctor_name c) = None \<Longrightarrow>
      add_mutual_constructor block u (data, c) D = Inr D' \<Longrightarrow> filed data D' \<Longrightarrow> P D \<Longrightarrow> P D'"
  obtains E2 E3 N where "env_wf E2" "env_extends E E2" "P E2"
    "list_all (\<lambda>data. filed data E2 \<and> decls E (ind_name data) = None \<and>
       ind_universe_params data = blk_universe_params block \<and> ind_universe_constraints data = [])
       (blk_inductives block)"
    "fresh_names E2 (concat (map recursor_names (blk_inductives block)))"
    "fold_res (add_mutual_recursor block) (blk_inductives block) E2 = Inr E3" "grows N E2 E3"
    "E' = insert_group (block_group block) E3"
  using assms(1)
proof (rule add_mutual_inductiveE)
  fix u E1 E2 E3
  let ?fs = "blk_inductives block"
  let ?filed = "\<lambda>D. list_all (\<lambda>data. filed data D) ?fs"
  assume u: "universe_context_new (blk_universe_params block) (blk_universe_constraints block) = Inr u"
    and fresh: "fresh_names E (blk_name block # map ind_name ?fs
       @ concat (map (\<lambda>data. map ctor_name (ind_constructors data)) ?fs)
       @ concat (map recursor_names ?fs))"
    and tele: "\<forall>data \<in> set ?fs. ind_universe_params data = blk_universe_params block \<and>
       ind_universe_constraints data = []"
    and f: "fold_res (add_mutual_family u) ?fs E = Inr E1"
    and c: "fold_res (add_mutual_constructor block u)
       (concat (map (\<lambda>data. map (Pair data) (ind_constructors data)) ?fs)) E1 = Inr E2"
    and r: "fold_res (add_mutual_recursor block) ?fs E2 = Inr E3"
    and E': "E' = insert_group (block_group block) E3"
  have small: "list_all inductive_small ?fs" using assms(3) by (simp add: block_small_def)
  have 1: "grows (set (map ind_name ?fs)) E E1 \<and> ?filed E1 \<and> P E1"
    using families_stage [OF f assms(2) fresh_stage(1) [OF fresh] small, of P] assms(4) family [OF u] tele
    by simp
  have 2: "grows (set (concat (map (\<lambda>data. map ctor_name (ind_constructors data)) ?fs))) E1 E2 \<and>
      (?filed E2 \<and> P E2)"
  proof (rule constructors_stage [OF c _ fresh_stage(2) [OF fresh] small])
    fix data k D D'
    assume s: "data \<in> set ?fs" "k \<in> set (ind_constructors data)" "env_wf D"
      "decls D (ctor_name k) = None" "add_mutual_constructor block u (data, k) D = Inr D'"
      "grows {ctor_name k} D D'" "?filed D \<and> P D"
    then have filed: "?filed D'" using filed_all_grows by blast
    with s ctor [OF u] tele show "?filed D' \<and> P D'" by (simp add: list_all_iff)
  qed (use 1 in \<open>auto simp: grows_def\<close>)
  note g2 = grows_trans [OF conjunct1 [OF 1] conjunct1 [OF 2]]
  note fresh3 = fresh_stage(3) [OF fresh g2]
  have E2: "env_wf E2" "env_extends E E2" using g2 by (simp_all add: grows_def)
  from recursors_stage [OF r E2(1) fresh3 small]
  have g3: "grows (set (concat (map recursor_names ?fs))) E2 E3" .
  show thesis
    by (rule that [OF E2 _ _ fresh3 r g3 E'])
      (use 2 tele fresh_stage(1) [OF fresh] in \<open>auto simp: list_all_iff fresh_names_def\<close>)
qed

text \<open>Every block keeps the environment well formed and extends it.\<close>

lemma grp_block_group [simp]:
  "grp_inductives (block_group block) = map ind_name (blk_inductives block)"
  "grp_universe_params (block_group block) = blk_universe_params block"
  "grp_universe_constraints (block_group block) = blk_universe_constraints block"
  by (simp_all add: block_group_def)

lemma add_mutual_keeps:
  assumes "add_mutual_inductive block E = Inr E'" and "env_wf E" and "block_small block"
  shows "env_wf E' \<and> env_extends E E'"
proof (rule mutual_stages [OF assms, of "\<lambda>_. True"])
  fix E2 E3 N
  assume E2: "env_extends E E2" and fs: "list_all (\<lambda>data. filed data E2 \<and> decls E (ind_name data) = None \<and>
       ind_universe_params data = blk_universe_params block \<and> ind_universe_constraints data = [])
       (blk_inductives block)"
    and g: "grows N E2 E3" and E': "E' = insert_group (block_group block) E3"
  from g E2 have E3: "env_wf E3" "env_extends E E3"
    by (auto simp: grows_def intro: env_extends_trans)
  have "list_all (\<lambda>data. filed data E3) (blk_inductives block)"
    using fs by (intro filed_all_grows [OF _ g]) (simp add: list_all_iff)
  moreover have "env_extends E (insert_group (block_group block) E3)"
    by (rule env_extends_insert_group_fresh [OF E3(2)]) (use fs in \<open>auto simp: list_all_iff\<close>)
  ultimately show ?thesis
    using env_wf_insert_group [OF E3(1) _ grp_block_group(1)] by (simp add: E')
qed simp_all

interpretation mutual_blocks: admission add_mutual_inductive block_small
  by unfold_locales (auto dest: add_mutual_keeps)

text \<open>A simple block also keeps it typed.\<close>

lemma add_mutual_family_typed:
  assumes "add_mutual_family u data D = Inr D'" and "env_wf D" and "decls D (ind_name data) = None"
    and "universe_context_new (ind_universe_params data) (ind_universe_constraints data) = Inr u"
    and "inductive_small data" and "filed data D'" and "env_typed D" and "unowned fs D"
  shows "env_typed D' \<and> unowned fs D'"
proof -
  from assms(1) obtain l where l: "expect_sort D u ctx_new (inductive_type data) = Inr l"
    and D': "D' = insert_decl (ind_name data) (inductive_entry data) D"
    by (auto simp: add_mutual_family_def elim!: rbind_InrE)
  from assms(2,5) have "type_ok D (ind_universe_params data) (ind_universe_constraints data) (inductive_type data)"
    by (intro expect_sort_type_ok [OF _ assms(4) _ l]) (auto simp: inductive_small_def)
  with assms filed_typed(1) [OF assms(6)] show ?thesis
    unfolding D' by (auto intro: env_typed_filed)
qed

lemma add_mutual_constructor_typed:
  assumes "add_mutual_constructor block u (data, c) D = Inr D'" and "env_wf D"
    and "decls D (ctor_name c) = None" and "small (ctor_ty c)"
    and "universe_context_new (ind_universe_params data) (ind_universe_constraints data) = Inr u"
    and "filed data D'" and "env_typed D" and "unowned fs D"
  shows "env_typed D' \<and> unowned fs D'"
proof -
  from assms(1) obtain l where l: "expect_sort D u ctx_new (ctor_ty c) = Inr l"
    and D': "D' = insert_decl (ctor_name c) (constructor_entry data c) D"
    by (auto simp: add_mutual_constructor_def check_mutual_constructor_decl_def elim!: rbind_InrE)
  from assms(2,4) have "type_ok D (ind_universe_params data) (ind_universe_constraints data) (ctor_ty c)"
    by (intro expect_sort_type_ok [OF _ assms(5) _ l]) auto
  with assms filed_typed(2) [OF assms(6), of c] show ?thesis
    unfolding D' by (auto intro: env_typed_filed)
qed

lemma no_recursors:
  "fold_res (add_mutual_recursor block) fs D = Inr D' \<Longrightarrow> concat (map recursor_names fs) = [] \<Longrightarrow> D' = D"
  by (induction fs arbitrary: D)
    (auto simp: recursor_names_def add_mutual_recursor_def split: option.splits)

lemma one_recursor:
  assumes "fold_res (add_mutual_recursor block) fs D = Inr D'"
    and "length (concat (map recursor_names fs)) \<le> 1"
  shows "D' = D \<or> (\<exists>data r. data \<in> set fs \<and> ind_recursor data = Some r \<and>
    concat (map recursor_names fs) = [rec_name r] \<and> add_mutual_recursor block data D = Inr D')"
  using assms
proof (induction fs arbitrary: D)
  case (Cons x xs)
  then obtain D1 where D1: "add_mutual_recursor block x D = Inr D1"
    "fold_res (add_mutual_recursor block) xs D1 = Inr D'" by (auto elim: rbind_InrE)
  show ?case
  proof (cases "ind_recursor x")
    case None
    with D1 have "D1 = D" by (simp add: add_mutual_recursor_def)
    with Cons.IH [of D] Cons.prems(2) D1(2) None show ?thesis by (auto simp: recursor_names_def)
  next
    case (Some r)
    with Cons.prems(2) have none: "concat (map recursor_names xs) = []" by (simp add: recursor_names_def)
    from no_recursors [OF D1(2) none] D1(1) Some none show ?thesis
      by (auto simp: recursor_names_def)
  qed
qed simp

lemma env_typed_regroup:
  assumes "env_typed E" and "env_wf E" and "env_extends E (insert_group g E)"
  shows "env_typed (insert_group g E)"
  using assms decl_typed_extends [OF _ assms(3)] by (auto simp: env_typed_def)

lemma group_constraints:
  "filed data E \<Longrightarrow> inductive_constraint_context E (ind_name data) =
     Inr (ind_universe_params data, ind_universe_constraints data)"
  by (simp add: filed_def inductive_constraint_context_def inductive_entry_def)

lemma add_mutual_typed:
  assumes "add_mutual_inductive block E = Inr E'" and "env_wf E" and "block_small block"
    and "simple_block block" and "env_typed E"
  shows "env_typed E'"
proof (rule mutual_stages [OF assms(1-3), where
      P = "\<lambda>D. env_typed E \<and> (\<forall>data \<in> set (blk_inductives block). decls E (ind_name data) = None)
        \<longrightarrow> env_typed D \<and> unowned (blk_inductives block) D"])
  let ?fs = "blk_inductives block"
  let ?g = "block_group block"
  fix E2 E3 N
  assume E2: "env_wf E2" "env_typed E \<and> (\<forall>data \<in> set ?fs. decls E (ind_name data) = None)
        \<longrightarrow> env_typed E2 \<and> unowned ?fs E2"
    and fs: "list_all (\<lambda>data. filed data E2 \<and> decls E (ind_name data) = None \<and>
       ind_universe_params data = blk_universe_params block \<and> ind_universe_constraints data = []) ?fs"
    and fresh: "fresh_names E2 (concat (map recursor_names ?fs))"
    and r: "fold_res (add_mutual_recursor block) ?fs E2 = Inr E3"
    and E': "E' = insert_group ?g E3"
  from E2 fs assms(5) have typed: "env_typed E2" "unowned ?fs E2" by (auto simp: list_all_iff)
  have cs: "blk_universe_constraints block = []"
    and one: "length (concat (map recursor_names ?fs)) \<le> 1"
    using assms(4) by (simp_all add: simple_block_def)
  have regroup: "env_extends E2 (insert_group ?g E2)"
    by (rule env_extends_regroup)
      (use unowned_no_recursor [OF typed(2)] fs group_constraints cs in \<open>auto simp: list_all_iff\<close>)
  note base = env_typed_regroup [OF typed(1) E2(1) regroup]
  from one_recursor [OF r one] consider "E3 = E2"
    | data rc where "data \<in> set ?fs" "ind_recursor data = Some rc"
      "concat (map recursor_names ?fs) = [rec_name rc]" "add_mutual_recursor block data E2 = Inr E3"
    by blast
  then show "env_typed E'"
  proof cases
    case 1
    with base show ?thesis by (simp add: E')
  next
    case (2 data rc)
    from 2(4,2) obtain u l rules where
      u: "universe_context_new (rec_universe_params rc) (blk_universe_constraints block) = Inr u"
      "expect_sort E2 u ctx_new (rec_ty rc) = Inr l"
      "E3 = insert_decl (rec_name rc) (recursor_entry data rc rules) E2"
      by (rule add_mutual_recursorE)
    have "small (rec_ty rc)"
      using assms(3) 2(1,2) by (auto simp: block_small_def list_all_iff inductive_small_def)
    then have "type_ok (insert_group ?g E2) (rec_universe_params rc) [] (rec_ty rc)"
      using E2(1) u(1,2) by (intro type_ok_extends [OF expect_sort_type_ok regroup]) (auto simp: cs)
    moreover have wf: "env_wf (insert_group ?g E2)"
      using fs by (intro env_wf_insert_group [OF E2(1) _ grp_block_group(1)]) (simp add: list_all_iff)
    moreover have "decls E2 (rec_name rc) = None" using fresh 2(3) by (simp add: fresh_names_def)
    ultimately have "env_typed (insert_decl (rec_name rc) (recursor_entry data rc rules) (insert_group ?g E2))"
      using base 2(1) cs
      by (intro env_typed_filed [where t = "rec_ty rc" and ps = "rec_universe_params rc" and cs = "[]"])
        (auto simp: decl_typed_def decl_constraint_context_def decl_value_def recursor_entry_def
          inductive_constraint_context_def)
    then show ?thesis by (simp add: E' u(3) insert_group_insert_decl)
  qed
next
  show "env_typed E \<and> (\<forall>data \<in> set (blk_inductives block). decls E (ind_name data) = None) \<longrightarrow>
      env_typed E \<and> unowned (blk_inductives block) E"
    using assms(2) by (auto intro: unowned_fresh)
qed (use assms(3,4) in \<open>auto simp: simple_block_def block_small_def list_all_iff inductive_small_def
  dest!: add_mutual_family_typed add_mutual_constructor_typed\<close>)

end
