(* ===== verification/Kernel_Machine.thy ===== *)
theory Kernel_Machine
  imports Kernel_Mutual
begin

text \<open>
  The environment as a state machine: its steps are the admissions of \<^verbatim>\<open>env.rs\<close> that
  succeed and the exposure of an opaque definition. Reachable environments are well formed, and
  their theorems were proved before they were stored; those reached without a mutual block that
  has constraints or several recursors are typed.
\<close>

section \<open>Requests\<close>

datatype request =
    AddAxiom string "string list" "universe_constraint list" expr
  | AddDef string "string list" "universe_constraint list" expr expr reducibility
  | AddTheorem string "string list" "universe_constraint list" expr expr
  | AddInductive inductive_decl
  | AddMutual mutual_inductive_block
  | Expose string

fun admit :: "request \<Rightarrow> env \<Rightarrow> env kresult" where
  "admit (AddAxiom n ps cs t) E = add_axiom_with_universe_constraints n ps cs t E"
| "admit (AddDef n ps cs t v red) E = add_def_with_universe_constraints n ps cs t v red E"
| "admit (AddTheorem n ps cs t pf) E = add_theorem_with_universe_constraints n ps cs t pf E"
| "admit (AddInductive data) E = add_inductive data E"
| "admit (AddMutual block) E = add_mutual_inductive block E"
| "admit (Expose n) E = Inr (snd (expose_checked_opaque_definition E n))"

text \<open>The indices of the terms of a request are below \<open>2\<^sup>3\<^sup>1\<close>, where the index casts are exact.\<close>

fun request_small :: "request \<Rightarrow> bool" where
  "request_small (AddAxiom n ps cs t) = small t"
| "request_small (AddDef n ps cs t v red) = (small t \<and> small v)"
| "request_small (AddTheorem n ps cs t pf) = (small t \<and> small pf)"
| "request_small (AddInductive data) = inductive_small data"
| "request_small (AddMutual block) = block_small block"
| "request_small (Expose n) = True"

fun request_simple :: "request \<Rightarrow> bool" where
  "request_simple (AddMutual block) = simple_block block"
| "request_simple _ = True"

section \<open>Exposing a definition\<close>

lemma expose_insert:
  "snd (expose_checked_opaque_definition E n) =
     (case decls E n of None \<Rightarrow> E | Some d \<Rightarrow> insert_decl n (exposed d) E)"
proof (cases "decls E n")
  case (Some d)
  have "insert_decl n d E = E" using Some by (simp add: insert_decl_def fun_upd_idem)
  with Some show ?thesis
    by (auto simp: expose_checked_opaque_definition_def exposed_def
        split: decl.split reducibility.split)
qed (simp add: expose_checked_opaque_definition_def)

lemma exposed_rigid_cases:
  "exposed d = d \<or> (\<exists>n ps t v. d = Def n ps t v Opaque) \<or> (\<exists>n ps cs t v. d = DefConstrained n ps cs t v Opaque)"
  by (auto simp: exposed_def split: decl.split reducibility.split)

lemma is_inductive_name_expose:
  "decls E n = Some d \<Longrightarrow> is_inductive_name (insert_decl n (exposed d) E) m = is_inductive_name E m"
  using exposed_rigid_cases [of d]
  by (auto simp: is_inductive_name_def inductive_data_def exposed_def)

lemma constraint_context_expose:
  "decls E n = Some d \<Longrightarrow>
   inductive_constraint_context (insert_decl n (exposed d) E) m = inductive_constraint_context E m"
  using exposed_rigid_cases [of d]
  by (auto simp: inductive_constraint_context_def exposed_def split: option.split)

lemma expose_extends: "env_extends E (snd (expose_checked_opaque_definition E n))"
  unfolding expose_insert
  by (auto simp: env_extends_def constraint_context_expose split: option.split)

lemma decl_small_exposed [simp]: "decl_small (exposed d) = decl_small d"
  by (auto simp: decl_small_def exposed_def split: decl.split reducibility.split)

lemma expose_wf: "env_wf E \<Longrightarrow> env_wf (snd (expose_checked_opaque_definition E n))"
  unfolding expose_insert
  by (auto simp: env_wf_def decls_named_def env_small_def groups_ok_def is_inductive_name_expose
      list_all_iff split: option.split)

lemma expose_typed:
  assumes "env_wf E" and "env_typed E"
  shows "env_typed (snd (expose_checked_opaque_definition E n))"
proof -
  have "decl_typed (snd (expose_checked_opaque_definition E n)) d" if "decls E m = Some d" for m d
    using assms that decl_typed_extends [OF _ expose_extends] by (auto simp: env_typed_def)
  then show ?thesis
    unfolding env_typed_def
    by (auto simp: expose_insert split: option.splits if_splits)
qed

section \<open>The steps keep the invariant\<close>

lemma admit_keeps:
  assumes "admit r E = Inr E'" and "env_wf E" and "request_small r"
  shows "env_wf E' \<and> env_extends E E'"
proof (cases r)
  case (AddAxiom n ps cs t)
  with assms axioms.keeps_wf [of E "(n, ps, cs, t)"] axioms.extends [of E "(n, ps, cs, t)"]
  show ?thesis by simp
next
  case (AddDef n ps cs t v red)
  with assms definitions.keeps_wf [of E "(n, ps, cs, t, v, red)"]
    definitions.extends [of E "(n, ps, cs, t, v, red)"]
  show ?thesis by simp
next
  case (AddTheorem n ps cs t pf)
  with assms theorems.keeps_wf [of E "(n, ps, cs, t, pf)"] theorems.extends [of E "(n, ps, cs, t, pf)"]
  show ?thesis by simp
next
  case (AddInductive data)
  with assms inductives.keeps_wf inductives.extends show ?thesis by simp
next
  case (AddMutual block)
  with assms mutual_blocks.keeps_wf mutual_blocks.extends show ?thesis by simp
next
  case (Expose n)
  with assms expose_wf expose_extends show ?thesis by auto
qed

lemma admit_typed:
  assumes "admit r E = Inr E'" and "env_wf E" and "env_typed E" and "request_small r"
    and "request_simple r"
  shows "env_typed E'"
proof (cases r)
  case (AddAxiom n ps cs t)
  with assms axioms.keeps_typed [of E "(n, ps, cs, t)"] show ?thesis by simp
next
  case (AddDef n ps cs t v red)
  with assms definitions.keeps_typed [of E "(n, ps, cs, t, v, red)"] show ?thesis by simp
next
  case (AddTheorem n ps cs t pf)
  with assms theorems.keeps_typed [of E "(n, ps, cs, t, pf)"] show ?thesis by simp
next
  case (AddInductive data)
  with assms inductives.keeps_typed show ?thesis by simp
next
  case (AddMutual block)
  with assms add_mutual_typed show ?thesis by simp
next
  case (Expose n)
  with assms expose_typed show ?thesis by auto
qed

interpretation kernel: admission admit request_small
  by unfold_locales (auto dest: admit_keeps)

interpretation kernel_typed: typed_admission admit "\<lambda>r. request_small r \<and> request_simple r"
  by unfold_locales (auto dest: admit_keeps intro: admit_typed)

section \<open>Reachable environments\<close>

inductive reachable :: "(request \<Rightarrow> bool) \<Rightarrow> env \<Rightarrow> bool" for allowed where
  reach_new: "reachable allowed env_new"
| reach_step: "reachable allowed E \<Longrightarrow> allowed r \<Longrightarrow> admit r E = Inr E' \<Longrightarrow> reachable allowed E'"

lemma reachable_fold:
  "reachable allowed E \<Longrightarrow> list_all allowed rs \<Longrightarrow> fold_res admit rs E = Inr E' \<Longrightarrow> reachable allowed E'"
  by (induction rs arbitrary: E) (auto elim!: rbind_InrE intro: reach_step)

lemma reachable_mono:
  "reachable allowed E \<Longrightarrow> (\<And>r. allowed r \<Longrightarrow> allowed' r) \<Longrightarrow> reachable allowed' E"
  by (induction rule: reachable.induct) (auto intro: reachable.intros)

lemma reachable_env_wf: "reachable request_small E \<Longrightarrow> env_wf E"
  by (induction rule: reachable.induct) (auto intro: env_wf_new kernel.keeps_wf)

lemma reachable_env_typed:
  "reachable (\<lambda>r. request_small r \<and> request_simple r) E \<Longrightarrow> env_wf E \<and> env_typed E"
  by (induction rule: reachable.induct)
    (auto intro: env_wf_new env_typed_new kernel_typed.keeps_wf kernel_typed.keeps_typed)

definition builtin_requests :: "request list" where
  "builtin_requests = [AddInductive nat_inductive, AddInductive eq_inductive,
     AddAxiom ''Eq.rec'' [''u'', ''v''] [] (eq_rec_type (LParam ''u'') (LParam ''v''))]"

lemma builtins_by_requests: "env_with_builtins = fold_res admit builtin_requests env_new"
  by (simp add: env_with_builtins_def builtin_requests_def add_axiom_def cong: rbind_cong)

definition identity_request :: request where
  "identity_request = AddTheorem ''id'' [] [] (Pi ''P'' (Sort LZero) (Pi ''h'' (BVar 0) (BVar 1)))
     (Lam ''P'' (Sort LZero) (Lam ''h'' (BVar 0) (BVar 0)))"

lemma builtins_computed:
  "case env_with_builtins of Inl e \<Rightarrow> False
   | Inr E \<Rightarrow> decls E ''Nat'' \<noteq> None \<and> is_ok (admit identity_request E)"
  by code_simp

lemma builtins_reachable:
  "\<exists>E. env_with_builtins = Inr E \<and> reachable (\<lambda>r. request_small r \<and> request_simple r) E"
proof -
  have "is_ok env_with_builtins" using builtins_computed by (auto simp: is_ok_iff split: sum.splits)
  then obtain E where E: "fold_res admit builtin_requests env_new = Inr E"
    by (auto simp: is_ok_iff builtins_by_requests)
  have "list_all (\<lambda>r. request_small r \<and> request_simple r) builtin_requests" by code_simp
  from reachable_fold [OF reach_new this E] E show ?thesis by (auto simp: builtins_by_requests)
qed

lemma builtins_sample:
  assumes "env_with_builtins = Inr E"
  shows "\<exists>d. decls E ''Nat'' = Some d" and "is_ok (admit identity_request E)"
  using builtins_computed by (simp_all add: assms)

section \<open>Where theorems come from\<close>

text \<open>The universe parameters, the constraints, the statement and the proof of a stored theorem.\<close>

definition decl_theorem ::
  "decl \<Rightarrow> (string list \<times> universe_constraint list \<times> expr \<times> expr) option" where
  "decl_theorem d =
     (case d of
        Theorem _ ps t pf \<Rightarrow> Some (ps, [], t, pf)
      | TheoremConstrained _ ps cs t pf \<Rightarrow> Some (ps, cs, t, pf)
      | _ \<Rightarrow> None)"

definition adds_no_theorem :: "env \<Rightarrow> env \<Rightarrow> bool" where
  "adds_no_theorem E E' \<longleftrightarrow>
     (\<forall>n d. decls E' n = Some d \<and> decl_theorem d \<noteq> None \<longrightarrow> decls E n = Some d)"

lemma adds_no_theorem_refl [simp]: "adds_no_theorem E E"
  by (simp add: adds_no_theorem_def)

lemma adds_no_theorem_insert [simp]: "decl_theorem d = None \<Longrightarrow> adds_no_theorem E (insert_decl n d E)"
  by (auto simp: adds_no_theorem_def)

lemma adds_no_theorem_trans: "adds_no_theorem E D \<Longrightarrow> adds_no_theorem D E' \<Longrightarrow> adds_no_theorem E E'"
  unfolding adds_no_theorem_def by blast

lemma adds_no_theorem_fold:
  "fold_res f xs E = Inr E' \<Longrightarrow> (\<And>x D D'. f x D = Inr D' \<Longrightarrow> adds_no_theorem D D') \<Longrightarrow> adds_no_theorem E E'"
  by (induction xs arbitrary: E) (auto elim!: rbind_InrE, blast intro: adds_no_theorem_trans)

lemma entries_no_theorem [simp]:
  "decl_theorem (inductive_entry data) = None" "decl_theorem (constructor_entry data c) = None"
  "decl_theorem (recursor_entry data r rules) = None"
  by (simp_all add: decl_theorem_def inductive_entry_def constructor_entry_def recursor_entry_def)

lemma inductive_no_theorem:
  assumes "add_inductive data E = Inr E'"
  shows "adds_no_theorem E E'"
  using assms
proof (rule add_inductiveE)
  fix u D
  let ?E1 = "insert_decl (ind_name data) (inductive_entry data) E"
  assume f: "fold_res (add_constructor data u) (ind_constructors data) ?E1 = Inr D"
    and r: "add_recursor data D = Inr E'"
  from f have "adds_no_theorem ?E1 D"
    by (rule adds_no_theorem_fold) (auto simp: add_constructor_def elim!: rbind_InrE)
  moreover from r have "adds_no_theorem D E'"
    by (auto simp: add_recursor_def Let_def elim!: rbind_InrE split: option.splits)
  ultimately show ?thesis
    using adds_no_theorem_insert [OF entries_no_theorem(1)] by (blast intro: adds_no_theorem_trans)
qed

lemma mutual_no_theorem:
  assumes "add_mutual_inductive block E = Inr E'"
  shows "adds_no_theorem E E'"
proof -
  from assms obtain u E1 E2 E3 where stages: "fold_res (add_mutual_family u) (blk_inductives block) E = Inr E1"
      "fold_res (add_mutual_constructor block u)
        (concat (map (\<lambda>data. map (Pair data) (ind_constructors data)) (blk_inductives block))) E1 = Inr E2"
      "fold_res (add_mutual_recursor block) (blk_inductives block) E2 = Inr E3"
    and E': "E' = insert_group (block_group block) E3"
    by (auto simp: add_mutual_inductive_def elim!: rbind_InrE)
  from stages(1) have "adds_no_theorem E E1"
    by (rule adds_no_theorem_fold) (auto simp: add_mutual_family_def elim!: rbind_InrE)
  moreover from stages(2) have "adds_no_theorem E1 E2"
    by (rule adds_no_theorem_fold) (auto simp: add_mutual_constructor_def elim!: rbind_InrE)
  moreover from stages(3) have "adds_no_theorem E2 E3"
    by (rule adds_no_theorem_fold)
      (auto simp: add_mutual_recursor_def Let_def elim!: rbind_InrE split: option.splits)
  ultimately have "adds_no_theorem E E3" by (blast intro: adds_no_theorem_trans)
  then show ?thesis by (simp add: E' adds_no_theorem_def)
qed

lemma expose_no_theorem: "adds_no_theorem E (snd (expose_checked_opaque_definition E n))"
proof (cases "decls E n")
  case (Some d)
  with exposed_rigid_cases [of d] show ?thesis
    by (auto simp: expose_insert adds_no_theorem_def decl_theorem_def exposed_def)
qed (simp add: expose_insert)

text \<open>A theorem is filed only by the admission of a theorem, which has checked it before.\<close>

lemma admit_theorem_origin:
  assumes "admit r E = Inr E'" and "env_wf E" and "request_small r"
    and "decls E' n = Some d" and "decl_theorem d = Some (ps, cs, t, pf)"
  shows "decls E n = Some d \<or> decls E n = None \<and> type_ok E ps cs t \<and> value_ok E ps cs pf t"
proof -
  have kept: "decls E n = Some d" if "adds_no_theorem E E'"
    using that assms(4,5) by (simp add: adds_no_theorem_def)
  show ?thesis
  proof (cases r)
    case (AddTheorem m qs ds s q)
    let ?d = "if ds = [] then Theorem m qs s q else TheoremConstrained m qs ds s q"
    from AddTheorem assms(1) obtain u l where u: "ensure_fresh E m = Inr ()" "universe_context_new qs ds = Inr u"
      "expect_sort E u ctx_new s = Inr l" "check E u ctx_new q s = Inr ()" and E': "E' = insert_decl m ?d E"
      by (auto elim: add_theoremE)
    have "type_ok E qs ds s" "value_ok E qs ds q s"
      using u assms(2,3) AddTheorem by (auto intro: expect_sort_type_ok check_value_ok)
    with u(1) assms(4,5) show ?thesis
      by (auto simp: E' decl_theorem_def ensure_fresh_iff split: if_splits)
  next
    case (AddAxiom m qs ds s)
    with assms(1) have "adds_no_theorem E E'" by (auto elim!: add_axiomE simp: decl_theorem_def)
    then show ?thesis using kept by blast
  next
    case (AddDef m qs ds s v red)
    with assms(1) have "adds_no_theorem E E'" by (auto elim!: add_defE simp: decl_theorem_def)
    then show ?thesis using kept by blast
  qed (use assms(1) kept inductive_no_theorem mutual_no_theorem expose_no_theorem in auto)
qed

section \<open>Properties of reachable environments\<close>

text \<open>
  C2: every theorem the kernel holds was proved from what it held before. In an environment
  reached by any sequence of admissions and exposures with indices below the limit of the casts,
  arbitrary mutual blocks included, every stored theorem, with universe constraints or without,
  goes back to an earlier reached environment that did not have its name yet. The universe context
  of the theorem can be built, in the earlier environment the statement is a type and the proof
  has the statement as type, in the declarative typing judgement, and so they are in the
  environment as it is now. No theorem rests on itself.
\<close>

theorem reachable_theorems_proved:
  assumes "reachable request_small E" and "decls E n = Some d"
    and "decl_theorem d = Some (ps, cs, t, pf)"
  shows "\<exists>E0 u l. reachable request_small E0 \<and> env_extends E0 E \<and> decls E0 n = None \<and>
    universe_context_new ps cs = Inr u \<and> has_type E0 u [] t (Sort l) \<and> has_type E0 u [] pf t \<and>
    has_type E u [] t (Sort l) \<and> has_type E u [] pf t"
proof -
  have "\<exists>E0. reachable request_small E0 \<and> env_extends E0 E \<and> decls E0 n = None \<and>
      type_ok E0 ps cs t \<and> value_ok E0 ps cs pf t"
    using assms
  proof (induction rule: reachable.induct)
    case (reach_step E r E')
    note wf = reachable_env_wf [OF reach_step.hyps(1)]
    note ext = kernel.extends [OF wf reach_step.hyps(2,3)]
    from admit_theorem_origin [OF reach_step.hyps(3) wf reach_step.hyps(2) reach_step.prems] show ?case
      using reach_step.IH reach_step.hyps(1) reach_step.prems(2) ext env_extends_trans by blast
  qed (simp add: env_new_def)
  then obtain E0 where E0: "reachable request_small E0" "env_extends E0 E" "decls E0 n = None"
    "type_ok E0 ps cs t" "value_ok E0 ps cs pf t" by blast
  have "groups_ok E0" using reachable_env_wf [OF E0(1)] by (simp add: env_wf_def)
  note keep = has_type_extends [OF _ E0(2) this]
  from E0(4,5) obtain u l where "universe_context_new ps cs = Inr u" "has_type E0 u [] t (Sort l)" "has_type E0 u [] pf t"
    by (auto simp: type_ok_def value_ok_def)
  with E0(1-3) keep show ?thesis by blast
qed

theorem reachable_theorems_proved_witness:
  "\<exists>E E0 u l. fold_res admit [identity_request] env_new = Inr E \<and>
     reachable request_small E0 \<and> env_extends E0 E \<and> decls E0 ''id'' = None \<and>
     has_type E0 u [] (Pi ''P'' (Sort LZero) (Pi ''h'' (BVar 0) (BVar 1))) (Sort l) \<and>
     has_type E0 u [] (Lam ''P'' (Sort LZero) (Lam ''h'' (BVar 0) (BVar 0)))
       (Pi ''P'' (Sort LZero) (Pi ''h'' (BVar 0) (BVar 1)))"
proof -
  have "is_ok (fold_res admit [identity_request] env_new)" by code_simp
  then obtain E where E: "fold_res admit [identity_request] env_new = Inr E" by (auto simp: is_ok_iff)
  have "list_all request_small [identity_request]" by code_simp
  note r = reachable_fold [OF reach_new this E]
  have d: "decls E ''id'' = Some (Theorem ''id'' [] (Pi ''P'' (Sort LZero) (Pi ''h'' (BVar 0) (BVar 1)))
      (Lam ''P'' (Sort LZero) (Lam ''h'' (BVar 0) (BVar 0))))" (is "_ = Some ?d")
    using E by (auto simp: identity_request_def elim!: rbind_InrE add_theoremE)
  have "decl_theorem ?d = Some ([], [], Pi ''P'' (Sort LZero) (Pi ''h'' (BVar 0) (BVar 1)),
      Lam ''P'' (Sort LZero) (Lam ''h'' (BVar 0) (BVar 0)))" by (simp add: decl_theorem_def)
  from reachable_theorems_proved [OF r d this] E show ?thesis by blast
qed

text \<open>
  C3: the typing invariant. In every such environment every declaration is well typed: the
  types of axioms, inductives, constructors and recursors are types in the universe context
  the declaration has there, and the values of definitions have their declared types.
\<close>

theorem reachable_declarations_typed:
  assumes "reachable (\<lambda>r. request_small r \<and> request_simple r) E" and "decls E n = Some d"
  shows "decl_typed E d"
  using reachable_env_typed [OF assms(1)] assms(2) by (simp add: env_typed_def)

theorem reachable_declarations_typed_witness:
  "\<exists>E d. env_with_builtins = Inr E \<and> decls E ''Nat'' = Some d \<and> decl_typed E d"
proof -
  obtain E where E: "env_with_builtins = Inr E"
    "reachable (\<lambda>r. request_small r \<and> request_simple r) E" using builtins_reachable by blast
  from builtins_sample(1) [OF E(1)] obtain d where "decls E ''Nat'' = Some d" by blast
  with reachable_declarations_typed [OF E(2) this] E(1) show ?thesis by blast
qed

text \<open>
  C13: the structural invariant, for every sequence of requests with indices below the limit
  of the casts, arbitrary mutual blocks included: each declaration is filed under its own
  name, the name is a canonical dotted name, and every recorded mutual group consists of
  declared inductives.
\<close>

theorem reachable_environment_wf:
  assumes "reachable request_small E"
  shows "(\<forall>n d. decls E n = Some d \<longrightarrow> decl_name d = n \<and> is_canonical_dotted_name n) \<and>
    (\<forall>n g. mutual_groups E n = Some g \<longrightarrow>
       decls E n \<noteq> None \<and> list_all (\<lambda>m. is_ok (inductive_data E m)) (grp_inductives g))"
  using reachable_env_wf [OF assms]
  by (auto simp: env_wf_def decls_named_def groups_ok_def is_inductive_name_def [abs_def])

theorem reachable_environment_wf_witness:
  "\<exists>E d. env_with_builtins = Inr E \<and> decls E ''Nat'' = Some d \<and> decl_name d = ''Nat''"
proof -
  obtain E where E: "env_with_builtins = Inr E" "reachable request_small E"
    using builtins_reachable reachable_mono by blast
  from builtins_sample(1) [OF E(1)] obtain d where "decls E ''Nat'' = Some d" by blast
  with reachable_environment_wf [OF E(2)] E(1) show ?thesis by auto
qed

text \<open>
  C14: admission is conservative. A request the kernel accepts keeps every declaration it
  holds (an opaque definition may become reducible) and every typing derived so far.
\<close>

theorem admission_keeps_judgements:
  assumes "reachable request_small E" and "request_small r" and "admit r E = Inr E'"
  shows "(\<forall>n d. decls E n = Some d \<longrightarrow> decls E' n \<in> {Some d, Some (exposed d)}) \<and>
    (\<forall>u \<Gamma> e t. has_type E u \<Gamma> e t \<longrightarrow> has_type E' u \<Gamma> e t)"
  using kernel.extends [OF reachable_env_wf [OF assms(1)] assms(2,3)]
    kernel.keeps_judgements [OF reachable_env_wf [OF assms(1)] assms(2,3)]
  by (auto dest: env_extends_decl)

theorem admission_keeps_judgements_witness:
  "\<exists>E E'. env_with_builtins = Inr E \<and> admit identity_request E = Inr E' \<and>
     decls E ''Nat'' \<noteq> None \<and> decls E' ''Nat'' \<noteq> None"
proof -
  obtain E where E: "env_with_builtins = Inr E" "reachable request_small E"
    using builtins_reachable reachable_mono by blast
  from builtins_sample [OF E(1)] obtain d E' where
    d: "decls E ''Nat'' = Some d" "admit identity_request E = Inr E'" by (auto simp: is_ok_iff)
  have "request_small identity_request" by code_simp
  from admission_keeps_judgements [OF E(2) this d(2)] d E(1) show ?thesis by fastforce
qed

text \<open>
  the built-in environment exists. Every check passes on the built-in inductives and the
  axiom for the recursor of equality, and all their declarations are well typed.
\<close>

theorem builtins_admitted:
  "\<exists>E. env_with_builtins = Inr E \<and> env_wf E \<and> env_typed E \<and>
     reachable (\<lambda>r. request_small r \<and> request_simple r) E"
  using builtins_reachable reachable_env_typed by blast

end
