(* ===== verification/Kernel_Findings.thy ===== *)
theory Kernel_Findings
  imports Kernel_Machine
begin

text \<open>
  Concrete declarations the kernel admits and should not. They show where the restrictions
  of the soundness theorems are needed: a mutual block with two recursors, whose group is
  recorded after its recursors are checked, and an inductive with an \<^verbatim>\<open>IMax\<close> on the left of
  a universe constraint.
\<close>

section \<open>A mutual block with two recursors\<close>

definition "fam_A = Const ''A'' []"
definition "fam_B = Const ''B'' []"
definition "fam_C = Const ''C'' []"

definition true_prop :: expr where
  "true_prop = Pi ''P'' (Sort LZero) (Pi ''h'' (BVar 0) (BVar 1))"

definition false_prop :: expr where
  "false_prop = Pi ''P'' (Sort LZero) (BVar 0)"

definition true_proof :: expr where
  "true_proof = Lam ''P'' (Sort LZero) (Lam ''h'' (BVar 0) (BVar 0))"

definition motives :: "level \<Rightarrow> expr \<Rightarrow> expr" where
  "motives s rest =
     Pi ''mA'' (Pi ''x'' fam_A (Sort s)) (Pi ''mB'' (Pi ''x'' fam_B (Sort s))
       (Pi ''mC'' (Pi ''x'' fam_C (Sort s)) rest))"

definition rec_B_type :: expr where
  "rec_B_type = motives (LParam ''u'')
     (Pi ''a'' (App (BVar 2) (Const ''A.a'' [])) (Pi ''b'' (App (BVar 2) (Const ''B.b'' []))
       (Pi ''c'' (App (BVar 2) (Const ''C.c'' [])) (Pi ''t'' fam_B (App (BVar 5) (BVar 0))))))"

text \<open>
  The minor premise of \<open>C.c\<close> in the second recursor: a recursion on \<open>B.b\<close> that selects the
  minor of \<open>A.a\<close> while the group is missing and the minor of \<open>B.b\<close>, a true proposition,
  once it is recorded.
\<close>

definition minor_C :: expr where
  "minor_C = apps (Const ''B.rec'' [LSucc LZero])
     [Lam ''x'' fam_A (Sort LZero), Lam ''x'' fam_B (Sort LZero), Lam ''x'' fam_C (Sort LZero),
      App (BVar 2) (Const ''C.c'' []), true_prop, true_prop, Const ''B.b'' []]"

definition rec_C_type :: expr where
  "rec_C_type = motives LZero
     (Pi ''a'' (App (BVar 2) (Const ''A.a'' [])) (Pi ''b'' (App (BVar 2) (Const ''B.b'' []))
       (Pi ''c'' minor_C (Pi ''t'' fam_C (App (BVar 4) (BVar 0))))))"

definition two_recursors :: mutual_inductive_block where
  "two_recursors = mutual_block_new ''Block'' []
     [inductive_decl_new ''A'' [] [] [] type0 [\<lparr>ctor_name = ''A.a'', ctor_ty = fam_A\<rparr>] None,
      inductive_decl_new ''B'' [] [] [] type0 [\<lparr>ctor_name = ''B.b'', ctor_ty = fam_B\<rparr>]
        (Some (recursor_decl_new ''B.rec'' [''u''] rec_B_type)),
      inductive_decl_new ''C'' [] [] [] type0 [\<lparr>ctor_name = ''C.c'', ctor_ty = fam_C\<rparr>]
        (Some (recursor_decl_new ''C.rec'' [] rec_C_type))]"

definition false_proof :: expr where
  "false_proof = apps (Const ''C.rec'' [])
     [Lam ''x'' fam_A true_prop, Lam ''x'' fam_B true_prop, Lam ''x'' fam_C false_prop,
      true_proof, true_proof, true_proof, Const ''C.c'' []]"

definition false_requests :: "request list" where
  "false_requests = [AddMutual two_recursors, AddTheorem ''absurd'' [] [] false_prop false_proof]"

lemma false_admitted: "is_ok (fold_res admit false_requests env_new)"
  by code_simp

lemma false_requests_small: "list_all request_small false_requests"
  by code_simp

text \<open>
  C15: the restriction on mutual blocks is needed. The group of a block is recorded after its
  recursors are checked, so that a recursor that reduces while a later one is checked picks
  its minor premise without the offset of its family. The kernel admits, without an axiom, a
  block with two recursors and then a theorem whose type is \<open>\<forall>P : Prop. P\<close>.
\<close>

theorem false_theorem_reachable:
  "\<exists>E. reachable request_small E \<and>
     decls E ''absurd'' = Some (Theorem ''absurd'' [] false_prop false_proof) \<and>
     fold_res admit false_requests env_new = Inr E"
proof -
  obtain E where E: "fold_res admit false_requests env_new = Inr E"
    using false_admitted by (auto simp: is_ok_iff)
  then have "decls E ''absurd'' = Some (Theorem ''absurd'' [] false_prop false_proof)"
    by (auto simp: false_requests_def elim!: rbind_InrE add_theoremE)
  with E reachable_fold [OF reach_new false_requests_small E] show ?thesis by blast
qed

section \<open>An inductive with an \<^verbatim>\<open>IMax\<close> constraint\<close>

definition box_type :: expr where
  "box_type = Const ''Box'' [LParam ''v'', LParam ''w'']"

definition box_rec_type :: expr where
  "box_rec_type = Pi ''m'' (Pi ''x'' box_type (Sort (LParam ''t'')))
     (Pi ''k'' (Pi ''A'' (Sort (LSucc LZero))
        (App (BVar 1) (App (Const ''Box.mk'' [LParam ''v'', LParam ''w'']) (BVar 0))))
       (Pi ''b'' box_type (App (BVar 2) (BVar 0))))"

definition box_inductive :: inductive_decl where
  "box_inductive = inductive_with_universe_constraints
     (inductive_decl_new ''Box'' [''v'', ''w''] [] [] (LParam ''w'')
       [\<lparr>ctor_name = ''Box.mk'', ctor_ty = Pi ''A'' (Sort (LSucc LZero)) box_type\<rparr>]
       (Some (recursor_decl_new ''Box.rec'' [''t'', ''v'', ''w''] box_rec_type))) [imax_constraint]"

text \<open>
  C17: the reading of an assumed \<^verbatim>\<open>IMax\<close> as a \<^verbatim>\<open>Max\<close> reaches admission. From the
  constraint \<open>imax 2 v \<le> w\<close> the kernel accepts an inductive of \<open>Sort w\<close> whose constructor
  has a field of type \<open>Sort 1\<close>, with a recursor into every sort; at \<open>v = w = 0\<close> the
  constraint holds, the inductive is a proposition, and the recursor still eliminates it
  into \<open>Sort 2\<close>.
\<close>

theorem box_in_prop_admitted:
  "\<exists>E. add_inductive box_inductive env_new = Inr E \<and>
     infer E universe_context_empty ctx_new (Const ''Box'' [LZero, LZero]) = Inr (Sort LZero) \<and>
     infer E universe_context_empty ctx_new (Const ''Box.mk'' [LZero, LZero]) =
       Inr (Pi ''A'' (Sort (LSucc LZero)) (Const ''Box'' [LZero, LZero])) \<and>
     is_ok (infer E universe_context_empty ctx_new
       (Const ''Box.rec'' [LSucc (LSucc LZero), LZero, LZero]))"
proof -
  have "(case add_inductive box_inductive env_new of Inl e \<Rightarrow> False
     | Inr E \<Rightarrow> infer E universe_context_empty ctx_new (Const ''Box'' [LZero, LZero]) = Inr (Sort LZero) \<and>
         infer E universe_context_empty ctx_new (Const ''Box.mk'' [LZero, LZero]) =
           Inr (Pi ''A'' (Sort (LSucc LZero)) (Const ''Box'' [LZero, LZero])) \<and>
         is_ok (infer E universe_context_empty ctx_new
           (Const ''Box.rec'' [LSucc (LSucc LZero), LZero, LZero])))"
    by code_simp
  then show ?thesis by (cases "add_inductive box_inductive env_new") auto
qed

end
