(* ===== verification/Cert_Bytes.thy ===== *)
theory Cert_Bytes
  imports Kernel_Syntax "HOL-Library.Word"
begin

unbundle bit_operations_syntax

text \<open>
  Bytes of module certificates (\<^verbatim>\<open>npa-cert/src/binary.rs\<close>): the decoder with its offset,
  variable-length integers and length-prefixed vectors. A \<^verbatim>\<open>usize\<close> is a 64-bit word. The
  interface \<open>codec\<close> says what an encoder and a decoder of the same data promise each other:
  decoding an encoding returns the value and stops behind it, and what a decoder accepts is
  the encoding of the value it returns.
\<close>

type_synonym byte = "8 word"
type_synonym usize = "64 word"

datatype structural_limit_kind =
    CertificateBytes | Imports | NameTableEntries | LevelTableNodes | TermTableNodes
  | Declarations | Exports | NestedVectorEntries | StructuralDepth | RootExpandedNodes
  | CertificateExpandedNodes | ClosureModules | ClosureExpandedNodes

type_synonym hash = "byte list"
type_synonym name_id = usize

datatype global_ref =
    GBuiltin name_id hash
  | GImported usize name_id hash
  | GLocal usize
  | GLocalGenerated usize name_id

datatype hash_object =
    HOLevel | HOTerm | HODeclInterface | HODeclCertificate | HOExportBlock | HOAxiomReport
  | HOModuleCertificate

datatype local_implementation_dependency_error_reason =
    WrongReferenceKind | TargetNotEarlier | TargetNotOpaque | InterfaceHashMismatch
  | CertificateHashMismatch | MissingImplementationDependency | SurplusImplementationDependency

text \<open>
  The errors of \<^verbatim>\<open>CertError\<close> that decoding and verification raise. An indexing out of
  range, which panics, is the error \<open>CertPanic\<close>.
\<close>

datatype cert_error =
    DecodeError
  | UnsupportedFormat string string
  | UnsupportedCoreFeature string
  | ReservedCorePrimitive "string list"
  | UnsupportedEncoding byte
  | NonCanonicalEncoding string
  | ConstrainedExportRequiresFormatUpgrade "string list"
  | LocalImplementationDependencyRequiresFormatUpgrade
  | HashMismatch hash_object hash hash
  | ImportHashMismatch "string list"
  | MissingImportCertificateHash "string list"
  | ImportCertificateHashMismatch "string list"
  | ImportNotVerifiedInSession "string list"
  | DuplicateName "string list"
  | UnknownDependency "string list"
  | DependencyCycle "string list"
  | InvalidLocalImplementationDependency nat global_ref local_implementation_dependency_error_reason
  | AxiomReportMismatch "string list option"
  | ForbiddenAxiom "string list"
  | SorryDenied "string list"
  | InvalidBVar "32 word"
  | InductiveGeneratedArtifactMismatch "string list"
  | StructuralLimitExceeded structural_limit_kind nat nat
  | Kernel kerror
  | CertPanic string

type_synonym 'a cresult = "cert_error + 'a"

section \<open>The decoder\<close>

record decoder =
  dec_bytes :: "byte list"
  dec_offset :: nat
  allow_unknown_core_features :: bool
  audit_core_feature_count :: nat

type_synonym 'a decode = "decoder \<Rightarrow> ('a \<times> decoder) cresult"

definition decoder_new :: "byte list \<Rightarrow> decoder" where
  "decoder_new bs = \<lparr>dec_bytes = bs, dec_offset = 0, allow_unknown_core_features = False,
     audit_core_feature_count = 0\<rparr>"

definition new_for_structural_audit :: "byte list \<Rightarrow> decoder" where
  "new_for_structural_audit bs = \<lparr>dec_bytes = bs, dec_offset = 0,
     allow_unknown_core_features = True, audit_core_feature_count = 0\<rparr>"

definition is_done :: "decoder \<Rightarrow> bool" where
  "is_done d \<longleftrightarrow> dec_offset d = length (dec_bytes d)"

definition remaining_len :: "decoder \<Rightarrow> nat" where
  "remaining_len d = length (dec_bytes d) - dec_offset d"

definition dbind :: "'a decode \<Rightarrow> ('a \<Rightarrow> 'b decode) \<Rightarrow> 'b decode" where
  "dbind m f d = (case m d of Inl e \<Rightarrow> Inl e | Inr (x, d') \<Rightarrow> f x d')"

definition dreturn :: "'a \<Rightarrow> 'a decode" where
  "dreturn x d = Inr (x, d)"

definition dfail :: "cert_error \<Rightarrow> 'a decode" where
  "dfail e d = Inl e"

definition dlift :: "'a cresult \<Rightarrow> 'a decode" where
  "dlift r d = (case r of Inl e \<Rightarrow> Inl e | Inr x \<Rightarrow> Inr (x, d))"

definition dec_byte :: "byte decode" where
  "dec_byte d =
     (if dec_offset d < length (dec_bytes d)
      then Inr (dec_bytes d ! dec_offset d, d\<lparr>dec_offset := dec_offset d + 1\<rparr>)
      else Inl DecodeError)"

text \<open>
  \<^verbatim>\<open>take\<close>: the addition that overflows and the range that ends behind the bytes are the
  same error, and a length in memory does not exceed the range of \<^verbatim>\<open>usize\<close>.
\<close>

definition dec_take :: "nat \<Rightarrow> byte list decode" where
  "dec_take len d =
     (let end = dec_offset d + len in
      if end > length (dec_bytes d) then Inl DecodeError
      else Inr (take len (drop (dec_offset d) (dec_bytes d)), d\<lparr>dec_offset := end\<rparr>))"

section \<open>Variable-length integers\<close>

lemma unat_drop_bit_less: "drop_bit 7 v \<noteq> 0 \<Longrightarrow> unat (drop_bit 7 v) < unat v" for v :: "64 word"
proof -
  assume "drop_bit 7 v \<noteq> 0"
  moreover have "unat (drop_bit 7 v) = unat v div 128"
    unfolding unat_drop_bit_eq by (simp add: drop_bit_eq_div)
  ultimately show ?thesis
    by (metis div_less_dividend div_less nat_neq_iff one_less_numeral_iff semiring_norm(76) unat_eq_0
        less_nat_zero_code)
qed

function encode_uvar :: "64 word \<Rightarrow> byte list" where
  "encode_uvar v =
     (let low = (ucast (v AND 0x7F) :: byte); v' = drop_bit 7 v in
      if v' \<noteq> 0 then (low OR 0x80) # encode_uvar v' else [low])"
  by pat_completeness auto
termination
  by (relation "measure unat") (auto intro: unat_drop_bit_less)

declare encode_uvar.simps [simp del]

function uvar_loop :: "nat \<Rightarrow> nat \<Rightarrow> 64 word \<Rightarrow> 64 word decode" where
  "uvar_loop start shift value d =
     (case dec_byte d of
        Inl e \<Rightarrow> Inl e
      | Inr (b, d') \<Rightarrow>
          let value' = value OR push_bit shift (ucast (b AND 0x7F)) in
          if b AND 0x80 = 0 then
            (if encode_uvar value' \<noteq> take (dec_offset d' - start) (drop start (dec_bytes d'))
             then Inl (NonCanonicalEncoding ''uvar'') else Inr (value', d'))
          else if shift + 7 \<ge> 64 then Inl DecodeError
          else uvar_loop start (shift + 7) value' d')"
  by pat_completeness auto
termination
  by (relation "measure (\<lambda>(_, shift, _, _). 64 - shift)") auto

declare uvar_loop.simps [simp del]

definition dec_uvar :: "64 word decode" where
  "dec_uvar d = uvar_loop (dec_offset d) 0 0 d"

definition dec_usize :: "usize decode" where
  "dec_usize = dec_uvar"

definition dec_u32 :: "32 word decode" where
  "dec_u32 = dbind dec_uvar (\<lambda>v.
     if unat v < 2 ^ 32 then dreturn (ucast v) else dfail DecodeError)"

section \<open>Vectors\<close>

definition ensure_count_limit :: "structural_limit_kind \<Rightarrow> nat \<Rightarrow> nat \<Rightarrow> unit cresult" where
  "ensure_count_limit kind limit observed =
     (if observed > limit then Inl (StructuralLimitExceeded kind limit observed) else Inr ())"

definition max_nested_vector_entries :: nat where
  "max_nested_vector_entries = 262144"

definition bounded_len_for :: "structural_limit_kind \<Rightarrow> nat \<Rightarrow> nat decode" where
  "bounded_len_for kind limit =
     dbind dec_usize (\<lambda>len.
     dbind (dlift (ensure_count_limit kind limit (unat len))) (\<lambda>_ d.
       if unat len > length (dec_bytes d) - dec_offset d then Inl DecodeError
       else Inr (unat len, d)))"

definition bounded_len :: "nat decode" where
  "bounded_len = bounded_len_for NestedVectorEntries max_nested_vector_entries"

primrec collect_n :: "nat \<Rightarrow> 'a decode \<Rightarrow> 'a list decode" where
  "collect_n 0 p = dreturn []"
| "collect_n (Suc n) p = dbind p (\<lambda>x. dbind (collect_n n p) (\<lambda>xs. dreturn (x # xs)))"

text \<open>The length and the elements, as every vector is written.\<close>

definition encode_vec :: "('a \<Rightarrow> byte list) \<Rightarrow> 'a list \<Rightarrow> byte list" where
  "encode_vec e xs = encode_uvar (word_of_nat (length xs)) @ concat (map e xs)"

definition dec_vec_for :: "structural_limit_kind \<Rightarrow> nat \<Rightarrow> 'a decode \<Rightarrow> 'a list decode" where
  "dec_vec_for kind limit p = dbind (bounded_len_for kind limit) (\<lambda>n. collect_n n p)"

definition dec_vec :: "'a decode \<Rightarrow> 'a list decode" where
  "dec_vec p = dbind bounded_len (\<lambda>n. collect_n n p)"

section \<open>Positions\<close>

text \<open>A decoder between the bytes it has read and the bytes it has left.\<close>

definition at_pos :: "bool \<times> nat \<Rightarrow> byte list \<Rightarrow> byte list \<Rightarrow> decoder" where
  "at_pos c pre post = \<lparr>dec_bytes = pre @ post, dec_offset = length pre,
     allow_unknown_core_features = fst c, audit_core_feature_count = snd c\<rparr>"

lemma at_pos_simps [simp]:
  "dec_bytes (at_pos c pre post) = pre @ post"
  "dec_offset (at_pos c pre post) = length pre"
  "allow_unknown_core_features (at_pos c pre post) = fst c"
  "remaining_len (at_pos c pre post) = length post"
  "is_done (at_pos c pre post) \<longleftrightarrow> post = []"
  by (simp_all add: at_pos_def remaining_len_def is_done_def)

lemma at_pos_inject [simp]:
  "at_pos c pre post = at_pos c' pre' post' \<longleftrightarrow> c = c' \<and> pre = pre' \<and> post = post'"
  by (cases c; cases c') (auto simp: at_pos_def)

lemma decoder_new_at: "decoder_new bs = at_pos (False, 0) [] bs"
  by (simp add: decoder_new_def at_pos_def)

lemma audit_decoder_at: "new_for_structural_audit bs = at_pos (True, 0) [] bs"
  by (simp add: new_for_structural_audit_def at_pos_def)

lemma dbind_simps [simp]:
  "m d = Inl e \<Longrightarrow> dbind m f d = Inl e"
  "m d = Inr (x, d') \<Longrightarrow> dbind m f d = f x d'"
  by (simp_all add: dbind_def)

lemma dbind_InrE:
  assumes "dbind m f d = Inr (y, d2)"
  obtains x d1 where "m d = Inr (x, d1)" "f x d1 = Inr (y, d2)"
  using assms by (auto simp: dbind_def split: sum.splits)

lemma dreturn_simps [simp]: "dreturn x d = Inr (y, d') \<longleftrightarrow> y = x \<and> d' = d"
  by (auto simp: dreturn_def)

lemma dreturn_at [simp]: "dreturn x d = Inr (x, d)"
  by (simp add: dreturn_def)

lemma dfail_simps [simp]: "dfail e d = Inl e" "dfail e d = Inr r \<longleftrightarrow> False"
  by (simp_all add: dfail_def)

lemma dlift_simps [simp]: "dlift (Inr x) d = Inr (x, d)" "dlift (Inl e) d = Inl e"
  by (simp_all add: dlift_def)

lemma dlift_Inr: "dlift r d = Inr (x, d') \<longleftrightarrow> r = Inr x \<and> d' = d"
  by (auto simp: dlift_def split: sum.splits)

lemma dec_byte_at [simp]: "dec_byte (at_pos c pre (b # post)) = Inr (b, at_pos c (pre @ [b]) post)"
  by (simp add: dec_byte_def at_pos_def nth_append)

lemma dec_byteE:
  assumes "dec_byte (at_pos c pre rest) = Inr (b, d)"
  obtains post where "rest = b # post" "d = at_pos c (pre @ [b]) post"
  using assms by (cases rest) (auto simp: dec_byte_def at_pos_def nth_append)

lemma dec_take_at: "dec_take (length bs) (at_pos c pre (bs @ post)) = Inr (bs, at_pos c (pre @ bs) post)"
  by (simp add: dec_take_def at_pos_def)

lemma dec_takeE:
  assumes "dec_take n (at_pos c pre rest) = Inr (bs, d)"
  obtains post where "rest = bs @ post" "length bs = n" "d = at_pos c (pre @ bs) post"
  using assms
  by (intro that [of "drop n rest"]) (auto simp: dec_take_def at_pos_def split: if_splits)

section \<open>Codecs\<close>

locale codec =
  fixes enc :: "'a \<Rightarrow> byte list" and dec :: "'a decode" and ok :: "'a \<Rightarrow> bool"
  assumes decode_encode: "ok x \<Longrightarrow>
      dec (at_pos c pre (enc x @ post)) = Inr (x, at_pos c (pre @ enc x) post)"
    and decode_exact: "dec (at_pos c pre rest) = Inr (x, d) \<Longrightarrow>
      ok x \<and> (\<exists>post. rest = enc x @ post \<and> d = at_pos c (pre @ enc x) post)"
    and encode_nonempty: "ok x \<Longrightarrow> enc x \<noteq> []"
begin

lemma decodeE:
  assumes "dec (at_pos c pre rest) = Inr (x, d)"
  obtains post where "ok x" "rest = enc x @ post" "d = at_pos c (pre @ enc x) post"
  using decode_exact [OF assms] by blast

lemma decode_encode_end: "ok x \<Longrightarrow> dec (at_pos c pre (enc x)) = Inr (x, at_pos c (pre @ enc x) [])"
  using decode_encode [of x c pre "[]"] by simp

text \<open>No encoding is the beginning of the encoding of another value.\<close>

lemma prefix_free:
  assumes "ok x" and "ok y" and "enc x @ r = enc y @ s"
  shows "x = y \<and> r = s"
proof -
  from decode_encode [OF assms(1), of "(False, 0)" "[]" r]
    decode_encode [OF assms(2), of "(False, 0)" "[]" s]
  show ?thesis unfolding assms(3) by simp
qed

lemma same_prefix: "ok x \<Longrightarrow> ok y \<Longrightarrow> enc x @ r = enc y @ s \<longleftrightarrow> x = y \<and> r = s"
  using prefix_free by blast

lemma length_le_encodings: "list_all ok xs \<Longrightarrow> length xs \<le> length (concat (map enc xs))"
proof (induction xs)
  case (Cons x xs)
  then have "1 \<le> length (enc x)" using encode_nonempty [of x] by (cases "enc x") simp_all
  with Cons show ?case by simp
qed simp

lemma collect_encode:
  "list_all ok xs \<Longrightarrow> collect_n (length xs) dec (at_pos c pre (concat (map enc xs) @ post)) =
     Inr (xs, at_pos c (pre @ concat (map enc xs)) post)"
proof (induction xs arbitrary: pre)
  case (Cons x xs)
  then show ?case by (simp add: decode_encode)
qed simp

lemma collect_exact:
  "collect_n n dec (at_pos c pre rest) = Inr (xs, d) \<Longrightarrow>
   length xs = n \<and> list_all ok xs \<and>
   (\<exists>post. rest = concat (map enc xs) @ post \<and> d = at_pos c (pre @ concat (map enc xs)) post)"
proof (induction n arbitrary: pre rest xs)
  case (Suc n)
  from Suc.prems obtain x xs' d1 where x: "dec (at_pos c pre rest) = Inr (x, d1)"
    and xs': "collect_n n dec d1 = Inr (xs', d)" and xs: "xs = x # xs'"
    by (auto elim!: dbind_InrE)
  from x obtain post where p: "ok x" "rest = enc x @ post" "d1 = at_pos c (pre @ enc x) post"
    by (rule decodeE)
  from Suc.IH [OF xs' [unfolded p(3)]] p xs show ?case by auto
qed auto

end

section \<open>Integers\<close>

lemma encode_uvar_nonempty [simp]: "encode_uvar v \<noteq> []"
  by (subst encode_uvar.simps) (simp add: Let_def)

lemma low_bits_step:
  "take_bit s V OR push_bit s (ucast ((ucast (drop_bit s V AND 0x7F) :: byte) AND 0x7F)) =
     (take_bit (s + 7) V :: 64 word)"
proof -
  have mask: "(0x7F :: 64 word) = mask 7" "(0x7F :: byte) = mask 7" by (simp_all add: mask_eq_exp_minus_1)
  show ?thesis
    unfolding mask by (rule bit_eqI) (auto simp: bit_simps dest: bit_imp_le_length)
qed

lemma bit_0x80: "bit (0x80 :: byte) n \<longleftrightarrow> n = 7"
proof -
  have "(0x80 :: byte) = push_bit 7 1" by simp
  then show ?thesis by (simp only: bit_push_bit_iff bit_1_iff) auto
qed

lemma bit_0x7F: "bit (0x7F :: byte) n \<longleftrightarrow> n < 7"
proof -
  have "(0x7F :: byte) = mask 7" by (simp add: mask_eq_exp_minus_1)
  then show ?thesis by (simp only: bit_mask_iff) auto
qed

lemma high_bit:
  "((low AND 0x7F) OR 0x80) AND (0x80 :: byte) \<noteq> 0"
  "(low AND 0x7F) AND (0x80 :: byte) = 0"
  "((low AND 0x7F) OR 0x80) AND 0x7F = low AND (0x7F :: byte)"
  by (auto simp: bit_eq_iff [where ?'a = byte] bit_simps bit_0x80 bit_0x7F simp del: bit_numeral_word_iff)

lemma ucast_low: "(ucast (v AND 0x7F) :: byte) = ucast (v :: 64 word) AND 0x7F"
proof -
  have mask: "(0x7F :: 64 word) = mask 7" "(0x7F :: byte) = mask 7" by (simp_all add: mask_eq_exp_minus_1)
  show ?thesis unfolding mask by (rule bit_eqI) (auto simp: bit_simps)
qed


lemma drop_bit_next: "drop_bit 7 (drop_bit s V) = drop_bit (s + 7) (V :: 64 word)"
  by (simp add: ac_simps)

lemma drop_bit_nonzero: "drop_bit s V \<noteq> 0 \<Longrightarrow> s < LENGTH(64)" for V :: "64 word"
proof (rule ccontr)
  assume "drop_bit s V \<noteq> 0" and "\<not> s < LENGTH(64)"
  moreover from this(2) have "drop_bit s V = 0" by (intro bit_eqI) (auto simp: bit_simps dest: bit_imp_le_length)
  ultimately show False by simp
qed

lemma uvar_loop_at:
  "uvar_loop (length pre) s acc (at_pos c (pre @ read) (b # post)) =
     (let v = acc OR push_bit s (ucast (b AND 0x7F)) in
      if b AND 0x80 = 0 then
        (if encode_uvar v \<noteq> read @ [b] then Inl (NonCanonicalEncoding ''uvar'')
         else Inr (v, at_pos c (pre @ read @ [b]) post))
      else if s + 7 \<ge> 64 then Inl DecodeError
      else uvar_loop (length pre) (s + 7) v (at_pos c (pre @ read @ [b]) post))"
  by (subst uvar_loop.simps) (simp add: Let_def)

text \<open>
  The loop, \<open>s\<close> bits into the encoding of \<open>V\<close>: the bits read are the accumulator, the bits
  left are the encoding of the rest.
\<close>

lemma uvar_loop_encode:
  assumes "encode_uvar V = read @ encode_uvar (drop_bit s V)"
  shows "uvar_loop (length pre) s (take_bit s V)
      (at_pos c (pre @ read) (encode_uvar (drop_bit s V) @ post)) =
    Inr (V, at_pos c (pre @ encode_uvar V) post)"
  using assms
proof (induction "64 - s" arbitrary: s read rule: less_induct)
  case less
  define low :: byte where "low = ucast (drop_bit s V)"
  define rest where "rest = drop_bit (s + 7) V"
  have step: "take_bit s V OR push_bit s (ucast (low AND 0x7F)) = take_bit (s + 7) V"
    using low_bits_step [of s V] by (simp add: low_def ucast_low ac_simps)
  have enc: "encode_uvar (drop_bit s V) =
      (if rest \<noteq> 0 then ((low AND 0x7F) OR 0x80) # encode_uvar rest else [low AND 0x7F])"
    unfolding encode_uvar.simps [of "drop_bit s V"] Let_def drop_bit_next rest_def low_def ucast_low ..
  show ?case
  proof (cases "rest = 0")
    case True
    have "take_bit (s + 7) V = V" using bits_ident [of "s + 7" V] True by (simp add: rest_def)
    with True less.prems show ?thesis
      by (simp add: enc uvar_loop_at high_bit(2) step ac_simps)
  next
    case False
    then have "s + 7 < 64" using drop_bit_nonzero by (fastforce simp: rest_def)
    with less.hyps [of "s + 7" "read @ [(low AND 0x7F) OR 0x80]"] less.prems False show ?thesis
      by (simp add: enc uvar_loop_at high_bit step rest_def [symmetric])
  qed
qed

lemma uvar_loop_exact:
  "uvar_loop (length pre) s acc (at_pos c (pre @ read) rest) = Inr (v, d) \<Longrightarrow>
   \<exists>post. read @ rest = encode_uvar v @ post \<and> d = at_pos c (pre @ encode_uvar v) post"
proof (induction "64 - s" arbitrary: s acc read rest rule: less_induct)
  case less
  from less.prems obtain b post where rest: "rest = b # post"
    by (cases rest) (auto simp: uvar_loop.simps [of _ s] dec_byte_def)
  show ?case
  proof (cases "b AND 0x80 = 0")
    case True
    with less.prems show ?thesis
      by (auto simp: rest uvar_loop_at Let_def split: if_splits)
  next
    case False
    with less.prems less.hyps [of "s + 7" _ "read @ [b]" post] show ?thesis
      by (auto simp: rest uvar_loop_at Let_def split: if_splits)
  qed
qed

interpretation uvar: codec encode_uvar dec_uvar "\<lambda>_. True"
proof
  fix x c pre post
  show "dec_uvar (at_pos c pre (encode_uvar x @ post)) = Inr (x, at_pos c (pre @ encode_uvar x) post)"
    using uvar_loop_encode [of x "[]" 0 pre c post] by (simp add: dec_uvar_def)
next
  fix c pre rest x d assume "dec_uvar (at_pos c pre rest) = Inr (x, d)"
  with uvar_loop_exact [of pre 0 0 c "[]" rest x d]
  show "True \<and> (\<exists>post. rest = encode_uvar x @ post \<and> d = at_pos c (pre @ encode_uvar x) post)"
    by (simp add: dec_uvar_def)
qed simp


lemma unat_of_length: "n < 2 ^ 64 \<Longrightarrow> unat (word_of_nat n :: usize) = n"
  by (simp add: unsigned_of_nat take_bit_nat_eq_self)

lemma unat_byte_less: "unat (b :: byte) < 256"
  using unsigned_less [of b] by simp

lemma unat_u32_less: "unat (v :: 32 word) < 4294967296"
  using unsigned_less [of v] by simp

lemma dec_usize_eq: "dec_usize = dec_uvar"
  by (simp add: dec_usize_def)

interpretation usize: codec encode_uvar dec_usize "\<lambda>_. True"
  unfolding dec_usize_eq by unfold_locales

lemma ucast_u32 [simp]: "unat v < 2 ^ 32 \<Longrightarrow> ucast (ucast v :: 32 word) = (v :: 64 word)"
  by (rule unsigned_word_eqI [where ?'a = nat])
    (simp add: unsigned_ucast_eq unsigned_take_bit_eq take_bit_nat_eq_self)

definition encode_u32 :: "32 word \<Rightarrow> byte list" where
  "encode_u32 v = encode_uvar (ucast v)"

interpretation u32: codec encode_u32 dec_u32 "\<lambda>_. True"
proof
  fix x :: "32 word" and c pre post
  have "unat (ucast x :: 64 word) < 2 ^ 32"
    using unat_u32_less [of x] by (simp add: unsigned_ucast_eq take_bit_nat_def)
  moreover have "ucast (ucast x :: 64 word) = x"
    by (rule bit_eqI) (auto simp: bit_simps dest: bit_imp_le_length)
  ultimately show "dec_u32 (at_pos c pre (encode_u32 x @ post)) = Inr (x, at_pos c (pre @ encode_u32 x) post)"
    by (simp add: dec_u32_def encode_u32_def uvar.decode_encode)
next
  fix c pre rest x d assume "dec_u32 (at_pos c pre rest) = Inr (x, d)"
  then show "True \<and> (\<exists>post. rest = encode_u32 x @ post \<and> d = at_pos c (pre @ encode_u32 x) post)"
    by (auto simp: dec_u32_def encode_u32_def elim!: dbind_InrE uvar.decodeE split: if_splits)
qed (simp add: encode_u32_def)

section \<open>Vectors, options, hashes and strings\<close>

context codec
begin

lemma vec_for:
  assumes "limit < 2 ^ 64"
  shows "codec (encode_vec enc) (dec_vec_for kind limit dec) (\<lambda>xs. length xs \<le> limit \<and> list_all ok xs)"
proof
  fix xs c pre post assume xs: "length xs \<le> limit \<and> list_all ok xs"
  with assms have "unat (word_of_nat (length xs) :: usize) = length xs"
    by (intro unat_of_length) simp
  with xs show "dec_vec_for kind limit dec (at_pos c pre (encode_vec enc xs @ post)) =
      Inr (xs, at_pos c (pre @ encode_vec enc xs) post)"
    using length_le_encodings [of xs]
    by (simp add: dec_vec_for_def bounded_len_for_def encode_vec_def usize.decode_encode ensure_count_limit_def
        collect_encode)
next
  fix c pre rest xs d assume "dec_vec_for kind limit dec (at_pos c pre rest) = Inr (xs, d)"
  then have "\<exists>len post. unat len \<le> limit \<and> rest = encode_uvar len @ post \<and>
      collect_n (unat len) dec (at_pos c (pre @ encode_uvar len) post) = Inr (xs, d)"
    by (auto simp: dec_vec_for_def bounded_len_for_def dlift_Inr ensure_count_limit_def not_less
        elim!: dbind_InrE usize.decodeE split: if_splits)
  then obtain len post where len: "unat len \<le> limit" "rest = encode_uvar len @ post"
    and xs: "collect_n (unat len) dec (at_pos c (pre @ encode_uvar len) post) = Inr (xs, d)" by blast
  from collect_exact [OF xs] len
  show "(length xs \<le> limit \<and> list_all ok xs) \<and> (\<exists>post. rest = encode_vec enc xs @ post \<and>
      d = at_pos c (pre @ encode_vec enc xs) post)"
    by (auto simp: encode_vec_def)
qed (simp add: encode_vec_def)

lemma vec: "codec (encode_vec enc) (dec_vec dec)
    (\<lambda>xs. length xs \<le> max_nested_vector_entries \<and> list_all ok xs)"
  using vec_for [of max_nested_vector_entries NestedVectorEntries]
  by (simp add: dec_vec_def dec_vec_for_def bounded_len_def max_nested_vector_entries_def)

end

definition encode_option :: "('a \<Rightarrow> byte list) \<Rightarrow> 'a option \<Rightarrow> byte list" where
  "encode_option e v = (case v of None \<Rightarrow> [0x00] | Some x \<Rightarrow> 0x01 # e x)"

definition dec_option :: "'a decode \<Rightarrow> 'a option decode" where
  "dec_option p = dbind dec_byte (\<lambda>tag.
     if tag = 0x00 then dreturn None
     else if tag = 0x01 then dbind p (\<lambda>x. dreturn (Some x))
     else dfail (UnsupportedEncoding tag))"

context codec
begin

lemma option: "codec (encode_option enc) (dec_option dec) (pred_option ok)"
proof
  fix x c pre post assume "pred_option ok x"
  then show "dec_option dec (at_pos c pre (encode_option enc x @ post)) =
      Inr (x, at_pos c (pre @ encode_option enc x) post)"
    by (cases x) (simp_all add: dec_option_def encode_option_def decode_encode)
next
  fix c pre rest x d assume "dec_option dec (at_pos c pre rest) = Inr (x, d)"
  then show "pred_option ok x \<and> (\<exists>post. rest = encode_option enc x @ post \<and>
      d = at_pos c (pre @ encode_option enc x) post)"
    by (auto simp: dec_option_def encode_option_def elim!: dbind_InrE dec_byteE decodeE split: if_splits)
qed (simp add: encode_option_def split: option.split)

end

definition hash_ok :: "hash \<Rightarrow> bool" where
  "hash_ok h \<longleftrightarrow> length h = 32"

definition encode_hash :: "hash \<Rightarrow> byte list" where
  "encode_hash h = h"

definition dec_hash :: "hash decode" where
  "dec_hash = dec_take 32"

interpretation hash: codec encode_hash dec_hash hash_ok
proof
  fix x c pre post assume "hash_ok x"
  then show "dec_hash (at_pos c pre (encode_hash x @ post)) = Inr (x, at_pos c (pre @ encode_hash x) post)"
    using dec_take_at [of x c pre post] by (simp add: dec_hash_def encode_hash_def hash_ok_def)
next
  fix c pre rest x d assume "dec_hash (at_pos c pre rest) = Inr (x, d)"
  then show "hash_ok x \<and> (\<exists>post. rest = encode_hash x @ post \<and> d = at_pos c (pre @ encode_hash x) post)"
    by (auto simp: dec_hash_def encode_hash_def hash_ok_def elim!: dec_takeE)
qed (auto simp: hash_ok_def encode_hash_def)

text \<open>
  The byte sequences \<^verbatim>\<open>String::from_utf8\<close> accepts: no overlong form, no surrogate and
  nothing above \<open>U+10FFFF\<close>.
\<close>

definition continuation :: "byte \<Rightarrow> bool" where
  "continuation b \<longleftrightarrow> 0x80 \<le> b \<and> b \<le> 0xBF"

fun valid_utf8 :: "byte list \<Rightarrow> bool" where
  "valid_utf8 [] \<longleftrightarrow> True"
| "valid_utf8 (a # bs) \<longleftrightarrow>
     (if a \<le> 0x7F then valid_utf8 bs
      else if 0xC2 \<le> a \<and> a \<le> 0xDF then
        (case bs of b # r \<Rightarrow> continuation b \<and> valid_utf8 r | _ \<Rightarrow> False)
      else if 0xE0 \<le> a \<and> a \<le> 0xEF then
        (case bs of b # c # r \<Rightarrow> continuation b \<and> continuation c \<and> (a = 0xE0 \<longrightarrow> 0xA0 \<le> b) \<and>
             (a = 0xED \<longrightarrow> b \<le> 0x9F) \<and> valid_utf8 r
         | _ \<Rightarrow> False)
      else if 0xF0 \<le> a \<and> a \<le> 0xF4 then
        (case bs of b # c # e # r \<Rightarrow> continuation b \<and> continuation c \<and> continuation e \<and>
             (a = 0xF0 \<longrightarrow> 0x90 \<le> b) \<and> (a = 0xF4 \<longrightarrow> b \<le> 0x8F) \<and> valid_utf8 r
         | _ \<Rightarrow> False)
      else False)"

text \<open>A string is the list of its bytes, as in the kernel.\<close>

definition as_bytes :: "string \<Rightarrow> byte list" where
  "as_bytes s = map of_char s"

definition from_bytes :: "byte list \<Rightarrow> string" where
  "from_bytes bs = map (\<lambda>b. char_of (unat b)) bs"

definition string_ok :: "string \<Rightarrow> bool" where
  "string_ok s \<longleftrightarrow> valid_utf8 (as_bytes s) \<and> length s < 2 ^ 64"

definition encode_string :: "string \<Rightarrow> byte list" where
  "encode_string s = encode_uvar (word_of_nat (length s)) @ as_bytes s"

definition dec_string :: "string decode" where
  "dec_string = dbind dec_usize (\<lambda>len. dbind (dec_take (unat len)) (\<lambda>bytes.
     if valid_utf8 bytes then dreturn (from_bytes bytes)
     else dfail (NonCanonicalEncoding ''string'')))"

lemma byte_char [simp]: "of_char (char_of (unat b)) = (b :: byte)"
proof -
  have "(of_char (char_of (unat b)) :: byte) = of_nat (of_char (char_of (unat b)))"
    by (simp only: of_nat_of_char)
  also have "\<dots> = b" using unat_byte_less [of b] by simp
  finally show ?thesis .
qed

lemma as_from_bytes [simp]: "as_bytes (from_bytes bs) = bs"
  by (simp add: as_bytes_def from_bytes_def o_def)

lemma unat_of_char: "unat (of_char c :: byte) = of_char c"
proof -
  have "unat (of_char c :: byte) = unat (of_nat (of_char c) :: byte)" by (simp only: of_nat_of_char)
  also have "\<dots> = of_char c"
    using nat_of_char_less_256 [of c] by (subst unsigned_of_nat) (simp add: take_bit_nat_eq_self)
  finally show ?thesis .
qed

lemma char_byte [simp]: "char_of (unat (of_char c :: byte)) = c"
  by (simp add: unat_of_char)

lemma from_as_bytes [simp]: "from_bytes (as_bytes s) = s"
  by (simp add: as_bytes_def from_bytes_def o_def)

lemma length_bytes [simp]: "length (as_bytes s) = length s" "length (from_bytes bs) = length bs"
  by (simp_all add: as_bytes_def from_bytes_def)

interpretation str: codec encode_string dec_string string_ok
proof
  fix x c pre post assume x: "string_ok x"
  then have "unat (word_of_nat (length x) :: usize) = length (as_bytes x)"
    by (simp add: string_ok_def unat_of_length)
  with x show "dec_string (at_pos c pre (encode_string x @ post)) = Inr (x, at_pos c (pre @ encode_string x) post)"
    by (simp add: dec_string_def encode_string_def string_ok_def usize.decode_encode dec_take_at del: length_bytes)
next
  fix c pre rest x d assume "dec_string (at_pos c pre rest) = Inr (x, d)"
  then obtain len post where "rest = encode_uvar len @ as_bytes x @ post" "valid_utf8 (as_bytes x)"
    "length x = unat len" "d = at_pos c (pre @ encode_uvar len @ as_bytes x) post"
    by (auto simp: dec_string_def elim!: dbind_InrE usize.decodeE dec_takeE split: if_splits)
  then show "string_ok x \<and> (\<exists>post. rest = encode_string x @ post \<and> d = at_pos c (pre @ encode_string x) post)"
    using unsigned_less [of len] by (simp add: encode_string_def string_ok_def)
qed (simp add: encode_string_def)

end
