(* ===== verification/Cert_Format.thy ===== *)
theory Cert_Format
  imports Cert_Bytes Kernel_Name "HOL-Library.List_Lexorder"
begin

text \<open>
  The data of module certificates (\<^verbatim>\<open>npa-cert/src/types.rs\<close>) and their encoders and decoders
  (\<^verbatim>\<open>npa-cert/src/binary.rs\<close>), in the order of the source. An encoder that appends to a
  vector is the function to the bytes it appends. \<^verbatim>\<open>CoreFeature\<close> has no variant, so that
  \<^verbatim>\<open>AxiomReport::core_features\<close> is always empty and is not a field here.

  Each data type is an interpretation of \<open>codec\<close>, from its parts.
\<close>

section \<open>Data\<close>

type_synonym cname = "string list"
type_synonym level_id = usize
type_synonym term_id = usize

definition name_is_canonical :: "cname \<Rightarrow> bool" where
  "name_is_canonical name \<longleftrightarrow> name \<noteq> [] \<and> list_all is_canonical_name_component name"

definition name_from_dotted :: "string \<Rightarrow> cname" where
  "name_from_dotted name = split_on CHR ''.'' name"

definition name_as_dotted :: "cname \<Rightarrow> string" where
  "name_as_dotted name = join_dots name"

record cert_header =
  hdr_format :: string
  hdr_core_spec :: string
  hdr_module :: cname

record import_entry =
  ie_module :: cname
  ie_export_hash :: hash
  ie_certificate_hash :: "hash option"

record module_hashes =
  mh_export_hash :: hash
  mh_axiom_report_hash :: hash
  mh_certificate_hash :: hash

datatype level_node =
    LNZero
  | LNSucc level_id
  | LNMax level_id level_id
  | LNIMax level_id level_id
  | LNParam name_id

datatype term_node =
    TNSort level_id
  | TNBVar "32 word"
  | TNConst global_ref "level_id list"
  | TNApp term_id term_id
  | TNLam term_id term_id
  | TNPi term_id term_id

record universe_constraint_spec =
  ucs_lhs :: level_id
  ucs_relation :: universe_constraint_relation
  ucs_rhs :: level_id

record binder_type =
  bt_ty :: term_id

record constructor_spec =
  cs_name :: name_id
  cs_ty :: term_id

record recursor_rules_spec =
  rrs_minor_start :: usize
  rrs_major_index :: usize

record recursor_spec =
  rs_name :: name_id
  rs_universe_params :: "name_id list"
  rs_ty :: term_id
  rs_rules :: recursor_rules_spec

record mutual_inductive_spec =
  mis_name :: name_id
  mis_params :: "binder_type list"
  mis_indices :: "binder_type list"
  mis_sort :: level_id
  mis_constructors :: "constructor_spec list"
  mis_recursor :: "recursor_spec option"

datatype cert_reducibility = CertReducible | CertOpaque

datatype opacity = OpacityOpaque

datatype decl_payload =
    PAxiom name_id "name_id list" term_id
  | PAxiomConstrained name_id "name_id list" "universe_constraint_spec list" term_id
  | PDef name_id "name_id list" term_id term_id cert_reducibility
  | PDefConstrained name_id "name_id list" "universe_constraint_spec list" term_id term_id
      cert_reducibility
  | PTheorem name_id "name_id list" term_id term_id opacity
  | PTheoremConstrained name_id "name_id list" "universe_constraint_spec list" term_id term_id
      opacity
  | PInductive name_id "name_id list" "binder_type list" "binder_type list" level_id
      "constructor_spec list" "recursor_spec option"
  | PInductiveConstrained name_id "name_id list" "universe_constraint_spec list"
      "binder_type list" "binder_type list" level_id "constructor_spec list" "recursor_spec option"
  | PMutualInductiveBlock name_id "name_id list" "universe_constraint_spec list"
      "mutual_inductive_spec list"

datatype dependency_entry_kind = DKInterface | DKLocalImplementation

datatype dependency_entry =
    DInterface global_ref hash
  | DLocalImplementation global_ref hash hash

primrec dependency_kind :: "dependency_entry \<Rightarrow> dependency_entry_kind" where
  "dependency_kind (DInterface g ih) = DKInterface"
| "dependency_kind (DLocalImplementation g ih ch) = DKLocalImplementation"

primrec dependency_global_ref :: "dependency_entry \<Rightarrow> global_ref" where
  "dependency_global_ref (DInterface g ih) = g"
| "dependency_global_ref (DLocalImplementation g ih ch) = g"

primrec dependency_decl_interface_hash :: "dependency_entry \<Rightarrow> hash" where
  "dependency_decl_interface_hash (DInterface g ih) = ih"
| "dependency_decl_interface_hash (DLocalImplementation g ih ch) = ih"

primrec dependency_decl_certificate_hash :: "dependency_entry \<Rightarrow> hash option" where
  "dependency_decl_certificate_hash (DInterface g ih) = None"
| "dependency_decl_certificate_hash (DLocalImplementation g ih ch) = Some ch"

record axiom_ref =
  ar_global_ref :: global_ref
  ar_name :: name_id
  ar_decl_interface_hash :: hash

record decl_hashes =
  dh_decl_interface_hash :: hash
  dh_decl_certificate_hash :: hash

record decl_cert =
  dc_decl :: decl_payload
  dc_dependencies :: "dependency_entry list"
  dc_axiom_dependencies :: "axiom_ref list"
  dc_hashes :: decl_hashes

datatype export_kind =
  EKAxiom | EKDef | EKTheorem | EKInductive | EKConstructor | EKRecursor

record export_entry =
  ee_name :: name_id
  ee_kind :: export_kind
  ee_universe_params :: "name_id list"
  ee_universe_constraints :: "universe_constraint_spec list"
  ee_ty :: term_id
  ee_body :: "term_id option"
  ee_type_hash :: hash
  ee_body_hash :: "hash option"
  ee_reducibility :: "cert_reducibility option"
  ee_opacity :: "opacity option"
  ee_decl_interface_hash :: hash
  ee_axiom_dependencies :: "axiom_ref list"

record decl_axiom_report =
  dar_decl_index :: usize
  dar_direct_axioms :: "axiom_ref list"
  dar_transitive_axioms :: "axiom_ref list"

record axiom_report =
  rep_per_declaration :: "decl_axiom_report list"
  rep_module_axioms :: "axiom_ref list"

record module_cert =
  mc_header :: cert_header
  mc_imports :: "import_entry list"
  mc_name_table :: "cname list"
  mc_level_table :: "level_node list"
  mc_term_table :: "term_node list"
  mc_declarations :: "decl_cert list"
  mc_export_block :: "export_entry list"
  mc_axiom_report :: axiom_report
  mc_hashes :: module_hashes

text \<open>Formats and limits.\<close>

definition FORMAT :: string where "FORMAT = ''NPA-CERT-0.4.0''"

definition CORE_SPEC :: string where "CORE_SPEC = ''NPA-Core-0.4.0''"

datatype certificate_format_version = V0_4_0

definition encodes_export_universe_constraints :: "certificate_format_version \<Rightarrow> bool" where
  "encodes_export_universe_constraints v = True"

definition encodes_tagged_dependencies :: "certificate_format_version \<Rightarrow> bool" where
  "encodes_tagged_dependencies v = True"

definition cert_format_version :: "cert_header \<Rightarrow> certificate_format_version cresult" where
  "cert_format_version header =
     (if hdr_format header = FORMAT \<and> hdr_core_spec header = CORE_SPEC then Inr V0_4_0
      else Inl (UnsupportedFormat (hdr_format header) (hdr_core_spec header)))"

definition max_certificate_bytes :: nat where "max_certificate_bytes = 67108864"
definition max_imports :: nat where "max_imports = 4096"
definition max_name_table_entries :: nat where "max_name_table_entries = 1048576"
definition max_level_table_nodes :: nat where "max_level_table_nodes = 262144"
definition max_term_table_nodes :: nat where "max_term_table_nodes = 4194304"
definition max_declarations :: nat where "max_declarations = 262144"
definition max_exports :: nat where "max_exports = 1048576"

lemmas max_defs = max_imports_def max_name_table_entries_def max_level_table_nodes_def
  max_term_table_nodes_def max_declarations_def max_exports_def max_nested_vector_entries_def

definition ensure_certificate_byte_limit :: "byte list \<Rightarrow> unit cresult" where
  "ensure_certificate_byte_limit bytes =
     (if length bytes > max_certificate_bytes
      then Inl (StructuralLimitExceeded CertificateBytes max_certificate_bytes (length bytes))
      else Inr ())"


section \<open>Encoders\<close>

definition encode_name :: "cname \<Rightarrow> byte list" where
  "encode_name name = encode_vec encode_string name"

definition encode_option_hash :: "hash option \<Rightarrow> byte list" where
  "encode_option_hash h = encode_option encode_hash h"

definition encode_option_usize :: "usize option \<Rightarrow> byte list" where
  "encode_option_usize v = encode_option encode_uvar v"

definition encode_usize_vec :: "usize list \<Rightarrow> byte list" where
  "encode_usize_vec vs = encode_vec encode_uvar vs"

primrec encode_reducibility :: "cert_reducibility \<Rightarrow> byte list" where
  "encode_reducibility CertReducible = [0x00]"
| "encode_reducibility CertOpaque = [0x01]"

definition encode_option_reducibility :: "cert_reducibility option \<Rightarrow> byte list" where
  "encode_option_reducibility v = encode_option encode_reducibility v"

primrec encode_opacity :: "opacity \<Rightarrow> byte list" where
  "encode_opacity OpacityOpaque = [0x00]"

definition encode_option_opacity :: "opacity option \<Rightarrow> byte list" where
  "encode_option_opacity v = encode_option encode_opacity v"

definition encode_header :: "cert_header \<Rightarrow> byte list" where
  "encode_header header =
     encode_string (hdr_format header) @ encode_string (hdr_core_spec header) @
     encode_name (hdr_module header)"

definition encode_import :: "import_entry \<Rightarrow> byte list" where
  "encode_import i =
     encode_name (ie_module i) @ encode_hash (ie_export_hash i) @
     encode_option_hash (ie_certificate_hash i)"

definition encode_imports :: "import_entry list \<Rightarrow> byte list" where
  "encode_imports imports = encode_vec encode_import imports"

definition encode_name_table :: "cname list \<Rightarrow> byte list" where
  "encode_name_table names = encode_vec encode_name names"

primrec encode_level_node :: "level_node \<Rightarrow> byte list" where
  "encode_level_node LNZero = [0x00]"
| "encode_level_node (LNSucc inner) = 0x01 # encode_uvar inner"
| "encode_level_node (LNMax lhs rhs) = 0x02 # encode_uvar lhs @ encode_uvar rhs"
| "encode_level_node (LNIMax lhs rhs) = 0x03 # encode_uvar lhs @ encode_uvar rhs"
| "encode_level_node (LNParam name) = 0x04 # encode_uvar name"

definition encode_level_table :: "level_node list \<Rightarrow> byte list" where
  "encode_level_table levels = encode_vec encode_level_node levels"

primrec encode_global_ref :: "global_ref \<Rightarrow> byte list" where
  "encode_global_ref (GBuiltin name ih) = 0x03 # encode_uvar name @ encode_hash ih"
| "encode_global_ref (GImported import_index name ih) =
     0x00 # encode_uvar import_index @ encode_uvar name @ encode_hash ih"
| "encode_global_ref (GLocal decl_index) = 0x01 # encode_uvar decl_index"
| "encode_global_ref (GLocalGenerated decl_index name) =
     0x02 # encode_uvar decl_index @ encode_uvar name"

primrec encode_term_node :: "term_node \<Rightarrow> byte list" where
  "encode_term_node (TNSort level) = 0x00 # encode_uvar level"
| "encode_term_node (TNBVar index) = 0x01 # encode_u32 index"
| "encode_term_node (TNConst global_ref levels) =
     0x02 # encode_global_ref global_ref @ encode_usize_vec levels"
| "encode_term_node (TNApp fn arg) = 0x03 # encode_uvar fn @ encode_uvar arg"
| "encode_term_node (TNLam ty body) = 0x04 # encode_uvar ty @ encode_uvar body"
| "encode_term_node (TNPi ty body) = 0x05 # encode_uvar ty @ encode_uvar body"

definition encode_term_table :: "term_node list \<Rightarrow> byte list" where
  "encode_term_table terms = encode_vec encode_term_node terms"

primrec encode_relation :: "universe_constraint_relation \<Rightarrow> byte list" where
  "encode_relation RLe = [0x00]"
| "encode_relation REq = [0x01]"

definition encode_universe_constraint_spec :: "universe_constraint_spec \<Rightarrow> byte list" where
  "encode_universe_constraint_spec c =
     encode_uvar (ucs_lhs c) @ encode_relation (ucs_relation c) @ encode_uvar (ucs_rhs c)"

definition encode_universe_constraint_specs :: "universe_constraint_spec list \<Rightarrow> byte list" where
  "encode_universe_constraint_specs cs = encode_vec encode_universe_constraint_spec cs"

definition encode_binder_type :: "binder_type \<Rightarrow> byte list" where
  "encode_binder_type b = encode_uvar (bt_ty b)"

definition encode_binder_types :: "binder_type list \<Rightarrow> byte list" where
  "encode_binder_types bs = encode_vec encode_binder_type bs"

definition encode_constructor_spec :: "constructor_spec \<Rightarrow> byte list" where
  "encode_constructor_spec c = encode_uvar (cs_name c) @ encode_uvar (cs_ty c)"

definition encode_constructor_specs :: "constructor_spec list \<Rightarrow> byte list" where
  "encode_constructor_specs cs = encode_vec encode_constructor_spec cs"

definition encode_recursor :: "recursor_spec \<Rightarrow> byte list" where
  "encode_recursor r =
     encode_uvar (rs_name r) @ encode_usize_vec (rs_universe_params r) @ encode_uvar (rs_ty r) @
     encode_uvar (rrs_minor_start (rs_rules r)) @ encode_uvar (rrs_major_index (rs_rules r))"

definition encode_recursor_spec :: "recursor_spec option \<Rightarrow> byte list" where
  "encode_recursor_spec r = encode_option encode_recursor r"

definition encode_mutual_inductive_spec :: "mutual_inductive_spec \<Rightarrow> byte list" where
  "encode_mutual_inductive_spec i =
     encode_uvar (mis_name i) @ encode_binder_types (mis_params i) @
     encode_binder_types (mis_indices i) @ encode_uvar (mis_sort i) @
     encode_constructor_specs (mis_constructors i) @ encode_recursor_spec (mis_recursor i)"

primrec encode_decl_payload :: "decl_payload \<Rightarrow> byte list" where
  "encode_decl_payload (PAxiom name ups ty) =
     0x00 # encode_uvar name @ encode_usize_vec ups @ encode_uvar ty"
| "encode_decl_payload (PAxiomConstrained name ups ucs ty) =
     0x10 # encode_uvar name @ encode_usize_vec ups @ encode_universe_constraint_specs ucs @
     encode_uvar ty"
| "encode_decl_payload (PDef name ups ty value red) =
     0x01 # encode_uvar name @ encode_usize_vec ups @ encode_uvar ty @ encode_uvar value @
     encode_reducibility red"
| "encode_decl_payload (PDefConstrained name ups ucs ty value red) =
     0x11 # encode_uvar name @ encode_usize_vec ups @ encode_universe_constraint_specs ucs @
     encode_uvar ty @ encode_uvar value @ encode_reducibility red"
| "encode_decl_payload (PTheorem name ups ty prf op) =
     0x02 # encode_uvar name @ encode_usize_vec ups @ encode_uvar ty @ encode_uvar prf @
     encode_opacity op"
| "encode_decl_payload (PTheoremConstrained name ups ucs ty prf op) =
     0x12 # encode_uvar name @ encode_usize_vec ups @ encode_universe_constraint_specs ucs @
     encode_uvar ty @ encode_uvar prf @ encode_opacity op"
| "encode_decl_payload (PInductive name ups params indices srt ctors rec) =
     0x03 # encode_uvar name @ encode_usize_vec ups @ encode_binder_types params @
     encode_binder_types indices @ encode_uvar srt @ encode_constructor_specs ctors @
     encode_recursor_spec rec"
| "encode_decl_payload (PInductiveConstrained name ups ucs params indices srt ctors rec) =
     0x13 # encode_uvar name @ encode_usize_vec ups @ encode_universe_constraint_specs ucs @
     encode_binder_types params @ encode_binder_types indices @ encode_uvar srt @
     encode_constructor_specs ctors @ encode_recursor_spec rec"
| "encode_decl_payload (PMutualInductiveBlock name ups ucs inductives) =
     0x04 # encode_uvar name @ encode_usize_vec ups @ encode_universe_constraint_specs ucs @
     encode_vec encode_mutual_inductive_spec inductives"

primrec encode_export_kind :: "export_kind \<Rightarrow> byte list" where
  "encode_export_kind EKAxiom = [0x00]"
| "encode_export_kind EKDef = [0x01]"
| "encode_export_kind EKTheorem = [0x02]"
| "encode_export_kind EKInductive = [0x03]"
| "encode_export_kind EKConstructor = [0x04]"
| "encode_export_kind EKRecursor = [0x05]"

definition encode_axiom_ref :: "axiom_ref \<Rightarrow> byte list" where
  "encode_axiom_ref a =
     encode_global_ref (ar_global_ref a) @ encode_uvar (ar_name a) @
     encode_hash (ar_decl_interface_hash a)"

definition encode_axiom_refs :: "axiom_ref list \<Rightarrow> byte list" where
  "encode_axiom_refs axioms = encode_vec encode_axiom_ref axioms"

definition encode_export_entry :: "certificate_format_version \<Rightarrow> export_entry \<Rightarrow> byte list" where
  "encode_export_entry version e =
     encode_uvar (ee_name e) @ encode_export_kind (ee_kind e) @
     encode_usize_vec (ee_universe_params e) @
     (if encodes_export_universe_constraints version
      then encode_universe_constraint_specs (ee_universe_constraints e) else []) @
     encode_uvar (ee_ty e) @ encode_option_usize (ee_body e) @ encode_hash (ee_type_hash e) @
     encode_option_hash (ee_body_hash e) @ encode_option_reducibility (ee_reducibility e) @
     encode_option_opacity (ee_opacity e) @ encode_hash (ee_decl_interface_hash e) @
     encode_axiom_refs (ee_axiom_dependencies e)"

definition encode_export_block_with_format ::
    "export_entry list \<Rightarrow> certificate_format_version \<Rightarrow> byte list" where
  "encode_export_block_with_format block version = encode_vec (encode_export_entry version) block"

definition encode_export_block :: "export_entry list \<Rightarrow> byte list" where
  "encode_export_block block = encode_export_block_with_format block V0_4_0"

definition encode_decl_axiom_report :: "decl_axiom_report \<Rightarrow> byte list" where
  "encode_decl_axiom_report e =
     encode_uvar (dar_decl_index e) @ encode_axiom_refs (dar_direct_axioms e) @
     encode_axiom_refs (dar_transitive_axioms e)"

definition encode_axiom_report :: "axiom_report \<Rightarrow> byte list" where
  "encode_axiom_report report =
     encode_vec encode_decl_axiom_report (rep_per_declaration report) @
     encode_axiom_refs (rep_module_axioms report)"

primrec encode_dependency_kind :: "dependency_entry_kind \<Rightarrow> byte list" where
  "encode_dependency_kind DKInterface = [0x00]"
| "encode_dependency_kind DKLocalImplementation = [0x01]"

definition encode_dependency_untagged :: "dependency_entry \<Rightarrow> byte list" where
  "encode_dependency_untagged dep =
     encode_global_ref (dependency_global_ref dep) @ encode_hash (dependency_decl_interface_hash dep)"

definition encode_dependency_entries :: "dependency_entry list \<Rightarrow> byte list" where
  "encode_dependency_entries deps = encode_vec encode_dependency_untagged deps"

definition encode_dependency_tagged :: "dependency_entry \<Rightarrow> byte list" where
  "encode_dependency_tagged dep =
     encode_dependency_kind (dependency_kind dep) @ encode_global_ref (dependency_global_ref dep) @
     encode_hash (dependency_decl_interface_hash dep) @
     (case dependency_decl_certificate_hash dep of None \<Rightarrow> [] | Some h \<Rightarrow> encode_hash h)"

definition encode_dependency_entries_with_format ::
    "dependency_entry list \<Rightarrow> certificate_format_version \<Rightarrow> byte list" where
  "encode_dependency_entries_with_format deps version =
     (if \<not> encodes_tagged_dependencies version then encode_dependency_entries deps
      else encode_vec encode_dependency_tagged deps)"

definition encode_declaration :: "certificate_format_version \<Rightarrow> decl_cert \<Rightarrow> byte list" where
  "encode_declaration version decl =
     encode_decl_payload (dc_decl decl) @
     encode_dependency_entries_with_format (dc_dependencies decl) version @
     encode_axiom_refs (dc_axiom_dependencies decl) @
     encode_hash (dh_decl_interface_hash (dc_hashes decl)) @
     encode_hash (dh_decl_certificate_hash (dc_hashes decl))"

definition encode_declarations :: "decl_cert list \<Rightarrow> certificate_format_version \<Rightarrow> byte list" where
  "encode_declarations decls version = encode_vec (encode_declaration version) decls"

definition encode_module_cert_parts_with_format ::
    "module_cert \<Rightarrow> certificate_format_version \<Rightarrow> bool \<Rightarrow> byte list" where
  "encode_module_cert_parts_with_format parts version include_certificate_hash =
     encode_header (mc_header parts) @ encode_imports (mc_imports parts) @
     encode_name_table (mc_name_table parts) @ encode_level_table (mc_level_table parts) @
     encode_term_table (mc_term_table parts) @ encode_declarations (mc_declarations parts) version @
     encode_export_block_with_format (mc_export_block parts) version @
     encode_axiom_report (mc_axiom_report parts) @
     encode_hash (mh_export_hash (mc_hashes parts)) @
     encode_hash (mh_axiom_report_hash (mc_hashes parts)) @
     (if include_certificate_hash then encode_hash (mh_certificate_hash (mc_hashes parts)) else [])"

definition ensure_dependency_layout_supported ::
    "decl_cert list \<Rightarrow> certificate_format_version \<Rightarrow> unit cresult" where
  "ensure_dependency_layout_supported decls version =
     (if \<not> encodes_tagged_dependencies version \<and>
         list_ex (\<lambda>d. list_ex (\<lambda>dep. dependency_kind dep = DKLocalImplementation)
           (dc_dependencies d)) decls
      then Inl LocalImplementationDependencyRequiresFormatUpgrade else Inr ())"

record full_module_cert_encoding =
  fe_bytes :: "byte list"
  fe_version :: certificate_format_version
  fe_certificate_hash_input_end :: nat

definition encode_module_cert_full_with_boundary_for_header ::
    "module_cert \<Rightarrow> full_module_cert_encoding cresult" where
  "encode_module_cert_full_with_boundary_for_header cert =
     (case cert_format_version (mc_header cert) of
        Inl e \<Rightarrow> Inl e
      | Inr version \<Rightarrow>
          (case ensure_dependency_layout_supported (mc_declarations cert) version of
             Inl e \<Rightarrow> Inl e
           | Inr _ \<Rightarrow>
               let bytes = encode_module_cert_parts_with_format cert version False in
               Inr \<lparr>fe_bytes = bytes @ encode_hash (mh_certificate_hash (mc_hashes cert)),
                 fe_version = version, fe_certificate_hash_input_end = length bytes\<rparr>))"

definition encode_module_cert :: "module_cert \<Rightarrow> byte list cresult" where
  "encode_module_cert cert =
     (case encode_module_cert_full_with_boundary_for_header cert of
        Inl e \<Rightarrow> Inl e
      | Inr full \<Rightarrow> Inr (fe_bytes full))"

definition encode_module_cert_without_certificate_hash :: "module_cert \<Rightarrow> byte list cresult" where
  "encode_module_cert_without_certificate_hash parts =
     (case cert_format_version (mc_header parts) of
        Inl e \<Rightarrow> Inl e
      | Inr version \<Rightarrow>
          (case ensure_dependency_layout_supported (mc_declarations parts) version of
             Inl e \<Rightarrow> Inl e
           | Inr _ \<Rightarrow> Inr (encode_module_cert_parts_with_format parts version False)))"

section \<open>The order of references\<close>

function encode_order_uvar :: "64 word \<Rightarrow> byte list" where
  "encode_order_uvar v =
     (let low = (ucast (v AND 0x7F) :: byte); v' = drop_bit 7 v in
      if v' \<noteq> 0 then (low OR 0x80) # encode_order_uvar v' else [low])"
  by pat_completeness auto
termination
  by (relation "measure unat") (auto intro: unat_drop_bit_less)

declare encode_order_uvar.simps [simp del]

primrec global_ref_order_key :: "global_ref \<Rightarrow> byte list" where
  "global_ref_order_key (GBuiltin name ih) = 0x03 # encode_order_uvar name @ ih"
| "global_ref_order_key (GImported import_index name ih) =
     0x00 # encode_order_uvar import_index @ encode_order_uvar name @ ih"
| "global_ref_order_key (GLocal decl_index) = 0x01 # encode_order_uvar decl_index"
| "global_ref_order_key (GLocalGenerated decl_index name) =
     0x02 # encode_order_uvar decl_index @ encode_order_uvar name"

definition dependency_entry_order_key :: "dependency_entry \<Rightarrow> byte list" where
  "dependency_entry_order_key entry =
     (case dependency_kind entry of DKInterface \<Rightarrow> 0x00 | DKLocalImplementation \<Rightarrow> 0x01) #
     global_ref_order_key (dependency_global_ref entry) @ dependency_decl_interface_hash entry @
     (case dependency_decl_certificate_hash entry of None \<Rightarrow> [] | Some h \<Rightarrow> h)"

definition axiom_ref_order_key :: "axiom_ref \<Rightarrow> byte list" where
  "axiom_ref_order_key a =
     global_ref_order_key (ar_global_ref a) @ encode_order_uvar (ar_name a) @
     ar_decl_interface_hash a"

lemma encode_order_uvar_eq: "encode_order_uvar v = encode_uvar v"
proof (induction v rule: encode_order_uvar.induct)
  case (1 v)
  then show ?case
    by (subst encode_order_uvar.simps, subst encode_uvar.simps) (simp add: Let_def)
qed

lemma global_ref_order_key_eq: "global_ref_order_key g = encode_global_ref g"
  by (cases g) (simp_all add: encode_order_uvar_eq encode_hash_def)

lemma dependency_order_key_eq: "dependency_entry_order_key e = encode_dependency_tagged e"
  by (cases e) (simp_all add: dependency_entry_order_key_def encode_dependency_tagged_def
      global_ref_order_key_eq encode_hash_def)

lemma axiom_order_key_eq: "axiom_ref_order_key a = encode_axiom_ref a"
  by (simp add: axiom_ref_order_key_def encode_axiom_ref_def global_ref_order_key_eq
      encode_order_uvar_eq encode_hash_def)

end
