(* ===== verification/Cert_Decode.thy ===== *)
theory Cert_Decode
  imports Cert_Format
begin

text \<open>
  The decoder of module certificates (\<^verbatim>\<open>npa-cert/src/binary.rs\<close>, \<^verbatim>\<open>impl Decoder\<close>), one
  definition per method, and the entry points of \<^verbatim>\<open>npa-cert/src/lib.rs\<close> that call it.
  The reservation of memory for a vector is taken to succeed.
\<close>

definition unsupported :: "byte \<Rightarrow> 'a decode" where
  "unsupported tag = dfail (UnsupportedEncoding tag)"

definition dec_component :: "string decode" where
  "dec_component = dbind dec_string (\<lambda>component.
     if component = [] \<or> CHR ''.'' \<in> set component then dfail (NonCanonicalEncoding ''Name'')
     else dreturn component)"

definition dec_name :: "cname decode" where
  "dec_name = dbind bounded_len (\<lambda>len.
     if len = 0 then dfail (NonCanonicalEncoding ''Name'')
     else dbind (collect_n len dec_component) (\<lambda>name.
       if name_is_canonical name then dreturn name else dfail (NonCanonicalEncoding ''Name'')))"

definition dec_usize_vec :: "usize list decode" where
  "dec_usize_vec = dec_vec dec_usize"

definition dec_option_usize :: "usize option decode" where
  "dec_option_usize = dec_option dec_usize"

definition dec_option_hash :: "hash option decode" where
  "dec_option_hash = dec_option dec_hash"

definition dec_header :: "cert_header decode" where
  "dec_header = dbind dec_string (\<lambda>format. dbind dec_string (\<lambda>core_spec.
     if format \<noteq> FORMAT \<or> core_spec \<noteq> CORE_SPEC then dfail (UnsupportedFormat format core_spec)
     else dbind dec_name (\<lambda>module.
       dreturn \<lparr>hdr_format = format, hdr_core_spec = core_spec, hdr_module = module\<rparr>)))"

definition dec_import :: "import_entry decode" where
  "dec_import = dbind dec_name (\<lambda>module. dbind dec_hash (\<lambda>eh. dbind dec_option_hash (\<lambda>ch.
     dreturn \<lparr>ie_module = module, ie_export_hash = eh, ie_certificate_hash = ch\<rparr>)))"

definition dec_import_at :: "(import_entry \<times> nat) decode" where
  "dec_import_at d = dbind dec_import (\<lambda>i. dreturn (i, dec_offset d)) d"

definition imports_with_offsets :: "(import_entry list \<times> nat list) decode" where
  "imports_with_offsets = dbind (bounded_len_for Imports max_imports) (\<lambda>len.
     dbind (collect_n len dec_import_at) (\<lambda>entries. dreturn (map fst entries, map snd entries)))"

definition dec_name_table :: "cname list decode" where
  "dec_name_table = dec_vec_for NameTableEntries max_name_table_entries dec_name"

definition dec_level_node :: "level_node decode" where
  "dec_level_node = dbind dec_byte (\<lambda>tag.
     if tag = 0x00 then dreturn LNZero
     else if tag = 0x01 then dbind dec_usize (\<lambda>l. dreturn (LNSucc l))
     else if tag = 0x02 then dbind dec_usize (\<lambda>l. dbind dec_usize (\<lambda>r. dreturn (LNMax l r)))
     else if tag = 0x03 then dbind dec_usize (\<lambda>l. dbind dec_usize (\<lambda>r. dreturn (LNIMax l r)))
     else if tag = 0x04 then dbind dec_usize (\<lambda>n. dreturn (LNParam n))
     else unsupported tag)"

definition dec_level_table :: "level_node list decode" where
  "dec_level_table = dec_vec_for LevelTableNodes max_level_table_nodes dec_level_node"

definition dec_global_ref :: "global_ref decode" where
  "dec_global_ref = dbind dec_byte (\<lambda>tag.
     if tag = 0x03 then dbind dec_usize (\<lambda>name. dbind dec_hash (\<lambda>ih. dreturn (GBuiltin name ih)))
     else if tag = 0x00 then
       dbind dec_usize (\<lambda>i. dbind dec_usize (\<lambda>name. dbind dec_hash (\<lambda>ih.
         dreturn (GImported i name ih))))
     else if tag = 0x01 then dbind dec_usize (\<lambda>i. dreturn (GLocal i))
     else if tag = 0x02 then
       dbind dec_usize (\<lambda>i. dbind dec_usize (\<lambda>name. dreturn (GLocalGenerated i name)))
     else unsupported tag)"

definition dec_term_node :: "term_node decode" where
  "dec_term_node = dbind dec_byte (\<lambda>tag.
     if tag = 0x00 then dbind dec_usize (\<lambda>l. dreturn (TNSort l))
     else if tag = 0x01 then dbind dec_u32 (\<lambda>i. dreturn (TNBVar i))
     else if tag = 0x02 then
       dbind dec_global_ref (\<lambda>g. dbind dec_usize_vec (\<lambda>ls. dreturn (TNConst g ls)))
     else if tag = 0x03 then dbind dec_usize (\<lambda>f. dbind dec_usize (\<lambda>a. dreturn (TNApp f a)))
     else if tag = 0x04 then dbind dec_usize (\<lambda>t. dbind dec_usize (\<lambda>b. dreturn (TNLam t b)))
     else if tag = 0x05 then dbind dec_usize (\<lambda>t. dbind dec_usize (\<lambda>b. dreturn (TNPi t b)))
     else unsupported tag)"

text \<open>The length of the term table is not compared with the bytes left.\<close>

definition dec_term_table :: "term_node list decode" where
  "dec_term_table = dbind dec_usize (\<lambda>len.
     dbind (dlift (ensure_count_limit TermTableNodes max_term_table_nodes (unat len))) (\<lambda>_.
     collect_n (unat len) dec_term_node))"

definition dec_relation :: "universe_constraint_relation decode" where
  "dec_relation = dbind dec_byte (\<lambda>tag.
     if tag = 0x00 then dreturn RLe else if tag = 0x01 then dreturn REq else unsupported tag)"

definition dec_universe_constraint_spec :: "universe_constraint_spec decode" where
  "dec_universe_constraint_spec =
     dbind dec_usize (\<lambda>l. dbind dec_relation (\<lambda>rel. dbind dec_usize (\<lambda>r.
       dreturn \<lparr>ucs_lhs = l, ucs_relation = rel, ucs_rhs = r\<rparr>)))"

definition dec_universe_constraint_specs :: "universe_constraint_spec list decode" where
  "dec_universe_constraint_specs = dec_vec dec_universe_constraint_spec"

definition dec_binder_types :: "binder_type list decode" where
  "dec_binder_types = dec_vec (dbind dec_usize (\<lambda>t. dreturn \<lparr>bt_ty = t\<rparr>))"

definition dec_constructor_specs :: "constructor_spec list decode" where
  "dec_constructor_specs =
     dec_vec (dbind dec_usize (\<lambda>n. dbind dec_usize (\<lambda>t. dreturn \<lparr>cs_name = n, cs_ty = t\<rparr>)))"

definition dec_recursor :: "recursor_spec decode" where
  "dec_recursor =
     dbind dec_usize (\<lambda>n. dbind dec_usize_vec (\<lambda>ups. dbind dec_usize (\<lambda>t.
     dbind dec_usize (\<lambda>minor. dbind dec_usize (\<lambda>major.
       dreturn \<lparr>rs_name = n, rs_universe_params = ups, rs_ty = t,
         rs_rules = \<lparr>rrs_minor_start = minor, rrs_major_index = major\<rparr>\<rparr>)))))"

definition dec_recursor_spec :: "recursor_spec option decode" where
  "dec_recursor_spec = dec_option dec_recursor"

definition dec_mutual_inductive_spec :: "mutual_inductive_spec decode" where
  "dec_mutual_inductive_spec =
     dbind dec_usize (\<lambda>n. dbind dec_binder_types (\<lambda>ps. dbind dec_binder_types (\<lambda>is.
     dbind dec_usize (\<lambda>s. dbind dec_constructor_specs (\<lambda>cs. dbind dec_recursor_spec (\<lambda>r.
       dreturn \<lparr>mis_name = n, mis_params = ps, mis_indices = is, mis_sort = s,
         mis_constructors = cs, mis_recursor = r\<rparr>))))))"

definition dec_reducibility :: "cert_reducibility decode" where
  "dec_reducibility = dbind dec_byte (\<lambda>tag.
     if tag = 0x00 then dreturn CertReducible else if tag = 0x01 then dreturn CertOpaque
     else unsupported tag)"

definition dec_option_reducibility :: "cert_reducibility option decode" where
  "dec_option_reducibility = dec_option dec_reducibility"

definition dec_opacity :: "opacity decode" where
  "dec_opacity = dbind dec_byte (\<lambda>tag.
     if tag = 0x00 then dreturn OpacityOpaque else unsupported tag)"

definition dec_option_opacity :: "opacity option decode" where
  "dec_option_opacity = dec_option dec_opacity"

definition dec_decl_payload :: "decl_payload decode" where
  "dec_decl_payload = dbind dec_byte (\<lambda>tag.
     if tag = 0x00 then
       dbind dec_usize (\<lambda>n. dbind dec_usize_vec (\<lambda>ups. dbind dec_usize (\<lambda>t.
         dreturn (PAxiom n ups t))))
     else if tag = 0x10 then
       dbind dec_usize (\<lambda>n. dbind dec_usize_vec (\<lambda>ups. dbind dec_universe_constraint_specs (\<lambda>ucs.
       dbind dec_usize (\<lambda>t. dreturn (PAxiomConstrained n ups ucs t)))))
     else if tag = 0x01 then
       dbind dec_usize (\<lambda>n. dbind dec_usize_vec (\<lambda>ups. dbind dec_usize (\<lambda>t. dbind dec_usize (\<lambda>v.
       dbind dec_reducibility (\<lambda>r. dreturn (PDef n ups t v r))))))
     else if tag = 0x11 then
       dbind dec_usize (\<lambda>n. dbind dec_usize_vec (\<lambda>ups. dbind dec_universe_constraint_specs (\<lambda>ucs.
       dbind dec_usize (\<lambda>t. dbind dec_usize (\<lambda>v. dbind dec_reducibility (\<lambda>r.
         dreturn (PDefConstrained n ups ucs t v r)))))))
     else if tag = 0x02 then
       dbind dec_usize (\<lambda>n. dbind dec_usize_vec (\<lambda>ups. dbind dec_usize (\<lambda>t. dbind dec_usize (\<lambda>p.
       dbind dec_opacity (\<lambda>op. dreturn (PTheorem n ups t p op))))))
     else if tag = 0x12 then
       dbind dec_usize (\<lambda>n. dbind dec_usize_vec (\<lambda>ups. dbind dec_universe_constraint_specs (\<lambda>ucs.
       dbind dec_usize (\<lambda>t. dbind dec_usize (\<lambda>p. dbind dec_opacity (\<lambda>op.
         dreturn (PTheoremConstrained n ups ucs t p op)))))))
     else if tag = 0x03 then
       dbind dec_usize (\<lambda>n. dbind dec_usize_vec (\<lambda>ups. dbind dec_binder_types (\<lambda>ps.
       dbind dec_binder_types (\<lambda>is. dbind dec_usize (\<lambda>s. dbind dec_constructor_specs (\<lambda>cs.
       dbind dec_recursor_spec (\<lambda>r. dreturn (PInductive n ups ps is s cs r))))))))
     else if tag = 0x13 then
       dbind dec_usize (\<lambda>n. dbind dec_usize_vec (\<lambda>ups. dbind dec_universe_constraint_specs (\<lambda>ucs.
       dbind dec_binder_types (\<lambda>ps. dbind dec_binder_types (\<lambda>is. dbind dec_usize (\<lambda>s.
       dbind dec_constructor_specs (\<lambda>cs. dbind dec_recursor_spec (\<lambda>r.
         dreturn (PInductiveConstrained n ups ucs ps is s cs r)))))))))
     else if tag = 0x04 then
       dbind dec_usize (\<lambda>n. dbind dec_usize_vec (\<lambda>ups. dbind dec_universe_constraint_specs (\<lambda>ucs.
       dbind (dec_vec dec_mutual_inductive_spec) (\<lambda>is.
         dreturn (PMutualInductiveBlock n ups ucs is)))))
     else unsupported tag)"

definition dec_dependency_entry :: "certificate_format_version \<Rightarrow> dependency_entry decode" where
  "dec_dependency_entry version =
     (if \<not> encodes_tagged_dependencies version then
        dbind dec_global_ref (\<lambda>g. dbind dec_hash (\<lambda>ih. dreturn (DInterface g ih)))
      else dbind dec_byte (\<lambda>tag.
        if tag = 0x00 then
          dbind dec_global_ref (\<lambda>g. dbind dec_hash (\<lambda>ih. dreturn (DInterface g ih)))
        else if tag = 0x01 then
          dbind dec_global_ref (\<lambda>g. dbind dec_hash (\<lambda>ih. dbind dec_hash (\<lambda>ch.
            dreturn (DLocalImplementation g ih ch))))
        else unsupported tag))"

text \<open>\<^verbatim>\<open>windows(2).any(|pair| pair[0] >= pair[1])\<close> on the order keys.\<close>

fun some_descent :: "dependency_entry list \<Rightarrow> bool" where
  "some_descent (x # y # r) \<longleftrightarrow>
     dependency_entry_order_key y \<le> dependency_entry_order_key x \<or> some_descent (y # r)"
| "some_descent _ \<longleftrightarrow> False"

definition dec_dependency_entries :: "certificate_format_version \<Rightarrow> dependency_entry list decode" where
  "dec_dependency_entries version = dbind (dec_vec (dec_dependency_entry version)) (\<lambda>entries.
     if encodes_tagged_dependencies version \<and> some_descent entries
     then dfail (NonCanonicalEncoding ''Dependencies'') else dreturn entries)"

definition dec_axiom_ref :: "axiom_ref decode" where
  "dec_axiom_ref = dbind dec_global_ref (\<lambda>g. dbind dec_usize (\<lambda>n. dbind dec_hash (\<lambda>ih.
     dreturn \<lparr>ar_global_ref = g, ar_name = n, ar_decl_interface_hash = ih\<rparr>)))"

definition dec_axiom_refs :: "axiom_ref list decode" where
  "dec_axiom_refs = dec_vec dec_axiom_ref"

definition dec_declaration :: "certificate_format_version \<Rightarrow> decl_cert decode" where
  "dec_declaration version =
     dbind dec_decl_payload (\<lambda>p. dbind (dec_dependency_entries version) (\<lambda>deps.
     dbind dec_axiom_refs (\<lambda>axs. dbind dec_hash (\<lambda>ih. dbind dec_hash (\<lambda>ch.
       dreturn \<lparr>dc_decl = p, dc_dependencies = deps, dc_axiom_dependencies = axs,
         dc_hashes = \<lparr>dh_decl_interface_hash = ih, dh_decl_certificate_hash = ch\<rparr>\<rparr>)))))"

definition dec_declarations :: "certificate_format_version \<Rightarrow> decl_cert list decode" where
  "dec_declarations version = dec_vec_for Declarations max_declarations (dec_declaration version)"

definition dec_export_kind :: "export_kind decode" where
  "dec_export_kind = dbind dec_byte (\<lambda>tag.
     if tag = 0x00 then dreturn EKAxiom else if tag = 0x01 then dreturn EKDef
     else if tag = 0x02 then dreturn EKTheorem else if tag = 0x03 then dreturn EKInductive
     else if tag = 0x04 then dreturn EKConstructor else if tag = 0x05 then dreturn EKRecursor
     else unsupported tag)"

definition dec_export_entry :: "certificate_format_version \<Rightarrow> export_entry decode" where
  "dec_export_entry version =
     dbind dec_usize (\<lambda>n. dbind dec_export_kind (\<lambda>k. dbind dec_usize_vec (\<lambda>ups.
     dbind (if encodes_export_universe_constraints version then dec_universe_constraint_specs
            else dreturn []) (\<lambda>ucs.
     dbind dec_usize (\<lambda>t. dbind dec_option_usize (\<lambda>b. dbind dec_hash (\<lambda>th.
     dbind dec_option_hash (\<lambda>bh. dbind dec_option_reducibility (\<lambda>r. dbind dec_option_opacity (\<lambda>op.
     dbind dec_hash (\<lambda>ih. dbind dec_axiom_refs (\<lambda>axs.
       dreturn \<lparr>ee_name = n, ee_kind = k, ee_universe_params = ups, ee_universe_constraints = ucs,
         ee_ty = t, ee_body = b, ee_type_hash = th, ee_body_hash = bh, ee_reducibility = r,
         ee_opacity = op, ee_decl_interface_hash = ih, ee_axiom_dependencies = axs\<rparr>))))))))))))"

definition dec_export_block :: "certificate_format_version \<Rightarrow> export_entry list decode" where
  "dec_export_block version = dec_vec_for Exports max_exports (dec_export_entry version)"

definition dec_decl_axiom_report :: "decl_axiom_report decode" where
  "dec_decl_axiom_report =
     dbind dec_usize (\<lambda>i. dbind dec_axiom_refs (\<lambda>direct. dbind dec_axiom_refs (\<lambda>trans.
       dreturn \<lparr>dar_decl_index = i, dar_direct_axioms = direct, dar_transitive_axioms = trans\<rparr>)))"

definition dec_axiom_report :: "axiom_report decode" where
  "dec_axiom_report =
     dbind (dec_vec_for Declarations max_declarations dec_decl_axiom_report) (\<lambda>per.
     dbind dec_axiom_refs (\<lambda>axs. dreturn \<lparr>rep_per_declaration = per, rep_module_axioms = axs\<rparr>))"

section \<open>Core features\<close>

definition core_feature_report_tag :: string where
  "core_feature_report_tag = ''core_features''"

definition module_hash_trailer_len :: nat where
  "module_hash_trailer_len = 32 * 3"

definition has_core_feature_report :: "decoder \<Rightarrow> bool" where
  "has_core_feature_report d \<longleftrightarrow>
     (let feature_report_len = remaining_len d - module_hash_trailer_len;
          tag = as_bytes core_feature_report_tag;
          here = drop (dec_offset d) (dec_bytes d) in
      feature_report_len > length tag \<and> here \<noteq> [] \<and> hd here = word_of_nat (length tag) \<and>
      length tag \<le> length (tl here) \<and> take (length tag) (tl here) = tag)"

text \<open>
  No name is the name of a core feature (\<^verbatim>\<open>CoreFeature::from_name\<close>): the loop over the names
  stops at the first one unless unknown features are allowed, and the vector it returns is
  empty.
\<close>

definition dec_core_feature :: "unit decode" where
  "dec_core_feature = dbind dec_string (\<lambda>feature d.
     if \<not> allow_unknown_core_features d then Inl (UnsupportedCoreFeature feature) else Inr ((), d))"

definition dec_core_features :: "unit decode" where
  "dec_core_features = dbind dec_string (\<lambda>tag.
     if tag \<noteq> core_feature_report_tag then dfail (NonCanonicalEncoding ''CoreFeatureReport'')
     else dbind bounded_len (\<lambda>len.
       dbind (\<lambda>d. Inr ((), d\<lparr>audit_core_feature_count := len\<rparr>)) (\<lambda>_.
       if len = 0 then dfail (NonCanonicalEncoding ''CoreFeatureReport'')
       else dbind (collect_n len dec_core_feature) (\<lambda>_. dreturn ()))))"

section \<open>Modules\<close>

definition dec_feature_report :: "unit decode" where
  "dec_feature_report d = (if has_core_feature_report d then dec_core_features d else Inr ((), d))"

definition dec_module_hashes :: "module_hashes decode" where
  "dec_module_hashes = dbind dec_hash (\<lambda>eh. dbind dec_hash (\<lambda>ah. dbind dec_hash (\<lambda>ch.
     dreturn \<lparr>mh_export_hash = eh, mh_axiom_report_hash = ah, mh_certificate_hash = ch\<rparr>)))"

definition module_cert_parts_with_import_offsets :: "(module_cert \<times> nat list) decode" where
  "module_cert_parts_with_import_offsets =
     dbind dec_header (\<lambda>header.
     dbind (dlift (cert_format_version header)) (\<lambda>version.
     dbind imports_with_offsets (\<lambda>(imports, offsets).
     dbind dec_name_table (\<lambda>names.
     dbind dec_level_table (\<lambda>levels.
     dbind dec_term_table (\<lambda>terms.
     dbind (dec_declarations version) (\<lambda>decls.
     dbind (dec_export_block version) (\<lambda>exports.
     dbind dec_axiom_report (\<lambda>report.
     dbind dec_feature_report (\<lambda>_.
     dbind dec_module_hashes (\<lambda>hashes.
       dreturn (\<lparr>mc_header = header, mc_imports = imports, mc_name_table = names,
         mc_level_table = levels, mc_term_table = terms, mc_declarations = decls,
         mc_export_block = exports, mc_axiom_report = report, mc_hashes = hashes\<rparr>,
         offsets))))))))))))"

definition finish :: "'a decode \<Rightarrow> decoder \<Rightarrow> 'a cresult" where
  "finish p d = (case p d of
     Inl e \<Rightarrow> Inl e
   | Inr (x, d') \<Rightarrow> if \<not> is_done d' then Inl DecodeError else Inr x)"

definition decode_module_cert_with_import_offsets :: "byte list \<Rightarrow> (module_cert \<times> nat list) cresult" where
  "decode_module_cert_with_import_offsets bytes =
     (case ensure_certificate_byte_limit bytes of
        Inl e \<Rightarrow> Inl e
      | Inr _ \<Rightarrow> finish module_cert_parts_with_import_offsets (decoder_new bytes))"

definition decode_module_cert :: "byte list \<Rightarrow> module_cert cresult" where
  "decode_module_cert bytes =
     (case ensure_certificate_byte_limit bytes of
        Inl e \<Rightarrow> Inl e
      | Inr _ \<Rightarrow>
          (case finish module_cert_parts_with_import_offsets (decoder_new bytes) of
             Inl e \<Rightarrow> Inl e
           | Inr (parts, _) \<Rightarrow> Inr parts))"

definition decode_module_cert_header :: "byte list \<Rightarrow> cert_header cresult" where
  "decode_module_cert_header bytes =
     (case ensure_certificate_byte_limit bytes of
        Inl e \<Rightarrow> Inl e
      | Inr _ \<Rightarrow>
          (case dec_header (decoder_new bytes) of
             Inl e \<Rightarrow> Inl e
           | Inr (header, _) \<Rightarrow>
               (case cert_format_version header of Inl e \<Rightarrow> Inl e | Inr _ \<Rightarrow> Inr header)))"

text \<open>The decoding step of \<^verbatim>\<open>audit_certificate_structural_limits\<close>.\<close>

definition decode_for_structural_audit :: "byte list \<Rightarrow> module_cert cresult" where
  "decode_for_structural_audit bytes =
     (case ensure_certificate_byte_limit bytes of
        Inl e \<Rightarrow> Inl e
      | Inr _ \<Rightarrow>
          (case finish module_cert_parts_with_import_offsets (new_for_structural_audit bytes) of
             Inl e \<Rightarrow> Inl e
           | Inr (parts, _) \<Rightarrow> Inr parts))"

end
