(* ===== verification/Cert_Codec.thy ===== *)
theory Cert_Codec
  imports Cert_Decode
begin

text \<open>
  Encoders and decoders of certificates belong together: every part is an interpretation of
  \<open>codec\<close>. The predicate of each part says which values have an encoding that is accepted:
  hashes have 32 bytes, names are canonical, vectors respect their limits and dependencies
  ascend.

  The properties at the end are those of whole certificates. A certificate within the limits
  survives encoding and decoding, and the bytes that decode are the encoding of the
  certificate they decode to: each certificate has exactly one accepted form.
\<close>

named_theorems codec_encode \<open>decoding an encoding\<close>
named_theorems codec_decode \<open>elimination of a successful decoding\<close>

declare usize.decode_encode [codec_encode] u32.decode_encode [codec_encode]
  hash.decode_encode [codec_encode] str.decode_encode [codec_encode]

declare dbind_InrE [codec_decode] dec_byteE [codec_decode] usize.decodeE [codec_decode]
  u32.decodeE [codec_decode] hash.decodeE [codec_decode] str.decodeE [codec_decode]

lemma unsupported_simps [simp]: "unsupported tag d = Inl (UnsupportedEncoding tag)"
  by (simp add: unsupported_def)

section \<open>Names\<close>

definition name_ok :: "cname \<Rightarrow> bool" where
  "name_ok name \<longleftrightarrow> name_is_canonical name \<and> length name \<le> max_nested_vector_entries \<and>
     list_all (\<lambda>s. length s < 2 ^ 64) name"

lemma continue_ascii: "is_name_component_continue b \<Longrightarrow> (of_char b :: byte) \<le> 0x7F \<and> b \<noteq> CHR ''.''"
  by (auto simp: is_name_component_continue_def is_ascii_alphanumeric_def is_ascii_alphabetic_def
      in_range_def less_eq_char_def word_le_nat_alt unat_of_char)

lemma start_continue: "is_name_component_start b \<Longrightarrow> is_name_component_continue b"
  by (auto simp: is_name_component_start_def is_name_component_continue_def is_ascii_alphanumeric_def)

lemma continue_component:
  "list_all is_name_component_continue s \<Longrightarrow> valid_utf8 (as_bytes s) \<and> CHR ''.'' \<notin> set s"
  by (induction s) (auto simp: as_bytes_def dest: continue_ascii)

lemma canonical_component:
  assumes "is_canonical_name_component s"
  shows "valid_utf8 (as_bytes s)" "s \<noteq> []" "CHR ''.'' \<notin> set s"
  using assms continue_component [of s]
  by (auto simp: is_canonical_name_component_def dest: start_continue split: list.splits)

definition component_ok :: "string \<Rightarrow> bool" where
  "component_ok s \<longleftrightarrow> string_ok s \<and> s \<noteq> [] \<and> CHR ''.'' \<notin> set s"

interpretation component: codec encode_string dec_component component_ok
  by unfold_locales (auto simp: dec_component_def component_ok_def str.encode_nonempty codec_encode
      elim!: codec_decode split: if_splits)

interpretation components: codec "encode_vec encode_string" "dec_vec dec_component"
    "\<lambda>xs. length xs \<le> max_nested_vector_entries \<and> list_all component_ok xs"
  by (rule component.vec)

declare components.decode_encode [codec_encode] components.decodeE [codec_decode]

lemma dec_name_alt: "dec_name = dbind (dec_vec dec_component) (\<lambda>name.
    if name_is_canonical name then dreturn name else dfail (NonCanonicalEncoding ''Name''))"
  by (rule ext) (auto simp: dec_name_def dec_vec_def dbind_def name_is_canonical_def split: sum.splits)

lemma name_ok_alt: "name_ok x \<longleftrightarrow>
    name_is_canonical x \<and> length x \<le> max_nested_vector_entries \<and> list_all component_ok x"
proof -
  have "\<not> is_canonical_name_component []" by (simp add: is_canonical_name_component_def)
  then show ?thesis
    by (auto simp: name_ok_def component_ok_def string_ok_def name_is_canonical_def list_all_iff
        canonical_component)
qed

interpretation nm: codec encode_name dec_name name_ok
  by unfold_locales (auto simp: dec_name_alt name_ok_alt encode_name_def codec_encode
      components.encode_nonempty elim!: codec_decode split: if_splits)

declare nm.decode_encode [codec_encode] nm.decodeE [codec_decode]

section \<open>Vectors and options\<close>

definition usize_vec_ok :: "usize list \<Rightarrow> bool" where
  "usize_vec_ok vs \<longleftrightarrow> length vs \<le> max_nested_vector_entries"

lemma vec_ok_true: "list_all (\<lambda>_. True) xs"
  by (simp add: list_all_iff)

lemma usize_vec_codec: "codec encode_usize_vec dec_usize_vec usize_vec_ok"
  using usize.vec by (simp add: encode_usize_vec_def [abs_def] dec_usize_vec_def usize_vec_ok_def [abs_def]
      vec_ok_true)

interpretation usize_vec: codec encode_usize_vec dec_usize_vec usize_vec_ok
  by (rule usize_vec_codec)

declare usize_vec.decode_encode [codec_encode] usize_vec.decodeE [codec_decode]

interpretation option_usize: codec encode_option_usize dec_option_usize "\<lambda>_. True"
  using usize.option
  by (simp add: encode_option_usize_def [abs_def] dec_option_usize_def option.pred_True)

interpretation option_hash: codec encode_option_hash dec_option_hash "pred_option hash_ok"
  using hash.option by (simp add: encode_option_hash_def [abs_def] dec_option_hash_def)

declare option_usize.decode_encode [codec_encode] option_usize.decodeE [codec_decode]
  option_hash.decode_encode [codec_encode] option_hash.decodeE [codec_decode]

section \<open>Levels, references and terms\<close>

interpretation level_node: codec encode_level_node dec_level_node "\<lambda>_. True"
proof (unfold_locales, goal_cases)
  case (1 x c pre post) then show ?case by (cases x) (simp_all add: dec_level_node_def codec_encode)
next
  case (2 c pre rest x d) then show ?case
    by (cases x) (auto simp: dec_level_node_def elim!: codec_decode split: if_splits)
next
  case (3 x) then show ?case by (cases x) simp_all
qed

primrec global_ref_ok :: "global_ref \<Rightarrow> bool" where
  "global_ref_ok (GBuiltin name ih) \<longleftrightarrow> hash_ok ih"
| "global_ref_ok (GImported i name ih) \<longleftrightarrow> hash_ok ih"
| "global_ref_ok (GLocal i) \<longleftrightarrow> True"
| "global_ref_ok (GLocalGenerated i name) \<longleftrightarrow> True"

interpretation global_ref: codec encode_global_ref dec_global_ref global_ref_ok
proof (unfold_locales, goal_cases)
  case (1 x c pre post) then show ?case by (cases x) (simp_all add: dec_global_ref_def codec_encode)
next
  case (2 c pre rest x d) then show ?case
    by (auto simp: dec_global_ref_def elim!: codec_decode split: if_splits)
next
  case (3 x) then show ?case by (cases x) simp_all
qed

declare global_ref.decode_encode [codec_encode] global_ref.decodeE [codec_decode]

primrec term_node_ok :: "term_node \<Rightarrow> bool" where
  "term_node_ok (TNSort l) \<longleftrightarrow> True"
| "term_node_ok (TNBVar i) \<longleftrightarrow> True"
| "term_node_ok (TNConst g ls) \<longleftrightarrow> global_ref_ok g \<and> usize_vec_ok ls"
| "term_node_ok (TNApp f a) \<longleftrightarrow> True"
| "term_node_ok (TNLam t b) \<longleftrightarrow> True"
| "term_node_ok (TNPi t b) \<longleftrightarrow> True"

interpretation term_node: codec encode_term_node dec_term_node term_node_ok
proof (unfold_locales, goal_cases)
  case (1 x c pre post) then show ?case by (cases x) (simp_all add: dec_term_node_def codec_encode)
next
  case (2 c pre rest x d) then show ?case
    by (auto simp: dec_term_node_def elim!: codec_decode split: if_splits)
next
  case (3 x) then show ?case by (cases x) simp_all
qed


text \<open>
  A vector whose length is only compared with its limit, as the term table is read; and the
  error of the first element that is not decoded.
\<close>

context codec
begin

lemma collect_fails:
  assumes "list_all ok xs" and "length xs < n"
    and "dec (at_pos c (pre @ concat (map enc xs)) post) = Inl e"
  shows "collect_n n dec (at_pos c pre (concat (map enc xs) @ post)) = Inl e"
  using assms
proof (induction xs arbitrary: n pre)
  case Nil
  then show ?case by (cases n) simp_all
next
  case (Cons x xs)
  then obtain k where "n = Suc k" by (cases n) simp_all
  with Cons show ?case by (simp add: decode_encode)
qed

lemma counted:
  assumes "limit < 2 ^ 64"
  shows "codec (encode_vec enc)
    (dbind dec_usize (\<lambda>len. dbind (dlift (ensure_count_limit kind limit (unat len))) (\<lambda>_.
       collect_n (unat len) dec)))
    (\<lambda>xs. length xs \<le> limit \<and> list_all ok xs)" (is "codec _ ?dec _")
proof
  fix xs c pre post assume xs: "length xs \<le> limit \<and> list_all ok xs"
  with assms have "unat (word_of_nat (length xs) :: usize) = length xs"
    by (intro unat_of_length) simp
  with xs show "?dec (at_pos c pre (encode_vec enc xs @ post)) =
      Inr (xs, at_pos c (pre @ encode_vec enc xs) post)"
    by (simp add: encode_vec_def usize.decode_encode ensure_count_limit_def collect_encode)
next
  fix c pre rest xs d assume "?dec (at_pos c pre rest) = Inr (xs, d)"
  then have "\<exists>len post. unat len \<le> limit \<and> rest = encode_uvar len @ post \<and>
      collect_n (unat len) dec (at_pos c (pre @ encode_uvar len) post) = Inr (xs, d)"
    by (auto simp: dlift_Inr ensure_count_limit_def not_less
        elim!: dbind_InrE usize.decodeE split: if_splits)
  then obtain len post where len: "unat len \<le> limit" "rest = encode_uvar len @ post"
    and xs: "collect_n (unat len) dec (at_pos c (pre @ encode_uvar len) post) = Inr (xs, d)" by blast
  from collect_exact [OF xs] len
  show "(length xs \<le> limit \<and> list_all ok xs) \<and> (\<exists>post. rest = encode_vec enc xs @ post \<and>
      d = at_pos c (pre @ encode_vec enc xs) post)"
    by (auto simp: encode_vec_def)
qed (simp add: encode_vec_def)

end

definition names_ok :: "cname list \<Rightarrow> bool" where
  "names_ok names \<longleftrightarrow> length names \<le> max_name_table_entries \<and> list_all name_ok names"

definition levels_ok :: "level_node list \<Rightarrow> bool" where
  "levels_ok levels \<longleftrightarrow> length levels \<le> max_level_table_nodes"

definition terms_ok :: "term_node list \<Rightarrow> bool" where
  "terms_ok terms \<longleftrightarrow> length terms \<le> max_term_table_nodes \<and> list_all term_node_ok terms"

interpretation name_table: codec encode_name_table dec_name_table names_ok
  using nm.vec_for [of max_name_table_entries NameTableEntries]
  by (simp add: encode_name_table_def [abs_def] dec_name_table_def names_ok_def [abs_def] max_defs)

interpretation level_table: codec encode_level_table dec_level_table levels_ok
  using level_node.vec_for [of max_level_table_nodes LevelTableNodes]
  by (simp add: encode_level_table_def [abs_def] dec_level_table_def levels_ok_def [abs_def] max_defs
      vec_ok_true)

interpretation term_table: codec encode_term_table dec_term_table terms_ok
  using term_node.counted [of max_term_table_nodes TermTableNodes]
  by (simp add: encode_term_table_def [abs_def] dec_term_table_def terms_ok_def [abs_def] max_defs)

declare name_table.decode_encode [codec_encode] name_table.decodeE [codec_decode]
  level_table.decode_encode [codec_encode] level_table.decodeE [codec_decode]
  term_table.decode_encode [codec_encode] term_table.decodeE [codec_decode]

section \<open>Declarations\<close>

interpretation relation: codec encode_relation dec_relation "\<lambda>_. True"
proof (unfold_locales, goal_cases)
  case (1 x c pre post) then show ?case by (cases x) (simp_all add: dec_relation_def codec_encode)
next
  case (2 c pre rest x d) then show ?case
    by (cases x) (auto simp: dec_relation_def elim!: codec_decode split: if_splits)
next
  case (3 x) then show ?case by (cases x) simp_all
qed

interpretation reducibility: codec encode_reducibility dec_reducibility "\<lambda>_. True"
proof (unfold_locales, goal_cases)
  case (1 x c pre post) then show ?case by (cases x) (simp_all add: dec_reducibility_def codec_encode)
next
  case (2 c pre rest x d) then show ?case
    by (cases x) (auto simp: dec_reducibility_def elim!: codec_decode split: if_splits)
next
  case (3 x) then show ?case by (cases x) simp_all
qed

interpretation opacity: codec encode_opacity dec_opacity "\<lambda>_. True"
proof (unfold_locales, goal_cases)
  case (1 x c pre post) then show ?case by (cases x) (simp_all add: dec_opacity_def codec_encode)
next
  case (2 c pre rest x d) then show ?case
    by (cases x) (auto simp: dec_opacity_def elim!: codec_decode split: if_splits)
next
  case (3 x) then show ?case by (cases x) simp_all
qed

interpretation option_reducibility: codec encode_option_reducibility dec_option_reducibility "\<lambda>_. True"
  using reducibility.option
  by (simp add: encode_option_reducibility_def [abs_def] dec_option_reducibility_def option.pred_True)

interpretation option_opacity: codec encode_option_opacity dec_option_opacity "\<lambda>_. True"
  using opacity.option
  by (simp add: encode_option_opacity_def [abs_def] dec_option_opacity_def option.pred_True)

interpretation export_kind: codec encode_export_kind dec_export_kind "\<lambda>_. True"
proof (unfold_locales, goal_cases)
  case (1 x c pre post) then show ?case by (cases x) (simp_all add: dec_export_kind_def codec_encode)
next
  case (2 c pre rest x d) then show ?case
    by (cases x) (auto simp: dec_export_kind_def elim!: codec_decode split: if_splits)
next
  case (3 x) then show ?case by (cases x) simp_all
qed

declare relation.decode_encode [codec_encode] relation.decodeE [codec_decode]
  reducibility.decode_encode [codec_encode] reducibility.decodeE [codec_decode]
  opacity.decode_encode [codec_encode] opacity.decodeE [codec_decode]
  option_reducibility.decode_encode [codec_encode] option_reducibility.decodeE [codec_decode]
  option_opacity.decode_encode [codec_encode] option_opacity.decodeE [codec_decode]
  export_kind.decode_encode [codec_encode] export_kind.decodeE [codec_decode]


interpretation universe_constraint_spec: codec encode_universe_constraint_spec
    dec_universe_constraint_spec "\<lambda>_. True"
  by unfold_locales (auto simp: encode_universe_constraint_spec_def dec_universe_constraint_spec_def
      codec_encode elim!: codec_decode)

definition constraint_specs_ok :: "universe_constraint_spec list \<Rightarrow> bool" where
  "constraint_specs_ok cs \<longleftrightarrow> length cs \<le> max_nested_vector_entries"

interpretation constraint_specs: codec encode_universe_constraint_specs
    dec_universe_constraint_specs constraint_specs_ok
  using universe_constraint_spec.vec
  by (simp add: encode_universe_constraint_specs_def [abs_def] dec_universe_constraint_specs_def
      constraint_specs_ok_def [abs_def] vec_ok_true)

interpretation binder_type: codec encode_binder_type "dbind dec_usize (\<lambda>t. dreturn \<lparr>bt_ty = t\<rparr>)" "\<lambda>_. True"
  by unfold_locales (auto simp: encode_binder_type_def codec_encode elim!: codec_decode)

definition binder_types_ok :: "binder_type list \<Rightarrow> bool" where
  "binder_types_ok bs \<longleftrightarrow> length bs \<le> max_nested_vector_entries"

interpretation binder_types: codec encode_binder_types dec_binder_types binder_types_ok
  using binder_type.vec
  by (simp add: encode_binder_types_def [abs_def] dec_binder_types_def binder_types_ok_def [abs_def]
      vec_ok_true)

interpretation constructor_spec: codec encode_constructor_spec
    "dbind dec_usize (\<lambda>n. dbind dec_usize (\<lambda>t. dreturn \<lparr>cs_name = n, cs_ty = t\<rparr>))" "\<lambda>_. True"
  by unfold_locales (auto simp: encode_constructor_spec_def codec_encode elim!: codec_decode)

definition constructor_specs_ok :: "constructor_spec list \<Rightarrow> bool" where
  "constructor_specs_ok cs \<longleftrightarrow> length cs \<le> max_nested_vector_entries"

interpretation constructor_specs: codec encode_constructor_specs dec_constructor_specs constructor_specs_ok
  using constructor_spec.vec
  by (simp add: encode_constructor_specs_def [abs_def] dec_constructor_specs_def
      constructor_specs_ok_def [abs_def] vec_ok_true)

definition recursor_ok :: "recursor_spec \<Rightarrow> bool" where
  "recursor_ok r \<longleftrightarrow> usize_vec_ok (rs_universe_params r)"

interpretation recursor: codec encode_recursor dec_recursor recursor_ok
  by unfold_locales
    (auto simp: encode_recursor_def dec_recursor_def recursor_ok_def codec_encode elim!: codec_decode)

interpretation recursor_spec: codec encode_recursor_spec dec_recursor_spec "pred_option recursor_ok"
  using recursor.option by (simp add: encode_recursor_spec_def [abs_def] dec_recursor_spec_def)

declare constraint_specs.decode_encode [codec_encode] constraint_specs.decodeE [codec_decode]
  binder_types.decode_encode [codec_encode] binder_types.decodeE [codec_decode]
  constructor_specs.decode_encode [codec_encode] constructor_specs.decodeE [codec_decode]
  recursor_spec.decode_encode [codec_encode] recursor_spec.decodeE [codec_decode]

definition mutual_inductive_spec_ok :: "mutual_inductive_spec \<Rightarrow> bool" where
  "mutual_inductive_spec_ok i \<longleftrightarrow> binder_types_ok (mis_params i) \<and> binder_types_ok (mis_indices i) \<and>
     constructor_specs_ok (mis_constructors i) \<and> pred_option recursor_ok (mis_recursor i)"

interpretation mutual_spec: codec encode_mutual_inductive_spec dec_mutual_inductive_spec
    mutual_inductive_spec_ok
  by unfold_locales
    (auto simp: encode_mutual_inductive_spec_def dec_mutual_inductive_spec_def mutual_inductive_spec_ok_def
      codec_encode elim!: codec_decode)

interpretation mutual_specs: codec "encode_vec encode_mutual_inductive_spec"
    "dec_vec dec_mutual_inductive_spec"
    "\<lambda>is. length is \<le> max_nested_vector_entries \<and> list_all mutual_inductive_spec_ok is"
  by (rule mutual_spec.vec)

declare mutual_specs.decode_encode [codec_encode] mutual_specs.decodeE [codec_decode]

primrec decl_payload_ok :: "decl_payload \<Rightarrow> bool" where
  "decl_payload_ok (PAxiom n ups t) \<longleftrightarrow> usize_vec_ok ups"
| "decl_payload_ok (PAxiomConstrained n ups ucs t) \<longleftrightarrow> usize_vec_ok ups \<and> constraint_specs_ok ucs"
| "decl_payload_ok (PDef n ups t v r) \<longleftrightarrow> usize_vec_ok ups"
| "decl_payload_ok (PDefConstrained n ups ucs t v r) \<longleftrightarrow> usize_vec_ok ups \<and> constraint_specs_ok ucs"
| "decl_payload_ok (PTheorem n ups t p op) \<longleftrightarrow> usize_vec_ok ups"
| "decl_payload_ok (PTheoremConstrained n ups ucs t p op) \<longleftrightarrow>
     usize_vec_ok ups \<and> constraint_specs_ok ucs"
| "decl_payload_ok (PInductive n ups ps is s cs r) \<longleftrightarrow>
     usize_vec_ok ups \<and> binder_types_ok ps \<and> binder_types_ok is \<and> constructor_specs_ok cs \<and>
     pred_option recursor_ok r"
| "decl_payload_ok (PInductiveConstrained n ups ucs ps is s cs r) \<longleftrightarrow>
     usize_vec_ok ups \<and> constraint_specs_ok ucs \<and> binder_types_ok ps \<and> binder_types_ok is \<and>
     constructor_specs_ok cs \<and> pred_option recursor_ok r"
| "decl_payload_ok (PMutualInductiveBlock n ups ucs is) \<longleftrightarrow>
     usize_vec_ok ups \<and> constraint_specs_ok ucs \<and> length is \<le> max_nested_vector_entries \<and>
     list_all mutual_inductive_spec_ok is"

interpretation decl_payload: codec encode_decl_payload dec_decl_payload decl_payload_ok
proof (unfold_locales, goal_cases)
  case (1 x c pre post) then show ?case by (cases x) (simp_all add: dec_decl_payload_def codec_encode)
next
  case (2 c pre rest x d) then show ?case
    by (auto simp: dec_decl_payload_def elim!: codec_decode split: if_splits)
next
  case (3 x) then show ?case by (cases x) simp_all
qed

declare decl_payload.decode_encode [codec_encode] decl_payload.decodeE [codec_decode]


definition axiom_ref_ok :: "axiom_ref \<Rightarrow> bool" where
  "axiom_ref_ok a \<longleftrightarrow> global_ref_ok (ar_global_ref a) \<and> hash_ok (ar_decl_interface_hash a)"

interpretation axiom_ref: codec encode_axiom_ref dec_axiom_ref axiom_ref_ok
  by unfold_locales (auto simp: encode_axiom_ref_def dec_axiom_ref_def axiom_ref_ok_def codec_encode
      elim!: codec_decode)

definition axiom_refs_ok :: "axiom_ref list \<Rightarrow> bool" where
  "axiom_refs_ok axs \<longleftrightarrow> length axs \<le> max_nested_vector_entries \<and> list_all axiom_ref_ok axs"

interpretation axiom_refs: codec encode_axiom_refs dec_axiom_refs axiom_refs_ok
  using axiom_ref.vec
  by (simp add: encode_axiom_refs_def [abs_def] dec_axiom_refs_def axiom_refs_ok_def [abs_def])

declare axiom_refs.decode_encode [codec_encode] axiom_refs.decodeE [codec_decode]

primrec dependency_entry_ok :: "dependency_entry \<Rightarrow> bool" where
  "dependency_entry_ok (DInterface g ih) \<longleftrightarrow> global_ref_ok g \<and> hash_ok ih"
| "dependency_entry_ok (DLocalImplementation g ih ch) \<longleftrightarrow> global_ref_ok g \<and> hash_ok ih \<and> hash_ok ch"

interpretation dependency_entry: codec encode_dependency_tagged "dec_dependency_entry version"
    dependency_entry_ok
proof (unfold_locales, goal_cases)
  case (1 x c pre post) then show ?case
    by (cases x) (simp_all add: dec_dependency_entry_def encodes_tagged_dependencies_def
        encode_dependency_tagged_def codec_encode)
next
  case (2 c pre rest x d) then show ?case
    by (auto simp: dec_dependency_entry_def encodes_tagged_dependencies_def
        encode_dependency_tagged_def elim!: codec_decode split: if_splits)
next
  case (3 x) then show ?case by (cases x) (simp_all add: encode_dependency_tagged_def)
qed

definition dependency_entries_ok :: "dependency_entry list \<Rightarrow> bool" where
  "dependency_entries_ok deps \<longleftrightarrow> length deps \<le> max_nested_vector_entries \<and>
     list_all dependency_entry_ok deps \<and> \<not> some_descent deps"

interpretation dependency_vec: codec "encode_vec encode_dependency_tagged"
    "dec_vec (dec_dependency_entry version)"
    "\<lambda>deps. length deps \<le> max_nested_vector_entries \<and> list_all dependency_entry_ok deps"
  by (rule dependency_entry.vec)

lemma encode_dependencies_alt:
  "encode_dependency_entries_with_format deps version = encode_vec encode_dependency_tagged deps"
  by (simp add: encode_dependency_entries_with_format_def encodes_tagged_dependencies_def)

interpretation dependencies: codec "\<lambda>deps. encode_dependency_entries_with_format deps version"
    "dec_dependency_entries version" dependency_entries_ok
  by unfold_locales
    (auto simp: encode_dependencies_alt dec_dependency_entries_def dependency_entries_ok_def
      encodes_tagged_dependencies_def dependency_vec.decode_encode dependency_vec.encode_nonempty
      elim!: dbind_InrE dependency_vec.decodeE split: if_splits)

declare dependencies.decode_encode [codec_encode] dependencies.decodeE [codec_decode]

definition decl_hashes_ok :: "decl_hashes \<Rightarrow> bool" where
  "decl_hashes_ok h \<longleftrightarrow> hash_ok (dh_decl_interface_hash h) \<and> hash_ok (dh_decl_certificate_hash h)"

definition decl_cert_ok :: "decl_cert \<Rightarrow> bool" where
  "decl_cert_ok d \<longleftrightarrow> decl_payload_ok (dc_decl d) \<and> dependency_entries_ok (dc_dependencies d) \<and>
     axiom_refs_ok (dc_axiom_dependencies d) \<and> decl_hashes_ok (dc_hashes d)"

interpretation decl_cert: codec "encode_declaration version" "dec_declaration version" decl_cert_ok
  by unfold_locales
    (auto simp: encode_declaration_def dec_declaration_def decl_cert_ok_def decl_hashes_ok_def codec_encode
      decl_payload.encode_nonempty elim!: codec_decode)

definition declarations_ok :: "decl_cert list \<Rightarrow> bool" where
  "declarations_ok ds \<longleftrightarrow> length ds \<le> max_declarations \<and> list_all decl_cert_ok ds"

interpretation declarations: codec "\<lambda>ds. encode_declarations ds version" "dec_declarations version"
    declarations_ok
  using decl_cert.vec_for [of max_declarations version Declarations]
  by (simp add: encode_declarations_def [abs_def] dec_declarations_def declarations_ok_def [abs_def] max_defs)

section \<open>Exports and reports\<close>

definition export_entry_ok :: "export_entry \<Rightarrow> bool" where
  "export_entry_ok e \<longleftrightarrow> usize_vec_ok (ee_universe_params e) \<and>
     constraint_specs_ok (ee_universe_constraints e) \<and> hash_ok (ee_type_hash e) \<and>
     pred_option hash_ok (ee_body_hash e) \<and> hash_ok (ee_decl_interface_hash e) \<and>
     axiom_refs_ok (ee_axiom_dependencies e)"

interpretation export_entry: codec "encode_export_entry version" "dec_export_entry version" export_entry_ok
  by unfold_locales
    (auto simp: encode_export_entry_def dec_export_entry_def export_entry_ok_def
      encodes_export_universe_constraints_def codec_encode elim!: codec_decode)

definition exports_ok :: "export_entry list \<Rightarrow> bool" where
  "exports_ok es \<longleftrightarrow> length es \<le> max_exports \<and> list_all export_entry_ok es"

interpretation export_block: codec "\<lambda>es. encode_export_block_with_format es version"
    "dec_export_block version" exports_ok
  using export_entry.vec_for [of max_exports version Exports]
  by (simp add: encode_export_block_with_format_def [abs_def] dec_export_block_def exports_ok_def [abs_def]
      max_defs)

definition decl_axiom_report_ok :: "decl_axiom_report \<Rightarrow> bool" where
  "decl_axiom_report_ok r \<longleftrightarrow> axiom_refs_ok (dar_direct_axioms r) \<and> axiom_refs_ok (dar_transitive_axioms r)"

interpretation decl_axiom_report: codec encode_decl_axiom_report dec_decl_axiom_report decl_axiom_report_ok
  by unfold_locales
    (auto simp: encode_decl_axiom_report_def dec_decl_axiom_report_def decl_axiom_report_ok_def codec_encode
      elim!: codec_decode)

interpretation decl_axiom_reports: codec "encode_vec encode_decl_axiom_report"
    "dec_vec_for Declarations max_declarations dec_decl_axiom_report"
    "\<lambda>rs. length rs \<le> max_declarations \<and> list_all decl_axiom_report_ok rs"
  by (rule decl_axiom_report.vec_for) (simp add: max_defs)

declare declarations.decode_encode [codec_encode] declarations.decodeE [codec_decode]
  export_block.decode_encode [codec_encode] export_block.decodeE [codec_decode]
  decl_axiom_reports.decode_encode [codec_encode] decl_axiom_reports.decodeE [codec_decode]

definition axiom_report_ok :: "axiom_report \<Rightarrow> bool" where
  "axiom_report_ok r \<longleftrightarrow> length (rep_per_declaration r) \<le> max_declarations \<and>
     list_all decl_axiom_report_ok (rep_per_declaration r) \<and> axiom_refs_ok (rep_module_axioms r)"

interpretation axiom_report: codec encode_axiom_report dec_axiom_report axiom_report_ok
  by unfold_locales
    (auto simp: encode_axiom_report_def dec_axiom_report_def axiom_report_ok_def codec_encode
      decl_axiom_reports.encode_nonempty elim!: codec_decode)

declare axiom_report.decode_encode [codec_encode] axiom_report.decodeE [codec_decode]


section \<open>Headers and imports\<close>

definition header_ok :: "cert_header \<Rightarrow> bool" where
  "header_ok h \<longleftrightarrow> hdr_format h = FORMAT \<and> hdr_core_spec h = CORE_SPEC \<and> name_ok (hdr_module h)"

lemma format_strings_ok: "string_ok FORMAT" "string_ok CORE_SPEC"
  by (simp_all add: string_ok_def FORMAT_def CORE_SPEC_def as_bytes_def)

interpretation hdr: codec encode_header dec_header header_ok
  by unfold_locales
    (auto simp: encode_header_def dec_header_def header_ok_def format_strings_ok str.encode_nonempty
      codec_encode elim!: codec_decode split: if_splits)

definition import_entry_ok :: "import_entry \<Rightarrow> bool" where
  "import_entry_ok i \<longleftrightarrow> name_ok (ie_module i) \<and> hash_ok (ie_export_hash i) \<and>
     pred_option hash_ok (ie_certificate_hash i)"

interpretation import_entry: codec encode_import dec_import import_entry_ok
  by unfold_locales
    (auto simp: encode_import_def dec_import_def import_entry_ok_def nm.encode_nonempty codec_encode
      elim!: codec_decode)

definition imports_ok :: "import_entry list \<Rightarrow> bool" where
  "imports_ok is \<longleftrightarrow> length is \<le> max_imports \<and> list_all import_entry_ok is"

text \<open>Where each of a sequence of encodings begins, the first one at offset \<open>n\<close>.\<close>

primrec entry_offsets :: "('a \<Rightarrow> byte list) \<Rightarrow> nat \<Rightarrow> 'a list \<Rightarrow> nat list" where
  "entry_offsets e n [] = []"
| "entry_offsets e n (x # xs) = n # entry_offsets e (n + length (e x)) xs"

lemma length_entry_offsets [simp]: "length (entry_offsets e n xs) = length xs"
  by (induction xs arbitrary: n) simp_all

lemma entry_offsets_nth:
  "i < length xs \<Longrightarrow> entry_offsets e n xs ! i = n + length (concat (map e (take i xs)))"
proof (induction xs arbitrary: n i)
  case (Cons x xs)
  then show ?case by (cases i) simp_all
qed simp

context codec
begin

lemma collect_at:
  "collect_n n (\<lambda>d. dbind dec (\<lambda>x. dreturn (x, dec_offset d)) d) (at_pos c pre rest) =
     (case collect_n n dec (at_pos c pre rest) of
        Inl e \<Rightarrow> Inl e
      | Inr (xs, d) \<Rightarrow> Inr (zip xs (entry_offsets enc (length pre) xs), d))"
proof (induction n arbitrary: pre rest)
  case (Suc n)
  show ?case
  proof (cases "dec (at_pos c pre rest)")
    case (Inr r)
    obtain x d where r: "r = (x, d)" by (cases r)
    from Inr r obtain post where "ok x" "rest = enc x @ post" "d = at_pos c (pre @ enc x) post"
      by (blast elim: decodeE)
    with Inr r Suc.IH [of "pre @ enc x" post] show ?thesis
      by (simp add: dbind_def split: sum.splits)
  qed (simp add: dbind_def)
qed simp

end

lemma bounded_len_forE:
  assumes "bounded_len_for kind limit (at_pos c pre rest) = Inr (n, d)"
  obtains post where "rest = encode_uvar (word_of_nat n) @ post" "n \<le> limit"
    "d = at_pos c (pre @ encode_uvar (word_of_nat n)) post"
  using assms
  by (auto simp: bounded_len_for_def dlift_Inr ensure_count_limit_def not_less
      elim!: dbind_InrE usize.decodeE split: if_splits)

lemma dec_import_at_alt: "dec_import_at = (\<lambda>d. dbind dec_import (\<lambda>x. dreturn (x, dec_offset d)) d)"
  by (rule ext) (simp add: dec_import_at_def)

lemma imports_alt:
  "imports_with_offsets (at_pos c pre rest) =
     (case dec_vec_for Imports max_imports dec_import (at_pos c pre rest) of
        Inl e \<Rightarrow> Inl e
      | Inr (xs, d) \<Rightarrow>
          Inr ((xs, entry_offsets encode_import
            (length pre + length (encode_uvar (word_of_nat (length xs)))) xs), d))"
proof (cases "bounded_len_for Imports max_imports (at_pos c pre rest)")
  case (Inr r)
  then obtain n post where r: "r = (n, at_pos c (pre @ encode_uvar (word_of_nat n)) post)"
    by (cases r) (blast elim: bounded_len_forE)
  note at = import_entry.collect_at [of n c "pre @ encode_uvar (word_of_nat n)" post, folded dec_import_at_alt]
  show ?thesis
  proof (cases "collect_n n dec_import (at_pos c (pre @ encode_uvar (word_of_nat n)) post)")
    case (Inr s)
    moreover obtain xs d where "s = (xs, d)" by (cases s)
    moreover from this Inr have "length xs = n" using import_entry.collect_exact by blast
    ultimately show ?thesis using \<open>_ = Inr r\<close> at
      by (simp add: imports_with_offsets_def dec_vec_for_def r)
  qed (use Inr at in \<open>simp add: imports_with_offsets_def dec_vec_for_def r\<close>)
qed (simp add: imports_with_offsets_def dec_vec_for_def)

definition import_offsets :: "nat \<Rightarrow> import_entry list \<Rightarrow> nat list" where
  "import_offsets n is =
     entry_offsets encode_import (n + length (encode_uvar (word_of_nat (length is)))) is"

interpretation import_vec: codec encode_imports "dec_vec_for Imports max_imports dec_import" imports_ok
  using import_entry.vec_for [of max_imports Imports]
  by (simp add: encode_imports_def [abs_def] imports_ok_def [abs_def] max_defs)


lemma imports_encode:
  assumes "imports_ok is"
  shows "imports_with_offsets (at_pos c pre (encode_imports is @ post)) =
    Inr ((is, import_offsets (length pre) is), at_pos c (pre @ encode_imports is) post)"
  using assms by (simp add: imports_alt import_vec.decode_encode import_offsets_def)

lemma importsE:
  assumes "imports_with_offsets (at_pos c pre rest) = Inr (r, d)"
  obtains "is" post where "imports_ok is" "rest = encode_imports is @ post"
    "r = (is, import_offsets (length pre) is)" "d = at_pos c (pre @ encode_imports is) post"
  using assms
  by (auto simp: imports_alt import_offsets_def split: sum.splits elim!: import_vec.decodeE)

declare hdr.decode_encode [codec_encode] hdr.decodeE [codec_decode]
  imports_encode [codec_encode] importsE [codec_decode]

section \<open>Modules\<close>

definition module_hashes_ok :: "module_hashes \<Rightarrow> bool" where
  "module_hashes_ok h \<longleftrightarrow> hash_ok (mh_export_hash h) \<and> hash_ok (mh_axiom_report_hash h) \<and>
     hash_ok (mh_certificate_hash h)"

definition encode_module_hashes :: "module_hashes \<Rightarrow> byte list" where
  "encode_module_hashes h = encode_hash (mh_export_hash h) @ encode_hash (mh_axiom_report_hash h) @
     encode_hash (mh_certificate_hash h)"

interpretation module_hashes: codec encode_module_hashes dec_module_hashes module_hashes_ok
  by unfold_locales
    (auto simp: encode_module_hashes_def dec_module_hashes_def module_hashes_ok_def hash.encode_nonempty
      codec_encode elim!: codec_decode)

declare module_hashes.decode_encode [codec_encode] module_hashes.decodeE [codec_decode]

definition module_cert_ok :: "module_cert \<Rightarrow> bool" where
  "module_cert_ok m \<longleftrightarrow> header_ok (mc_header m) \<and> imports_ok (mc_imports m) \<and>
     names_ok (mc_name_table m) \<and> levels_ok (mc_level_table m) \<and> terms_ok (mc_term_table m) \<and>
     declarations_ok (mc_declarations m) \<and> exports_ok (mc_export_block m) \<and>
     axiom_report_ok (mc_axiom_report m) \<and> module_hashes_ok (mc_hashes m)"

text \<open>The bytes in front of the hashes.\<close>

definition encode_body :: "module_cert \<Rightarrow> byte list" where
  "encode_body m =
     encode_header (mc_header m) @ encode_imports (mc_imports m) @
     encode_name_table (mc_name_table m) @ encode_level_table (mc_level_table m) @
     encode_term_table (mc_term_table m) @ encode_declarations (mc_declarations m) V0_4_0 @
     encode_export_block_with_format (mc_export_block m) V0_4_0 @
     encode_axiom_report (mc_axiom_report m)"

lemma length_module_hashes: "module_hashes_ok h \<Longrightarrow> length (encode_module_hashes h) = 96"
  by (simp add: module_hashes_ok_def encode_module_hashes_def encode_hash_def hash_ok_def)

lemma no_feature_report: "length rest \<le> 96 \<Longrightarrow> dec_feature_report (at_pos c pre rest) = Inr ((), at_pos c pre rest)"
  by (simp add: dec_feature_report_def has_core_feature_report_def module_hash_trailer_len_def Let_def)

lemma count_at: "(at_pos c pre post)\<lparr>audit_core_feature_count := n\<rparr> = at_pos (fst c, n) pre post"
  by (simp add: at_pos_def)

lemma strict_feature: "dec_core_feature (at_pos (False, k) pre rest) = Inr r \<Longrightarrow> False"
  by (cases r) (auto simp: dec_core_feature_def elim!: codec_decode split: if_splits)

lemma strict_collect: "0 < n \<Longrightarrow> collect_n n dec_core_feature (at_pos (False, k) pre rest) \<noteq> Inr r"
  by (cases r; cases n) (auto elim!: dbind_InrE dest: strict_feature)

lemma strict_features: "dec_core_features (at_pos (False, k) pre rest) = Inr r \<Longrightarrow> False"
  by (cases r)
    (auto simp: dec_core_features_def bounded_len_def count_at strict_collect
      elim!: dbind_InrE str.decodeE bounded_len_forE split: if_splits)

lemma feature_reportE:
  assumes "dec_feature_report (at_pos (False, k) pre rest) = Inr (u, d)"
  shows "d = at_pos (False, k) pre rest"
  using assms by (auto simp: dec_feature_report_def dest: strict_features split: if_splits)

lemma version_ok: "header_ok h \<Longrightarrow> cert_format_version h = Inr V0_4_0"
  by (simp add: header_ok_def cert_format_version_def)

lemma module_encode:
  assumes "module_cert_ok m"
  shows "module_cert_parts_with_import_offsets (at_pos c pre (encode_body m @ encode_module_hashes (mc_hashes m))) =
    Inr ((m, import_offsets (length pre + length (encode_header (mc_header m))) (mc_imports m)),
      at_pos c (pre @ encode_body m @ encode_module_hashes (mc_hashes m)) [])"
  using assms length_module_hashes [of "mc_hashes m"]
    module_hashes.decode_encode_end [of "mc_hashes m" c "pre @ encode_body m"]
  by (simp add: module_cert_parts_with_import_offsets_def module_cert_ok_def encode_body_def codec_encode
      version_ok no_feature_report)

lemma moduleE:
  assumes "module_cert_parts_with_import_offsets (at_pos (False, k) pre rest) = Inr ((m, offs), d)"
  shows "module_cert_ok m \<and>
    offs = import_offsets (length pre + length (encode_header (mc_header m))) (mc_imports m) \<and>
    (\<exists>post. rest = encode_body m @ encode_module_hashes (mc_hashes m) @ post \<and>
       d = at_pos (False, k) (pre @ encode_body m @ encode_module_hashes (mc_hashes m)) post)"
  using assms
  by (auto simp: module_cert_parts_with_import_offsets_def module_cert_ok_def encode_body_def dlift_Inr
      version_ok elim!: codec_decode dest!: feature_reportE)


section \<open>Certificates\<close>

lemma encode_parts_alt:
  "encode_module_cert_parts_with_format m V0_4_0 False @ encode_hash (mh_certificate_hash (mc_hashes m)) =
     encode_body m @ encode_module_hashes (mc_hashes m)"
  by (simp add: encode_module_cert_parts_with_format_def encode_body_def encode_module_hashes_def)

lemma encode_module_cert_alt:
  "encode_module_cert m =
     (if hdr_format (mc_header m) = FORMAT \<and> hdr_core_spec (mc_header m) = CORE_SPEC
      then Inr (encode_body m @ encode_module_hashes (mc_hashes m))
      else Inl (UnsupportedFormat (hdr_format (mc_header m)) (hdr_core_spec (mc_header m))))"
  by (simp add: encode_module_cert_def encode_module_cert_full_with_boundary_for_header_def
      cert_format_version_def ensure_dependency_layout_supported_def encodes_tagged_dependencies_def
      encode_parts_alt Let_def)

lemma decode_iff:
  "decode_module_cert_with_import_offsets bs = Inr (m, offs) \<longleftrightarrow>
     module_cert_ok m \<and> encode_module_cert m = Inr bs \<and> length bs \<le> max_certificate_bytes \<and>
     offs = import_offsets (length (encode_header (mc_header m))) (mc_imports m)" (is "?lhs \<longleftrightarrow> ?rhs")
proof
  assume ?lhs
  then have limit: "length bs \<le> max_certificate_bytes"
    and "\<exists>d. module_cert_parts_with_import_offsets (at_pos (False, 0) [] bs) = Inr ((m, offs), d) \<and> is_done d"
    by (auto simp: decode_module_cert_with_import_offsets_def ensure_certificate_byte_limit_def finish_def
        decoder_new_at split: if_splits sum.splits)
  then show ?rhs
    by (auto simp: encode_module_cert_alt module_cert_ok_def header_ok_def dest!: moduleE)
next
  assume ?rhs
  then show ?lhs using module_encode [of m "(False, 0)" "[]"]
    by (auto simp: decode_module_cert_with_import_offsets_def ensure_certificate_byte_limit_def finish_def
        decoder_new_at encode_module_cert_alt module_cert_ok_def header_ok_def split: if_splits)
qed

lemma decode_via_offsets:
  "decode_module_cert bs = (case decode_module_cert_with_import_offsets bs of
     Inl e \<Rightarrow> Inl e | Inr (m, _) \<Rightarrow> Inr m)"
  by (simp add: decode_module_cert_def decode_module_cert_with_import_offsets_def split: sum.split)

lemma decode_module_iff:
  "decode_module_cert bs = Inr m \<longleftrightarrow>
     module_cert_ok m \<and> encode_module_cert m = Inr bs \<and> length bs \<le> max_certificate_bytes"
proof (cases "decode_module_cert_with_import_offsets bs")
  case (Inl e)
  then have "decode_module_cert bs \<noteq> Inr m" by (simp add: decode_via_offsets)
  moreover have "decode_module_cert_with_import_offsets bs \<noteq> Inr (m, offs)" for offs
    by (simp add: Inl)
  ultimately show ?thesis unfolding decode_iff by blast
next
  case (Inr r)
  obtain m' offs where r: "r = (m', offs)" by (cases r)
  have "decode_module_cert bs = Inr m'" by (simp add: decode_via_offsets Inr r)
  moreover note Inr [unfolded r, unfolded decode_iff]
  moreover have "(\<exists>offs. decode_module_cert_with_import_offsets bs = Inr (m, offs)) \<longleftrightarrow> m = m'"
    by (auto simp: Inr r)
  ultimately show ?thesis unfolding decode_iff by auto
qed


text \<open>
  C28: Certificates have exactly one accepted encoding: \<^verbatim>\<open>decode_module_cert\<close> returns \<open>m\<close>
  for \<open>bs\<close> if and only if \<open>m\<close> is within the format (canonical names, 32-byte hashes, vectors
  within their limits, ascending dependencies), \<^verbatim>\<open>encode_module_cert\<close> turns \<open>m\<close> into
  \<open>bs\<close>, and \<open>bs\<close> does not exceed the limit on certificate bytes.
\<close>

theorem decode_iff_encode:
  "decode_module_cert bs = Inr m \<longleftrightarrow>
     module_cert_ok m \<and> encode_module_cert m = Inr bs \<and> length bs \<le> max_certificate_bytes"
  by (rule decode_module_iff)

text \<open>
  The offsets that \<^verbatim>\<open>decode_module_cert_with_import_offsets\<close> returns point at the
  imports: there is one for each import of the certificate, and at that position of the bytes
  the encoding of that import begins.
\<close>

theorem import_offsets_point:
  assumes "decode_module_cert_with_import_offsets bs = Inr (m, offs)"
  shows "length offs = length (mc_imports m) \<and>
    (\<forall>i < length (mc_imports m). \<exists>post. drop (offs ! i) bs = encode_import (mc_imports m ! i) @ post)"
proof (intro conjI allI impI)
  let ?h = "encode_header (mc_header m)" and ?is = "mc_imports m"
  let ?n = "encode_uvar (word_of_nat (length ?is))"
  from assms have offs: "offs = import_offsets (length ?h) ?is" and "encode_module_cert m = Inr bs"
    unfolding decode_iff by simp_all
  then obtain r where bs: "bs = ?h @ ?n @ concat (map encode_import ?is) @ r"
    by (auto simp: encode_module_cert_alt encode_body_def encode_imports_def encode_vec_def split: if_splits)
  from offs show "length offs = length ?is" by (simp add: import_offsets_def)
  fix i assume i: "i < length ?is"
  then have "concat (map encode_import ?is) = concat (map encode_import (take i ?is)) @
      encode_import (?is ! i) @ concat (map encode_import (drop (Suc i) ?is))"
    by (metis append_take_drop_id concat.simps(2) concat_append list.simps(9) map_append Cons_nth_drop_Suc)
  with i show "\<exists>post. drop (offs ! i) bs = encode_import (?is ! i) @ post"
    by (simp add: offs bs import_offsets_def entry_offsets_nth)
qed

text \<open>
  C31: No accepted certificate begins another one: bytes cut off an accepted certificate, or
  appended to it, make it unacceptable.
\<close>

theorem no_certificate_extends_another:
  assumes "decode_module_cert bs = Inr m" and "rest \<noteq> []"
  shows "decode_module_cert (bs @ rest) \<noteq> Inr m'"
proof
  assume "decode_module_cert (bs @ rest) = Inr m'"
  with assms(1) have ok: "module_cert_ok m" "module_cert_ok m'"
    and eq: "encode_body m' @ encode_module_hashes (mc_hashes m') =
      encode_body m @ encode_module_hashes (mc_hashes m) @ rest"
    unfolding decode_module_iff by (auto simp: encode_module_cert_alt split: if_splits)
  from ok eq have "encode_body m' = encode_body m"
    by (simp add: module_cert_ok_def encode_body_def hdr.same_prefix import_vec.same_prefix
        name_table.same_prefix level_table.same_prefix term_table.same_prefix declarations.same_prefix
        export_block.same_prefix axiom_report.same_prefix)
  then have "length (encode_body m') = length (encode_body m)" by simp
  moreover from eq have "length (encode_body m') + length (encode_module_hashes (mc_hashes m')) =
      length (encode_body m) + length (encode_module_hashes (mc_hashes m)) + length rest"
    by (metis length_append add.assoc)
  ultimately show False using assms(2) ok by (simp add: module_cert_ok_def length_module_hashes)
qed

text \<open>
  The other two decoders agree with \<^verbatim>\<open>decode_module_cert\<close> on every certificate that it
  accepts: \<^verbatim>\<open>decode_module_cert_header\<close> returns the header of the certificate, and the
  decoder of the structural audit, which tolerates unknown core features, the certificate.
\<close>

theorem decoders_agree:
  assumes "decode_module_cert bs = Inr m"
  shows "decode_module_cert_header bs = Inr (mc_header m) \<and> decode_for_structural_audit bs = Inr m"
proof
  from assms have ok: "module_cert_ok m" "length bs \<le> max_certificate_bytes"
    and bs: "bs = encode_body m @ encode_module_hashes (mc_hashes m)"
    unfolding decode_module_iff by (auto simp: encode_module_cert_alt split: if_splits)
  show "decode_module_cert_header bs = Inr (mc_header m)" using ok
    by (simp add: decode_module_cert_header_def ensure_certificate_byte_limit_def decoder_new_at bs
        encode_body_def module_cert_ok_def hdr.decode_encode version_ok)
  show "decode_for_structural_audit bs = Inr m" using ok module_encode [of m "(True, 0)" "[]"]
    by (simp add: decode_for_structural_audit_def ensure_certificate_byte_limit_def audit_decoder_at bs
        finish_def)
qed

lemma ascending: "\<not> some_descent deps \<longleftrightarrow> sorted_wrt (\<lambda>x y. dependency_entry_order_key x < dependency_entry_order_key y) deps"
proof (induction deps rule: some_descent.induct)
  case (1 x y r)
  then show ?case by (auto simp: not_le intro: less_trans)
qed simp_all

lemma sorted_wrt_less_distinct: "sorted_wrt (\<lambda>x y. f x < (f y :: byte list)) xs \<Longrightarrow> distinct xs"
  by (induction xs) auto

text \<open>
  The dependencies of every declaration of an accepted certificate ascend strictly in the
  byte order of their encodings, so that none is listed twice.
\<close>

theorem dependencies_ascend:
  assumes "decode_module_cert bs = Inr m" and "d \<in> set (mc_declarations m)"
  shows "sorted_wrt (\<lambda>x y. encode_dependency_tagged x < encode_dependency_tagged y) (dc_dependencies d) \<and>
    distinct (dc_dependencies d)"
proof -
  from assms have "\<not> some_descent (dc_dependencies d)"
    unfolding decode_module_iff
    by (auto simp: module_cert_ok_def declarations_ok_def decl_cert_ok_def dependency_entries_ok_def list_all_iff)
  then have *: "sorted_wrt (\<lambda>x y. encode_dependency_tagged x < encode_dependency_tagged y) (dc_dependencies d)"
    by (simp add: ascending dependency_order_key_eq)
  then have "distinct (dc_dependencies d)" by (rule sorted_wrt_less_distinct)
  with * show ?thesis ..
qed

text \<open>
  The term table reports a tag it does not know, such as the retired 0x06, as the
  unsupported tag at the first node that has it, however few bytes follow the tag.
\<close>

theorem term_table_unknown_tag:
  assumes "unat len \<le> max_term_table_nodes" and "length terms < unat len" and "list_all term_node_ok terms"
    and "5 < tag"
  shows "dec_term_table (at_pos c pre (encode_uvar len @ concat (map encode_term_node terms) @ tag # post)) =
    Inl (UnsupportedEncoding tag)"
proof -
  have "tag \<notin> {0, 1, 2, 3, 4, 5}" using assms(4) by auto
  then have "dec_term_node (at_pos c (pre @ encode_uvar len @ concat (map encode_term_node terms)) (tag # post)) =
      Inl (UnsupportedEncoding tag)"
    by (simp add: dec_term_node_def)
  with assms show ?thesis
    by (simp add: dec_term_table_def usize.decode_encode ensure_count_limit_def term_node.collect_fails)
qed


section \<open>A certificate\<close>

definition sample_hash :: hash where
  "sample_hash = replicate 32 0x5A"

definition sample_cert :: module_cert where
  "sample_cert = \<lparr>
     mc_header = \<lparr>hdr_format = FORMAT, hdr_core_spec = CORE_SPEC, hdr_module = [''A'', ''b'']\<rparr>,
     mc_imports = [\<lparr>ie_module = [''B''], ie_export_hash = sample_hash, ie_certificate_hash = None\<rparr>,
       \<lparr>ie_module = [''C''], ie_export_hash = sample_hash, ie_certificate_hash = Some sample_hash\<rparr>],
     mc_name_table = [[''x'']], mc_level_table = [LNZero], mc_term_table = [TNSort 0],
     mc_declarations = [\<lparr>dc_decl = PAxiom 0 [] 0,
       dc_dependencies = [DInterface (GImported 0 300 sample_hash) sample_hash,
         DInterface (GImported 1 300 sample_hash) sample_hash],
       dc_axiom_dependencies = [],
       dc_hashes = \<lparr>dh_decl_interface_hash = sample_hash, dh_decl_certificate_hash = sample_hash\<rparr>\<rparr>],
     mc_export_block = [],
     mc_axiom_report = \<lparr>rep_per_declaration = [], rep_module_axioms = []\<rparr>,
     mc_hashes = \<lparr>mh_export_hash = sample_hash, mh_axiom_report_hash = sample_hash,
       mh_certificate_hash = sample_hash\<rparr>\<rparr>"

definition sample_bytes :: "byte list" where
  "sample_bytes = encode_body sample_cert @ encode_module_hashes (mc_hashes sample_cert)"

lemma pred_option_code [code]: "pred_option P x \<longleftrightarrow> (case x of None \<Rightarrow> True | Some y \<Rightarrow> P y)"
  by (cases x) simp_all

lemma sample_ok: "module_cert_ok sample_cert"
  by code_simp

lemma sample_length: "length sample_bytes \<le> max_certificate_bytes"
  by code_simp

lemma sample_decodes: "decode_module_cert sample_bytes = Inr sample_cert"
  by (simp add: decode_module_iff sample_ok sample_length)
   (simp add: encode_module_cert_alt sample_bytes_def sample_cert_def)


lemma sample_decodes_at: "decode_module_cert_with_import_offsets sample_bytes =
    Inr (sample_cert, import_offsets (length (encode_header (mc_header sample_cert))) (mc_imports sample_cert))"
  using sample_decodes by (simp add: decode_iff decode_module_iff)

theorem import_offsets_point_witness:
  "\<exists>post. drop (import_offsets (length (encode_header (mc_header sample_cert))) (mc_imports sample_cert) ! 1)
     sample_bytes = encode_import (mc_imports sample_cert ! 1) @ post"
proof -
  have "1 < length (mc_imports sample_cert)" by (simp add: sample_cert_def)
  then show ?thesis using import_offsets_point [OF sample_decodes_at] by blast
qed

theorem no_certificate_extends_another_witness:
  "decode_module_cert sample_bytes = Inr sample_cert \<and>
   decode_module_cert (sample_bytes @ [0x00]) \<noteq> Inr sample_cert"
  using no_certificate_extends_another [OF sample_decodes, of "[0x00]" sample_cert] sample_decodes by simp

theorem decoders_agree_witness:
  "decode_module_cert_header sample_bytes =
     Inr \<lparr>hdr_format = FORMAT, hdr_core_spec = CORE_SPEC, hdr_module = [''A'', ''b'']\<rparr>"
  using decoders_agree [OF sample_decodes] by (simp add: sample_cert_def)

theorem dependencies_ascend_witness:
  "encode_dependency_tagged (DInterface (GImported 0 300 sample_hash) sample_hash) <
   encode_dependency_tagged (DInterface (GImported 1 300 sample_hash) sample_hash)"
  using dependencies_ascend [OF sample_decodes, of "hd (mc_declarations sample_cert)"]
  by (simp add: sample_cert_def)

theorem term_table_unknown_tag_witness:
  "dec_term_table (at_pos (False, 0) [] (encode_uvar 2 @ encode_term_node (TNSort 0) @ [0x06])) =
     Inl (UnsupportedEncoding 0x06)"
  using term_table_unknown_tag [of 2 "[TNSort 0]" 6 "(False, 0)" "[]" "[]"] by (simp add: max_defs)

end
