(* ===== verification/Cert_Structural.thy ===== *)
theory Cert_Structural
  imports Cert_Codec "HOL-Library.AList"
begin

text \<open>
  The structural checks of a decoded certificate (\<^verbatim>\<open>npa-cert/src/structural.rs\<close>): counts,
  references of declarations and exports, the depth and the unfolded size of every node of
  the level and term tables, the sums over the semantic roots, and the closure of modules
  with their expansions. A \<^verbatim>\<open>usize\<close> that is computed here is a natural number with the
  saturation of the source written out.
\<close>

definition usize_max :: nat where
  "usize_max = 2 ^ 64 - 1"

definition saturating_add :: "nat \<Rightarrow> nat \<Rightarrow> nat" where
  "saturating_add a b = min (a + b) usize_max"

definition max_structural_depth :: nat where "max_structural_depth = 8192"
definition max_root_expanded_nodes :: nat where "max_root_expanded_nodes = 1048576"
definition max_certificate_expanded_nodes :: nat where "max_certificate_expanded_nodes = 16777216"
definition max_closure_modules :: nat where "max_closure_modules = 4097"
definition max_closure_expanded_nodes :: nat where "max_closure_expanded_nodes = 67108864"

lemmas struct_limit_defs = usize_max_def max_structural_depth_def max_root_expanded_nodes_def
  max_certificate_expanded_nodes_def max_closure_modules_def max_closure_expanded_nodes_def

record structural_cost =
  sc_max_depth :: nat
  sc_max_root_expansion :: nat
  sc_certificate_expansion :: nat

section \<open>Counts\<close>

definition nested :: "nat \<Rightarrow> unit cresult" where
  "nested observed = ensure_count_limit NestedVectorEntries max_nested_vector_entries observed"

definition check_name :: "cname \<Rightarrow> unit cresult" where
  "check_name name = nested (length name)"

definition check_import :: "import_entry \<Rightarrow> unit cresult" where
  "check_import i = check_name (ie_module i)"

definition check_recursor_count :: "recursor_spec option \<Rightarrow> unit cresult" where
  "check_recursor_count r =
     (case r of None \<Rightarrow> Inr () | Some r \<Rightarrow> nested (length (rs_universe_params r)))"

definition check_mutual_counts :: "mutual_inductive_spec \<Rightarrow> unit cresult" where
  "check_mutual_counts i =
     rbind (nested (length (mis_params i))) (\<lambda>_.
     rbind (nested (length (mis_indices i))) (\<lambda>_.
     rbind (nested (length (mis_constructors i))) (\<lambda>_. check_recursor_count (mis_recursor i))))"

fun check_decl_counts :: "decl_payload \<Rightarrow> unit cresult" where
  "check_decl_counts (PAxiom n ups t) = nested (length ups)"
| "check_decl_counts (PDef n ups t v r) = nested (length ups)"
| "check_decl_counts (PTheorem n ups t p op) = nested (length ups)"
| "check_decl_counts (PAxiomConstrained n ups ucs t) =
     rbind (nested (length ups)) (\<lambda>_. nested (length ucs))"
| "check_decl_counts (PDefConstrained n ups ucs t v r) =
     rbind (nested (length ups)) (\<lambda>_. nested (length ucs))"
| "check_decl_counts (PTheoremConstrained n ups ucs t p op) =
     rbind (nested (length ups)) (\<lambda>_. nested (length ucs))"
| "check_decl_counts (PInductive n ups ps is s cs r) =
     rbind (nested (length ups)) (\<lambda>_. rbind (nested (length ps)) (\<lambda>_.
     rbind (nested (length is)) (\<lambda>_. rbind (nested (length cs)) (\<lambda>_. check_recursor_count r))))"
| "check_decl_counts (PInductiveConstrained n ups ucs ps is s cs r) =
     rbind (nested (length ups)) (\<lambda>_. rbind (nested (length ucs)) (\<lambda>_.
     rbind (nested (length ps)) (\<lambda>_. rbind (nested (length is)) (\<lambda>_.
     rbind (nested (length cs)) (\<lambda>_. check_recursor_count r)))))"
| "check_decl_counts (PMutualInductiveBlock n ups ucs is) =
     rbind (nested (length ups)) (\<lambda>_. rbind (nested (length ucs)) (\<lambda>_.
     rbind (nested (length is)) (\<lambda>_. check_all check_mutual_counts is)))"

definition check_term_counts :: "term_node \<Rightarrow> unit cresult" where
  "check_term_counts t = (case t of TNConst g ls \<Rightarrow> nested (length ls) | _ \<Rightarrow> Inr ())"

definition check_declaration_counts :: "decl_cert \<Rightarrow> unit cresult" where
  "check_declaration_counts d =
     rbind (nested (length (dc_dependencies d))) (\<lambda>_.
     rbind (nested (length (dc_axiom_dependencies d))) (\<lambda>_. check_decl_counts (dc_decl d)))"

definition check_export_counts :: "export_entry \<Rightarrow> unit cresult" where
  "check_export_counts e =
     rbind (nested (length (ee_universe_params e))) (\<lambda>_.
     rbind (nested (length (ee_universe_constraints e))) (\<lambda>_.
     nested (length (ee_axiom_dependencies e))))"

definition check_report_counts :: "decl_axiom_report \<Rightarrow> unit cresult" where
  "check_report_counts r =
     rbind (nested (length (dar_direct_axioms r))) (\<lambda>_. nested (length (dar_transitive_axioms r)))"

definition validate_counts :: "module_cert \<Rightarrow> unit cresult" where
  "validate_counts cert =
     rbind (ensure_count_limit Imports max_imports (length (mc_imports cert))) (\<lambda>_.
     rbind (ensure_count_limit NameTableEntries max_name_table_entries (length (mc_name_table cert))) (\<lambda>_.
     rbind (ensure_count_limit LevelTableNodes max_level_table_nodes (length (mc_level_table cert))) (\<lambda>_.
     rbind (ensure_count_limit TermTableNodes max_term_table_nodes (length (mc_term_table cert))) (\<lambda>_.
     rbind (ensure_count_limit Declarations max_declarations (length (mc_declarations cert))) (\<lambda>_.
     rbind (ensure_count_limit Exports max_exports (length (mc_export_block cert))) (\<lambda>_.
     rbind (check_name (hdr_module (mc_header cert))) (\<lambda>_.
     rbind (check_all check_import (mc_imports cert)) (\<lambda>_.
     rbind (check_all check_name (mc_name_table cert)) (\<lambda>_.
     rbind (check_all check_term_counts (mc_term_table cert)) (\<lambda>_.
     rbind (check_all check_declaration_counts (mc_declarations cert)) (\<lambda>_.
     rbind (check_all check_export_counts (mc_export_block cert)) (\<lambda>_.
     rbind (ensure_count_limit Declarations max_declarations
       (length (rep_per_declaration (mc_axiom_report cert)))) (\<lambda>_.
     rbind (nested (length (rep_module_axioms (mc_axiom_report cert)))) (\<lambda>_.
     check_all check_report_counts (rep_per_declaration (mc_axiom_report cert))))))))))))))))"

text \<open>The largest count of a nested vector; \<open>decl_counts\<close> lists what is observed of a payload.\<close>

definition recursor_counts :: "recursor_spec option \<Rightarrow> nat list" where
  "recursor_counts r = (case r of None \<Rightarrow> [] | Some r \<Rightarrow> [length (rs_universe_params r)])"

fun decl_counts :: "decl_payload \<Rightarrow> nat list" where
  "decl_counts (PAxiom n ups t) = [length ups]"
| "decl_counts (PDef n ups t v r) = [length ups]"
| "decl_counts (PTheorem n ups t p op) = [length ups]"
| "decl_counts (PAxiomConstrained n ups ucs t) = [length ups, length ucs]"
| "decl_counts (PDefConstrained n ups ucs t v r) = [length ups, length ucs]"
| "decl_counts (PTheoremConstrained n ups ucs t p op) = [length ups, length ucs]"
| "decl_counts (PInductive n ups ps is s cs r) =
     [length ups, length ps, length is, length cs] @ recursor_counts r"
| "decl_counts (PInductiveConstrained n ups ucs ps is s cs r) =
     [length ups, length ps, length is, length cs] @ recursor_counts r @ [length ucs]"
| "decl_counts (PMutualInductiveBlock n ups ucs is) =
     [length ups, length ucs, length is] @
     concat (map (\<lambda>i. [length (mis_params i), length (mis_indices i), length (mis_constructors i)] @
       recursor_counts (mis_recursor i)) is)"

definition max_nested_count :: "module_cert \<Rightarrow> nat" where
  "max_nested_count cert = foldl max (length (hdr_module (mc_header cert)))
     (map (\<lambda>i. length (ie_module i)) (mc_imports cert) @ map length (mc_name_table cert) @
      concat (map (\<lambda>t. case t of TNConst g ls \<Rightarrow> [length ls] | _ \<Rightarrow> []) (mc_term_table cert)) @
      concat (map (\<lambda>d. [length (dc_dependencies d), length (dc_axiom_dependencies d)] @
        decl_counts (dc_decl d)) (mc_declarations cert)) @
      concat (map (\<lambda>e. [length (ee_universe_params e), length (ee_universe_constraints e),
        length (ee_axiom_dependencies e)]) (mc_export_block cert)) @
      concat (map (\<lambda>r. [length (dar_direct_axioms r), length (dar_transitive_axioms r)])
        (rep_per_declaration (mc_axiom_report cert))) @
      [length (rep_module_axioms (mc_axiom_report cert))])"

section \<open>Semantic roots\<close>

text \<open>
  The levels and terms that declarations and exports refer to, in the order in which both
  \<^verbatim>\<open>validate_semantic_root_references\<close> and the last loops of \<^verbatim>\<open>structural_preflight\<close> visit them.
\<close>

datatype semantic_root = RootLevel level_id | RootTerm term_id

fun decl_constraints :: "decl_payload \<Rightarrow> universe_constraint_spec list" where
  "decl_constraints (PAxiomConstrained n ups ucs t) = ucs"
| "decl_constraints (PDefConstrained n ups ucs t v r) = ucs"
| "decl_constraints (PTheoremConstrained n ups ucs t p op) = ucs"
| "decl_constraints (PInductiveConstrained n ups ucs ps is s cs r) = ucs"
| "decl_constraints (PMutualInductiveBlock n ups ucs is) = ucs"
| "decl_constraints _ = []"

definition constraint_roots :: "universe_constraint_spec list \<Rightarrow> semantic_root list" where
  "constraint_roots ucs = concat (map (\<lambda>c. [RootLevel (ucs_lhs c), RootLevel (ucs_rhs c)]) ucs)"

definition inductive_roots ::
    "binder_type list \<Rightarrow> binder_type list \<Rightarrow> level_id \<Rightarrow> constructor_spec list \<Rightarrow>
     recursor_spec option \<Rightarrow> semantic_root list" where
  "inductive_roots ps is s cs r =
     map (\<lambda>b. RootTerm (bt_ty b)) (ps @ is) @ [RootLevel s] @ map (\<lambda>c. RootTerm (cs_ty c)) cs @
     (case r of None \<Rightarrow> [] | Some r \<Rightarrow> [RootTerm (rs_ty r)])"

fun payload_roots :: "decl_payload \<Rightarrow> semantic_root list" where
  "payload_roots (PAxiom n ups t) = [RootTerm t]"
| "payload_roots (PAxiomConstrained n ups ucs t) = [RootTerm t]"
| "payload_roots (PDef n ups t v r) = [RootTerm t, RootTerm v]"
| "payload_roots (PDefConstrained n ups ucs t v r) = [RootTerm t, RootTerm v]"
| "payload_roots (PTheorem n ups t p op) = [RootTerm t, RootTerm p]"
| "payload_roots (PTheoremConstrained n ups ucs t p op) = [RootTerm t, RootTerm p]"
| "payload_roots (PInductive n ups ps is s cs r) = inductive_roots ps is s cs r"
| "payload_roots (PInductiveConstrained n ups ucs ps is s cs r) = inductive_roots ps is s cs r"
| "payload_roots (PMutualInductiveBlock n ups ucs is) =
     concat (map (\<lambda>i. inductive_roots (mis_params i) (mis_indices i) (mis_sort i)
       (mis_constructors i) (mis_recursor i)) is)"

definition export_roots :: "export_entry \<Rightarrow> semantic_root list" where
  "export_roots e = constraint_roots (ee_universe_constraints e) @ [RootTerm (ee_ty e)] @
     (case ee_body e of None \<Rightarrow> [] | Some b \<Rightarrow> [RootTerm b])"

definition semantic_roots :: "module_cert \<Rightarrow> semantic_root list" where
  "semantic_roots cert =
     concat (map (\<lambda>d. constraint_roots (decl_constraints (dc_decl d)) @ payload_roots (dc_decl d))
       (mc_declarations cert)) @
     concat (map export_roots (mc_export_block cert))"

definition validate_root :: "module_cert \<Rightarrow> semantic_root \<Rightarrow> unit cresult" where
  "validate_root cert root =
     (case root of
        RootLevel l \<Rightarrow> if unat l < length (mc_level_table cert) then Inr () else Inl DecodeError
      | RootTerm t \<Rightarrow> if unat t < length (mc_term_table cert) then Inr () else Inl DecodeError)"

definition validate_semantic_root_references :: "module_cert \<Rightarrow> unit cresult" where
  "validate_semantic_root_references cert = check_all (validate_root cert) (semantic_roots cert)"

section \<open>Depth and expansion\<close>

definition checked_child :: "nat list \<Rightarrow> usize \<Rightarrow> nat cresult" where
  "checked_child values index = ok_or DecodeError (get_at values (unat index))"

definition capped_sum :: "nat list \<Rightarrow> nat \<Rightarrow> nat" where
  "capped_sum values cap = foldl (\<lambda>total v. min (saturating_add total v) cap) 0 values"

definition expansion_cap :: nat where
  "expansion_cap = max_root_expanded_nodes + 1"

record table_costs =
  tc_depths :: "nat list"
  tc_expansions :: "nat list"
  tc_depth_exceeded :: bool

definition push_cost :: "nat \<Rightarrow> nat \<Rightarrow> table_costs \<Rightarrow> table_costs" where
  "push_cost depth expansion s =
     \<lparr>tc_depths = tc_depths s @ [depth], tc_expansions = tc_expansions s @ [expansion],
      tc_depth_exceeded = (tc_depth_exceeded s \<or> depth > max_structural_depth)\<rparr>"

definition level_pair_cost :: "nat \<Rightarrow> level_id \<Rightarrow> level_id \<Rightarrow> table_costs \<Rightarrow> (nat \<times> nat) cresult" where
  "level_pair_cost index l r s =
     (if unat l \<ge> index \<or> unat r \<ge> index then Inl DecodeError
      else rbind (checked_child (tc_depths s) l) (\<lambda>dl.
        rbind (checked_child (tc_depths s) r) (\<lambda>dr.
        rbind (checked_child (tc_expansions s) l) (\<lambda>el.
        rbind (checked_child (tc_expansions s) r) (\<lambda>er.
        Inr (saturating_add (max dl dr) 1, capped_sum [1, el, er] expansion_cap))))))"

definition level_node_cost ::
    "module_cert \<Rightarrow> nat \<Rightarrow> level_node \<Rightarrow> table_costs \<Rightarrow> (nat \<times> nat) cresult" where
  "level_node_cost cert index level s =
     (case level of
        LNZero \<Rightarrow> Inr (1, 1)
      | LNParam name \<Rightarrow>
          if unat name \<ge> length (mc_name_table cert) then Inl DecodeError else Inr (1, 1)
      | LNSucc inner \<Rightarrow>
          if unat inner \<ge> index then Inl DecodeError
          else rbind (checked_child (tc_depths s) inner) (\<lambda>d.
            rbind (checked_child (tc_expansions s) inner) (\<lambda>e.
            Inr (saturating_add d 1, min (saturating_add e 1) expansion_cap)))
      | LNMax l r \<Rightarrow> level_pair_cost index l r s
      | LNIMax l r \<Rightarrow> level_pair_cost index l r s)"

definition level_step :: "module_cert \<Rightarrow> nat \<times> level_node \<Rightarrow> table_costs \<Rightarrow> table_costs cresult" where
  "level_step cert il s =
     rbind (level_node_cost cert (fst il) (snd il) s) (\<lambda>(depth, expansion).
     Inr (push_cost depth expansion s))"

definition no_costs :: table_costs where
  "no_costs = \<lparr>tc_depths = [], tc_expansions = [], tc_depth_exceeded = False\<rparr>"

definition level_costs :: "module_cert \<Rightarrow> table_costs cresult" where
  "level_costs cert = fold_res (level_step cert) (enumerate 0 (mc_level_table cert)) no_costs"

definition validate_global_ref_shape :: "module_cert \<Rightarrow> global_ref \<Rightarrow> unit cresult" where
  "validate_global_ref_shape cert g =
     (let valid = (case g of
        GBuiltin name _ \<Rightarrow> unat name < length (mc_name_table cert)
      | GImported import_index name _ \<Rightarrow>
          unat import_index < length (mc_imports cert) \<and> unat name < length (mc_name_table cert)
      | GLocal decl_index \<Rightarrow> unat decl_index < length (mc_declarations cert)
      | GLocalGenerated decl_index name \<Rightarrow>
          unat decl_index < length (mc_declarations cert) \<and> unat name < length (mc_name_table cert))
      in if valid then Inr () else Inl DecodeError)"

primrec term_children :: "term_node \<Rightarrow> term_id list" where
  "term_children (TNSort l) = []"
| "term_children (TNBVar i) = []"
| "term_children (TNConst g ls) = []"
| "term_children (TNApp f a) = [f, a]"
| "term_children (TNLam t b) = [t, b]"
| "term_children (TNPi t b) = [t, b]"

primrec level_children :: "term_node \<Rightarrow> level_id list" where
  "level_children (TNSort l) = [l]"
| "level_children (TNBVar i) = []"
| "level_children (TNConst g ls) = ls"
| "level_children (TNApp f a) = []"
| "level_children (TNLam t b) = []"
| "level_children (TNPi t b) = []"

definition max_child :: "nat list \<Rightarrow> usize \<Rightarrow> nat \<Rightarrow> nat cresult" where
  "max_child depths child d = rbind (checked_child depths child) (\<lambda>c. Inr (max d c))"

text \<open>The expansions of the children are indexed only after the indices have been checked.\<close>

definition term_node_cost ::
    "module_cert \<Rightarrow> table_costs \<Rightarrow> nat \<Rightarrow> term_node \<Rightarrow> table_costs \<Rightarrow> (nat \<times> nat) cresult" where
  "term_node_cost cert levels index t s =
     rbind (case t of TNConst g _ \<Rightarrow> validate_global_ref_shape cert g | _ \<Rightarrow> Inr ()) (\<lambda>_.
     rbind (guard_res (list_ex (\<lambda>child. unat child \<ge> index) (term_children t)) DecodeError) (\<lambda>_.
     rbind (guard_res (list_ex (\<lambda>l. unat l \<ge> length (mc_level_table cert)) (level_children t))
       DecodeError) (\<lambda>_.
     rbind (fold_res (max_child (tc_depths s)) (term_children t) 0) (\<lambda>d.
     rbind (fold_res (max_child (tc_depths levels)) (level_children t) d) (\<lambda>child_depth.
     Inr (saturating_add 1 child_depth,
       capped_sum (1 # map (\<lambda>c. tc_expansions s ! unat c) (term_children t) @
         map (\<lambda>l. tc_expansions levels ! unat l) (level_children t)) expansion_cap))))))"

definition term_step ::
    "module_cert \<Rightarrow> table_costs \<Rightarrow> nat \<times> term_node \<Rightarrow> table_costs \<Rightarrow> table_costs cresult" where
  "term_step cert levels it s =
     rbind (term_node_cost cert levels (fst it) (snd it) s) (\<lambda>(depth, expansion).
     Inr (push_cost depth expansion s))"

definition term_costs :: "module_cert \<Rightarrow> table_costs \<Rightarrow> table_costs cresult" where
  "term_costs cert levels = fold_res (term_step cert levels) (enumerate 0 (mc_term_table cert)) no_costs"

definition add_root :: "nat \<Rightarrow> structural_cost \<Rightarrow> structural_cost cresult" where
  "add_root expansion roots =
     (if expansion > max_root_expanded_nodes
      then Inl (StructuralLimitExceeded RootExpandedNodes max_root_expanded_nodes
             (max_root_expanded_nodes + 1))
      else
        let total = min (saturating_add (sc_certificate_expansion roots) expansion)
              (max_certificate_expanded_nodes + 1) in
        if total > max_certificate_expanded_nodes
        then Inl (StructuralLimitExceeded CertificateExpandedNodes max_certificate_expanded_nodes
               (max_certificate_expanded_nodes + 1))
        else Inr (roots\<lparr>sc_max_root_expansion := max (sc_max_root_expansion roots) expansion,
               sc_certificate_expansion := total\<rparr>))"

text \<open>\<^verbatim>\<open>add_level_root\<close> and \<^verbatim>\<open>add_term_root\<close> have the same body.\<close>

definition add_table_root :: "table_costs \<Rightarrow> usize \<Rightarrow> structural_cost \<Rightarrow> structural_cost cresult" where
  "add_table_root costs root roots =
     rbind (checked_child (tc_depths costs) root) (\<lambda>d.
     rbind (checked_child (tc_expansions costs) root) (\<lambda>e.
     add_root e (roots\<lparr>sc_max_depth := max (sc_max_depth roots) d\<rparr>)))"

definition add_semantic_root ::
    "table_costs \<Rightarrow> table_costs \<Rightarrow> semantic_root \<Rightarrow> structural_cost \<Rightarrow> structural_cost cresult" where
  "add_semantic_root levels terms root roots =
     (case root of RootLevel l \<Rightarrow> add_table_root levels l roots
      | RootTerm t \<Rightarrow> add_table_root terms t roots)"

definition structural_preflight :: "module_cert \<Rightarrow> structural_cost cresult" where
  "structural_preflight cert =
     rbind (validate_counts cert) (\<lambda>_.
     rbind (validate_semantic_root_references cert) (\<lambda>_.
     rbind (level_costs cert) (\<lambda>levels.
     rbind (term_costs cert levels) (\<lambda>terms.
     rbind (guard_res (tc_depth_exceeded levels \<or> tc_depth_exceeded terms)
       (StructuralLimitExceeded StructuralDepth max_structural_depth (max_structural_depth + 1))) (\<lambda>_.
     fold_res (add_semantic_root levels terms) (semantic_roots cert)
       \<lparr>sc_max_depth = foldl max 0 (tc_depths levels @ tc_depths terms),
        sc_max_root_expansion = 0, sc_certificate_expansion = 0\<rparr>)))))"

section \<open>Audit and closure\<close>

record certificate_structural_audit =
  ca_module :: cname
  ca_export_hash :: hash
  ca_certificate_hash :: hash
  ca_direct_imports :: "import_entry list"
  ca_certificate_bytes :: nat
  ca_imports :: nat
  ca_name_table_entries :: nat
  ca_level_table_nodes :: nat
  ca_term_table_nodes :: nat
  ca_declarations :: nat
  ca_exports :: nat
  ca_nested_vector_entries :: nat
  ca_structural_depth :: nat
  ca_root_expanded_nodes :: nat
  ca_certificate_expanded_nodes :: nat

definition structural_audit :: "module_cert \<Rightarrow> nat \<Rightarrow> nat \<Rightarrow> certificate_structural_audit cresult" where
  "structural_audit cert certificate_bytes decoded_core_feature_count =
     rbind (structural_preflight cert) (\<lambda>cost.
     Inr \<lparr>ca_module = hdr_module (mc_header cert),
       ca_export_hash = mh_export_hash (mc_hashes cert),
       ca_certificate_hash = mh_certificate_hash (mc_hashes cert),
       ca_direct_imports = mc_imports cert, ca_certificate_bytes = certificate_bytes,
       ca_imports = length (mc_imports cert), ca_name_table_entries = length (mc_name_table cert),
       ca_level_table_nodes = length (mc_level_table cert),
       ca_term_table_nodes = length (mc_term_table cert),
       ca_declarations = length (mc_declarations cert), ca_exports = length (mc_export_block cert),
       ca_nested_vector_entries = max (max_nested_count cert) decoded_core_feature_count,
       ca_structural_depth = sc_max_depth cost,
       ca_root_expanded_nodes = sc_max_root_expansion cost,
       ca_certificate_expanded_nodes = sc_certificate_expansion cost\<rparr>)"

definition validate_decoded_module_cert_structural_limits :: "module_cert \<Rightarrow> unit cresult" where
  "validate_decoded_module_cert_structural_limits cert =
     rbind (structural_preflight cert) (\<lambda>_. Inr ())"

definition audit_certificate_structural_limits :: "byte list \<Rightarrow> certificate_structural_audit cresult" where
  "audit_certificate_structural_limits bytes =
     (case ensure_certificate_byte_limit bytes of
        Inl e \<Rightarrow> Inl e
      | Inr _ \<Rightarrow>
          (case module_cert_parts_with_import_offsets (new_for_structural_audit bytes) of
             Inl e \<Rightarrow> Inl e
           | Inr ((cert, _), d) \<Rightarrow>
               if \<not> is_done d then Inl DecodeError
               else structural_audit cert (length bytes) (audit_core_feature_count d)))"

text \<open>A summary maps the identities of the modules of a closure to their expansions.\<close>

record structural_identity =
  si_module :: cname
  si_export_hash :: hash
  si_certificate_hash :: hash

type_synonym closure_summary = "(structural_identity \<times> nat) list"

definition closure_insert ::
    "structural_identity \<times> nat \<Rightarrow> closure_summary \<Rightarrow> closure_summary cresult" where
  "closure_insert entry modules =
     (let modules' = AList.update (fst entry) (snd entry) modules in
      case map_of modules (fst entry) of
        None \<Rightarrow> Inr modules'
      | Some previous \<Rightarrow> if previous \<noteq> snd entry then Inl DecodeError else Inr modules')"

definition merge_closure_summaries ::
    "structural_identity \<Rightarrow> nat \<Rightarrow> closure_summary list \<Rightarrow> closure_summary cresult" where
  "merge_closure_summaries current current_expansion imports =
     rbind (fold_res closure_insert (concat imports) []) (\<lambda>modules.
     rbind (closure_insert (current, current_expansion) modules) (\<lambda>modules.
     if length modules > max_closure_modules
     then Inl (StructuralLimitExceeded ClosureModules max_closure_modules (length modules))
     else if capped_sum (map snd modules) (max_closure_expanded_nodes + 1) > max_closure_expanded_nodes
     then Inl (StructuralLimitExceeded ClosureExpandedNodes max_closure_expanded_nodes
            (max_closure_expanded_nodes + 1))
     else Inr modules))"

definition build_closure_summary ::
    "module_cert \<Rightarrow> structural_cost \<Rightarrow> closure_summary list \<Rightarrow> closure_summary cresult" where
  "build_closure_summary cert cost imports =
     merge_closure_summaries
       \<lparr>si_module = hdr_module (mc_header cert), si_export_hash = mh_export_hash (mc_hashes cert),
        si_certificate_hash = mh_certificate_hash (mc_hashes cert)\<rparr>
       (sc_certificate_expansion cost) imports"

end
