(* ===== verification/Cert_Kernel.thy ===== *)
theory Cert_Kernel
  imports Cert_Structural "HOL-Library.Monad_Syntax"
begin

text \<open>
  From certificates to kernel terms (\<^verbatim>\<open>npa-cert/src/kernel.rs\<close>). \<^verbatim>\<open>level_from_node\<close> and
  \<^verbatim>\<open>expr_from_term\<close> follow the references of the tables; on a table with a cycle they do not
  return, which is the value \<open>None\<close>.

  The structural checks rule that out. They also bound what is unfolded: the depth and the
  size that they compute for a node are those of the level or the term it stands for.
\<close>

section \<open>Names\<close>

definition name_to_string :: "module_cert \<Rightarrow> name_id \<Rightarrow> string cresult" where
  "name_to_string cert name =
     rbind (ok_or DecodeError (get_at (mc_name_table cert) (unat name))) (\<lambda>n. Inr (name_as_dotted n))"

definition universe_names :: "module_cert \<Rightarrow> name_id list \<Rightarrow> string list cresult" where
  "universe_names cert names = traverse (name_to_string cert) names"

fun payload_name :: "decl_payload \<Rightarrow> name_id" where
  "payload_name (PAxiom n ups t) = n"
| "payload_name (PAxiomConstrained n ups ucs t) = n"
| "payload_name (PDef n ups t v r) = n"
| "payload_name (PDefConstrained n ups ucs t v r) = n"
| "payload_name (PTheorem n ups t p op) = n"
| "payload_name (PTheoremConstrained n ups ucs t p op) = n"
| "payload_name (PInductive n ups ps is s cs r) = n"
| "payload_name (PInductiveConstrained n ups ucs ps is s cs r) = n"
| "payload_name (PMutualInductiveBlock n ups ucs is) = n"

definition cert_decl_name :: "module_cert \<Rightarrow> usize \<Rightarrow> string cresult" where
  "cert_decl_name cert decl_index =
     rbind (ok_or DecodeError (get_at (mc_declarations cert) (unat decl_index))) (\<lambda>d.
     name_to_string cert (payload_name (dc_decl d)))"

definition global_ref_name :: "module_cert \<Rightarrow> global_ref \<Rightarrow> string cresult" where
  "global_ref_name cert g =
     (case g of
        GBuiltin name _ \<Rightarrow> name_to_string cert name
      | GImported _ name _ \<Rightarrow> name_to_string cert name
      | GLocal decl_index \<Rightarrow> cert_decl_name cert decl_index
      | GLocalGenerated _ name \<Rightarrow> name_to_string cert name)"

section \<open>Levels and terms\<close>

text \<open>The sequencing of calls that may not return.\<close>

definition obind :: "('e + 'a) option \<Rightarrow> ('a \<Rightarrow> ('e + 'b) option) \<Rightarrow> ('e + 'b) option" where
  "obind m f = Option.bind m (\<lambda>r. case r of Inl e \<Rightarrow> Some (Inl e) | Inr x \<Rightarrow> f x)"

lemma obind_mono [partial_function_mono]:
  assumes "mono_option B" and "\<And>y. mono_option (C y)"
  shows "mono_option (\<lambda>f. obind (B f) (\<lambda>y. C y f))"
  unfolding obind_def
proof (rule bind_mono [OF assms(1)])
  fix r show "mono_option (\<lambda>f. case r of Inl e \<Rightarrow> Some (Inl e) | Inr x \<Rightarrow> C x f)"
    using assms(2) by (cases r) (simp_all add: option.const_mono)
qed

lemma obind_simps [simp]:
  "obind (Some (Inl e)) f = Some (Inl e)"
  "obind (Some (Inr x)) f = f x"
  "obind None f = None"
  by (simp_all add: obind_def)

partial_function (option) level_from_node :: "module_cert \<Rightarrow> level_id \<Rightarrow> (cert_error + level) option" where
  "level_from_node cert l =
     (case get_at (mc_level_table cert) (unat l) of
        None \<Rightarrow> Some (Inl DecodeError)
      | Some n \<Rightarrow>
          (case n of
             LNZero \<Rightarrow> Some (Inr LZero)
           | LNSucc i \<Rightarrow> obind (level_from_node cert i) (\<lambda>a. Some (Inr (LSucc a)))
           | LNMax l r \<Rightarrow> obind (level_from_node cert l) (\<lambda>a.
               obind (level_from_node cert r) (\<lambda>b. Some (Inr (LMax a b))))
           | LNIMax l r \<Rightarrow> obind (level_from_node cert l) (\<lambda>a.
               obind (level_from_node cert r) (\<lambda>b. Some (Inr (LIMax a b))))
           | LNParam name \<Rightarrow> Some (rbind (name_to_string cert name) (\<lambda>s. Inr (LParam s)))))"

primrec levels_from_nodes :: "module_cert \<Rightarrow> level_id list \<Rightarrow> (cert_error + level list) option" where
  "levels_from_nodes cert [] = Some (Inr [])"
| "levels_from_nodes cert (l # ls) =
     obind (level_from_node cert l) (\<lambda>a.
     obind (levels_from_nodes cert ls) (\<lambda>as. Some (Inr (a # as))))"

partial_function (option) expr_from_term :: "module_cert \<Rightarrow> term_id \<Rightarrow> (cert_error + expr) option" where
  "expr_from_term cert t =
     (case get_at (mc_term_table cert) (unat t) of
        None \<Rightarrow> Some (Inl DecodeError)
      | Some n \<Rightarrow>
          (case n of
             TNSort l \<Rightarrow> obind (level_from_node cert l) (\<lambda>a. Some (Inr (Sort a)))
           | TNBVar i \<Rightarrow> Some (Inr (BVar (unat i)))
           | TNConst g ls \<Rightarrow> obind (Some (global_ref_name cert g)) (\<lambda>name.
               obind (levels_from_nodes cert ls) (\<lambda>as. Some (Inr (Const name as))))
           | TNApp f a \<Rightarrow> obind (expr_from_term cert f) (\<lambda>x.
               obind (expr_from_term cert a) (\<lambda>y. Some (Inr (App x y))))
           | TNLam ty b \<Rightarrow> obind (expr_from_term cert ty) (\<lambda>x.
               obind (expr_from_term cert b) (\<lambda>y. Some (Inr (Lam ''_'' x y))))
           | TNPi ty b \<Rightarrow> obind (expr_from_term cert ty) (\<lambda>x.
               obind (expr_from_term cert b) (\<lambda>y. Some (Inr (Pi ''_'' x y))))))"

declare level_from_node.simps [code] expr_from_term.simps [code]

section \<open>Sizes\<close>

primrec level_size :: "level \<Rightarrow> nat" where
  "level_size LZero = 1"
| "level_size (LSucc l) = 1 + level_size l"
| "level_size (LMax l r) = 1 + level_size l + level_size r"
| "level_size (LIMax l r) = 1 + level_size l + level_size r"
| "level_size (LParam n) = 1"

primrec level_depth :: "level \<Rightarrow> nat" where
  "level_depth LZero = 1"
| "level_depth (LSucc l) = 1 + level_depth l"
| "level_depth (LMax l r) = 1 + max (level_depth l) (level_depth r)"
| "level_depth (LIMax l r) = 1 + max (level_depth l) (level_depth r)"
| "level_depth (LParam n) = 1"

primrec expr_size :: "expr \<Rightarrow> nat" where
  "expr_size (Sort l) = 1 + level_size l"
| "expr_size (BVar i) = 1"
| "expr_size (Const n ls) = 1 + sum_list (map level_size ls)"
| "expr_size (App f a) = 1 + expr_size f + expr_size a"
| "expr_size (Lam n t b) = 1 + expr_size t + expr_size b"
| "expr_size (Pi n t b) = 1 + expr_size t + expr_size b"

primrec expr_depth :: "expr \<Rightarrow> nat" where
  "expr_depth (Sort l) = 1 + level_depth l"
| "expr_depth (BVar i) = 1"
| "expr_depth (Const n ls) = 1 + foldr max (map level_depth ls) 0"
| "expr_depth (App f a) = 1 + max (expr_depth f) (expr_depth a)"
| "expr_depth (Lam n t b) = 1 + max (expr_depth t) (expr_depth b)"
| "expr_depth (Pi n t b) = 1 + max (expr_depth t) (expr_depth b)"


section \<open>Saturation\<close>

lemma saturating_add_min: "saturating_add (min usize_max a) b = min usize_max (a + b)"
  "saturating_add b (min usize_max a) = min usize_max (b + a)"
  by (auto simp: saturating_add_def min_def)

lemma capped_sum_from:
  assumes "cap \<le> usize_max"
  shows "foldl (\<lambda>t v. min (saturating_add t v) cap) (min cap a) vs = min cap (a + sum_list vs)"
proof (induction vs arbitrary: a)
  case (Cons v vs)
  have "min (saturating_add (min cap a) v) cap = min cap (a + v)"
    using assms by (auto simp: saturating_add_def min_def)
  with Cons [of "a + v"] show ?case by (simp add: add.assoc)
qed simp

lemma capped_sum_eq: "cap \<le> usize_max \<Longrightarrow> capped_sum vs cap = min cap (sum_list vs)"
  using capped_sum_from [of cap 0 vs] by (simp add: capped_sum_def)

lemma min_sum_list: "min c (a + sum_list (map (\<lambda>x. min c (f x)) xs)) = min c (a + sum_list (map f xs))"
  for c :: nat
proof (induction xs arbitrary: a)
  case (Cons x xs)
  from Cons [of "a + min c (f x)"] Cons [of "a + f x"] show ?case by (auto simp: min_def add.assoc split: if_splits)
qed simp

lemma cap_le: "expansion_cap \<le> usize_max"
  by (simp add: expansion_cap_def struct_limit_defs)

lemma checked_child_Inr: "checked_child vs w = Inr v \<longleftrightarrow> unat w < length vs \<and> v = vs ! unat w"
  by (auto simp: checked_child_def get_at_def)

section \<open>The level table\<close>

text \<open>
  What a table holds up to node \<open>n\<close>: every node stands for a value of which the table has the
  depth and the size.
\<close>

definition tabulated :: "(usize \<Rightarrow> ('e + 'a) option) \<Rightarrow> ('a \<Rightarrow> nat) \<Rightarrow> ('a \<Rightarrow> nat) \<Rightarrow> nat \<Rightarrow> table_costs \<Rightarrow> bool" where
  "tabulated val depth sz n s \<longleftrightarrow> length (tc_depths s) = n \<and> length (tc_expansions s) = n \<and>
     (\<forall>w. unat w < n \<longrightarrow> (\<exists>x. val w = Some (Inr x) \<and>
        tc_depths s ! unat w = min usize_max (depth x) \<and>
        tc_expansions s ! unat w = min expansion_cap (sz x))) \<and>
     (\<not> tc_depth_exceeded s \<longrightarrow> (\<forall>d \<in> set (tc_depths s). d \<le> max_structural_depth))"

lemma tabulatedE:
  assumes "tabulated val depth sz n s" and "unat w < n"
  obtains x where "val w = Some (Inr x)" "tc_depths s ! unat w = min usize_max (depth x)"
    "tc_expansions s ! unat w = min expansion_cap (sz x)"
  using assms unfolding tabulated_def by blast

lemma tabulated_none: "tabulated val depth sz 0 no_costs"
  by (simp add: tabulated_def no_costs_def)

lemma tabulated_push:
  assumes "tabulated val depth sz n s"
    and "\<And>w. unat w = n \<Longrightarrow> val w = Some (Inr x)"
  shows "tabulated val depth sz (Suc n)
    (push_cost (min usize_max (depth x)) (min expansion_cap (sz x)) s)"
proof -
  have "\<exists>y. val w = Some (Inr y) \<and>
      (tc_depths s @ [min usize_max (depth x)]) ! unat w = min usize_max (depth y) \<and>
      (tc_expansions s @ [min expansion_cap (sz x)]) ! unat w = min expansion_cap (sz y)"
    if "unat w < Suc n" for w
  proof (cases "unat w = n")
    case True
    with assms show ?thesis by (auto simp: tabulated_def nth_append)
  next
    case False
    with that have w: "unat w < n" by simp
    from assms(1) w obtain y where "val w = Some (Inr y)" "tc_depths s ! unat w = min usize_max (depth y)"
      "tc_expansions s ! unat w = min expansion_cap (sz y)" by (rule tabulatedE)
    with assms(1) w show ?thesis by (auto simp: tabulated_def nth_append)
  qed
  with assms(1) show ?thesis by (auto simp: tabulated_def push_cost_def)
qed

abbreviation levels_tabulated :: "module_cert \<Rightarrow> nat \<Rightarrow> table_costs \<Rightarrow> bool" where
  "levels_tabulated cert \<equiv> tabulated (level_from_node cert) level_depth level_size"

abbreviation terms_tabulated :: "module_cert \<Rightarrow> nat \<Rightarrow> table_costs \<Rightarrow> bool" where
  "terms_tabulated cert \<equiv> tabulated (expr_from_term cert) expr_depth expr_size"

lemma min_max_usize: "saturating_add (max (min usize_max a) (min usize_max b)) (Suc 0) = min usize_max (Suc (max a b))"
  by (auto simp: saturating_add_def min_def max_def)

lemma level_pair_cost_ok:
  assumes "levels_tabulated cert n s" and "level_pair_cost n l r s = Inr (d, e)"
  obtains a b where "level_from_node cert l = Some (Inr a)" "level_from_node cert r = Some (Inr b)"
    "d = min usize_max (1 + max (level_depth a) (level_depth b))"
    "e = min expansion_cap (1 + level_size a + level_size b)"
proof -
  from assms(2) have lr: "unat l < n" "unat r < n"
    and d: "d = saturating_add (max (tc_depths s ! unat l) (tc_depths s ! unat r)) 1"
    and e: "e = capped_sum [1, tc_expansions s ! unat l, tc_expansions s ! unat r] expansion_cap"
    by (auto simp: level_pair_cost_def rbind_eq_Inr checked_child_Inr split: if_splits)
  from assms(1) lr(1) obtain a where a: "level_from_node cert l = Some (Inr a)"
    "tc_depths s ! unat l = min usize_max (level_depth a)"
    "tc_expansions s ! unat l = min expansion_cap (level_size a)" by (rule tabulatedE)
  from assms(1) lr(2) obtain b where b: "level_from_node cert r = Some (Inr b)"
    "tc_depths s ! unat r = min usize_max (level_depth b)"
    "tc_expansions s ! unat r = min expansion_cap (level_size b)" by (rule tabulatedE)
  have "e = min expansion_cap (1 + level_size a + level_size b)"
    using e a b min_sum_list [of expansion_cap 1 level_size "[a, b]"] by (simp add: capped_sum_eq cap_le)
  with a b d show thesis by (intro that) (simp_all add: min_max_usize)
qed

lemma level_step_ok:
  assumes "levels_tabulated cert n s" and "n < length (mc_level_table cert)"
    and "level_step cert (n, mc_level_table cert ! n) s = Inr s'"
  shows "levels_tabulated cert (Suc n) s'"
proof -
  let ?node = "mc_level_table cert ! n"
  from assms(3) obtain d e where c: "level_node_cost cert n ?node s = Inr (d, e)"
    and s': "s' = push_cost d e s"
    by (auto simp: level_step_def rbind_eq_Inr)
  have at: "get_at (mc_level_table cert) (unat w) = Some ?node" if "unat w = n" for w :: usize
    using assms(2) that by (simp add: get_at_def)
  have "\<exists>x. (\<forall>w. unat w = n \<longrightarrow> level_from_node cert w = Some (Inr x)) \<and>
      d = min usize_max (level_depth x) \<and> e = min expansion_cap (level_size x)"
  proof (cases ?node)
    case LNZero
    with c show ?thesis
      by (intro exI [of _ LZero]) (auto simp: level_from_node.simps at level_node_cost_def struct_limit_defs expansion_cap_def)
  next
    case (LNParam name)
    with c have "name_to_string cert name = Inr (name_as_dotted (mc_name_table cert ! unat name))"
      by (auto simp: level_node_cost_def name_to_string_def get_at_def split: if_splits)
    with LNParam c show ?thesis
      by (intro exI [of _ "LParam (name_as_dotted (mc_name_table cert ! unat name))"])
        (auto simp: level_from_node.simps at level_node_cost_def struct_limit_defs expansion_cap_def
          split: if_splits)
  next
    case (LNSucc i)
    with c have i: "unat i < n" "d = saturating_add (tc_depths s ! unat i) 1"
      "e = min (saturating_add (tc_expansions s ! unat i) 1) expansion_cap"
      by (auto simp: level_node_cost_def rbind_eq_Inr checked_child_Inr split: if_splits)
    from assms(1) i(1) obtain x where "level_from_node cert i = Some (Inr x)"
      "tc_depths s ! unat i = min usize_max (level_depth x)"
      "tc_expansions s ! unat i = min expansion_cap (level_size x)" by (rule tabulatedE)
    with i LNSucc cap_le show ?thesis
      by (intro exI [of _ "LSucc x"]) (auto simp: level_from_node.simps at saturating_add_def min_def)
  next
    case (LNMax l r)
    with c have "level_pair_cost n l r s = Inr (d, e)" by (simp add: level_node_cost_def)
    from assms(1) this obtain a b where "level_from_node cert l = Some (Inr a)"
      "level_from_node cert r = Some (Inr b)"
      "d = min usize_max (1 + max (level_depth a) (level_depth b))"
      "e = min expansion_cap (1 + level_size a + level_size b)" by (rule level_pair_cost_ok)
    with LNMax show ?thesis by (intro exI [of _ "LMax a b"]) (auto simp: level_from_node.simps at)
  next
    case (LNIMax l r)
    with c have "level_pair_cost n l r s = Inr (d, e)" by (simp add: level_node_cost_def)
    from assms(1) this obtain a b where "level_from_node cert l = Some (Inr a)"
      "level_from_node cert r = Some (Inr b)"
      "d = min usize_max (1 + max (level_depth a) (level_depth b))"
      "e = min expansion_cap (1 + level_size a + level_size b)" by (rule level_pair_cost_ok)
    with LNIMax show ?thesis by (intro exI [of _ "LIMax a b"]) (auto simp: level_from_node.simps at)
  qed
  then show ?thesis using tabulated_push [OF assms(1)] unfolding s' by blast
qed

lemma level_costs_tabulated:
  assumes "level_costs cert = Inr s"
  shows "levels_tabulated cert (length (mc_level_table cert)) s"
proof -
  have "levels_tabulated cert (0 + length (mc_level_table cert)) s"
    using assms unfolding level_costs_def
    by (rule fold_res_enumerate) (simp_all add: tabulated_none level_step_ok)
  then show ?thesis by simp
qed


section \<open>The term table\<close>

definition decl_names_in_table :: "module_cert \<Rightarrow> bool" where
  "decl_names_in_table cert \<longleftrightarrow>
     list_all (\<lambda>d. unat (payload_name (dc_decl d)) < length (mc_name_table cert)) (mc_declarations cert)"

lemma global_ref_name_ok:
  assumes "validate_global_ref_shape cert g = Inr u" and "decl_names_in_table cert"
  obtains name where "global_ref_name cert g = Inr name"
  using assms
  by (cases g) (auto simp: validate_global_ref_shape_def global_ref_name_def cert_decl_name_def
      name_to_string_def get_at_def decl_names_in_table_def list_all_length split: if_splits)

lemma max_child_fold:
  "fold_res (max_child ds) cs d = Inr d' \<longleftrightarrow>
     list_all (\<lambda>c. unat c < length ds) cs \<and> d' = foldl max d (map (\<lambda>c. ds ! unat c) cs)"
  by (induction cs arbitrary: d) (auto simp: max_child_def rbind_eq_Inr checked_child_Inr)

lemma foldl_max_min: "foldl max (min c d) (map (\<lambda>x. min c (f x)) xs) = min c (max d (foldr max (map f xs) 0))"
  for c :: nat
proof (induction xs arbitrary: d)
  case (Cons x xs)
  have "max (min c d) (min c (f x)) = min c (max d (f x))" by (simp add: min_max_distrib2)
  with Cons [of "max d (f x)"] show ?case by (simp add: max.assoc)
qed simp

lemma levels_from_nodes_ok:
  assumes "levels_tabulated cert n s" and "list_all (\<lambda>l. unat l < n) ls"
  obtains as where "levels_from_nodes cert ls = Some (Inr as)"
    "map (\<lambda>l. tc_depths s ! unat l) ls = map (\<lambda>a. min usize_max (level_depth a)) as"
    "map (\<lambda>l. tc_expansions s ! unat l) ls = map (\<lambda>a. min expansion_cap (level_size a)) as"
  using assms(2)
proof (induction ls arbitrary: thesis)
  case Nil
  then show ?case by simp
next
  case (Cons l ls)
  from Cons.prems(2) have "unat l < n" by simp
  from assms(1) this obtain a where a: "level_from_node cert l = Some (Inr a)"
    "tc_depths s ! unat l = min usize_max (level_depth a)"
    "tc_expansions s ! unat l = min expansion_cap (level_size a)" by (rule tabulatedE)
  obtain as where "levels_from_nodes cert ls = Some (Inr as)"
    "map (\<lambda>l. tc_depths s ! unat l) ls = map (\<lambda>a. min usize_max (level_depth a)) as"
    "map (\<lambda>l. tc_expansions s ! unat l) ls = map (\<lambda>a. min expansion_cap (level_size a)) as"
    using Cons.IH Cons.prems(2) by auto
  with a show ?case by (intro Cons.prems(1) [of "a # as"]) simp_all
qed

text \<open>The checks of one node, in the order of the loop.\<close>

lemma term_node_costD:
  assumes "term_node_cost cert levels n t s = Inr (d, e)"
  shows "list_all (\<lambda>c. unat c < n) (term_children t)"
    and "list_all (\<lambda>l. unat l < length (mc_level_table cert)) (level_children t)"
    and "d = saturating_add 1 (foldl max 0 (map (\<lambda>c. tc_depths s ! unat c) (term_children t) @
      map (\<lambda>l. tc_depths levels ! unat l) (level_children t)))"
    and "e = min expansion_cap (sum_list (1 # map (\<lambda>c. tc_expansions s ! unat c) (term_children t) @
      map (\<lambda>l. tc_expansions levels ! unat l) (level_children t)))"
    and "\<forall>g ls. t = TNConst g ls \<longrightarrow> (\<exists>u. validate_global_ref_shape cert g = Inr u)"
  using assms
  by (auto simp: term_node_cost_def rbind_eq_Inr max_child_fold capped_sum_eq cap_le
      list_ex_iff list_all_iff not_le split: term_node.splits)

lemma pair_cost_ok:
  assumes "terms_tabulated cert n s" and "list_all (\<lambda>c. unat c < n) [l, r]"
  obtains a b where "expr_from_term cert l = Some (Inr a)" "expr_from_term cert r = Some (Inr b)"
    "saturating_add 1 (max (tc_depths s ! unat l) (tc_depths s ! unat r)) =
       min usize_max (1 + max (expr_depth a) (expr_depth b))"
    "min expansion_cap (Suc (tc_expansions s ! unat l + tc_expansions s ! unat r)) =
       min expansion_cap (1 + expr_size a + expr_size b)"
proof -
  from assms(2) have lr: "unat l < n" "unat r < n" by simp_all
  from assms(1) lr(1) obtain a where a: "expr_from_term cert l = Some (Inr a)"
    "tc_depths s ! unat l = min usize_max (expr_depth a)"
    "tc_expansions s ! unat l = min expansion_cap (expr_size a)" by (rule tabulatedE)
  from assms(1) lr(2) obtain b where b: "expr_from_term cert r = Some (Inr b)"
    "tc_depths s ! unat r = min usize_max (expr_depth b)"
    "tc_expansions s ! unat r = min expansion_cap (expr_size b)" by (rule tabulatedE)
  show thesis
  proof (rule that [OF a(1) b(1)])
    show "saturating_add 1 (max (tc_depths s ! unat l) (tc_depths s ! unat r)) =
        min usize_max (1 + max (expr_depth a) (expr_depth b))"
      unfolding a(2) b(2) by (auto simp: saturating_add_def min_def max_def)
    show "min expansion_cap (Suc (tc_expansions s ! unat l + tc_expansions s ! unat r)) =
        min expansion_cap (1 + expr_size a + expr_size b)"
      unfolding a(3) b(3) using min_sum_list [of expansion_cap 1 expr_size "[a, b]"] by simp
  qed
qed

lemma level_args_ok:
  assumes "levels_tabulated cert n levels" and "list_all (\<lambda>l. unat l < n) ls"
  obtains as where "levels_from_nodes cert ls = Some (Inr as)"
    "saturating_add 1 (foldl max 0 (map (\<lambda>l. tc_depths levels ! unat l) ls)) =
       min usize_max (1 + foldr max (map level_depth as) 0)"
    "min expansion_cap (Suc (sum_list (map (\<lambda>l. tc_expansions levels ! unat l) ls))) =
       min expansion_cap (1 + sum_list (map level_size as))"
proof -
  from assms obtain as where as: "levels_from_nodes cert ls = Some (Inr as)"
    "map (\<lambda>l. tc_depths levels ! unat l) ls = map (\<lambda>a. min usize_max (level_depth a)) as"
    "map (\<lambda>l. tc_expansions levels ! unat l) ls = map (\<lambda>a. min expansion_cap (level_size a)) as"
    by (rule levels_from_nodes_ok)
  from foldl_max_min [of usize_max 0 level_depth as]
  have "foldl max 0 (map (\<lambda>a. min usize_max (level_depth a)) as) =
      min usize_max (foldr max (map level_depth as) 0)" by simp
  with as min_sum_list [of expansion_cap 1 level_size as] show thesis
    by (intro that) (simp_all add: saturating_add_min)
qed


lemma term_node_value:
  assumes s: "terms_tabulated cert n s"
    and levels: "levels_tabulated cert (length (mc_level_table cert)) levels"
    and names: "decl_names_in_table cert"
    and n: "n < length (mc_term_table cert)"
    and c: "term_node_cost cert levels n (mc_term_table cert ! n) s = Inr (d, e)"
  shows "\<exists>x. (\<forall>w. unat w = n \<longrightarrow> expr_from_term cert w = Some (Inr x)) \<and>
      d = min usize_max (expr_depth x) \<and> e = min expansion_cap (expr_size x)"
proof -
  let ?t = "mc_term_table cert ! n"
  note D = term_node_costD [OF c]
  have at: "get_at (mc_term_table cert) (unat w) = Some ?t" if "unat w = n" for w :: usize
    using n that by (simp add: get_at_def)
  have binary: "\<exists>a b. expr_from_term cert l = Some (Inr a) \<and> expr_from_term cert r = Some (Inr b) \<and>
      d = min usize_max (1 + max (expr_depth a) (expr_depth b)) \<and>
      e = min expansion_cap (1 + expr_size a + expr_size b)"
    if t: "term_children ?t = [l, r]" "level_children ?t = []" for l r
    using D(1,3,4) unfolding t by (elim pair_cost_ok [OF s, of l r]) simp
  show ?thesis
  proof (cases ?t)
    case (TNSort l)
    with D(2) have "unat l < length (mc_level_table cert)" by simp
    from levels this obtain a where "level_from_node cert l = Some (Inr a)"
      "tc_depths levels ! unat l = min usize_max (level_depth a)"
      "tc_expansions levels ! unat l = min expansion_cap (level_size a)" by (rule tabulatedE)
    with D(3,4) TNSort show ?thesis
      by (intro exI [of _ "Sort a"])
        (auto simp: expr_from_term.simps at saturating_add_min min_sum_list [of _ "Suc 0" level_size "[a]", simplified])
  next
    case (TNBVar i)
    with D(3,4) show ?thesis
      by (intro exI [of _ "BVar (unat i)"]) (auto simp: expr_from_term.simps at saturating_add_def)
  next
    case (TNConst g ls)
    from D(5) TNConst names obtain name where name: "global_ref_name cert g = Inr name"
      by (blast elim: global_ref_name_ok)
    from D(2) TNConst have "list_all (\<lambda>l. unat l < length (mc_level_table cert)) ls" by simp
    from levels this obtain as where "levels_from_nodes cert ls = Some (Inr as)"
      "saturating_add 1 (foldl max 0 (map (\<lambda>l. tc_depths levels ! unat l) ls)) =
         min usize_max (1 + foldr max (map level_depth as) 0)"
      "min expansion_cap (Suc (sum_list (map (\<lambda>l. tc_expansions levels ! unat l) ls))) =
         min expansion_cap (1 + sum_list (map level_size as))" by (rule level_args_ok)
    with D(3,4) TNConst name show ?thesis
      by (intro exI [of _ "Const name as"]) (auto simp: expr_from_term.simps at)
  next
    case (TNApp l r)
    with binary [of l r] obtain a b where "expr_from_term cert l = Some (Inr a)"
      "expr_from_term cert r = Some (Inr b)" "d = min usize_max (1 + max (expr_depth a) (expr_depth b))"
      "e = min expansion_cap (1 + expr_size a + expr_size b)" by auto
    with TNApp show ?thesis by (intro exI [of _ "App a b"]) (auto simp: expr_from_term.simps at)
  next
    case (TNLam l r)
    with binary [of l r] obtain a b where "expr_from_term cert l = Some (Inr a)"
      "expr_from_term cert r = Some (Inr b)" "d = min usize_max (1 + max (expr_depth a) (expr_depth b))"
      "e = min expansion_cap (1 + expr_size a + expr_size b)" by auto
    with TNLam show ?thesis by (intro exI [of _ "Lam ''_'' a b"]) (auto simp: expr_from_term.simps at)
  next
    case (TNPi l r)
    with binary [of l r] obtain a b where "expr_from_term cert l = Some (Inr a)"
      "expr_from_term cert r = Some (Inr b)" "d = min usize_max (1 + max (expr_depth a) (expr_depth b))"
      "e = min expansion_cap (1 + expr_size a + expr_size b)" by auto
    with TNPi show ?thesis by (intro exI [of _ "Pi ''_'' a b"]) (auto simp: expr_from_term.simps at)
  qed
qed

lemma term_costs_tabulated:
  assumes "term_costs cert levels = Inr s"
    and "levels_tabulated cert (length (mc_level_table cert)) levels" and "decl_names_in_table cert"
  shows "terms_tabulated cert (length (mc_term_table cert)) s"
proof -
  have "terms_tabulated cert (0 + length (mc_term_table cert)) s"
  proof (rule fold_res_enumerate [where P = "terms_tabulated cert", OF assms(1) [unfolded term_costs_def] tabulated_none])
    fix i t t' assume "i < length (mc_term_table cert)" and t: "terms_tabulated cert (0 + i) t"
      and "term_step cert levels (0 + i, mc_term_table cert ! i) t = Inr t'"
    then obtain d e where "term_node_cost cert levels i (mc_term_table cert ! i) t = Inr (d, e)"
      and t': "t' = push_cost d e t"
      by (auto simp: term_step_def rbind_eq_Inr)
    with term_node_value [of cert i t levels d e] t assms(2,3) \<open>i < _\<close>
    obtain x where "\<forall>w. unat w = i \<longrightarrow> expr_from_term cert w = Some (Inr x)"
      "d = min usize_max (expr_depth x)" "e = min expansion_cap (expr_size x)" by auto
    with tabulated_push [of "expr_from_term cert" expr_depth expr_size i t x] t
    show "terms_tabulated cert (Suc (0 + i)) t'" by (simp add: t')
  qed
  then show ?thesis by simp
qed

section \<open>Roots\<close>

text \<open>The value of a root, and what the accumulated costs are.\<close>

definition root_size :: "module_cert \<Rightarrow> semantic_root \<Rightarrow> nat option" where
  "root_size cert root =
     (case root of
        RootLevel l \<Rightarrow> (case level_from_node cert l of Some (Inr a) \<Rightarrow> Some (level_size a) | _ \<Rightarrow> None)
      | RootTerm t \<Rightarrow> (case expr_from_term cert t of Some (Inr x) \<Rightarrow> Some (expr_size x) | _ \<Rightarrow> None))"

lemma add_root_ok:
  assumes "add_root (min expansion_cap n) roots = Inr roots'"
  shows "n \<le> max_root_expanded_nodes"
    and "sc_certificate_expansion roots' = sc_certificate_expansion roots + n"
    and "sc_max_root_expansion roots' = max (sc_max_root_expansion roots) n"
    and "sc_certificate_expansion roots' \<le> max_certificate_expanded_nodes"
    and "sc_max_depth roots' = sc_max_depth roots"
  using assms
  by (auto simp: add_root_def Let_def expansion_cap_def saturating_add_def struct_limit_defs min_def
      split: if_splits)

lemma add_table_root_ok:
  assumes "add_table_root costs w roots = Inr roots'" and "tabulated val depth sz k costs"
  obtains x where "val w = Some (Inr x)" "sz x \<le> max_root_expanded_nodes"
    "sc_certificate_expansion roots' = sc_certificate_expansion roots + sz x"
    "sc_max_root_expansion roots' = max (sc_max_root_expansion roots) (sz x)"
    "sc_certificate_expansion roots' \<le> max_certificate_expanded_nodes"
proof -
  from assms have w: "unat w < k" and add: "add_root (tc_expansions costs ! unat w)
      (roots\<lparr>sc_max_depth := max (sc_max_depth roots) (tc_depths costs ! unat w)\<rparr>) = Inr roots'"
    by (auto simp: add_table_root_def rbind_eq_Inr checked_child_Inr tabulated_def)
  from assms(2) w obtain x where "val w = Some (Inr x)"
    "tc_expansions costs ! unat w = min expansion_cap (sz x)" by (rule tabulatedE)
  with add add_root_ok [of "sz x" _ roots'] show thesis by (intro that [of x]) fastforce+
qed


lemma add_semantic_root_ok:
  assumes "add_semantic_root levels terms root roots = Inr roots'"
    and "levels_tabulated cert m levels" and "terms_tabulated cert n terms"
  obtains k where "root_size cert root = Some k" "k \<le> max_root_expanded_nodes"
    "sc_certificate_expansion roots' = sc_certificate_expansion roots + k"
    "sc_max_root_expansion roots' = max (sc_max_root_expansion roots) k"
    "sc_certificate_expansion roots' \<le> max_certificate_expanded_nodes"
proof (cases root)
  case (RootLevel l)
  with assms(1) have "add_table_root levels l roots = Inr roots'" by (simp add: add_semantic_root_def)
  from this assms(2) show thesis by (rule add_table_root_ok) (rule that, simp_all add: RootLevel root_size_def)
next
  case (RootTerm t)
  with assms(1) have "add_table_root terms t roots = Inr roots'" by (simp add: add_semantic_root_def)
  from this assms(3) show thesis by (rule add_table_root_ok) (rule that, simp_all add: RootTerm root_size_def)
qed

lemma roots_ok:
  assumes "fold_res (add_semantic_root levels terms) roots acc = Inr acc'"
    and "levels_tabulated cert m levels" and "terms_tabulated cert n terms"
  shows "\<exists>ks. map (root_size cert) roots = map Some ks \<and> (\<forall>k \<in> set ks. k \<le> max_root_expanded_nodes) \<and>
    sc_certificate_expansion acc' = sc_certificate_expansion acc + sum_list ks \<and>
    sc_max_root_expansion acc' = foldl max (sc_max_root_expansion acc) ks \<and>
    (ks \<noteq> [] \<longrightarrow> sc_certificate_expansion acc' \<le> max_certificate_expanded_nodes)"
  using assms(1)
proof (induction roots arbitrary: acc)
  case Nil
  then show ?case by (intro exI [of _ "[]"]) simp
next
  case (Cons r roots)
  then obtain acc1 where r: "add_semantic_root levels terms r acc = Inr acc1"
    and rest: "fold_res (add_semantic_root levels terms) roots acc1 = Inr acc'"
    by (auto simp: rbind_eq_Inr)
  from r assms(2,3) obtain k where k: "root_size cert r = Some k" "k \<le> max_root_expanded_nodes"
    "sc_certificate_expansion acc1 = sc_certificate_expansion acc + k"
    "sc_max_root_expansion acc1 = max (sc_max_root_expansion acc) k"
    "sc_certificate_expansion acc1 \<le> max_certificate_expanded_nodes" by (rule add_semantic_root_ok)
  from Cons.IH [OF rest] obtain ks where "map (root_size cert) roots = map Some ks"
    "\<forall>k \<in> set ks. k \<le> max_root_expanded_nodes"
    "sc_certificate_expansion acc' = sc_certificate_expansion acc1 + sum_list ks"
    "sc_max_root_expansion acc' = foldl max (sc_max_root_expansion acc1) ks"
    "ks \<noteq> [] \<longrightarrow> sc_certificate_expansion acc' \<le> max_certificate_expanded_nodes" by auto
  with k show ?case by (intro exI [of _ "k # ks"]) (auto split: list.splits)
qed

lemma preflight_tables:
  assumes "structural_preflight cert = Inr cost" and "decl_names_in_table cert"
  obtains levels terms acc where "levels_tabulated cert (length (mc_level_table cert)) levels"
    "terms_tabulated cert (length (mc_term_table cert)) terms"
    "\<not> tc_depth_exceeded levels" "\<not> tc_depth_exceeded terms"
    "fold_res (add_semantic_root levels terms) (semantic_roots cert) acc = Inr cost"
    "sc_max_root_expansion acc = 0" "sc_certificate_expansion acc = 0"
proof -
  from assms(1) obtain levels terms where l: "level_costs cert = Inr levels"
    and t: "term_costs cert levels = Inr terms"
    and "\<not> tc_depth_exceeded levels" "\<not> tc_depth_exceeded terms"
    and "fold_res (add_semantic_root levels terms) (semantic_roots cert)
       \<lparr>sc_max_depth = foldl max 0 (tc_depths levels @ tc_depths terms),
        sc_max_root_expansion = 0, sc_certificate_expansion = 0\<rparr> = Inr cost"
    unfolding structural_preflight_def rbind_eq_Inr guard_res_eq_Inr by blast
  with level_costs_tabulated [OF l] term_costs_tabulated [OF t level_costs_tabulated [OF l] assms(2)]
  show thesis by (intro that) auto
qed

lemma tabulated_depth:
  assumes "tabulated val depth sz n s" and "\<not> tc_depth_exceeded s" and "unat w < n"
  obtains x where "val w = Some (Inr x)" "depth x \<le> max_structural_depth"
proof -
  from assms(1,3) obtain x where x: "val w = Some (Inr x)" "tc_depths s ! unat w = min usize_max (depth x)"
    by (rule tabulatedE)
  moreover from assms have "tc_depths s ! unat w \<le> max_structural_depth" by (auto simp: tabulated_def)
  ultimately show thesis by (intro that [of x]) (auto simp: struct_limit_defs min_def split: if_splits)
qed

text \<open>
  After \<^verbatim>\<open>structural_preflight\<close> the tables unfold: \<^verbatim>\<open>level_from_node\<close> and
  \<^verbatim>\<open>expr_from_term\<close> return a level or a term for every node, and nothing deeper than the
  structural depth limit. A local reference is resolved through the name of the declaration,
  which the checks do not compare with the name table, hence the hypothesis on these names.
\<close>

theorem preflight_tables_unfold:
  assumes "structural_preflight cert = Inr cost" and "decl_names_in_table cert"
  shows "(unat l < length (mc_level_table cert) \<longrightarrow>
      (\<exists>a. level_from_node cert l = Some (Inr a) \<and> level_depth a \<le> max_structural_depth)) \<and>
    (unat t < length (mc_term_table cert) \<longrightarrow>
      (\<exists>x. expr_from_term cert t = Some (Inr x) \<and> expr_depth x \<le> max_structural_depth))"
  using assms by (rule preflight_tables) (blast elim: tabulated_depth)

text \<open>
  C30: The costs that \<^verbatim>\<open>structural_preflight\<close> returns are the real ones: every level and term
  that declarations and exports refer to unfolds to at most the allowed number of nodes, the
  largest of these numbers and their sum are what it reports, and the sum is within its limit.
\<close>

theorem preflight_cost_exact:
  assumes "structural_preflight cert = Inr cost" and "decl_names_in_table cert"
  shows "\<exists>ks. map (root_size cert) (semantic_roots cert) = map Some ks \<and>
    (\<forall>k \<in> set ks. k \<le> max_root_expanded_nodes) \<and>
    sc_max_root_expansion cost = foldl max 0 ks \<and>
    sc_certificate_expansion cost = sum_list ks \<and> sum_list ks \<le> max_certificate_expanded_nodes"
proof -
  obtain levels terms acc where "levels_tabulated cert (length (mc_level_table cert)) levels"
    "terms_tabulated cert (length (mc_term_table cert)) terms"
    "fold_res (add_semantic_root levels terms) (semantic_roots cert) acc = Inr cost"
    "sc_max_root_expansion acc = 0" "sc_certificate_expansion acc = 0"
    using assms by (rule preflight_tables)
  with roots_ok [of levels terms "semantic_roots cert" acc cost cert] show ?thesis
    by (auto split: if_splits) (metis le0 sum_list.Nil)
qed


section \<open>Materialization\<close>

text \<open>
  The table of shared expressions that replaces the recursive conversion when its budget
  allows it (\<^verbatim>\<open>KernelExprMaterialization\<close>): the selected nodes are built in the order of the
  table, from the nodes built before. A shared subterm is the subterm itself. The planning,
  the budget and the observations decide only whether the table is built.
\<close>

datatype materialization_stop = Capacity | SpeculativeInvariant

definition speculative :: "(cert_error + 'a) option \<Rightarrow> (materialization_stop + 'a) option" where
  "speculative r = map_option (map_err (\<lambda>_. SpeculativeInvariant)) r"

definition materialized_child :: "expr option list \<Rightarrow> term_id \<Rightarrow> materialization_stop + expr" where
  "materialized_child nodes i =
     ok_or SpeculativeInvariant (Option.bind (get_at nodes (unat i)) (\<lambda>x. x))"

definition materialized_expr_from_node ::
    "module_cert \<Rightarrow> expr option list \<Rightarrow> term_node \<Rightarrow> (materialization_stop + expr) option" where
  "materialized_expr_from_node cert nodes node =
     (case node of
        TNSort l \<Rightarrow> obind (speculative (level_from_node cert l)) (\<lambda>a. Some (Inr (Sort a)))
      | TNBVar i \<Rightarrow> Some (Inr (BVar (unat i)))
      | TNConst g ls \<Rightarrow> obind (speculative (Some (global_ref_name cert g))) (\<lambda>name.
          obind (speculative (levels_from_nodes cert ls)) (\<lambda>as. Some (Inr (Const name as))))
      | TNApp f a \<Rightarrow> obind (Some (materialized_child nodes f)) (\<lambda>x.
          obind (Some (materialized_child nodes a)) (\<lambda>y. Some (Inr (App x y))))
      | TNLam ty b \<Rightarrow> obind (Some (materialized_child nodes ty)) (\<lambda>x.
          obind (Some (materialized_child nodes b)) (\<lambda>y. Some (Inr (Lam ''_'' x y))))
      | TNPi ty b \<Rightarrow> obind (Some (materialized_child nodes ty)) (\<lambda>x.
          obind (Some (materialized_child nodes b)) (\<lambda>y. Some (Inr (Pi ''_'' x y)))))"

fun build_forward_loop ::
    "module_cert \<Rightarrow> (nat \<times> nat) list \<Rightarrow> expr option list \<Rightarrow> (materialization_stop + expr option list) option" where
  "build_forward_loop cert [] nodes = Some (Inr nodes)"
| "build_forward_loop cert ((index, selected) # rest) nodes =
     (if selected = 0 then build_forward_loop cert rest nodes
      else if selected \<noteq> 1 then Some (Inl SpeculativeInvariant)
      else obind (Some (ok_or SpeculativeInvariant (get_at (mc_term_table cert) index))) (\<lambda>node.
        obind (materialized_expr_from_node cert nodes node) (\<lambda>x.
        build_forward_loop cert rest (nodes[index := Some x]))))"

definition build_forward ::
    "module_cert \<Rightarrow> nat list \<Rightarrow> expr option list \<Rightarrow> (materialization_stop + expr option list) option" where
  "build_forward cert selection nodes =
     (if length selection \<noteq> length nodes \<or> length nodes \<noteq> length (mc_term_table cert)
      then Some (Inl SpeculativeInvariant)
      else build_forward_loop cert (enumerate 0 selection) nodes)"

text \<open>\<^verbatim>\<open>KernelTermConversion\<close>: the recursive conversion or a table.\<close>

datatype term_conversion = Legacy | Materialized "expr option list"

definition root_expr :: "module_cert \<Rightarrow> term_conversion \<Rightarrow> term_id \<Rightarrow> (cert_error + expr) option" where
  "root_expr cert terms i =
     (case terms of
        Legacy \<Rightarrow> expr_from_term cert i
      | Materialized nodes \<Rightarrow>
          Some (ok_or DecodeError (Option.bind (get_at nodes (unat i)) (\<lambda>x. x))))"

text \<open>What a table of expressions means: a filled slot holds the term of its node.\<close>

definition nodes_sound :: "module_cert \<Rightarrow> expr option list \<Rightarrow> bool" where
  "nodes_sound cert nodes \<longleftrightarrow> length nodes = length (mc_term_table cert) \<and>
     (\<forall>w x. unat w < length nodes \<longrightarrow> nodes ! unat w = Some x \<longrightarrow> expr_from_term cert w = Some (Inr x))"

lemma obind_Inr: "obind m f = Some (Inr y) \<longleftrightarrow> (\<exists>x. m = Some (Inr x) \<and> f x = Some (Inr y))"
  by (cases m) (auto simp: obind_def split: sum.splits)

lemma speculative_Inr [simp]: "speculative r = Some (Inr x) \<longleftrightarrow> r = Some (Inr x)"
  by (auto simp: speculative_def)

lemma materialized_child_Inr:
  "materialized_child nodes i = Inr x \<longleftrightarrow> unat i < length nodes \<and> nodes ! unat i = Some x"
  by (auto simp: materialized_child_def get_at_def bind_eq_Some_conv split: if_splits)

lemma node_sound:
  assumes "nodes_sound cert nodes" and "materialized_expr_from_node cert nodes t = Some (Inr x)"
    and "get_at (mc_term_table cert) (unat w) = Some t"
  shows "expr_from_term cert w = Some (Inr x)"
  using assms
  by (subst expr_from_term.simps)
    (auto simp: materialized_expr_from_node_def nodes_sound_def obind_Inr materialized_child_Inr
      split: term_node.splits)

lemma update_sound:
  assumes "nodes_sound cert nodes" and "materialized_expr_from_node cert nodes t = Some (Inr x)"
    and "get_at (mc_term_table cert) n = Some t"
  shows "nodes_sound cert (nodes[n := Some x])"
proof -
  have "expr_from_term cert w = Some (Inr x)" if "unat w = n" for w
    using node_sound [OF assms(1,2)] assms(3) that by simp
  moreover from assms(1,3) have "n < length nodes" by (simp add: nodes_sound_def get_at_eq_Some)
  ultimately show ?thesis using assms(1) by (auto simp: nodes_sound_def nth_list_update split: if_splits)
qed

lemma build_forward_loop_sound:
  "build_forward_loop cert sel nodes = Some (Inr nodes') \<Longrightarrow> nodes_sound cert nodes \<Longrightarrow> nodes_sound cert nodes'"
proof (induction cert sel nodes rule: build_forward_loop.induct)
  case (2 cert index selected rest nodes)
  then show ?case by (auto simp: obind_Inr split: if_splits intro: update_sound)
qed simp

lemma materialization_sound:
  assumes "build_forward cert selection (replicate (length (mc_term_table cert)) None) = Some (Inr nodes)"
    and "root_expr cert (Materialized nodes) t = Some (Inr x)"
  shows "root_expr cert Legacy t = Some (Inr x)"
proof -
  have "nodes_sound cert (replicate (length (mc_term_table cert)) None)"
    by (simp add: nodes_sound_def)
  with assms(1) have "nodes_sound cert nodes"
    by (auto simp: build_forward_def split: if_splits dest: build_forward_loop_sound)
  with assms(2) show ?thesis
    by (auto simp: root_expr_def nodes_sound_def get_at_def bind_eq_Some_conv split: if_splits)
qed

text \<open>
  The table of shared expressions changes no answer: when it is built, from an empty table
  and whatever the selection of nodes, a root it returns is the term that the recursive
  conversion computes.
\<close>

theorem materialization_agrees:
  assumes "build_forward cert selection (replicate (length (mc_term_table cert)) None) = Some (Inr nodes)"
    and "root_expr cert (Materialized nodes) t = Some (Inr x)"
  shows "root_expr cert Legacy t = Some (Inr x)"
  using assms by (rule materialization_sound)

section \<open>A certificate with a theorem\<close>

text \<open>The proof of \<open>\<forall>A : Prop. A \<longrightarrow> A\<close>, with shared nodes.\<close>

definition identity_cert :: module_cert where
  "identity_cert = \<lparr>
     mc_header = \<lparr>hdr_format = FORMAT, hdr_core_spec = CORE_SPEC, hdr_module = [''Identity'']\<rparr>,
     mc_imports = [], mc_name_table = [[''Identity''], [''identity'']], mc_level_table = [LNZero],
     mc_term_table = [TNSort 0, TNBVar 0, TNBVar 1, TNLam 1 1, TNPi 1 2, TNLam 0 3, TNPi 0 4],
     mc_declarations = [\<lparr>dc_decl = PTheorem 1 [] 6 5 OpacityOpaque, dc_dependencies = [],
       dc_axiom_dependencies = [],
       dc_hashes = \<lparr>dh_decl_interface_hash = sample_hash, dh_decl_certificate_hash = sample_hash\<rparr>\<rparr>],
     mc_export_block = [\<lparr>ee_name = 1, ee_kind = EKTheorem, ee_universe_params = [],
       ee_universe_constraints = [], ee_ty = 6, ee_body = None, ee_type_hash = sample_hash,
       ee_body_hash = None, ee_reducibility = None, ee_opacity = Some OpacityOpaque,
       ee_decl_interface_hash = sample_hash, ee_axiom_dependencies = []\<rparr>],
     mc_axiom_report = \<lparr>rep_per_declaration = [\<lparr>dar_decl_index = 0, dar_direct_axioms = [],
       dar_transitive_axioms = []\<rparr>], rep_module_axioms = []\<rparr>,
     mc_hashes = \<lparr>mh_export_hash = sample_hash, mh_axiom_report_hash = sample_hash,
       mh_certificate_hash = sample_hash\<rparr>\<rparr>"

lemma identity_preflight: "structural_preflight identity_cert =
    Inr \<lparr>sc_max_depth = 3, sc_max_root_expansion = 6, sc_certificate_expansion = 18\<rparr>"
  by code_simp

lemma identity_names: "decl_names_in_table identity_cert"
  by code_simp

theorem preflight_tables_unfold_witness:
  "\<exists>x. expr_from_term identity_cert 6 = Some (Inr x) \<and> expr_depth x \<le> max_structural_depth"
  using preflight_tables_unfold [OF identity_preflight identity_names, of 0 6]
  by (simp add: identity_cert_def)

theorem preflight_cost_exact_witness:
  "\<exists>ks. map (root_size identity_cert) (semantic_roots identity_cert) = map Some ks \<and> sum_list ks = 18"
  using preflight_cost_exact [OF identity_preflight identity_names] by force

theorem materialization_agrees_witness:
  "root_expr identity_cert Legacy 4 = Some (Inr (Pi ''_'' (BVar 0) (BVar 1)))"
proof (rule materialization_agrees)
  show "build_forward identity_cert [0, 1, 1, 0, 1, 0, 0] (replicate (length (mc_term_table identity_cert)) None) =
      Some (Inr [None, Some (BVar 0), Some (BVar 1), None, Some (Pi ''_'' (BVar 0) (BVar 1)), None, None])"
    by code_simp
  show "root_expr identity_cert (Materialized [None, Some (BVar 0), Some (BVar 1), None,
      Some (Pi ''_'' (BVar 0) (BVar 1)), None, None]) 4 = Some (Inr (Pi ''_'' (BVar 0) (BVar 1)))" by code_simp
qed

end
