(* ===== verification/Cert_Admission.thy ===== *)
theory Cert_Admission
  imports Cert_Kernel Kernel_Machine
begin

text \<open>
  The declarations of a certificate in the kernel (\<^verbatim>\<open>npa-cert/src/kernel.rs\<close> and the last loop
  of \<^verbatim>\<open>npa-cert/src/verify.rs\<close>): a payload becomes a kernel declaration, the declaration is
  admitted to the environment, and an opaque definition is exposed to the declarations that
  follow it.

  The main result is what verification of a module means: from an environment that the kernel
  has reached, the theorems of the module have proofs of their statements.
\<close>

section \<open>Declarations of a certificate\<close>

primrec otraverse :: "('a \<Rightarrow> ('e + 'b) option) \<Rightarrow> 'a list \<Rightarrow> ('e + 'b list) option" where
  "otraverse f [] = Some (Inr [])"
| "otraverse f (x # xs) = obind (f x) (\<lambda>y. obind (otraverse f xs) (\<lambda>ys. Some (Inr (y # ys))))"

definition reducibility_from :: "cert_reducibility \<Rightarrow> reducibility" where
  "reducibility_from r = (case r of CertReducible \<Rightarrow> Reducible | CertOpaque \<Rightarrow> Opaque)"

definition universe_constraint_from_spec ::
    "module_cert \<Rightarrow> universe_constraint_spec \<Rightarrow> (cert_error + universe_constraint) option" where
  "universe_constraint_from_spec cert c =
     obind (level_from_node cert (ucs_lhs c)) (\<lambda>l.
     obind (level_from_node cert (ucs_rhs c)) (\<lambda>r.
     Some (Inr \<lparr>uc_lhs = l, uc_relation = ucs_relation c, uc_rhs = r\<rparr>)))"

definition universe_constraints_from_specs ::
    "module_cert \<Rightarrow> universe_constraint_spec list \<Rightarrow> (cert_error + universe_constraint list) option" where
  "universe_constraints_from_specs cert cs = otraverse (universe_constraint_from_spec cert) cs"

definition universe_constraints_from_decl_payload ::
    "module_cert \<Rightarrow> decl_payload \<Rightarrow> (cert_error + universe_constraint list) option" where
  "universe_constraints_from_decl_payload cert d =
     universe_constraints_from_specs cert (decl_constraints d)"

text \<open>Names of binders: the built-in equality has its own.\<close>

definition param_binder_name :: "bool \<Rightarrow> nat \<Rightarrow> string" where
  "param_binder_name is_eq index =
     (if is_eq \<and> index = 0 then ''A'' else if is_eq \<and> index = 1 then ''lhs''
      else ''p'' @ show_nat index)"

definition index_binder_name :: "bool \<Rightarrow> nat \<Rightarrow> string" where
  "index_binder_name is_eq index = (if is_eq \<and> index = 0 then ''rhs'' else ''i'' @ show_nat index)"

definition binder_from ::
    "module_cert \<Rightarrow> term_conversion \<Rightarrow> (nat \<Rightarrow> string) \<Rightarrow> nat \<times> binder_type \<Rightarrow> (cert_error + bndr) option" where
  "binder_from cert terms name ib =
     obind (root_expr cert terms (bt_ty (snd ib))) (\<lambda>t.
     Some (Inr \<lparr>bndr_name = name (fst ib), bndr_ty = t\<rparr>))"

definition rename_refl :: "expr \<Rightarrow> expr" where
  "rename_refl t =
     (case t of
        Pi _ a (Pi _ b body) \<Rightarrow> Pi ''A'' a (Pi ''x'' b body)
      | Pi _ a body \<Rightarrow> Pi ''A'' a body
      | _ \<Rightarrow> t)"

definition constructor_from ::
    "module_cert \<Rightarrow> term_conversion \<Rightarrow> bool \<Rightarrow> constructor_spec \<Rightarrow> (cert_error + constructor_decl) option" where
  "constructor_from cert terms is_eq c =
     obind (Some (name_to_string cert (cs_name c))) (\<lambda>n.
     obind (root_expr cert terms (cs_ty c)) (\<lambda>t.
     Some (Inr \<lparr>ctor_name = n, ctor_ty = (if is_eq \<and> n = ''Eq.refl'' then rename_refl t else t)\<rparr>)))"

definition recursor_from ::
    "module_cert \<Rightarrow> term_conversion \<Rightarrow> recursor_spec option \<Rightarrow> (cert_error + recursor_decl option) option" where
  "recursor_from cert terms r =
     (case r of
        None \<Rightarrow> Some (Inr None)
      | Some r \<Rightarrow>
          obind (Some (name_to_string cert (rs_name r))) (\<lambda>n.
          obind (Some (universe_names cert (rs_universe_params r))) (\<lambda>ups.
          obind (root_expr cert terms (rs_ty r)) (\<lambda>t.
          Some (Inr (Some \<lparr>rec_name = n, rec_universe_params = ups, rec_ty = t,
            rec_rules = Some \<lparr>minor_start = unat (rrs_minor_start (rs_rules r)),
              major_index = unat (rrs_major_index (rs_rules r))\<rparr>\<rparr>))))))"

definition cert_inductive_type :: "inductive_decl \<Rightarrow> expr" where
  "cert_inductive_type data =
     foldl (\<lambda>t b. Pi (bndr_name b) (bndr_ty b) t) (Sort (ind_sort data))
       (rev (ind_params data @ ind_indices data))"

text \<open>The inductive arms: the level of the sort is converted before the binders.\<close>

definition inductive_from ::
    "module_cert \<Rightarrow> term_conversion \<Rightarrow> decl_payload \<Rightarrow> name_id \<Rightarrow> name_id list \<Rightarrow> binder_type list \<Rightarrow>
     binder_type list \<Rightarrow> level_id \<Rightarrow> constructor_spec list \<Rightarrow> recursor_spec option \<Rightarrow>
     (cert_error + decl) option" where
  "inductive_from cert terms payload n ups ps is s cs r =
     obind (Some (name_to_string cert n)) (\<lambda>name.
     obind (Some (universe_names cert ups)) (\<lambda>us.
     obind (level_from_node cert s) (\<lambda>srt.
     let is_eq = (name = ''Eq'') in
     obind (otraverse (binder_from cert terms (param_binder_name is_eq)) (enumerate 0 ps)) (\<lambda>params.
     obind (otraverse (binder_from cert terms (index_binder_name is_eq)) (enumerate 0 is)) (\<lambda>indices.
     obind (otraverse (constructor_from cert terms is_eq) cs) (\<lambda>ctors.
     obind (recursor_from cert terms r) (\<lambda>rec.
     obind (universe_constraints_from_decl_payload cert payload) (\<lambda>ucs.
     let data = \<lparr>ind_name = name, ind_universe_params = us, ind_universe_constraints = ucs,
       ind_params = params, ind_indices = indices, ind_sort = srt, ind_constructors = ctors,
       ind_recursor = rec\<rparr> in
     Some (Inr (Inductive name us (cert_inductive_type data) data))))))))))"

definition mutual_inductive_from ::
    "module_cert \<Rightarrow> term_conversion \<Rightarrow> name_id list \<Rightarrow> mutual_inductive_spec \<Rightarrow>
     (cert_error + inductive_decl) option" where
  "mutual_inductive_from cert terms ups i =
     obind (Some (name_to_string cert (mis_name i))) (\<lambda>name.
     obind (Some (universe_names cert ups)) (\<lambda>us.
     obind (otraverse (binder_from cert terms (param_binder_name False)) (enumerate 0 (mis_params i))) (\<lambda>params.
     obind (otraverse (binder_from cert terms (index_binder_name False)) (enumerate 0 (mis_indices i))) (\<lambda>indices.
     obind (level_from_node cert (mis_sort i)) (\<lambda>srt.
     obind (otraverse (constructor_from cert terms False) (mis_constructors i)) (\<lambda>ctors.
     obind (recursor_from cert terms (mis_recursor i)) (\<lambda>rec.
     Some (Inr \<lparr>ind_name = name, ind_universe_params = us, ind_universe_constraints = [],
       ind_params = params, ind_indices = indices, ind_sort = srt, ind_constructors = ctors,
       ind_recursor = rec\<rparr>))))))))"

definition decl_payload_to_kernel_decl_with_terms ::
    "module_cert \<Rightarrow> term_conversion \<Rightarrow> decl_payload \<Rightarrow> (cert_error + decl) option" where
  "decl_payload_to_kernel_decl_with_terms cert terms d =
     (case d of
        PAxiom n ups t \<Rightarrow>
          obind (Some (name_to_string cert n)) (\<lambda>name.
          obind (Some (universe_names cert ups)) (\<lambda>us.
          obind (root_expr cert terms t) (\<lambda>ty. Some (Inr (Axiom name us ty)))))
      | PAxiomConstrained n ups ucs t \<Rightarrow>
          obind (Some (name_to_string cert n)) (\<lambda>name.
          obind (Some (universe_names cert ups)) (\<lambda>us.
          obind (universe_constraints_from_specs cert ucs) (\<lambda>cs.
          obind (root_expr cert terms t) (\<lambda>ty. Some (Inr (AxiomConstrained name us cs ty))))))
      | PDef n ups t v red \<Rightarrow>
          obind (Some (name_to_string cert n)) (\<lambda>name.
          obind (Some (universe_names cert ups)) (\<lambda>us.
          obind (root_expr cert terms t) (\<lambda>ty.
          obind (root_expr cert terms v) (\<lambda>val.
          Some (Inr (Def name us ty val (reducibility_from red)))))))
      | PDefConstrained n ups ucs t v red \<Rightarrow>
          obind (Some (name_to_string cert n)) (\<lambda>name.
          obind (Some (universe_names cert ups)) (\<lambda>us.
          obind (universe_constraints_from_specs cert ucs) (\<lambda>cs.
          obind (root_expr cert terms t) (\<lambda>ty.
          obind (root_expr cert terms v) (\<lambda>val.
          Some (Inr (DefConstrained name us cs ty val (reducibility_from red))))))))
      | PTheorem n ups t p _ \<Rightarrow>
          obind (Some (name_to_string cert n)) (\<lambda>name.
          obind (Some (universe_names cert ups)) (\<lambda>us.
          obind (root_expr cert terms t) (\<lambda>ty.
          obind (root_expr cert terms p) (\<lambda>prf. Some (Inr (Theorem name us ty prf))))))
      | PTheoremConstrained n ups ucs t p _ \<Rightarrow>
          obind (Some (name_to_string cert n)) (\<lambda>name.
          obind (Some (universe_names cert ups)) (\<lambda>us.
          obind (universe_constraints_from_specs cert ucs) (\<lambda>cs.
          obind (root_expr cert terms t) (\<lambda>ty.
          obind (root_expr cert terms p) (\<lambda>prf. Some (Inr (TheoremConstrained name us cs ty prf)))))))
      | PInductive n ups ps is s cs r \<Rightarrow> inductive_from cert terms d n ups ps is s cs r
      | PInductiveConstrained n ups ucs ps is s cs r \<Rightarrow> inductive_from cert terms d n ups ps is s cs r
      | PMutualInductiveBlock n ups ucs is \<Rightarrow>
          obind (Some (name_to_string cert n)) (\<lambda>name.
          obind (Some (universe_names cert ups)) (\<lambda>us.
          obind (otraverse (mutual_inductive_from cert terms ups) is) (\<lambda>inductives.
          obind (universe_constraints_from_specs cert ucs) (\<lambda>cs.
          Some (Inr (MutualInductiveBlock name us \<lparr>blk_name = name, blk_universe_params = us,
            blk_universe_constraints = cs, blk_inductives = inductives\<rparr>)))))))"

section \<open>Admission\<close>

fun contains_str :: "string \<Rightarrow> string \<Rightarrow> bool" where
  "contains_str p s \<longleftrightarrow> starts_with p s \<or> (case s of [] \<Rightarrow> False | _ # r \<Rightarrow> contains_str p r)"

text \<open>An inductive is refused with an error of its own when the message is about a recursor.\<close>

definition artifact_error :: "string \<Rightarrow> kerror \<Rightarrow> cert_error" where
  "artifact_error name e =
     (case e of
        InvalidInductive message \<Rightarrow>
          if contains_str ''recursor'' message
          then InductiveGeneratedArtifactMismatch (name_from_dotted name) else Kernel e
      | _ \<Rightarrow> Kernel e)"

definition add_decl_to_env :: "decl \<Rightarrow> env \<Rightarrow> env cresult" where
  "add_decl_to_env d E =
     (case d of
        Axiom n ps t \<Rightarrow> map_err Kernel (add_axiom n ps t E)
      | AxiomConstrained n ps cs t \<Rightarrow> map_err Kernel (add_axiom_with_universe_constraints n ps cs t E)
      | Def n ps t v red \<Rightarrow> map_err Kernel (add_def n ps t v red E)
      | DefConstrained n ps cs t v red \<Rightarrow>
          map_err Kernel (add_def_with_universe_constraints n ps cs t v red E)
      | Theorem n ps t pf \<Rightarrow> map_err Kernel (add_theorem n ps t pf E)
      | TheoremConstrained n ps cs t pf \<Rightarrow>
          map_err Kernel (add_theorem_with_universe_constraints n ps cs t pf E)
      | Inductive _ _ _ data \<Rightarrow> map_err (artifact_error (ind_name data)) (add_inductive data E)
      | MutualInductiveBlock _ _ block \<Rightarrow>
          map_err (artifact_error (blk_name block)) (add_mutual_inductive block E)
      | Constructor n _ _ _ \<Rightarrow> Inl (UnknownDependency (name_from_dotted n))
      | Recursor n _ _ _ _ \<Rightarrow> Inl (UnknownDependency (name_from_dotted n)))"

definition local_opaque_name :: "decl \<Rightarrow> string option" where
  "local_opaque_name d =
     (case d of
        Def n _ _ _ Opaque \<Rightarrow> Some n
      | DefConstrained n _ _ _ _ Opaque \<Rightarrow> Some n
      | _ \<Rightarrow> None)"

definition add_current_module_decl_to_env :: "decl \<Rightarrow> env \<Rightarrow> env cresult" where
  "add_current_module_decl_to_env d E =
     rbind (add_decl_to_env d E) (\<lambda>E.
     case local_opaque_name d of
       None \<Rightarrow> Inr E
     | Some name \<Rightarrow>
         let (shown, E') = expose_checked_opaque_definition E name in
         if \<not> shown then Inl DecodeError else Inr E')"

text \<open>
  The loop over the declarations at the end of
  \<^verbatim>\<open>verify_decoded_module_cert_checks_with_imports_inner\<close>.
\<close>

primrec add_certificate_declarations ::
    "module_cert \<Rightarrow> term_conversion \<Rightarrow> decl_cert list \<Rightarrow> env \<Rightarrow> (cert_error + env) option" where
  "add_certificate_declarations cert terms [] E = Some (Inr E)"
| "add_certificate_declarations cert terms (d # ds) E =
     obind (decl_payload_to_kernel_decl_with_terms cert terms (dc_decl d)) (\<lambda>kd.
     obind (Some (add_current_module_decl_to_env kd E)) (\<lambda>E.
     add_certificate_declarations cert terms ds E))"

text \<open>The built-in declarations that are referenced and not there yet.\<close>

definition add_referenced_builtins_to_env :: "cname list \<Rightarrow> env \<Rightarrow> env cresult" where
  "add_referenced_builtins_to_env referenced E =
     (let named = (\<lambda>ns. list_ex (\<lambda>name. name_as_dotted name \<in> set ns) referenced);
          needs_nat = named [''Nat'', ''Nat.zero'', ''Nat.succ'', ''Nat.rec''];
          needs_eq = named [''Eq'', ''Eq.refl'', ''Eq.rec''];
          needs_eq_rec = named [''Eq.rec''] in
      rbind (if needs_nat \<and> decls E ''Nat'' = None then map_err Kernel (add_inductive nat_inductive E)
             else Inr E) (\<lambda>E.
      rbind (if needs_eq \<and> decls E ''Eq'' = None then map_err Kernel (add_inductive eq_inductive E)
             else Inr E) (\<lambda>E.
      if needs_eq_rec \<and> decls E ''Eq.rec'' = None
      then map_err Kernel (add_axiom ''Eq.rec'' [''u'', ''v'']
             (eq_rec_type (LParam ''u'') (LParam ''v'')) E)
      else Inr E)))"


section \<open>Admission of a certificate is a sequence of requests\<close>

fun decl_requests :: "decl \<Rightarrow> request list" where
  "decl_requests (Axiom n ps t) = [AddAxiom n ps [] t]"
| "decl_requests (AxiomConstrained n ps cs t) = [AddAxiom n ps cs t]"
| "decl_requests (Def n ps t v Reducible) = [AddDef n ps [] t v Reducible]"
| "decl_requests (Def n ps t v Opaque) = [AddDef n ps [] t v Opaque, Expose n]"
| "decl_requests (DefConstrained n ps cs t v Reducible) = [AddDef n ps cs t v Reducible]"
| "decl_requests (DefConstrained n ps cs t v Opaque) = [AddDef n ps cs t v Opaque, Expose n]"
| "decl_requests (Theorem n ps t pf) = [AddTheorem n ps [] t pf]"
| "decl_requests (TheoremConstrained n ps cs t pf) = [AddTheorem n ps cs t pf]"
| "decl_requests (Inductive n ps t data) = [AddInductive data]"
| "decl_requests (MutualInductiveBlock n ps block) = [AddMutual block]"
| "decl_requests _ = []"

lemma current_decl_requests:
  "add_current_module_decl_to_env d E = Inr E' \<Longrightarrow> fold_res admit (decl_requests d) E = Inr E'"
  by (cases d rule: decl_requests.cases)
    (auto simp: add_current_module_decl_to_env_def add_decl_to_env_def local_opaque_name_def rbind_eq_Inr
      add_axiom_def add_def_def add_theorem_def Let_def case_prod_beta split: if_splits)

lemma declarations_requests:
  "add_certificate_declarations cert terms ds E = Some (Inr E') \<Longrightarrow>
   \<exists>kds. list_all2 (\<lambda>d kd. decl_payload_to_kernel_decl_with_terms cert terms (dc_decl d) = Some (Inr kd)) ds kds \<and>
     fold_res admit (concat (map decl_requests kds)) E = Inr E'"
proof (induction ds arbitrary: E)
  case (Cons d ds)
  from Cons.prems obtain kd D where kd: "decl_payload_to_kernel_decl_with_terms cert terms (dc_decl d) = Some (Inr kd)"
    and D: "add_current_module_decl_to_env kd E = Inr D"
    and "add_certificate_declarations cert terms ds D = Some (Inr E')"
    by (auto simp: obind_Inr)
  with Cons.IH obtain kds where
    "list_all2 (\<lambda>d kd. decl_payload_to_kernel_decl_with_terms cert terms (dc_decl d) = Some (Inr kd)) ds kds"
    "fold_res admit (concat (map decl_requests kds)) D = Inr E'" by blast
  with kd current_decl_requests [OF D] show ?case
    by (intro exI [of _ "kd # kds"]) (simp add: fold_res_append)
qed simp

section \<open>Small terms\<close>

definition cert_small :: "module_cert \<Rightarrow> bool" where
  "cert_small cert \<longleftrightarrow>
     list_all (\<lambda>t. case t of TNBVar i \<Rightarrow> unat i < idx_limit | _ \<Rightarrow> True) (mc_term_table cert)"

lemma expr_small_result:
  assumes "expr_from_term cert t = Some r"
  shows "cert_small cert \<longrightarrow> (\<forall>x. r = Inr x \<longrightarrow> small x)"
proof (rule expr_from_term.raw_induct
    [where P = "\<lambda>cert t r. cert_small cert \<longrightarrow> (\<forall>x. r = Inr x \<longrightarrow> small x)", OF _ assms])
  fix f cert t r
  assume IH: "\<And>cert t r. f cert t = Some r \<Longrightarrow> cert_small cert \<longrightarrow> (\<forall>x. r = Inr x \<longrightarrow> small x)"
    and body: "(case get_at (mc_term_table cert) (unat t) of None \<Rightarrow> Some (Inl DecodeError)
      | Some n \<Rightarrow>
          (case n of
             TNSort l \<Rightarrow> obind (level_from_node cert l) (\<lambda>a. Some (Inr (Sort a)))
           | TNBVar i \<Rightarrow> Some (Inr (BVar (unat i)))
           | TNConst g ls \<Rightarrow> obind (Some (global_ref_name cert g)) (\<lambda>name.
               obind (levels_from_nodes cert ls) (\<lambda>as. Some (Inr (Const name as))))
           | TNApp fn a \<Rightarrow> obind (f cert fn) (\<lambda>x. obind (f cert a) (\<lambda>y. Some (Inr (App x y))))
           | TNLam ty b \<Rightarrow> obind (f cert ty) (\<lambda>x. obind (f cert b) (\<lambda>y. Some (Inr (Lam ''_'' x y))))
           | TNPi ty b \<Rightarrow> obind (f cert ty) (\<lambda>x. obind (f cert b) (\<lambda>y. Some (Inr (Pi ''_'' x y)))))) = Some r"
  show "cert_small cert \<longrightarrow> (\<forall>x. r = Inr x \<longrightarrow> small x)"
  proof (intro impI allI)
    fix x assume small: "cert_small cert" and "r = Inr x"
    with body obtain n where n: "get_at (mc_term_table cert) (unat t) = Some n" by (auto split: option.splits)
    have IH': "small y" if "f cert s = Some (Inr y)" for s y using IH [OF that] small by simp
    from small n have "case n of TNBVar i \<Rightarrow> unat i < idx_limit | _ \<Rightarrow> True"
      by (auto simp: cert_small_def list_all_length get_at_eq_Some)
    with body \<open>r = Inr x\<close> n show "small x" by (cases n) (auto simp: obind_Inr intro: IH')
  qed
qed

lemma expr_from_term_small: "cert_small cert \<Longrightarrow> expr_from_term cert t = Some (Inr x) \<Longrightarrow> small x"
  using expr_small_result by blast


text \<open>The conversions of terms that the verifier selects from.\<close>

definition conversion_of :: "module_cert \<Rightarrow> term_conversion \<Rightarrow> bool" where
  "conversion_of cert terms \<longleftrightarrow> terms = Legacy \<or>
     (\<exists>selection nodes. terms = Materialized nodes \<and>
        build_forward cert selection (replicate (length (mc_term_table cert)) None) = Some (Inr nodes))"

lemma conversion_expr:
  assumes "conversion_of cert terms" and "root_expr cert terms t = Some (Inr x)"
  shows "expr_from_term cert t = Some (Inr x)"
  using assms materialization_sound by (auto simp: conversion_of_def root_expr_def)

lemma root_small:
  assumes "conversion_of cert terms" and "cert_small cert" and "root_expr cert terms t = Some (Inr x)"
  shows "small x"
  using conversion_expr [OF assms(1,3)] expr_from_term_small [OF assms(2)] by blast

lemma otraverse_Inr:
  "otraverse f xs = Some (Inr ys) \<longleftrightarrow> list_all2 (\<lambda>x y. f x = Some (Inr y)) xs ys"
  by (induction xs arbitrary: ys) (auto simp: obind_Inr list_all2_Cons1)

lemma otraverse_all:
  assumes "otraverse f xs = Some (Inr ys)" and "\<And>x y. f x = Some (Inr y) \<Longrightarrow> P y"
  shows "list_all P ys"
  using assms(1)
proof (induction xs arbitrary: ys)
  case (Cons x xs)
  with assms(2) show ?case by (auto simp: obind_Inr)
qed simp

lemma small_telescope:
  "small (mk_pi_telescope bs body) \<longleftrightarrow> list_all (\<lambda>b. small (bndr_ty b)) bs \<and> small body"
  by (induction bs arbitrary: body rule: rev_induct) (auto simp: mk_pi_telescope_def)

lemma small_rename_refl [simp]: "small (rename_refl t) \<longleftrightarrow> small t"
  by (auto simp: rename_refl_def split: expr.splits)

definition small_roots :: "module_cert \<Rightarrow> term_conversion \<Rightarrow> bool" where
  "small_roots cert terms \<longleftrightarrow> (\<forall>t x. root_expr cert terms t = Some (Inr x) \<longrightarrow> small x)"

lemma conversion_small_roots: "conversion_of cert terms \<Longrightarrow> cert_small cert \<Longrightarrow> small_roots cert terms"
  by (auto simp: small_roots_def intro: root_small)

lemma small_rootsD: "small_roots cert terms \<Longrightarrow> root_expr cert terms t = Some (Inr x) \<Longrightarrow> small x"
  by (simp add: small_roots_def)

lemma binders_small:
  "small_roots cert terms \<Longrightarrow> otraverse (binder_from cert terms name) ibs = Some (Inr bs) \<Longrightarrow>
   list_all (\<lambda>b. small (bndr_ty b)) bs"
  by (erule otraverse_all) (auto simp: binder_from_def obind_Inr intro: small_rootsD)

lemma constructors_small:
  "small_roots cert terms \<Longrightarrow> otraverse (constructor_from cert terms e) cs = Some (Inr cds) \<Longrightarrow>
   list_all (\<lambda>c. small (ctor_ty c)) cds"
  by (erule otraverse_all) (auto simp: constructor_from_def obind_Inr intro: small_rootsD)

lemma recursor_small:
  "small_roots cert terms \<Longrightarrow> recursor_from cert terms r = Some (Inr rd) \<Longrightarrow>
   (case rd of None \<Rightarrow> True | Some r \<Rightarrow> small (rec_ty r))"
  by (auto simp: recursor_from_def obind_Inr intro: small_rootsD split: option.splits)

lemmas conversion_small = binders_small constructors_small recursor_small

lemma mutuals_small:
  assumes "small_roots cert terms" and "otraverse (mutual_inductive_from cert terms ups) is = Some (Inr ds)"
  shows "list_all inductive_small ds"
  using assms(2) by (rule otraverse_all)
    (auto simp: mutual_inductive_from_def obind_Inr inductive_small_def inductive_type_def small_telescope
      dest: conversion_small [OF assms(1)])

lemma inductive_from_small:
  assumes "small_roots cert terms" and "inductive_from cert terms p n ups ps is s cs r = Some (Inr kd)"
  shows "\<exists>name us ty data. kd = Inductive name us ty data \<and> inductive_small data"
  using assms(2)
  by (auto simp: inductive_from_def Let_def obind_Inr inductive_small_def inductive_type_def small_telescope
      dest: conversion_small [OF assms(1)])

lemma requests_small:
  assumes "small_roots cert terms" and "decl_payload_to_kernel_decl_with_terms cert terms p = Some (Inr kd)"
  shows "list_all request_small (decl_requests kd)"
proof (cases p)
  case (PDef n ups t v red)
  with assms(2) show ?thesis
    by (cases red) (auto simp: decl_payload_to_kernel_decl_with_terms_def obind_Inr reducibility_from_def
        intro: small_rootsD [OF assms(1)])
next
  case (PDefConstrained n ups ucs t v red)
  with assms(2) show ?thesis
    by (cases red) (auto simp: decl_payload_to_kernel_decl_with_terms_def obind_Inr reducibility_from_def
        intro: small_rootsD [OF assms(1)])
qed (use assms(2) in \<open>auto simp: decl_payload_to_kernel_decl_with_terms_def obind_Inr block_small_def
    intro: small_rootsD [OF assms(1)] mutuals_small [OF assms(1)]
    dest!: inductive_from_small [OF assms(1)]\<close>)

section \<open>Verified modules\<close>

lemma builtin_requests_allowed: "list_all request_small builtin_requests"
  by code_simp

lemma reachable_admit:
  assumes "reachable request_small E" and "r \<in> set builtin_requests" and "admit r E = Inr E'"
  shows "reachable request_small E'"
  using assms builtin_requests_allowed by (auto simp: list_all_iff intro: reach_step)

lemma builtins_keep_reachable:
  assumes "reachable request_small E" and "add_referenced_builtins_to_env referenced E = Inr E'"
  shows "reachable request_small E'"
proof -
  have nat: "reachable request_small D'" if "reachable request_small D" "add_inductive nat_inductive D = Inr D'" for D D'
    using reachable_admit [of D "AddInductive nat_inductive" D'] that by (simp add: builtin_requests_def)
  have eq: "reachable request_small D'" if "reachable request_small D" "add_inductive eq_inductive D = Inr D'" for D D'
    using reachable_admit [of D "AddInductive eq_inductive" D'] that by (simp add: builtin_requests_def)
  have rec: "reachable request_small D'" if "reachable request_small D"
      "add_axiom ''Eq.rec'' [''u'', ''v''] (eq_rec_type (LParam ''u'') (LParam ''v'')) D = Inr D'" for D D'
    using reachable_admit [of D "AddAxiom ''Eq.rec'' [''u'', ''v''] [] (eq_rec_type (LParam ''u'') (LParam ''v''))" D'] that
    by (simp add: builtin_requests_def add_axiom_def)
  from assms(2) obtain E1 E2 where "E1 = E \<or> add_inductive nat_inductive E = Inr E1"
    and "E2 = E1 \<or> add_inductive eq_inductive E1 = Inr E2"
    and "E' = E2 \<or> add_axiom ''Eq.rec'' [''u'', ''v''] (eq_rec_type (LParam ''u'') (LParam ''v'')) E2 = Inr E'"
    by (auto simp: add_referenced_builtins_to_env_def Let_def rbind_eq_Inr split: if_splits)
  with assms(1) nat eq rec show ?thesis by blast
qed

lemma list_all2_left: "list_all2 P xs ys \<Longrightarrow> x \<in> set xs \<Longrightarrow> \<exists>y \<in> set ys. P x y"
  by (induction rule: list_all2_induct) auto

lemma list_all2_right: "list_all2 P xs ys \<Longrightarrow> y \<in> set ys \<Longrightarrow> \<exists>x \<in> set xs. P x y"
  by (induction rule: list_all2_induct) auto

text \<open>The kernel declarations of a certificate and the requests they make.\<close>

lemma certificate_requests:
  assumes "add_certificate_declarations cert terms (mc_declarations cert) E = Some (Inr E')"
    and "conversion_of cert terms" and "cert_small cert"
  obtains kds where
    "list_all2 (\<lambda>d kd. decl_payload_to_kernel_decl_with_terms cert terms (dc_decl d) = Some (Inr kd))
       (mc_declarations cert) kds"
    "fold_res admit (concat (map decl_requests kds)) E = Inr E'"
    "list_all (\<lambda>kd. list_all request_small (decl_requests kd)) kds"
proof -
  from declarations_requests [OF assms(1)] obtain kds where kds:
    "list_all2 (\<lambda>d kd. decl_payload_to_kernel_decl_with_terms cert terms (dc_decl d) = Some (Inr kd))
       (mc_declarations cert) kds"
    "fold_res admit (concat (map decl_requests kds)) E = Inr E'" by blast
  have "list_all request_small (decl_requests kd)" if "kd \<in> set kds" for kd
  proof -
    from kds(1) that obtain d where "d \<in> set (mc_declarations cert)"
      "decl_payload_to_kernel_decl_with_terms cert terms (dc_decl d) = Some (Inr kd)"
      by (blast dest: list_all2_right)
    with requests_small [OF conversion_small_roots [OF assms(2,3)]] show ?thesis by blast
  qed
  with kds that show thesis by (simp add: list_all_iff)
qed

lemma concat_allowed: "list_all (\<lambda>kd. list_all P (f kd)) kds \<Longrightarrow> list_all P (concat (map f kds))"
  by (auto simp: list_all_iff)

lemma certificate_reachable:
  assumes "reachable request_small E"
    and "add_certificate_declarations cert terms (mc_declarations cert) E = Some (Inr E')"
    and "conversion_of cert terms" and "cert_small cert"
  shows "reachable request_small E'"
  by (rule certificate_requests [OF assms(2-4)]) (blast intro: reachable_fold [OF assms(1)] concat_allowed)

fun theorem_parts :: "decl_payload \<Rightarrow> (name_id \<times> name_id list \<times> universe_constraint_spec list \<times> term_id \<times> term_id) option" where
  "theorem_parts (PTheorem n ups t p op) = Some (n, ups, [], t, p)"
| "theorem_parts (PTheoremConstrained n ups ucs t p op) = Some (n, ups, ucs, t, p)"
| "theorem_parts _ = None"

lemma theorem_conversion:
  assumes "theorem_parts p = Some (n, ups, ucs, t, pf)" and "conversion_of cert terms"
    and "decl_payload_to_kernel_decl_with_terms cert terms p = Some (Inr kd)"
  obtains name us cs stmt pt where "name_to_string cert n = Inr name" "universe_names cert ups = Inr us"
    "universe_constraints_from_specs cert ucs = Some (Inr cs)" "expr_from_term cert t = Some (Inr stmt)"
    "expr_from_term cert pf = Some (Inr pt)" "decl_requests kd = [AddTheorem name us cs stmt pt]"
  using assms conversion_expr [OF assms(2)]
  by (cases p rule: theorem_parts.cases)
    (auto simp: decl_payload_to_kernel_decl_with_terms_def obind_Inr universe_constraints_from_specs_def)

lemma admitted_theorem_typed:
  assumes "fold_res admit (pre @ AddTheorem n ps cs t pf # post) E = Inr E'"
    and "reachable request_small E" and "list_all request_small (pre @ AddTheorem n ps cs t pf # post)"
  shows "\<exists>E0 u l. reachable request_small E0 \<and> env_extends E0 E' \<and> decls E0 n = None \<and> universe_context_new ps cs = Inr u \<and>
    has_type E0 u [] t (Sort l) \<and> has_type E0 u [] pf t \<and> has_type E' u [] t (Sort l) \<and> has_type E' u [] pf t"
proof -
  from assms(1) obtain E1 E2 where E1: "fold_res admit pre E = Inr E1"
    and E2: "admit (AddTheorem n ps cs t pf) E1 = Inr E2" and post: "fold_res admit post E2 = Inr E'"
    by (auto simp: fold_res_append rbind_eq_Inr)
  from assms(2,3) E1 have R1: "reachable request_small E1" by (auto intro: reachable_fold)
  have wf: "env_wf E1" using reachable_env_wf [OF R1] .
  have "fold_res admit (AddTheorem n ps cs t pf # post) E1 = Inr E'" using E2 post by simp
  from kernel.keeps_all [OF wf _ this] assms(3) have ext: "env_extends E1 E'" by simp
  from E2 obtain u l where fresh: "ensure_fresh E1 n = Inr ()" and u: "universe_context_new ps cs = Inr u"
    "expect_sort E1 u ctx_new t = Inr l" "check E1 u ctx_new pf t = Inr ()" by (auto elim: add_theoremE)
  have "type_ok E1 ps cs t" "value_ok E1 ps cs pf t"
    using u wf assms(3) by (auto intro: expect_sort_type_ok check_value_ok)
  then obtain l where typed: "has_type E1 u [] t (Sort l)" "has_type E1 u [] pf t"
    using u(1) by (auto simp: type_ok_def value_ok_def)
  have "groups_ok E1" using wf by (simp add: env_wf_def)
  from has_type_extends [OF typed(1) ext this] has_type_extends [OF typed(2) ext this] typed ext R1 u(1) fresh
  show ?thesis by (auto simp: ensure_fresh_iff)
qed

text \<open>
  What it means that a module is verified. From an environment that the kernel has reached
  (that of the imports), the built-in declarations are added and then the declarations of the
  certificate. If this succeeds, every theorem of the certificate, constrained or not, has a
  name, universe parameters, a statement and a proof in the tables, its constraints have a
  universe context, and in an environment before the name was declared the statement is a type
  and the proof has that type; so they are in the final environment. The bound variables are below
  the limit of the index casts; the terms are converted recursively or through a table of shared
  expressions.
\<close>

theorem certificate_theorems_proved:
  assumes "reachable request_small E"
    and "add_referenced_builtins_to_env builtins E = Inr E1"
    and "add_certificate_declarations cert terms (mc_declarations cert) E1 = Some (Inr E')"
    and "conversion_of cert terms" and "cert_small cert"
    and "d \<in> set (mc_declarations cert)" and "theorem_parts (dc_decl d) = Some (n, ups, ucs, t, p)"
  shows "\<exists>name us cs stmt pf E0 u l. name_to_string cert n = Inr name \<and> universe_names cert ups = Inr us \<and>
    universe_constraints_from_specs cert ucs = Some (Inr cs) \<and>
    expr_from_term cert t = Some (Inr stmt) \<and> expr_from_term cert p = Some (Inr pf) \<and>
    reachable request_small E0 \<and> env_extends E0 E' \<and> decls E0 name = None \<and> universe_context_new us cs = Inr u \<and>
    has_type E0 u [] stmt (Sort l) \<and> has_type E0 u [] pf stmt \<and> has_type E' u [] stmt (Sort l) \<and> has_type E' u [] pf stmt"
proof -
  from assms(1,2) have R: "reachable request_small E1" by (rule builtins_keep_reachable)
  from assms(3-5) obtain kds where kds:
    "list_all2 (\<lambda>d kd. decl_payload_to_kernel_decl_with_terms cert terms (dc_decl d) = Some (Inr kd))
       (mc_declarations cert) kds"
    "fold_res admit (concat (map decl_requests kds)) E1 = Inr E'"
    "list_all (\<lambda>kd. list_all request_small (decl_requests kd)) kds" by (rule certificate_requests)
  from kds(1) assms(6) obtain kd where kd: "kd \<in> set kds"
    "decl_payload_to_kernel_decl_with_terms cert terms (dc_decl d) = Some (Inr kd)"
    by (blast dest: list_all2_left)
  from assms(7,4) kd(2) obtain name us cs stmt pt where th: "name_to_string cert n = Inr name"
    "universe_names cert ups = Inr us" "universe_constraints_from_specs cert ucs = Some (Inr cs)"
    "expr_from_term cert t = Some (Inr stmt)" "expr_from_term cert p = Some (Inr pt)"
    "decl_requests kd = [AddTheorem name us cs stmt pt]" by (rule theorem_conversion)
  from kd(1) obtain xs ys where "kds = xs @ kd # ys" by (blast dest: split_list)
  with th(6) have split: "concat (map decl_requests kds) = concat (map decl_requests xs) @
      AddTheorem name us cs stmt pt # concat (map decl_requests ys)" by simp
  from admitted_theorem_typed [OF kds(2) [unfolded split] R concat_allowed [OF kds(3), unfolded split]] th
  show ?thesis by blast
qed

section \<open>The loop returns\<close>

definition returns :: "'a option \<Rightarrow> bool" where
  "returns m \<longleftrightarrow> m \<noteq> None"

definition resolves :: "module_cert \<Rightarrow> semantic_root \<Rightarrow> bool" where
  "resolves cert root \<longleftrightarrow>
     (case root of RootLevel l \<Rightarrow> returns (level_from_node cert l) | RootTerm t \<Rightarrow> returns (expr_from_term cert t))"

lemma returns_Some [simp]: "returns (Some x)" by (simp add: returns_def)

lemma obind_returns: "returns m \<Longrightarrow> (\<And>x. returns (f x)) \<Longrightarrow> returns (obind m f)"
  by (cases m) (auto simp: returns_def obind_def split: sum.splits)

lemma otraverse_returns: "(\<And>x. x \<in> set xs \<Longrightarrow> returns (f x)) \<Longrightarrow> returns (otraverse f xs)"
  by (induction xs) (auto intro!: obind_returns)

lemma resolves_simps [simp]:
  "resolves cert (RootLevel l) = returns (level_from_node cert l)"
  "resolves cert (RootTerm t) = returns (expr_from_term cert t)"
  by (simp_all add: resolves_def)

lemma constraints_return:
  "list_all (resolves cert) (constraint_roots ucs) \<Longrightarrow> returns (universe_constraints_from_specs cert ucs)"
  unfolding universe_constraints_from_specs_def
  by (rule otraverse_returns)
    (auto simp: constraint_roots_def list_all_iff universe_constraint_from_spec_def intro!: obind_returns)

lemma inductive_parts_return:
  assumes "list_all (resolves cert) (inductive_roots ps is s cs r)"
  shows "returns (level_from_node cert s)"
    and "returns (otraverse (binder_from cert Legacy f) (enumerate 0 ps))"
    and "returns (otraverse (binder_from cert Legacy g) (enumerate 0 is))"
    and "returns (otraverse (constructor_from cert Legacy e) cs)"
    and "returns (recursor_from cert Legacy r)"
proof -
  note roots = assms [unfolded inductive_roots_def]
  from roots show "returns (level_from_node cert s)" by simp
  have ps: "returns (expr_from_term cert (bt_ty b))" if "b \<in> set ps \<or> b \<in> set is" for b
    using roots that by (auto simp: list_all_iff ball_Un)
  show "returns (otraverse (binder_from cert Legacy f) (enumerate 0 ps))"
    by (rule otraverse_returns) (auto simp: binder_from_def root_expr_def in_set_enumerate_eq intro!: obind_returns ps)
  show "returns (otraverse (binder_from cert Legacy g) (enumerate 0 is))"
    by (rule otraverse_returns) (auto simp: binder_from_def root_expr_def in_set_enumerate_eq intro!: obind_returns ps)
  from roots show "returns (otraverse (constructor_from cert Legacy e) cs)"
    by (intro otraverse_returns)
      (auto simp: constructor_from_def root_expr_def list_all_iff ball_Un intro!: obind_returns)
  from roots show "returns (recursor_from cert Legacy r)"
    by (auto simp: recursor_from_def root_expr_def split: option.splits intro!: obind_returns)
qed

lemma inductive_from_returns:
  assumes "list_all (resolves cert) (constraint_roots (decl_constraints p) @ inductive_roots ps is s cs r)"
  shows "returns (inductive_from cert Legacy p n ups ps is s cs r)"
proof -
  from assms have roots: "list_all (resolves cert) (inductive_roots ps is s cs r)"
    and "returns (universe_constraints_from_specs cert (decl_constraints p))"
    by (auto intro: constraints_return)
  then show ?thesis
    unfolding inductive_from_def Let_def universe_constraints_from_decl_payload_def
    by (auto intro!: obind_returns inductive_parts_return [OF roots])
qed

lemma payload_returns:
  assumes "list_all (resolves cert) (constraint_roots (decl_constraints p) @ payload_roots p)"
  shows "returns (decl_payload_to_kernel_decl_with_terms cert Legacy p)"
proof (cases p)
  case (PMutualInductiveBlock n ups ucs "is")
  with assms have roots: "list_all (resolves cert) (inductive_roots (mis_params i) (mis_indices i) (mis_sort i)
      (mis_constructors i) (mis_recursor i))" if "i \<in> set is" for i
    using that by (auto simp: list_all_iff)
  have "returns (mutual_inductive_from cert Legacy ups i)" if "i \<in> set is" for i
    unfolding mutual_inductive_from_def
    by (intro obind_returns inductive_parts_return [OF roots [OF that]]) simp_all
  with PMutualInductiveBlock assms show ?thesis
    by (auto simp: decl_payload_to_kernel_decl_with_terms_def intro!: obind_returns otraverse_returns constraints_return)
next
  case (PInductive n ups ps "is" s cs r)
  with assms inductive_from_returns [of cert p ps "is" s cs r] show ?thesis
    by (simp add: decl_payload_to_kernel_decl_with_terms_def)
next
  case (PInductiveConstrained n ups ucs ps "is" s cs r)
  with assms inductive_from_returns [of cert p ps "is" s cs r] show ?thesis
    by (simp add: decl_payload_to_kernel_decl_with_terms_def)
qed (use assms in \<open>auto simp: decl_payload_to_kernel_decl_with_terms_def root_expr_def resolves_def
    intro!: obind_returns constraints_return\<close>)

lemma declarations_return:
  "(\<And>d. d \<in> set ds \<Longrightarrow> returns (decl_payload_to_kernel_decl_with_terms cert terms (dc_decl d))) \<Longrightarrow>
   returns (add_certificate_declarations cert terms ds E)"
  by (induction ds arbitrary: E) (auto intro!: obind_returns)

lemma preflight_resolves:
  assumes "structural_preflight cert = Inr cost" and "decl_names_in_table cert" and "root \<in> set (semantic_roots cert)"
  shows "resolves cert root"
proof -
  from assms(1,3) have valid: "validate_root cert root = Inr ()"
    by (auto simp: structural_preflight_def rbind_eq_Inr validate_semantic_root_references_def check_all_eq_Inr)
  obtain levels terms where "levels_tabulated cert (length (mc_level_table cert)) levels"
    "terms_tabulated cert (length (mc_term_table cert)) terms"
    using assms(1,2) by (rule preflight_tables)
  with valid show ?thesis
    by (cases root) (auto simp: validate_root_def resolves_def split: if_splits elim: tabulatedE)
qed

text \<open>
  The declarations of a certificate that passed the structural checks are processed to an
  end: the loop returns an environment or an error, from every environment.
\<close>

theorem certificate_admission_returns:
  assumes "structural_preflight cert = Inr cost" and "decl_names_in_table cert"
  shows "\<exists>r. add_certificate_declarations cert Legacy (mc_declarations cert) E = Some r"
proof -
  have "returns (add_certificate_declarations cert Legacy (mc_declarations cert) E)"
    using preflight_resolves [OF assms]
    by (intro declarations_return payload_returns) (auto simp: semantic_roots_def list_all_iff)
  then show ?thesis by (simp add: returns_def)
qed

end
