(* ===== verification/Cert_Hash.thy ===== *)
theory Cert_Hash
  imports Cert_Kernel Universe_Level
begin

text \<open>
  The hashes of certificates (\<^verbatim>\<open>npa-cert/src/hash.rs\<close>): keys and hashes of the nodes of the
  tables, the export block that the declarations determine, interface and certificate hashes
  of declarations, and the canonical bytes of kernel terms and of axiom policies.

  SHA-256 is a parameter \<open>sha\<close>, a function from bytes to a hash.
\<close>

section \<open>Hashing with a domain\<close>

type_synonym digest = "byte list \<Rightarrow> hash"

definition hash_with_domain :: "digest \<Rightarrow> string \<Rightarrow> byte list \<Rightarrow> hash" where
  "hash_with_domain sha domain payload = sha (as_bytes domain @ payload)"

definition DECL_CERT_DOMAIN :: string where "DECL_CERT_DOMAIN = ''NPA-DECL-CERT-0.4.0''"
definition MODULE_EXPORT_DOMAIN :: string where "MODULE_EXPORT_DOMAIN = ''NPA-MODULE-EXPORT-0.2.0''"
definition MODULE_CERT_DOMAIN :: string where "MODULE_CERT_DOMAIN = ''NPA-MODULE-CERT-0.4.0''"

definition declaration_certificate_domain :: "certificate_format_version \<Rightarrow> string" where
  "declaration_certificate_domain v = DECL_CERT_DOMAIN"

definition module_certificate_domain :: "certificate_format_version \<Rightarrow> string" where
  "module_certificate_domain v = MODULE_CERT_DOMAIN"

text \<open>Bytes appended one part after the other, up to the first part that fails.\<close>

definition sequenced :: "byte list cresult list \<Rightarrow> byte list cresult" where
  "sequenced parts = rbind (traverse (\<lambda>p. p) parts) (\<lambda>bs. Inr (concat bs))"

definition hash_at :: "hash list \<Rightarrow> usize \<Rightarrow> hash cresult" where
  "hash_at hashes i = ok_or DecodeError (get_at hashes (unat i))"

section \<open>Keys of the tables\<close>

function encode_uvar_to_key_sink :: "64 word \<Rightarrow> byte list" where
  "encode_uvar_to_key_sink v =
     (let low = (ucast (v AND 0x7F) :: byte); v' = drop_bit 7 v in
      if v' \<noteq> 0 then (low OR 0x80) # encode_uvar_to_key_sink v' else [low])"
  by pat_completeness auto
termination
  by (relation "measure unat") (auto intro: unat_drop_bit_less)

declare encode_uvar_to_key_sink.simps [simp del]

definition encode_string_to_key_sink :: "string \<Rightarrow> byte list" where
  "encode_string_to_key_sink s = encode_uvar_to_key_sink (word_of_nat (length s)) @ as_bytes s"

definition encode_name_to_key_sink :: "cname \<Rightarrow> byte list" where
  "encode_name_to_key_sink name =
     encode_uvar_to_key_sink (word_of_nat (length name)) @ concat (map encode_string_to_key_sink name)"

primrec encode_global_ref_to_key_sink :: "global_ref \<Rightarrow> byte list" where
  "encode_global_ref_to_key_sink (GBuiltin name ih) = 0x03 # encode_uvar_to_key_sink name @ ih"
| "encode_global_ref_to_key_sink (GImported import_index name ih) =
     0x00 # encode_uvar_to_key_sink import_index @ encode_uvar_to_key_sink name @ ih"
| "encode_global_ref_to_key_sink (GLocal decl_index) = 0x01 # encode_uvar_to_key_sink decl_index"
| "encode_global_ref_to_key_sink (GLocalGenerated decl_index name) =
     0x02 # encode_uvar_to_key_sink decl_index @ encode_uvar_to_key_sink name"

definition level_node_key :: "level_node \<Rightarrow> hash list \<Rightarrow> cname list \<Rightarrow> byte list cresult" where
  "level_node_key level child_hashes names =
     (case level of
        LNZero \<Rightarrow> Inr [0x00]
      | LNSucc inner \<Rightarrow> sequenced [Inr [0x01], hash_at child_hashes inner]
      | LNMax lhs rhs \<Rightarrow> sequenced [Inr [0x02], hash_at child_hashes lhs, hash_at child_hashes rhs]
      | LNIMax lhs rhs \<Rightarrow> sequenced [Inr [0x03], hash_at child_hashes lhs, hash_at child_hashes rhs]
      | LNParam name \<Rightarrow> sequenced [Inr [0x04],
          rbind (ok_or DecodeError (get_at names (unat name))) (\<lambda>n. Inr (encode_name_to_key_sink n))])"

definition term_node_key :: "term_node \<Rightarrow> hash list \<Rightarrow> hash list \<Rightarrow> byte list cresult" where
  "term_node_key term child_hashes level_hashes =
     (case term of
        TNSort level \<Rightarrow> sequenced [Inr [0x00], hash_at level_hashes level]
      | TNBVar index \<Rightarrow> Inr (0x01 # encode_uvar_to_key_sink (ucast index))
      | TNConst global_ref levels \<Rightarrow> sequenced ([Inr [0x02], Inr (encode_global_ref_to_key_sink global_ref),
          Inr (encode_uvar_to_key_sink (word_of_nat (length levels)))] @ map (hash_at level_hashes) levels)
      | TNApp fn arg \<Rightarrow> sequenced [Inr [0x03], hash_at child_hashes fn, hash_at child_hashes arg]
      | TNLam ty body \<Rightarrow> sequenced [Inr [0x04], hash_at child_hashes ty, hash_at child_hashes body]
      | TNPi ty body \<Rightarrow> sequenced [Inr [0x05], hash_at child_hashes ty, hash_at child_hashes body])"

definition compute_level_hashes :: "digest \<Rightarrow> level_node list \<Rightarrow> cname list \<Rightarrow> hash list cresult" where
  "compute_level_hashes sha levels names =
     fold_res (\<lambda>level hashes. rbind (level_node_key level hashes names) (\<lambda>payload.
       Inr (hashes @ [hash_with_domain sha ''NPA-LEVEL-0.1'' payload]))) levels []"

definition compute_term_hashes :: "digest \<Rightarrow> term_node list \<Rightarrow> hash list \<Rightarrow> hash list cresult" where
  "compute_term_hashes sha terms level_hashes =
     fold_res (\<lambda>term hashes. rbind (term_node_key term hashes level_hashes) (\<lambda>payload.
       Inr (hashes @ [hash_with_domain sha ''NPA-TERM-0.1'' payload]))) terms []"

definition term_hash :: "digest \<Rightarrow> module_cert \<Rightarrow> term_id \<Rightarrow> hash cresult" where
  "term_hash sha cert term =
     rbind (compute_level_hashes sha (mc_level_table cert) (mc_name_table cert)) (\<lambda>level_hashes.
     rbind (compute_term_hashes sha (mc_term_table cert) level_hashes) (\<lambda>term_hashes.
     hash_at term_hashes term))"

section \<open>The export block\<close>

fun decl_export_universe_constraints :: "decl_payload \<Rightarrow> universe_constraint_spec list" where
  "decl_export_universe_constraints (PAxiomConstrained n ups ucs t) = ucs"
| "decl_export_universe_constraints (PDefConstrained n ups ucs t v r) = ucs"
| "decl_export_universe_constraints (PTheoremConstrained n ups ucs t p op) = ucs"
| "decl_export_universe_constraints (PInductiveConstrained n ups ucs ps is s cs r) = ucs"
| "decl_export_universe_constraints (PMutualInductiveBlock n ups ucs is) = ucs"
| "decl_export_universe_constraints _ = []"

definition term_position :: "term_node list \<Rightarrow> term_node \<Rightarrow> term_id cresult" where
  "term_position terms t = ok_or DecodeError (map_option word_of_nat (position ((=) t) terms))"

definition inductive_export_type_term_id ::
    "term_node list \<Rightarrow> binder_type list \<Rightarrow> binder_type list \<Rightarrow> level_id \<Rightarrow> term_id cresult" where
  "inductive_export_type_term_id terms params indices srt =
     rbind (term_position terms (TNSort srt)) (\<lambda>body.
     fold_res (\<lambda>binder body. term_position terms (TNPi (bt_ty binder) body)) (rev (params @ indices)) body)"

text \<open>\<^verbatim>\<open>term_hashes[i]\<close>.\<close>

definition term_hash_index :: "hash list \<Rightarrow> term_id \<Rightarrow> hash cresult" where
  "term_hash_index term_hashes i = ok_or (CertPanic ''index out of bounds'') (get_at term_hashes (unat i))"

definition export_of ::
    "decl_cert \<Rightarrow> hash list \<Rightarrow> export_kind \<Rightarrow> name_id \<Rightarrow> name_id list \<Rightarrow> term_id \<Rightarrow>
     cert_reducibility option \<Rightarrow> opacity option \<Rightarrow> export_entry cresult" where
  "export_of d term_hashes kind name ups ty red op =
     rbind (term_hash_index term_hashes ty) (\<lambda>type_hash.
     Inr \<lparr>ee_name = name, ee_kind = kind, ee_universe_params = ups,
       ee_universe_constraints = decl_export_universe_constraints (dc_decl d), ee_ty = ty, ee_body = None,
       ee_type_hash = type_hash, ee_body_hash = None, ee_reducibility = red, ee_opacity = op,
       ee_decl_interface_hash = dh_decl_interface_hash (dc_hashes d),
       ee_axiom_dependencies = dc_axiom_dependencies d\<rparr>)"

definition inductive_exports ::
    "decl_cert \<Rightarrow> term_node list \<Rightarrow> hash list \<Rightarrow> name_id \<Rightarrow> name_id list \<Rightarrow> binder_type list \<Rightarrow>
     binder_type list \<Rightarrow> level_id \<Rightarrow> constructor_spec list \<Rightarrow> recursor_spec option \<Rightarrow> export_entry list cresult" where
  "inductive_exports d terms term_hashes name ups params indices srt ctors rec =
     rbind (inductive_export_type_term_id terms params indices srt) (\<lambda>ty.
     rbind (export_of d term_hashes EKInductive name ups ty None None) (\<lambda>e.
     rbind (traverse (\<lambda>c. export_of d term_hashes EKConstructor (cs_name c) ups (cs_ty c) None None) ctors) (\<lambda>es.
     rbind (case rec of None \<Rightarrow> Inr []
            | Some r \<Rightarrow> rbind (export_of d term_hashes EKRecursor (rs_name r) (rs_universe_params r) (rs_ty r)
                None None) (\<lambda>e. Inr [e])) (\<lambda>rs. Inr (e # es @ rs)))))"

text \<open>\<^verbatim>\<open>then_some\<close> takes a value: the hash of the body is looked up for an opaque definition too.\<close>

definition def_export ::
    "decl_cert \<Rightarrow> hash list \<Rightarrow> name_id \<Rightarrow> name_id list \<Rightarrow> term_id \<Rightarrow> term_id \<Rightarrow> cert_reducibility \<Rightarrow>
     export_entry cresult" where
  "def_export d term_hashes name ups ty val red =
     rbind (export_of d term_hashes EKDef name ups ty (Some red) None) (\<lambda>entry.
     rbind (term_hash_index term_hashes val) (\<lambda>value_hash.
     Inr (entry\<lparr>ee_body := (if red = CertReducible then Some val else None),
       ee_body_hash := (if red = CertReducible then Some value_hash else None)\<rparr>)))"

definition decl_exports :: "term_node list \<Rightarrow> hash list \<Rightarrow> decl_cert \<Rightarrow> export_entry list cresult" where
  "decl_exports terms term_hashes d =
     (case dc_decl d of
        PAxiom n ups t \<Rightarrow> traverse (\<lambda>p. p) [export_of d term_hashes EKAxiom n ups t None None]
      | PAxiomConstrained n ups ucs t \<Rightarrow>
          traverse (\<lambda>p. p) [export_of d term_hashes EKAxiom n ups t None None]
      | PDef n ups t v red \<Rightarrow> traverse (\<lambda>p. p) [def_export d term_hashes n ups t v red]
      | PDefConstrained n ups ucs t v red \<Rightarrow> traverse (\<lambda>p. p) [def_export d term_hashes n ups t v red]
      | PTheorem n ups t p op \<Rightarrow>
          traverse (\<lambda>p. p) [export_of d term_hashes EKTheorem n ups t None (Some OpacityOpaque)]
      | PTheoremConstrained n ups ucs t p op \<Rightarrow>
          traverse (\<lambda>p. p) [export_of d term_hashes EKTheorem n ups t None (Some OpacityOpaque)]
      | PInductive n ups ps is s cs r \<Rightarrow> inductive_exports d terms term_hashes n ups ps is s cs r
      | PInductiveConstrained n ups ucs ps is s cs r \<Rightarrow> inductive_exports d terms term_hashes n ups ps is s cs r
      | PMutualInductiveBlock n ups ucs is \<Rightarrow>
          rbind (traverse (\<lambda>i. inductive_exports d terms term_hashes (mis_name i) ups (mis_params i)
            (mis_indices i) (mis_sort i) (mis_constructors i) (mis_recursor i)) is) (\<lambda>ess. Inr (concat ess)))"

definition build_export_block :: "decl_cert list \<Rightarrow> term_node list \<Rightarrow> hash list \<Rightarrow> export_entry list cresult" where
  "build_export_block decls terms term_hashes =
     rbind (traverse (decl_exports terms term_hashes) decls) (\<lambda>ess. Inr (sort_key ee_name (concat ess)))"

section \<open>Interface dependencies\<close>

definition checked_interface :: "global_ref \<Rightarrow> hash \<Rightarrow> dependency_entry cresult" where
  "checked_interface g ih =
     (let embedded = (case g of GBuiltin _ h \<Rightarrow> Some h | GImported _ _ h \<Rightarrow> Some h
        | GLocal _ \<Rightarrow> None | GLocalGenerated _ _ \<Rightarrow> None) in
      case embedded of
        Some h \<Rightarrow> if h \<noteq> ih then Inl (HashMismatch HODeclInterface h ih) else Inr (DInterface g ih)
      | None \<Rightarrow> Inr (DInterface g ih))"

definition inductive_term_ids ::
    "binder_type list \<Rightarrow> binder_type list \<Rightarrow> constructor_spec list \<Rightarrow> recursor_spec option \<Rightarrow> term_id list" where
  "inductive_term_ids params indices ctors rec =
     map bt_ty params @ map bt_ty indices @ map cs_ty ctors @
     (case rec of None \<Rightarrow> [] | Some r \<Rightarrow> [rs_ty r])"

fun interface_term_ids :: "decl_payload \<Rightarrow> term_id list" where
  "interface_term_ids (PAxiom n ups t) = [t]"
| "interface_term_ids (PAxiomConstrained n ups ucs t) = [t]"
| "interface_term_ids (PDef n ups t v r) = t # (if r = CertReducible then [v] else [])"
| "interface_term_ids (PDefConstrained n ups ucs t v r) = t # (if r = CertReducible then [v] else [])"
| "interface_term_ids (PTheorem n ups t p op) = [t]"
| "interface_term_ids (PTheoremConstrained n ups ucs t p op) = [t]"
| "interface_term_ids (PInductive n ups ps is s cs r) = inductive_term_ids ps is cs r"
| "interface_term_ids (PInductiveConstrained n ups ucs ps is s cs r) = inductive_term_ids ps is cs r"
| "interface_term_ids (PMutualInductiveBlock n ups ucs is) =
     concat (map (\<lambda>i. inductive_term_ids (mis_params i) (mis_indices i) (mis_constructors i) (mis_recursor i)) is)"

text \<open>
  The references below a term; the set \<^verbatim>\<open>refs\<close> that the recursion fills is the set of the list.
  On a table with a cycle the recursion does not return.
\<close>

partial_function (option) collect_global_refs_from_term ::
    "term_node list \<Rightarrow> term_id \<Rightarrow> (cert_error + global_ref list) option" where
  "collect_global_refs_from_term terms t =
     (case get_at terms (unat t) of
        None \<Rightarrow> Some (Inl DecodeError)
      | Some n \<Rightarrow>
          (case n of
             TNSort l \<Rightarrow> Some (Inr [])
           | TNBVar i \<Rightarrow> Some (Inr [])
           | TNConst g ls \<Rightarrow> Some (Inr [g])
           | TNApp f a \<Rightarrow> obind (collect_global_refs_from_term terms f) (\<lambda>xs.
               obind (collect_global_refs_from_term terms a) (\<lambda>ys. Some (Inr (xs @ ys))))
           | TNLam ty b \<Rightarrow> obind (collect_global_refs_from_term terms ty) (\<lambda>xs.
               obind (collect_global_refs_from_term terms b) (\<lambda>ys. Some (Inr (xs @ ys))))
           | TNPi ty b \<Rightarrow> obind (collect_global_refs_from_term terms ty) (\<lambda>xs.
               obind (collect_global_refs_from_term terms b) (\<lambda>ys. Some (Inr (xs @ ys))))))"

declare collect_global_refs_from_term.simps [code]

primrec collect_global_refs_from_terms ::
    "term_node list \<Rightarrow> term_id list \<Rightarrow> (cert_error + global_ref list) option" where
  "collect_global_refs_from_terms terms [] = Some (Inr [])"
| "collect_global_refs_from_terms terms (t # ts) =
     obind (collect_global_refs_from_term terms t) (\<lambda>xs.
     obind (collect_global_refs_from_terms terms ts) (\<lambda>ys. Some (Inr (xs @ ys))))"

definition interface_dependencies_for_decl ::
    "decl_payload \<Rightarrow> dependency_entry list \<Rightarrow> term_node list \<Rightarrow> (cert_error + dependency_entry list) option" where
  "interface_dependencies_for_decl decl dependencies terms =
     obind (collect_global_refs_from_terms terms (interface_term_ids decl)) (\<lambda>refs.
     Some (rbind (traverse (\<lambda>d. checked_interface (dependency_global_ref d) (dependency_decl_interface_hash d))
         (filter (\<lambda>d. dependency_global_ref d \<in> set refs) dependencies)) (\<lambda>deps.
       Inr (sort_dedup dependency_entry_order_key deps))))"

section \<open>Hashes of declarations\<close>

definition name_id_bytes :: "cname list \<Rightarrow> name_id \<Rightarrow> byte list cresult" where
  "name_id_bytes names n = rbind (ok_or DecodeError (get_at names (unat n))) (\<lambda>n. Inr (encode_name n))"

definition name_ids_bytes :: "cname list \<Rightarrow> name_id list \<Rightarrow> byte list cresult" where
  "name_ids_bytes names ns =
     sequenced (Inr (encode_uvar (word_of_nat (length ns))) # map (name_id_bytes names) ns)"

definition constraint_hash_bytes :: "hash list \<Rightarrow> universe_constraint_spec list \<Rightarrow> byte list cresult" where
  "constraint_hash_bytes level_hashes cs =
     sequenced (Inr (encode_uvar (word_of_nat (length cs))) #
       map (\<lambda>c. sequenced [hash_at level_hashes (ucs_lhs c), Inr (encode_relation (ucs_relation c)),
         hash_at level_hashes (ucs_rhs c)]) cs)"

definition constructor_hash_bytes ::
    "constructor_spec list \<Rightarrow> hash list \<Rightarrow> cname list \<Rightarrow> byte list cresult" where
  "constructor_hash_bytes cs term_hashes names =
     sequenced (Inr (encode_uvar (word_of_nat (length cs))) #
       map (\<lambda>c. sequenced [name_id_bytes names (cs_name c), hash_at term_hashes (cs_ty c)]) cs)"

definition generated_recursor_signature_payload ::
    "recursor_spec option \<Rightarrow> hash list \<Rightarrow> cname list \<Rightarrow> byte list cresult" where
  "generated_recursor_signature_payload rec term_hashes names =
     (case rec of
        Some r \<Rightarrow> sequenced [Inr [0x01], name_id_bytes names (rs_name r),
          name_ids_bytes names (rs_universe_params r), hash_at term_hashes (rs_ty r)]
      | None \<Rightarrow> Inr [0x00])"

definition generated_recursor_signature_hash ::
    "digest \<Rightarrow> recursor_spec option \<Rightarrow> hash list \<Rightarrow> cname list \<Rightarrow> hash cresult" where
  "generated_recursor_signature_hash sha rec term_hashes names =
     rbind (generated_recursor_signature_payload rec term_hashes names) (\<lambda>payload.
     Inr (hash_with_domain sha ''NPA-GEN-REC-SIG-0.1'' payload))"

definition generated_computation_rule_payload :: "recursor_spec option \<Rightarrow> byte list" where
  "generated_computation_rule_payload rec =
     (case rec of
        Some r \<Rightarrow> 0x01 # encode_uvar (rrs_minor_start (rs_rules r)) @ encode_uvar (rrs_major_index (rs_rules r))
      | None \<Rightarrow> [0x00])"

definition generated_computation_rule_hash :: "digest \<Rightarrow> recursor_spec option \<Rightarrow> hash" where
  "generated_computation_rule_hash sha rec =
     hash_with_domain sha ''NPA-GEN-COMP-RULE-0.1'' (generated_computation_rule_payload rec)"

definition binder_hash_bytes :: "hash list \<Rightarrow> binder_type list \<Rightarrow> byte list cresult" where
  "binder_hash_bytes term_hashes bs =
     sequenced (Inr (encode_uvar (word_of_nat (length bs))) # map (\<lambda>b. hash_at term_hashes (bt_ty b)) bs)"

definition inductive_hash_bytes ::
    "digest \<Rightarrow> hash list \<Rightarrow> hash list \<Rightarrow> cname list \<Rightarrow> binder_type list \<Rightarrow> binder_type list \<Rightarrow> level_id \<Rightarrow>
     constructor_spec list \<Rightarrow> recursor_spec option \<Rightarrow> byte list cresult" where
  "inductive_hash_bytes sha level_hashes term_hashes names params indices srt ctors rec =
     sequenced [binder_hash_bytes term_hashes params, binder_hash_bytes term_hashes indices,
       hash_at level_hashes srt, constructor_hash_bytes ctors term_hashes names,
       generated_recursor_signature_hash sha rec term_hashes names,
       Inr (generated_computation_rule_hash sha rec)]"

definition mutual_hash_bytes ::
    "digest \<Rightarrow> hash list \<Rightarrow> hash list \<Rightarrow> cname list \<Rightarrow> mutual_inductive_spec list \<Rightarrow> byte list cresult" where
  "mutual_hash_bytes sha level_hashes term_hashes names is =
     sequenced (Inr (encode_uvar (word_of_nat (length is))) #
       map (\<lambda>i. sequenced [name_id_bytes names (mis_name i),
         inductive_hash_bytes sha level_hashes term_hashes names (mis_params i) (mis_indices i) (mis_sort i)
           (mis_constructors i) (mis_recursor i)]) is)"

definition decl_interface_payload ::
    "digest \<Rightarrow> decl_payload \<Rightarrow> dependency_entry list \<Rightarrow> axiom_ref list \<Rightarrow> hash list \<Rightarrow> hash list \<Rightarrow>
     cname list \<Rightarrow> byte list cresult" where
  "decl_interface_payload sha decl deps axioms level_hashes term_hashes names =
     (case decl of
        PAxiom n ups t \<Rightarrow> sequenced [Inr [0x00], name_id_bytes names n, name_ids_bytes names ups,
          hash_at term_hashes t, Inr (encode_dependency_entries deps)]
      | PAxiomConstrained n ups ucs t \<Rightarrow> sequenced [Inr [0x10], name_id_bytes names n, name_ids_bytes names ups,
          constraint_hash_bytes level_hashes ucs, hash_at term_hashes t, Inr (encode_dependency_entries deps)]
      | PDef n ups t v red \<Rightarrow> sequenced [Inr [0x01], name_id_bytes names n, name_ids_bytes names ups,
          hash_at term_hashes t, Inr (encode_reducibility red), Inr (encode_dependency_entries deps),
          Inr (encode_axiom_refs axioms), if red = CertReducible then hash_at term_hashes v else Inr []]
      | PDefConstrained n ups ucs t v red \<Rightarrow> sequenced [Inr [0x11], name_id_bytes names n,
          name_ids_bytes names ups, constraint_hash_bytes level_hashes ucs, hash_at term_hashes t,
          Inr (encode_reducibility red), Inr (encode_dependency_entries deps), Inr (encode_axiom_refs axioms),
          if red = CertReducible then hash_at term_hashes v else Inr []]
      | PTheorem n ups t p op \<Rightarrow> sequenced [Inr [0x02], name_id_bytes names n, name_ids_bytes names ups,
          hash_at term_hashes t, Inr (encode_opacity op), Inr (encode_dependency_entries deps),
          Inr (encode_axiom_refs axioms)]
      | PTheoremConstrained n ups ucs t p op \<Rightarrow> sequenced [Inr [0x12], name_id_bytes names n,
          name_ids_bytes names ups, constraint_hash_bytes level_hashes ucs, hash_at term_hashes t,
          Inr (encode_opacity op), Inr (encode_dependency_entries deps), Inr (encode_axiom_refs axioms)]
      | PInductive n ups ps is s cs r \<Rightarrow> sequenced [Inr [0x03], name_id_bytes names n, name_ids_bytes names ups,
          inductive_hash_bytes sha level_hashes term_hashes names ps is s cs r,
          Inr (encode_dependency_entries deps), Inr (encode_axiom_refs axioms)]
      | PInductiveConstrained n ups ucs ps is s cs r \<Rightarrow> sequenced [Inr [0x13], name_id_bytes names n,
          name_ids_bytes names ups, constraint_hash_bytes level_hashes ucs,
          inductive_hash_bytes sha level_hashes term_hashes names ps is s cs r,
          Inr (encode_dependency_entries deps), Inr (encode_axiom_refs axioms)]
      | PMutualInductiveBlock n ups ucs is \<Rightarrow> sequenced [Inr [0x04], name_id_bytes names n,
          name_ids_bytes names ups, constraint_hash_bytes level_hashes ucs,
          mutual_hash_bytes sha level_hashes term_hashes names is,
          Inr (encode_dependency_entries deps), Inr (encode_axiom_refs axioms)])"

definition decl_certificate_payload ::
    "certificate_format_version \<Rightarrow> decl_payload \<Rightarrow> hash \<Rightarrow> dependency_entry list \<Rightarrow> axiom_ref list \<Rightarrow>
     hash list \<Rightarrow> byte list cresult" where
  "decl_certificate_payload version decl interface_hash deps axioms term_hashes =
     (let rest = Inr (encode_dependency_entries_with_format deps version); ax = Inr (encode_axiom_refs axioms) in
      case decl of
        PAxiom n ups t \<Rightarrow> sequenced [Inr interface_hash, ax]
      | PAxiomConstrained n ups ucs t \<Rightarrow> sequenced [Inr interface_hash, ax]
      | PDef n ups t v red \<Rightarrow> sequenced [Inr interface_hash, hash_at term_hashes v, rest, ax]
      | PDefConstrained n ups ucs t v red \<Rightarrow> sequenced [Inr interface_hash, hash_at term_hashes v, rest, ax]
      | PInductive n ups ps is s cs r \<Rightarrow> sequenced [Inr interface_hash, rest, ax]
      | PInductiveConstrained n ups ucs ps is s cs r \<Rightarrow> sequenced [Inr interface_hash, rest, ax]
      | PMutualInductiveBlock n ups ucs is \<Rightarrow> sequenced [Inr interface_hash, rest, ax]
      | PTheorem n ups t p op \<Rightarrow> sequenced [Inr interface_hash, hash_at term_hashes p, rest]
      | PTheoremConstrained n ups ucs t p op \<Rightarrow> sequenced [Inr interface_hash, hash_at term_hashes p, rest])"

record decl_hash_tables =
  dht_terms :: "term_node list"
  dht_level_hashes :: "hash list"
  dht_term_hashes :: "hash list"
  dht_names :: "cname list"

definition compute_decl_hashes ::
    "digest \<Rightarrow> certificate_format_version \<Rightarrow> decl_payload \<Rightarrow> dependency_entry list \<Rightarrow> axiom_ref list \<Rightarrow>
     decl_hash_tables \<Rightarrow> (cert_error + decl_hashes) option" where
  "compute_decl_hashes sha version decl deps axioms tables =
     obind (interface_dependencies_for_decl decl deps (dht_terms tables)) (\<lambda>interface_deps.
     Some (rbind (decl_interface_payload sha decl interface_deps axioms (dht_level_hashes tables)
         (dht_term_hashes tables) (dht_names tables)) (\<lambda>iface_payload.
       let iface = hash_with_domain sha ''NPA-DECL-IFACE-0.1'' iface_payload in
       rbind (decl_certificate_payload version decl iface deps axioms (dht_term_hashes tables)) (\<lambda>cert_payload.
       Inr \<lparr>dh_decl_interface_hash = iface,
         dh_decl_certificate_hash = hash_with_domain sha (declaration_certificate_domain version) cert_payload\<rparr>))))"

section \<open>Canonical bytes of terms and policies\<close>

function encode_core_level_loop :: "level list \<Rightarrow> byte list" where
  "encode_core_level_loop [] = []"
| "encode_core_level_loop (LZero # pending) = 0x00 # encode_core_level_loop pending"
| "encode_core_level_loop (LSucc i # pending) = 0x01 # encode_core_level_loop (i # pending)"
| "encode_core_level_loop (LMax l r # pending) = 0x02 # encode_core_level_loop (l # r # pending)"
| "encode_core_level_loop (LIMax l r # pending) = 0x03 # encode_core_level_loop (l # r # pending)"
| "encode_core_level_loop (LParam n # pending) =
     0x04 # encode_name (name_from_dotted n) @ encode_core_level_loop pending"
  by pat_completeness auto
termination
  by (relation "measure (\<lambda>ls. \<Sum>l \<leftarrow> ls. level_size l)") auto

definition encode_core_level :: "level \<Rightarrow> byte list" where
  "encode_core_level l = encode_core_level_loop [normalize_level l]"

function encode_core_expr_loop :: "expr list \<Rightarrow> byte list" where
  "encode_core_expr_loop [] = []"
| "encode_core_expr_loop (Sort l # pending) = 0x00 # encode_core_level l @ encode_core_expr_loop pending"
| "encode_core_expr_loop (BVar i # pending) = 0x01 # encode_uvar (word_of_nat i) @ encode_core_expr_loop pending"
| "encode_core_expr_loop (Const n ls # pending) =
     0x02 # encode_name (name_from_dotted n) @ encode_vec encode_core_level ls @ encode_core_expr_loop pending"
| "encode_core_expr_loop (App f a # pending) = 0x03 # encode_core_expr_loop (f # a # pending)"
| "encode_core_expr_loop (Lam n t b # pending) = 0x04 # encode_core_expr_loop (t # b # pending)"
| "encode_core_expr_loop (Pi n t b # pending) = 0x05 # encode_core_expr_loop (t # b # pending)"
  by pat_completeness auto
termination
  by (relation "measure (\<lambda>es. \<Sum>e \<leftarrow> es. expr_size e)") auto

definition core_expr_canonical_bytes :: "expr \<Rightarrow> byte list" where
  "core_expr_canonical_bytes e = encode_core_expr_loop [e]"

definition core_expr_hash :: "digest \<Rightarrow> expr \<Rightarrow> hash" where
  "core_expr_hash sha e = hash_with_domain sha ''NPA-CORE-EXPR-0.1'' (core_expr_canonical_bytes e)"

definition universe_constraints_canonical_bytes ::
    "string list \<Rightarrow> universe_constraint list \<Rightarrow> byte list cresult" where
  "universe_constraints_canonical_bytes params cs =
     rbind (map_err Kernel (validate_universe_params params)) (\<lambda>delta.
     rbind (map_err Kernel (ensure_universe_constraints_wf delta cs)) (\<lambda>_.
     Inr (encode_vec (\<lambda>p. encode_name (name_from_dotted p)) params @
       encode_vec (\<lambda>c. encode_core_level (uc_lhs c) @ encode_relation (uc_relation c) @
         encode_core_level (uc_rhs c)) cs)))"

definition universe_constraints_hash :: "digest \<Rightarrow> string list \<Rightarrow> universe_constraint list \<Rightarrow> hash cresult" where
  "universe_constraints_hash sha params cs =
     rbind (universe_constraints_canonical_bytes params cs) (\<lambda>bytes.
     Inr (hash_with_domain sha ''NPA-UNIVERSE-CONSTRAINTS-0.1'' bytes))"

datatype trust_mode = NormalTrust | HighTrust

text \<open>
  A policy: the set of allowed axioms is the ascending list of its elements, and no core
  feature can be supported, since there is none.
\<close>

record axiom_policy =
  pol_mode :: trust_mode
  pol_allowlisted_axioms :: "cname list"
  pol_deny_sorry :: bool

definition axiom_policy_canonical_bytes :: "axiom_policy \<Rightarrow> byte list" where
  "axiom_policy_canonical_bytes policy =
     as_bytes ''NPA-AXIOM-POLICY-CANONICAL-BYTES-0.1'' @
     [0x00, case pol_mode policy of NormalTrust \<Rightarrow> 0x00 | HighTrust \<Rightarrow> 0x01,
      0x01, if pol_deny_sorry policy then 1 else 0, 0x02] @
     encode_vec encode_name (pol_allowlisted_axioms policy) @ 0x03 # encode_uvar 0"

definition axiom_policy_hash :: "digest \<Rightarrow> axiom_policy \<Rightarrow> hash" where
  "axiom_policy_hash sha policy =
     hash_with_domain sha ''NPA-AXIOM-POLICY-HASH-0.1'' (axiom_policy_canonical_bytes policy)"

section \<open>Canonical bytes identify terms\<close>

text \<open>
  Encodings of values up to a normal form: no encoding is the beginning of another, and two
  values have the same encoding exactly when they have the same normal form.
\<close>

locale prefix_code =
  fixes enc :: "'a \<Rightarrow> byte list" and ok :: "'a \<Rightarrow> bool" and nrm :: "'a \<Rightarrow> 'b"
  assumes same: "ok x \<Longrightarrow> ok y \<Longrightarrow> enc x @ r = enc y @ s \<longleftrightarrow> nrm x = nrm y \<and> r = s"
begin

lemma same_end: "ok x \<Longrightarrow> ok y \<Longrightarrow> enc x = enc y \<longleftrightarrow> nrm x = nrm y"
  using same [of x y "[]" "[]"] by simp

lemma concat_same:
  "list_all ok xs \<Longrightarrow> list_all ok ys \<Longrightarrow> length xs = length ys \<Longrightarrow>
   concat (map enc xs) @ r = concat (map enc ys) @ s \<longleftrightarrow> map nrm xs = map nrm ys \<and> r = s"
proof (induction xs arbitrary: ys)
  case (Cons x xs)
  then obtain y ys' where "ys = y # ys'" by (cases ys) simp_all
  with Cons show ?case by (simp add: same)
qed simp

lemma vec: "prefix_code (encode_vec enc) (\<lambda>xs. length xs < 2 ^ 64 \<and> list_all ok xs) (map nrm)"
proof
  fix xs ys :: "'a list" and r s
  assume xs: "length xs < 2 ^ 64 \<and> list_all ok xs" and ys: "length ys < 2 ^ 64 \<and> list_all ok ys"
  show "encode_vec enc xs @ r = encode_vec enc ys @ s \<longleftrightarrow> map nrm xs = map nrm ys \<and> r = s"
  proof (cases "length xs = length ys")
    case True
    with xs ys show ?thesis by (simp add: encode_vec_def concat_same)
  next
    case False
    moreover from False xs ys have "(word_of_nat (length xs) :: usize) \<noteq> word_of_nat (length ys)"
      by (metis unat_of_length)
    ultimately show ?thesis
      using uvar.same_prefix by (auto simp: encode_vec_def dest: map_eq_imp_length_eq)
  qed
qed

end

lemma name_from_dotted_inject: "name_from_dotted a = name_from_dotted b \<longleftrightarrow> a = b"
  unfolding name_from_dotted_def by (metis join_split)

interpretation nm_code: prefix_code "\<lambda>n. encode_name (name_from_dotted n)" "\<lambda>n. name_ok (name_from_dotted n)" "\<lambda>n. n"
  by unfold_locales (simp add: nm.same_prefix name_from_dotted_inject)

primrec level_bytes :: "level \<Rightarrow> byte list" where
  "level_bytes LZero = [0x00]"
| "level_bytes (LSucc l) = 0x01 # level_bytes l"
| "level_bytes (LMax l r) = 0x02 # level_bytes l @ level_bytes r"
| "level_bytes (LIMax l r) = 0x03 # level_bytes l @ level_bytes r"
| "level_bytes (LParam n) = 0x04 # encode_name (name_from_dotted n)"

lemma encode_core_level_loop_eq: "encode_core_level_loop (l # ls) = level_bytes l @ encode_core_level_loop ls"
  by (induction l arbitrary: ls) simp_all

lemma encode_core_level_eq: "encode_core_level l = level_bytes (normalize_level l)"
  by (simp add: encode_core_level_def encode_core_level_loop_eq)

definition level_names_ok :: "level \<Rightarrow> bool" where
  "level_names_ok l \<longleftrightarrow> (\<forall>n \<in> level_params l. name_ok (name_from_dotted n))"

interpretation level_code: prefix_code level_bytes level_names_ok "\<lambda>l. l"
proof
  fix x y r s assume "level_names_ok x" "level_names_ok y"
  then show "level_bytes x @ r = level_bytes y @ s \<longleftrightarrow> x = y \<and> r = s"
  proof (induction x arbitrary: y r s)
    case (LParam n)
    then show ?case by (cases y) (simp_all add: level_names_ok_def nm_code.same)
  qed (case_tac y, auto simp: level_names_ok_def ball_Un)+
qed

interpretation core_level_code: prefix_code encode_core_level level_names_ok normalize_level
proof
  fix x y r s assume "level_names_ok x" "level_names_ok y"
  then have "level_names_ok (normalize_level x)" "level_names_ok (normalize_level y)"
    using level_params_normalize by (auto simp: level_names_ok_def)
  then show "encode_core_level x @ r = encode_core_level y @ s \<longleftrightarrow>
      normalize_level x = normalize_level y \<and> r = s"
    by (simp add: encode_core_level_eq level_code.same)
qed

interpretation core_levels_code: prefix_code "encode_vec encode_core_level"
    "\<lambda>ls. length ls < 2 ^ 64 \<and> list_all level_names_ok ls" "map normalize_level"
  by (rule core_level_code.vec)

primrec expr_bytes :: "expr \<Rightarrow> byte list" where
  "expr_bytes (Sort l) = 0x00 # encode_core_level l"
| "expr_bytes (BVar i) = 0x01 # encode_uvar (word_of_nat i)"
| "expr_bytes (Const n ls) = 0x02 # encode_name (name_from_dotted n) @ encode_vec encode_core_level ls"
| "expr_bytes (App f a) = 0x03 # expr_bytes f @ expr_bytes a"
| "expr_bytes (Lam n t b) = 0x04 # expr_bytes t @ expr_bytes b"
| "expr_bytes (Pi n t b) = 0x05 # expr_bytes t @ expr_bytes b"

lemma encode_core_expr_loop_eq: "encode_core_expr_loop (e # es) = expr_bytes e @ encode_core_expr_loop es"
  by (induction e arbitrary: es) simp_all

text \<open>The normal form: levels normalized, binders without names.\<close>

primrec core_norm :: "expr \<Rightarrow> expr" where
  "core_norm (Sort l) = Sort (normalize_level l)"
| "core_norm (BVar i) = BVar i"
| "core_norm (Const n ls) = Const n (map normalize_level ls)"
| "core_norm (App f a) = App (core_norm f) (core_norm a)"
| "core_norm (Lam n t b) = Lam '''' (core_norm t) (core_norm b)"
| "core_norm (Pi n t b) = Pi '''' (core_norm t) (core_norm b)"

primrec core_encodable :: "expr \<Rightarrow> bool" where
  "core_encodable (Sort l) \<longleftrightarrow> level_names_ok l"
| "core_encodable (BVar i) \<longleftrightarrow> i < 2 ^ 32"
| "core_encodable (Const n ls) \<longleftrightarrow>
     name_ok (name_from_dotted n) \<and> length ls < 2 ^ 64 \<and> list_all level_names_ok ls"
| "core_encodable (App f a) \<longleftrightarrow> core_encodable f \<and> core_encodable a"
| "core_encodable (Lam n t b) \<longleftrightarrow> core_encodable t \<and> core_encodable b"
| "core_encodable (Pi n t b) \<longleftrightarrow> core_encodable t \<and> core_encodable b"

lemma uvar_of_nat: "i < 2 ^ 32 \<Longrightarrow> j < 2 ^ 32 \<Longrightarrow>
    encode_uvar (word_of_nat i) @ r = encode_uvar (word_of_nat j) @ s \<longleftrightarrow> i = j \<and> r = s"
proof -
  assume "i < 2 ^ 32" "j < 2 ^ 32"
  then have "unat (word_of_nat i :: usize) = i" "unat (word_of_nat j :: usize) = j"
    by (simp_all add: unat_of_length)
  then show ?thesis using uvar.same_prefix by metis
qed

interpretation expr_code: prefix_code expr_bytes core_encodable core_norm
proof
  fix x y r s assume "core_encodable x" "core_encodable y"
  then show "expr_bytes x @ r = expr_bytes y @ s \<longleftrightarrow> core_norm x = core_norm y \<and> r = s"
  proof (induction x arbitrary: y r s)
    case (Sort l)
    then show ?case by (cases y) (simp_all add: core_level_code.same)
  next
    case (BVar i)
    then show ?case by (cases y) (simp_all add: uvar_of_nat)
  next
    case (Const n ls)
    then show ?case by (cases y) (simp_all add: nm_code.same core_levels_code.same)
  next
    case (App f a)
    then show ?case by (cases y) simp_all
  next
    case (Lam n t b)
    then show ?case by (cases y) simp_all
  next
    case (Pi n t b)
    then show ?case by (cases y) simp_all
  qed
qed

text \<open>
  C38: The canonical bytes of a term, which \<^verbatim>\<open>core_expr_hash\<close> hashes, identify it: two terms
  whose names are canonical have the same bytes exactly when they are equal up to the names of
  binders and the normal form of universe levels.
\<close>

theorem core_bytes_identify_terms:
  assumes "core_encodable e" and "core_encodable e'"
  shows "core_expr_canonical_bytes e = core_expr_canonical_bytes e' \<longleftrightarrow> core_norm e = core_norm e'"
  using expr_code.same_end [OF assms] by (simp add: core_expr_canonical_bytes_def encode_core_expr_loop_eq)

theorem core_bytes_identify_terms_witness:
  "core_expr_canonical_bytes (Lam ''x'' (Sort (LMax LZero (LParam ''u''))) (BVar 0)) =
   core_expr_canonical_bytes (Lam ''y'' (Sort (LParam ''u'')) (BVar 0))"
proof -
  have "core_encodable (Lam ''x'' (Sort (LMax LZero (LParam ''u''))) (BVar 0))" by code_simp
  moreover have "core_encodable (Lam ''y'' (Sort (LParam ''u'')) (BVar 0))" by code_simp
  moreover have "core_norm (Lam ''x'' (Sort (LMax LZero (LParam ''u''))) (BVar 0)) =
      core_norm (Lam ''y'' (Sort (LParam ''u'')) (BVar 0))" by code_simp
  ultimately show ?thesis by (simp only: core_bytes_identify_terms)
qed

end
