(* ===== verification/Cert_Tables.thy ===== *)
theory Cert_Tables
  imports Cert_Admission Cert_Hash "HOL-Library.Product_Lexorder" "HOL-Library.Option_ord"
begin

text \<open>
  The checks of the tables of a certificate (\<^verbatim>\<open>verify_tables\<close> in \<^verbatim>\<open>npa-cert/src/verify.rs\<close>):
  order of imports and names, references, normal form and order of the levels, order of the
  terms, universe contexts, scope of bound variables, and that every entry is used. A
  certificate has one form: there is one order of the tables that passes.
\<close>

section \<open>Order of imports and names\<close>

definition verify_header :: "cert_header \<Rightarrow> unit cresult" where
  "verify_header header = rbind (cert_format_version header) (\<lambda>_. Inr ())"

fun windows_all :: "('a \<Rightarrow> 'a \<Rightarrow> bool) \<Rightarrow> 'a list \<Rightarrow> bool" where
  "windows_all P (x # y # r) \<longleftrightarrow> P x y \<and> windows_all P (y # r)"
| "windows_all P _ \<longleftrightarrow> True"

definition import_key :: "import_entry \<Rightarrow> cname \<times> hash \<times> hash option" where
  "import_key i = (ie_module i, ie_export_hash i, ie_certificate_hash i)"

definition verify_import_ordering :: "module_cert \<Rightarrow> unit cresult" where
  "verify_import_ordering cert =
     guard_res (\<not> windows_all (\<lambda>a b. import_key a < import_key b) (mc_imports cert))
       (NonCanonicalEncoding ''Imports'')"

definition verify_name_ordering :: "module_cert \<Rightarrow> unit cresult" where
  "verify_name_ordering cert =
     guard_res (\<not> windows_all (<) (mc_name_table cert)) (NonCanonicalEncoding ''NameTable'')"

section \<open>References\<close>

definition level_refs_ok :: "module_cert \<Rightarrow> nat \<times> level_node \<Rightarrow> bool" where
  "level_refs_ok cert il =
     (case snd il of
        LNZero \<Rightarrow> True
      | LNParam name \<Rightarrow> unat name < length (mc_name_table cert)
      | LNSucc inner \<Rightarrow> unat inner < fst il
      | LNMax lhs rhs \<Rightarrow> unat lhs < fst il \<and> unat rhs < fst il
      | LNIMax lhs rhs \<Rightarrow> unat lhs < fst il \<and> unat rhs < fst il)"

definition validate_level_references :: "module_cert \<Rightarrow> unit cresult" where
  "validate_level_references cert =
     check_all (\<lambda>il. guard_res (\<not> level_refs_ok cert il) (NonCanonicalEncoding ''LevelTable''))
       (enumerate 0 (mc_level_table cert))"

definition builtin_decl_interface_hash :: "digest \<Rightarrow> cname \<Rightarrow> hash option" where
  "builtin_decl_interface_hash sha name =
     map_option (\<lambda>tag. hash_with_domain sha ''NPA-BUILTIN-INTERFACE-0.1'' (as_bytes tag))
       (map_of [(''Nat'', ''npa.machine-tactic.builtin.nat.v1''),
         (''Nat.zero'', ''npa.machine-tactic.builtin.nat.zero.v1''),
         (''Nat.succ'', ''npa.machine-tactic.builtin.nat.succ.v1''),
         (''Nat.rec'', ''npa.machine-tactic.builtin.nat.rec.v1''),
         (''Eq'', ''npa.machine-tactic.builtin.eq.v1''),
         (''Eq.refl'', ''npa.machine-tactic.builtin.eq.refl.v1''),
         (''Eq.rec'', ''npa.machine-tactic.builtin.eq.rec.v1'')] (name_as_dotted name))"

definition global_ref_is_in_range :: "digest \<Rightarrow> module_cert \<Rightarrow> global_ref \<Rightarrow> bool" where
  "global_ref_is_in_range sha cert g =
     (case g of
        GBuiltin name ih \<Rightarrow>
          (case get_at (mc_name_table cert) (unat name) of
             None \<Rightarrow> False | Some n \<Rightarrow> builtin_decl_interface_hash sha n = Some ih)
      | GImported import_index name _ \<Rightarrow>
          unat import_index < length (mc_imports cert) \<and> unat name < length (mc_name_table cert)
      | GLocal decl_index \<Rightarrow> unat decl_index < length (mc_declarations cert)
      | GLocalGenerated decl_index name \<Rightarrow>
          unat decl_index < length (mc_declarations cert) \<and> unat name < length (mc_name_table cert))"

definition term_refs_ok :: "digest \<Rightarrow> module_cert \<Rightarrow> nat \<times> term_node \<Rightarrow> bool" where
  "term_refs_ok sha cert it =
     (case snd it of
        TNSort level \<Rightarrow> unat level < length (mc_level_table cert)
      | TNBVar _ \<Rightarrow> True
      | TNConst g levels \<Rightarrow> global_ref_is_in_range sha cert g \<and>
          list_all (\<lambda>l. unat l < length (mc_level_table cert)) levels
      | TNApp f a \<Rightarrow> unat f < fst it \<and> unat a < fst it
      | TNLam ty body \<Rightarrow> unat ty < fst it \<and> unat body < fst it
      | TNPi ty body \<Rightarrow> unat ty < fst it \<and> unat body < fst it)"

definition validate_term_references :: "digest \<Rightarrow> module_cert \<Rightarrow> unit cresult" where
  "validate_term_references sha cert =
     check_all (\<lambda>it. guard_res (\<not> term_refs_ok sha cert it) (NonCanonicalEncoding ''TermTable''))
       (enumerate 0 (mc_term_table cert))"

section \<open>Heights, order and hashes of the tables\<close>

definition index_panic :: "'a list \<Rightarrow> nat \<Rightarrow> 'a cresult" where
  "index_panic xs i = ok_or (CertPanic ''index out of bounds'') (get_at xs i)"

definition pair_height :: "nat list \<Rightarrow> usize \<Rightarrow> usize \<Rightarrow> nat cresult" where
  "pair_height heights l r =
     rbind (index_panic heights (unat l)) (\<lambda>a. rbind (index_panic heights (unat r)) (\<lambda>b. Inr (max a b + 1)))"

definition level_height_step :: "level_node \<Rightarrow> nat list \<Rightarrow> nat list cresult" where
  "level_height_step level heights =
     rbind (case level of
        LNZero \<Rightarrow> Inr 0
      | LNParam _ \<Rightarrow> Inr 0
      | LNSucc inner \<Rightarrow> rbind (index_panic heights (unat inner)) (\<lambda>h. Inr (h + 1))
      | LNMax lhs rhs \<Rightarrow> pair_height heights lhs rhs
      | LNIMax lhs rhs \<Rightarrow> pair_height heights lhs rhs) (\<lambda>h. Inr (heights @ [h]))"

definition level_node_heights :: "level_node list \<Rightarrow> nat list cresult" where
  "level_node_heights levels = fold_res level_height_step levels []"

definition term_height_step :: "term_node \<Rightarrow> nat list \<Rightarrow> nat list cresult" where
  "term_height_step term heights =
     rbind (case term of
        TNSort _ \<Rightarrow> Inr 0
      | TNBVar _ \<Rightarrow> Inr 0
      | TNConst _ _ \<Rightarrow> Inr 0
      | TNApp f a \<Rightarrow> pair_height heights f a
      | TNLam ty body \<Rightarrow> pair_height heights ty body
      | TNPi ty body \<Rightarrow> pair_height heights ty body) (\<lambda>h. Inr (heights @ [h]))"

definition term_node_heights :: "term_node list \<Rightarrow> nat list cresult" where
  "term_node_heights terms = fold_res term_height_step terms []"

text \<open>The state of the pass over a table: the hashes so far and the previous height and key.\<close>

record table_pass =
  tp_hashes :: "hash list"
  tp_previous :: "(nat \<times> byte list) option"

definition descends :: "(nat \<times> byte list) option \<Rightarrow> nat \<Rightarrow> byte list \<Rightarrow> bool" where
  "descends previous height key =
     (case previous of None \<Rightarrow> False | Some (h, k) \<Rightarrow> h > height \<or> h = height \<and> k \<ge> key)"

definition table_pass_step ::
    "digest \<Rightarrow> string \<Rightarrow> string \<Rightarrow> nat list \<Rightarrow> (hash list \<Rightarrow> byte list cresult) \<Rightarrow> nat \<Rightarrow> table_pass \<Rightarrow> table_pass cresult" where
  "table_pass_step sha domain table heights key_of index s =
     rbind (key_of (tp_hashes s)) (\<lambda>key.
     rbind (index_panic heights index) (\<lambda>height.
     if descends (tp_previous s) height key then Inl (NonCanonicalEncoding table)
     else Inr \<lparr>tp_hashes = tp_hashes s @ [hash_with_domain sha domain key], tp_previous = Some (height, key)\<rparr>))"

definition process_level_table :: "digest \<Rightarrow> module_cert \<Rightarrow> nat list \<Rightarrow> hash list cresult" where
  "process_level_table sha cert heights =
     rbind (fold_res (\<lambda>il. table_pass_step sha ''NPA-LEVEL-0.1'' ''LevelTable'' heights
         (\<lambda>hashes. level_node_key (snd il) hashes (mc_name_table cert)) (fst il))
       (enumerate 0 (mc_level_table cert)) \<lparr>tp_hashes = [], tp_previous = None\<rparr>) (\<lambda>s. Inr (tp_hashes s))"

definition process_term_table :: "digest \<Rightarrow> module_cert \<Rightarrow> hash list \<Rightarrow> nat list \<Rightarrow> hash list cresult" where
  "process_term_table sha cert level_hashes heights =
     rbind (fold_res (\<lambda>it. table_pass_step sha ''NPA-TERM-0.1'' ''TermTable'' heights
         (\<lambda>hashes. term_node_key (snd it) hashes level_hashes) (fst it))
       (enumerate 0 (mc_term_table cert)) \<lparr>tp_hashes = [], tp_previous = None\<rparr>) (\<lambda>s. Inr (tp_hashes s))"

section \<open>Normal form of the levels\<close>

definition node_tag :: "level_node \<Rightarrow> nat" where
  "node_tag node = (case node of LNZero \<Rightarrow> 0 | LNSucc _ \<Rightarrow> 1 | LNMax _ _ \<Rightarrow> 2 | LNIMax _ _ \<Rightarrow> 3 | LNParam _ \<Rightarrow> 4)"

text \<open>
  One turn of the loop of \<^verbatim>\<open>compare_levels\<close> on the pair it pops: an order, or the pairs to push.
\<close>

definition compare_turn ::
    "module_cert \<Rightarrow> level_id \<times> level_id \<Rightarrow> (ordering + (level_id \<times> level_id) list) cresult" where
  "compare_turn cert p =
     (if fst p = snd p then Inr (Inr [])
      else rbind (ok_or DecodeError (get_at (mc_level_table cert) (unat (fst p)))) (\<lambda>a.
        rbind (ok_or DecodeError (get_at (mc_level_table cert) (unat (snd p)))) (\<lambda>b.
        let tag_order = cmp (node_tag a) (node_tag b) in
        if tag_order \<noteq> Equal then Inr (Inl tag_order)
        else (case (a, b) of
          (LNZero, LNZero) \<Rightarrow> Inr (Inr [])
        | (LNSucc x, LNSucc y) \<Rightarrow> Inr (Inr [(x, y)])
        | (LNMax x1 x2, LNMax y1 y2) \<Rightarrow> Inr (Inr [(x1, y1), (x2, y2)])
        | (LNIMax x1 x2, LNIMax y1 y2) \<Rightarrow> Inr (Inr [(x1, y1), (x2, y2)])
        | (LNParam x, LNParam y) \<Rightarrow>
            rbind (ok_or DecodeError (get_at (mc_name_table cert) (unat x))) (\<lambda>n.
            rbind (ok_or DecodeError (get_at (mc_name_table cert) (unat y))) (\<lambda>m.
            let order = cmp (name_as_dotted n) (name_as_dotted m) in
            if order \<noteq> Equal then Inr (Inl order) else Inr (Inr [])))
        | _ \<Rightarrow> Inl DecodeError))))"

partial_function (option) compare_levels_loop ::
    "module_cert \<Rightarrow> (level_id \<times> level_id) list \<Rightarrow> (cert_error + ordering) option" where
  "compare_levels_loop cert pending =
     (case pending of
        [] \<Rightarrow> Some (Inr Equal)
      | p # rest \<Rightarrow>
          (case compare_turn cert p of
             Inl e \<Rightarrow> Some (Inl e)
           | Inr (Inl order) \<Rightarrow> Some (Inr order)
           | Inr (Inr pushed) \<Rightarrow> compare_levels_loop cert (pushed @ rest)))"

declare compare_levels_loop.simps [code]

definition compare_levels :: "module_cert \<Rightarrow> level_id \<Rightarrow> level_id \<Rightarrow> (cert_error + ordering) option" where
  "compare_levels cert lhs rhs = compare_levels_loop cert [(lhs, rhs)]"

definition node_natural :: "nat option list \<Rightarrow> level_node \<Rightarrow> nat option" where
  "node_natural naturals node =
     (case node of
        LNZero \<Rightarrow> Some 0
      | LNSucc inner \<Rightarrow> Option.bind (Option.bind (get_at naturals (unat inner)) (\<lambda>n. n))
          (\<lambda>v. if fits 64 (v + 1) then Some (v + 1) else None)
      | _ \<Rightarrow> None)"

definition is_natural :: "nat option list \<Rightarrow> level_id \<Rightarrow> bool" where
  "is_natural naturals l = (case get_at naturals (unat l) of Some (Some _) \<Rightarrow> True | _ \<Rightarrow> False)"

definition node_normalized ::
    "module_cert \<Rightarrow> nat option list \<Rightarrow> level_node \<Rightarrow> (cert_error + bool) option" where
  "node_normalized cert naturals node =
     (case node of
        LNZero \<Rightarrow> Some (Inr True)
      | LNParam _ \<Rightarrow> Some (Inr True)
      | LNSucc _ \<Rightarrow> Some (Inr True)
      | LNMax lhs rhs \<Rightarrow>
          if lhs = rhs \<or> get_at (mc_level_table cert) (unat lhs) = Some LNZero \<or>
             get_at (mc_level_table cert) (unat rhs) = Some LNZero \<or>
             is_natural naturals lhs \<and> is_natural naturals rhs
          then Some (Inr False)
          else obind (compare_levels cert lhs rhs) (\<lambda>order. Some (Inr (order \<noteq> Greater)))
      | LNIMax _ rhs \<Rightarrow>
          Some (Inr (case get_at (mc_level_table cert) (unat rhs) of
            Some LNZero \<Rightarrow> False | Some (LNSucc _) \<Rightarrow> False | _ \<Rightarrow> True)))"

primrec normalized_loop ::
    "module_cert \<Rightarrow> (nat \<times> level_node) list \<Rightarrow> nat option list \<Rightarrow> (cert_error + bool) option" where
  "normalized_loop cert [] naturals = Some (Inr True)"
| "normalized_loop cert (il # rest) naturals =
     (let natural = node_natural naturals (snd il) in
      obind (node_normalized cert naturals (snd il)) (\<lambda>normalized.
      if \<not> normalized then Some (Inr False)
      else if (case snd il of LNSucc inner \<Rightarrow> unat inner \<ge> fst il | _ \<Rightarrow> False) then Some (Inl DecodeError)
      else normalized_loop cert rest (naturals @ [natural])))"

definition level_table_is_normalized :: "module_cert \<Rightarrow> (cert_error + bool) option" where
  "level_table_is_normalized cert = normalized_loop cert (enumerate 0 (mc_level_table cert)) []"

section \<open>Universe contexts\<close>

fun payload_universe_params :: "decl_payload \<Rightarrow> name_id list" where
  "payload_universe_params (PAxiom n ups t) = ups"
| "payload_universe_params (PAxiomConstrained n ups ucs t) = ups"
| "payload_universe_params (PDef n ups t v r) = ups"
| "payload_universe_params (PDefConstrained n ups ucs t v r) = ups"
| "payload_universe_params (PTheorem n ups t p op) = ups"
| "payload_universe_params (PTheoremConstrained n ups ucs t p op) = ups"
| "payload_universe_params (PInductive n ups ps is s cs r) = ups"
| "payload_universe_params (PInductiveConstrained n ups ucs ps is s cs r) = ups"
| "payload_universe_params (PMutualInductiveBlock n ups ucs is) = ups"

fun decl_has_empty_constrained_universe_payload :: "decl_payload \<Rightarrow> bool" where
  "decl_has_empty_constrained_universe_payload (PAxiomConstrained n ups ucs t) \<longleftrightarrow> ucs = []"
| "decl_has_empty_constrained_universe_payload (PDefConstrained n ups ucs t v r) \<longleftrightarrow> ucs = []"
| "decl_has_empty_constrained_universe_payload (PTheoremConstrained n ups ucs t p op) \<longleftrightarrow> ucs = []"
| "decl_has_empty_constrained_universe_payload (PInductiveConstrained n ups ucs ps is s cs r) \<longleftrightarrow> ucs = []"
| "decl_has_empty_constrained_universe_payload _ \<longleftrightarrow> False"

text \<open>The constraints of a declaration are those of \<open>decl_constraints\<close>, whose match the source repeats.\<close>

definition verify_decl_universe_context :: "module_cert \<Rightarrow> decl_cert \<Rightarrow> (cert_error + unit) option" where
  "verify_decl_universe_context cert d =
     (if decl_has_empty_constrained_universe_payload (dc_decl d)
      then Some (Inl (NonCanonicalEncoding ''UniverseConstraints''))
      else obind (Some (universe_names cert (payload_universe_params (dc_decl d)))) (\<lambda>param_names.
        obind (Some (map_err Kernel (validate_universe_params param_names))) (\<lambda>delta.
        obind (universe_constraints_from_specs cert (decl_constraints (dc_decl d))) (\<lambda>cs.
        Some (map_err Kernel (ensure_universe_constraints_wf delta cs))))))"

definition verify_decl_universe_contexts :: "module_cert \<Rightarrow> (cert_error + unit) option" where
  "verify_decl_universe_contexts cert =
     obind (otraverse (verify_decl_universe_context cert) (mc_declarations cert)) (\<lambda>_. Some (Inr ()))"

section \<open>Reachable terms and bound variables\<close>

definition u32_max :: nat where "u32_max = 4294967295"

definition loose_bvar_bound :: "nat list \<Rightarrow> term_node \<Rightarrow> nat cresult" where
  "loose_bvar_bound bounds term =
     (let child = (\<lambda>i. ok_or DecodeError (get_at bounds (unat i)));
          under = (\<lambda>ty body. rbind (child ty) (\<lambda>a. rbind (child body) (\<lambda>b. Inr (max a (b - 1))))) in
      case term of
        TNSort _ \<Rightarrow> Inr 0
      | TNConst _ _ \<Rightarrow> Inr 0
      | TNBVar index \<Rightarrow> Inr (min u32_max (unat index + 1))
      | TNApp f a \<Rightarrow> rbind (child f) (\<lambda>x. rbind (child a) (\<lambda>y. Inr (max x y)))
      | TNLam ty body \<Rightarrow> under ty body
      | TNPi ty body \<Rightarrow> under ty body)"

definition term_node_loose_bvar_bounds :: "term_node list \<Rightarrow> nat list cresult" where
  "term_node_loose_bvar_bounds terms =
     fold_res (\<lambda>term bounds. rbind (loose_bvar_bound bounds term) (\<lambda>b. Inr (bounds @ [b]))) terms []"

text \<open>The stack is a list whose first element is popped next.\<close>

lemma unmarked_less:
  "i < length marks \<Longrightarrow> \<not> marks ! i \<Longrightarrow>
   length (filter Not (marks[i := True])) < length (filter Not marks)"
proof (induction marks arbitrary: i)
  case (Cons m marks)
  then show ?case by (cases i) auto
qed simp

function mark_term_reachable :: "term_node list \<Rightarrow> term_id list \<Rightarrow> bool list \<Rightarrow> bool list cresult" where
  "mark_term_reachable terms [] marks = Inr marks"
| "mark_term_reachable terms (t # stack) marks =
     (if \<not> unat t < length marks then Inl (CertPanic ''index out of bounds'')
      else if marks ! unat t then mark_term_reachable terms stack marks
      else (case get_at terms (unat t) of
        None \<Rightarrow> Inl (CertPanic ''index out of bounds'')
      | Some node \<Rightarrow> mark_term_reachable terms (term_children node @ stack) (marks[unat t := True])))"
  by pat_completeness auto
termination
  by (relation "measures [\<lambda>(_, _, marks). length (filter Not marks), \<lambda>(_, stack, _). length stack]")
    (auto intro: unmarked_less)

text \<open>The search that finds the first index out of scope; depths are capped as \<^verbatim>\<open>u32\<close>.\<close>

partial_function (option) verify_term_scope_loop ::
    "module_cert \<Rightarrow> (term_id \<times> nat) list \<Rightarrow> (term_id \<times> nat) list \<Rightarrow> (cert_error + unit) option" where
  "verify_term_scope_loop cert stack seen =
     (case stack of
        [] \<Rightarrow> Some (Inr ())
      | (t, depth) # rest \<Rightarrow>
          if (t, depth) \<in> set seen then verify_term_scope_loop cert rest seen
          else (case get_at (mc_term_table cert) (unat t) of
            None \<Rightarrow> Some (Inl DecodeError)
          | Some node \<Rightarrow>
              let seen' = (t, depth) # seen; deeper = min u32_max (depth + 1) in
              (case node of
                 TNSort _ \<Rightarrow> verify_term_scope_loop cert rest seen'
               | TNConst _ _ \<Rightarrow> verify_term_scope_loop cert rest seen'
               | TNBVar index \<Rightarrow>
                   if unat index \<ge> depth then Some (Inl (InvalidBVar index))
                   else verify_term_scope_loop cert rest seen'
               | TNApp f a \<Rightarrow> verify_term_scope_loop cert ((f, depth) # (a, depth) # rest) seen'
               | TNLam ty body \<Rightarrow> verify_term_scope_loop cert ((ty, depth) # (body, deeper) # rest) seen'
               | TNPi ty body \<Rightarrow> verify_term_scope_loop cert ((ty, depth) # (body, deeper) # rest) seen')))"

declare verify_term_scope_loop.simps [code]

definition verify_term_scope :: "module_cert \<Rightarrow> term_id \<Rightarrow> nat \<Rightarrow> (cert_error + unit) option" where
  "verify_term_scope cert t depth = verify_term_scope_loop cert [(t, depth)] []"

definition verify_root ::
    "module_cert \<Rightarrow> nat list \<Rightarrow> term_id \<Rightarrow> bool list \<Rightarrow> (cert_error + bool list) option" where
  "verify_root cert bounds root marks =
     (if unat root \<ge> length (mc_term_table cert) then Some (Inl DecodeError)
      else obind (Some (index_panic bounds (unat root))) (\<lambda>bound.
        obind (if bound > 0 then verify_term_scope cert root 0 else Some (Inr ())) (\<lambda>_.
        Some (mark_term_reachable (mc_term_table cert) [root] marks))))"

primrec verify_roots ::
    "module_cert \<Rightarrow> nat list \<Rightarrow> term_id list \<Rightarrow> bool list \<Rightarrow> (cert_error + bool list) option" where
  "verify_roots cert bounds [] marks = Some (Inr marks)"
| "verify_roots cert bounds (r # rs) marks =
     obind (verify_root cert bounds r marks) (verify_roots cert bounds rs)"

text \<open>The roots of an inductive, whose type is found in the table.\<close>

definition verify_inductive_roots ::
    "module_cert \<Rightarrow> nat list \<Rightarrow> binder_type list \<Rightarrow> binder_type list \<Rightarrow> level_id \<Rightarrow> constructor_spec list \<Rightarrow>
     recursor_spec option \<Rightarrow> bool list \<Rightarrow> (cert_error + bool list) option" where
  "verify_inductive_roots cert bounds params indices srt ctors rec marks =
     obind (Some (inductive_export_type_term_id (mc_term_table cert) params indices srt)) (\<lambda>ty.
     verify_roots cert bounds
       (ty # map cs_ty ctors @ (case rec of None \<Rightarrow> [] | Some r \<Rightarrow> [rs_ty r])) marks)"

primrec ofold :: "('a \<Rightarrow> 's \<Rightarrow> ('e + 's) option) \<Rightarrow> 'a list \<Rightarrow> 's \<Rightarrow> ('e + 's) option" where
  "ofold f [] s = Some (Inr s)"
| "ofold f (x # xs) s = obind (f x s) (ofold f xs)"

definition verify_decl_roots ::
    "module_cert \<Rightarrow> nat list \<Rightarrow> decl_cert \<Rightarrow> bool list \<Rightarrow> (cert_error + bool list) option" where
  "verify_decl_roots cert bounds d marks =
     (case dc_decl d of
        PAxiom n ups t \<Rightarrow> verify_roots cert bounds [t] marks
      | PAxiomConstrained n ups ucs t \<Rightarrow> verify_roots cert bounds [t] marks
      | PDef n ups t v red \<Rightarrow> verify_roots cert bounds [t, v] marks
      | PDefConstrained n ups ucs t v red \<Rightarrow> verify_roots cert bounds [t, v] marks
      | PTheorem n ups t p op \<Rightarrow> verify_roots cert bounds [t, p] marks
      | PTheoremConstrained n ups ucs t p op \<Rightarrow> verify_roots cert bounds [t, p] marks
      | PInductive n ups ps is s cs r \<Rightarrow> verify_inductive_roots cert bounds ps is s cs r marks
      | PInductiveConstrained n ups ucs ps is s cs r \<Rightarrow> verify_inductive_roots cert bounds ps is s cs r marks
      | PMutualInductiveBlock n ups ucs is \<Rightarrow>
          ofold (\<lambda>i. verify_inductive_roots cert bounds (mis_params i) (mis_indices i) (mis_sort i)
            (mis_constructors i) (mis_recursor i)) is marks)"

text \<open>Levels: the lookup comes before the test of the mark.\<close>

definition node_level_children :: "level_node \<Rightarrow> level_id list" where
  "node_level_children node =
     (case node of LNZero \<Rightarrow> [] | LNParam _ \<Rightarrow> [] | LNSucc i \<Rightarrow> [i] | LNMax l r \<Rightarrow> [l, r] | LNIMax l r \<Rightarrow> [l, r])"

function collect_level_reachable :: "module_cert \<Rightarrow> level_id list \<Rightarrow> bool list \<Rightarrow> bool list cresult" where
  "collect_level_reachable cert [] marks = Inr marks"
| "collect_level_reachable cert (l # stack) marks =
     (case get_at (mc_level_table cert) (unat l) of
        None \<Rightarrow> Inl DecodeError
      | Some node \<Rightarrow>
          if \<not> unat l < length marks then Inl (CertPanic ''index out of bounds'')
          else if marks ! unat l then collect_level_reachable cert stack marks
          else collect_level_reachable cert (node_level_children node @ stack) (marks[unat l := True]))"
  by pat_completeness auto
termination
  by (relation "measures [\<lambda>(_, _, marks). length (filter Not marks), \<lambda>(_, stack, _). length stack]")
    (auto intro: unmarked_less)

definition constraint_levels :: "universe_constraint_spec list \<Rightarrow> level_id list" where
  "constraint_levels cs = concat (map (\<lambda>c. [ucs_lhs c, ucs_rhs c]) cs)"

definition reached_levels :: "module_cert \<Rightarrow> level_id list" where
  "reached_levels cert =
     concat (map (\<lambda>t. case t of TNSort l \<Rightarrow> [l] | TNConst g ls \<Rightarrow> ls | _ \<Rightarrow> []) (mc_term_table cert)) @
     concat (map (\<lambda>d. constraint_levels (decl_constraints (dc_decl d))) (mc_declarations cert)) @
     concat (map (\<lambda>e. constraint_levels (ee_universe_constraints e)) (mc_export_block cert))"

definition verify_reachable_tables_and_bvars :: "module_cert \<Rightarrow> (cert_error + unit) option" where
  "verify_reachable_tables_and_bvars cert =
     obind (Some (term_node_loose_bvar_bounds (mc_term_table cert))) (\<lambda>bounds.
     obind (ofold (verify_decl_roots cert bounds) (mc_declarations cert)
         (replicate (length (mc_term_table cert)) False)) (\<lambda>reachable_terms.
     if length (filter (\<lambda>s. s) reachable_terms) \<noteq> length (mc_term_table cert)
     then Some (Inl (NonCanonicalEncoding ''TermTable''))
     else obind (Some (fold_res (\<lambda>l. collect_level_reachable cert [l]) (reached_levels cert)
         (replicate (length (mc_level_table cert)) False))) (\<lambda>reachable_levels.
       if length (filter (\<lambda>s. s) reachable_levels) \<noteq> length (mc_level_table cert)
       then Some (Inl (NonCanonicalEncoding ''LevelTable'')) else Some (Inr ()))))"

section \<open>Used names\<close>

text \<open>
  Each function returns the names it adds to the set; \<^verbatim>\<open>names.into_iter()\<close> is the ascending
  list without repetitions.
\<close>

definition collect_name_id :: "module_cert \<Rightarrow> name_id \<Rightarrow> cname list cresult" where
  "collect_name_id cert i = rbind (ok_or DecodeError (get_at (mc_name_table cert) (unat i))) (\<lambda>n. Inr [n])"

definition collect_all :: "('a \<Rightarrow> cname list cresult) \<Rightarrow> 'a list \<Rightarrow> cname list cresult" where
  "collect_all f xs = rbind (traverse f xs) (\<lambda>nss. Inr (concat nss))"

definition collect_name_ids :: "module_cert \<Rightarrow> name_id list \<Rightarrow> cname list cresult" where
  "collect_name_ids cert ids = collect_all (collect_name_id cert) ids"

lemma unseen_less:
  "unat l < n \<Longrightarrow> l \<notin> set seen \<Longrightarrow> card ({w. unat w < n} - set (l # seen)) < card ({w. unat w < n} - set seen)"
  for l :: usize
  by (rule psubset_card_mono) auto

function collect_level_names ::
    "module_cert \<Rightarrow> level_id list \<Rightarrow> level_id list \<Rightarrow> cname list cresult" where
  "collect_level_names cert [] seen = Inr []"
| "collect_level_names cert (l # stack) seen =
     (if l \<in> set seen then collect_level_names cert stack seen
      else (case get_at (mc_level_table cert) (unat l) of
        None \<Rightarrow> Inl DecodeError
      | Some node \<Rightarrow>
          (case node of
             LNParam name \<Rightarrow> rbind (collect_name_id cert name) (\<lambda>ns.
               rbind (collect_level_names cert stack (l # seen)) (\<lambda>ms. Inr (ns @ ms)))
           | _ \<Rightarrow> collect_level_names cert (node_level_children node @ stack) (l # seen))))"
  by pat_completeness auto
termination
  by (relation "measures [\<lambda>(cert, _, seen). card ({w. unat w < length (mc_level_table cert)} - set seen),
      \<lambda>(_, stack, _). length stack]")
    (auto simp: get_at_eq_Some simp del: set_simps intro: unseen_less)

definition collect_level_names_from_level_id :: "module_cert \<Rightarrow> level_id \<Rightarrow> cname list cresult" where
  "collect_level_names_from_level_id cert l = collect_level_names cert [l] []"

definition collect_universe_constraint_names ::
    "module_cert \<Rightarrow> universe_constraint_spec list \<Rightarrow> cname list cresult" where
  "collect_universe_constraint_names cert cs =
     collect_all (\<lambda>c. collect_all (collect_level_names_from_level_id cert) [ucs_lhs c, ucs_rhs c]) cs"

definition collect_global_ref_names :: "module_cert \<Rightarrow> global_ref \<Rightarrow> cname list cresult" where
  "collect_global_ref_names cert g =
     (case g of
        GBuiltin name _ \<Rightarrow> collect_name_id cert name
      | GImported _ name _ \<Rightarrow> collect_name_id cert name
      | GLocalGenerated _ name \<Rightarrow> collect_name_id cert name
      | GLocal _ \<Rightarrow> Inr [])"

definition collect_axiom_ref_names :: "module_cert \<Rightarrow> axiom_ref list \<Rightarrow> cname list cresult" where
  "collect_axiom_ref_names cert axioms =
     collect_all (\<lambda>a. collect_all (\<lambda>p. p)
       [collect_global_ref_names cert (ar_global_ref a), collect_name_id cert (ar_name a)]) axioms"

definition collect_dependency_entry_names :: "module_cert \<Rightarrow> dependency_entry list \<Rightarrow> cname list cresult" where
  "collect_dependency_entry_names cert deps =
     collect_all (\<lambda>d. collect_global_ref_names cert (dependency_global_ref d)) deps"

definition collect_level_node_names :: "module_cert \<Rightarrow> level_node \<Rightarrow> cname list cresult" where
  "collect_level_node_names cert level =
     (case level of LNParam name \<Rightarrow> collect_name_id cert name | _ \<Rightarrow> Inr [])"

definition collect_term_node_names :: "module_cert \<Rightarrow> term_node \<Rightarrow> cname list cresult" where
  "collect_term_node_names cert term =
     (case term of TNConst g _ \<Rightarrow> collect_global_ref_names cert g | _ \<Rightarrow> Inr [])"

definition collect_recursor_names :: "module_cert \<Rightarrow> recursor_spec option \<Rightarrow> cname list cresult" where
  "collect_recursor_names cert rec =
     (case rec of None \<Rightarrow> Inr []
      | Some r \<Rightarrow> collect_all (\<lambda>p. p)
          [collect_name_id cert (rs_name r), collect_name_ids cert (rs_universe_params r)])"

definition collect_decl_payload_names :: "module_cert \<Rightarrow> decl_payload \<Rightarrow> cname list cresult" where
  "collect_decl_payload_names cert decl =
     collect_all (\<lambda>p. p)
       ([collect_name_id cert (payload_name decl), collect_name_ids cert (payload_universe_params decl),
         collect_universe_constraint_names cert (decl_constraints decl)] @
        (case decl of
           PInductive n ups ps is s cs r \<Rightarrow>
             [collect_all (\<lambda>c. collect_name_id cert (cs_name c)) cs, collect_recursor_names cert r]
         | PInductiveConstrained n ups ucs ps is s cs r \<Rightarrow>
             [collect_all (\<lambda>c. collect_name_id cert (cs_name c)) cs, collect_recursor_names cert r]
         | PMutualInductiveBlock n ups ucs is \<Rightarrow>
             [collect_all (\<lambda>i. collect_all (\<lambda>p. p)
                [collect_name_id cert (mis_name i), collect_all (\<lambda>c. collect_name_id cert (cs_name c)) (mis_constructors i),
                 collect_recursor_names cert (mis_recursor i)]) is]
         | _ \<Rightarrow> []))"

definition collect_module_names :: "module_cert \<Rightarrow> cname list cresult" where
  "collect_module_names cert =
     collect_all (\<lambda>p. p)
       [Inr [hdr_module (mc_header cert)], Inr (map ie_module (mc_imports cert)),
        collect_all (collect_level_node_names cert) (mc_level_table cert),
        collect_all (collect_term_node_names cert) (mc_term_table cert),
        collect_all (\<lambda>d. collect_all (\<lambda>p. p)
          [collect_decl_payload_names cert (dc_decl d), collect_dependency_entry_names cert (dc_dependencies d),
           collect_axiom_ref_names cert (dc_axiom_dependencies d)]) (mc_declarations cert),
        collect_all (\<lambda>e. collect_all (\<lambda>p. p)
          [collect_name_id cert (ee_name e), collect_name_ids cert (ee_universe_params e),
           collect_universe_constraint_names cert (ee_universe_constraints e),
           collect_axiom_ref_names cert (ee_axiom_dependencies e)]) (mc_export_block cert),
        collect_all (\<lambda>r. collect_all (\<lambda>p. p)
          [collect_axiom_ref_names cert (dar_direct_axioms r), collect_axiom_ref_names cert (dar_transitive_axioms r)])
          (rep_per_declaration (mc_axiom_report cert)),
        collect_axiom_ref_names cert (rep_module_axioms (mc_axiom_report cert))]"

definition verify_name_table_reachable :: "module_cert \<Rightarrow> unit cresult" where
  "verify_name_table_reachable cert =
     rbind (collect_module_names cert) (\<lambda>names.
     guard_res (sort_dedup (\<lambda>n. n) names \<noteq> mc_name_table cert) (NonCanonicalEncoding ''NameTable''))"

section \<open>All checks of the tables\<close>

record validated_certificate_tables =
  vct_level_hashes :: "hash list"
  vct_term_hashes :: "hash list"

definition verify_tables :: "digest \<Rightarrow> module_cert \<Rightarrow> (cert_error + validated_certificate_tables) option" where
  "verify_tables sha cert =
     obind (Some (verify_import_ordering cert)) (\<lambda>_.
     obind (Some (verify_name_ordering cert)) (\<lambda>_.
     obind (Some (validate_level_references cert)) (\<lambda>_.
     obind (level_table_is_normalized cert) (\<lambda>normalized.
     if \<not> normalized then Some (Inl (NonCanonicalEncoding ''LevelTable''))
     else obind (Some (level_node_heights (mc_level_table cert))) (\<lambda>level_heights.
     obind (Some (process_level_table sha cert level_heights)) (\<lambda>level_hashes.
     obind (Some (validate_term_references sha cert)) (\<lambda>_.
     obind (Some (term_node_heights (mc_term_table cert))) (\<lambda>term_heights.
     obind (Some (process_term_table sha cert level_hashes term_heights)) (\<lambda>term_hashes.
     obind (verify_decl_universe_contexts cert) (\<lambda>_.
     obind (verify_reachable_tables_and_bvars cert) (\<lambda>_.
     obind (Some (verify_name_table_reachable cert)) (\<lambda>_.
     Some (Inr \<lparr>vct_level_hashes = level_hashes, vct_term_hashes = term_hashes\<rparr>)))))))))))))"

lemma verify_tables_Inr:
  "verify_tables sha cert = Some (Inr tables) \<longleftrightarrow>
     verify_import_ordering cert = Inr () \<and> verify_name_ordering cert = Inr () \<and>
     validate_level_references cert = Inr () \<and> level_table_is_normalized cert = Some (Inr True) \<and>
     (\<exists>lh th. level_node_heights (mc_level_table cert) = Inr lh \<and>
       process_level_table sha cert lh = Inr (vct_level_hashes tables) \<and>
       validate_term_references sha cert = Inr () \<and> term_node_heights (mc_term_table cert) = Inr th \<and>
       process_term_table sha cert (vct_level_hashes tables) th = Inr (vct_term_hashes tables)) \<and>
     verify_decl_universe_contexts cert = Some (Inr ()) \<and>
     verify_reachable_tables_and_bvars cert = Some (Inr ()) \<and> verify_name_table_reachable cert = Inr ()"
  by (cases tables) (auto simp: verify_tables_def obind_Inr)

end
