(* ===== verification/Cert_Scope.thy ===== *)
theory Cert_Scope
  imports Cert_Tables
begin

text \<open>
  What the checks of the tables say about terms: the terms of declarations are closed, every
  bound variable of the tables has a small index, and the names of declarations are in the
  table. These are the conditions under which the certificate is admitted correctly.
\<close>

section \<open>Tables built in one pass\<close>

lemma fold_res_pass:
  assumes "fold_res (\<lambda>x s. rbind (f s x) (\<lambda>y. Inr (s @ [y]))) xs acc = Inr ys"
  shows "length ys = length acc + length xs \<and> take (length acc) ys = acc \<and>
    (\<forall>i < length xs. f (take (length acc + i) ys) (xs ! i) = Inr (ys ! (length acc + i)))"
  using assms
proof (induction xs arbitrary: acc)
  case (Cons x xs)
  from Cons.prems obtain y where y: "f acc x = Inr y"
    and rest: "fold_res (\<lambda>x s. rbind (f s x) (\<lambda>y. Inr (s @ [y]))) xs (acc @ [y]) = Inr ys"
    by (auto simp: rbind_eq_Inr)
  note IH = Cons.IH [OF rest]
  then have len: "length ys = length acc + length (x # xs)" and pre: "take (Suc (length acc)) ys = acc @ [y]" by simp_all
  then have acc: "take (length acc) ys = acc"
    by (metis append_eq_conv_conj le_Suc_eq min.absorb1 order_refl take_take)
  have at: "ys ! length acc = y" using pre by (metis lessI nth_append_length nth_take)
  have "f (take (length acc + i) ys) ((x # xs) ! i) = Inr (ys ! (length acc + i))" if "i < length (x # xs)" for i
    using that IH y acc at by (cases i) simp_all
  with len acc show ?case by blast
qed simp

lemma pass_at:
  assumes "fold_res (\<lambda>x s. rbind (f s x) (\<lambda>y. Inr (s @ [y]))) xs [] = Inr ys" and "i < length xs"
  shows "f (take i ys) (xs ! i) = Inr (ys ! i)"
  using fold_res_pass [OF assms(1)] assms(2) by simp

lemma pass_length:
  "fold_res (\<lambda>x s. rbind (f s x) (\<lambda>y. Inr (s @ [y]))) xs [] = Inr ys \<Longrightarrow> length ys = length xs"
  using fold_res_pass [of f xs "[]" ys] by simp

section \<open>The node of a term\<close>

lemma expr_from_termE:
  assumes "expr_from_term cert t = Some (Inr e)"
  obtains (leaf) n where "get_at (mc_term_table cert) (unat t) = Some n" "term_children n = []"
      "\<And>i. n \<noteq> TNBVar i" "\<And>k. closed_at k e" "bvars_below 0 e"
  | (bvar) i where "get_at (mc_term_table cert) (unat t) = Some (TNBVar i)" "e = BVar (unat i)"
  | (app) f a x y where "get_at (mc_term_table cert) (unat t) = Some (TNApp f a)" "e = App x y"
      "expr_from_term cert f = Some (Inr x)" "expr_from_term cert a = Some (Inr y)"
  | (lam) f a x y where "get_at (mc_term_table cert) (unat t) = Some (TNLam f a)" "e = Lam ''_'' x y"
      "expr_from_term cert f = Some (Inr x)" "expr_from_term cert a = Some (Inr y)"
  | (pi) f a x y where "get_at (mc_term_table cert) (unat t) = Some (TNPi f a)" "e = Pi ''_'' x y"
      "expr_from_term cert f = Some (Inr x)" "expr_from_term cert a = Some (Inr y)"
proof -
  from assms obtain n where n: "get_at (mc_term_table cert) (unat t) = Some n"
    by (auto simp: expr_from_term.simps split: option.splits)
  note eq = assms [unfolded expr_from_term.simps [of cert t] n option.case]
  show thesis
    using eq by (cases n) (auto simp: obind_Inr intro: leaf [OF n] bvar app lam pi simp: n)
qed

lemma binder_depth_le: "binder_depth e < expr_depth e"
  by (induction e) auto

section \<open>Bounds of loose variables\<close>

lemma bound_closed:
  assumes "term_node_loose_bvar_bounds (mc_term_table cert) = Inr bounds"
    and "expr_from_term cert t = Some (Inr e)" and "bounds ! unat t \<le> k" and "k + expr_depth e < u32_max"
  shows "closed_at k e"
  using assms(2-4)
proof (induction e arbitrary: t k)
  have at: "loose_bvar_bound (take i bounds) (mc_term_table cert ! i) = Inr (bounds ! i)"
    if "i < length (mc_term_table cert)" for i
    using pass_at [OF assms(1) [unfolded term_node_loose_bvar_bounds_def] that] .
  have node: "loose_bvar_bound (take (unat w) bounds) n = Inr (bounds ! unat w)"
    if "get_at (mc_term_table cert) (unat w) = Some n" for w :: term_id and n
    using that at [of "unat w"] by (auto simp: get_at_eq_Some)
  {
    case (BVar i)
    from BVar.prems(1) show ?case
    proof (cases rule: expr_from_termE)
      case (bvar j)
      with node [OF bvar(1)] BVar.prems show ?thesis
        by (auto simp: loose_bvar_bound_def min_def split: if_splits)
    qed simp_all
  next
    case (App x y)
    from App.prems(1) show ?case
    proof (cases rule: expr_from_termE)
      case (app f a x' y')
      with node [OF app(1)] App.prems(2) have "bounds ! unat f \<le> k" "bounds ! unat a \<le> k"
        by (auto simp: loose_bvar_bound_def rbind_eq_Inr get_at_eq_Some)
      with app App show ?thesis by auto
    qed simp_all
  next
    case (Lam n x y)
    from Lam.prems(1) show ?case
    proof (cases rule: expr_from_termE)
      case (lam f a x' y')
      with node [OF lam(1)] Lam.prems(2) have "bounds ! unat f \<le> k" "bounds ! unat a \<le> Suc k"
        by (auto simp: loose_bvar_bound_def rbind_eq_Inr get_at_eq_Some)
      with lam Lam show ?thesis by auto
    qed simp_all
  next
    case (Pi n x y)
    from Pi.prems(1) show ?case
    proof (cases rule: expr_from_termE)
      case (pi f a x' y')
      with node [OF pi(1)] Pi.prems(2) have "bounds ! unat f \<le> k" "bounds ! unat a \<le> Suc k"
        by (auto simp: loose_bvar_bound_def rbind_eq_Inr get_at_eq_Some)
      with pi Pi show ?thesis by auto
    qed simp_all
  }
qed simp_all

section \<open>The search for variables out of scope\<close>

definition scope_children :: "term_node \<Rightarrow> nat \<Rightarrow> (term_id \<times> nat) list" where
  "scope_children n d =
     (case n of
        TNApp f a \<Rightarrow> [(f, d), (a, d)]
      | TNLam ty b \<Rightarrow> [(ty, d), (b, min u32_max (d + 1))]
      | TNPi ty b \<Rightarrow> [(ty, d), (b, min u32_max (d + 1))]
      | _ \<Rightarrow> [])"

definition scope_ok :: "module_cert \<Rightarrow> (term_id \<times> nat) set \<Rightarrow> term_id \<times> nat \<Rightarrow> bool" where
  "scope_ok cert S p \<longleftrightarrow> (\<exists>n. get_at (mc_term_table cert) (unat (fst p)) = Some n \<and>
     (\<forall>i. n = TNBVar i \<longrightarrow> unat i < snd p) \<and> set (scope_children n (snd p)) \<subseteq> S)"

lemma scope_ok_mono: "scope_ok cert S p \<Longrightarrow> S \<subseteq> T \<Longrightarrow> scope_ok cert T p"
  by (auto simp: scope_ok_def)

lemma scope_loop_closed:
  assumes "verify_term_scope_loop cert stack seen = Some r"
  shows "r = Inr () \<longrightarrow> (\<forall>p \<in> set seen. scope_ok cert (set seen \<union> set stack) p) \<longrightarrow>
    (\<exists>S. set seen \<union> set stack \<subseteq> S \<and> (\<forall>p \<in> S. scope_ok cert S p))"
proof (rule verify_term_scope_loop.raw_induct
    [where P = "\<lambda>cert stack seen r. r = Inr () \<longrightarrow> (\<forall>p \<in> set seen. scope_ok cert (set seen \<union> set stack) p) \<longrightarrow>
      (\<exists>S. set seen \<union> set stack \<subseteq> S \<and> (\<forall>p \<in> S. scope_ok cert S p))", OF _ assms])
  fix loop :: "module_cert \<Rightarrow> (term_id \<times> nat) list \<Rightarrow> (term_id \<times> nat) list \<Rightarrow> (cert_error + unit) option"
    and cert stack seen r
  assume IH: "\<And>cert stack seen r. loop cert stack seen = Some r \<Longrightarrow> r = Inr () \<longrightarrow>
      (\<forall>p \<in> set seen. scope_ok cert (set seen \<union> set stack) p) \<longrightarrow>
      (\<exists>S. set seen \<union> set stack \<subseteq> S \<and> (\<forall>p \<in> S. scope_ok cert S p))"
  assume body: "(case stack of
        [] \<Rightarrow> Some (Inr ())
      | (t, depth) # rest \<Rightarrow>
          if (t, depth) \<in> set seen then loop cert rest seen
          else (case get_at (mc_term_table cert) (unat t) of
            None \<Rightarrow> Some (Inl DecodeError)
          | Some node \<Rightarrow>
              let seen' = (t, depth) # seen; deeper = min u32_max (depth + 1) in
              (case node of
                 TNSort _ \<Rightarrow> loop cert rest seen'
               | TNBVar index \<Rightarrow>
                   if unat index \<ge> depth then Some (Inl (InvalidBVar index))
                   else loop cert rest seen'
               | TNConst _ _ \<Rightarrow> loop cert rest seen'
               | TNApp f a \<Rightarrow> loop cert ((f, depth) # (a, depth) # rest) seen'
               | TNLam ty body \<Rightarrow> loop cert ((ty, depth) # (body, deeper) # rest) seen'
               | TNPi ty body \<Rightarrow> loop cert ((ty, depth) # (body, deeper) # rest) seen'))) = Some r"
  show "r = Inr () \<longrightarrow> (\<forall>p \<in> set seen. scope_ok cert (set seen \<union> set stack) p) \<longrightarrow>
      (\<exists>S. set seen \<union> set stack \<subseteq> S \<and> (\<forall>p \<in> S. scope_ok cert S p))"
  proof (intro impI)
    assume r: "r = Inr ()" and inv: "\<forall>p \<in> set seen. scope_ok cert (set seen \<union> set stack) p"
    show "\<exists>S. set seen \<union> set stack \<subseteq> S \<and> (\<forall>p \<in> S. scope_ok cert S p)"
    proof (cases stack)
      case Nil
      with inv show ?thesis by auto
    next
      case (Cons p rest)
      obtain t d where p: "p = (t, d)" by (cases p)
      show ?thesis
      proof (cases "(t, d) \<in> set seen")
        case True
        with body Cons p r have "loop cert rest seen = Some (Inr ())" by simp
        from IH [OF this] inv True Cons p show ?thesis by (simp add: insert_absorb)
      next
        case False
        with body Cons p r obtain n where n: "get_at (mc_term_table cert) (unat t) = Some n"
          by (auto split: option.splits)
        with False body Cons p r have next_loop: "loop cert (scope_children n d @ rest) ((t, d) # seen) = Some (Inr ())"
          and bvar: "\<forall>i. n = TNBVar i \<longrightarrow> unat i < d"
          by (auto simp: scope_children_def Let_def split: term_node.splits if_splits)
        have "scope_ok cert (set ((t, d) # seen) \<union> set (scope_children n d @ rest)) q"
          if "q \<in> set ((t, d) # seen)" for q
        proof (cases "q = (t, d)")
          case True
          with n bvar show ?thesis by (auto simp: scope_ok_def)
        next
          case False
          with that inv have "scope_ok cert (set seen \<union> set stack) q" by simp
          then show ?thesis by (rule scope_ok_mono) (auto simp: Cons p)
        qed
        with IH [OF next_loop] obtain S where "set ((t, d) # seen) \<union> set (scope_children n d @ rest) \<subseteq> S"
          "\<forall>q \<in> S. scope_ok cert S q" by auto
        with Cons p show ?thesis by auto
      qed
    qed
  qed
qed

lemma scope_set_closed:
  assumes "\<forall>p \<in> S. scope_ok cert S p"
    and "(t, k) \<in> S" and "expr_from_term cert t = Some (Inr e)" and "k + expr_depth e < u32_max"
  shows "closed_at k e"
  using assms(2-4)
proof (induction e arbitrary: t k)
  have node: "set (scope_children n d) \<subseteq> S \<and> (\<forall>i. n = TNBVar i \<longrightarrow> unat i < d)"
    if "(w, d) \<in> S" "get_at (mc_term_table cert) (unat w) = Some n" for w d n
    using bspec [OF assms(1) that(1)] that(2) by (simp add: scope_ok_def)
  {
    case (BVar i)
    from BVar.prems(2) show ?case
    proof (cases rule: expr_from_termE)
      case (bvar j)
      with node [OF BVar.prems(1) bvar(1)] show ?thesis by simp
    qed simp_all
  next
    case (App x y)
    from App.prems(2) show ?case
    proof (cases rule: expr_from_termE)
      case (app f a x' y')
      with node [OF App.prems(1) app(1)] App show ?thesis by (auto simp: scope_children_def)
    qed simp_all
  next
    case (Lam n x y)
    from Lam.prems(2) show ?case
    proof (cases rule: expr_from_termE)
      case (lam f a x' y')
      with node [OF Lam.prems(1) lam(1)] Lam show ?thesis
        by (auto simp: scope_children_def min_def split: if_splits)
    qed simp_all
  next
    case (Pi n x y)
    from Pi.prems(2) show ?case
    proof (cases rule: expr_from_termE)
      case (pi f a x' y')
      with node [OF Pi.prems(1) pi(1)] Pi show ?thesis
        by (auto simp: scope_children_def min_def split: if_splits)
    qed simp_all
  }
qed simp_all

lemma scope_closed:
  assumes "verify_term_scope cert t k = Some (Inr ())"
    and "expr_from_term cert t = Some (Inr e)" and "k + expr_depth e < u32_max"
  shows "closed_at k e"
  using scope_loop_closed [OF assms(1) [unfolded verify_term_scope_def]] scope_set_closed assms(2,3) by fastforce

section \<open>Roots and marks\<close>

lemma ofold_invariant:
  assumes "ofold f xs s = Some (Inr s')" and "P s"
    and "\<And>x t t'. x \<in> set xs \<Longrightarrow> P t \<Longrightarrow> f x t = Some (Inr t') \<Longrightarrow> P t' \<and> Q x"
  shows "P s' \<and> (\<forall>x \<in> set xs. Q x)"
  using assms
proof (induction xs arbitrary: s)
  case (Cons x xs)
  from Cons.prems(1) obtain t where t: "f x s = Some (Inr t)" "ofold f xs t = Some (Inr s')"
    by (auto simp: obind_Inr)
  with Cons.prems(2) Cons.prems(3) [of x s t] have "P t \<and> Q x" by simp
  moreover have "P s' \<and> (\<forall>x \<in> set xs. Q x)"
    by (rule Cons.IH [OF t(2)]) (use calculation Cons.prems(3) in auto)
  ultimately show ?case by simp
qed simp

lemma verify_roots_ofold: "verify_roots cert bounds rs marks = ofold (verify_root cert bounds) rs marks"
proof (induction rs arbitrary: marks)
  case (Cons r rs)
  then have "verify_roots cert bounds rs = ofold (verify_root cert bounds) rs" by (rule ext)
  then show ?case by simp
qed simp

lemma mark_invariant:
  assumes "mark_term_reachable terms stack marks = Inr marks'" and "\<forall>t \<in> set stack. P t"
    and "\<forall>t. unat t < length marks \<longrightarrow> marks ! unat t \<longrightarrow> P t"
    and "\<And>t n c. P t \<Longrightarrow> get_at terms (unat t) = Some n \<Longrightarrow> c \<in> set (term_children n) \<Longrightarrow> P c"
  shows "length marks' = length marks \<and> (\<forall>t. unat t < length marks' \<longrightarrow> marks' ! unat t \<longrightarrow> P t)"
  using assms
proof (induction terms stack marks rule: mark_term_reachable.induct)
  case (2 terms t stack marks)
  show ?case
  proof (cases "marks ! unat t")
    case True
    with 2 show ?thesis by (auto split: if_splits)
  next
    case False
    with "2.prems"(1) obtain n where t: "unat t < length marks" and n: "get_at terms (unat t) = Some n"
      and rest: "mark_term_reachable terms (term_children n @ stack) (marks[unat t := True]) = Inr marks'"
      by (auto split: if_splits option.splits)
    have "\<forall>w. unat w < length (marks[unat t := True]) \<longrightarrow> marks[unat t := True] ! unat w \<longrightarrow> P w"
    proof (intro allI impI)
      fix w :: term_id assume w: "unat w < length (marks[unat t := True])" "marks[unat t := True] ! unat w"
      show "P w"
      proof (cases "w = t")
        case True
        with "2.prems"(2) show ?thesis by simp
      next
        case False
        then have "unat w \<noteq> unat t" using unsigned_word_eqI by blast
        with w "2.prems"(3) show ?thesis by simp
      qed
    qed
    moreover have "\<forall>w \<in> set (term_children n @ stack). P w" using "2.prems"(2,4) n by auto
    ultimately have "length marks' = length (marks[unat t := True]) \<and>
        (\<forall>t. unat t < length marks' \<longrightarrow> marks' ! unat t \<longrightarrow> P t)"
      using "2.IH"(2) [OF _ False n rest] "2.prems"(4) t by blast
    then show ?thesis by simp
  qed
qed simp

definition term_scoped :: "module_cert \<Rightarrow> term_id \<Rightarrow> bool" where
  "term_scoped cert t \<longleftrightarrow> (\<exists>e. expr_from_term cert t = Some (Inr e) \<and> bvars_below max_structural_depth e)"

definition closed_under :: "module_cert \<Rightarrow> nat \<Rightarrow> term_id \<Rightarrow> bool" where
  "closed_under cert k t \<longleftrightarrow> (\<exists>e. expr_from_term cert t = Some (Inr e) \<and> closed_at k e)"

definition root_closed :: "module_cert \<Rightarrow> term_id \<Rightarrow> bool" where
  "root_closed cert t \<longleftrightarrow> closed_under cert 0 t"

definition marks_ok :: "module_cert \<Rightarrow> bool list \<Rightarrow> bool" where
  "marks_ok cert marks \<longleftrightarrow> length marks = length (mc_term_table cert) \<and>
     (\<forall>t. unat t < length marks \<longrightarrow> marks ! unat t \<longrightarrow> term_scoped cert t)"

lemma term_scoped_child:
  "term_scoped cert t \<Longrightarrow> get_at (mc_term_table cert) (unat t) = Some n \<Longrightarrow> c \<in> set (term_children n) \<Longrightarrow>
   term_scoped cert c"
  unfolding term_scoped_def by (elim exE conjE, erule expr_from_termE) auto

text \<open>Every node unfolds to a term within the depth limit.\<close>

definition terms_unfold :: "module_cert \<Rightarrow> bool" where
  "terms_unfold cert \<longleftrightarrow> length (mc_term_table cert) \<le> max_term_table_nodes \<and>
     (\<forall>t. unat t < length (mc_term_table cert) \<longrightarrow>
        (\<exists>e. expr_from_term cert t = Some (Inr e) \<and> expr_depth e \<le> max_structural_depth))"

lemma preflight_term_count:
  "structural_preflight cert = Inr cost \<Longrightarrow> length (mc_term_table cert) \<le> max_term_table_nodes"
  by (auto simp: structural_preflight_def validate_counts_def rbind_eq_Inr ensure_count_limit_def split: if_splits)

lemma preflight_unfolds:
  assumes "structural_preflight cert = Inr cost" and "decl_names_in_table cert"
  shows "terms_unfold cert"
  using assms by (rule preflight_tables)
    (auto simp: terms_unfold_def preflight_term_count [OF assms(1)] elim: tabulated_depth)

lemma verify_root_ok:
  assumes "terms_unfold cert" and "term_node_loose_bvar_bounds (mc_term_table cert) = Inr bounds"
    and "marks_ok cert marks" and "verify_root cert bounds t marks = Some (Inr marks')"
  shows "marks_ok cert marks' \<and> root_closed cert t"
proof -
  from assms(4) have t: "unat t < length (mc_term_table cert)"
    and scope: "bounds ! unat t = 0 \<or> verify_term_scope cert t 0 = Some (Inr ())"
    and marks: "mark_term_reachable (mc_term_table cert) [t] marks = Inr marks'"
    by (auto simp: verify_root_def obind_Inr index_panic_def get_at_eq_Some split: if_splits)
  from assms(1) t obtain e where e: "expr_from_term cert t = Some (Inr e)" "expr_depth e \<le> max_structural_depth"
    by (auto simp: terms_unfold_def)
  then have "0 + expr_depth e < u32_max" by (simp add: u32_max_def struct_limit_defs)
  with scope bound_closed [OF assms(2) e(1)] scope_closed [OF _ e(1)] have closed: "closed_at 0 e" by auto
  then have "bvars_below max_structural_depth e"
    using closed_at_bvars_below [OF closed] binder_depth_le [of e] e(2) by (auto elim: bvars_below_mono)
  with e(1) have "term_scoped cert t" by (auto simp: term_scoped_def)
  then have stack: "\<forall>w \<in> set [t]. term_scoped cert w" by simp
  from assms(3) have "\<forall>w. unat w < length marks \<longrightarrow> marks ! unat w \<longrightarrow> term_scoped cert w"
    by (simp add: marks_ok_def)
  note kept = mark_invariant [OF marks stack this term_scoped_child]
  have "marks_ok cert marks'"
    unfolding marks_ok_def
    using conjunct1 [OF kept] conjunct1 [OF assms(3) [unfolded marks_ok_def]] conjunct2 [OF kept] by (intro conjI) (rule trans)
  with e(1) closed show ?thesis by (auto simp: root_closed_def closed_under_def)
qed

text \<open>
  The terms of a declaration with the number of binders they are under. The types of the
  parameters and indices of an inductive are under those of the binders before them; all other
  terms are under none.
\<close>

definition telescope_roots :: "binder_type list \<Rightarrow> (nat \<times> term_id) list" where
  "telescope_roots bs = enumerate 0 (map bt_ty bs)"

fun binder_roots :: "decl_payload \<Rightarrow> (nat \<times> term_id) list" where
  "binder_roots (PInductive n ups ps is s cs r) = telescope_roots (ps @ is)"
| "binder_roots (PInductiveConstrained n ups ucs ps is s cs r) = telescope_roots (ps @ is)"
| "binder_roots (PMutualInductiveBlock n ups ucs is) =
     concat (map (\<lambda>i. telescope_roots (mis_params i @ mis_indices i)) is)"
| "binder_roots _ = []"

definition generated_roots :: "constructor_spec list \<Rightarrow> recursor_spec option \<Rightarrow> term_id list" where
  "generated_roots ctors rec = map cs_ty ctors @ (case rec of None \<Rightarrow> [] | Some r \<Rightarrow> [rs_ty r])"

fun closed_roots :: "decl_payload \<Rightarrow> term_id list" where
  "closed_roots (PAxiom n ups t) = [t]"
| "closed_roots (PAxiomConstrained n ups ucs t) = [t]"
| "closed_roots (PDef n ups t v r) = [t, v]"
| "closed_roots (PDefConstrained n ups ucs t v r) = [t, v]"
| "closed_roots (PTheorem n ups t p op) = [t, p]"
| "closed_roots (PTheoremConstrained n ups ucs t p op) = [t, p]"
| "closed_roots (PInductive n ups ps is s cs r) = generated_roots cs r"
| "closed_roots (PInductiveConstrained n ups ucs ps is s cs r) = generated_roots cs r"
| "closed_roots (PMutualInductiveBlock n ups ucs is) =
     concat (map (\<lambda>i. generated_roots (mis_constructors i) (mis_recursor i)) is)"

definition scoped_roots :: "decl_payload \<Rightarrow> (nat \<times> term_id) list" where
  "scoped_roots p = binder_roots p @ map (Pair 0) (closed_roots p)"

text \<open>These are the terms that the structural checks visit.\<close>

lemma snd_telescope_roots: "snd ` set (telescope_roots bs) = bt_ty ` set bs"
  by (metis list.set_map map_snd_enumerate telescope_roots_def)

lemma scoped_roots_complete: "RootTerm t \<in> set (payload_roots p) \<longleftrightarrow> t \<in> snd ` set (scoped_roots p)"
  by (cases p) (auto simp: scoped_roots_def snd_telescope_roots image_Un image_UN generated_roots_def inductive_roots_def
      constraint_roots_def image_iff split: option.splits)

text \<open>The type of an inductive is the product over its parameters and indices.\<close>

lemma term_position_at:
  assumes "term_position terms node = Inr t" and "length terms \<le> max_term_table_nodes"
  shows "get_at terms (unat t) = Some node"
proof -
  from assms(1) obtain i where i: "position ((=) node) terms = Some i" "t = word_of_nat i"
    by (auto simp: term_position_def ok_or_def split: option.splits)
  with position_Some [OF i(1)] assms(2) show ?thesis
    by (simp add: get_at_def unat_of_length max_term_table_nodes_def)
qed

lemma telescope_closed:
  assumes "length (mc_term_table cert) \<le> max_term_table_nodes"
    and "fold_res (\<lambda>b body. term_position (mc_term_table cert) (TNPi (bt_ty b) body)) (rev bs) body = Inr ty"
    and "closed_under cert k ty" and "j < length bs"
  shows "closed_under cert (k + j) (bt_ty (bs ! j))"
  using assms(2-4)
proof (induction bs arbitrary: ty k j)
  case (Cons b bs)
  from Cons.prems(1) obtain rest where
    rest: "fold_res (\<lambda>b body. term_position (mc_term_table cert) (TNPi (bt_ty b) body)) (rev bs) body = Inr rest"
    and ty: "term_position (mc_term_table cert) (TNPi (bt_ty b) rest) = Inr ty"
    by (auto simp: fold_res_append rbind_eq_Inr)
  from Cons.prems(2) obtain e where "expr_from_term cert ty = Some (Inr e)" "closed_at k e"
    by (auto simp: closed_under_def)
  with term_position_at [OF ty assms(1)] have "closed_under cert k (bt_ty b)" "closed_under cert (Suc k) rest"
    by (auto simp: closed_under_def elim: expr_from_termE)
  with Cons.IH [OF rest, of "Suc k" "j - 1"] Cons.prems(3) show ?case by (cases j) simp_all
qed simp

lemma export_type_closed:
  assumes "length (mc_term_table cert) \<le> max_term_table_nodes"
    and "inductive_export_type_term_id (mc_term_table cert) ps is s = Inr ty" and "root_closed cert ty"
  shows "\<forall>(k, t) \<in> set (telescope_roots (ps @ is)). closed_under cert k t"
proof -
  from assms(2) obtain body where
    "fold_res (\<lambda>b body. term_position (mc_term_table cert) (TNPi (bt_ty b) body)) (rev (ps @ is)) body = Inr ty"
    by (auto simp: inductive_export_type_term_id_def rbind_eq_Inr)
  from telescope_closed [OF assms(1) this assms(3) [unfolded root_closed_def]] show ?thesis
    by (auto simp: telescope_roots_def in_set_enumerate_eq simp del: map_append)
qed

lemma verify_roots_ok:
  assumes "terms_unfold cert" and "term_node_loose_bvar_bounds (mc_term_table cert) = Inr bounds"
    and "marks_ok cert marks" and "verify_roots cert bounds rs marks = Some (Inr marks')"
  shows "marks_ok cert marks' \<and> (\<forall>t \<in> set rs. root_closed cert t)"
  using assms(4) assms(3) unfolding verify_roots_ofold
  by (rule ofold_invariant) (rule verify_root_ok [OF assms(1,2)])

lemma verify_inductive_roots_ok:
  assumes "terms_unfold cert" and "term_node_loose_bvar_bounds (mc_term_table cert) = Inr bounds"
    and "marks_ok cert marks" and "verify_inductive_roots cert bounds ps is s cs r marks = Some (Inr marks')"
  shows "marks_ok cert marks' \<and> (\<forall>t \<in> set (generated_roots cs r). root_closed cert t) \<and>
    (\<forall>(k, t) \<in> set (telescope_roots (ps @ is)). closed_under cert k t)"
proof -
  from assms(4) obtain ty where ty: "inductive_export_type_term_id (mc_term_table cert) ps is s = Inr ty"
    and "verify_roots cert bounds (ty # generated_roots cs r) marks = Some (Inr marks')"
    by (auto simp: verify_inductive_roots_def obind_Inr generated_roots_def simp del: verify_roots.simps)
  from verify_roots_ok [OF assms(1-3) this(2)] export_type_closed [OF _ ty] assms(1) show ?thesis
    by (simp add: terms_unfold_def)
qed

lemma verify_decl_roots_ok:
  assumes "terms_unfold cert" and "term_node_loose_bvar_bounds (mc_term_table cert) = Inr bounds"
    and "marks_ok cert marks" and "verify_decl_roots cert bounds d marks = Some (Inr marks')"
  shows "marks_ok cert marks' \<and> (\<forall>(k, t) \<in> set (scoped_roots (dc_decl d)). closed_under cert k t)"
proof (cases "dc_decl d")
  case (PMutualInductiveBlock n ups ucs "is")
  with assms(4) have "ofold (\<lambda>i. verify_inductive_roots cert bounds (mis_params i) (mis_indices i) (mis_sort i)
      (mis_constructors i) (mis_recursor i)) is marks = Some (Inr marks')" by (simp add: verify_decl_roots_def)
  then have "marks_ok cert marks' \<and>
      (\<forall>i \<in> set is. (\<forall>t \<in> set (generated_roots (mis_constructors i) (mis_recursor i)). root_closed cert t) \<and>
        (\<forall>(k, t) \<in> set (telescope_roots (mis_params i @ mis_indices i)). closed_under cert k t))"
    by (rule ofold_invariant) (use assms(3) verify_inductive_roots_ok [OF assms(1,2)] in blast)+
  with PMutualInductiveBlock show ?thesis by (fastforce simp: scoped_roots_def root_closed_def)
qed (use assms(4) verify_roots_ok [OF assms(1-3)] verify_inductive_roots_ok [OF assms(1-3)]
    in \<open>fastforce simp: verify_decl_roots_def scoped_roots_def root_closed_def simp del: verify_roots.simps\<close>)+

lemma all_marked: "length (filter (\<lambda>s. s) marks) = length marks \<Longrightarrow> i < length marks \<Longrightarrow> marks ! i"
  by (metis filter_True length_filter_less nth_mem order_less_irrefl)

lemma reachable_tables:
  assumes "terms_unfold cert" and "verify_reachable_tables_and_bvars cert = Some (Inr ())"
  shows "(\<forall>t. unat t < length (mc_term_table cert) \<longrightarrow> term_scoped cert t) \<and>
    (\<forall>d \<in> set (mc_declarations cert). \<forall>(k, t) \<in> set (scoped_roots (dc_decl d)). closed_under cert k t)"
proof -
  from assms(2) obtain bounds marks where b: "term_node_loose_bvar_bounds (mc_term_table cert) = Inr bounds"
    and m: "ofold (verify_decl_roots cert bounds) (mc_declarations cert)
        (replicate (length (mc_term_table cert)) False) = Some (Inr marks)"
    and all: "length (filter (\<lambda>s. s) marks) = length (mc_term_table cert)"
    by (auto simp: verify_reachable_tables_and_bvars_def obind_Inr split: if_splits)
  from m have ok: "marks_ok cert marks \<and>
      (\<forall>d \<in> set (mc_declarations cert). \<forall>(k, t) \<in> set (scoped_roots (dc_decl d)). closed_under cert k t)"
  proof (rule ofold_invariant)
    show "marks_ok cert (replicate (length (mc_term_table cert)) False)" by (simp add: marks_ok_def)
  qed (rule verify_decl_roots_ok [OF assms(1) b])
  with all all_marked [of marks] show ?thesis by (auto simp: marks_ok_def)
qed

section \<open>Verified tables\<close>

lemma collect_all_Inr: "collect_all f xs = Inr ns \<Longrightarrow> x \<in> set xs \<Longrightarrow> \<exists>ms. f x = Inr ms"
  unfolding collect_all_def by (induction xs arbitrary: ns) (auto simp: rbind_eq_Inr)

lemma collect_all_parts: "collect_all (\<lambda>p. p) ps = Inr ns \<Longrightarrow> p \<in> set ps \<Longrightarrow> \<exists>ms. p = Inr ms"
  using collect_all_Inr by metis

lemma collect_name_id_Inr: "collect_name_id cert i = Inr ns \<Longrightarrow> unat i < length (mc_name_table cert)"
  by (auto simp: collect_name_id_def rbind_eq_Inr get_at_eq_Some)

lemma names_reachable_in_table:
  assumes "verify_name_table_reachable cert = Inr ()"
  shows "decl_names_in_table cert"
proof -
  from assms obtain names where "collect_module_names cert = Inr names"
    by (auto simp: verify_name_table_reachable_def rbind_eq_Inr)
  then have "\<exists>ms. collect_all (\<lambda>d. collect_all (\<lambda>p. p)
      [collect_decl_payload_names cert (dc_decl d), collect_dependency_entry_names cert (dc_dependencies d),
       collect_axiom_ref_names cert (dc_axiom_dependencies d)]) (mc_declarations cert) = Inr ms"
    unfolding collect_module_names_def by (rule collect_all_parts) simp
  then obtain ms where ms: "collect_all (\<lambda>d. collect_all (\<lambda>p. p)
      [collect_decl_payload_names cert (dc_decl d), collect_dependency_entry_names cert (dc_dependencies d),
       collect_axiom_ref_names cert (dc_axiom_dependencies d)]) (mc_declarations cert) = Inr ms" by blast
  have "unat (payload_name (dc_decl d)) < length (mc_name_table cert)" if "d \<in> set (mc_declarations cert)" for d
  proof -
    from collect_all_Inr [OF ms that] obtain ks where "collect_all (\<lambda>p. p)
      [collect_decl_payload_names cert (dc_decl d), collect_dependency_entry_names cert (dc_dependencies d),
       collect_axiom_ref_names cert (dc_axiom_dependencies d)] = Inr ks" by blast
    from collect_all_parts [OF this, of "collect_decl_payload_names cert (dc_decl d)"]
    obtain ls where "collect_decl_payload_names cert (dc_decl d) = Inr ls" by auto
    from collect_all_parts [OF this [unfolded collect_decl_payload_names_def], of "collect_name_id cert (payload_name (dc_decl d))"]
    show ?thesis by (auto dest: collect_name_id_Inr)
  qed
  then show ?thesis by (simp add: decl_names_in_table_def list_all_iff)
qed

lemma verified_tables_names: "verify_tables sha cert = Some (Inr tables) \<Longrightarrow> decl_names_in_table cert"
  by (simp add: verify_tables_Inr names_reachable_in_table)

lemma verified_tables_scoped:
  assumes "structural_preflight cert = Inr cost" and "verify_tables sha cert = Some (Inr tables)"
  shows "(\<forall>t. unat t < length (mc_term_table cert) \<longrightarrow> term_scoped cert t) \<and>
    (\<forall>d \<in> set (mc_declarations cert). \<forall>(k, t) \<in> set (scoped_roots (dc_decl d)). closed_under cert k t)"
  using reachable_tables [OF preflight_unfolds [OF assms(1) verified_tables_names [OF assms(2)]]] assms(2)
  by (simp add: verify_tables_Inr)

lemma verified_tables_small:
  assumes "structural_preflight cert = Inr cost" and "verify_tables sha cert = Some (Inr tables)"
  shows "cert_small cert"
proof -
  have "unat i < idx_limit" if "mc_term_table cert ! n = TNBVar i" "n < length (mc_term_table cert)" for n i
  proof -
    from preflight_term_count [OF assms(1)] that(2) have n: "unat (word_of_nat n :: term_id) = n"
      by (simp add: unat_of_length max_term_table_nodes_def)
    with verified_tables_scoped [OF assms] that(2) have "term_scoped cert (word_of_nat n)" by simp
    then obtain e where e: "expr_from_term cert (word_of_nat n) = Some (Inr e)" "bvars_below max_structural_depth e"
      by (auto simp: term_scoped_def)
    from that n have "get_at (mc_term_table cert) (unat (word_of_nat n :: term_id)) = Some (TNBVar i)"
      by (simp add: get_at_def)
    with e(1) have "e = BVar (unat i)" by (simp add: expr_from_term.simps)
    with e(2) show ?thesis by (simp add: struct_limit_defs idx_limit_def)
  qed
  then show ?thesis by (auto simp: cert_small_def list_all_length split: term_node.splits)
qed

text \<open>
  C34: The verified terms are closed. After the structural checks and the checks of the tables,
  types, values and proofs of declarations, types of constructors and types of recursors are
  terms without loose variables, and the type of the \<open>j\<close>-th parameter or index of an inductive
  has at most the \<open>j\<close> binders before it as loose variables, in mutual blocks too. These are all the
  terms that a declaration names. No index of the whole table reaches the limit on the depth, so
  that the index arithmetic of the kernel is exact on them.
\<close>

theorem verified_terms_closed:
  assumes "structural_preflight cert = Inr cost" and "verify_tables sha cert = Some (Inr tables)"
  shows "(\<forall>d \<in> set (mc_declarations cert). \<forall>(k, t) \<in> set (scoped_roots (dc_decl d)).
      \<exists>e. expr_from_term cert t = Some (Inr e) \<and> closed_at k e) \<and>
    (\<forall>d \<in> set (mc_declarations cert). \<forall>t. RootTerm t \<in> set (payload_roots (dc_decl d)) \<longrightarrow>
      (\<exists>k. (k, t) \<in> set (scoped_roots (dc_decl d)))) \<and>
    (\<forall>t. unat t < length (mc_term_table cert) \<longrightarrow>
      (\<exists>e. expr_from_term cert t = Some (Inr e) \<and> bvars_below max_structural_depth e))"
  using verified_tables_scoped [OF assms] by (auto simp: closed_under_def term_scoped_def scoped_roots_complete)

definition sample_digest :: digest where
  "sample_digest bytes = sample_hash"

lemma identity_tables: "verify_tables sample_digest identity_cert =
    Some (Inr \<lparr>vct_level_hashes = [sample_hash], vct_term_hashes = replicate 7 sample_hash\<rparr>)"
  by code_simp

text \<open>An inductive with a parameter that is a proposition and an index that is a proof of it.\<close>

definition family_cert :: module_cert where
  "family_cert = identity_cert\<lparr>
     mc_name_table := [[''Identity''], [''family'']], mc_term_table := [TNSort 0, TNBVar 0, TNPi 1 0, TNPi 0 2],
     mc_declarations := [\<lparr>dc_decl = PInductive 1 [] [\<lparr>bt_ty = 0\<rparr>] [\<lparr>bt_ty = 1\<rparr>] 0 [] None,
       dc_dependencies = [], dc_axiom_dependencies = [],
       dc_hashes = \<lparr>dh_decl_interface_hash = sample_hash, dh_decl_certificate_hash = sample_hash\<rparr>\<rparr>],
     mc_export_block := [\<lparr>ee_name = 1, ee_kind = EKInductive, ee_universe_params = [], ee_universe_constraints = [],
       ee_ty = 3, ee_body = None, ee_type_hash = sample_hash, ee_body_hash = None, ee_reducibility = None,
       ee_opacity = None, ee_decl_interface_hash = sample_hash, ee_axiom_dependencies = []\<rparr>]\<rparr>"

theorem verified_terms_closed_witness:
  "\<exists>e. expr_from_term family_cert 1 = Some (Inr e) \<and> closed_at 1 e"
proof -
  have "is_ok (structural_preflight family_cert) \<and> map_option is_ok (verify_tables sample_digest family_cert) = Some True"
    by code_simp
  then obtain cost tables where "structural_preflight family_cert = Inr cost"
    "verify_tables sample_digest family_cert = Some (Inr tables)" by (auto simp: is_ok_iff)
  from conjunct1 [OF verified_terms_closed [OF this]]
  have "\<forall>(k, t) \<in> set (scoped_roots (dc_decl (hd (mc_declarations family_cert)))).
      \<exists>e. expr_from_term family_cert t = Some (Inr e) \<and> closed_at k e"
    by (auto simp: family_cert_def)
  moreover have "(1, 1) \<in> set (scoped_roots (dc_decl (hd (mc_declarations family_cert))))" by code_simp
  ultimately show ?thesis by blast
qed

end
