(* ===== verification/Cert_Levels.thy ===== *)
theory Cert_Levels
  imports Cert_Scope
begin

text \<open>
  What the checks of the tables say about levels: every entry of the level table is a level in
  the normal form of the kernel, and no level has two entries. The comparison of levels that
  the check of the normal form runs computes the order of the kernel; it visits shared levels
  again and again, and takes exponentially many turns on a table that passes the structural
  checks.
\<close>

section \<open>The level of a node\<close>

lemma level_from_nodeE:
  assumes "level_from_node cert w = Some (Inr l)"
  obtains (zero) "get_at (mc_level_table cert) (unat w) = Some LNZero" "l = LZero"
  | (succ) i a where "get_at (mc_level_table cert) (unat w) = Some (LNSucc i)" "l = LSucc a"
      "level_from_node cert i = Some (Inr a)"
  | (max) i j a b where "get_at (mc_level_table cert) (unat w) = Some (LNMax i j)" "l = LMax a b"
      "level_from_node cert i = Some (Inr a)" "level_from_node cert j = Some (Inr b)"
  | (imax) i j a b where "get_at (mc_level_table cert) (unat w) = Some (LNIMax i j)" "l = LIMax a b"
      "level_from_node cert i = Some (Inr a)" "level_from_node cert j = Some (Inr b)"
  | (param) i n where "get_at (mc_level_table cert) (unat w) = Some (LNParam i)" "l = LParam (name_as_dotted n)"
      "get_at (mc_name_table cert) (unat i) = Some n"
proof -
  from assms obtain n where n: "get_at (mc_level_table cert) (unat w) = Some n"
    by (auto simp: level_from_node.simps split: option.splits)
  note eq = assms [unfolded level_from_node.simps [of cert w] n option.case]
  show thesis
    using eq by (cases n) (auto simp: obind_Inr name_to_string_def rbind_eq_Inr n intro: zero succ max imax param)
qed

lemma name_as_dotted_inject:
  assumes "name_is_canonical n" and "name_is_canonical m"
  shows "name_as_dotted n = name_as_dotted m \<longleftrightarrow> n = m"
proof -
  have "split_on CHR ''.'' (join_dots k) = k" if "name_is_canonical k" for k
    using that by (intro split_join)
      (auto simp: name_is_canonical_def list_all_iff dest: component_no_dot)
  with assms show ?thesis unfolding name_as_dotted_def by metis
qed

section \<open>Comparison\<close>

text \<open>The levels of the pending pairs.\<close>

definition pair_levels :: "module_cert \<Rightarrow> level_id \<times> level_id \<Rightarrow> level \<times> level \<Rightarrow> bool" where
  "pair_levels cert p q \<longleftrightarrow>
     level_from_node cert (fst p) = Some (Inr (fst q)) \<and> level_from_node cert (snd p) = Some (Inr (snd q))"

lemma then_with_Equal_right [simp]: "then_with a Equal = a"
  by (cases a) simp_all

lemma compare_turn_levels:
  assumes "pair_levels cert p (a, b)"
  obtains (decided) "compare_turn cert p = Inr (Inl (level_cmp a b))" "level_cmp a b \<noteq> Equal"
  | (pushed) ps qs where "compare_turn cert p = Inr (Inr ps)" "list_all2 (pair_levels cert) ps qs"
      "level_cmp a b = level_cmp_loop qs"
proof -
  obtain v w where p: "p = (v, w)" by (cases p)
  with assms have v: "level_from_node cert v = Some (Inr a)" and w: "level_from_node cert w = Some (Inr b)"
    by (simp_all add: pair_levels_def)
  show thesis
  proof (cases "v = w")
    case True
    with v w p show ?thesis by (intro pushed [of "[]" "[]"]) (simp_all add: compare_turn_def)
  next
    case False
    from v show ?thesis
    proof (cases rule: level_from_nodeE)
      case zero
      from w show ?thesis
        by (cases rule: level_from_nodeE)
          (use zero False p in \<open>auto simp: compare_turn_def node_tag_def cmp_def intro: decided pushed [of "[]" "[]"]\<close>)
    next
      case (succ i x)
      from w show ?thesis
        by (cases rule: level_from_nodeE)
          (use succ False p in \<open>auto simp: compare_turn_def node_tag_def cmp_def pair_levels_def level_cmp_loop_Cons
             intro: decided pushed [of "[(i, _)]" "[(x, _)]"] simp del: level_cmp_loop.simps(2)\<close>)
    next
      case (max i j x y)
      from w show ?thesis
        by (cases rule: level_from_nodeE)
          (use max False p in \<open>auto simp: compare_turn_def node_tag_def cmp_def pair_levels_def level_cmp_loop_Cons
             intro: decided pushed [of "[(i, _), (j, _)]" "[(x, _), (y, _)]"] simp del: level_cmp_loop.simps(2)\<close>)
    next
      case (imax i j x y)
      from w show ?thesis
        by (cases rule: level_from_nodeE)
          (use imax False p in \<open>auto simp: compare_turn_def node_tag_def cmp_def pair_levels_def level_cmp_loop_Cons
             intro: decided pushed [of "[(i, _), (j, _)]" "[(x, _), (y, _)]"] simp del: level_cmp_loop.simps(2)\<close>)
    next
      case (param i n)
      from w show ?thesis
      proof (cases rule: level_from_nodeE)
        case (param j m)
        note a = \<open>a = LParam (name_as_dotted n)\<close>
        have turn: "compare_turn cert p = (if name_as_dotted n = name_as_dotted m then Inr (Inr [])
            else Inr (Inl (cmp (name_as_dotted n) (name_as_dotted m))))"
          using param \<open>get_at (mc_level_table cert) (unat v) = Some (LNParam i)\<close>
            \<open>get_at (mc_name_table cert) (unat i) = Some n\<close> False p
          by (simp add: compare_turn_def node_tag_def Let_def)
        show ?thesis
        proof (cases "name_as_dotted n = name_as_dotted m")
          case True
          with turn a param show ?thesis by (intro pushed [of "[]" "[]"]) simp_all
        next
          case False
          with turn a param show ?thesis by (intro decided) simp_all
        qed
      qed (use param False p in \<open>auto simp: compare_turn_def node_tag_def cmp_def intro: decided\<close>)
    qed
  qed
qed

lemma level_cmp_loop_append: "level_cmp_loop (xs @ ys) = then_with (level_cmp_loop xs) (level_cmp_loop ys)"
  by (induction xs) (auto simp: level_cmp_loop_Cons then_with_assoc simp del: level_cmp_loop.simps(2))

lemma compare_loop_levels:
  assumes "compare_levels_loop cert pending = Some r"
  shows "list_all2 (pair_levels cert) pending qs \<longrightarrow> r = Inr (level_cmp_loop qs)"
proof (rule compare_levels_loop.raw_induct
    [where P = "\<lambda>cert pending r. \<forall>qs. list_all2 (pair_levels cert) pending qs \<longrightarrow> r = Inr (level_cmp_loop qs)",
      OF _ assms, THEN spec])
  fix loop :: "module_cert \<Rightarrow> (level_id \<times> level_id) list \<Rightarrow> (cert_error + ordering) option"
    and cert pending r
  assume IH: "\<And>cert pending r. loop cert pending = Some r \<Longrightarrow>
      \<forall>qs. list_all2 (pair_levels cert) pending qs \<longrightarrow> r = Inr (level_cmp_loop qs)"
    and body: "(case pending of
        [] \<Rightarrow> Some (Inr Equal)
      | p # rest \<Rightarrow>
          (case compare_turn cert p of
             Inl e \<Rightarrow> Some (Inl e)
           | Inr (Inl order) \<Rightarrow> Some (Inr order)
           | Inr (Inr pushed) \<Rightarrow> loop cert (pushed @ rest))) = Some r"
  show "\<forall>qs. list_all2 (pair_levels cert) pending qs \<longrightarrow> r = Inr (level_cmp_loop qs)"
  proof (intro allI impI)
    fix qs assume qs: "list_all2 (pair_levels cert) pending qs"
    show "r = Inr (level_cmp_loop qs)"
    proof (cases pending)
      case Nil
      with qs body show ?thesis by simp
    next
      case (Cons p rest)
      with qs obtain a b rs where q: "qs = (a, b) # rs" "pair_levels cert p (a, b)"
        and rs: "list_all2 (pair_levels cert) rest rs"
        by (cases qs) auto
      from q(2) show ?thesis
      proof (cases rule: compare_turn_levels)
        case decided
        with body Cons q(1) show ?thesis
          by (cases "level_cmp a b") (auto simp: level_cmp_loop_Cons simp del: level_cmp_loop.simps(2) level_cmp_Equal)
      next
        case (pushed ps ss)
        with body Cons have "loop cert (ps @ rest) = Some r" by simp
        moreover from pushed(2) rs have "list_all2 (pair_levels cert) (ps @ rest) (ss @ rs)"
          by (rule list_all2_appendI)
        ultimately have "r = Inr (level_cmp_loop (ss @ rs))" using IH by blast
        then show ?thesis
          using pushed(3) by (simp add: q(1) level_cmp_loop_append level_cmp_loop_Cons del: level_cmp_loop.simps(2))
      qed
    qed
  qed
qed

lemma compare_levels_order:
  assumes "compare_levels cert v w = Some r"
    and "level_from_node cert v = Some (Inr a)" and "level_from_node cert w = Some (Inr b)"
  shows "r = Inr (level_cmp a b)"
  using compare_loop_levels [OF assms(1) [unfolded compare_levels_def], of "[(a, b)]"] assms(2,3)
  by (simp add: pair_levels_def level_cmp_loop_Cons del: level_cmp_loop.simps(2))

section \<open>The comparison returns\<close>

lemma level_references:
  assumes "validate_level_references cert = Inr ()" and "get_at (mc_level_table cert) (unat w) = Some n"
  shows "level_refs_ok cert (unat w, n)"
  using assms by (auto simp: validate_level_references_def check_all_eq_Inr in_set_enumerate_eq get_at_eq_Some)

lemma compare_turn_smaller:
  assumes "validate_level_references cert = Inr ()" and "compare_turn cert p = Inr (Inr pushed)"
  shows "length pushed \<le> 2 \<and> (\<forall>q \<in> set pushed. unat (fst q) < unat (fst p))"
proof (cases "fst p = snd p")
  case True
  with assms(2) show ?thesis by (simp add: compare_turn_def)
next
  case False
  with assms(2) obtain a b where ab: "get_at (mc_level_table cert) (unat (fst p)) = Some a"
    "get_at (mc_level_table cert) (unat (snd p)) = Some b"
    by (auto simp: compare_turn_def rbind_eq_Inr)
  from level_references [OF assms(1) ab(1)] False assms(2) ab show ?thesis
    by (cases a; cases b) (auto simp: compare_turn_def level_refs_ok_def Let_def rbind_eq_Inr split: if_splits)
qed

lemma pushed_weight:
  assumes "length ps \<le> 2" and "\<forall>q \<in> set ps. f q < n"
  shows "(\<Sum>q \<leftarrow> ps. (3 :: nat) ^ f q) < 3 ^ n"
proof (cases n)
  case 0
  with assms(2) show ?thesis by (cases ps) auto
next
  case (Suc m)
  have le: "(3 :: nat) ^ f q \<le> 3 ^ m" if "q \<in> set ps" for q
    using assms(2) that Suc by (intro power_increasing) auto
  have "(\<Sum>q \<leftarrow> ps. (3 :: nat) ^ f q) \<le> (\<Sum>q \<leftarrow> ps. 3 ^ m)"
    by (rule sum_list_mono) (rule le)
  also have "\<dots> = length ps * 3 ^ m" by (simp add: sum_list_triv)
  also have "\<dots> \<le> 2 * 3 ^ m" using assms(1) by simp
  also have "\<dots> < 3 ^ n" using Suc by simp
  finally show ?thesis .
qed

lemma compare_loop_returns:
  assumes "validate_level_references cert = Inr ()"
  shows "returns (compare_levels_loop cert pending)"
proof (induction "\<Sum>p \<leftarrow> pending. (3 :: nat) ^ unat (fst p)" arbitrary: pending rule: less_induct)
  case less
  show ?case
  proof (cases pending)
    case Nil
    then show ?thesis by (simp add: compare_levels_loop.simps)
  next
    case (Cons p rest)
    show ?thesis
    proof (cases "compare_turn cert p")
      case (Inl e)
      with Cons show ?thesis by (simp add: compare_levels_loop.simps)
    next
      case (Inr r)
      show ?thesis
      proof (cases r)
        case (Inl order)
        with Inr Cons show ?thesis by (simp add: compare_levels_loop.simps)
      next
        case (Inr pushed)
        with \<open>compare_turn cert p = Inr r\<close> have t: "compare_turn cert p = Inr (Inr pushed)" by simp
        with compare_turn_smaller [OF assms this] have "(\<Sum>q \<leftarrow> pushed. (3 :: nat) ^ unat (fst q)) < 3 ^ unat (fst p)"
          by (intro pushed_weight) auto
        with Cons have "returns (compare_levels_loop cert (pushed @ rest))" by (intro less) simp
        with t Cons show ?thesis by (subst compare_levels_loop.simps) simp
      qed
    qed
  qed
qed

section \<open>The order of a table\<close>

lemma table_pass:
  assumes "fold_res (\<lambda>ix. table_pass_step sha domain tbl heights (\<lambda>h. key_of (snd ix) h) (fst ix)) (enumerate 0 xs)
      \<lparr>tp_hashes = [], tp_previous = None\<rparr> = Inr s"
  obtains keys where "length (tp_hashes s) = length xs"
    "\<And>i. i < length xs \<Longrightarrow> key_of (xs ! i) (take i (tp_hashes s)) = Inr (keys ! i)"
    "\<And>i j. i < j \<Longrightarrow> j < length xs \<Longrightarrow> (heights ! i, keys ! i) < (heights ! j, keys ! j)"
proof -
  let ?P = "\<lambda>n s. \<exists>keys. length keys = n \<and> length (tp_hashes s) = n \<and>
      (\<forall>i < n. key_of (xs ! i) (take i (tp_hashes s)) = Inr (keys ! i)) \<and>
      (\<forall>i j. i < j \<longrightarrow> j < n \<longrightarrow> (heights ! i, keys ! i) < (heights ! j, keys ! j)) \<and>
      tp_previous s = (if n = 0 then None else Some (heights ! (n - 1), keys ! (n - 1)))"
  have "?P (0 + length xs) s"
    using assms
  proof (rule fold_res_enumerate)
    show "?P 0 \<lparr>tp_hashes = [], tp_previous = None\<rparr>" by simp
  next
    fix n t t' assume n: "n < length xs" and P: "?P (0 + n) t"
      and step: "table_pass_step sha domain tbl heights (\<lambda>h. key_of (snd (0 + n, xs ! n)) h) (fst (0 + n, xs ! n)) t = Inr t'"
    from P obtain keys where keys: "length keys = n" "length (tp_hashes t) = n"
      "\<forall>i < n. key_of (xs ! i) (take i (tp_hashes t)) = Inr (keys ! i)"
      "\<forall>i j. i < j \<longrightarrow> j < n \<longrightarrow> (heights ! i, keys ! i) < (heights ! j, keys ! j)"
      "tp_previous t = (if n = 0 then None else Some (heights ! (n - 1), keys ! (n - 1)))" by auto
    from step obtain key where key: "key_of (xs ! n) (tp_hashes t) = Inr key"
      and asc: "\<not> descends (tp_previous t) (heights ! n) key"
      and t': "t' = \<lparr>tp_hashes = tp_hashes t @ [hash_with_domain sha domain key], tp_previous = Some (heights ! n, key)\<rparr>"
      by (auto simp: table_pass_step_def rbind_eq_Inr index_panic_def get_at_eq_Some split: if_splits)
    have last: "(heights ! (n - 1), keys ! (n - 1)) < (heights ! n, key)" if "n > 0"
      using asc keys(5) that by (auto simp: descends_def less_prod_def')
    have "(heights ! i, (keys @ [key]) ! i) < (heights ! j, (keys @ [key]) ! j)" if ij: "i < j" "j < Suc n" for i j
    proof (cases "j = n")
      case True
      with ij have i: "i \<le> n - 1" "n > 0" by auto
      have "(heights ! i, keys ! i) \<le> (heights ! (n - 1), keys ! (n - 1))"
        using keys(4) [rule_format, of i "n - 1"] i by (cases "i = n - 1") auto
      with last i True ij keys(1) show ?thesis by (auto simp: nth_append intro: le_less_trans)
    next
      case False
      with ij keys(1,4) show ?thesis by (auto simp: nth_append)
    qed
    moreover have "key_of (xs ! i) (take i (tp_hashes t')) = Inr ((keys @ [key]) ! i)" if "i < Suc n" for i
      using that keys(1-3) key t' by (cases "i = n") (auto simp: nth_append)
    ultimately show "?P (Suc (0 + n)) t'"
      using keys(1,2) t' by (intro exI [of _ "keys @ [key]"]) (auto simp: nth_append)
  qed
  then show thesis using that by (auto simp del: less_prod_simp)
qed

lemma windows_ascend: "windows_all (<) xs \<Longrightarrow> sorted_wrt (<) xs" for xs :: "'a::linorder list"
proof (induction "(<) :: 'a \<Rightarrow> 'a \<Rightarrow> bool" xs rule: windows_all.induct)
  case (1 x y r)
  then show ?case by (auto intro: less_trans)
qed simp_all

lemma names_distinct:
  assumes "verify_name_ordering cert = Inr ()" and "get_at (mc_name_table cert) i = Some n"
    and "get_at (mc_name_table cert) j = Some n"
  shows "i = j"
proof -
  from assms(1) have "sorted_wrt (<) (mc_name_table cert)"
    by (simp add: verify_name_ordering_def windows_ascend)
  then have "distinct (mc_name_table cert)" by (simp add: strict_sorted_iff)
  with assms(2,3) show ?thesis by (auto simp: get_at_eq_Some nth_eq_iff_index_eq)
qed

section \<open>No level twice\<close>

lemma hash_at_take: "unat c < i \<Longrightarrow> i \<le> j \<Longrightarrow> j \<le> length hs \<Longrightarrow> hash_at (take i hs) c = hash_at (take j hs) c"
  by (simp add: hash_at_def get_at_def)

lemma index_take: "c < i \<Longrightarrow> i \<le> j \<Longrightarrow> j \<le> length hs \<Longrightarrow> index_panic (take i hs) c = index_panic (take j hs) c"
  by (simp add: index_panic_def get_at_def)

lemma level_nodes_distinct:
  assumes "verify_tables sha cert = Some (Inr tables)" and "i < j" and "j < length (mc_level_table cert)"
  shows "mc_level_table cert ! i \<noteq> mc_level_table cert ! j"
proof
  assume same: "mc_level_table cert ! i = mc_level_table cert ! j" (is "?n = _")
  from assms(1) obtain lh where refs: "validate_level_references cert = Inr ()"
    and lh: "level_node_heights (mc_level_table cert) = Inr lh"
    and pl: "process_level_table sha cert lh = Inr (vct_level_hashes tables)"
    unfolding verify_tables_Inr by blast
  from pl [unfolded process_level_table_def] obtain s
    where "fold_res (\<lambda>il. table_pass_step sha ''NPA-LEVEL-0.1'' ''LevelTable'' lh
         (\<lambda>hashes. level_node_key (snd il) hashes (mc_name_table cert)) (fst il))
       (enumerate 0 (mc_level_table cert)) \<lparr>tp_hashes = [], tp_previous = None\<rparr> = Inr s"
    by (auto simp: rbind_eq_Inr)
  then obtain keys where len: "length (tp_hashes s) = length (mc_level_table cert)"
    and keys: "\<And>i. i < length (mc_level_table cert) \<Longrightarrow>
      level_node_key (mc_level_table cert ! i) (take i (tp_hashes s)) (mc_name_table cert) = Inr (keys ! i)"
    and asc: "\<And>i j. i < j \<Longrightarrow> j < length (mc_level_table cert) \<Longrightarrow> (lh ! i, keys ! i) < (lh ! j, keys ! j)"
    by (rule table_pass [where key_of = "\<lambda>n h. level_node_key n h (mc_name_table cert)"]) blast
  have i: "i < length (mc_level_table cert)" using assms(2,3) by simp
  from refs i have ri: "level_refs_ok cert (i, ?n)"
    by (auto simp: validate_level_references_def check_all_eq_Inr in_set_enumerate_eq)
  then have "level_node_key ?n (take i (tp_hashes s)) (mc_name_table cert) =
      level_node_key ?n (take j (tp_hashes s)) (mc_name_table cert)"
    using assms(2,3) len hash_at_take [of _ i j "tp_hashes s"]
    by (auto simp: level_refs_ok_def level_node_key_def split: level_node.splits)
  with keys [OF i] keys [OF assms(3)] same have k: "keys ! i = keys ! j" by simp
  have lh': "fold_res (\<lambda>x s. rbind (case x of LNZero \<Rightarrow> Inr 0 | LNSucc inner \<Rightarrow>
        rbind (index_panic s (unat inner)) (\<lambda>h. Inr (h + 1)) | LNMax lhs rhs \<Rightarrow> pair_height s lhs rhs
      | LNIMax lhs rhs \<Rightarrow> pair_height s lhs rhs | LNParam _ \<Rightarrow> Inr 0) (\<lambda>y. Inr (s @ [y]))) (mc_level_table cert) [] = Inr lh"
    using lh by (simp add: level_node_heights_def level_height_step_def [abs_def])
  have "lh ! i = lh ! j"
    using pass_at [OF lh' i] pass_at [OF lh' assms(3)] pass_length [OF lh'] ri same assms(2,3)
      index_take [of _ i j lh]
    by (auto simp: level_refs_ok_def pair_height_def split: level_node.splits)
  with k asc [OF assms(2,3)] show False by simp
qed

lemma level_inject:
  assumes "verify_tables sha cert = Some (Inr tables)" and "list_all name_is_canonical (mc_name_table cert)"
    and "level_from_node cert v = Some (Inr l)" and "level_from_node cert w = Some (Inr l)"
  shows "v = w"
  using assms(3,4)
proof (induction l arbitrary: v w)
  have eq: "x = y" if "get_at (mc_level_table cert) (unat x) = Some n" "get_at (mc_level_table cert) (unat y) = Some n"
    for x y :: level_id and n
  proof -
    from that have n: "unat x < length (mc_level_table cert)" "unat y < length (mc_level_table cert)"
      "mc_level_table cert ! unat x = mc_level_table cert ! unat y" by (simp_all add: get_at_eq_Some)
    have "unat x = unat y"
    proof (rule ccontr)
      assume "unat x \<noteq> unat y"
      then consider "unat x < unat y" | "unat y < unat x" by linarith
      then show False using level_nodes_distinct [OF assms(1)] n by cases metis+
    qed
    then show ?thesis by (rule unsigned_word_eqI)
  qed
  {
    case LZero
    from LZero(1) show ?case
    proof (cases rule: level_from_nodeE)
      case zero
      from LZero(2) show ?thesis by (cases rule: level_from_nodeE) (use zero in \<open>auto intro: eq\<close>)
    qed simp_all
  next
    case (LSucc l)
    from LSucc.prems(1) show ?case
    proof (cases rule: level_from_nodeE)
      case (succ i a)
      from LSucc.prems(2) show ?thesis
        by (cases rule: level_from_nodeE) (use succ LSucc.IH in \<open>auto intro: eq\<close>)
    qed simp_all
  next
    case (LMax l r)
    from LMax.prems(1) show ?case
    proof (cases rule: level_from_nodeE)
      case (max i j a b)
      from LMax.prems(2) show ?thesis
        by (cases rule: level_from_nodeE) (use max LMax.IH in \<open>auto intro: eq\<close>)
    qed simp_all
  next
    case (LIMax l r)
    from LIMax.prems(1) show ?case
    proof (cases rule: level_from_nodeE)
      case (imax i j a b)
      from LIMax.prems(2) show ?thesis
        by (cases rule: level_from_nodeE) (use imax LIMax.IH in \<open>auto intro: eq\<close>)
    qed simp_all
  next
    case (LParam p)
    from LParam.prems(1) show ?case
    proof (cases rule: level_from_nodeE)
      case (param i n)
      note first = param
      from LParam.prems(2) show ?thesis
      proof (cases rule: level_from_nodeE)
        case (param j m)
        with first have "name_as_dotted n = name_as_dotted m" by simp
        moreover from first param assms(2) have "name_is_canonical n" "name_is_canonical m"
          by (auto simp: list_all_length get_at_eq_Some)
        ultimately have "n = m" by (metis name_as_dotted_inject)
        with first param have "i = j"
          using names_distinct [of cert "unat i" n "unat j"] assms(1) unsigned_word_eqI
          by (auto simp: verify_tables_Inr)
        with first param show ?thesis by (auto intro: eq)
      qed simp_all
    qed simp_all
  }
qed

section \<open>The normal form\<close>

lemma normalized_pass:
  assumes "normalized_loop cert (enumerate k xs) nats = Some (Inr True)" and "length nats = k"
  obtains ns where "length ns = k + length xs" "take k ns = nats"
    "\<And>i. i < length xs \<Longrightarrow> node_normalized cert (take (k + i) ns) (xs ! i) = Some (Inr True)"
    "\<And>i. i < length xs \<Longrightarrow> ns ! (k + i) = node_natural (take (k + i) ns) (xs ! i)"
  using assms
proof (induction xs arbitrary: k nats thesis)
  case Nil
  show ?case by (rule Nil.prems(1) [of nats]) (use Nil.prems in simp_all)
next
  case (Cons x xs)
  from Cons.prems(2) have x: "node_normalized cert nats x = Some (Inr True)"
    and rest: "normalized_loop cert (enumerate (Suc k) xs) (nats @ [node_natural nats x]) = Some (Inr True)"
    by (auto simp: Let_def obind_Inr split: if_splits)
  from Cons.IH [OF _ rest] Cons.prems(3) obtain ns where ns: "length ns = Suc k + length xs"
    "take (Suc k) ns = nats @ [node_natural nats x]"
    "\<And>i. i < length xs \<Longrightarrow> node_normalized cert (take (Suc k + i) ns) (xs ! i) = Some (Inr True)"
    "\<And>i. i < length xs \<Longrightarrow> ns ! (Suc k + i) = node_natural (take (Suc k + i) ns) (xs ! i)"
    by (metis length_append_singleton)
  from arg_cong [OF ns(2), of "take k"] Cons.prems(3) have pre: "take k ns = nats" by simp
  from arg_cong [OF ns(2), of "\<lambda>l. l ! k"] Cons.prems(3) have at: "ns ! k = node_natural nats x"
    by (simp add: nth_append)
  show ?case
  proof (rule Cons.prems(1) [of ns])
    fix i assume i: "i < length (x # xs)"
    show "node_normalized cert (take (k + i) ns) ((x # xs) ! i) = Some (Inr True)"
      using i ns(3) pre x by (cases i) auto
    show "ns ! (k + i) = node_natural (take (k + i) ns) ((x # xs) ! i)"
      using i ns(4) pre at by (cases i) auto
  qed (use ns(1) pre in simp_all)
qed

lemma level_as_nat_bound: "level_as_nat l = Some n \<Longrightarrow> fits 32 n"
proof -
  have "level_as_nat_loop l v = Some n \<Longrightarrow> n = v \<or> fits 32 n" for v
    by (induction l v rule: level_as_nat_loop.induct) (auto split: if_splits)
  then show "level_as_nat l = Some n \<Longrightarrow> fits 32 n"
    by (fastforce simp: level_as_nat_def fits_def)
qed

lemma numeral_natural:
  assumes "validate_level_references cert = Inr ()" and "length ns = length (mc_level_table cert)"
    and "\<And>i. i < length (mc_level_table cert) \<Longrightarrow> ns ! i = node_natural (take i ns) (mc_level_table cert ! i)"
    and "level_from_node cert w = Some (Inr (numeral_level n))" and "fits 64 n"
  shows "get_at ns (unat w) = Some (Some n)"
  using assms(4,5)
proof (induction n arbitrary: w)
  case 0
  then have "level_from_node cert w = Some (Inr LZero)" by simp
  then show ?case
    by (cases rule: level_from_nodeE) (use assms(2,3) in \<open>auto simp: get_at_eq_Some node_natural_def\<close>)
next
  case (Suc n)
  then have "level_from_node cert w = Some (Inr (LSucc (numeral_level n)))" by simp
  then show ?case
  proof (cases rule: level_from_nodeE)
    case (succ i a)
    with Suc have i: "get_at ns (unat i) = Some (Some n)" by (auto simp: fits_def)
    from level_references [OF assms(1) succ(1)] have "unat i < unat w" by (auto simp: level_refs_ok_def split: if_splits)
    with i have "get_at (take (unat w) ns) (unat i) = Some (Some n)" by (simp add: get_at_eq_Some)
    with succ(1) assms(2) assms(3) [of "unat w"] Suc.prems(2) show ?thesis
      by (auto simp: get_at_eq_Some [of "mc_level_table cert"] get_at_eq_Some [of ns] node_natural_def)
  qed simp_all
qed

text \<open>A table that passes the checks holds levels in normal form.\<close>

lemma level_normal:
  assumes "verify_tables sha cert = Some (Inr tables)" and "list_all name_is_canonical (mc_name_table cert)"
    and "level_from_node cert w = Some (Inr l)"
  shows "normalize_level l = l"
proof -
  from assms(1) have refs: "validate_level_references cert = Inr ()"
    and norm: "normalized_loop cert (enumerate 0 (mc_level_table cert)) [] = Some (Inr True)"
    unfolding verify_tables_Inr level_table_is_normalized_def by blast+
  from normalized_pass [OF norm] obtain ns where len: "length ns = length (mc_level_table cert)"
    and node: "\<And>i. i < length (mc_level_table cert) \<Longrightarrow>
      node_normalized cert (take i ns) (mc_level_table cert ! i) = Some (Inr True)"
    and nat: "\<And>i. i < length (mc_level_table cert) \<Longrightarrow> ns ! i = node_natural (take i ns) (mc_level_table cert ! i)"
    by auto
  have natural: "is_natural (take k ns) i" if "level_from_node cert i = Some (Inr a)" "level_as_nat a = Some n" "unat i < k"
    for i a n k
  proof -
    from that(2) have "a = numeral_level n" "fits 64 n"
      using level_as_nat_Some level_as_nat_bound [OF that(2)] by (auto simp: fits_def)
    with numeral_natural [OF refs len nat] that have "get_at ns (unat i) = Some (Some n)" by simp
    with that(3) have "get_at (take k ns) (unat i) = Some (Some n)" by (simp add: get_at_eq_Some)
    then show ?thesis by (simp add: is_natural_def)
  qed
  show ?thesis using assms(3)
  proof (induction l arbitrary: w)
    case (LSucc l)
    from LSucc.prems show ?case by (cases rule: level_from_nodeE) (use LSucc.IH in auto)
  next
    case (LMax a b)
    from LMax.prems show ?case
    proof (cases rule: level_from_nodeE)
      case (max i j x y)
      then have w: "unat w < length (mc_level_table cert)" "mc_level_table cert ! unat w = LNMax i j"
        by (simp_all add: get_at_eq_Some)
      from level_references [OF refs max(1)] have ij: "unat i < unat w" "unat j < unat w"
        by (auto simp: level_refs_ok_def split: if_splits)
      from node [OF w(1)] w(2) have ne: "i \<noteq> j" "get_at (mc_level_table cert) (unat i) \<noteq> Some LNZero"
        "get_at (mc_level_table cert) (unat j) \<noteq> Some LNZero"
        "\<not> (is_natural (take (unat w) ns) i \<and> is_natural (take (unat w) ns) j)"
        and order: "\<exists>r. compare_levels cert i j = Some (Inr r) \<and> r \<noteq> Greater"
        by (auto simp: node_normalized_def obind_Inr split: if_splits)
      from order compare_levels_order [OF _ max(3,4)] have "level_cmp x y \<noteq> Greater" by auto
      moreover have "x \<noteq> y" using level_inject [OF assms(1,2)] max ne(1) by metis
      moreover have "x \<noteq> LZero" "y \<noteq> LZero"
        using max(3,4) ne(2,3) by (auto elim: level_from_nodeE)
      moreover have "level_as_nat x = None \<or> level_as_nat y = None"
        using natural [OF max(3)] natural [OF max(4)] ij ne(4) by fastforce
      moreover from LMax.IH max have "normalize_level x = x" "normalize_level y = y" by auto
      ultimately show ?thesis using max(2)
        by (auto simp: normalize_max_pair_def level_eq_stack_safe_def level_cmp_stack_safe_eq level_cmp_Greater
            split: option.splits)
    qed simp_all
  next
    case (LIMax a b)
    from LIMax.prems show ?case
    proof (cases rule: level_from_nodeE)
      case (imax i j x y)
      then have w: "unat w < length (mc_level_table cert)" "mc_level_table cert ! unat w = LNIMax i j"
        by (simp_all add: get_at_eq_Some)
      with node [OF w(1)] have "\<not> (case get_at (mc_level_table cert) (unat j) of
          Some LNZero \<Rightarrow> True | Some (LNSucc _) \<Rightarrow> True | _ \<Rightarrow> False)"
        by (auto simp: node_normalized_def split: option.splits level_node.splits)
      moreover from LIMax.IH imax have "normalize_level x = x" "normalize_level y = y" by auto
      ultimately show ?thesis using imax(2,4)
        by (cases rule: level_from_nodeE [OF imax(4)]) (auto simp: normalize_imax_pair_def)
    qed simp_all
  qed simp_all
qed

text \<open>
  C37: The level table of a certificate that passes \<^verbatim>\<open>structural_preflight\<close> and
  \<^verbatim>\<open>verify_tables\<close> is canonical: each of its nodes unfolds to a level that
  \<^verbatim>\<open>normalize_level\<close> leaves alone, and two nodes that unfold to the same level are the same
  node. The names are canonical in every decoded certificate.
\<close>

theorem level_table_canonical:
  assumes "structural_preflight cert = Inr cost" and "verify_tables sha cert = Some (Inr tables)"
    and "list_all name_is_canonical (mc_name_table cert)"
  shows "\<exists>level_of. (\<forall>w. unat w < length (mc_level_table cert) \<longrightarrow>
      level_from_node cert w = Some (Inr (level_of w)) \<and> normalize_level (level_of w) = level_of w) \<and>
    inj_on level_of {w. unat w < length (mc_level_table cert)}"
proof -
  have "\<exists>a. level_from_node cert w = Some (Inr a)" if "unat w < length (mc_level_table cert)" for w
    using assms(1) verified_tables_names [OF assms(2)] by (rule preflight_tables) (use that in \<open>auto elim: tabulated_depth\<close>)
  then obtain level_of where l: "\<And>w. unat w < length (mc_level_table cert) \<Longrightarrow>
      level_from_node cert w = Some (Inr (level_of w))" by metis
  moreover have "inj_on level_of {w. unat w < length (mc_level_table cert)}"
    using level_inject [OF assms(2,3)] l by (auto intro!: inj_onI)
  ultimately show ?thesis using level_normal [OF assms(2,3)] by blast
qed

theorem level_table_canonical_witness:
  "\<exists>level_of. level_from_node identity_cert 0 = Some (Inr (level_of 0)) \<and>
     normalize_level (level_of 0) = level_of 0"
proof -
  have "list_all name_is_canonical (mc_name_table identity_cert)" by code_simp
  from level_table_canonical [OF identity_preflight identity_tables this] show ?thesis
    by (force simp: identity_cert_def)
qed

section \<open>Exponential comparison\<close>

text \<open>
  The comparison visits a shared level once for each path to it. \<open>comparison_turns\<close> bounds
  the turns of the loop: it runs it on fuel.
\<close>

fun compare_levels_fuel :: "nat \<Rightarrow> module_cert \<Rightarrow> (level_id \<times> level_id) list \<Rightarrow> (cert_error + ordering) option" where
  "compare_levels_fuel 0 cert pending = None"
| "compare_levels_fuel (Suc n) cert [] = Some (Inr Equal)"
| "compare_levels_fuel (Suc n) cert (p # rest) =
     (case compare_turn cert p of
        Inl e \<Rightarrow> Some (Inl e)
      | Inr (Inl order) \<Rightarrow> Some (Inr order)
      | Inr (Inr pushed) \<Rightarrow> compare_levels_fuel n cert (pushed @ rest))"

lemma fuel_enough: "compare_levels_fuel n cert pending = Some r \<Longrightarrow> compare_levels_loop cert pending = Some r"
  by (induction n cert pending rule: compare_levels_fuel.induct)
    (auto simp: compare_levels_loop.simps split: sum.splits)

text \<open>
  The tables of the attack: two towers of \<open>IMax\<close> over two entries for the same parameter, and
  the \<open>Max\<close> of their tops, whose comparison is the comparison of the towers. An entry and
  its twin are equal, so the comparison decides at no pair.
\<close>

fun twin_towers :: "nat \<Rightarrow> level_node list" where
  "twin_towers 0 = [LNParam 0, LNParam 0]"
| "twin_towers (Suc n) = twin_towers n @
     [LNIMax (word_of_nat (2 * n)) (word_of_nat (2 * n)),
      LNIMax (word_of_nat (2 * n + 1)) (word_of_nat (2 * n + 1))]"

definition twin_cert :: "nat \<Rightarrow> module_cert" where
  "twin_cert n = identity_cert\<lparr>mc_level_table :=
       twin_towers n @ [LNMax (word_of_nat (2 * n)) (word_of_nat (2 * n + 1))],
     mc_term_table := [], mc_declarations := [], mc_export_block := [],
     mc_axiom_report := \<lparr>rep_per_declaration = [], rep_module_axioms = []\<rparr>\<rparr>"

lemma length_twin_towers [simp]: "length (twin_towers n) = 2 * n + 2"
  by (induction n) simp_all

lemma twin_towers_at:
  "i \<le> n \<Longrightarrow> twin_towers n ! (2 * i) = (case i of 0 \<Rightarrow> LNParam 0 | Suc k \<Rightarrow> LNIMax (word_of_nat (2 * k)) (word_of_nat (2 * k))) \<and>
   twin_towers n ! (2 * i + 1) = (case i of 0 \<Rightarrow> LNParam 0 | Suc k \<Rightarrow> LNIMax (word_of_nat (2 * k + 1)) (word_of_nat (2 * k + 1)))"
proof (induction n)
  case (Suc n)
  then show ?case by (cases "i = Suc n") (auto simp: nth_append)
qed simp

definition twin_pair :: "nat \<Rightarrow> level_id \<times> level_id" where
  "twin_pair i = (word_of_nat (2 * i), word_of_nat (2 * i + 1))"

lemma twin_turn:
  assumes "i \<le> n" and "n < 2 ^ 32"
  shows "compare_turn (twin_cert n) (twin_pair i) =
    Inr (Inr (case i of 0 \<Rightarrow> [] | Suc k \<Rightarrow> [twin_pair k, twin_pair k]))"
proof -
  have small: "unat (word_of_nat j :: level_id) = j" if "j \<le> 2 * n + 1" for j
    using that assms(2) by (intro unat_of_length) simp
  let ?v = "word_of_nat (2 * i) :: level_id" and ?w = "word_of_nat (2 * i + 1) :: level_id"
  have v: "unat ?v = 2 * i" and w: "unat ?w = 2 * i + 1" by (rule small; use assms(1) in simp)+
  then have ne: "?v \<noteq> ?w" by (metis n_not_Suc_n add.commute plus_1_eq_Suc)
  have nodes: "get_at (mc_level_table (twin_cert n)) (2 * i) = Some (twin_towers n ! (2 * i))"
    "get_at (mc_level_table (twin_cert n)) (2 * i + 1) = Some (twin_towers n ! (2 * i + 1))"
    using assms(1) by (simp_all add: get_at_def twin_cert_def nth_append)
  have "get_at (mc_name_table (twin_cert n)) 0 = Some [''Identity'']"
    by (simp add: twin_cert_def identity_cert_def get_at_def)
  then show ?thesis
    using twin_towers_at [OF assms(1)] nodes ne v w
    by (cases i) (simp_all add: compare_turn_def twin_pair_def node_tag_def)
qed

lemma twin_turns:
  assumes "i \<le> n" and "n < 2 ^ 32"
  shows "compare_levels_fuel k (twin_cert n) (twin_pair i # rest) =
    compare_levels_fuel (k - (2 ^ Suc i - 1)) (twin_cert n) rest"
  using assms
proof (induction i arbitrary: k rest)
  case 0
  then show ?case by (cases k) (simp_all add: twin_turn [where i = 0, simplified])
next
  case (Suc i)
  have "(2 :: nat) ^ Suc i \<ge> 1" by simp
  then have "Suc (2 ^ Suc i - 1 + (2 ^ Suc i - 1)) = (2 :: nat) ^ Suc (Suc i) - 1"
    unfolding power_Suc [of _ "Suc i"] by linarith
  then have sub: "Suc m - (2 ^ Suc (Suc i) - 1) = m - (2 ^ Suc i - 1) - (2 ^ Suc i - 1)" for m by linarith
  show ?case
  proof (cases k)
    case (Suc m)
    have "compare_levels_fuel k (twin_cert n) (twin_pair (Suc i) # rest) =
        compare_levels_fuel m (twin_cert n) (twin_pair i # twin_pair i # rest)"
      using Suc.prems by (simp add: \<open>k = Suc m\<close> twin_turn)
    also have "\<dots> = compare_levels_fuel (m - (2 ^ Suc i - 1) - (2 ^ Suc i - 1)) (twin_cert n) rest"
      using Suc.prems Suc.IH by (metis Suc_leD)
    finally show ?thesis by (simp only: \<open>k = Suc m\<close> sub)
  qed simp
qed

text \<open>The costs of the towers.\<close>

fun tower_expansion :: "nat \<Rightarrow> nat" where
  "tower_expansion 0 = 1"
| "tower_expansion (Suc n) = capped_sum [1, tower_expansion n, tower_expansion n] expansion_cap"

fun tower_costs :: "nat \<Rightarrow> table_costs" where
  "tower_costs 0 = push_cost 1 1 (push_cost 1 1 no_costs)"
| "tower_costs (Suc n) = push_cost (n + 2) (tower_expansion (Suc n)) (push_cost (n + 2) (tower_expansion (Suc n)) (tower_costs n))"

lemma length_tower_costs: "length (tc_depths (tower_costs n)) = 2 * n + 2 \<and> length (tc_expansions (tower_costs n)) = 2 * n + 2"
  by (induction n) (simp_all add: push_cost_def no_costs_def)

lemma tower_tops:
  "tc_depths (tower_costs n) ! (2 * n) = n + 1 \<and> tc_depths (tower_costs n) ! (2 * n + 1) = n + 1 \<and>
   tc_expansions (tower_costs n) ! (2 * n) = tower_expansion n \<and> tc_expansions (tower_costs n) ! (2 * n + 1) = tower_expansion n"
  using length_tower_costs by (cases n) (simp_all add: push_cost_def no_costs_def nth_append)

lemma tower_shallow: "n \<le> 8000 \<Longrightarrow> \<not> tc_depth_exceeded (tower_costs n)"
  by (induction n) (simp_all add: push_cost_def no_costs_def max_structural_depth_def)



lemma tower_top_cost:
  assumes "n \<le> 8000"
  shows "level_pair_cost (2 * n + 2) (word_of_nat (2 * n)) (word_of_nat (2 * n + 1)) (tower_costs n) = Inr (n + 2, tower_expansion (Suc n))"
    "level_pair_cost (2 * n + 2) (word_of_nat (2 * n)) (word_of_nat (2 * n)) (tower_costs n) = Inr (n + 2, tower_expansion (Suc n))"
    "level_pair_cost (2 * n + 3) (word_of_nat (2 * n + 1)) (word_of_nat (2 * n + 1)) (push_cost d e (tower_costs n)) = Inr (n + 2, tower_expansion (Suc n))"
proof -
  have small: "unat (word_of_nat (2 * n) :: level_id) = 2 * n" "unat (word_of_nat (2 * n + 1) :: level_id) = 2 * n + 1"
    by (rule unat_of_length; use assms in simp)+
  show "level_pair_cost (2 * n + 2) (word_of_nat (2 * n)) (word_of_nat (2 * n + 1)) (tower_costs n) = Inr (n + 2, tower_expansion (Suc n))"
    "level_pair_cost (2 * n + 2) (word_of_nat (2 * n)) (word_of_nat (2 * n)) (tower_costs n) = Inr (n + 2, tower_expansion (Suc n))"
    "level_pair_cost (2 * n + 3) (word_of_nat (2 * n + 1)) (word_of_nat (2 * n + 1)) (push_cost d e (tower_costs n)) = Inr (n + 2, tower_expansion (Suc n))"
    unfolding level_pair_cost_def checked_child_def small
    using assms length_tower_costs [of n] tower_tops [of n]
    by (simp_all add: get_at_def push_cost_def nth_append saturating_add_def usize_max_def)
qed

lemma tower_level_costs:
  assumes "n \<le> 8000" and "0 < length (mc_name_table cert)"
  shows "fold_res (level_step cert) (enumerate 0 (twin_towers n)) no_costs = Inr (tower_costs n)"
  using assms
proof (induction n)
  case 0
  then show ?case by (simp add: level_step_def level_node_cost_def)
next
  case (Suc n)
  let ?v = "word_of_nat (2 * n) :: level_id" and ?w = "word_of_nat (2 * n + 1) :: level_id"
    and ?c = "\<lambda>s. push_cost (n + 2) (tower_expansion (Suc n)) s"
  from Suc.prems(1) have n: "n \<le> 8000" by simp
  have "level_step cert (2 * n + 2, LNIMax ?v ?v) (tower_costs n) = Inr (?c (tower_costs n))"
    "level_step cert (2 * n + 3, LNIMax ?w ?w) (?c (tower_costs n)) = Inr (?c (?c (tower_costs n)))"
    unfolding level_step_def level_node_cost_def fst_conv snd_conv level_node.case tower_top_cost [OF n] by simp_all
  moreover have "enumerate 0 (twin_towers (Suc n)) =
      enumerate 0 (twin_towers n) @ [(2 * n + 2, LNIMax ?v ?v), (2 * n + 3, LNIMax ?w ?w)]"
    by (simp add: enumerate_append_eq del: of_nat_mult of_nat_add)
  moreover have "fold_res (level_step cert) (enumerate 0 (twin_towers n)) no_costs = Inr (tower_costs n)"
    using Suc n by simp
  ultimately show ?case
    by (simp add: fold_res_append del: of_nat_mult of_nat_add tower_expansion.simps twin_towers.simps)
qed

lemma twin_preflight:
  assumes "n \<le> 8000"
  shows "\<exists>cost. structural_preflight (twin_cert n) = Inr cost"
proof -
  let ?top = "LNMax (word_of_nat (2 * n)) (word_of_nat (2 * n + 1))"
    and ?s = "push_cost (n + 2) (tower_expansion (Suc n)) (tower_costs n)"
  have table: "enumerate 0 (mc_level_table (twin_cert n)) = enumerate 0 (twin_towers n) @ [(2 * n + 2, ?top)]"
    by (simp add: twin_cert_def enumerate_append_eq)
  have "fold_res (level_step (twin_cert n)) (enumerate 0 (twin_towers n)) no_costs = Inr (tower_costs n)"
    by (rule tower_level_costs) (use assms in \<open>simp_all add: twin_cert_def identity_cert_def\<close>)
  moreover have "level_step (twin_cert n) (2 * n + 2, ?top) (tower_costs n) = Inr ?s"
    unfolding level_step_def level_node_cost_def fst_conv snd_conv level_node.case tower_top_cost [OF assms] by simp
  ultimately have levels: "level_costs (twin_cert n) = Inr ?s"
    unfolding level_costs_def table fold_res_append by simp
  have "\<not> tc_depth_exceeded ?s"
    using assms tower_shallow by (simp add: push_cost_def max_structural_depth_def)
  moreover have "validate_counts (twin_cert n) = Inr ()" "validate_semantic_root_references (twin_cert n) = Inr ()"
    "semantic_roots (twin_cert n) = []"
    using assms
    by (simp_all add: validate_counts_def validate_semantic_root_references_def semantic_roots_def twin_cert_def
        identity_cert_def ensure_count_limit_def check_name_def nested_def max_defs)
  moreover have "term_costs (twin_cert n) ?s = Inr no_costs"
    by (simp add: term_costs_def twin_cert_def)
  ultimately show ?thesis using levels by (simp add: structural_preflight_def no_costs_def)
qed

lemma twin_references:
  assumes "n \<le> 8000"
  shows "validate_level_references (twin_cert n) = Inr ()"
proof -
  have "level_refs_ok cert (i, twin_towers n ! i)" if "i < 2 * n + 2" "0 < length (mc_name_table cert)" for i cert
  proof -
    obtain k where k: "i = 2 * k \<or> i = 2 * k + 1" "k \<le> n"
    proof (rule that)
      show "i = 2 * (i div 2) \<or> i = 2 * (i div 2) + 1" by presburger
      show "i div 2 \<le> n" using \<open>i < 2 * n + 2\<close> by linarith
    qed
    with twin_towers_at [OF k(2)] that(2) assms show ?thesis
    proof (cases k)
      case (Suc j)
      have "unat (word_of_nat (2 * j) :: level_id) = 2 * j" "unat (word_of_nat (2 * j + 1) :: level_id) = 2 * j + 1"
        by (rule unat_of_length; use assms k Suc in simp)+
      with twin_towers_at [OF k(2)] k(1) Suc show ?thesis
        by (elim disjE) (simp_all add: level_refs_ok_def del: of_nat_mult of_nat_add)
    qed (auto simp: level_refs_ok_def)
  qed
  moreover have "unat (word_of_nat (2 * n) :: level_id) = 2 * n" "unat (word_of_nat (2 * n + 1) :: level_id) = 2 * n + 1"
    by (rule unat_of_length; use assms in simp)+
  ultimately show ?thesis
    by (auto simp: validate_level_references_def check_all_eq_Inr in_set_enumerate_eq twin_cert_def nth_append
        level_refs_ok_def less_Suc_eq identity_cert_def)
qed

text \<open>
  C40: A certificate with 259 level nodes passes the structural checks, the checks of the order of
  its imports and names and the check of its level references, and the comparison that
  \<^verbatim>\<open>level_table_is_normalized\<close> then runs on its last node is not finished after
  $2^{128}$ turns: shared levels are compared once for each path to them, and the duplicate
  entries that make the comparison run this long are only rejected afterwards.
\<close>

theorem level_comparison_exponential:
  "(\<exists>cost. structural_preflight (twin_cert 128) = Inr cost) \<and>
   verify_import_ordering (twin_cert 128) = Inr () \<and> verify_name_ordering (twin_cert 128) = Inr () \<and>
   validate_level_references (twin_cert 128) = Inr () \<and>
   get_at (mc_level_table (twin_cert 128)) 258 = Some (LNMax 256 257) \<and>
   compare_levels_fuel (2 ^ 128) (twin_cert 128) [(256, 257)] = None"
proof (intro conjI)
  show "compare_levels_fuel (2 ^ 128) (twin_cert 128) [(256, 257)] = None"
    using twin_turns [of 128 128 "2 ^ 128" "[]"] by (simp add: twin_pair_def)
  show "verify_import_ordering (twin_cert 128) = Inr ()" "verify_name_ordering (twin_cert 128) = Inr ()"
    by code_simp+
  show "get_at (mc_level_table (twin_cert 128)) 258 = Some (LNMax 256 257)"
    by (simp add: twin_cert_def get_at_def nth_append)
qed (simp_all add: twin_preflight twin_references)

section \<open>The checks return\<close>

lemma level_returns:
  assumes "validate_level_references cert = Inr ()"
  shows "returns (level_from_node cert w)"
proof (induction "unat w" arbitrary: w rule: less_induct)
  case less
  show ?case
  proof (cases "get_at (mc_level_table cert) (unat w)")
    case None
    then show ?thesis by (simp add: level_from_node.simps)
  next
    case (Some n)
    from level_references [OF assms Some] have "returns (level_from_node cert i)" if "i \<in> set (node_level_children n)" for i
      using that by (intro less) (auto simp: level_refs_ok_def node_level_children_def split: level_node.splits if_splits)
    with Some show ?thesis
      by (subst level_from_node.simps) (auto simp: node_level_children_def intro!: obind_returns split: level_node.splits)
  qed
qed

lemma term_references:
  assumes "validate_term_references sha cert = Inr ()" and "get_at (mc_term_table cert) (unat t) = Some n"
    and "c \<in> set (term_children n)"
  shows "unat c < unat t"
proof -
  from assms(1,2) have "term_refs_ok sha cert (unat t, n)"
    by (auto simp: validate_term_references_def check_all_eq_Inr in_set_enumerate_eq get_at_eq_Some)
  with assms(3) show ?thesis by (cases n) (auto simp: term_refs_ok_def split: if_splits)
qed

lemma scope_loop_returns:
  assumes "validate_term_references sha cert = Inr ()"
  shows "returns (verify_term_scope_loop cert stack seen)"
proof (induction "\<Sum>p \<leftarrow> stack. (3 :: nat) ^ unat (fst p)" arbitrary: stack seen rule: less_induct)
  case less
  show ?case
  proof (cases stack)
    case Nil
    then show ?thesis by (simp add: verify_term_scope_loop.simps)
  next
    case (Cons p rest)
    obtain t depth where p: "p = (t, depth)" by (cases p)
    have go: "returns (verify_term_scope_loop cert (ps @ rest) seen')"
      if "length ps \<le> 2" "\<forall>q \<in> set ps. unat (fst q) < unat t" for ps seen'
      using pushed_weight [OF that] by (intro less) (simp add: Cons p)
    show ?thesis
    proof (cases "get_at (mc_term_table cert) (unat t)")
      case None
      with go [of "[]"] Cons p show ?thesis by (subst verify_term_scope_loop.simps) simp
    next
      case (Some n)
      note kids = term_references [OF assms Some]
      show ?thesis
        using Some Cons p kids go [of "[]"] go [of "[(_, _), (_, _)]"]
        by (subst verify_term_scope_loop.simps) (auto simp: Let_def split: term_node.splits)
    qed
  qed
qed

lemma verify_root_returns:
  "validate_term_references sha cert = Inr () \<Longrightarrow> returns (verify_root cert bounds r marks)"
  by (auto simp: verify_root_def verify_term_scope_def intro!: obind_returns scope_loop_returns)

lemma verify_roots_returns:
  "validate_term_references sha cert = Inr () \<Longrightarrow> returns (verify_roots cert bounds rs marks)"
  by (induction rs arbitrary: marks) (auto intro!: obind_returns verify_root_returns)

lemma ofold_returns: "(\<And>x s. x \<in> set xs \<Longrightarrow> returns (f x s)) \<Longrightarrow> returns (ofold f xs s)"
  by (induction xs arbitrary: s) (auto intro!: obind_returns)

lemma verify_decl_roots_returns:
  "validate_term_references sha cert = Inr () \<Longrightarrow> returns (verify_decl_roots cert bounds d marks)"
  by (auto simp: verify_decl_roots_def verify_inductive_roots_def
      intro!: obind_returns verify_roots_returns verify_root_returns ofold_returns split: decl_payload.splits)

lemma universe_contexts_return:
  assumes "validate_level_references cert = Inr ()"
  shows "returns (verify_decl_universe_contexts cert)"
  unfolding verify_decl_universe_contexts_def verify_decl_universe_context_def
    universe_constraints_from_specs_def universe_constraint_from_spec_def
  using level_returns [OF assms] by (auto intro!: obind_returns otraverse_returns)

lemma normalized_returns:
  assumes "validate_level_references cert = Inr ()"
  shows "returns (level_table_is_normalized cert)"
proof -
  have "returns (node_normalized cert ns n)" for ns n
    using compare_loop_returns [OF assms]
    by (auto simp: node_normalized_def compare_levels_def intro!: obind_returns split: level_node.splits)
  then have "returns (normalized_loop cert xs ns)" for xs ns
    by (induction xs arbitrary: ns) (auto simp: Let_def intro!: obind_returns)
  then show ?thesis by (simp add: level_table_is_normalized_def)
qed

text \<open>
  The checks of the tables return on every certificate, whatever its tables refer to and in
  whatever order: \<^verbatim>\<open>verify_tables\<close> accepts or gives an error.
\<close>

theorem table_checks_return: "\<exists>r. verify_tables sha cert = Some r"
proof -
  have *: "returns (obind (Some r) f)" if "\<And>x. r = Inr x \<Longrightarrow> returns (f x)" for r :: "cert_error + 'x" and f :: "'x \<Rightarrow> (cert_error + 'y) option"
    using that by (cases r) (simp_all add: obind_def)
  have "returns (verify_tables sha cert)"
    unfolding verify_tables_def verify_reachable_tables_and_bvars_def
    by (auto intro!: * obind_returns normalized_returns universe_contexts_return ofold_returns verify_decl_roots_returns)
  then show ?thesis by (simp add: returns_def)
qed

end
