(* ===== verification/Cert_Verify.thy ===== *)
theory Cert_Verify
  imports Cert_Levels
begin

text \<open>
  The verification of a certificate before its imports (\<^verbatim>\<open>verify.rs\<close>): the comparison with
  the canonical encoding, the hashes of the declarations, of the exports, of the axiom report and
  of the whole certificate, the order of the declarations and the policy on axioms. The
  certificate hash determines the certificate up to a collision, and the order of the declarations
  is fixed by their dependencies and names.
\<close>

section \<open>The canonical encoding\<close>

text \<open>
  The bytes that were verified against the encoding, or the hash that an encoder computed on the
  way; the verification of bytes only makes the first.
\<close>

datatype canonical_certificate_encoding =
    AuthoritativeBytes certificate_format_version "byte list" nat
  | Streamed certificate_format_version hash

definition verify_canonical_encoding :: "module_cert \<Rightarrow> byte list \<Rightarrow> canonical_certificate_encoding cresult" where
  "verify_canonical_encoding cert bytes =
     rbind (encode_module_cert_full_with_boundary_for_header cert) (\<lambda>canonical.
     if fe_bytes canonical \<noteq> bytes then Inl (NonCanonicalEncoding ''ModuleCert'')
     else if fe_certificate_hash_input_end canonical > length bytes then Inl (NonCanonicalEncoding ''ModuleCert'')
     else Inr (AuthoritativeBytes (fe_version canonical) bytes (fe_certificate_hash_input_end canonical)))"

section \<open>Hashes\<close>

record pending_certificate_hash_checks =
  pch_version :: certificate_format_version
  pch_expected_export_block :: "export_entry list"
  pch_export_bytes :: "byte list"

definition verify_decl_hashes ::
    "digest \<Rightarrow> certificate_format_version \<Rightarrow> module_cert \<Rightarrow> validated_certificate_tables \<Rightarrow> decl_cert \<Rightarrow>
     (cert_error + unit) option" where
  "verify_decl_hashes sha version cert tables d =
     obind (compute_decl_hashes sha version (dc_decl d) (dc_dependencies d) (dc_axiom_dependencies d)
         \<lparr>dht_terms = mc_term_table cert, dht_level_hashes = vct_level_hashes tables,
          dht_term_hashes = vct_term_hashes tables, dht_names = mc_name_table cert\<rparr>) (\<lambda>expected.
     if dh_decl_interface_hash expected \<noteq> dh_decl_interface_hash (dc_hashes d)
     then Some (Inl (HashMismatch HODeclInterface (dh_decl_interface_hash (dc_hashes d))
            (dh_decl_interface_hash expected)))
     else if dh_decl_certificate_hash expected \<noteq> dh_decl_certificate_hash (dc_hashes d)
     then Some (Inl (HashMismatch HODeclCertificate (dh_decl_certificate_hash (dc_hashes d))
            (dh_decl_certificate_hash expected)))
     else Some (Inr ()))"

definition verify_hashes_through_export ::
    "digest \<Rightarrow> module_cert \<Rightarrow> validated_certificate_tables \<Rightarrow> (cert_error + pending_certificate_hash_checks) option" where
  "verify_hashes_through_export sha cert tables =
     obind (Some (cert_format_version (mc_header cert))) (\<lambda>version.
     obind (otraverse (verify_decl_hashes sha version cert tables) (mc_declarations cert)) (\<lambda>_.
     Some (rbind (build_export_block (mc_declarations cert) (mc_term_table cert) (vct_term_hashes tables)) (\<lambda>block.
       Inr \<lparr>pch_version = version, pch_expected_export_block = block,
         pch_export_bytes = encode_export_block block\<rparr>))))"

text \<open>The bytes whose hash is the certificate hash, or that hash.\<close>

definition canonical_certificate_hash ::
    "digest \<Rightarrow> canonical_certificate_encoding \<Rightarrow> hash" where
  "canonical_certificate_hash sha canonical =
     (case canonical of
        AuthoritativeBytes version bytes input_end \<Rightarrow>
          hash_with_domain sha (module_certificate_domain version) (take input_end bytes)
      | Streamed version computed \<Rightarrow> computed)"

definition verify_pending_export_and_axiom_claims ::
    "digest \<Rightarrow> module_cert \<Rightarrow> pending_certificate_hash_checks \<Rightarrow> unit cresult" where
  "verify_pending_export_and_axiom_claims sha cert pending =
     (let expected_export = hash_with_domain sha MODULE_EXPORT_DOMAIN (pch_export_bytes pending);
          expected_axioms = hash_with_domain sha ''NPA-AXIOM-REPORT-0.1'' (encode_axiom_report (mc_axiom_report cert)) in
      if pch_expected_export_block pending \<noteq> mc_export_block cert \<or>
         expected_export \<noteq> mh_export_hash (mc_hashes cert)
      then Inl (HashMismatch HOExportBlock (mh_export_hash (mc_hashes cert)) expected_export)
      else if expected_axioms \<noteq> mh_axiom_report_hash (mc_hashes cert)
      then Inl (HashMismatch HOAxiomReport (mh_axiom_report_hash (mc_hashes cert)) expected_axioms)
      else Inr ())"

definition check_certificate_hash :: "hash \<Rightarrow> module_cert \<Rightarrow> unit cresult" where
  "check_certificate_hash expected cert =
     (if expected = mh_certificate_hash (mc_hashes cert) then Inr ()
      else Inl (HashMismatch HOModuleCertificate (mh_certificate_hash (mc_hashes cert)) expected))"

definition verify_hashes_from_canonical_input ::
    "digest \<Rightarrow> module_cert \<Rightarrow> validated_certificate_tables \<Rightarrow> canonical_certificate_encoding \<Rightarrow>
     (cert_error + unit) option" where
  "verify_hashes_from_canonical_input sha cert tables canonical =
     obind (verify_hashes_through_export sha cert tables) (\<lambda>pending.
     Some (rbind (verify_pending_export_and_axiom_claims sha cert pending) (\<lambda>_.
       check_certificate_hash (canonical_certificate_hash sha canonical) cert)))"

text \<open>A certificate that was just built has no bytes yet.\<close>

definition verify_hashes_for_built_certificate ::
    "digest \<Rightarrow> module_cert \<Rightarrow> validated_certificate_tables \<Rightarrow> (cert_error + unit) option" where
  "verify_hashes_for_built_certificate sha cert tables =
     obind (verify_hashes_through_export sha cert tables) (\<lambda>pending.
     Some (rbind (encode_module_cert_without_certificate_hash cert) (\<lambda>bytes.
       rbind (verify_pending_export_and_axiom_claims sha cert pending) (\<lambda>_.
       check_certificate_hash (hash_with_domain sha (module_certificate_domain (pch_version pending)) bytes) cert))))"

definition verify_hash_and_table_checks ::
    "digest \<Rightarrow> module_cert \<Rightarrow> canonical_certificate_encoding \<Rightarrow> (cert_error + unit) option" where
  "verify_hash_and_table_checks sha cert canonical =
     obind (Some (verify_header (mc_header cert))) (\<lambda>_.
     obind (verify_tables sha cert) (\<lambda>tables.
     verify_hashes_from_canonical_input sha cert tables canonical))"

definition verify_built_hash_and_table_checks :: "digest \<Rightarrow> module_cert \<Rightarrow> (cert_error + unit) option" where
  "verify_built_hash_and_table_checks sha cert =
     obind (Some (verify_header (mc_header cert))) (\<lambda>_.
     obind (verify_tables sha cert) (\<lambda>tables.
     verify_hashes_for_built_certificate sha cert tables))"

section \<open>The order of the declarations\<close>

definition decl_name_as_name :: "module_cert \<Rightarrow> nat \<Rightarrow> cname cresult" where
  "decl_name_as_name cert i =
     rbind (ok_or DecodeError (get_at (mc_declarations cert) i)) (\<lambda>d.
     ok_or DecodeError (get_at (mc_name_table cert) (unat (payload_name (dc_decl d)))))"

definition ensure_unique_names :: "cname list \<Rightarrow> unit cresult" where
  "ensure_unique_names names =
     rbind (fold_res (\<lambda>n seen. if n \<in> set seen then Inl (DuplicateName n) else Inr (n # seen)) names []) (\<lambda>_. Inr ())"

definition reserved_core_primitive_name :: "cname \<Rightarrow> bool" where
  "reserved_core_primitive_name name = False"

definition generated_by :: "constructor_spec list \<Rightarrow> recursor_spec option \<Rightarrow> name_id \<Rightarrow> bool" where
  "generated_by ctors rec name \<longleftrightarrow>
     list_ex (\<lambda>c. cs_name c = name) ctors \<or> (case rec of None \<Rightarrow> False | Some r \<Rightarrow> rs_name r = name)"

definition local_generated_entry_exists :: "module_cert \<Rightarrow> usize \<Rightarrow> name_id \<Rightarrow> bool cresult" where
  "local_generated_entry_exists cert decl_index name =
     rbind (ok_or DecodeError (get_at (mc_declarations cert) (unat decl_index))) (\<lambda>d.
     Inr (case dc_decl d of
        PInductive n ups ps is s cs r \<Rightarrow> generated_by cs r name
      | PInductiveConstrained n ups ucs ps is s cs r \<Rightarrow> generated_by cs r name
      | PMutualInductiveBlock n ups ucs is \<Rightarrow>
          list_ex (\<lambda>i. mis_name i = name \<or> generated_by (mis_constructors i) (mis_recursor i) name) is
      | _ \<Rightarrow> False))"

text \<open>One dependency of the declaration \<open>i\<close>: the local declaration it adds, if any.\<close>

definition ordered_dependency ::
    "module_cert \<Rightarrow> cname list \<Rightarrow> nat \<Rightarrow> dependency_entry \<Rightarrow> nat list \<Rightarrow> nat list cresult" where
  "ordered_dependency cert local_names i dep deps =
     (if dependency_kind dep = DKLocalImplementation
      then (case dependency_global_ref dep of
              GLocal j \<Rightarrow> Inr (if unat j < i then unat j # deps else deps)
            | _ \<Rightarrow> Inr deps)
      else (case dependency_global_ref dep of
              GLocal j \<Rightarrow>
                if unat j \<ge> i then Inl (DependencyCycle (local_names ! i)) else Inr (unat j # deps)
            | GLocalGenerated j name \<Rightarrow>
                if unat j \<ge> i then Inl (DependencyCycle (local_names ! i))
                else rbind (local_generated_entry_exists cert j name) (\<lambda>exists.
                  if \<not> exists
                  then rbind (ok_or DecodeError (get_at (mc_name_table cert) (unat name))) (\<lambda>n. Inl (UnknownDependency n))
                  else Inr (unat j # deps))
            | GBuiltin _ _ \<Rightarrow> Inr deps
            | GImported _ _ _ \<Rightarrow> Inr deps))"

definition ordered_dependencies :: "module_cert \<Rightarrow> cname list \<Rightarrow> nat list list cresult" where
  "ordered_dependencies cert local_names =
     traverse (\<lambda>(i, d). fold_res (ordered_dependency cert local_names i) (dc_dependencies d) [])
       (enumerate 0 (mc_declarations cert))"

text \<open>
  The rounds of the loop: every declaration whose dependencies are emitted is ready, and the
  ready ones are emitted in the order of their names.
\<close>

function emit_declarations ::
    "nat list list \<Rightarrow> cname list \<Rightarrow> nat list \<Rightarrow> nat list \<Rightarrow> nat list cresult" where
  "emit_declarations dependencies local_names [] emitted = Inr emitted"
| "emit_declarations dependencies local_names (first # others) emitted =
     (let remaining = first # others;
          ready = filter (\<lambda>i. list_all (\<lambda>j. j \<in> set emitted) (dependencies ! i)) remaining in
      if ready = [] then Inl (DependencyCycle (local_names ! first))
      else emit_declarations dependencies local_names (filter (\<lambda>i. i \<notin> set ready) remaining)
             (emitted @ sort_key (\<lambda>i. local_names ! i) ready))"
  by pat_completeness auto
termination
proof (relation "measure (\<lambda>(_, _, remaining, _). length remaining)")
  fix dependencies :: "nat list list" and local_names :: "cname list" and first others and emitted remaining ready :: "nat list"
  assume r: "remaining = first # others" and ready: "ready = filter (\<lambda>i. list_all (\<lambda>j. j \<in> set emitted) (dependencies ! i)) remaining"
    and "ready \<noteq> []"
  from ready have "set ready \<subseteq> set remaining" by auto
  then have "hd ready \<in> set remaining" "hd ready \<in> set ready" using hd_in_set [OF \<open>ready \<noteq> []\<close>] by blast+
  then have "length (filter (\<lambda>i. i \<notin> set ready) remaining) < length remaining" by (auto intro: length_filter_less)
  with r show "((dependencies, local_names, filter (\<lambda>i. i \<notin> set ready) remaining,
      emitted @ sort_key (\<lambda>i. local_names ! i) ready), dependencies, local_names, first # others, emitted)
    \<in> measure (\<lambda>(_, _, remaining, _). length remaining)" by simp
qed simp

definition verify_declaration_order :: "module_cert \<Rightarrow> unit cresult" where
  "verify_declaration_order cert =
     (let n = length (mc_declarations cert) in
      rbind (traverse (decl_name_as_name cert) [0..<n]) (\<lambda>local_names.
      rbind (ensure_unique_names local_names) (\<lambda>_.
      rbind (check_all (\<lambda>name. guard_res (reserved_core_primitive_name name) (ReservedCorePrimitive name)) local_names) (\<lambda>_.
      rbind (ordered_dependencies cert local_names) (\<lambda>dependencies.
      rbind (emit_declarations dependencies local_names [0..<n] []) (\<lambda>expected.
      if expected \<noteq> [0..<n] then Inl (NonCanonicalEncoding ''Declarations'') else Inr ()))))))"

section \<open>The policy on axioms\<close>

definition enforce_axiom_policy_for_report ::
    "cname list \<Rightarrow> axiom_report \<Rightarrow> axiom_policy \<Rightarrow> unit cresult" where
  "enforce_axiom_policy_for_report names report policy =
     check_all (\<lambda>a.
       rbind (ok_or DecodeError (get_at names (unat (ar_name a)))) (\<lambda>name.
       rbind (guard_res (pol_deny_sorry policy \<and> contains_str ''sorry'' (name_as_dotted name)) (SorryDenied name)) (\<lambda>_.
       let require_allowlist = pol_mode policy = HighTrust \<or> pol_allowlisted_axioms policy \<noteq> [] in
       guard_res (require_allowlist \<and> name \<notin> set (pol_allowlisted_axioms policy)) (ForbiddenAxiom name))))
       (rep_module_axioms report)"

definition enforce_axiom_policy :: "module_cert \<Rightarrow> axiom_policy \<Rightarrow> unit cresult" where
  "enforce_axiom_policy cert policy =
     enforce_axiom_policy_for_report (mc_name_table cert) (mc_axiom_report cert) policy"

text \<open>\<^verbatim>\<open>enforce_core_feature_policy\<close> has nothing to check, since there is no core feature.\<close>

definition enforce_import_axiom_policy :: "module_cert list \<Rightarrow> axiom_policy \<Rightarrow> unit cresult" where
  "enforce_import_axiom_policy views policy =
     check_all (\<lambda>i. enforce_axiom_policy_for_report (mc_name_table i) (mc_axiom_report i) policy) views"

lemma enforce_axiom_policy_ok:
  "enforce_axiom_policy_for_report names report policy = Inr () \<longleftrightarrow>
     (\<forall>a \<in> set (rep_module_axioms report). \<exists>name. get_at names (unat (ar_name a)) = Some name \<and>
        \<not> (pol_deny_sorry policy \<and> contains_str ''sorry'' (name_as_dotted name)) \<and>
        (pol_mode policy = HighTrust \<or> pol_allowlisted_axioms policy \<noteq> [] \<longrightarrow> name \<in> set (pol_allowlisted_axioms policy)))"
  unfolding enforce_axiom_policy_for_report_def check_all_eq_Inr
proof (rule ball_cong [OF refl])
  fix a
  show "rbind (ok_or DecodeError (get_at names (unat (ar_name a)))) (\<lambda>name.
       rbind (guard_res (pol_deny_sorry policy \<and> contains_str ''sorry'' (name_as_dotted name)) (SorryDenied name)) (\<lambda>_.
       let require_allowlist = pol_mode policy = HighTrust \<or> pol_allowlisted_axioms policy \<noteq> [] in
       guard_res (require_allowlist \<and> name \<notin> set (pol_allowlisted_axioms policy)) (ForbiddenAxiom name))) = Inr () \<longleftrightarrow>
    (\<exists>name. get_at names (unat (ar_name a)) = Some name \<and>
        \<not> (pol_deny_sorry policy \<and> contains_str ''sorry'' (name_as_dotted name)) \<and>
        (pol_mode policy = HighTrust \<or> pol_allowlisted_axioms policy \<noteq> [] \<longrightarrow> name \<in> set (pol_allowlisted_axioms policy)))"
    by (cases "get_at names (unat (ar_name a))")
      (auto simp: rbind_eq_Inr guard_res_def Let_def simp del: contains_str.simps)
qed

section \<open>The order is canonical\<close>

text \<open>
  The depth of a declaration: the length of the longest chain of dependencies below it.
\<close>

function decl_depth :: "nat list list \<Rightarrow> nat \<Rightarrow> nat" where
  "decl_depth dependencies i =
     fold max (map (\<lambda>j. Suc (decl_depth dependencies j)) (filter (\<lambda>j. j < i) (dependencies ! i))) 0"
  by pat_completeness auto
termination
  by (relation "measure snd") auto

declare decl_depth.simps [simp del]

lemma fold_max_le: "fold max xs a \<le> (k :: nat) \<longleftrightarrow> a \<le> k \<and> (\<forall>x \<in> set xs. x \<le> k)"
  by (induction xs arbitrary: a) auto

lemma depth_le:
  assumes "\<forall>j \<in> set (dependencies ! i). j < i"
  shows "decl_depth dependencies i \<le> k \<longleftrightarrow> (\<forall>j \<in> set (dependencies ! i). decl_depth dependencies j < k)"
  using assms by (subst decl_depth.simps) (auto simp: fold_max_le)

text \<open>The rounds emit the declarations depth by depth.\<close>

definition emitted_before :: "nat list list \<Rightarrow> cname list \<Rightarrow> nat \<Rightarrow> nat \<Rightarrow> nat list" where
  "emitted_before dependencies names n k =
     concat (map (\<lambda>d. sort_key (\<lambda>i. names ! i) (filter (\<lambda>i. decl_depth dependencies i = d) [0..<n])) [0..<k])"

lemma emitted_before_Suc: "emitted_before dependencies names n (Suc k) = emitted_before dependencies names n k @
    sort_key (\<lambda>i. names ! i) (filter (\<lambda>i. decl_depth dependencies i = k) [0..<n])"
  by (simp add: emitted_before_def)

lemma set_emitted_before: "set (emitted_before dependencies names n k) = {i. i < n \<and> decl_depth dependencies i < k}"
  by (auto simp: emitted_before_def)

lemma emit_by_depth:
  assumes earlier: "\<And>i. i < n \<Longrightarrow> \<forall>j \<in> set (dependencies ! i). j < i"
    and "emit_declarations dependencies names (filter (\<lambda>i. k \<le> decl_depth dependencies i) [0..<n])
      (emitted_before dependencies names n k) = Inr expected"
  shows "\<exists>m. expected = emitted_before dependencies names n m"
  using assms(2)
proof (induction "length (filter (\<lambda>i. k \<le> decl_depth dependencies i) [0..<n])" arbitrary: k rule: less_induct)
  case less
  let ?rem = "filter (\<lambda>i. k \<le> decl_depth dependencies i) [0..<n]"
  show ?case
  proof (cases ?rem)
    case Nil
    with less.prems show ?thesis by auto
  next
    case (Cons first others)
    let ?ready = "filter (\<lambda>i. list_all (\<lambda>j. j \<in> set (emitted_before dependencies names n k)) (dependencies ! i)) ?rem"
    have ready: "?ready = filter (\<lambda>i. decl_depth dependencies i = k) [0..<n]"
      unfolding filter_filter
    proof (rule filter_cong [OF refl])
      fix i assume "i \<in> set [0..<n]"
      then have i: "i < n" by simp
      from depth_le [OF earlier [OF i], of k] earlier [OF i] i
      show "(k \<le> decl_depth dependencies i \<and> list_all (\<lambda>j. j \<in> set (emitted_before dependencies names n k)) (dependencies ! i)) \<longleftrightarrow>
          decl_depth dependencies i = k"
        by (force simp: list_all_iff set_emitted_before)
    qed
    have rest: "filter (\<lambda>i. i \<notin> set ?ready) ?rem = filter (\<lambda>i. Suc k \<le> decl_depth dependencies i) [0..<n]"
      unfolding ready by (auto simp: filter_filter intro: filter_cong)
    from less.prems [unfolded Cons emit_declarations.simps Let_def, folded Cons]
    have nonempty: "?ready \<noteq> []"
      and round: "emit_declarations dependencies names (filter (\<lambda>i. i \<notin> set ?ready) ?rem)
        (emitted_before dependencies names n k @ sort_key (\<lambda>i. names ! i) ?ready) = Inr expected"
      by (auto simp only: sum.distinct not_False_eq_True split: if_splits)
    have "hd ?ready \<in> set ?ready" using nonempty by (rule hd_in_set)
    moreover from this have "hd ?ready \<in> set ?rem" by (rule subsetD [OF filter_is_subset])
    ultimately have "length (filter (\<lambda>i. i \<notin> set ?ready) ?rem) < length ?rem"
      by (intro length_filter_less [of "hd ?ready"]) simp_all
    then have "length (filter (\<lambda>i. Suc k \<le> decl_depth dependencies i) [0..<n]) < length ?rem" unfolding rest .
    moreover from round have "emit_declarations dependencies names (filter (\<lambda>i. Suc k \<le> decl_depth dependencies i) [0..<n])
        (emitted_before dependencies names n (Suc k)) = Inr expected"
      unfolding rest unfolding ready emitted_before_Suc .
    ultimately show ?thesis by (rule less.hyps)
  qed
qed

lemma ensure_unique_names_ok: "ensure_unique_names names = Inr () \<longleftrightarrow> distinct names"
proof -
  have "(\<exists>s. fold_res (\<lambda>n seen. if n \<in> set seen then Inl (DuplicateName n) else Inr (n # seen)) names acc = Inr s) \<longleftrightarrow>
      distinct names \<and> set names \<inter> set acc = {}" for acc
    by (induction names arbitrary: acc) auto
  then show ?thesis by (auto simp: ensure_unique_names_def rbind_eq_Inr)
qed

lemma traverse_nth: "traverse f xs = Inr ys \<longleftrightarrow> length ys = length xs \<and> (\<forall>i < length xs. f (xs ! i) = Inr (ys ! i))"
proof (induction xs arbitrary: ys)
  case (Cons x xs)
  then show ?case by (cases ys) (auto simp: rbind_eq_Inr nth_Cons All_less_Suc2 split: nat.splits)
qed auto

text \<open>The local declarations that a dependency names.\<close>

definition local_target :: "dependency_entry \<Rightarrow> nat option" where
  "local_target dep =
     (case dependency_global_ref dep of
        GLocal j \<Rightarrow> Some (unat j)
      | GLocalGenerated j _ \<Rightarrow> if dependency_kind dep = DKLocalImplementation then None else Some (unat j)
      | _ \<Rightarrow> None)"

lemma ordered_dependency_ok:
  assumes "ordered_dependency cert names i dep deps = Inr deps'"
  shows "set deps' = set deps \<union> {j. local_target dep = Some j \<and> j < i} \<and>
    (dependency_kind dep = DKInterface \<longrightarrow> (\<forall>j. local_target dep = Some j \<longrightarrow> j < i))"
  using assms
  by (cases dep; cases "dependency_global_ref dep")
    (auto simp: ordered_dependency_def local_target_def rbind_eq_Inr split: if_splits)

lemma ordered_dependencies_fold:
  assumes "fold_res (ordered_dependency cert names i) ds deps = Inr deps'"
  shows "set deps' = set deps \<union> {j. j < i \<and> (\<exists>dep \<in> set ds. local_target dep = Some j)} \<and>
    (\<forall>dep \<in> set ds. dependency_kind dep = DKInterface \<longrightarrow> (\<forall>j. local_target dep = Some j \<longrightarrow> j < i))"
  using assms
proof (induction ds arbitrary: deps)
  case (Cons dep ds)
  from Cons.prems obtain s where s: "ordered_dependency cert names i dep deps = Inr s"
    and rest: "fold_res (ordered_dependency cert names i) ds s = Inr deps'" by (auto simp: rbind_eq_Inr)
  from ordered_dependency_ok [OF s] Cons.IH [OF rest] show ?case by auto
qed simp

lemma emitted_sorted:
  "sorted_wrt (\<lambda>i j. decl_depth dependencies i < decl_depth dependencies j \<or>
      decl_depth dependencies i = decl_depth dependencies j \<and> names ! i \<le> names ! j) (emitted_before dependencies names n k)"
proof (induction k)
  case (Suc k)
  have "sorted_wrt (\<lambda>i j. names ! i \<le> names ! j) (sort_key (\<lambda>i. names ! i) xs)" for xs
    using sorted_sort_key [of "\<lambda>i. names ! i" xs] by (simp add: sorted_map)
  then have "sorted_wrt (\<lambda>i j. decl_depth dependencies i < decl_depth dependencies j \<or>
      decl_depth dependencies i = decl_depth dependencies j \<and> names ! i \<le> names ! j)
    (sort_key (\<lambda>i. names ! i) (filter (\<lambda>i. decl_depth dependencies i = k) [0..<n]))"
    by (rule sorted_wrt_mono_rel [rotated]) simp
  with Suc show ?case by (simp add: emitted_before_Suc sorted_wrt_append set_emitted_before)
qed (simp add: emitted_before_def)

text \<open>
  C36: A certificate whose order of declarations is accepted lists its declarations in the one
  order that their dependencies and names determine: their names are pairwise distinct, interface
  dependencies on local declarations point to earlier ones, and the declarations ascend by the
  length of their longest chain of dependencies and, for equal lengths, by name.
\<close>

theorem declaration_order_canonical:
  assumes "verify_declaration_order cert = Inr ()"
  shows "\<exists>names dependencies.
    length names = length (mc_declarations cert) \<and> distinct names \<and>
    (\<forall>i < length (mc_declarations cert). decl_name_as_name cert i = Inr (names ! i) \<and>
      set (dependencies ! i) = {j. j < i \<and> (\<exists>dep \<in> set (dc_dependencies (mc_declarations cert ! i)). local_target dep = Some j)} \<and>
      (\<forall>dep \<in> set (dc_dependencies (mc_declarations cert ! i)). dependency_kind dep = DKInterface \<longrightarrow>
        (\<forall>j. local_target dep = Some j \<longrightarrow> j < i))) \<and>
    (\<forall>i j. i < j \<longrightarrow> j < length (mc_declarations cert) \<longrightarrow>
      decl_depth dependencies i < decl_depth dependencies j \<or>
      decl_depth dependencies i = decl_depth dependencies j \<and> names ! i < names ! j)"
proof -
  let ?n = "length (mc_declarations cert)"
  from assms obtain names dependencies where names: "traverse (decl_name_as_name cert) [0..<?n] = Inr names"
    and unique: "ensure_unique_names names = Inr ()"
    and deps: "ordered_dependencies cert names = Inr dependencies"
    and emit: "emit_declarations dependencies names [0..<?n] [] = Inr [0..<?n]"
    by (auto simp: verify_declaration_order_def Let_def rbind_eq_Inr split: if_splits)
  have len: "length names = ?n" and name: "\<And>i. i < ?n \<Longrightarrow> decl_name_as_name cert i = Inr (names ! i)"
    using names by (simp_all add: traverse_nth)
  have d: "set (dependencies ! i) = {j. j < i \<and> (\<exists>dep \<in> set (dc_dependencies (mc_declarations cert ! i)). local_target dep = Some j)} \<and>
      (\<forall>dep \<in> set (dc_dependencies (mc_declarations cert ! i)). dependency_kind dep = DKInterface \<longrightarrow>
        (\<forall>j. local_target dep = Some j \<longrightarrow> j < i))" if "i < ?n" for i
    using deps that ordered_dependencies_fold [of cert names i "dc_dependencies (mc_declarations cert ! i)" "[]"]
    by (auto simp: ordered_dependencies_def traverse_nth nth_enumerate_eq)
  then have "\<forall>j \<in> set (dependencies ! i). j < i" if "i < ?n" for i using that by auto
  with emit_by_depth [of ?n dependencies names 0 "[0..<?n]"] emit
  obtain m where "[0..<?n] = emitted_before dependencies names ?n m" by (auto simp: emitted_before_def)
  with emitted_sorted [of dependencies names ?n m]
  have sorted: "sorted_wrt (\<lambda>i j. decl_depth dependencies i < decl_depth dependencies j \<or>
      decl_depth dependencies i = decl_depth dependencies j \<and> names ! i \<le> names ! j) [0..<?n]" by simp
  have "decl_depth dependencies i < decl_depth dependencies j \<or>
      decl_depth dependencies i = decl_depth dependencies j \<and> names ! i < names ! j" if "i < j" "j < ?n" for i j
  proof -
    from unique that len have "names ! i \<noteq> names ! j" by (simp add: ensure_unique_names_ok nth_eq_iff_index_eq)
    with sorted_wrt_nth_less [OF sorted, of i j] that show ?thesis by auto
  qed
  with len unique name d show ?thesis unfolding ensure_unique_names_ok by blast
qed

text \<open>Two declarations without dependencies, in the order of their names.\<close>

definition two_identities :: module_cert where
  "two_identities = identity_cert\<lparr>
     mc_name_table := [[''Identity''], [''first''], [''second'']],
     mc_declarations := map (\<lambda>n. (hd (mc_declarations identity_cert))\<lparr>dc_decl := PTheorem n [] 6 5 OpacityOpaque\<rparr>) [1, 2]\<rparr>"

theorem declaration_order_canonical_witness:
  "verify_declaration_order two_identities = Inr () \<and>
   (\<exists>names. distinct names \<and> decl_name_as_name two_identities 0 = Inr (names ! 0) \<and>
     decl_name_as_name two_identities 1 = Inr (names ! 1))"
proof
  show order: "verify_declaration_order two_identities = Inr ()" by code_simp
  have "length (mc_declarations two_identities) = 2" by (simp add: two_identities_def)
  with declaration_order_canonical [OF order]
  show "\<exists>names. distinct names \<and> decl_name_as_name two_identities 0 = Inr (names ! 0) \<and>
     decl_name_as_name two_identities 1 = Inr (names ! 1)"
    by (metis one_less_numeral_iff semiring_norm(76) zero_less_numeral)
qed

end
