(* ===== verification/Cert_Artifacts.thy ===== *)
theory Cert_Artifacts
  imports Cert_Verify
begin

text \<open>
  The recursors of inductive declarations (\<^verbatim>\<open>npa-cert/src/inductive.rs\<close> and the middle of
  \<^verbatim>\<open>verify.rs\<close>): the generator that gives a declaration its recursor, and the verifier that
  computes the recursor again from the tables of a certificate. Each has its own copy of the
  functions that build the parts of a recursor type; both copies are translated, and the lemmas
  show that they agree. A mutual block is generated again by the verifier and compared.
\<close>

section \<open>Renumbering bound variables\<close>

definition artifact_mismatch :: "string \<Rightarrow> cert_error" where
  "artifact_mismatch name = InductiveGeneratedArtifactMismatch (name_from_dotted name)"

definition cert_bvar_for_abs :: "nat \<Rightarrow> nat \<Rightarrow> expr cresult" where
  "cert_bvar_for_abs ctx_len a =
     (if a \<ge> ctx_len then Inl (InvalidBVar (word_of_nat a))
      else Inr (BVar ((ctx_len - 1 - a) mod 2 ^ 32)))"

text \<open>The generator's recursion.\<close>

primrec generator_remap_bvars :: "expr \<Rightarrow> nat \<Rightarrow> nat \<Rightarrow> nat list \<Rightarrow> expr cresult" where
  "generator_remap_bvars (Sort l) source target m = Inr (Sort l)"
| "generator_remap_bvars (BVar i) source target m =
     (if i \<ge> source then Inl (InvalidBVar (word_of_nat i))
      else (case get_at m (source - 1 - i) of
          None \<Rightarrow> Inl (InvalidBVar (word_of_nat i))
        | Some target_abs \<Rightarrow> cert_bvar_for_abs target target_abs))"
| "generator_remap_bvars (Const c us) source target m = Inr (Const c us)"
| "generator_remap_bvars (App f a) source target m =
     rbind (generator_remap_bvars f source target m) (\<lambda>f'.
     rbind (generator_remap_bvars a source target m) (\<lambda>a'. Inr (App f' a')))"
| "generator_remap_bvars (Lam x t b) source target m =
     rbind (generator_remap_bvars t source target m) (\<lambda>t'.
     rbind (generator_remap_bvars b (source + 1) (target + 1) (m @ [target])) (\<lambda>b'. Inr (Lam x t' b')))"
| "generator_remap_bvars (Pi x t b) source target m =
     rbind (generator_remap_bvars t source target m) (\<lambda>t'.
     rbind (generator_remap_bvars b (source + 1) (target + 1) (m @ [target])) (\<lambda>b'. Inr (Pi x t' b')))"

definition verifier_bvar_for_abs :: "nat \<Rightarrow> nat \<Rightarrow> expr cresult" where
  "verifier_bvar_for_abs ctx_len a =
     (if a \<ge> ctx_len then Inl (InvalidBVar (word_of_nat a))
      else Inr (BVar ((ctx_len - 1 - a) mod 2 ^ 32)))"

text \<open>
  The verifier's loop over frames. The map is not extended: a variable bound inside the term is
  found from the lengths of the contexts at the root.
\<close>

datatype remap_frame =
    RVisit expr nat nat
  | RBuildApp
  | RBuildLam string
  | RBuildPi string

definition remap_bvar_at :: "nat \<Rightarrow> nat \<Rightarrow> nat list \<Rightarrow> nat \<Rightarrow> nat \<Rightarrow> nat \<Rightarrow> expr cresult" where
  "remap_bvar_at source0 target0 m i source target =
     (if i \<ge> source then Inl (InvalidBVar (word_of_nat i))
      else
        let source_abs = source - 1 - i in
        rbind (if source_abs < length m then Inr (m ! source_abs)
               else
                 let offset = source_abs - length m in
                 if source < source0 then Inl (InvalidBVar (word_of_nat i))
                 else if offset \<ge> source - source0 then Inl (InvalidBVar (word_of_nat i))
                 else if \<not> fits 64 (target0 + offset) then Inl DecodeError
                 else Inr (target0 + offset))
          (verifier_bvar_for_abs target))"

definition build_binder :: "(expr \<Rightarrow> expr \<Rightarrow> expr) \<Rightarrow> expr list \<Rightarrow> expr list cresult" where
  "build_binder build mapped =
     (case mapped of y # x # rest \<Rightarrow> Inr (build x y # rest) | _ \<Rightarrow> Inl DecodeError)"

fun frame_size :: "remap_frame \<Rightarrow> nat" where
  "frame_size (RVisit e _ _) = 3 * size e + 1"
| "frame_size _ = 1"

function remap_loop ::
    "nat \<Rightarrow> nat \<Rightarrow> nat list \<Rightarrow> remap_frame list \<Rightarrow> expr list \<Rightarrow> expr list cresult" where
  "remap_loop s0 t0 m [] mapped = Inr mapped"
| "remap_loop s0 t0 m (RVisit e s t # pending) mapped =
     (case e of
        Sort l \<Rightarrow> remap_loop s0 t0 m pending (Sort l # mapped)
      | BVar i \<Rightarrow>
          (case remap_bvar_at s0 t0 m i s t of
             Inl err \<Rightarrow> Inl err
           | Inr v \<Rightarrow> remap_loop s0 t0 m pending (v # mapped))
      | Const c us \<Rightarrow> remap_loop s0 t0 m pending (Const c us # mapped)
      | App f a \<Rightarrow> remap_loop s0 t0 m (RVisit f s t # RVisit a s t # RBuildApp # pending) mapped
      | Lam x ty b \<Rightarrow>
          remap_loop s0 t0 m (RVisit ty s t # RVisit b (s + 1) (t + 1) # RBuildLam x # pending) mapped
      | Pi x ty b \<Rightarrow>
          remap_loop s0 t0 m (RVisit ty s t # RVisit b (s + 1) (t + 1) # RBuildPi x # pending) mapped)"
| "remap_loop s0 t0 m (RBuildApp # pending) mapped =
     (case build_binder App mapped of Inl err \<Rightarrow> Inl err | Inr mapped' \<Rightarrow> remap_loop s0 t0 m pending mapped')"
| "remap_loop s0 t0 m (RBuildLam x # pending) mapped =
     (case build_binder (Lam x) mapped of Inl err \<Rightarrow> Inl err | Inr mapped' \<Rightarrow> remap_loop s0 t0 m pending mapped')"
| "remap_loop s0 t0 m (RBuildPi x # pending) mapped =
     (case build_binder (Pi x) mapped of Inl err \<Rightarrow> Inl err | Inr mapped' \<Rightarrow> remap_loop s0 t0 m pending mapped')"
  by pat_completeness auto
termination
  by (relation "measure (\<lambda>(_, _, _, pending, _). sum_list (map frame_size pending))") auto

definition verifier_remap_bvars :: "expr \<Rightarrow> nat \<Rightarrow> nat \<Rightarrow> nat list \<Rightarrow> expr cresult" where
  "verifier_remap_bvars e source target m =
     rbind (remap_loop source target m [RVisit e source target] []) (\<lambda>mapped.
     case mapped of [result] \<Rightarrow> Inr result | _ \<Rightarrow> Inl DecodeError)"

section \<open>The two implementations agree\<close>

lemma verifier_bvar_for_abs_eq: "verifier_bvar_for_abs = cert_bvar_for_abs"
  by (intro ext) (simp add: verifier_bvar_for_abs_def cert_bvar_for_abs_def)

lemma remap_bvar_at_eq:
  assumes "fits 64 (t0 + k)"
  shows "remap_bvar_at s0 t0 m i (s0 + k) (t0 + k) =
    generator_remap_bvars (BVar i) (s0 + k) (t0 + k) (m @ [t0..<t0 + k])"
proof -
  have small: "fits 64 (t0 + n)" if "n < k" for n using assms that by (auto elim: fits_mono)
  show ?thesis
  proof (cases "s0 + k \<le> i")
    case False
    define a where "a = s0 + k - 1 - i"
    consider "a < length m" | n where "a = length m + n" "n < k" | n where "a = length m + n" "k \<le> n"
      by (metis le_add_diff_inverse not_less)
    then show ?thesis
      using False small unfolding remap_bvar_at_def generator_remap_bvars.simps Let_def a_def [symmetric]
      by cases (simp_all add: get_at_def nth_append verifier_bvar_for_abs_eq)
  qed (simp add: remap_bvar_at_def)
qed

lemma upt_snoc: "t0 \<le> t \<Longrightarrow> [t0..<t] @ [t] = [t0..<Suc t]"
  by simp

lemma remap_loop_visit:
  assumes "fits 64 (t0 + k + expr_depth e)"
  shows "remap_loop s0 t0 m (RVisit e (s0 + k) (t0 + k) # pending) mapped =
    rbind (generator_remap_bvars e (s0 + k) (t0 + k) (m @ [t0..<t0 + k]))
      (\<lambda>e'. remap_loop s0 t0 m pending (e' # mapped))"
  using assms
proof (induction e arbitrary: k pending mapped)
  case (BVar i)
  then have "fits 64 (t0 + k)" by (auto elim: fits_mono)
  then show ?case by (simp add: remap_bvar_at_eq del: generator_remap_bvars.simps split: sum.split)
next
  case (App f a)
  then have "fits 64 (t0 + k + expr_depth f)" "fits 64 (t0 + k + expr_depth a)" by (auto elim!: fits_mono)
  with App.IH show ?case by (simp add: build_binder_def rbind_assoc)
next
  case (Lam x ty b)
  then have "fits 64 (t0 + k + expr_depth ty)" "fits 64 (t0 + Suc k + expr_depth b)" by (auto elim!: fits_mono)
  with Lam.IH(1) [of k] Lam.IH(2) [of "Suc k"] show ?case by (simp add: build_binder_def rbind_assoc)
next
  case (Pi x ty b)
  then have "fits 64 (t0 + k + expr_depth ty)" "fits 64 (t0 + Suc k + expr_depth b)" by (auto elim!: fits_mono)
  with Pi.IH(1) [of k] Pi.IH(2) [of "Suc k"] show ?case by (simp add: build_binder_def rbind_assoc)
qed simp_all

lemma verifier_remap_eq:
  assumes "fits 64 (target + expr_depth e)"
  shows "verifier_remap_bvars e source target m = generator_remap_bvars e source target m"
  using remap_loop_visit [of target 0 e source m "[]" "[]"] assms
  by (simp add: verifier_remap_bvars_def rbind_assoc)

text \<open>
  C39: The verifier renumbers bound variables with a loop over a stack and the generator with a
  recursion that extends its map at every binder; they return the same term or the same error,
  as long as the target context and the depth of the term fit in 64 bits together.
\<close>

theorem remap_implementations_agree:
  assumes "fits 64 (target + expr_depth e)"
  shows "verifier_remap_bvars e source target m = generator_remap_bvars e source target m"
  using assms by (rule verifier_remap_eq)

theorem remap_implementations_agree_witness:
  "verifier_remap_bvars (Pi ''x'' (BVar 0) (App (BVar 1) (BVar 0))) 1 2 [1] =
   Inr (Pi ''x'' (BVar 0) (App (BVar 1) (BVar 0)))"
  using remap_implementations_agree [of 2 "Pi ''x'' (BVar 0) (App (BVar 1) (BVar 0))" 1 "[1]"]
  by (simp add: fits_iff cert_bvar_for_abs_def get_at_def)

section \<open>The parts of a recursor in the generator\<close>

text \<open>
  The generator and the verifier have these functions twice, each in its own words. Both are
  translated; that they agree is shown below. The helpers that peel and build products, collect
  arguments and search for a constant are those of the kernel.
\<close>

definition cert_motive_app :: "nat \<Rightarrow> nat \<Rightarrow> expr list \<Rightarrow> expr \<Rightarrow> expr cresult" where
  "cert_motive_app ctx_len motive_abs index_args target =
     rbind (cert_bvar_for_abs ctx_len motive_abs) (\<lambda>m. Inr (apps m (index_args @ [target])))"

definition inductive_target_expr :: "string \<Rightarrow> string list \<Rightarrow> nat \<Rightarrow> nat \<Rightarrow> nat \<Rightarrow> nat \<Rightarrow> expr cresult" where
  "inductive_target_expr name ups ctx_len param_count index_abs_start index_count =
     rbind (traverse (cert_bvar_for_abs ctx_len)
         ([0..<param_count] @ map (\<lambda>i. index_abs_start + i) [0..<index_count])) (\<lambda>args.
     Inr (apps (Const name (map LParam ups)) args))"

definition motive_domain_expr :: "inductive_decl \<Rightarrow> level \<Rightarrow> expr cresult" where
  "motive_domain_expr base motive_level =
     (let param_count = length (ind_params base); index_count = length (ind_indices base) in
      rbind (fold_res (\<lambda>(i, b) (domains, m).
          rbind (generator_remap_bvars (bndr_ty b) (param_count + i) (param_count + i) m) (\<lambda>d.
          Inr (domains @ [d], m @ [param_count + i])))
        (enumerate 0 (ind_indices base)) ([], [0..<param_count])) (\<lambda>(domains, _).
      rbind (inductive_target_expr (ind_name base) (ind_universe_params base) (param_count + index_count)
               param_count param_count index_count) (\<lambda>target.
      Inr (mk_pi_from_domains domains (Pi ''_'' target (Sort motive_level))))))"

definition append_index_domains :: "inductive_decl \<Rightarrow> expr list \<Rightarrow> expr list cresult" where
  "append_index_domains base domains =
     (let param_count = length (ind_params base) in
      rbind (fold_res (\<lambda>(i, b) (domains, m).
          rbind (generator_remap_bvars (bndr_ty b) (param_count + i) (length domains) m) (\<lambda>d.
          Inr (domains @ [d], m @ [length domains])))
        (enumerate 0 (ind_indices base)) (domains, [0..<param_count])) (\<lambda>(domains, _). Inr domains))"

definition cert_direct_recursive_index_args ::
    "string \<Rightarrow> string list \<Rightarrow> nat \<Rightarrow> nat \<Rightarrow> expr \<Rightarrow> nat \<Rightarrow> expr list cresult" where
  "cert_direct_recursive_index_args name ups param_count index_count domain ctx_len =
     (case collect_apps domain of
        (Const n levels, args) \<Rightarrow>
          if n \<noteq> name then Inl (artifact_mismatch name)
          else if \<not> levels_eq levels (map LParam ups) \<or> length args \<noteq> param_count + index_count
          then Inl (artifact_mismatch name)
          else rbind (check_all (\<lambda>(param_index, arg).
                 rbind (cert_bvar_for_abs ctx_len param_index) (\<lambda>v.
                   if arg \<noteq> v then Inl (artifact_mismatch name) else Inr ()))
                 (enumerate 0 (take param_count args))) (\<lambda>_.
            if list_all (\<lambda>arg. \<not> contains_const arg name) args then Inr (drop param_count args)
            else Inl (artifact_mismatch name))
      | _ \<Rightarrow> Inl (artifact_mismatch name))"

definition cert_is_direct_recursive_domain ::
    "string \<Rightarrow> string list \<Rightarrow> nat \<Rightarrow> nat \<Rightarrow> expr \<Rightarrow> nat \<Rightarrow> bool" where
  "cert_is_direct_recursive_domain name ups param_count index_count domain ctx_len =
     is_ok (cert_direct_recursive_index_args name ups param_count index_count domain ctx_len)"

definition cert_constructor_result_index_args :: "inductive_decl \<Rightarrow> constructor_decl \<Rightarrow> expr \<Rightarrow> expr list cresult" where
  "cert_constructor_result_index_args base c result =
     (let mismatch = artifact_mismatch (ctor_name c); param_count = length (ind_params base) in
      case collect_apps result of
        (Const n levels, args) \<Rightarrow>
          if n \<noteq> ind_name base then Inl mismatch
          else if \<not> levels_eq levels (map LParam (ind_universe_params base)) \<or>
                  length args \<noteq> param_count + length (ind_indices base)
          then Inl mismatch
          else Inr (drop param_count args)
      | _ \<Rightarrow> Inl mismatch)"

text \<open>
  One field of a constructor: its domain, then the induction hypothesis where the field is a
  direct recursive occurrence.
\<close>

definition add_field :: "expr \<Rightarrow> minor_state \<Rightarrow> minor_state" where
  "add_field d st = \<lparr>ms_map = ms_map st @ [ms_len st], ms_len = ms_len st + 1,
     ms_domains = ms_domains st @ [d], ms_fields = ms_fields st @ [ms_len st]\<rparr>"

definition add_hypothesis :: "expr \<Rightarrow> minor_state \<Rightarrow> minor_state" where
  "add_hypothesis h st = st\<lparr>ms_domains := ms_domains st @ [h], ms_len := ms_len st + 1\<rparr>"

definition generator_minor_field ::
    "inductive_decl \<Rightarrow> nat \<Rightarrow> nat \<Rightarrow> nat \<times> expr \<Rightarrow> minor_state \<Rightarrow> minor_state cresult" where
  "generator_minor_field base param_count index_count p st =
     (let source = param_count + fst p; name = ind_name base; ups = ind_universe_params base in
      rbind (generator_remap_bvars (snd p) source (ms_len st) (ms_map st)) (\<lambda>d.
      let st = add_field d st in
      if cert_is_direct_recursive_domain name ups param_count index_count (snd p) source
      then rbind (cert_direct_recursive_index_args name ups param_count index_count (snd p) source) (\<lambda>args.
           rbind (traverse (\<lambda>a. generator_remap_bvars a source (ms_len st) (ms_map st)) args) (\<lambda>index_args.
           rbind (cert_motive_app (ms_len st) param_count index_args (BVar 0)) (\<lambda>h.
           Inr (add_hypothesis h st))))
      else Inr st))"

definition generator_expected_minor_type_expr ::
    "inductive_decl \<Rightarrow> nat \<Rightarrow> nat \<Rightarrow> constructor_decl \<Rightarrow> nat \<Rightarrow> expr cresult" where
  "generator_expected_minor_type_expr base param_count index_count c constructor_index =
     (case peel_pi_domains (ctor_ty c) of (domains, result) \<Rightarrow>
       if length domains < param_count then Inl (artifact_mismatch (ind_name base))
       else
         rbind (cert_constructor_result_index_args base c result) (\<lambda>result_indices.
         rbind (fold_res (generator_minor_field base param_count index_count)
                  (enumerate 0 (drop param_count domains))
                  \<lparr>ms_map = [0..<param_count], ms_len = param_count + 1 + constructor_index,
                   ms_domains = [], ms_fields = []\<rparr>) (\<lambda>st.
         rbind (traverse (cert_bvar_for_abs (ms_len st)) ([0..<param_count] @ ms_fields st)) (\<lambda>constructor_args.
         rbind (traverse (\<lambda>a. generator_remap_bvars a (length domains) (ms_len st) (ms_map st)) result_indices) (\<lambda>index_args.
         rbind (cert_motive_app (ms_len st) param_count index_args
                  (apps (Const (ctor_name c) (map LParam (ind_universe_params base))) constructor_args)) (\<lambda>result.
         Inr (mk_pi_from_domains (ms_domains st) result)))))))"

definition expected_motive_level :: "inductive_decl \<Rightarrow> string list \<Rightarrow> level" where
  "expected_motive_level base recursor_ups =
     (if level_eq (ind_sort base) LZero then LZero
      else (case find (\<lambda>p. p \<notin> set (ind_universe_params base)) (rev recursor_ups) of
          Some p \<Rightarrow> LParam p
        | None \<Rightarrow> if recursor_ups = [] then ind_sort base else LParam (last recursor_ups)))"

section \<open>The generator\<close>

datatype unsupported_mvp_recursor_profile =
    LargeEliminationRequired | MutualOrNestedRecursorRequired | UnsupportedEliminatorShape

datatype inductive_artifact_profile_check =
    SupportedMvpRecursor | UnsupportedMvpRecursorProfile unsupported_mvp_recursor_profile

text \<open>
  \<^verbatim>\<open>recursive_occurrences_strictly_positive\<close> and its version for blocks, which differ in the
  test of a direct occurrence and in the names that count as occurrences. Unlike the kernel, the
  generator has no environment in which to check the approved functors.
\<close>

function artifact_positive_occurrences ::
    "(expr \<Rightarrow> nat \<Rightarrow> bool) \<Rightarrow> string list \<Rightarrow> expr \<Rightarrow> nat \<Rightarrow> bool" where
  "artifact_positive_occurrences direct ns domain ctx_len =
     (if direct domain ctx_len then True
      else (case domain of
        Sort _ \<Rightarrow> True
      | BVar _ \<Rightarrow> True
      | Const n _ \<Rightarrow> n \<notin> set ns
      | App _ _ \<Rightarrow>
          (case collect_apps domain of
             (Const n _, args) \<Rightarrow>
               (case approved_nested_functor n (length args) of
                  None \<Rightarrow> \<not> contains_any_const domain ns
                | Some f \<Rightarrow>
                    list_all (\<lambda>(i, arg).
                      if i \<in> set (positive_args f)
                      then artifact_positive_occurrences direct ns arg ctx_len
                      else \<not> contains_any_const arg ns) (enumerate 0 args))
           | _ \<Rightarrow> \<not> contains_any_const domain ns)
      | Pi _ t b \<Rightarrow>
          \<not> contains_any_const t ns \<and> artifact_positive_occurrences direct ns b (ctx_len + 1)
      | Lam _ _ _ \<Rightarrow> \<not> contains_any_const domain ns))"
  by pat_completeness auto
termination
proof (relation "measure (\<lambda>(_, _, e, _). size e)")
  fix direct ns domain ctx_len x41 x42 head args c us f p i arg
  assume "(head, args) = collect_apps domain" and "p \<in> set (enumerate 0 args)" and "(i, arg) = p"
  moreover from this have "arg \<in> set (snd (collect_apps domain))"
    by (cases "collect_apps domain") (auto simp: in_set_enumerate_eq)
  ultimately show "((direct, ns, arg, ctx_len), (direct, ns, domain, ctx_len)) \<in> measure (\<lambda>(_, _, e, _). size e)"
    using size_collect_apps_arg by simp
qed auto

declare artifact_positive_occurrences.simps [simp del]

definition generator_index_args :: "inductive_decl \<Rightarrow> expr \<Rightarrow> nat \<Rightarrow> expr list cresult" where
  "generator_index_args base =
     cert_direct_recursive_index_args (ind_name base) (ind_universe_params base)
       (length (ind_params base)) (length (ind_indices base))"

definition artifact_recursive_occurrences_strictly_positive :: "inductive_decl \<Rightarrow> expr \<Rightarrow> nat \<Rightarrow> bool" where
  "artifact_recursive_occurrences_strictly_positive base =
     artifact_positive_occurrences (\<lambda>d n. is_ok (generator_index_args base d n)) [ind_name base]"

definition classify_inductive_artifact_profile :: "inductive_decl \<Rightarrow> inductive_artifact_profile_check" where
  "classify_inductive_artifact_profile base =
     (if ind_recursor base \<noteq> None then UnsupportedMvpRecursorProfile UnsupportedEliminatorShape
      else if list_all (\<lambda>c. list_all (\<lambda>(i, d).
          i \<ge> length (ind_params base) \<and> artifact_recursive_occurrences_strictly_positive base d i \<or>
          \<not> contains_const d (ind_name base)) (enumerate 0 (fst (peel_pi_domains (ctor_ty c))))) (ind_constructors base)
      then SupportedMvpRecursor
      else UnsupportedMvpRecursorProfile MutualOrNestedRecursorRequired)"

text \<open>
  The search for a fresh universe parameter ends: one of \<open>length params + 1\<close> candidates is not
  among the parameters.
\<close>

definition universe_candidate :: "nat \<Rightarrow> string" where
  "universe_candidate index = (if index = 0 then ''u'' else ''u'' @ show_nat index)"

definition generated_recursor_universe_params :: "inductive_decl \<Rightarrow> string list" where
  "generated_recursor_universe_params base =
     (let params = ind_universe_params base in
      if level_eq (ind_sort base) LZero then params
      else case find (\<lambda>c. c \<notin> set params) (map universe_candidate [0..<Suc (length params)]) of
          Some candidate \<Rightarrow> params @ [candidate]
        | None \<Rightarrow> params)"

definition generated_recursor_type :: "inductive_decl \<Rightarrow> string list \<Rightarrow> recursor_rules \<Rightarrow> expr cresult" where
  "generated_recursor_type base recursor_ups rules =
     (let param_count = length (ind_params base); index_count = length (ind_indices base) in
      rbind (motive_domain_expr base (expected_motive_level base recursor_ups)) (\<lambda>motive.
      rbind (traverse (\<lambda>(i, c). generator_expected_minor_type_expr base param_count index_count c i)
          (enumerate 0 (ind_constructors base))) (\<lambda>minors.
      let domains = map bndr_ty (ind_params base) @ [motive] @ minors; index_start = length domains in
      rbind (append_index_domains base domains) (\<lambda>domains.
      rbind (inductive_target_expr (ind_name base) (ind_universe_params base) (length domains)
               param_count index_start index_count) (\<lambda>major_domain.
      let domains = domains @ [major_domain] in
      rbind (traverse (\<lambda>i. cert_bvar_for_abs (length domains) (index_start + i)) [0..<index_count]) (\<lambda>index_args.
      rbind (cert_bvar_for_abs (length domains) (major_index rules)) (\<lambda>major.
      rbind (cert_motive_app (length domains) param_count index_args major) (\<lambda>body.
      Inr (mk_pi_from_domains domains body)))))))))"

definition generate_inductive_artifacts :: "inductive_decl \<Rightarrow> inductive_decl cresult" where
  "generate_inductive_artifacts base =
     (if classify_inductive_artifact_profile base \<noteq> SupportedMvpRecursor
      then Inl (artifact_mismatch (ind_name base))
      else
        let rules = \<lparr>minor_start = length (ind_params base) + 1,
              major_index = length (ind_params base) + 1 + length (ind_constructors base) + length (ind_indices base)\<rparr>;
            ups = generated_recursor_universe_params base in
        rbind (generated_recursor_type base ups rules) (\<lambda>ty.
        Inr (base\<lparr>ind_recursor := Some \<lparr>rec_name = ind_name base @ ''.rec'', rec_universe_params = ups,
          rec_ty = ty, rec_rules = Some rules\<rparr>\<rparr>)))"

section \<open>The generator for mutual blocks\<close>

fun generator_mutual_loop :: "string \<Rightarrow> (nat \<times> inductive_decl) list \<Rightarrow> expr \<Rightarrow> nat \<Rightarrow> (nat \<times> expr list) cresult" where
  "generator_mutual_loop block_name [] domain ctx_len = Inl (artifact_mismatch block_name)"
| "generator_mutual_loop block_name ((i, data) # ds) domain ctx_len =
     (case generator_index_args data domain ctx_len of
        Inr indices \<Rightarrow> Inr (i, indices)
      | Inl _ \<Rightarrow> generator_mutual_loop block_name ds domain ctx_len)"

definition generator_mutual_index_args ::
    "mutual_inductive_block \<Rightarrow> expr \<Rightarrow> nat \<Rightarrow> (nat \<times> expr list) cresult" where
  "generator_mutual_index_args block domain ctx_len =
     generator_mutual_loop (blk_name block) (enumerate 0 (blk_inductives block)) domain ctx_len"

definition artifact_mutual_recursive_occurrences_strictly_positive ::
    "mutual_inductive_block \<Rightarrow> expr \<Rightarrow> nat \<Rightarrow> bool" where
  "artifact_mutual_recursive_occurrences_strictly_positive block =
     artifact_positive_occurrences (\<lambda>d n. is_ok (generator_mutual_index_args block d n))
       (map ind_name (blk_inductives block))"

definition mutual_minor_field ::
    "mutual_inductive_block \<Rightarrow> nat \<Rightarrow> nat \<times> expr \<Rightarrow> minor_state \<Rightarrow> minor_state cresult" where
  "mutual_minor_field block param_count p st =
     (let source = param_count + fst p in
      rbind (generator_remap_bvars (snd p) source (ms_len st) (ms_map st)) (\<lambda>d.
      let st = add_field d st in
      case generator_mutual_index_args block (snd p) source of
        Inl _ \<Rightarrow> Inr st
      | Inr (family, args) \<Rightarrow>
          rbind (traverse (\<lambda>a. generator_remap_bvars a source (ms_len st) (ms_map st)) args) (\<lambda>index_args.
          rbind (cert_motive_app (ms_len st) (param_count + family) index_args (BVar 0)) (\<lambda>h.
          Inr (add_hypothesis h st)))))"

definition generator_expected_mutual_minor_type_expr ::
    "mutual_inductive_block \<Rightarrow> nat \<Rightarrow> constructor_decl \<Rightarrow> nat \<Rightarrow> expr cresult" where
  "generator_expected_mutual_minor_type_expr block family_index c constructor_index =
     rbind (ok_or (artifact_mismatch (blk_name block)) (get_at (blk_inductives block) family_index)) (\<lambda>owner.
     case peel_pi_domains (ctor_ty c) of (domains, result) \<Rightarrow>
       let param_count = length (ind_params owner) in
       if length domains < param_count then Inl (artifact_mismatch (blk_name block))
       else
         rbind (cert_constructor_result_index_args owner c result) (\<lambda>result_indices.
         rbind (fold_res (mutual_minor_field block param_count)
                  (enumerate 0 (drop param_count domains))
                  \<lparr>ms_map = [0..<param_count],
                   ms_len = param_count + length (blk_inductives block) + constructor_index,
                   ms_domains = [], ms_fields = []\<rparr>) (\<lambda>st.
         rbind (traverse (cert_bvar_for_abs (ms_len st)) ([0..<param_count] @ ms_fields st)) (\<lambda>constructor_args.
         rbind (traverse (\<lambda>a. generator_remap_bvars a (length domains) (ms_len st) (ms_map st)) result_indices) (\<lambda>index_args.
         rbind (cert_motive_app (ms_len st) (param_count + family_index) index_args
                  (apps (Const (ctor_name c) (map LParam (ind_universe_params owner))) constructor_args)) (\<lambda>result.
         Inr (mk_pi_from_domains (ms_domains st) result)))))))"

text \<open>The constructors of a block with the families they belong to, counted through the block.\<close>

definition block_constructors :: "mutual_inductive_block \<Rightarrow> (nat \<times> nat \<times> constructor_decl) list" where
  "block_constructors block =
     enumerate 0 (concat (map (\<lambda>(family, data). map (\<lambda>c. (family, c)) (ind_constructors data))
       (enumerate 0 (blk_inductives block))))"

definition generated_mutual_recursor_type ::
    "mutual_inductive_block \<Rightarrow> nat \<Rightarrow> string list \<Rightarrow> recursor_rules \<Rightarrow> expr cresult" where
  "generated_mutual_recursor_type block target_index recursor_ups rules =
     rbind (ok_or (artifact_mismatch (blk_name block)) (get_at (blk_inductives block) target_index)) (\<lambda>target.
     let param_count = length (ind_params target); index_count = length (ind_indices target) in
     rbind (traverse (\<lambda>family. motive_domain_expr family (expected_motive_level family recursor_ups))
         (blk_inductives block)) (\<lambda>motives.
     rbind (traverse (\<lambda>(i, family, c). generator_expected_mutual_minor_type_expr block family c i)
         (block_constructors block)) (\<lambda>minors.
     let domains = map bndr_ty (ind_params target) @ motives @ minors; index_start = length domains in
     rbind (append_index_domains target domains) (\<lambda>domains.
     rbind (inductive_target_expr (ind_name target) (ind_universe_params target) (length domains)
              param_count index_start index_count) (\<lambda>major_domain.
     let domains = domains @ [major_domain] in
     rbind (traverse (\<lambda>i. cert_bvar_for_abs (length domains) (index_start + i)) [0..<index_count]) (\<lambda>index_args.
     rbind (cert_bvar_for_abs (length domains) (major_index rules)) (\<lambda>major.
     rbind (cert_motive_app (length domains) (param_count + target_index) index_args major) (\<lambda>body.
     Inr (mk_pi_from_domains domains body)))))))))"

text \<open>
  The recursors are added one family after the other; the types read the recursor of no family.
\<close>

definition add_generated_mutual_recursor ::
    "string list \<Rightarrow> nat \<Rightarrow> mutual_inductive_block \<Rightarrow> mutual_inductive_block cresult" where
  "add_generated_mutual_recursor ups index block =
     (let data = blk_inductives block ! index; rules = generated_mutual_recursor_rules block data in
      rbind (generated_mutual_recursor_type block index ups rules) (\<lambda>ty.
      Inr (block\<lparr>blk_inductives := (blk_inductives block)[index := data\<lparr>ind_recursor :=
        Some \<lparr>rec_name = ind_name data @ ''.rec'', rec_universe_params = ups, rec_ty = ty,
          rec_rules = Some rules\<rparr>\<rparr>]\<rparr>)))"

definition generate_mutual_inductive_artifacts :: "mutual_inductive_block \<Rightarrow> mutual_inductive_block cresult" where
  "generate_mutual_inductive_artifacts base =
     (let fail = Inl (artifact_mismatch (blk_name base)); inductives = blk_inductives base in
      if inductives = [] \<or> list_ex (\<lambda>data. ind_recursor data \<noteq> None) inductives then fail
      else
        let param_count = length (ind_params (hd inductives)) in
        if list_ex (\<lambda>data. ind_universe_params data \<noteq> blk_universe_params base \<or>
            ind_universe_constraints data \<noteq> [] \<or> ind_params data \<noteq> ind_params (hd inductives)) inductives
        then fail
        else if \<not> list_all (\<lambda>data. list_all (\<lambda>c. list_all (\<lambda>(i, d).
            i \<ge> param_count \<and> artifact_mutual_recursive_occurrences_strictly_positive base d i \<or>
            \<not> contains_any_const d (map ind_name inductives))
            (enumerate 0 (fst (peel_pi_domains (ctor_ty c))))) (ind_constructors data)) inductives
        then fail
        else fold_res (add_generated_mutual_recursor (generated_recursor_universe_params (hd inductives)))
               [0..<length inductives] base)"

section \<open>The verifier\<close>

record inductive_recursor_view =
  irv_name :: name_id
  irv_universe_params :: "name_id list"
  irv_params :: "binder_type list"
  irv_indices :: "binder_type list"
  irv_sort :: level_id
  irv_constructors :: "constructor_spec list"
  irv_recursor :: recursor_spec

definition verifier_motive_app :: "nat \<Rightarrow> nat \<Rightarrow> expr list \<Rightarrow> expr \<Rightarrow> expr cresult" where
  "verifier_motive_app ctx_len motive_abs index_args target =
     rbind (verifier_bvar_for_abs ctx_len motive_abs) (\<lambda>m. Inr (apps m (index_args @ [target])))"

definition verifier_inductive_target_expr ::
    "string \<Rightarrow> string list \<Rightarrow> nat \<Rightarrow> nat \<Rightarrow> nat \<Rightarrow> nat \<Rightarrow> expr cresult" where
  "verifier_inductive_target_expr name ups ctx_len param_count index_abs_start index_count =
     rbind (traverse (verifier_bvar_for_abs ctx_len)
         ([0..<param_count] @ map (\<lambda>i. index_abs_start + i) [0..<index_count])) (\<lambda>args.
     Inr (apps (Const name (map LParam ups)) args))"

definition verifier_motive_domain_expr ::
    "string \<Rightarrow> string list \<Rightarrow> nat \<Rightarrow> expr list \<Rightarrow> level \<Rightarrow> expr cresult" where
  "verifier_motive_domain_expr name ups param_count indices motive_level =
     rbind (fold_res (\<lambda>(i, ty) (domains, m).
         rbind (verifier_remap_bvars ty (param_count + i) (param_count + i) m) (\<lambda>d.
         Inr (domains @ [d], m @ [param_count + i])))
       (enumerate 0 indices) ([], [0..<param_count])) (\<lambda>(domains, _).
     rbind (verifier_inductive_target_expr name ups (param_count + length indices) param_count param_count
              (length indices)) (\<lambda>target.
     Inr (mk_pi_from_domains domains (Pi ''_'' target (Sort motive_level)))))"

definition verifier_append_index_domains :: "nat \<Rightarrow> expr list \<Rightarrow> expr list \<Rightarrow> expr list cresult" where
  "verifier_append_index_domains param_count index_domains domains =
     rbind (fold_res (\<lambda>(i, ty) (domains, m).
         rbind (verifier_remap_bvars ty (param_count + i) (length domains) m) (\<lambda>d.
         Inr (domains @ [d], m @ [length domains])))
       (enumerate 0 index_domains) (domains, [0..<param_count])) (\<lambda>(domains, _). Inr domains)"

definition verifier_direct_recursive_index_args ::
    "string \<Rightarrow> string list \<Rightarrow> nat \<Rightarrow> nat \<Rightarrow> expr \<Rightarrow> nat \<Rightarrow> expr list cresult" where
  "verifier_direct_recursive_index_args name ups param_count index_count domain ctx_len =
     (case collect_apps domain of
        (Const n levels, args) \<Rightarrow>
          if n \<noteq> name then Inl (artifact_mismatch name)
          else if \<not> levels_eq levels (map LParam ups) \<or> length args \<noteq> param_count + index_count
          then Inl (artifact_mismatch name)
          else rbind (check_all (\<lambda>(param_index, arg).
                 rbind (verifier_bvar_for_abs ctx_len param_index) (\<lambda>v.
                   if arg \<noteq> v then Inl (artifact_mismatch name) else Inr ()))
                 (enumerate 0 (take param_count args))) (\<lambda>_.
            if list_all (\<lambda>arg. \<not> contains_const arg name) args then Inr (drop param_count args)
            else Inl (artifact_mismatch name))
      | _ \<Rightarrow> Inl (artifact_mismatch name))"

definition verifier_is_direct_recursive_domain ::
    "string \<Rightarrow> string list \<Rightarrow> nat \<Rightarrow> nat \<Rightarrow> expr \<Rightarrow> nat \<Rightarrow> bool" where
  "verifier_is_direct_recursive_domain name ups param_count index_count domain ctx_len =
     is_ok (verifier_direct_recursive_index_args name ups param_count index_count domain ctx_len)"

text \<open>The verifier blames the inductive where the generator blames the constructor.\<close>

definition verifier_constructor_result_index_args ::
    "string \<Rightarrow> string list \<Rightarrow> nat \<Rightarrow> nat \<Rightarrow> expr \<Rightarrow> expr list cresult" where
  "verifier_constructor_result_index_args name ups param_count index_count result =
     (case collect_apps result of
        (Const n levels, args) \<Rightarrow>
          if n \<noteq> name then Inl (artifact_mismatch name)
          else if \<not> levels_eq levels (map LParam ups) \<or> length args \<noteq> param_count + index_count
          then Inl (artifact_mismatch name)
          else Inr (drop param_count args)
      | _ \<Rightarrow> Inl (artifact_mismatch name))"

definition verifier_minor_field ::
    "string \<Rightarrow> string list \<Rightarrow> nat \<Rightarrow> nat \<Rightarrow> nat \<times> expr \<Rightarrow> minor_state \<Rightarrow> minor_state cresult" where
  "verifier_minor_field name ups param_count index_count p st =
     (let source = param_count + fst p in
      rbind (verifier_remap_bvars (snd p) source (ms_len st) (ms_map st)) (\<lambda>d.
      let st = add_field d st in
      if verifier_is_direct_recursive_domain name ups param_count index_count (snd p) source
      then rbind (verifier_direct_recursive_index_args name ups param_count index_count (snd p) source) (\<lambda>args.
           rbind (traverse (\<lambda>a. verifier_remap_bvars a source (ms_len st) (ms_map st)) args) (\<lambda>index_args.
           rbind (verifier_motive_app (ms_len st) param_count index_args (BVar 0)) (\<lambda>h.
           Inr (add_hypothesis h st))))
      else Inr st))"

definition verifier_minor_type ::
    "string \<Rightarrow> string list \<Rightarrow> nat \<Rightarrow> nat \<Rightarrow> string \<Rightarrow> expr \<Rightarrow> nat \<Rightarrow> expr cresult" where
  "verifier_minor_type name ups param_count index_count constructor_name constructor_ty constructor_index =
     (case peel_pi_domains constructor_ty of (domains, result) \<Rightarrow>
       if length domains < param_count then Inl (artifact_mismatch name)
       else
         rbind (verifier_constructor_result_index_args name ups param_count index_count result) (\<lambda>result_indices.
         rbind (fold_res (verifier_minor_field name ups param_count index_count)
                  (enumerate 0 (drop param_count domains))
                  \<lparr>ms_map = [0..<param_count], ms_len = param_count + 1 + constructor_index,
                   ms_domains = [], ms_fields = []\<rparr>) (\<lambda>st.
         rbind (traverse (verifier_bvar_for_abs (ms_len st)) ([0..<param_count] @ ms_fields st)) (\<lambda>constructor_args.
         rbind (traverse (\<lambda>a. verifier_remap_bvars a (length domains) (ms_len st) (ms_map st)) result_indices) (\<lambda>index_args.
         rbind (verifier_motive_app (ms_len st) param_count index_args
                  (apps (Const constructor_name (map LParam ups)) constructor_args)) (\<lambda>result.
         Inr (mk_pi_from_domains (ms_domains st) result)))))))"

definition verifier_expected_minor_type_expr ::
    "module_cert \<Rightarrow> term_conversion \<Rightarrow> string \<Rightarrow> string list \<Rightarrow> nat \<Rightarrow> nat \<Rightarrow> constructor_spec \<Rightarrow> nat \<Rightarrow>
     (cert_error + expr) option" where
  "verifier_expected_minor_type_expr cert terms name ups param_count index_count c constructor_index =
     obind (Some (name_to_string cert (cs_name c))) (\<lambda>constructor_name.
     obind (root_expr cert terms (cs_ty c)) (\<lambda>constructor_ty.
     Some (verifier_minor_type name ups param_count index_count constructor_name constructor_ty constructor_index)))"

definition verifier_expected_motive_level ::
    "module_cert \<Rightarrow> level_id \<Rightarrow> string list \<Rightarrow> string list \<Rightarrow> (cert_error + level) option" where
  "verifier_expected_motive_level cert srt inductive_ups recursor_ups =
     obind (level_from_node cert srt) (\<lambda>inductive_sort.
     Some (Inr (if level_eq inductive_sort LZero then LZero
      else (case find (\<lambda>p. p \<notin> set inductive_ups) (rev recursor_ups) of
          Some p \<Rightarrow> LParam p
        | None \<Rightarrow> if recursor_ups = [] then inductive_sort else LParam (last recursor_ups)))))"

definition expected_recursor_type_expr ::
    "module_cert \<Rightarrow> term_conversion \<Rightarrow> inductive_recursor_view \<Rightarrow> (cert_error + expr) option" where
  "expected_recursor_type_expr cert terms view =
     obind (Some (name_to_string cert (irv_name view))) (\<lambda>name.
     obind (Some (universe_names cert (irv_universe_params view))) (\<lambda>ups.
     obind (Some (universe_names cert (rs_universe_params (irv_recursor view)))) (\<lambda>recursor_ups.
     obind (otraverse (\<lambda>p. root_expr cert terms (bt_ty p)) (irv_params view)) (\<lambda>params.
     obind (otraverse (\<lambda>i. root_expr cert terms (bt_ty i)) (irv_indices view)) (\<lambda>indices.
     obind (verifier_expected_motive_level cert (irv_sort view) ups recursor_ups) (\<lambda>motive_level.
     obind (Some (verifier_motive_domain_expr name ups (length params) indices motive_level)) (\<lambda>motive.
     obind (otraverse (\<lambda>(i, c).
         verifier_expected_minor_type_expr cert terms name ups (length params) (length indices) c i)
       (enumerate 0 (irv_constructors view))) (\<lambda>minors.
     let domains = params @ [motive] @ minors; index_start = length domains in
     obind (Some (verifier_append_index_domains (length params) indices domains)) (\<lambda>domains.
     obind (Some (verifier_inductive_target_expr name ups (length domains) (length params) index_start
              (length indices))) (\<lambda>major_domain.
     let domains = domains @ [major_domain] in
     obind (Some (traverse (\<lambda>i. verifier_bvar_for_abs (length domains) (index_start + i)) [0..<length indices])) (\<lambda>index_args.
     obind (Some (verifier_bvar_for_abs (length domains) (unat (rrs_major_index (rs_rules (irv_recursor view)))))) (\<lambda>major.
     obind (Some (verifier_motive_app (length domains) (length params) index_args major)) (\<lambda>body.
     Some (Inr (mk_pi_from_domains domains body)))))))))))))))"

text \<open>The error for a declaration that is not as generated.\<close>

definition generated_mismatch :: "module_cert \<Rightarrow> name_id \<Rightarrow> (cert_error + unit) option" where
  "generated_mismatch cert name =
     Some (rbind (ok_or DecodeError (get_at (mc_name_table cert) (unat name))) (\<lambda>n.
       Inl (InductiveGeneratedArtifactMismatch n)))"

definition verify_recursor ::
    "module_cert \<Rightarrow> term_conversion \<Rightarrow> inductive_recursor_view \<Rightarrow> (cert_error + unit) option" where
  "verify_recursor cert terms view =
     (let param_count = length (irv_params view); rules = rs_rules (irv_recursor view) in
      if unat (rrs_minor_start rules) \<noteq> param_count + 1 \<or>
         unat (rrs_major_index rules) \<noteq> param_count + 1 + length (irv_constructors view) + length (irv_indices view)
      then generated_mismatch cert (irv_name view)
      else obind (expected_recursor_type_expr cert terms view) (\<lambda>expected.
        obind (root_expr cert terms (rs_ty (irv_recursor view))) (\<lambda>actual.
        if actual \<noteq> expected then generated_mismatch cert (irv_name view) else Some (Inr ()))))"

text \<open>
  A mutual block is generated again and its recursors are compared. The source repeats the
  conversion to kernel declarations here; it has no recursor in the block that it generates from.
\<close>

definition mutual_base_from ::
    "module_cert \<Rightarrow> term_conversion \<Rightarrow> string list \<Rightarrow> mutual_inductive_spec \<Rightarrow> (cert_error + inductive_decl) option" where
  "mutual_base_from cert terms us i =
     obind (Some (name_to_string cert (mis_name i))) (\<lambda>name.
     obind (otraverse (binder_from cert terms (\<lambda>k. ''p'' @ show_nat k)) (enumerate 0 (mis_params i))) (\<lambda>params.
     obind (otraverse (binder_from cert terms (\<lambda>k. ''i'' @ show_nat k)) (enumerate 0 (mis_indices i))) (\<lambda>indices.
     obind (level_from_node cert (mis_sort i)) (\<lambda>srt.
     obind (otraverse (constructor_from cert terms False) (mis_constructors i)) (\<lambda>ctors.
     Some (Inr \<lparr>ind_name = name, ind_universe_params = us, ind_universe_constraints = [],
       ind_params = params, ind_indices = indices, ind_sort = srt, ind_constructors = ctors,
       ind_recursor = None\<rparr>))))))"

definition compare_mutual_recursor ::
    "module_cert \<Rightarrow> term_conversion \<Rightarrow> string \<Rightarrow> mutual_inductive_spec \<times> inductive_decl \<Rightarrow> (cert_error + unit) option" where
  "compare_mutual_recursor cert terms block_name p =
     (let mismatch = artifact_mismatch block_name in
      obind (Some (ok_or mismatch (mis_recursor (fst p)))) (\<lambda>actual.
      obind (Some (ok_or mismatch (ind_recursor (snd p)))) (\<lambda>expected.
      obind (Some (ok_or mismatch (rec_rules expected))) (\<lambda>rules.
      obind (Some (name_to_string cert (rs_name actual))) (\<lambda>name.
      if name \<noteq> rec_name expected then Some (Inl mismatch)
      else obind (Some (universe_names cert (rs_universe_params actual))) (\<lambda>ups.
      if ups \<noteq> rec_universe_params expected \<or>
         unat (rrs_minor_start (rs_rules actual)) \<noteq> minor_start rules \<or>
         unat (rrs_major_index (rs_rules actual)) \<noteq> major_index rules
      then Some (Inl mismatch)
      else obind (root_expr cert terms (rs_ty actual)) (\<lambda>ty.
      if ty \<noteq> rec_ty expected then Some (Inl mismatch) else Some (Inr ()))))))))"

definition verify_mutual_inductive_generated_artifacts ::
    "module_cert \<Rightarrow> term_conversion \<Rightarrow> name_id \<Rightarrow> name_id list \<Rightarrow> universe_constraint_spec list \<Rightarrow>
     mutual_inductive_spec list \<Rightarrow> (cert_error + unit) option" where
  "verify_mutual_inductive_generated_artifacts cert terms n ups ucs inductives =
     obind (Some (name_to_string cert n)) (\<lambda>block_name.
     obind (Some (universe_names cert ups)) (\<lambda>us.
     obind (otraverse (mutual_base_from cert terms us) inductives) (\<lambda>bases.
     obind (universe_constraints_from_specs cert ucs) (\<lambda>cs.
     obind (Some (generate_mutual_inductive_artifacts \<lparr>blk_name = block_name, blk_universe_params = us,
         blk_universe_constraints = cs, blk_inductives = bases\<rparr>)) (\<lambda>expected.
     obind (otraverse (compare_mutual_recursor cert terms block_name) (zip inductives (blk_inductives expected))) (\<lambda>_.
     if length inductives \<noteq> length (blk_inductives expected) then Some (Inl (artifact_mismatch block_name))
     else Some (Inr ())))))))"

definition verify_decl_artifacts :: "module_cert \<Rightarrow> term_conversion \<Rightarrow> decl_cert \<Rightarrow> (cert_error + unit) option" where
  "verify_decl_artifacts cert terms d =
     (case dc_decl d of
        PInductive n ups ps is s cs (Some r) \<Rightarrow>
          verify_recursor cert terms \<lparr>irv_name = n, irv_universe_params = ups, irv_params = ps, irv_indices = is,
            irv_sort = s, irv_constructors = cs, irv_recursor = r\<rparr>
      | PInductiveConstrained n ups ucs ps is s cs (Some r) \<Rightarrow>
          verify_recursor cert terms \<lparr>irv_name = n, irv_universe_params = ups, irv_params = ps, irv_indices = is,
            irv_sort = s, irv_constructors = cs, irv_recursor = r\<rparr>
      | PMutualInductiveBlock n ups ucs is \<Rightarrow>
          verify_mutual_inductive_generated_artifacts cert terms n ups ucs is
      | _ \<Rightarrow> Some (Inr ()))"

definition verify_inductive_generated_artifacts :: "module_cert \<Rightarrow> term_conversion \<Rightarrow> (cert_error + unit) option" where
  "verify_inductive_generated_artifacts cert terms =
     obind (otraverse (verify_decl_artifacts cert terms) (mc_declarations cert)) (\<lambda>_. Some (Inr ()))"

definition verify_pre_import_checks ::
    "digest \<Rightarrow> module_cert \<Rightarrow> canonical_certificate_encoding \<Rightarrow> (cert_error + unit) option" where
  "verify_pre_import_checks sha cert canonical =
     obind (verify_hash_and_table_checks sha cert canonical) (\<lambda>_.
     obind (Some (verify_declaration_order cert)) (\<lambda>_.
     verify_inductive_generated_artifacts cert Legacy))"

text \<open>The check of a certificate without its imports.\<close>

definition verify_module_cert_hashes :: "digest \<Rightarrow> byte list \<Rightarrow> (cert_error + module_cert) option" where
  "verify_module_cert_hashes sha bytes =
     obind (Some (decode_module_cert bytes)) (\<lambda>cert.
     obind (Some (structural_preflight cert)) (\<lambda>_.
     obind (Some (verify_canonical_encoding cert bytes)) (\<lambda>canonical.
     obind (verify_pre_import_checks sha cert canonical) (\<lambda>_.
     Some (Inr cert)))))"

section \<open>The verifier computes what the generator computes\<close>

lemma peel_pi_loop_depth:
  "peel_pi_loop ds t = (ds', r) \<Longrightarrow> length ds' + expr_depth r \<le> length ds + expr_depth t \<and>
    (\<forall>d \<in> set ds'. d \<in> set ds \<or> expr_depth d \<le> expr_depth t)"
proof (induction ds t rule: peel_pi_loop.induct)
  case (1 ds x t b)
  from "1.IH" "1.prems" show ?case by fastforce
qed auto

lemma peel_pi_depth:
  assumes "peel_pi_domains t = (ds, r)"
  shows "length ds \<le> expr_depth t" and "expr_depth r \<le> expr_depth t" and "\<And>d. d \<in> set ds \<Longrightarrow> expr_depth d \<le> expr_depth t"
  using peel_pi_loop_depth [OF assms [unfolded peel_pi_domains_def]] by auto

lemma collect_apps_depth: "a \<in> set (snd (collect_apps t)) \<Longrightarrow> expr_depth a \<le> expr_depth t"
proof (induction t)
  case (App f x)
  then show ?case by force
qed auto

lemma traverse_cong: "(\<And>x. x \<in> set xs \<Longrightarrow> f x = g x) \<Longrightarrow> traverse f xs = traverse g xs"
  by (induction xs) auto

lemma fold_res_enumerate_cong:
  assumes "P n s" and "\<And>i t. i < length xs \<Longrightarrow> P (n + i) t \<Longrightarrow> f (n + i, xs ! i) t = g (n + i, xs ! i) t"
    and "\<And>i t t'. i < length xs \<Longrightarrow> P (n + i) t \<Longrightarrow> g (n + i, xs ! i) t = Inr t' \<Longrightarrow> P (Suc (n + i)) t'"
  shows "fold_res f (enumerate n xs) s = fold_res g (enumerate n xs) s"
  using assms
proof (induction xs arbitrary: n s)
  case (Cons x xs)
  have eq: "f (n, x) s = g (n, x) s" using Cons.prems(2) [of 0] Cons.prems(1) by simp
  show ?case
  proof (cases "g (n, x) s")
    case (Inr t)
    with Cons.prems(3) [of 0 s t] Cons.prems(1) have "P (Suc n) t" by simp
    then have "fold_res f (enumerate (Suc n) xs) t = fold_res g (enumerate (Suc n) xs) t"
      using Cons.prems(2,3) [of "Suc _"] by (intro Cons.IH) auto
    with eq Inr show ?thesis by simp
  qed (simp add: eq)
qed simp

text \<open>The renumberings agree on terms and contexts of realistic size, and the helpers are the same.\<close>

lemma verifier_remap_bounded:
  assumes "target < 2 ^ 40" and "expr_depth e < 2 ^ 40"
  shows "verifier_remap_bvars e source target m = generator_remap_bvars e source target m"
  using assms by (intro verifier_remap_eq) (simp add: fits_iff)

lemma verifier_motive_app_eq: "verifier_motive_app = cert_motive_app"
  by (intro ext) (simp add: verifier_motive_app_def cert_motive_app_def verifier_bvar_for_abs_eq)

lemma verifier_target_eq: "verifier_inductive_target_expr = inductive_target_expr"
  by (intro ext) (simp add: verifier_inductive_target_expr_def inductive_target_expr_def verifier_bvar_for_abs_eq)

lemma verifier_direct_args_eq: "verifier_direct_recursive_index_args = cert_direct_recursive_index_args"
  unfolding verifier_direct_recursive_index_args_def [abs_def] cert_direct_recursive_index_args_def [abs_def]
    verifier_bvar_for_abs_eq ..

lemma verifier_is_direct_eq: "verifier_is_direct_recursive_domain = cert_is_direct_recursive_domain"
  by (intro ext) (simp add: verifier_is_direct_recursive_domain_def cert_is_direct_recursive_domain_def verifier_direct_args_eq)

lemmas verifier_helpers = verifier_bvar_for_abs_eq verifier_motive_app_eq verifier_target_eq verifier_direct_args_eq
  verifier_is_direct_eq

lemma enumerate_of_map: "enumerate n (map f xs) = map (\<lambda>(i, x). (i, f x)) (enumerate n xs)"
  by (induction xs arbitrary: n) auto

lemma fold_res_of_map: "fold_res f (map g xs) s = fold_res (\<lambda>x. f (g x)) xs s"
  by (induction xs arbitrary: s) (auto intro: rbind_cong)

lemma motive_domains_agree:
  assumes "length (ind_params base) + length (ind_indices base) < 2 ^ 40"
    and "\<forall>b \<in> set (ind_indices base). expr_depth (bndr_ty b) < 2 ^ 40"
  shows "verifier_motive_domain_expr (ind_name base) (ind_universe_params base) (length (ind_params base))
      (map bndr_ty (ind_indices base)) l = motive_domain_expr base l"
proof -
  let ?n = "length (ind_params base)"
  have "fold_res (\<lambda>(i, ty) (domains, m). rbind (verifier_remap_bvars ty (?n + i) (?n + i) m) (\<lambda>d.
         Inr (domains @ [d], m @ [?n + i]))) (enumerate 0 (map bndr_ty (ind_indices base))) ([], [0..<?n]) =
    fold_res (\<lambda>(i, b) (domains, m). rbind (generator_remap_bvars (bndr_ty b) (?n + i) (?n + i) m) (\<lambda>d.
         Inr (domains @ [d], m @ [?n + i]))) (enumerate 0 (ind_indices base)) ([], [0..<?n])"
    unfolding enumerate_of_map fold_res_of_map
    by (rule fold_res_enumerate_cong [where P = "\<lambda>_ _. True"]) (use assms in \<open>auto simp: verifier_remap_bounded\<close>)
  then show ?thesis by (simp add: verifier_motive_domain_expr_def motive_domain_expr_def Let_def verifier_helpers)
qed

lemma index_domains_agree:
  assumes "length domains + length (ind_indices base) < 2 ^ 40"
    and "\<forall>b \<in> set (ind_indices base). expr_depth (bndr_ty b) < 2 ^ 40"
  shows "verifier_append_index_domains (length (ind_params base)) (map bndr_ty (ind_indices base)) domains =
    append_index_domains base domains"
proof -
  let ?n = "length (ind_params base)"
  have "fold_res (\<lambda>(i, ty) (domains, m). rbind (verifier_remap_bvars ty (?n + i) (length domains) m) (\<lambda>d.
         Inr (domains @ [d], m @ [length domains]))) (enumerate 0 (map bndr_ty (ind_indices base))) (domains, [0..<?n]) =
    fold_res (\<lambda>(i, b) (domains, m). rbind (generator_remap_bvars (bndr_ty b) (?n + i) (length domains) m) (\<lambda>d.
         Inr (domains @ [d], m @ [length domains]))) (enumerate 0 (ind_indices base)) (domains, [0..<?n])"
    unfolding enumerate_of_map fold_res_of_map
    by (rule fold_res_enumerate_cong [where P = "\<lambda>n (ds, _). length ds = length domains + n"])
      (use assms in \<open>auto simp: verifier_remap_bounded rbind_eq_Inr\<close>)
  then show ?thesis by (simp add: verifier_append_index_domains_def append_index_domains_def Let_def)
qed

lemma direct_args_depth:
  assumes "cert_direct_recursive_index_args name ups pc ic domain n = Inr args" and "a \<in> set args"
  shows "expr_depth a \<le> expr_depth domain"
  using assms collect_apps_depth [of a domain]
  by (auto simp: cert_direct_recursive_index_args_def rbind_eq_Inr split: prod.splits expr.splits if_splits dest!: in_set_dropD)

lemma minor_fields_agree:
  assumes "expr_depth (snd p) < 2 ^ 40" and "ms_len st + 1 < 2 ^ 40"
  shows "verifier_minor_field (ind_name base) (ind_universe_params base) pc ic p st = generator_minor_field base pc ic p st"
proof -
  have "traverse (\<lambda>a. verifier_remap_bvars a s t m) args = traverse (\<lambda>a. generator_remap_bvars a s t m) args"
    if "cert_direct_recursive_index_args (ind_name base) (ind_universe_params base) pc ic (snd p) (pc + fst p) = Inr args"
      "t < 2 ^ 40" for args s t m
    using direct_args_depth [OF that(1)] assms(1) that(2)
    by (intro traverse_cong verifier_remap_bounded) (auto dest: order_le_less_trans)
  moreover have "ms_len (add_field d st) < 2 ^ 40" for d using assms(2) by (simp add: add_field_def)
  ultimately show ?thesis
    using verifier_remap_bounded [OF _ assms(1), of "ms_len st"] assms(2)
    by (auto simp: verifier_minor_field_def generator_minor_field_def verifier_helpers Let_def intro!: rbind_cong)
qed

lemma result_args_agree:
  "verifier_constructor_result_index_args (ind_name base) (ind_universe_params base) (length (ind_params base))
     (length (ind_indices base)) result = Inr args \<longleftrightarrow> cert_constructor_result_index_args base c result = Inr args"
  by (auto simp: verifier_constructor_result_index_args_def cert_constructor_result_index_args_def Let_def
      split: prod.splits expr.splits if_splits)

lemma minor_types_agree:
  assumes "verifier_minor_type (ind_name base) (ind_universe_params base) (length (ind_params base))
      (length (ind_indices base)) (ctor_name c) ty k = Inr m"
    and "expr_depth ty < 2 ^ 30" and "length (ind_params base) + 1 + k < 2 ^ 36"
    and "peel_pi_domains (ctor_ty c) = peel_pi_domains ty"
  shows "generator_expected_minor_type_expr base (length (ind_params base)) (length (ind_indices base)) c k = Inr m"
proof -
  let ?pc = "length (ind_params base)" and ?ic = "length (ind_indices base)"
  let ?V = "verifier_minor_field (ind_name base) (ind_universe_params base) ?pc ?ic"
  let ?G = "generator_minor_field base ?pc ?ic"
  obtain ds r where peel: "peel_pi_domains ty = (ds, r)" by (cases "peel_pi_domains ty")
  note depth = peel_pi_depth [OF peel]
  let ?P = "\<lambda>n (st :: minor_state). ms_len st \<le> ?pc + 1 + k + 2 * n"
  let ?s = "\<lparr>ms_map = [0..<?pc], ms_len = ?pc + 1 + k, ms_domains = [], ms_fields = []\<rparr>"
  have step: "?P (Suc n) st'" if "?P n st" "?G p st = Inr st'" for n p st st'
    using that by (auto simp: generator_minor_field_def rbind_eq_Inr Let_def add_field_def add_hypothesis_def split: if_splits)
  have dom: "expr_depth (drop ?pc ds ! i) < 2 ^ 30" if "i < length (drop ?pc ds)" for i
    using depth(3) [of "drop ?pc ds ! i"] assms(2) that in_set_dropD nth_mem by fastforce
  have fold: "fold_res ?V (enumerate 0 (drop ?pc ds)) ?s = fold_res ?G (enumerate 0 (drop ?pc ds)) ?s"
  proof (rule fold_res_enumerate_cong [where P = ?P])
    fix i and st :: minor_state assume i: "i < length (drop ?pc ds)" and P: "?P (0 + i) st"
    show "?V (0 + i, drop ?pc ds ! i) st = ?G (0 + i, drop ?pc ds ! i) st"
      using dom [OF i] P i depth(1) assms(2,3) by (intro minor_fields_agree) simp_all
  qed (use step in simp_all)
  from assms(1) [unfolded verifier_minor_type_def peel prod.case fold verifier_helpers] obtain result_indices st
    where long: "\<not> length ds < ?pc"
      and result: "cert_constructor_result_index_args base c r = Inr result_indices"
      and st: "fold_res ?G (enumerate 0 (drop ?pc ds)) ?s = Inr st"
      and rest: "rbind (traverse (cert_bvar_for_abs (ms_len st)) ([0..<?pc] @ ms_fields st)) (\<lambda>constructor_args.
        rbind (traverse (\<lambda>a. verifier_remap_bvars a (length ds) (ms_len st) (ms_map st)) result_indices) (\<lambda>index_args.
        rbind (cert_motive_app (ms_len st) ?pc index_args
          (apps (Const (ctor_name c) (map LParam (ind_universe_params base))) constructor_args)) (\<lambda>result.
        Inr (mk_pi_from_domains (ms_domains st) result)))) = Inr m"
    unfolding result_args_agree [where c = c, symmetric] rbind_eq_Inr by (auto simp: rbind_eq_Inr split: if_splits)
  have "?P (0 + length (drop ?pc ds)) st" using st by (rule fold_res_enumerate) (use step in simp_all)
  with depth(1) assms(2,3) have len: "ms_len st < 2 ^ 40" by simp
  have "expr_depth a < 2 ^ 40" if "a \<in> set result_indices" for a
    using that result depth(2) collect_apps_depth [of a r] assms(2)
    by (auto simp: cert_constructor_result_index_args_def Let_def split: prod.splits expr.splits if_splits dest!: in_set_dropD)
  then have "traverse (\<lambda>a. verifier_remap_bvars a (length ds) (ms_len st) (ms_map st)) result_indices =
      traverse (\<lambda>a. generator_remap_bvars a (length ds) (ms_len st) (ms_map st)) result_indices"
    using len by (intro traverse_cong verifier_remap_bounded)
  with rest show ?thesis
    by (simp add: generator_expected_minor_type_expr_def assms(4) peel long result st [simplified])
qed

lemma preflight_expr_depth:
  assumes "structural_preflight cert = Inr cost" and "decl_names_in_table cert"
    and "expr_from_term cert t = Some (Inr x)"
  shows "expr_depth x \<le> 8192"
proof -
  from assms(3) have "unat t < length (mc_term_table cert)"
    by (cases rule: expr_from_termE) (auto simp: get_at_eq_Some)
  moreover obtain terms where "terms_tabulated cert (length (mc_term_table cert)) terms" "\<not> tc_depth_exceeded terms"
    using assms(1,2) by (rule preflight_tables) auto
  ultimately obtain y where "expr_from_term cert t = Some (Inr y)" "expr_depth y \<le> max_structural_depth"
    by (blast elim: tabulated_depth)
  with assms(3) show ?thesis by (simp add: max_structural_depth_def)
qed

lemma peel_rename_refl [simp]: "peel_pi_domains (rename_refl t) = peel_pi_domains t"
  by (auto simp: rename_refl_def peel_pi_domains_def split: expr.splits)

lemma binder_types:
  assumes "otraverse (binder_from cert terms nm) (enumerate k bs) = Some (Inr params)"
  shows "otraverse (\<lambda>b. root_expr cert terms (bt_ty b)) bs = Some (Inr (map bndr_ty params))"
  using assms
proof (induction bs arbitrary: k params)
  case (Cons b bs)
  then show ?case by (auto simp: obind_Inr binder_from_def)
qed simp

lemma otraverse_length: "otraverse f xs = Some (Inr ys) \<Longrightarrow> length ys = length xs"
  by (auto simp: otraverse_Inr dest: list_all2_lengthD)

text \<open>The minor premises, constructor by constructor.\<close>

lemma minors_generated:
  assumes "otraverse (\<lambda>(i, c). verifier_expected_minor_type_expr cert terms (ind_name data) (ind_universe_params data)
        (length (ind_params data)) (length (ind_indices data)) c i) (enumerate k cs) = Some (Inr minors)"
    and "otraverse (constructor_from cert terms is_eq) cs = Some (Inr ctors)"
    and "\<And>t x. root_expr cert terms t = Some (Inr x) \<Longrightarrow> expr_depth x \<le> 8192"
    and "length (ind_params data) + k + length cs < 2 ^ 35"
  shows "traverse (\<lambda>(i, c). generator_expected_minor_type_expr data (length (ind_params data)) (length (ind_indices data)) c i)
    (enumerate k ctors) = Inr minors"
  using assms(1,2,4)
proof (induction cs arbitrary: k minors ctors)
  case (Cons c cs)
  let ?pc = "length (ind_params data)" and ?ic = "length (ind_indices data)"
  let ?n = "ind_name data" and ?us = "ind_universe_params data"
  from Cons.prems obtain m ms d ds where minors: "minors = m # ms" and ctors: "ctors = d # ds"
    and m: "verifier_expected_minor_type_expr cert terms ?n ?us ?pc ?ic c k = Some (Inr m)"
    and ms: "otraverse (\<lambda>(i, c). verifier_expected_minor_type_expr cert terms ?n ?us ?pc ?ic c i) (enumerate (Suc k) cs) = Some (Inr ms)"
    and d: "constructor_from cert terms is_eq c = Some (Inr d)" and ds: "otraverse (constructor_from cert terms is_eq) cs = Some (Inr ds)"
    by (auto simp: obind_Inr)
  from m d obtain t where t: "root_expr cert terms (cs_ty c) = Some (Inr t)" "peel_pi_domains (ctor_ty d) = peel_pi_domains t"
    and minor: "verifier_minor_type ?n ?us ?pc ?ic (ctor_name d) t k = Inr m"
    by (auto simp: verifier_expected_minor_type_expr_def constructor_from_def obind_Inr split: if_splits)
  have "generator_expected_minor_type_expr data ?pc ?ic d k = Inr m"
    using assms(3) [OF t(1)] Cons.prems(3) by (intro minor_types_agree [OF minor _ _ t(2)]) simp_all
  with Cons.IH [OF ms ds] Cons.prems(3) show ?case by (simp add: minors ctors)
qed simp

lemma recursor_generated:
  assumes data: "inductive_from cert terms payload n ups ps is s cs (Some r) = Some (Inr (Inductive nm us ty data))"
    and ok: "verify_recursor cert terms \<lparr>irv_name = n, irv_universe_params = ups, irv_params = ps, irv_indices = is,
      irv_sort = s, irv_constructors = cs, irv_recursor = r\<rparr> = Some (Inr ())"
    and depth: "\<And>t x. root_expr cert terms t = Some (Inr x) \<Longrightarrow> expr_depth x \<le> 8192"
    and small: "length ps + length is + length cs < 2 ^ 34"
  shows "\<exists>rec. ind_recursor data = Some rec \<and> rec_rules rec = Some (generated_recursor_rules data) \<and>
    generated_recursor_type data (rec_universe_params rec) (generated_recursor_rules data) = Inr (rec_ty rec)"
proof -
  let ?view = "\<lparr>irv_name = n, irv_universe_params = ups, irv_params = ps, irv_indices = is,
      irv_sort = s, irv_constructors = cs, irv_recursor = r\<rparr>"
  from data have name: "name_to_string cert n = Inr (ind_name data)" and us: "universe_names cert ups = Inr (ind_universe_params data)"
      and srt: "level_from_node cert s = Some (Inr (ind_sort data))"
      and ps: "otraverse (binder_from cert terms (param_binder_name (nm = ''Eq''))) (enumerate 0 ps) = Some (Inr (ind_params data))"
      and ixs: "otraverse (binder_from cert terms (index_binder_name (nm = ''Eq''))) (enumerate 0 is) = Some (Inr (ind_indices data))"
      and cs: "otraverse (constructor_from cert terms (nm = ''Eq'')) cs = Some (Inr (ind_constructors data))"
      and rec: "recursor_from cert terms (Some r) = Some (Inr (ind_recursor data))"
    by (auto simp: inductive_from_def obind_Inr Let_def)
  have len: "length (ind_params data) = length ps" "length (ind_indices data) = length is"
    "length (ind_constructors data) = length cs"
    using otraverse_length [OF ps] otraverse_length [OF ixs] otraverse_length [OF cs] by simp_all
  from rec obtain rc where rc: "ind_recursor data = Some rc" "universe_names cert (rs_universe_params r) = Inr (rec_universe_params rc)"
    "root_expr cert terms (rs_ty r) = Some (Inr (rec_ty rc))"
    "rec_rules rc = Some \<lparr>minor_start = unat (rrs_minor_start (rs_rules r)), major_index = unat (rrs_major_index (rs_rules r))\<rparr>"
    by (cases "ind_recursor data") (auto simp: recursor_from_def obind_Inr)
  from ok obtain expected where rules: "unat (rrs_minor_start (rs_rules r)) = length ps + 1"
      "unat (rrs_major_index (rs_rules r)) = length ps + 1 + length cs + length is"
    and ex: "expected_recursor_type_expr cert terms ?view = Some (Inr expected)" and "expected = rec_ty rc"
    by (auto simp: verify_recursor_def Let_def obind_Inr rc(3) generated_mismatch_def rbind_eq_Inr split: if_splits)
  have gen_rules: "generated_recursor_rules data = \<lparr>minor_start = unat (rrs_minor_start (rs_rules r)), major_index = unat (rrs_major_index (rs_rules r))\<rparr>"
    by (simp add: generated_recursor_rules_def Let_def rules len)
  let ?ps = "map bndr_ty (ind_params data)" and ?is = "map bndr_ty (ind_indices data)"
  let ?l = "expected_motive_level data (rec_universe_params rc)"
  have isd: "\<forall>b \<in> set (ind_indices data). expr_depth (bndr_ty b) < 2 ^ 40"
    using depth binder_types [OF ixs] by (fastforce simp: otraverse_Inr list_all2_conv_all_nth in_set_conv_nth)
  have motive_eq: "verifier_motive_domain_expr (ind_name data) (ind_universe_params data) (length (ind_params data)) ?is ?l =
      motive_domain_expr data ?l"
    using isd small len by (intro motive_domains_agree) simp_all
  from ex obtain motive minors domains
    where motive: "motive_domain_expr data ?l = Inr motive"
      and minors: "otraverse (\<lambda>(i, c). verifier_expected_minor_type_expr cert terms (ind_name data) (ind_universe_params data)
        (length (ind_params data)) (length (ind_indices data)) c i) (enumerate 0 cs) = Some (Inr minors)"
      and domains: "verifier_append_index_domains (length (ind_params data)) ?is (?ps @ [motive] @ minors) = Inr domains"
      and rest: "rbind (inductive_target_expr (ind_name data) (ind_universe_params data) (length domains)
          (length (ind_params data)) (length (?ps @ [motive] @ minors)) (length (ind_indices data))) (\<lambda>major_domain.
        let domains = domains @ [major_domain] in
        rbind (traverse (\<lambda>i. cert_bvar_for_abs (length domains) (length (?ps @ [motive] @ minors) + i))
          [0..<length (ind_indices data)]) (\<lambda>index_args.
        rbind (cert_bvar_for_abs (length domains) (unat (rrs_major_index (rs_rules r)))) (\<lambda>major.
        rbind (cert_motive_app (length domains) (length (ind_params data)) index_args major) (\<lambda>body.
        Inr (mk_pi_from_domains domains body))))) = Inr expected"
    by (auto simp: expected_recursor_type_expr_def obind_Inr rbind_eq_Inr Let_def name us rc(2) srt binder_types [OF ps]
        binder_types [OF ixs] verifier_expected_motive_level_def expected_motive_level_def [symmetric] motive_eq verifier_helpers)
  have "length minors = length cs" using otraverse_length [OF minors] by simp
  then have "append_index_domains data (?ps @ [motive] @ minors) = Inr domains"
    using domains isd small len by (subst index_domains_agree [symmetric]) simp_all
  moreover have "traverse (\<lambda>(i, c). generator_expected_minor_type_expr data (length (ind_params data))
      (length (ind_indices data)) c i) (enumerate 0 (ind_constructors data)) = Inr minors"
    by (rule minors_generated [OF minors cs depth]) (use small len in simp_all)
  ultimately have "generated_recursor_type data (rec_universe_params rc) (generated_recursor_rules data) = Inr expected"
    using rest motive by (simp add: generated_recursor_type_def gen_rules Let_def)
  with rc gen_rules \<open>expected = rec_ty rc\<close> show ?thesis by simp
qed

lemma single_recursor_generated:
  assumes "structural_preflight cert = Inr cost" and "verify_tables sha cert = Some (Inr tables)"
    and "conversion_of cert terms" and "verify_decl_artifacts cert terms d = Some (Inr ())"
    and "d \<in> set (mc_declarations cert)"
    and "decl_payload_to_kernel_decl_with_terms cert terms (dc_decl d) = Some (Inr (Inductive name us ty data))"
    and "ind_recursor data = Some rec"
  shows "rec_rules rec = Some (generated_recursor_rules data) \<and>
    generated_recursor_type data (rec_universe_params rec) (generated_recursor_rules data) = Inr (rec_ty rec)"
proof -
  have depth: "expr_depth x \<le> 8192" if "root_expr cert terms t = Some (Inr x)" for t x
    using preflight_expr_depth [OF assms(1) verified_tables_names [OF assms(2)] conversion_expr [OF assms(3) that]] .
  note ok = assms(4)
  from assms(1,5) have counts: "check_decl_counts (dc_decl d) = Inr ()"
    by (auto simp: structural_preflight_def validate_counts_def rbind_eq_Inr check_all_eq_Inr check_declaration_counts_def)
  have found: "rec_rules rec = Some (generated_recursor_rules data) \<and>
      generated_recursor_type data (rec_universe_params rec) (generated_recursor_rules data) = Inr (rec_ty rec)"
    if "inductive_from cert terms payload n ups ps is s cs (Some r) = Some (Inr (Inductive name us ty data))"
      "verify_recursor cert terms \<lparr>irv_name = n, irv_universe_params = ups, irv_params = ps, irv_indices = is,
        irv_sort = s, irv_constructors = cs, irv_recursor = r\<rparr> = Some (Inr ())"
      "length ps + length is + length cs < 2 ^ 34" for payload n ups ps "is" s cs r
    using recursor_generated [OF that(1,2) depth that(3)] assms(7) by auto
  have some: "r \<noteq> None" if "inductive_from cert terms payload n ups ps is s cs r = Some (Inr (Inductive name us ty data))"
    for payload n ups ps "is" s cs r
    using that assms(7) by (auto simp: inductive_from_def recursor_from_def obind_Inr Let_def split: option.splits)
  show ?thesis
  proof (cases "dc_decl d")
    case (PInductive n ups ps "is" s cs r)
    with some [of "dc_decl d" n ups ps "is" s cs r] assms(6) obtain r' where "r = Some r'"
      by (auto simp: decl_payload_to_kernel_decl_with_terms_def)
    with PInductive ok counts assms(6) show ?thesis
      by (intro found) (auto simp: decl_payload_to_kernel_decl_with_terms_def verify_decl_artifacts_def rbind_eq_Inr
          nested_def ensure_count_limit_def max_nested_vector_entries_def split: if_splits)
  next
    case (PInductiveConstrained n ups ucs ps "is" s cs r)
    with some [of "dc_decl d" n ups ps "is" s cs r] assms(6) obtain r' where "r = Some r'"
      by (auto simp: decl_payload_to_kernel_decl_with_terms_def)
    with PInductiveConstrained ok counts assms(6) show ?thesis
      by (intro found) (auto simp: decl_payload_to_kernel_decl_with_terms_def verify_decl_artifacts_def rbind_eq_Inr
          nested_def ensure_count_limit_def max_nested_vector_entries_def split: if_splits)
  qed (use assms(6) in \<open>auto simp: decl_payload_to_kernel_decl_with_terms_def obind_Inr\<close>)
qed

section \<open>Mutual blocks are generated\<close>

definition without_recursors :: "mutual_inductive_block \<Rightarrow> mutual_inductive_block" where
  "without_recursors block =
     block\<lparr>blk_inductives := map (\<lambda>data. data\<lparr>ind_recursor := None\<rparr>) (blk_inductives block)\<rparr>"

lemma add_recursor_without:
  assumes "add_generated_mutual_recursor ups i block = Inr block'" and "i < length (blk_inductives block)"
  shows "without_recursors block' = without_recursors block"
proof -
  have "(map (ind_recursor_update (\<lambda>_. None)) ds)[i := (ds ! i)\<lparr>ind_recursor := None\<rparr>] =
      map (ind_recursor_update (\<lambda>_. None)) ds" if "i < length ds" for ds
    using that by (metis list_update_id map_update)
  from this [OF assms(2)] assms show ?thesis
    by (auto simp: add_generated_mutual_recursor_def Let_def rbind_eq_Inr without_recursors_def map_update)
qed

lemma without_recursors_length:
  "without_recursors block' = without_recursors block \<Longrightarrow> length (blk_inductives block') = length (blk_inductives block)"
  unfolding without_recursors_def by (drule arg_cong [where f = "\<lambda>b. length (blk_inductives b)"]) simp

lemma add_recursors_without:
  "fold_res (add_generated_mutual_recursor ups) is block = Inr block' \<Longrightarrow> \<forall>i \<in> set is. i < length (blk_inductives block) \<Longrightarrow>
   without_recursors block' = without_recursors block"
proof (induction "is" arbitrary: block)
  case (Cons i "is")
  then obtain next_block where step: "add_generated_mutual_recursor ups i block = Inr next_block"
    "fold_res (add_generated_mutual_recursor ups) is next_block = Inr block'" by (auto simp: rbind_eq_Inr)
  from add_recursor_without [OF step(1)] Cons.prems(2) have "without_recursors next_block = without_recursors block" by simp
  moreover from without_recursors_length [OF this] Cons.prems(2)
  have "\<forall>j \<in> set is. j < length (blk_inductives next_block)" by simp
  ultimately show ?case using Cons.IH [OF step(2)] by simp
qed simp

lemma generated_block_without:
  "generate_mutual_inductive_artifacts block = Inr block' \<Longrightarrow> without_recursors block' = without_recursors block"
  by (auto simp: generate_mutual_inductive_artifacts_def Let_def split: if_splits intro: add_recursors_without)

lemma inductive_recursor_eqI:
  "d\<lparr>ind_recursor := None\<rparr> = d'\<lparr>ind_recursor := None\<rparr> \<Longrightarrow> ind_recursor d = ind_recursor d' \<Longrightarrow> d = (d' :: inductive_decl)"
  by (cases d; cases d') simp

lemma inductives_updateD:
  "block\<lparr>blk_inductives := ds\<rparr> = block'\<lparr>blk_inductives := ds'\<rparr> \<Longrightarrow> ds = ds'"
  by (drule arg_cong [where f = blk_inductives]) simp

lemma inductives_update_eqI:
  "blk_inductives block = blk_inductives block' \<Longrightarrow> block\<lparr>blk_inductives := ds\<rparr> = block'\<lparr>blk_inductives := ds'\<rparr> \<Longrightarrow>
   block = (block' :: mutual_inductive_block)"
  by (cases block; cases block') simp

lemma block_recursors_eqI:
  assumes "without_recursors block = without_recursors block'"
    and "\<And>i. i < length (blk_inductives block) \<Longrightarrow>
      ind_recursor (blk_inductives block ! i) = ind_recursor (blk_inductives block' ! i)"
  shows "block = (block' :: mutual_inductive_block)"
proof -
  from assms(1) have inds: "map (\<lambda>data. data\<lparr>ind_recursor := None\<rparr>) (blk_inductives block) =
      map (\<lambda>data. data\<lparr>ind_recursor := None\<rparr>) (blk_inductives block')"
    unfolding without_recursors_def by (rule inductives_updateD)
  have "blk_inductives block ! i = blk_inductives block' ! i" if i: "i < length (blk_inductives block)" for i
  proof (rule inductive_recursor_eqI [OF _ assms(2) [OF i]])
    from i have i': "i < length (blk_inductives block')" using without_recursors_length [OF assms(1)] by simp
    from arg_cong [OF inds, of "\<lambda>ds. ds ! i"]
    show "(blk_inductives block ! i)\<lparr>ind_recursor := None\<rparr> = (blk_inductives block' ! i)\<lparr>ind_recursor := None\<rparr>"
      unfolding nth_map [OF i] nth_map [OF i'] .
  qed
  then have "blk_inductives block = blk_inductives block'"
    using without_recursors_length [OF assms(1)] by (intro nth_equalityI) simp_all
  with assms(1) show ?thesis unfolding without_recursors_def by (rule inductives_update_eqI [rotated])
qed

lemma mutual_base_without:
  assumes "mutual_inductive_from cert terms ups i = Some (Inr d)" and "universe_names cert ups = Inr us"
  shows "mutual_base_from cert terms us i = Some (Inr (d\<lparr>ind_recursor := None\<rparr>))"
  using assms by (auto simp: mutual_inductive_from_def mutual_base_from_def obind_Inr param_binder_name_def [abs_def]
      index_binder_name_def [abs_def])

lemma mutual_bases_without:
  "otraverse (mutual_inductive_from cert terms ups) is = Some (Inr ds) \<Longrightarrow> universe_names cert ups = Inr us \<Longrightarrow>
   otraverse (mutual_base_from cert terms us) is = Some (Inr (map (\<lambda>d. d\<lparr>ind_recursor := None\<rparr>) ds))"
proof (induction "is" arbitrary: ds)
  case (Cons i "is")
  then show ?case by (auto simp: obind_Inr mutual_base_without)
qed simp

lemma compared_recursor:
  assumes "compare_mutual_recursor cert terms name (i, expected) = Some (Inr ())"
    and "mutual_inductive_from cert terms ups i = Some (Inr d)"
  shows "ind_recursor expected = ind_recursor d"
proof -
  from assms(1) obtain actual er rules where rec: "mis_recursor i = Some actual" "ind_recursor expected = Some er"
      "rec_rules er = Some rules"
    and eqs: "name_to_string cert (rs_name actual) = Inr (rec_name er)"
      "universe_names cert (rs_universe_params actual) = Inr (rec_universe_params er)"
      "unat (rrs_minor_start (rs_rules actual)) = minor_start rules"
      "unat (rrs_major_index (rs_rules actual)) = major_index rules"
      "root_expr cert terms (rs_ty actual) = Some (Inr (rec_ty er))"
    by (auto simp: compare_mutual_recursor_def Let_def obind_Inr split: if_splits)
  from assms(2) rec(1) have "recursor_from cert terms (Some actual) = Some (Inr (ind_recursor d))"
    by (auto simp: mutual_inductive_from_def obind_Inr)
  with rec eqs show ?thesis by (cases er; cases rules) (auto simp: recursor_from_def)
qed

lemma mutual_block_generated:
  assumes ok: "verify_mutual_inductive_generated_artifacts cert terms n ups ucs is = Some (Inr ())"
    and conv: "decl_payload_to_kernel_decl_with_terms cert terms (PMutualInductiveBlock n ups ucs is) =
      Some (Inr (MutualInductiveBlock name us block))"
  shows "generate_mutual_inductive_artifacts (without_recursors block) = Inr block"
proof -
  from conv obtain ds cs where names: "name_to_string cert n = Inr name" "universe_names cert ups = Inr us"
    and ds: "otraverse (mutual_inductive_from cert terms ups) is = Some (Inr ds)"
    and cs: "universe_constraints_from_specs cert ucs = Some (Inr cs)"
    and block: "block = \<lparr>blk_name = name, blk_universe_params = us, blk_universe_constraints = cs, blk_inductives = ds\<rparr>"
    by (auto simp: decl_payload_to_kernel_decl_with_terms_def obind_Inr)
  have base: "without_recursors block = \<lparr>blk_name = name, blk_universe_params = us, blk_universe_constraints = cs,
      blk_inductives = map (\<lambda>d. d\<lparr>ind_recursor := None\<rparr>) ds\<rparr>" by (simp add: block without_recursors_def)
  from ok obtain expected xs where gen: "generate_mutual_inductive_artifacts (without_recursors block) = Inr expected"
    and compare: "otraverse (compare_mutual_recursor cert terms name) (zip is (blk_inductives expected)) = Some (Inr xs)"
    by (auto simp: verify_mutual_inductive_generated_artifacts_def obind_Inr names cs mutual_bases_without [OF ds names(2)] base)
  from generated_block_without [OF gen] have same: "without_recursors expected = without_recursors block"
    by (simp add: without_recursors_def)
  have len: "length (blk_inductives expected) = length is" "length ds = length is"
    using without_recursors_length [OF same] otraverse_length [OF ds] by (simp_all add: block)
  have "ind_recursor (blk_inductives expected ! i) = ind_recursor (blk_inductives block ! i)"
    if "i < length (blk_inductives expected)" for i
  proof (rule compared_recursor)
    show "compare_mutual_recursor cert terms name (is ! i, blk_inductives expected ! i) = Some (Inr ())"
      using compare that len by (auto simp: otraverse_Inr list_all2_conv_all_nth)
    show "mutual_inductive_from cert terms ups (is ! i) = Some (Inr (blk_inductives block ! i))"
      using ds that len by (auto simp: otraverse_Inr list_all2_conv_all_nth block)
  qed
  with same gen show ?thesis using block_recursors_eqI by metis
qed

text \<open>
  C35: The recursors of a certificate that \<^verbatim>\<open>verify_inductive_generated_artifacts\<close> accepts are the
  generated ones, as far as it checks them. For a single inductive with a recursor, the kernel
  declaration that the certificate is converted to has the recursor rules and, at the universe
  parameters that the certificate gives the recursor, the recursor type that the generator of
  \<^verbatim>\<open>inductive.rs\<close> computes from parameters, indices and constructors; the name and the universe
  parameters of that recursor are not compared with the generated ones. A mutual block is exactly
  what the generator makes of the block without its recursors: names, universe parameters, rules
  and types of all its recursors.
\<close>

theorem verified_recursors_generated:
  assumes "structural_preflight cert = Inr cost" and "verify_tables sha cert = Some (Inr tables)"
    and "conversion_of cert terms" and "verify_inductive_generated_artifacts cert terms = Some (Inr ())"
    and "d \<in> set (mc_declarations cert)"
    and "decl_payload_to_kernel_decl_with_terms cert terms (dc_decl d) = Some (Inr kd)"
  shows "(\<forall>name us ty data rec. kd = Inductive name us ty data \<and> ind_recursor data = Some rec \<longrightarrow>
      rec_rules rec = Some (generated_recursor_rules data) \<and>
      generated_recursor_type data (rec_universe_params rec) (generated_recursor_rules data) = Inr (rec_ty rec)) \<and>
    (\<forall>name us block. kd = MutualInductiveBlock name us block \<longrightarrow>
      generate_mutual_inductive_artifacts (without_recursors block) = Inr block)"
proof (intro conjI allI impI)
  from assms(4,5) have ok: "verify_decl_artifacts cert terms d = Some (Inr ())"
    by (auto simp: verify_inductive_generated_artifacts_def obind_Inr otraverse_Inr list_all2_conv_all_nth in_set_conv_nth)
  show "generate_mutual_inductive_artifacts (without_recursors block) = Inr block"
    if "kd = MutualInductiveBlock name us block" for name us block
  proof (cases "dc_decl d")
    case (PMutualInductiveBlock n ups ucs "is")
    with ok assms(6) that show ?thesis by (auto simp: verify_decl_artifacts_def intro: mutual_block_generated)
  qed (use assms(6) that in \<open>auto simp: decl_payload_to_kernel_decl_with_terms_def inductive_from_def Let_def obind_Inr\<close>)
  fix name us ty data rec
  assume kd: "kd = Inductive name us ty data \<and> ind_recursor data = Some rec"
  from single_recursor_generated [OF assms(1-3) ok assms(5)] assms(6) kd
  show "rec_rules rec = Some (generated_recursor_rules data)"
    "generated_recursor_type data (rec_universe_params rec) (generated_recursor_rules data) = Inr (rec_ty rec)" by auto
qed

section \<open>A certificate with an inductive type\<close>

text \<open>The type without constructors and its recursor.\<close>

definition empty_cert :: module_cert where
  "empty_cert = \<lparr>
     mc_header = \<lparr>hdr_format = FORMAT, hdr_core_spec = CORE_SPEC, hdr_module = [''Falsum'']\<rparr>,
     mc_imports = [], mc_name_table = [[''False''], [''False'', ''rec''], [''Falsum'']], mc_level_table = [LNZero],
     mc_term_table = [TNSort 0, TNBVar 0, TNBVar 1, TNConst (GLocal 0) [], TNApp 2 1, TNPi 3 0, TNPi 3 4, TNPi 5 6],
     mc_declarations = [\<lparr>dc_decl = PInductive 0 [] [] [] 0 [] (Some \<lparr>rs_name = 1, rs_universe_params = [], rs_ty = 7,
         rs_rules = \<lparr>rrs_minor_start = 1, rrs_major_index = 1\<rparr>\<rparr>), dc_dependencies = [],
       dc_axiom_dependencies = [],
       dc_hashes = \<lparr>dh_decl_interface_hash = sample_hash, dh_decl_certificate_hash = sample_hash\<rparr>\<rparr>],
     mc_export_block = [\<lparr>ee_name = 0, ee_kind = EKInductive, ee_universe_params = [],
       ee_universe_constraints = [], ee_ty = 0, ee_body = None, ee_type_hash = sample_hash,
       ee_body_hash = None, ee_reducibility = None, ee_opacity = None,
       ee_decl_interface_hash = sample_hash, ee_axiom_dependencies = []\<rparr>,
      \<lparr>ee_name = 1, ee_kind = EKRecursor, ee_universe_params = [],
       ee_universe_constraints = [], ee_ty = 7, ee_body = None, ee_type_hash = sample_hash,
       ee_body_hash = None, ee_reducibility = None, ee_opacity = None,
       ee_decl_interface_hash = sample_hash, ee_axiom_dependencies = []\<rparr>],
     mc_axiom_report = \<lparr>rep_per_declaration = [\<lparr>dar_decl_index = 0, dar_direct_axioms = [],
       dar_transitive_axioms = []\<rparr>], rep_module_axioms = []\<rparr>,
     mc_hashes = \<lparr>mh_export_hash = sample_hash, mh_axiom_report_hash = sample_hash,
       mh_certificate_hash = sample_hash\<rparr>\<rparr>"

definition empty_data :: inductive_decl where
  "empty_data = \<lparr>ind_name = ''False'', ind_universe_params = [], ind_universe_constraints = [], ind_params = [],
     ind_indices = [], ind_sort = LZero, ind_constructors = [],
     ind_recursor = Some \<lparr>rec_name = ''False.rec'', rec_universe_params = [],
       rec_ty = Pi ''_'' (Pi ''_'' (Const ''False'' []) (Sort LZero)) (Pi ''_'' (Const ''False'' []) (App (BVar 1) (BVar 0))),
       rec_rules = Some \<lparr>minor_start = 1, major_index = 1\<rparr>\<rparr>\<rparr>"

lemma empty_preflight: "structural_preflight empty_cert =
    Inr \<lparr>sc_max_depth = 4, sc_max_root_expansion = 10, sc_certificate_expansion = 23\<rparr>"
  by code_simp

lemma empty_tables: "verify_tables sample_digest empty_cert =
    Some (Inr \<lparr>vct_level_hashes = [sample_hash], vct_term_hashes = replicate 8 sample_hash\<rparr>)"
  by code_simp

lemma empty_artifacts: "verify_inductive_generated_artifacts empty_cert Legacy = Some (Inr ())"
  by code_simp

lemma empty_decl: "decl_payload_to_kernel_decl_with_terms empty_cert Legacy (dc_decl (hd (mc_declarations empty_cert))) =
    Some (Inr (Inductive ''False'' [] (Sort LZero) empty_data))"
  by code_simp

theorem verified_recursors_generated_witness:
  "\<exists>rec. ind_recursor empty_data = Some rec \<and>
     generated_recursor_type empty_data (rec_universe_params rec) (generated_recursor_rules empty_data) = Inr (rec_ty rec)"
proof -
  obtain rec where rec: "ind_recursor empty_data = Some rec" by (simp add: empty_data_def)
  have "conversion_of empty_cert Legacy" "hd (mc_declarations empty_cert) \<in> set (mc_declarations empty_cert)"
    by (simp_all add: conversion_of_def empty_cert_def)
  from verified_recursors_generated [OF empty_preflight empty_tables this(1) empty_artifacts this(2) empty_decl] rec
  show ?thesis by simp
qed

end
