(* ===== verification/Cert_Session.thy ===== *)
theory Cert_Session
  imports Cert_Artifacts
begin

text \<open>
  Verified modules and the session that keeps them (\<^verbatim>\<open>VerifierSession\<close> in \<^verbatim>\<open>types.rs\<close>), and the
  resolution of the imports of a certificate, from a session or from a list of modules
  (\<^verbatim>\<open>verify.rs\<close>). A module found for an import is the one that the import asks for, and in
  high-trust mode one that the session holds with high trust, from the verifier or from the caller.
\<close>

section \<open>Verified modules\<close>

text \<open>The count of retained bytes, which no check reads, is left out.\<close>

record verified_module =
  vm_certificate :: module_cert
  vm_structural_closure :: closure_summary

definition vm_module :: "verified_module \<Rightarrow> cname" where
  "vm_module m = hdr_module (mc_header (vm_certificate m))"

definition vm_export_hash :: "verified_module \<Rightarrow> hash" where
  "vm_export_hash m = mh_export_hash (mc_hashes (vm_certificate m))"

definition vm_certificate_hash :: "verified_module \<Rightarrow> hash" where
  "vm_certificate_hash m = mh_certificate_hash (mc_hashes (vm_certificate m))"

definition normal_policy :: axiom_policy where
  "normal_policy = \<lparr>pol_mode = NormalTrust, pol_allowlisted_axioms = [], pol_deny_sorry = True\<rparr>"

definition high_trust_policy :: axiom_policy where
  "high_trust_policy = \<lparr>pol_mode = HighTrust, pol_allowlisted_axioms = [], pol_deny_sorry = True\<rparr>"

section \<open>The session\<close>

text \<open>The map of a session is the list of its entries in the order of their keys.\<close>

type_synonym session_key = "cname \<times> hash \<times> hash option"

record session_entry =
  se_module :: verified_module
  se_mode :: trust_mode

type_synonym verifier_session = "(session_key \<times> session_entry) list"

definition session_new :: verifier_session where
  "session_new = []"

definition session_key_of :: "verified_module \<Rightarrow> session_key" where
  "session_key_of m = (vm_module m, vm_export_hash m, Some (vm_certificate_hash m))"

definition replace_entry :: "session_entry \<Rightarrow> session_entry \<Rightarrow> session_entry" where
  "replace_entry existing entry =
     (if se_mode existing = HighTrust
      then (if se_mode entry = HighTrust then entry else existing)
      else entry)"

primrec session_insert :: "session_key \<Rightarrow> session_entry \<Rightarrow> verifier_session \<Rightarrow> verifier_session" where
  "session_insert key entry [] = [(key, entry)]"
| "session_insert key entry (ke # session) =
     (if key < fst ke then (key, entry) # ke # session
      else if key = fst ke then (key, replace_entry (snd ke) entry) # session
      else ke # session_insert key entry session)"

definition insert_verified :: "verified_module \<Rightarrow> trust_mode \<Rightarrow> verifier_session \<Rightarrow> verifier_session" where
  "insert_verified m mode session =
     session_insert (session_key_of m) \<lparr>se_module = m, se_mode = mode\<rparr> session"

definition register_verified_module :: "verified_module \<Rightarrow> verifier_session \<Rightarrow> verifier_session" where
  "register_verified_module m session = insert_verified m NormalTrust session"

text \<open>The caller vouches for the module: nothing is asked of its imports.\<close>

definition register_verified_module_with_trust ::
    "verified_module \<Rightarrow> trust_mode \<Rightarrow> verifier_session \<Rightarrow> verifier_session" where
  "register_verified_module_with_trust m mode session = insert_verified m mode session"

section \<open>Imports\<close>

definition import_matches :: "import_entry \<Rightarrow> verified_module \<Rightarrow> bool" where
  "import_matches entry m \<longleftrightarrow> vm_module m = ie_module entry \<and> vm_export_hash m = ie_export_hash entry"

definition hash_matches :: "trust_mode \<Rightarrow> import_entry \<Rightarrow> verified_module \<Rightarrow> bool" where
  "hash_matches mode entry m =
     (case (mode, ie_certificate_hash entry) of
        (NormalTrust, None) \<Rightarrow> True
      | (_, Some hash) \<Rightarrow> vm_certificate_hash m = hash
      | (HighTrust, None) \<Rightarrow> False)"

text \<open>The errors when no module is found; \<open>trusted_match\<close> is a match at the mode that is asked for.\<close>

definition import_error :: "trust_mode \<Rightarrow> import_entry \<Rightarrow> bool \<Rightarrow> bool \<Rightarrow> cert_error" where
  "import_error mode entry any_match trusted_match =
     (if mode = HighTrust \<and> \<not> trusted_match then ImportNotVerifiedInSession (ie_module entry)
      else if ie_certificate_hash entry \<noteq> None \<and> any_match then ImportCertificateHashMismatch (ie_module entry)
      else ImportHashMismatch (ie_module entry))"

definition find_import :: "verifier_session \<Rightarrow> import_entry \<Rightarrow> trust_mode \<Rightarrow> verified_module cresult" where
  "find_import session entry mode =
     (case find (\<lambda>e. (mode = NormalTrust \<or> se_mode e = HighTrust) \<and> import_matches entry (se_module e) \<and>
         hash_matches mode entry (se_module e)) (map snd session) of
        Some e \<Rightarrow> Inr (se_module e)
      | None \<Rightarrow> Inl (import_error mode entry
          (list_ex (\<lambda>e. import_matches entry (se_module e)) (map snd session))
          (list_ex (\<lambda>e. se_mode e = HighTrust \<and> import_matches entry (se_module e)) (map snd session))))"

text \<open>\<^verbatim>\<open>find_import_ref\<close> and \<^verbatim>\<open>find_import_view\<close>, on a list of modules.\<close>

definition find_import_ref :: "verified_module list \<Rightarrow> import_entry \<Rightarrow> trust_mode \<Rightarrow> verified_module cresult" where
  "find_import_ref available entry mode =
     (let any_match = list_ex (import_matches entry) available in
      case find (\<lambda>m. import_matches entry m \<and> hash_matches mode entry m) available of
        Some m \<Rightarrow> Inr m
      | None \<Rightarrow> Inl (import_error mode entry any_match any_match))"

definition resolve_with ::
    "(import_entry \<Rightarrow> trust_mode \<Rightarrow> verified_module cresult) \<Rightarrow> module_cert \<Rightarrow> axiom_policy \<Rightarrow>
     verified_module list cresult" where
  "resolve_with finder cert policy =
     traverse (\<lambda>entry.
       if pol_mode policy = HighTrust \<and> ie_certificate_hash entry = None
       then Inl (MissingImportCertificateHash (ie_module entry))
       else finder entry (pol_mode policy)) (mc_imports cert)"

definition resolve_imports :: "module_cert \<Rightarrow> verifier_session \<Rightarrow> axiom_policy \<Rightarrow> verified_module list cresult" where
  "resolve_imports cert session policy = resolve_with (find_import session) cert policy"

definition resolve_import_refs ::
    "module_cert \<Rightarrow> verified_module list \<Rightarrow> axiom_policy \<Rightarrow> verified_module list cresult" where
  "resolve_import_refs cert available policy = resolve_with (find_import_ref available) cert policy"

section \<open>Sessions keep their modules\<close>

definition session_ok :: "verifier_session \<Rightarrow> bool" where
  "session_ok session \<longleftrightarrow> sorted_wrt (<) (map fst session) \<and>
     (\<forall>(key, e) \<in> set session. key = session_key_of (se_module e))"

lemma session_insert_keys: "set (map fst (session_insert key entry session)) = insert key (set (map fst session))"
  by (induction session) auto

lemma session_insert_sorted:
  "sorted_wrt (<) (map fst session) \<Longrightarrow> sorted_wrt (<) (map fst (session_insert key entry session))"
proof (induction session)
  case (Cons ke session)
  consider "key < fst ke" | "key = fst ke" | "fst ke < key" by (metis linorder_neqE)
  then show ?case
  proof cases
    case 1
    with Cons.prems have "\<forall>k \<in> set (map fst session). key < k" by (auto intro: less_trans)
    with 1 Cons.prems show ?thesis by simp
  next
    case 2
    with Cons.prems show ?thesis by simp
  next
    case 3
    then have eq: "session_insert key entry (ke # session) = ke # session_insert key entry session" by auto
    from 3 Cons.prems have "\<forall>k \<in> set (map fst (session_insert key entry session)). fst ke < k"
      unfolding session_insert_keys by simp
    with Cons show ?thesis unfolding eq by simp
  qed
qed simp

lemma session_insert_lookup:
  assumes "sorted_wrt (<) (map fst session)"
  shows "map_of (session_insert key entry session) =
    (map_of session)(key \<mapsto> (case map_of session key of None \<Rightarrow> entry | Some e \<Rightarrow> replace_entry e entry))"
  using assms
proof (induction session)
  case (Cons ke session)
  obtain k e where ke: "ke = (k, e)" by (cases ke)
  consider "key < k" | "key = k" | "k < key" by (metis linorder_neqE)
  then show ?case
  proof cases
    case 1
    with Cons.prems have "map_of session key = None" by (force simp: ke map_of_eq_None_iff)
    moreover from 1 have "key \<noteq> k" by auto
    ultimately show ?thesis using 1 by (intro ext) (simp add: ke)
  next
    case 2
    then show ?thesis by (intro ext) (simp add: ke)
  next
    case 3
    then have "key \<noteq> k" "\<not> key < k" by auto
    with Cons show ?thesis by (intro ext) (simp add: ke)
  qed
qed simp

lemma session_insert_ok:
  assumes "session_ok session"
  shows "session_ok (insert_verified m mode session)"
proof -
  let ?e = "\<lparr>se_module = m, se_mode = mode\<rparr>"
  have "key = session_key_of (se_module e)"
    if "(key, e) \<in> set (session_insert (session_key_of m) ?e session)"
      "\<forall>(key, e) \<in> set session. key = session_key_of (se_module e)" for key e session
    using that by (induction session) (auto simp: replace_entry_def split: if_splits)
  with assms show ?thesis
    by (auto simp: session_ok_def insert_verified_def session_insert_sorted)
qed

lemma find_import_sound:
  assumes "find_import session entry mode = Inr m"
  shows "\<exists>key e. (key, e) \<in> set session \<and> m = se_module e \<and> import_matches entry m \<and>
    (mode = HighTrust \<longrightarrow> se_mode e = HighTrust \<and> ie_certificate_hash entry \<noteq> None) \<and>
    (\<forall>hash. ie_certificate_hash entry = Some hash \<longrightarrow> vm_certificate_hash m = hash)"
proof -
  from assms obtain e where e: "find (\<lambda>e. (mode = NormalTrust \<or> se_mode e = HighTrust) \<and> import_matches entry (se_module e) \<and>
      hash_matches mode entry (se_module e)) (map snd session) = Some e" and m: "m = se_module e"
    by (auto simp: find_import_def split: option.splits)
  from e [unfolded find_Some_iff] have "e \<in> set (map snd session)" and *: "mode = NormalTrust \<or> se_mode e = HighTrust"
    "import_matches entry (se_module e)" "hash_matches mode entry (se_module e)" by auto
  then obtain key where "(key, e) \<in> set session" by auto
  moreover from * m have "import_matches entry m \<and> (mode = HighTrust \<longrightarrow> se_mode e = HighTrust \<and> ie_certificate_hash entry \<noteq> None) \<and>
      (\<forall>hash. ie_certificate_hash entry = Some hash \<longrightarrow> vm_certificate_hash m = hash)"
    by (cases mode) (auto simp: hash_matches_def split: option.splits)
  ultimately show ?thesis using m by blast
qed

end
