(* ===== verification/Cert_Imports.thy ===== *)
theory Cert_Imports
  imports Cert_Session
begin

text \<open>
  The declarations of imported modules (\<^verbatim>\<open>ReferencedImportLoader\<close> in \<^verbatim>\<open>verify.rs\<close> and the
  conversion of exports in \<^verbatim>\<open>kernel.rs\<close>): the loader adds what a certificate refers to, and what
  that refers to in turn, to the environment in which the certificate is checked. It knows
  declarations by their names, and skips one with the name of a built-in declaration that the
  environment already has, which lets a module replace a built-in declaration by its own.
\<close>

section \<open>Referenced terms\<close>

text \<open>\<^verbatim>\<open>visit_reachable_terms\<close>, collecting the references of constants.\<close>

function reachable_global_refs ::
    "term_node list \<Rightarrow> term_id list \<Rightarrow> term_id list \<Rightarrow> global_ref list cresult" where
  "reachable_global_refs terms [] visited = Inr []"
| "reachable_global_refs terms (t # pending) visited =
     (if t \<in> set visited then reachable_global_refs terms pending visited
      else (case get_at terms (unat t) of
        None \<Rightarrow> Inl DecodeError
      | Some node \<Rightarrow>
          rbind (reachable_global_refs terms (term_children node @ pending) (t # visited)) (\<lambda>refs.
          Inr ((case node of TNConst g _ \<Rightarrow> [g] | _ \<Rightarrow> []) @ refs))))"
  by pat_completeness auto
termination
  by (relation "measures [\<lambda>(terms, _, visited). card ({w. unat w < length terms} - set visited),
      \<lambda>(_, pending, _). length pending]")
    (auto simp: get_at_eq_Some simp del: set_simps intro: unseen_less)

definition collect_global_refs_from_term_table :: "term_node list \<Rightarrow> term_id \<Rightarrow> global_ref list cresult" where
  "collect_global_refs_from_term_table terms t =
     (if unat t \<ge> length terms then Inl DecodeError else reachable_global_refs terms [t] [])"

definition collect_global_refs :: "term_node list \<Rightarrow> term_id list \<Rightarrow> global_ref list cresult" where
  "collect_global_refs terms ts =
     rbind (traverse (collect_global_refs_from_term_table terms) ts) (\<lambda>refs. Inr (concat refs))"

definition inductive_type_ids ::
    "binder_type list \<Rightarrow> binder_type list \<Rightarrow> constructor_spec list \<Rightarrow> recursor_spec option \<Rightarrow> term_id list" where
  "inductive_type_ids ps is cs r =
     map bt_ty ps @ map bt_ty is @ map cs_ty cs @ (case r of None \<Rightarrow> [] | Some r \<Rightarrow> [rs_ty r])"

fun decl_term_ids :: "decl_payload \<Rightarrow> term_id list" where
  "decl_term_ids (PAxiom n ups t) = [t]"
| "decl_term_ids (PAxiomConstrained n ups ucs t) = [t]"
| "decl_term_ids (PDef n ups t v r) = [t, v]"
| "decl_term_ids (PDefConstrained n ups ucs t v r) = [t, v]"
| "decl_term_ids (PTheorem n ups t p op) = [t, p]"
| "decl_term_ids (PTheoremConstrained n ups ucs t p op) = [t, p]"
| "decl_term_ids (PInductive n ups ps is s cs r) = inductive_type_ids ps is cs r"
| "decl_term_ids (PInductiveConstrained n ups ucs ps is s cs r) = inductive_type_ids ps is cs r"
| "decl_term_ids (PMutualInductiveBlock n ups ucs is) =
     concat (map (\<lambda>i. inductive_type_ids (mis_params i) (mis_indices i) (mis_constructors i) (mis_recursor i)) is)"

section \<open>Exports as kernel declarations\<close>

definition decl_payload_exports_name :: "decl_payload \<Rightarrow> name_id \<Rightarrow> bool" where
  "decl_payload_exports_name d name \<longleftrightarrow> payload_name d = name \<or>
     (case d of
        PInductive n ups ps is s cs r \<Rightarrow> generated_by cs r name
      | PInductiveConstrained n ups ucs ps is s cs r \<Rightarrow> generated_by cs r name
      | PMutualInductiveBlock n ups ucs is \<Rightarrow>
          list_ex (\<lambda>i. mis_name i = name \<or> generated_by (mis_constructors i) (mis_recursor i) name) is
      | _ \<Rightarrow> False)"

definition source_decl_index_for_export_entry :: "module_cert \<Rightarrow> export_entry \<Rightarrow> nat cresult" where
  "source_decl_index_for_export_entry cert entry =
     ok_or DecodeError (position (\<lambda>d. decl_payload_exports_name (dc_decl d) (ee_name entry)) (mc_declarations cert))"

definition normalize_builtin_import_decl :: "decl \<Rightarrow> decl" where
  "normalize_builtin_import_decl d =
     (case d of
        Inductive n ups ty data \<Rightarrow>
          if n = ''Eq'' then Inductive n ups ty (data\<lparr>ind_recursor := None\<rparr>) else d
      | _ \<Rightarrow> d)"

definition exported_axiom ::
    "module_cert \<Rightarrow> export_entry \<Rightarrow> universe_constraint list \<Rightarrow> expr \<Rightarrow> (cert_error + decl) option" where
  "exported_axiom m entry cs ty =
     obind (Some (name_to_string m (ee_name entry))) (\<lambda>name.
     obind (Some (universe_names m (ee_universe_params entry))) (\<lambda>us.
     Some (Inr (if cs = [] then Axiom name us ty else AxiomConstrained name us cs ty))))"

text \<open>Theorems and opaque definitions are axioms for the importing module.\<close>

definition certificate_import_export_entry_to_kernel_decl_with_terms ::
    "module_cert \<Rightarrow> term_conversion \<Rightarrow> export_entry \<Rightarrow> (cert_error + decl) option" where
  "certificate_import_export_entry_to_kernel_decl_with_terms m terms entry =
     (if ee_kind entry \<in> {EKAxiom, EKTheorem} then
        obind (root_expr m terms (ee_ty entry)) (\<lambda>ty.
        obind (universe_constraints_from_specs m (ee_universe_constraints entry)) (\<lambda>cs.
        exported_axiom m entry cs ty))
      else if ee_kind entry = EKDef then
        obind (root_expr m terms (ee_ty entry)) (\<lambda>ty.
        obind (universe_constraints_from_specs m (ee_universe_constraints entry)) (\<lambda>cs.
        obind (Some (ok_or DecodeError (ee_reducibility entry))) (\<lambda>red.
        case red of
          CertReducible \<Rightarrow>
            obind (Some (name_to_string m (ee_name entry))) (\<lambda>name.
            obind (Some (universe_names m (ee_universe_params entry))) (\<lambda>us.
            obind (Some (ok_or DecodeError (ee_body entry))) (\<lambda>body.
            obind (root_expr m terms body) (\<lambda>v.
            Some (Inr (if cs = [] then Def name us ty v Reducible else DefConstrained name us cs ty v Reducible))))))
        | CertOpaque \<Rightarrow> exported_axiom m entry cs ty)))
      else
        obind (Some (source_decl_index_for_export_entry m entry)) (\<lambda>i.
        obind (Some (ok_or DecodeError (get_at (mc_declarations m) i))) (\<lambda>d.
        obind (decl_payload_to_kernel_decl_with_terms m terms (dc_decl d)) (\<lambda>kd.
        Some (Inr (normalize_builtin_import_decl kd))))))"

definition collect_export_entry_roots :: "module_cert \<Rightarrow> export_entry \<Rightarrow> term_id list cresult" where
  "collect_export_entry_roots m entry =
     (if ee_kind entry \<in> {EKAxiom, EKTheorem} then Inr [ee_ty entry]
      else if ee_kind entry = EKDef then
        (if ee_reducibility entry = Some CertReducible
         then rbind (ok_or DecodeError (ee_body entry)) (\<lambda>b. Inr [ee_ty entry, b])
         else Inr [ee_ty entry])
      else
        rbind (source_decl_index_for_export_entry m entry) (\<lambda>i.
        rbind (ok_or DecodeError (get_at (mc_declarations m) i)) (\<lambda>d.
        Inr (decl_term_ids (dc_decl d)))))"

text \<open>
  The terms are converted recursively. The source builds a table of shared expressions for the
  roots if its budget allows it, which changes no answer.
\<close>

definition certificate_import_export_entry_to_kernel_decl ::
    "module_cert \<Rightarrow> export_entry \<Rightarrow> (cert_error + decl) option" where
  "certificate_import_export_entry_to_kernel_decl m entry =
     obind (Some (collect_export_entry_roots m entry)) (\<lambda>roots.
     certificate_import_export_entry_to_kernel_decl_with_terms m Legacy entry)"

lemma root_expr_Legacy [simp]: "root_expr m Legacy t = expr_from_term m t"
  by (simp add: root_expr_def)

section \<open>The loader\<close>

lemma obind_cong [fundef_cong]:
  assumes "m = m'" and "\<And>x. m' = Some (Inr x) \<Longrightarrow> f x = g x"
  shows "obind m f = obind m' g"
  using assms by (cases m') (auto simp: obind_def split: sum.splits)

lemma ofold_cong [fundef_cong]:
  assumes "xs = ys" and "s = t" and "\<And>x s. x \<in> set ys \<Longrightarrow> f x s = g x s"
  shows "ofold f xs s = ofold g ys t"
proof -
  have "\<forall>x \<in> set ys. \<forall>s. f x s = g x s \<Longrightarrow> ofold f ys t = ofold g ys t" for t
    by (induction ys arbitrary: t) (auto intro: obind_cong)
  with assms show ?thesis by simp
qed

definition add_builtin_ref_to_env :: "digest \<Rightarrow> cname list \<Rightarrow> name_id \<Rightarrow> hash \<Rightarrow> env \<Rightarrow> env cresult" where
  "add_builtin_ref_to_env sha names name ih E =
     rbind (ok_or DecodeError (get_at names (unat name))) (\<lambda>n.
     if builtin_decl_interface_hash sha n \<noteq> Some ih then Inl (UnknownDependency n)
     else add_referenced_builtins_to_env [n] E)"

definition imported_export_entry_by_name :: "module_cert \<Rightarrow> cname \<Rightarrow> hash \<Rightarrow> export_entry cresult" where
  "imported_export_entry_by_name m name ih =
     ok_or (ImportHashMismatch (hdr_module (mc_header m)))
       (find (\<lambda>e. ee_decl_interface_hash e = ih \<and> get_at (mc_name_table m) (unat (ee_name e)) = Some name)
         (mc_export_block m))"

text \<open>The export of a local declaration and of what a local declaration generates.\<close>

definition export_entry_for_local :: "module_cert \<Rightarrow> usize \<Rightarrow> name_id option \<Rightarrow> export_entry cresult" where
  "export_entry_for_local m decl_index generated =
     rbind (ok_or DecodeError (get_at (mc_declarations m) (unat decl_index))) (\<lambda>d.
     let name = (case generated of None \<Rightarrow> payload_name (dc_decl d) | Some n \<Rightarrow> n) in
     ok_or DecodeError (find (\<lambda>e. ee_name e = name \<and>
       ee_decl_interface_hash e = dh_decl_interface_hash (dc_hashes d)) (mc_export_block m)))"

definition collect_imported_kernel_refs_for_export :: "module_cert \<Rightarrow> export_entry \<Rightarrow> global_ref list cresult" where
  "collect_imported_kernel_refs_for_export m entry =
     (if ee_kind entry \<in> {EKInductive, EKConstructor, EKRecursor} then
        rbind (source_decl_index_for_export_entry m entry) (\<lambda>i.
        rbind (ok_or DecodeError (get_at (mc_declarations m) i)) (\<lambda>d.
        rbind (collect_global_refs (mc_term_table m) (decl_term_ids (dc_decl d))) (\<lambda>refs.
        Inr (sort_dedup global_ref_order_key (filter (\<lambda>g. case g of GLocal j \<Rightarrow> unat j \<noteq> i
          | GLocalGenerated j _ \<Rightarrow> unat j \<noteq> i | _ \<Rightarrow> True) refs)))))
      else
        rbind (collect_global_refs (mc_term_table m)
          (ee_ty entry # (case ee_body entry of None \<Rightarrow> [] | Some b \<Rightarrow> [b]))) (\<lambda>refs.
        Inr (sort_dedup global_ref_order_key refs)))"

definition find_available_import :: "module_cert list \<Rightarrow> import_entry \<Rightarrow> module_cert cresult" where
  "find_available_import views entry =
     rbind (find_import_ref
       (map (\<lambda>m. \<lparr>vm_certificate = m, vm_structural_closure = []\<rparr>) views) entry NormalTrust)
       (\<lambda>m. Inr (vm_certificate m))"

definition imported_export_entry_for_global_ref ::
    "cname list \<Rightarrow> module_cert list \<Rightarrow> global_ref \<Rightarrow> export_entry cresult" where
  "imported_export_entry_for_global_ref names views g =
     (case g of
        GImported import_index name ih \<Rightarrow>
          rbind (ok_or DecodeError (get_at views (unat import_index))) (\<lambda>m.
          rbind (ok_or DecodeError (get_at names (unat name))) (\<lambda>wanted.
          imported_export_entry_by_name m wanted ih))
      | _ \<Rightarrow> Inl DecodeError)"

text \<open>
  The module and the export that a reference inside an imported module stands for: the first
  steps of \<^verbatim>\<open>load_imported_global_ref_from_module\<close> and the local cases of the loop.
\<close>

definition referenced_export ::
    "module_cert list \<Rightarrow> module_cert \<Rightarrow> global_ref \<Rightarrow> (module_cert \<times> export_entry) cresult" where
  "referenced_export views m g =
     (case g of
        GBuiltin name ih \<Rightarrow> Inl DecodeError
      | GImported import_index name ih \<Rightarrow>
          rbind (ok_or DecodeError (get_at (mc_imports m) (unat import_index))) (\<lambda>entry.
          rbind (find_available_import views entry) (\<lambda>m'.
          rbind (ok_or DecodeError (get_at (mc_name_table m) (unat name))) (\<lambda>wanted.
          rbind (imported_export_entry_by_name m' wanted ih) (\<lambda>e. Inr (m', e)))))
      | GLocal decl_index \<Rightarrow> rbind (export_entry_for_local m decl_index None) (\<lambda>e. Inr (m, e))
      | GLocalGenerated decl_index name \<Rightarrow>
          rbind (export_entry_for_local m decl_index (Some name)) (\<lambda>e. Inr (m, e)))"

type_synonym imported_decl_key = "cname \<times> hash \<times> nat"
type_synonym loader_state = "env \<times> imported_decl_key list"

definition decl_key :: "module_cert \<Rightarrow> nat \<Rightarrow> imported_decl_key" where
  "decl_key m i = (hdr_module (mc_header m), mh_certificate_hash (mc_hashes m), i)"

text \<open>A declaration with the name of a built-in declaration is skipped when the name is taken.\<close>

definition add_imported_decl_to_env :: "digest \<Rightarrow> decl \<Rightarrow> env \<Rightarrow> env cresult" where
  "add_imported_decl_to_env sha d E =
     (let is_builtin_decl = builtin_decl_interface_hash sha (name_from_dotted (decl_name d)) \<noteq> None in
      if decls E (decl_name d) = None \<or> \<not> is_builtin_decl then add_decl_to_env d E else Inr E)"

definition module_keys :: "module_cert \<Rightarrow> imported_decl_key set" where
  "module_keys m = decl_key m ` {..<length (mc_declarations m)}"

lemma source_decl_index_bound:
  "source_decl_index_for_export_entry m entry = Inr i \<Longrightarrow> i < length (mc_declarations m)"
  by (auto simp: source_decl_index_for_export_entry_def ok_or_def dest: position_Some split: option.splits)

lemma find_SomeD: "find P xs = Some x \<Longrightarrow> x \<in> set xs \<and> P x"
  by (auto simp: find_Some_iff)

lemma find_available_import_in: "find_available_import views entry = Inr m \<Longrightarrow> m \<in> set views"
  by (auto simp: find_available_import_def find_import_ref_def rbind_eq_Inr Let_def
      dest!: find_SomeD split: option.splits)

lemma referenced_export_module:
  "referenced_export views m g = Inr (m', e) \<Longrightarrow> m' = m \<or> m' \<in> set views"
  by (auto simp: referenced_export_def rbind_eq_Inr dest: find_available_import_in split: global_ref.splits)

lemma load_measure:
  assumes "source_decl_index_for_export_entry m entry = Inr i" and "decl_key m i \<notin> set loading"
    and "referenced_export views m g = Inr (m', e)"
  shows "card (module_keys m' \<union> (\<Union>v \<in> set views. module_keys v) - insert (decl_key m i) (set loading)) <
    card (module_keys m \<union> (\<Union>v \<in> set views. module_keys v) - set loading)"
proof (rule psubset_card_mono)
  show "finite (module_keys m \<union> (\<Union>v \<in> set views. module_keys v) - set loading)"
    by (simp add: module_keys_def)
  have "decl_key m i \<in> module_keys m"
    using source_decl_index_bound [OF assms(1)] by (simp add: module_keys_def)
  with referenced_export_module [OF assms(3)] assms(2)
  show "module_keys m' \<union> (\<Union>v \<in> set views. module_keys v) - insert (decl_key m i) (set loading) \<subset>
    module_keys m \<union> (\<Union>v \<in> set views. module_keys v) - set loading" by blast
qed

text \<open>
  \<^verbatim>\<open>load_module_export_entry\<close> and \<^verbatim>\<open>load_module_decl_for_export\<close>. The set of the declarations being
  loaded is an argument, since a declaration leaves it when it is loaded and an error ends the
  whole load; each call makes it larger, and there are finitely many declarations.
\<close>

function load_module_export_entry ::
    "digest \<Rightarrow> module_cert list \<Rightarrow> imported_decl_key list \<Rightarrow> module_cert \<Rightarrow> export_entry \<Rightarrow> loader_state \<Rightarrow>
     (cert_error + loader_state) option" where
  "load_module_export_entry sha views loading m entry (E, loaded) =
     obind (Some (source_decl_index_for_export_entry m entry)) (\<lambda>i.
     let key = decl_key m i in
     if key \<in> set loaded then Some (Inr (E, loaded))
     else if key \<in> set loading then
       Some (rbind (ok_or DecodeError (get_at (mc_name_table m) (unat (ee_name entry)))) (\<lambda>name.
         Inl (DependencyCycle name)))
     else
       obind (Some (collect_imported_kernel_refs_for_export m entry)) (\<lambda>refs.
       obind (ofold (\<lambda>g (E, loaded).
           case g of
             GBuiltin name ih \<Rightarrow>
               Some (rbind (add_builtin_ref_to_env sha (mc_name_table m) name ih E) (\<lambda>E. Inr (E, loaded)))
           | _ \<Rightarrow>
               obind (Some (referenced_export views m g)) (\<lambda>(m', e).
               load_module_export_entry sha views (key # loading) m' e (E, loaded))) refs (E, loaded)) (\<lambda>(E, loaded).
       obind (certificate_import_export_entry_to_kernel_decl m entry) (\<lambda>d.
       obind (Some (add_imported_decl_to_env sha d E)) (\<lambda>E.
       Some (Inr (E, key # loaded)))))))"
  by pat_completeness auto
termination
  by (relation "measure (\<lambda>(sha, views, loading, m, entry, st).
      card ((module_keys m \<union> (\<Union>v \<in> set views. module_keys v)) - set loading))")
    (auto intro: load_measure)

declare load_module_export_entry.simps [simp del]

definition load_imported_global_ref_from_cert ::
    "digest \<Rightarrow> module_cert list \<Rightarrow> module_cert \<Rightarrow> global_ref \<Rightarrow> loader_state \<Rightarrow> (cert_error + loader_state) option" where
  "load_imported_global_ref_from_cert sha views cert g st =
     (case g of
        GImported import_index name ih \<Rightarrow>
          obind (Some (ok_or DecodeError (get_at views (unat import_index)))) (\<lambda>m.
          obind (Some (imported_export_entry_for_global_ref (mc_name_table cert) views g)) (\<lambda>entry.
          load_module_export_entry sha views [] m entry st))
      | _ \<Rightarrow> Some (Inl DecodeError))"

definition add_referenced_imports_to_env_legacy ::
    "digest \<Rightarrow> module_cert \<Rightarrow> module_cert list \<Rightarrow> env \<Rightarrow> (cert_error + env) option" where
  "add_referenced_imports_to_env_legacy sha cert views E =
     (let refs = sort_dedup global_ref_order_key
        (concat (map (\<lambda>d. map dependency_global_ref (dc_dependencies d)) (mc_declarations cert))) in
      obind (ofold (\<lambda>g (E, loaded).
          case g of
            GBuiltin name ih \<Rightarrow>
              Some (rbind (add_builtin_ref_to_env sha (mc_name_table cert) name ih E) (\<lambda>E. Inr (E, loaded)))
          | GImported import_index name ih \<Rightarrow> load_imported_global_ref_from_cert sha views cert g (E, loaded)
          | _ \<Rightarrow> Some (Inr (E, loaded))) refs (E, [])) (\<lambda>(E, loaded). Some (Inr E)))"

section \<open>Loading keeps to what the kernel admits\<close>

lemma add_decl_request:
  "add_decl_to_env d E = Inr E' \<Longrightarrow> fold_res admit (take 1 (decl_requests d)) E = Inr E'"
  by (cases d rule: decl_requests.cases)
    (auto simp: add_decl_to_env_def add_axiom_def add_def_def add_theorem_def)

lemma requests_take: "list_all P xs \<Longrightarrow> list_all P (take n xs)"
  by (auto simp: list_all_iff dest: in_set_takeD)

lemma normalized_requests:
  assumes "list_all request_small (decl_requests d)"
  shows "list_all request_small (decl_requests (normalize_builtin_import_decl d))"
  using assms by (cases d rule: decl_requests.cases)
    (auto simp: normalize_builtin_import_decl_def inductive_small_def inductive_type_def)

definition imports_allowed :: "module_cert list \<Rightarrow> bool" where
  "imports_allowed views \<longleftrightarrow> list_all cert_small views"

lemma exported_requests:
  assumes "cert_small m"
    and "certificate_import_export_entry_to_kernel_decl m entry = Some (Inr d)"
  shows "list_all request_small (decl_requests d)"
proof -
  have ax: "list_all request_small (decl_requests d)"
    if "exported_axiom m entry cs ty = Some (Inr d)" "small ty" for cs ty
    using that by (auto simp: exported_axiom_def obind_Inr split: if_splits)
  have payload: "list_all request_small (decl_requests d)"
    if "decl_payload_to_kernel_decl_with_terms m Legacy (dc_decl p) = Some (Inr d)"
      "p \<in> set (mc_declarations m)" for p d
  proof -
    have "conversion_of m Legacy" by (simp add: conversion_of_def)
    with that requests_small [OF conversion_small_roots [OF _ assms(1)]] show ?thesis by blast
  qed
  from assms(2) have "certificate_import_export_entry_to_kernel_decl_with_terms m Legacy entry = Some (Inr d)"
    by (auto simp: certificate_import_export_entry_to_kernel_decl_def obind_Inr)
  note def = this [unfolded certificate_import_export_entry_to_kernel_decl_with_terms_def root_expr_Legacy]
  note small = expr_from_term_small [OF assms(1)]
  consider "ee_kind entry \<in> {EKAxiom, EKTheorem}" | "ee_kind entry = EKDef"
    | "ee_kind entry \<notin> {EKAxiom, EKTheorem, EKDef}" by auto
  then show ?thesis
  proof cases
    case 1
    with def show ?thesis by (auto simp: obind_Inr intro: ax small)
  next
    case 2
    with def obtain ty cs red where "expr_from_term m (ee_ty entry) = Some (Inr ty)"
      and red: "(case red of
          CertReducible \<Rightarrow>
            obind (Some (name_to_string m (ee_name entry))) (\<lambda>name.
            obind (Some (universe_names m (ee_universe_params entry))) (\<lambda>us.
            obind (Some (ok_or DecodeError (ee_body entry))) (\<lambda>body.
            obind (expr_from_term m body) (\<lambda>v.
            Some (Inr (if cs = [] then Def name us ty v Reducible else DefConstrained name us cs ty v Reducible))))))
        | CertOpaque \<Rightarrow> exported_axiom m entry cs ty) = Some (Inr d)"
      by (auto simp: obind_Inr)
    then have "small ty" by (blast intro: small)
    with red show ?thesis by (cases red) (auto simp: obind_Inr intro: ax small)
  next
    case 3
    with def obtain i kd where "i < length (mc_declarations m)"
      "decl_payload_to_kernel_decl_with_terms m Legacy (dc_decl (mc_declarations m ! i)) = Some (Inr kd)"
      "d = normalize_builtin_import_decl kd"
      by (auto simp: obind_Inr get_at_eq_Some)
    with payload show ?thesis by (auto intro: normalized_requests)
  qed
qed

lemma ofold_keeps:
  assumes "ofold f xs s = Some (Inr s')" and "P s"
    and "\<And>x s s'. x \<in> set xs \<Longrightarrow> P s \<Longrightarrow> f x s = Some (Inr s') \<Longrightarrow> P s'"
  shows "P s'"
  using assms
proof (induction xs arbitrary: s)
  case (Cons x xs)
  from Cons.prems(1) obtain t where "f x s = Some (Inr t)" "ofold f xs t = Some (Inr s')"
    by (auto simp: obind_Inr)
  with Cons show ?case by (metis list.set_intros)
qed simp

lemma builtin_ref_reachable:
  "add_builtin_ref_to_env sha names name ih E = Inr E' \<Longrightarrow> reachable request_small E \<Longrightarrow>
   reachable request_small E'"
  by (auto simp: add_builtin_ref_to_env_def rbind_eq_Inr intro: builtins_keep_reachable split: if_splits)

lemma imported_decl_reachable:
  assumes "add_imported_decl_to_env sha d E = Inr E'" and "reachable request_small E"
    and "list_all request_small (decl_requests d)"
  shows "reachable request_small E'"
proof -
  from assms(1) consider "E' = E" | "add_decl_to_env d E = Inr E'"
    unfolding add_imported_decl_to_env_def Let_def by (metis sum.inject(2))
  then show ?thesis
    using assms(2) reachable_fold [OF assms(2) requests_take [OF assms(3)] add_decl_request] by cases auto
qed

lemma obind_SomeE:
  assumes "obind (Some r) f = Some (Inr y)"
  obtains x where "r = Inr x" "f x = Some (Inr y)"
  using assms by (auto simp: obind_Inr)

lemma load_exportE:
  assumes "load_module_export_entry sha views loading m entry (E, loaded) = Some (Inr st')"
  obtains (loaded) "st' = (E, loaded)"
  | (added) i refs E1 loaded1 d E2 where "source_decl_index_for_export_entry m entry = Inr i"
      "decl_key m i \<notin> set loaded" "decl_key m i \<notin> set loading"
      "collect_imported_kernel_refs_for_export m entry = Inr refs"
      "ofold (\<lambda>g (E, loaded).
           case g of
             GBuiltin name ih \<Rightarrow>
               Some (rbind (add_builtin_ref_to_env sha (mc_name_table m) name ih E) (\<lambda>E. Inr (E, loaded)))
           | _ \<Rightarrow>
               obind (Some (referenced_export views m g)) (\<lambda>(m', e).
               load_module_export_entry sha views (decl_key m i # loading) m' e (E, loaded))) refs (E, loaded) =
         Some (Inr (E1, loaded1))"
      "certificate_import_export_entry_to_kernel_decl m entry = Some (Inr d)"
      "add_imported_decl_to_env sha d E1 = Inr E2" "st' = (E2, decl_key m i # loaded1)"
proof -
  from assms obtain i where i: "source_decl_index_for_export_entry m entry = Inr i"
    unfolding load_module_export_entry.simps [of sha views loading m entry E loaded] obind_Inr by blast
  show thesis
  proof (cases "decl_key m i \<in> set loaded")
    case True
    with assms [unfolded load_module_export_entry.simps [of sha views loading m entry E loaded]] i
    show thesis by (simp add: loaded)
  next
    case False
    with assms [unfolded load_module_export_entry.simps [of sha views loading m entry E loaded]] i
    have key: "decl_key m i \<notin> set loading" by (auto simp: rbind_eq_Inr)
    let ?f = "\<lambda>g (E, loaded).
           case g of
             GBuiltin name ih \<Rightarrow>
               Some (rbind (add_builtin_ref_to_env sha (mc_name_table m) name ih E) (\<lambda>E. Inr (E, loaded)))
           | _ \<Rightarrow>
               obind (Some (referenced_export views m g)) (\<lambda>(m', e).
               load_module_export_entry sha views (decl_key m i # loading) m' e (E, loaded))"
    obtain refs where refs: "collect_imported_kernel_refs_for_export m entry = Inr refs"
      and a: "obind (ofold ?f refs (E, loaded)) (\<lambda>(E, loaded).
         obind (certificate_import_export_entry_to_kernel_decl m entry) (\<lambda>d.
         obind (Some (add_imported_decl_to_env sha d E)) (\<lambda>E.
         Some (Inr (E, decl_key m i # loaded))))) = Some (Inr st')"
      using assms
      unfolding load_module_export_entry.simps [of sha views loading m entry E loaded]
        i obind_simps Let_def if_not_P [OF False] if_not_P [OF key]
      by (rule obind_SomeE) blast
    from a obtain st1 where st1: "ofold ?f refs (E, loaded) = Some (Inr st1)"
      and b: "(case st1 of (E, loaded) \<Rightarrow>
         obind (certificate_import_export_entry_to_kernel_decl m entry) (\<lambda>d.
         obind (Some (add_imported_decl_to_env sha d E)) (\<lambda>E.
         Some (Inr (E, decl_key m i # loaded))))) = Some (Inr st')"
      unfolding obind_Inr by blast
    obtain E1 loaded1 where "st1 = (E1, loaded1)" by (cases st1)
    with b obtain d E2 where "certificate_import_export_entry_to_kernel_decl m entry = Some (Inr d)"
      "add_imported_decl_to_env sha d E1 = Inr E2" "st' = (E2, decl_key m i # loaded1)"
      by (auto simp: obind_Inr)
    with added [OF i False key refs] st1 \<open>st1 = (E1, loaded1)\<close> show thesis by blast
  qed
qed

lemma load_export_reachable:
  assumes "load_module_export_entry sha views loading m entry st = Some (Inr st')"
    and "reachable request_small (fst st)" and "imports_allowed views" and "cert_small m"
  shows "reachable request_small (fst st')"
  using assms
proof (induction sha views loading m entry st arbitrary: st' rule: load_module_export_entry.induct)
  case (1 sha views loading m entry E loaded)
  note IH = 1(1-3) and prems = 1(4-)
  from prems(1) show ?case
  proof (cases rule: load_exportE)
    case loaded
    with prems(2) show ?thesis by simp
  next
    case (added i refs E1 loaded1 d E2)
    have "reachable request_small (fst (E1, loaded1))"
    proof (rule ofold_keeps [OF added(5), where P = "\<lambda>st. reachable request_small (fst st)"])
      show "reachable request_small (fst (E, loaded))" using prems(2) .
    next
      fix g s s'
      assume g: "g \<in> set refs" and R: "reachable request_small (fst s)"
        and s': "(case s of (E, loaded) \<Rightarrow> case g of
             GBuiltin name ih \<Rightarrow>
               Some (rbind (add_builtin_ref_to_env sha (mc_name_table m) name ih E) (\<lambda>E. Inr (E, loaded)))
           | _ \<Rightarrow>
               obind (Some (referenced_export views m g)) (\<lambda>(m', e).
               load_module_export_entry sha views (decl_key m i # loading) m' e (E, loaded))) = Some (Inr s')"
      show "reachable request_small (fst s')"
      proof (cases "\<exists>name ih. g = GBuiltin name ih")
        case True
        with s' R show ?thesis by (auto simp: rbind_eq_Inr split: prod.splits intro: builtin_ref_reachable)
      next
        case False
        with s' obtain m' e where e: "referenced_export views m g = Inr (m', e)"
          "load_module_export_entry sha views (decl_key m i # loading) m' e s = Some (Inr s')"
          by (cases s) (auto simp: obind_Inr split: global_ref.splits)
        from referenced_export_module [OF e(1)] prems(3,4) have m': "cert_small m'"
          by (auto simp: imports_allowed_def list_all_iff)
        obtain D l where s: "s = (D, l)" by (cases s)
        note run = e(2) [unfolded s] and refs = added(1,4)
        show ?thesis
        proof (cases g)
          case (GImported k n h)
          show ?thesis
            by (rule IH(1) [OF _ refl added(2,3) _ g refl GImported _ refl run]) (use refs e(1) R s m' prems(3) in simp_all)
        next
          case (GLocal k)
          show ?thesis
            by (rule IH(2) [OF _ refl added(2,3) _ g refl GLocal _ refl run]) (use refs e(1) R s m' prems(3) in simp_all)
        next
          case (GLocalGenerated k n)
          show ?thesis
            by (rule IH(3) [OF _ refl added(2,3) _ g refl GLocalGenerated _ refl run])
              (use refs e(1) R s m' prems(3) in simp_all)
        qed (use False in simp)
      qed
    qed
    then have "reachable request_small E1" by simp
    with added(7) have "reachable request_small E2"
      using exported_requests [OF prems(4) added(6)] by (rule imported_decl_reachable)
    with added(8) show ?thesis by simp
  qed
qed

lemma referenced_imports_reachable:
  assumes "add_referenced_imports_to_env_legacy sha cert views E = Some (Inr E')"
    and "reachable request_small E" and "imports_allowed views"
  shows "reachable request_small E'"
proof -
  let ?refs = "sort_dedup global_ref_order_key
    (concat (map (\<lambda>d. map dependency_global_ref (dc_dependencies d)) (mc_declarations cert)))"
  let ?load = "\<lambda>g (E, loaded).
          case g of
            GBuiltin name ih \<Rightarrow>
              Some (rbind (add_builtin_ref_to_env sha (mc_name_table cert) name ih E) (\<lambda>E. Inr (E, loaded)))
          | GImported import_index name ih \<Rightarrow> load_imported_global_ref_from_cert sha views cert g (E, loaded)
          | _ \<Rightarrow> Some (Inr (E, loaded))"
  from assms(1) obtain st where st: "ofold ?load ?refs (E, []) = Some (Inr st)" and E': "E' = fst st"
    by (auto simp: add_referenced_imports_to_env_legacy_def Let_def obind_Inr split: prod.splits)
  have "reachable request_small (fst st)"
  proof (rule ofold_keeps [OF st, where P = "\<lambda>st. reachable request_small (fst st)"])
    show "reachable request_small (fst (E, []))" using assms(2) by simp
  next
    fix g s s'
    assume R: "reachable request_small (fst s)" and s': "?load g s = Some (Inr s')"
    obtain D l where s: "s = (D, l)" by (cases s)
    show "reachable request_small (fst s')"
    proof (cases g)
      case (GBuiltin name ih)
      with s s' R show ?thesis by (auto simp: rbind_eq_Inr intro: builtin_ref_reachable)
    next
      case (GImported k n h)
      with s s' obtain m entry where m: "m \<in> set views"
        and run: "load_module_export_entry sha views [] m entry s = Some (Inr s')"
        by (auto simp: load_imported_global_ref_from_cert_def obind_Inr get_at_eq_Some intro: nth_mem)
      from m assms(3) have "cert_small m" by (auto simp: imports_allowed_def list_all_iff)
      with load_export_reachable [OF run R assms(3)] show ?thesis by blast
    qed (use s s' R in simp_all)
  qed
  with E' show ?thesis by simp
qed

section \<open>Loading returns\<close>

definition tables_resolve :: "module_cert \<Rightarrow> bool" where
  "tables_resolve m \<longleftrightarrow> (\<forall>l. returns (level_from_node m l)) \<and> (\<forall>t. returns (expr_from_term m t))"

lemma preflight_resolve:
  assumes "structural_preflight m = Inr cost" and "decl_names_in_table m"
  shows "tables_resolve m"
proof -
  obtain levels terms where tables: "levels_tabulated m (length (mc_level_table m)) levels"
    "terms_tabulated m (length (mc_term_table m)) terms" using assms by (rule preflight_tables)
  have "returns (level_from_node m l)" for l
  proof (cases "unat l < length (mc_level_table m)")
    case True
    with tables(1) show ?thesis by (auto elim: tabulatedE)
  next
    case False
    then show ?thesis by (subst level_from_node.simps) (simp add: get_at_def)
  qed
  moreover have "returns (expr_from_term m t)" for t
  proof (cases "unat t < length (mc_term_table m)")
    case True
    with tables(2) show ?thesis by (auto elim: tabulatedE)
  next
    case False
    then show ?thesis by (subst expr_from_term.simps) (simp add: get_at_def)
  qed
  ultimately show ?thesis by (simp add: tables_resolve_def)
qed

lemma export_conversion_returns:
  assumes "tables_resolve m"
  shows "returns (certificate_import_export_entry_to_kernel_decl m entry)"
proof -
  have all: "resolves m root" for root using assms by (cases root) (simp_all add: tables_resolve_def)
  have cs: "returns (universe_constraints_from_specs m ucs)" for ucs
    using all by (auto simp: list_all_iff intro: constraints_return)
  have payload: "returns (decl_payload_to_kernel_decl_with_terms m Legacy p)" for p
    using all by (intro payload_returns) (simp add: list_all_iff)
  have ax: "returns (exported_axiom m entry us ty)" for us ty
    by (auto simp: exported_axiom_def intro!: obind_returns)
  from assms show ?thesis
    by (auto simp: certificate_import_export_entry_to_kernel_decl_def
        certificate_import_export_entry_to_kernel_decl_with_terms_def tables_resolve_def
        intro!: obind_returns cs payload ax split: cert_reducibility.splits)
qed

lemma referenced_returns:
  assumes "\<And>m' e. referenced_export views m g = Inr (m', e) \<Longrightarrow> returns (f m' e)"
  shows "returns (obind (Some (referenced_export views m g)) (\<lambda>(m', e). f m' e))"
  using assms by (cases "referenced_export views m g") auto

lemma load_export_returns:
  assumes "list_all tables_resolve views" and "tables_resolve m"
  shows "returns (load_module_export_entry sha views loading m entry st)"
  using assms
proof (induction sha views loading m entry st rule: load_module_export_entry.induct)
  case (1 sha views loading m entry E loaded)
  note IH = 1(1-3) and prems = 1(4-)
  show ?case
  proof (cases "\<exists>i refs. source_decl_index_for_export_entry m entry = Inr i \<and> decl_key m i \<notin> set loaded \<and>
      decl_key m i \<notin> set loading \<and> collect_imported_kernel_refs_for_export m entry = Inr refs")
    case False
    then show ?thesis
      unfolding load_module_export_entry.simps [of sha views loading m entry E loaded]
      by (auto simp: obind_def Let_def split: sum.splits)
  next
    case True
    then obtain i refs where i: "source_decl_index_for_export_entry m entry = Inr i" "decl_key m i \<notin> set loaded"
      "decl_key m i \<notin> set loading" "collect_imported_kernel_refs_for_export m entry = Inr refs" by blast
    have ref: "returns (case g of
             GBuiltin name ih \<Rightarrow>
               Some (rbind (add_builtin_ref_to_env sha (mc_name_table m) name ih D) (\<lambda>E. Inr (E, l)))
           | _ \<Rightarrow>
               obind (Some (referenced_export views m g)) (\<lambda>(m', e).
               load_module_export_entry sha views (decl_key m i # loading) m' e (D, l)))"
      if g: "g \<in> set refs" for g D l
    proof (cases "referenced_export views m g")
      case (Inr me)
      obtain m' e where me: "me = (m', e)" by (cases me)
      from referenced_export_module [OF Inr [unfolded me]] prems have m': "tables_resolve m'"
        by (auto simp: list_all_iff)
      note hyps = i(1,4) m' Inr me prems(1)
      show ?thesis
      proof (cases g)
        case (GImported k n h)
        have "returns (load_module_export_entry sha views (decl_key m i # loading) m' e (D, l))"
          by (rule IH(1) [OF _ refl i(2,3) _ g refl GImported _ refl]) (use hyps in simp_all)
        with GImported Inr me show ?thesis by simp
      next
        case (GLocal k)
        have "returns (load_module_export_entry sha views (decl_key m i # loading) m' e (D, l))"
          by (rule IH(2) [OF _ refl i(2,3) _ g refl GLocal _ refl]) (use hyps in simp_all)
        with GLocal Inr me show ?thesis by simp
      next
        case (GLocalGenerated k n)
        have "returns (load_module_export_entry sha views (decl_key m i # loading) m' e (D, l))"
          by (rule IH(3) [OF _ refl i(2,3) _ g refl GLocalGenerated _ refl]) (use hyps in simp_all)
        with GLocalGenerated Inr me show ?thesis by simp
      qed simp
    qed (auto split: global_ref.splits)
    show ?thesis
      unfolding load_module_export_entry.simps [of sha views loading m entry E loaded] i(1,4) obind_simps Let_def
        if_not_P [OF i(2)] if_not_P [OF i(3)]
      by (auto intro!: obind_returns ofold_returns ref export_conversion_returns prems(2) simp del: obind_simps
          split: prod.splits)
  qed
qed

lemma legacy_loading_returns:
  assumes "list_all tables_resolve views"
  shows "returns (add_referenced_imports_to_env_legacy sha cert views E)"
proof -
  have "returns (load_imported_global_ref_from_cert sha views cert g st)" for g st
    using assms unfolding load_imported_global_ref_from_cert_def
    by (auto split: global_ref.splits simp: obind_def ok_or_def get_at_eq_Some list_all_iff
        intro!: load_export_returns split: option.splits sum.splits)
  then show ?thesis
    unfolding add_referenced_imports_to_env_legacy_def Let_def
    by (intro obind_returns ofold_returns) (auto split: global_ref.splits)
qed

text \<open>
  Loading the imports of a certificate returns, with an environment or an error, when the
  tables of every imported module passed the structural checks: however the modules refer to
  each other, a declaration that is being loaded is not entered again.
\<close>

theorem import_loading_returns:
  assumes "list_all (\<lambda>m. (\<exists>cost. structural_preflight m = Inr cost) \<and> decl_names_in_table m) views"
  shows "\<exists>r. add_referenced_imports_to_env_legacy sha cert views E = Some r"
proof -
  from assms have "list_all tables_resolve views" by (auto simp: list_all_iff intro: preflight_resolve)
  then show ?thesis using legacy_loading_returns by (auto simp: returns_def)
qed

theorem import_loading_returns_witness:
  "\<exists>r. add_referenced_imports_to_env_legacy sample_digest identity_cert [identity_cert] env_new = Some r"
  by (rule import_loading_returns) (use identity_preflight identity_names in auto)

end
