(* ===== verification/Cert_Dependencies.thy ===== *)
theory Cert_Dependencies
  imports Cert_Imports
begin

text \<open>
  The dependencies and axioms of a certificate (\<^verbatim>\<open>local_transparency.rs\<close> and
  \<^verbatim>\<open>verify_dependencies_and_axioms\<close> in \<^verbatim>\<open>verify.rs\<close>): the references of a declaration are found by
  a scan under a budget, the opaque definitions below it by a search through the earlier
  declarations, and the axioms by following the dependencies. The report of a verified
  certificate lists, for each declaration, exactly the axioms that it rests on.
\<close>

section \<open>The budget\<close>

record transparency_budget =
  tb_root_expanded_nodes :: nat
  tb_certificate_expanded_nodes :: nat

definition charge :: "nat \<Rightarrow> transparency_budget \<Rightarrow> transparency_budget cresult" where
  "charge depth b =
     (if depth > max_structural_depth
      then Inl (StructuralLimitExceeded StructuralDepth max_structural_depth (max_structural_depth + 1))
      else let root = min (saturating_add (tb_root_expanded_nodes b) 1) (max_root_expanded_nodes + 1) in
      if root > max_root_expanded_nodes
      then Inl (StructuralLimitExceeded RootExpandedNodes max_root_expanded_nodes (max_root_expanded_nodes + 1))
      else let total = min (saturating_add (tb_certificate_expanded_nodes b) 1) (max_certificate_expanded_nodes + 1) in
      if total > max_certificate_expanded_nodes
      then Inl (StructuralLimitExceeded CertificateExpandedNodes max_certificate_expanded_nodes
             (max_certificate_expanded_nodes + 1))
      else Inr \<lparr>tb_root_expanded_nodes = root, tb_certificate_expanded_nodes = total\<rparr>)"

lemma charge_root:
  assumes "charge depth b = Inr b'"
  shows "tb_root_expanded_nodes b' = Suc (tb_root_expanded_nodes b)" "tb_root_expanded_nodes b < max_root_expanded_nodes"
  using assms by (auto simp: charge_def Let_def saturating_add_def struct_limit_defs min_def split: if_splits)

lemma charge_measure:
  "charge depth b = Inr b' \<Longrightarrow>
   max_root_expanded_nodes - tb_root_expanded_nodes b' < max_root_expanded_nodes - tb_root_expanded_nodes b"
  using charge_root [of depth b b'] by simp

section \<open>References of terms\<close>

text \<open>A map from keys to the smallest depth seen, in the order of the keys.\<close>

primrec upsert_min :: "('k \<Rightarrow> 'o::linorder) \<Rightarrow> 'k \<Rightarrow> nat \<Rightarrow> ('k \<times> nat) list \<Rightarrow> ('k \<times> nat) list" where
  "upsert_min key k d [] = [(k, d)]"
| "upsert_min key k d (kv # m) =
     (if k = fst kv then (k, min (snd kv) d) # m
      else if key k < key (fst kv) then (k, d) # kv # m
      else kv # upsert_min key k d m)"

lemma upsert_min_keys [simp]: "fst ` set (upsert_min key k d m) = insert k (fst ` set m)"
  by (induction m) auto

function scan_loop ::
    "term_node list \<Rightarrow> (term_id \<times> nat) list \<Rightarrow> (global_ref \<times> nat) list \<Rightarrow> transparency_budget \<Rightarrow>
     ((global_ref \<times> nat) list \<times> transparency_budget) cresult" where
  "scan_loop terms [] refs b = Inr (refs, b)"
| "scan_loop terms ((t, depth) # pending) refs b =
     rbind (charge depth b) (\<lambda>b.
     rbind (ok_or DecodeError (get_at terms (unat t))) (\<lambda>node.
     let deeper = saturating_add depth 1 in
     case node of
       TNSort _ \<Rightarrow> scan_loop terms pending refs b
     | TNBVar _ \<Rightarrow> scan_loop terms pending refs b
     | TNConst g _ \<Rightarrow> scan_loop terms pending (upsert_min global_ref_order_key g depth refs) b
     | TNApp f a \<Rightarrow> scan_loop terms ((f, deeper) # (a, deeper) # pending) refs b
     | TNLam ty body \<Rightarrow> scan_loop terms ((ty, deeper) # (body, deeper) # pending) refs b
     | TNPi ty body \<Rightarrow> scan_loop terms ((ty, deeper) # (body, deeper) # pending) refs b))"
  by pat_completeness auto
termination
  by (relation "measures [\<lambda>(_, _, _, b). max_root_expanded_nodes - tb_root_expanded_nodes b]")
    (auto dest: charge_measure)

definition scan_term_roots ::
    "term_id list \<Rightarrow> nat \<Rightarrow> term_node list \<Rightarrow> transparency_budget \<Rightarrow>
     ((global_ref \<times> nat) list \<times> transparency_budget) cresult" where
  "scan_term_roots roots base_depth terms b = scan_loop terms (map (\<lambda>t. (t, base_depth)) (sort roots)) [] b"

section \<open>Opaque definitions below a declaration\<close>

fun is_opaque_definition :: "decl_payload \<Rightarrow> bool" where
  "is_opaque_definition (PDef n ups t v r) \<longleftrightarrow> r = CertOpaque"
| "is_opaque_definition (PDefConstrained n ups ucs t v r) \<longleftrightarrow> r = CertOpaque"
| "is_opaque_definition _ \<longleftrightarrow> False"

definition root_term_ids :: "decl_payload \<Rightarrow> term_id list" where
  "root_term_ids d = decl_term_ids d"

text \<open>The proof of a theorem is not followed.\<close>

fun referenced_term_ids :: "decl_payload \<Rightarrow> term_id list" where
  "referenced_term_ids (PTheorem n ups t p op) = [t]"
| "referenced_term_ids (PTheoremConstrained n ups ucs t p op) = [t]"
| "referenced_term_ids d = root_term_ids d"

definition local_index :: "global_ref \<Rightarrow> nat option" where
  "local_index g =
     (case g of GLocal j \<Rightarrow> Some (unat j) | GLocalGenerated j _ \<Rightarrow> Some (unat j)
      | GBuiltin _ _ \<Rightarrow> None | GImported _ _ _ \<Rightarrow> None)"

definition queue_local_reference :: "nat \<Rightarrow> global_ref \<times> nat \<Rightarrow> (nat \<times> nat) list \<Rightarrow> (nat \<times> nat) list" where
  "queue_local_reference current = (\<lambda>(g, depth) pending.
     case local_index g of
       None \<Rightarrow> pending
     | Some j \<Rightarrow> if j \<ge> current then pending else upsert_min (\<lambda>i. i) j depth pending)"

definition queue_references :: "nat \<Rightarrow> (global_ref \<times> nat) list \<Rightarrow> (nat \<times> nat) list \<Rightarrow> (nat \<times> nat) list" where
  "queue_references current refs pending = fold (queue_local_reference current) refs pending"

lemma queued_keys:
  "fst ` set (queue_references current refs pending) =
     fst ` set pending \<union> {j. j < current \<and> (\<exists>g \<in> fst ` set refs. local_index g = Some j)}"
  unfolding queue_references_def
proof (induction refs arbitrary: pending)
  case (Cons r refs)
  then show ?case
    by (cases r) (auto simp: queue_local_reference_def split: option.splits)
qed simp

lemma transparency_measure:
  fixes i current :: nat
  assumes "i \<notin> visited" and "A \<subseteq> {..<current} \<union> insert i P" and "finite P"
  shows "card ({..<current} \<union> A - insert i visited) < card ({..<current} \<union> insert i P - visited)"
proof (rule psubset_card_mono)
  show "{..<current} \<union> A - insert i visited \<subset> {..<current} \<union> insert i P - visited" using assms by blast
qed (use assms(3) in auto)

function transparency_loop ::
    "nat \<Rightarrow> decl_cert list \<Rightarrow> term_node list \<Rightarrow> (nat \<times> nat) list \<Rightarrow> nat list \<Rightarrow> nat list \<Rightarrow> transparency_budget \<Rightarrow>
     (nat list \<times> transparency_budget) cresult" where
  "transparency_loop current declarations terms [] visited opaque b = Inr (opaque, b)"
| "transparency_loop current declarations terms ((i, depth) # pending) visited opaque b =
     (if i \<in> set visited then transparency_loop current declarations terms pending visited opaque b
      else (case get_at declarations i of
        None \<Rightarrow> transparency_loop current declarations terms pending (i # visited) opaque b
      | Some d \<Rightarrow>
          rbind (scan_term_roots (referenced_term_ids (dc_decl d)) (saturating_add depth 1) terms b) (\<lambda>(refs, b).
          transparency_loop current declarations terms (queue_references current refs pending) (i # visited)
            (if is_opaque_definition (dc_decl d) then insort i opaque else opaque) b)))"
  by pat_completeness auto

termination
proof (relation "measures [\<lambda>(current, _, _, pending, visited, _, _).
    card ({..<current} \<union> fst ` set pending - set visited), \<lambda>(_, _, _, pending, _, _, _). length pending]", goal_cases)
  case (2 current declarations terms i depth pending visited opaque b)
  then have "{..<current} \<union> fst ` set ((i, depth) # pending) - set visited =
      {..<current} \<union> fst ` set pending - set visited" by auto
  then show ?case by simp
next
  case (3 current declarations terms i depth pending visited opaque b)
  then show ?case
    using transparency_measure [of i "set visited" "fst ` set pending" current "fst ` set pending"] by auto
next
  case (4 current declarations terms i depth pending visited opaque b d refsb refs b')
  then show ?case
    using transparency_measure [of i "set visited" "fst ` set (queue_references current refs pending)" current "fst ` set pending"]
    by (auto simp: queued_keys)
qed simp

section \<open>Dependencies of a declaration\<close>

record transparency_dependencies =
  td_interface_dependencies :: "dependency_entry list"
  td_opaque_definition_indices :: "nat list"

definition interface_hash_for_reference :: "global_ref \<Rightarrow> decl_cert list \<Rightarrow> hash cresult" where
  "interface_hash_for_reference g declarations =
     (case g of
        GBuiltin _ ih \<Rightarrow> Inr ih
      | GImported _ _ ih \<Rightarrow> Inr ih
      | GLocal j \<Rightarrow> rbind (ok_or (DependencyCycle (name_from_dotted (''local.'' @ show_nat (unat j))))
          (get_at declarations (unat j))) (\<lambda>d. Inr (dh_decl_interface_hash (dc_hashes d)))
      | GLocalGenerated j _ \<Rightarrow> rbind (ok_or (DependencyCycle (name_from_dotted (''local.'' @ show_nat (unat j))))
          (get_at declarations (unat j))) (\<lambda>d. Inr (dh_decl_interface_hash (dc_hashes d))))"

fun allows_self :: "decl_payload \<Rightarrow> bool" where
  "allows_self (PInductive n ups ps is s cs r) \<longleftrightarrow> True"
| "allows_self (PInductiveConstrained n ups ucs ps is s cs r) \<longleftrightarrow> True"
| "allows_self (PMutualInductiveBlock n ups ucs is) \<longleftrightarrow> True"
| "allows_self _ \<longleftrightarrow> False"

definition local_transparency_dependencies ::
    "nat \<Rightarrow> decl_payload \<Rightarrow> decl_cert list \<Rightarrow> term_node list \<Rightarrow> nat \<Rightarrow> (transparency_dependencies \<times> nat) cresult" where
  "local_transparency_dependencies current root declarations terms certificate_nodes =
     rbind (scan_term_roots (root_term_ids root) 1 terms
       \<lparr>tb_root_expanded_nodes = 0, tb_certificate_expanded_nodes = certificate_nodes\<rparr>) (\<lambda>(refs, b).
     let direct_refs = filter (\<lambda>(g, _). \<not> (allows_self root \<and> local_index g = Some current)) refs in
     rbind (transparency_loop current declarations terms (queue_references current direct_refs []) [] [] b) (\<lambda>(opaque, b).
     rbind (traverse (\<lambda>g. rbind (interface_hash_for_reference g declarations) (checked_interface g))
       (filter (\<lambda>g. case g of GLocal j \<Rightarrow> unat j \<notin> set opaque | _ \<Rightarrow> True) (map fst direct_refs))) (\<lambda>interfaces.
     Inr (\<lparr>td_interface_dependencies = interfaces, td_opaque_definition_indices = opaque\<rparr>,
       tb_certificate_expanded_nodes b))))"

definition checked_local_implementation :: "global_ref \<Rightarrow> nat \<Rightarrow> decl_cert list \<Rightarrow> dependency_entry cresult" where
  "checked_local_implementation g current declarations =
     (case g of
        GLocal j \<Rightarrow>
          if unat j \<ge> current then Inl (DependencyCycle (name_from_dotted (''local.'' @ show_nat (unat j))))
          else rbind (ok_or DecodeError (get_at declarations (unat j))) (\<lambda>target.
            if \<not> is_opaque_definition (dc_decl target) then Inl DecodeError
            else Inr (DLocalImplementation (GLocal j) (dh_decl_interface_hash (dc_hashes target))
              (dh_decl_certificate_hash (dc_hashes target))))
      | _ \<Rightarrow> Inl DecodeError)"

definition complete_local_transparency_dependencies ::
    "transparency_dependencies \<Rightarrow> nat \<Rightarrow> decl_cert list \<Rightarrow> dependency_entry list cresult" where
  "complete_local_transparency_dependencies closure current declarations =
     rbind (traverse (\<lambda>i. checked_local_implementation (GLocal (word_of_nat i)) current declarations)
       (td_opaque_definition_indices closure)) (\<lambda>implementations.
     Inr (sort_dedup dependency_entry_order_key (td_interface_dependencies closure @ implementations)))"

definition validate_local_implementation_entry ::
    "nat \<Rightarrow> decl_cert list \<Rightarrow> dependency_entry \<Rightarrow> nat cresult" where
  "validate_local_implementation_entry current declarations dep =
     (let invalid = (\<lambda>g reason. Inl (InvalidLocalImplementationDependency current g reason)) in
      case dependency_global_ref dep of
        GLocal j \<Rightarrow>
          (case get_at declarations (unat j) of
             None \<Rightarrow> invalid (GLocal j) TargetNotEarlier
           | Some target \<Rightarrow>
               if unat j \<ge> current then invalid (GLocal j) TargetNotEarlier
               else if \<not> is_opaque_definition (dc_decl target) then invalid (GLocal j) TargetNotOpaque
               else if dependency_decl_interface_hash dep \<noteq> dh_decl_interface_hash (dc_hashes target)
               then invalid (GLocal j) InterfaceHashMismatch
               else if dependency_decl_certificate_hash dep \<noteq> Some (dh_decl_certificate_hash (dc_hashes target))
               then invalid (GLocal j) CertificateHashMismatch
               else Inr (unat j))
      | g \<Rightarrow> invalid g WrongReferenceKind)"

definition validate_local_implementation_entries ::
    "nat \<Rightarrow> dependency_entry list \<Rightarrow> decl_cert list \<Rightarrow> nat list cresult" where
  "validate_local_implementation_entries current dependencies declarations =
     rbind (traverse (validate_local_implementation_entry current declarations)
       (filter (\<lambda>dep. dependency_kind dep = DKLocalImplementation) dependencies)) (\<lambda>indices.
     Inr (sort_dedup (\<lambda>i. i) indices))"

definition validate_local_implementation_closure :: "nat \<Rightarrow> nat list \<Rightarrow> nat list \<Rightarrow> unit cresult" where
  "validate_local_implementation_closure current actual expected =
     (case find (\<lambda>i. i \<notin> set actual) expected of
        Some i \<Rightarrow> Inl (InvalidLocalImplementationDependency current (GLocal (word_of_nat i)) MissingImplementationDependency)
      | None \<Rightarrow>
          (case find (\<lambda>i. i \<notin> set expected) actual of
             Some i \<Rightarrow> Inl (InvalidLocalImplementationDependency current (GLocal (word_of_nat i)) SurplusImplementationDependency)
           | None \<Rightarrow> Inr ()))"

definition imported_module_name_for_global_ref :: "module_cert list \<Rightarrow> global_ref \<Rightarrow> cname cresult" where
  "imported_module_name_for_global_ref views g =
     (case g of
        GImported k _ _ \<Rightarrow> rbind (ok_or DecodeError (get_at views (unat k))) (\<lambda>m. Inr (hdr_module (mc_header m)))
      | _ \<Rightarrow> Inl DecodeError)"

definition interface_hash_for_global_ref ::
    "digest \<Rightarrow> module_cert \<Rightarrow> module_cert list \<Rightarrow> nat \<Rightarrow> global_ref \<Rightarrow> hash cresult" where
  "interface_hash_for_global_ref sha cert views current g =
     (case g of
        GBuiltin n ih \<Rightarrow>
          rbind (ok_or DecodeError (get_at (mc_name_table cert) (unat n))) (\<lambda>name.
          if builtin_decl_interface_hash sha name \<noteq> Some ih then Inl (UnknownDependency name) else Inr ih)
      | GLocal j \<Rightarrow>
          if unat j \<ge> current then Inl (DependencyCycle (name_from_dotted (''local.'' @ show_nat (unat j))))
          else rbind (ok_or DecodeError (get_at (mc_declarations cert) (unat j))) (\<lambda>d.
            Inr (dh_decl_interface_hash (dc_hashes d)))
      | GLocalGenerated j n \<Rightarrow>
          if unat j \<ge> current
          then Inl (DependencyCycle (case get_at (mc_name_table cert) (unat n) of
              Some name \<Rightarrow> name | None \<Rightarrow> name_from_dotted (''local.'' @ show_nat (unat j))))
          else rbind (local_generated_entry_exists cert j n) (\<lambda>exists.
            if \<not> exists
            then rbind (ok_or DecodeError (get_at (mc_name_table cert) (unat n))) (\<lambda>name. Inl (UnknownDependency name))
            else rbind (ok_or DecodeError (get_at (mc_declarations cert) (unat j))) (\<lambda>d.
              Inr (dh_decl_interface_hash (dc_hashes d))))
      | GImported k n ih \<Rightarrow>
          rbind (imported_export_entry_for_global_ref (mc_name_table cert) views g) (\<lambda>entry.
          if ee_decl_interface_hash entry \<noteq> ih
          then rbind (imported_module_name_for_global_ref views g) (\<lambda>m. Inl (ImportHashMismatch m))
          else Inr ih))"

definition expected_dependencies_for_decl_with_budget ::
    "digest \<Rightarrow> module_cert \<Rightarrow> module_cert list \<Rightarrow> nat \<Rightarrow> decl_payload \<Rightarrow> nat \<Rightarrow> (dependency_entry list \<times> nat) cresult" where
  "expected_dependencies_for_decl_with_budget sha cert views i decl nodes =
     rbind (ok_or DecodeError (get_at (mc_declarations cert) i)) (\<lambda>d.
     rbind (validate_local_implementation_entries i (dc_dependencies d) (mc_declarations cert)) (\<lambda>actual.
     rbind (local_transparency_dependencies i decl (mc_declarations cert) (mc_term_table cert) nodes) (\<lambda>(closure, nodes).
     rbind (validate_local_implementation_closure i actual (td_opaque_definition_indices closure)) (\<lambda>_.
     rbind (check_all (\<lambda>dep.
         rbind (interface_hash_for_global_ref sha cert views i (dependency_global_ref dep)) (\<lambda>expected.
         guard_res (dependency_decl_interface_hash dep \<noteq> expected)
           (HashMismatch HODeclInterface (dependency_decl_interface_hash dep) expected)))
       (td_interface_dependencies closure)) (\<lambda>_.
     rbind (complete_local_transparency_dependencies closure i (mc_declarations cert)) (\<lambda>deps.
     Inr (deps, nodes)))))))"

section \<open>Axioms of a declaration\<close>

definition builtin_is_axiom :: "cname \<Rightarrow> bool" where
  "builtin_is_axiom name \<longleftrightarrow> name_as_dotted name = ''Eq.rec''"

definition local_axiom_ref_for_decl :: "usize \<Rightarrow> axiom_ref list \<Rightarrow> axiom_ref option" where
  "local_axiom_ref_for_decl j axioms = find (\<lambda>a. ar_global_ref a = GLocal j) axioms"

definition exports_axiom :: "cname \<Rightarrow> hash \<Rightarrow> module_cert \<Rightarrow> bool" where
  "exports_axiom name ih m \<longleftrightarrow>
     list_ex (\<lambda>e. ee_kind e = EKAxiom \<and> ee_decl_interface_hash e = ih \<and>
       get_at (mc_name_table m) (unat (ee_name e)) = Some name) (mc_export_block m)"

definition import_index_exporting_axiom :: "module_cert list \<Rightarrow> cname \<Rightarrow> hash \<Rightarrow> nat cresult" where
  "import_index_exporting_axiom views name ih = ok_or (UnknownDependency name) (position (exports_axiom name ih) views)"

definition remap_axiom_ref_from_cert_import ::
    "digest \<Rightarrow> module_cert \<Rightarrow> module_cert list \<Rightarrow> module_cert \<Rightarrow> axiom_ref \<Rightarrow> axiom_ref cresult" where
  "remap_axiom_ref_from_cert_import sha cert views m a =
     rbind (ok_or DecodeError (get_at (mc_name_table m) (unat (ar_name a)))) (\<lambda>axiom_name.
     rbind (ok_or DecodeError (position (\<lambda>n. n = axiom_name) (mc_name_table cert))) (\<lambda>i.
     let name = word_of_nat i in
     case ar_global_ref a of
       GBuiltin _ ih \<Rightarrow>
         if builtin_decl_interface_hash sha axiom_name \<noteq> Some ih then Inl (UnknownDependency axiom_name)
         else Inr \<lparr>ar_global_ref = GBuiltin name ih, ar_name = name, ar_decl_interface_hash = ih\<rparr>
     | _ \<Rightarrow>
         rbind (import_index_exporting_axiom views axiom_name (ar_decl_interface_hash a)) (\<lambda>k.
         Inr \<lparr>ar_global_ref = GImported (word_of_nat k) name (ar_decl_interface_hash a), ar_name = name,
           ar_decl_interface_hash = ar_decl_interface_hash a\<rparr>)))"

text \<open>What one dependency adds to the direct and to the transitive axioms.\<close>

definition dependency_axioms ::
    "digest \<Rightarrow> module_cert \<Rightarrow> module_cert list \<Rightarrow> axiom_ref list list \<Rightarrow> global_ref \<Rightarrow>
     (axiom_ref list \<times> axiom_ref list) cresult" where
  "dependency_axioms sha cert views previous g =
     (case g of
        GBuiltin n ih \<Rightarrow>
          rbind (ok_or DecodeError (get_at (mc_name_table cert) (unat n))) (\<lambda>name.
          let a = \<lparr>ar_global_ref = g, ar_name = n, ar_decl_interface_hash = ih\<rparr> in
          Inr (if builtin_is_axiom name then ([a], [a]) else ([], [])))
      | GLocal j \<Rightarrow>
          Inr (case get_at previous (unat j) of
            None \<Rightarrow> ([], [])
          | Some axioms \<Rightarrow> (case local_axiom_ref_for_decl j axioms of None \<Rightarrow> [] | Some a \<Rightarrow> [a], axioms))
      | GLocalGenerated j _ \<Rightarrow>
          Inr (case get_at previous (unat j) of None \<Rightarrow> ([], []) | Some axioms \<Rightarrow> ([], axioms))
      | GImported k n ih \<Rightarrow>
          rbind (imported_export_entry_for_global_ref (mc_name_table cert) views g) (\<lambda>entry.
          rbind (ok_or DecodeError (get_at views (unat k))) (\<lambda>m.
          rbind (traverse (remap_axiom_ref_from_cert_import sha cert views m) (ee_axiom_dependencies entry)) (\<lambda>axioms.
          Inr (if ee_kind entry = EKAxiom
               then [\<lparr>ar_global_ref = g, ar_name = n, ar_decl_interface_hash = ih\<rparr>] else [], axioms)))))"

fun axiom_name :: "decl_payload \<Rightarrow> name_id option" where
  "axiom_name (PAxiom n ups t) = Some n"
| "axiom_name (PAxiomConstrained n ups ucs t) = Some n"
| "axiom_name _ = None"

definition self_axioms :: "module_cert \<Rightarrow> nat \<Rightarrow> decl_payload \<Rightarrow> axiom_ref list cresult" where
  "self_axioms cert i decl =
     (case axiom_name decl of
        None \<Rightarrow> Inr []
      | Some n \<Rightarrow> rbind (ok_or DecodeError (get_at (mc_declarations cert) i)) (\<lambda>d.
          Inr [\<lparr>ar_global_ref = GLocal (word_of_nat i), ar_name = n,
            ar_decl_interface_hash = dh_decl_interface_hash (dc_hashes d)\<rparr>]))"

definition union_axioms :: "axiom_ref list \<Rightarrow> axiom_ref list" where
  "union_axioms axioms = sort_dedup axiom_ref_order_key axioms"

definition expected_axioms_for_decl ::
    "digest \<Rightarrow> module_cert \<Rightarrow> module_cert list \<Rightarrow> nat \<Rightarrow> decl_payload \<Rightarrow> dependency_entry list \<Rightarrow> axiom_ref list list \<Rightarrow>
     (axiom_ref list \<times> axiom_ref list) cresult" where
  "expected_axioms_for_decl sha cert views i decl dependencies previous =
     rbind (traverse (\<lambda>dep. dependency_axioms sha cert views previous (dependency_global_ref dep)) dependencies) (\<lambda>axioms.
     rbind (self_axioms cert i decl) (\<lambda>self.
     Inr (union_axioms (concat (map fst axioms) @ self), union_axioms (concat (map snd axioms) @ self))))"

section \<open>The verification of dependencies and axioms\<close>

definition report_mismatch :: "module_cert \<Rightarrow> nat \<Rightarrow> 'a cresult" where
  "report_mismatch cert i = rbind (decl_name_as_name cert i) (\<lambda>name. Inl (AxiomReportMismatch (Some name)))"

text \<open>One round of the loop: the report of the declaration is returned with the budget that is left.\<close>

definition verify_decl_dependencies ::
    "digest \<Rightarrow> module_cert \<Rightarrow> module_cert list \<Rightarrow> nat \<Rightarrow> decl_cert \<Rightarrow> axiom_ref list list \<times> nat \<Rightarrow>
     (axiom_ref list list \<times> nat) cresult" where
  "verify_decl_dependencies sha cert views i d = (\<lambda>(previous, nodes).
     rbind (expected_dependencies_for_decl_with_budget sha cert views i (dc_decl d) nodes) (\<lambda>(deps, nodes).
     if deps \<noteq> dc_dependencies d then report_mismatch cert i
     else rbind (expected_axioms_for_decl sha cert views i (dc_decl d) deps previous) (\<lambda>(direct, transitive).
     if transitive \<noteq> dc_axiom_dependencies d then report_mismatch cert i
     else if get_at (rep_per_declaration (mc_axiom_report cert)) i \<noteq>
         Some \<lparr>dar_decl_index = word_of_nat i, dar_direct_axioms = direct, dar_transitive_axioms = transitive\<rparr>
     then report_mismatch cert i
     else Inr (previous @ [transitive], nodes))))"

definition referenced_builtins_from_cert :: "digest \<Rightarrow> module_cert \<Rightarrow> cname list cresult" where
  "referenced_builtins_from_cert sha cert =
     fold_res (\<lambda>t names.
       case t of
         TNConst (GBuiltin n ih) _ \<Rightarrow>
           rbind (ok_or DecodeError (get_at (mc_name_table cert) (unat n))) (\<lambda>name.
           if builtin_decl_interface_hash sha name \<noteq> Some ih then Inl (UnknownDependency name)
           else Inr (names @ [name]))
       | _ \<Rightarrow> Inr names) (mc_term_table cert) []"

definition verify_dependencies_and_axioms :: "digest \<Rightarrow> module_cert \<Rightarrow> module_cert list \<Rightarrow> unit cresult" where
  "verify_dependencies_and_axioms sha cert views =
     rbind (cert_format_version (mc_header cert)) (\<lambda>version.
     rbind (fold_res (\<lambda>(i, d). verify_decl_dependencies sha cert views i d) (enumerate 0 (mc_declarations cert)) ([], 0)) (\<lambda>(previous, nodes).
     if length (rep_per_declaration (mc_axiom_report cert)) \<noteq> length previous then Inl (AxiomReportMismatch None)
     else if union_axioms (concat previous) \<noteq> rep_module_axioms (mc_axiom_report cert) then Inl (AxiomReportMismatch None)
     else rbind (referenced_builtins_from_cert sha cert) (\<lambda>_. Inr ())))"

section \<open>What a declaration refers to\<close>

lemma traverse_map:
  assumes "traverse f xs = Inr ys" and "\<And>x y. f x = Inr y \<Longrightarrow> g y = x"
  shows "map g ys = xs"
  using assms(1)
proof (induction xs arbitrary: ys)
  case (Cons x xs)
  then show ?case using assms(2) by (auto simp: rbind_eq_Inr)
qed simp

inductive mentions :: "term_node list \<Rightarrow> term_id \<Rightarrow> global_ref \<Rightarrow> bool" for terms where
  mentions_const: "get_at terms (unat t) = Some (TNConst g ls) \<Longrightarrow> mentions terms t g"
| mentions_child: "get_at terms (unat t) = Some node \<Longrightarrow> c \<in> set (term_children node) \<Longrightarrow> mentions terms c g \<Longrightarrow>
    mentions terms t g"

inductive_simps mentions_unfold: "mentions terms t g"

declare scan_loop.simps(2) [simp del]

lemma scan_loop_refs:
  "scan_loop terms pending refs b = Inr (refs', b') \<Longrightarrow>
   fst ` set refs' = fst ` set refs \<union> {g. \<exists>t \<in> fst ` set pending. mentions terms t g}"
proof (induction terms pending refs b rule: scan_loop.induct)
  case (2 terms t depth pending refs b)
  from 2(7) obtain b1 node where b1: "charge depth b = Inr b1" and node: "get_at terms (unat t) = Some node"
    by (auto simp: rbind_eq_Inr scan_loop.simps(2))
  have t: "mentions terms t g \<longleftrightarrow> (\<exists>ls. node = TNConst g ls) \<or> (\<exists>c \<in> set (term_children node). mentions terms c g)" for g
    using node by (subst mentions_unfold) auto
  have "ok_or DecodeError (get_at terms (unat t)) = Inr node" using node by simp
  note IH = 2(1-6) [OF b1 this refl] and run = 2(7) [unfolded scan_loop.simps(2) [of terms t depth pending refs b] Let_def]
  show ?case
  proof (cases node)
    case (TNSort l)
    with run b1 node IH(1) [OF TNSort] t show ?thesis by simp
  next
    case (TNBVar i)
    with run b1 node IH(2) [OF TNBVar] t show ?thesis by simp
  next
    case (TNConst g ls)
    with run b1 node IH(3) [OF TNConst] have "fst ` set refs' = insert g (fst ` set refs) \<union>
        {g. \<exists>t \<in> fst ` set pending. mentions terms t g}" by simp
    with t TNConst show ?thesis by auto
  next
    case (TNApp f a)
    with run b1 node IH(4) [OF TNApp] have "fst ` set refs' = fst ` set refs \<union>
        {g. mentions terms f g \<or> mentions terms a g \<or> (\<exists>t \<in> fst ` set pending. mentions terms t g)}" by simp
    with t TNApp show ?thesis by auto
  next
    case (TNLam ty body)
    with run b1 node IH(5) [OF TNLam] have "fst ` set refs' = fst ` set refs \<union>
        {g. mentions terms ty g \<or> mentions terms body g \<or> (\<exists>t \<in> fst ` set pending. mentions terms t g)}" by simp
    with t TNLam show ?thesis by auto
  next
    case (TNPi ty body)
    with run b1 node IH(6) [OF TNPi] have "fst ` set refs' = fst ` set refs \<union>
        {g. mentions terms ty g \<or> mentions terms body g \<or> (\<exists>t \<in> fst ` set pending. mentions terms t g)}" by simp
    with t TNPi show ?thesis by auto
  qed
qed simp

lemma scan_term_roots_refs:
  "scan_term_roots roots depth terms b = Inr (refs, b') \<Longrightarrow>
   fst ` set refs = {g. \<exists>t \<in> set roots. mentions terms t g}"
  by (drule scan_loop_refs [of terms "map (\<lambda>t. (t, depth)) (sort roots)" "[]", folded scan_term_roots_def])
    (simp add: image_image)

text \<open>The local declarations that the search follows from a declaration.\<close>

definition follows :: "decl_cert list \<Rightarrow> term_node list \<Rightarrow> (nat \<times> nat) set" where
  "follows declarations terms = {(j, k). \<exists>d g. get_at declarations j = Some d \<and> local_index g = Some k \<and>
     (\<exists>t \<in> set (referenced_term_ids (dc_decl d)). mentions terms t g)}"

lemma transparency_stepE:
  assumes "transparency_loop current declarations terms ((i, depth) # pending) visited opaque b = Inr r"
  obtains (seen) "i \<in> set visited" "transparency_loop current declarations terms pending visited opaque b = Inr r"
  | (missing) "i \<notin> set visited" "get_at declarations i = None"
      "transparency_loop current declarations terms pending (i # visited) opaque b = Inr r"
  | (scanned) d refs b1 where "i \<notin> set visited" "get_at declarations i = Some d"
      "scan_term_roots (referenced_term_ids (dc_decl d)) (saturating_add depth 1) terms b = Inr (refs, b1)"
      "transparency_loop current declarations terms (queue_references current refs pending) (i # visited)
        (if is_opaque_definition (dc_decl d) then insort i opaque else opaque) b1 = Inr r"
proof (cases "i \<in> set visited")
  case True
  with assms show thesis by (auto intro: seen)
next
  case new: False
  show thesis
  proof (cases "get_at declarations i")
    case None
    with assms new show thesis by (auto intro: missing)
  next
    case (Some d)
    with assms new have "rbind (scan_term_roots (referenced_term_ids (dc_decl d)) (saturating_add depth 1) terms b) (\<lambda>(refs, b).
        transparency_loop current declarations terms (queue_references current refs pending) (i # visited)
          (if is_opaque_definition (dc_decl d) then insort i opaque else opaque) b) = Inr r" by simp
    then show thesis using new Some by (elim rbind_InrE) (auto intro: scanned split: prod.splits)
  qed
qed

declare transparency_loop.simps(2) [simp del]

lemma transparency_loop_sound:
  assumes "transparency_loop current declarations terms pending visited opaque b = Inr (opaque', b')"
  shows "set opaque' \<subseteq> set opaque \<union> {k. \<exists>j \<in> fst ` set pending. (j, k) \<in> (follows declarations terms)\<^sup>*}"
  using assms
proof (induction current declarations terms pending visited opaque b rule: transparency_loop.induct)
  case (2 current declarations terms i depth pending visited opaque b)
  from 2(4) show ?case
  proof (cases rule: transparency_stepE)
    case seen
    with 2(1) show ?thesis by auto
  next
    case missing
    with 2(2) show ?thesis by auto
  next
    case (scanned d refs b1)
    have "(i, k) \<in> follows declarations terms" if "g \<in> fst ` set refs" "local_index g = Some k" for g k
      using that scanned(2) unfolding scan_term_roots_refs [OF scanned(3)] follows_def by blast
    then have "{k. \<exists>j \<in> fst ` set (queue_references current refs pending). (j, k) \<in> (follows declarations terms)\<^sup>*} \<subseteq>
        {k. \<exists>j \<in> fst ` set ((i, depth) # pending). (j, k) \<in> (follows declarations terms)\<^sup>*}" (is "_ \<subseteq> ?T")
      unfolding queued_keys by (auto intro: converse_rtrancl_into_rtrancl)
    moreover have "set (if is_opaque_definition (dc_decl d) then insort i opaque else opaque) \<subseteq> insert i (set opaque)"
      by (simp add: set_insort_key subset_insertI)
    then have "set (if is_opaque_definition (dc_decl d) then insort i opaque else opaque) \<subseteq> set opaque \<union> ?T" by auto
    ultimately show ?thesis using 2(3) [OF scanned(1-3) refl scanned(4)] by (meson Un_least Un_upper2 subset_trans)
  qed
qed simp

lemma transparency_loop_complete:
  assumes "transparency_loop current declarations terms pending visited opaque b = Inr (opaque', b')"
  shows "set opaque \<union> {j \<in> fst ` set pending. j \<notin> set visited \<and>
    (\<exists>d. get_at declarations j = Some d \<and> is_opaque_definition (dc_decl d))} \<subseteq> set opaque'"
  using assms
proof (induction current declarations terms pending visited opaque b rule: transparency_loop.induct)
  case (2 current declarations terms i depth pending visited opaque b)
  from 2(4) show ?case
  proof (cases rule: transparency_stepE)
    case (scanned d refs b1)
    with 2(3) [OF scanned(1-3) refl scanned(4)] show ?thesis
      by (auto simp: queued_keys set_insort_key split: if_splits)
  next
    case seen
    with 2(1) show ?thesis by auto
  next
    case missing
    with 2(2) show ?thesis by auto
  qed
qed simp

lemma transparency_loop_below:
  assumes "transparency_loop current declarations terms pending visited opaque b = Inr (opaque', b')"
    and "\<forall>j \<in> fst ` set pending \<union> set opaque. j < current"
  shows "\<forall>j \<in> set opaque'. j < current"
  using assms
proof (induction current declarations terms pending visited opaque b rule: transparency_loop.induct)
  case (2 current declarations terms i depth pending visited opaque b)
  from 2(4) show ?case
  proof (cases rule: transparency_stepE)
    case (scanned d refs b1)
    from 2(5) show ?thesis
      by (intro 2(3) [OF scanned(1-3) refl scanned(4)]) (auto simp: queued_keys set_insort_key)
  next
    case seen
    with 2(1,5) show ?thesis by auto
  next
    case missing
    with 2(2,5) show ?thesis by auto
  qed
qed simp

definition refers :: "module_cert \<Rightarrow> nat \<Rightarrow> global_ref \<Rightarrow> bool" where
  "refers cert i g \<longleftrightarrow> (\<exists>d. get_at (mc_declarations cert) i = Some d \<and>
     (\<exists>t \<in> set (root_term_ids (dc_decl d)). mentions (mc_term_table cert) t g) \<and>
     \<not> (allows_self (dc_decl d) \<and> local_index g = Some i))"

definition uses :: "module_cert \<Rightarrow> (nat \<times> nat) set" where
  "uses cert = {(i, j). \<exists>g. refers cert i g \<and> local_index g = Some j}"

lemma referenced_subset: "set (referenced_term_ids d) \<subseteq> set (root_term_ids d)"
  by (cases d rule: referenced_term_ids.cases) (auto simp: root_term_ids_def)

lemma follows_uses: "(j, k) \<in> follows (mc_declarations cert) (mc_term_table cert) \<Longrightarrow> (j, k) \<in> (uses cert)\<^sup>="
  using referenced_subset by (fastforce simp: follows_def uses_def refers_def)

lemma follows_uses_star:
  "(j, k) \<in> (follows (mc_declarations cert) (mc_term_table cert))\<^sup>* \<Longrightarrow> (j, k) \<in> (uses cert)\<^sup>*"
  by (induction rule: rtrancl_induct) (auto dest!: follows_uses intro: rtrancl_into_rtrancl)

lemma local_index_round: "local_index g = Some k \<Longrightarrow> unat (word_of_nat k :: usize) = k"
  by (auto simp: local_index_def split: global_ref.splits)

lemma uses_round: "(i, k) \<in> (uses cert)\<^sup>+ \<Longrightarrow> unat (word_of_nat k :: usize) = k"
  by (induction rule: trancl_induct) (auto simp: uses_def local_index_round)

lemma local_transparency_refs:
  assumes d: "get_at (mc_declarations cert) i = Some d"
    and "local_transparency_dependencies i (dc_decl d) (mc_declarations cert) (mc_term_table cert) nodes = Inr (closure, nodes')"
  defines "opaque \<equiv> set (td_opaque_definition_indices closure)"
  shows "dependency_global_ref ` set (td_interface_dependencies closure) =
      {g. refers cert i g \<and> \<not> (\<exists>j. g = GLocal j \<and> unat j \<in> opaque)}"
    and "\<forall>k \<in> opaque. (i, k) \<in> (uses cert)\<^sup>+ \<and> k < i"
proof -
  from assms(2) obtain refs b b1 opaque' where scan: "scan_term_roots (root_term_ids (dc_decl d)) 1 (mc_term_table cert)
       \<lparr>tb_root_expanded_nodes = 0, tb_certificate_expanded_nodes = nodes\<rparr> = Inr (refs, b)"
    and run: "transparency_loop i (mc_declarations cert) (mc_term_table cert) (queue_references i
        (filter (\<lambda>(g, _). \<not> (allows_self (dc_decl d) \<and> local_index g = Some i)) refs) []) [] [] b = Inr (opaque', b1)"
    and interfaces: "traverse (\<lambda>g. rbind (interface_hash_for_reference g (mc_declarations cert)) (checked_interface g))
       (filter (\<lambda>g. case g of GLocal j \<Rightarrow> unat j \<notin> set opaque' | _ \<Rightarrow> True)
         (map fst (filter (\<lambda>(g, _). \<not> (allows_self (dc_decl d) \<and> local_index g = Some i)) refs))) =
       Inr (td_interface_dependencies closure)"
    and opaque': "td_opaque_definition_indices closure = opaque'"
    by (auto simp: local_transparency_dependencies_def rbind_eq_Inr Let_def split: prod.splits)
  let ?direct = "filter (\<lambda>(g, _). \<not> (allows_self (dc_decl d) \<and> local_index g = Some i)) refs"
  have direct: "fst ` set ?direct = {g. refers cert i g}"
  proof -
    have "fst ` set ?direct = {g \<in> fst ` set refs. \<not> (allows_self (dc_decl d) \<and> local_index g = Some i)}" by force
    then show ?thesis unfolding scan_term_roots_refs [OF scan] using d by (auto simp: refers_def)
  qed
  have checked: "dependency_global_ref e = g"
    if "rbind (interface_hash_for_reference g (mc_declarations cert)) (checked_interface g) = Inr e" for g e
    using that by (auto simp: rbind_eq_Inr checked_interface_def Let_def split: global_ref.splits if_splits)
  from interfaces have "map dependency_global_ref (td_interface_dependencies closure) =
      filter (\<lambda>g. case g of GLocal j \<Rightarrow> unat j \<notin> set opaque' | _ \<Rightarrow> True) (map fst ?direct)"
    by (rule traverse_map) (rule checked)
  then have *: "dependency_global_ref ` set (td_interface_dependencies closure) =
      {g \<in> fst ` set ?direct. case g of GLocal j \<Rightarrow> unat j \<notin> set opaque' | _ \<Rightarrow> True}"
    by (drule_tac arg_cong [of _ _ set]) (simp only: set_map set_filter)
  show "dependency_global_ref ` set (td_interface_dependencies closure) =
      {g. refers cert i g \<and> \<not> (\<exists>j. g = GLocal j \<and> unat j \<in> opaque)}"
  proof -
    have "(case g of GLocal j \<Rightarrow> unat j \<notin> set opaque' | _ \<Rightarrow> True) \<longleftrightarrow> \<not> (\<exists>j. g = GLocal j \<and> unat j \<in> set opaque')" for g
      by (cases g) auto
    with * show ?thesis unfolding direct opaque_def opaque' by simp
  qed
  have pending: "fst ` set (queue_references i ?direct []) = {j. j < i \<and> (i, j) \<in> uses cert}"
    unfolding queued_keys direct by (auto simp: uses_def)
  from transparency_loop_sound [OF run] have "\<forall>k \<in> set opaque'. \<exists>j. (i, j) \<in> uses cert \<and> (j, k) \<in> (uses cert)\<^sup>*"
    unfolding pending by (auto dest!: follows_uses_star)
  moreover from transparency_loop_below [OF run] have "\<forall>k \<in> set opaque'. k < i" unfolding pending by simp
  ultimately show "\<forall>k \<in> opaque. (i, k) \<in> (uses cert)\<^sup>+ \<and> k < i"
    unfolding opaque_def opaque' by (meson rtrancl_into_trancl2)
qed

lemma interface_hash_local:
  "interface_hash_for_global_ref sha cert views i g = Inr h \<Longrightarrow> local_index g = Some j \<Longrightarrow> j < i"
  by (auto simp: interface_hash_for_global_ref_def local_index_def split: global_ref.splits if_splits)

lemma checked_implementation_ref:
  "checked_local_implementation g i declarations = Inr e \<Longrightarrow>
   dependency_global_ref e = g \<and> (\<exists>j. g = GLocal j \<and> unat j < i)"
  by (auto simp: checked_local_implementation_def rbind_eq_Inr split: global_ref.splits if_splits)

text \<open>
  The dependencies of a verified declaration: what it refers to, and opaque definitions that are
  reached through earlier declarations.
\<close>

lemma expected_dependencies_refs:
  assumes d: "get_at (mc_declarations cert) i = Some d"
    and "expected_dependencies_for_decl_with_budget sha cert views i (dc_decl d) nodes = Inr (deps, nodes')"
  shows "refers cert i g \<Longrightarrow> g \<in> dependency_global_ref ` set deps"
    and "g \<in> dependency_global_ref ` set deps \<Longrightarrow>
      refers cert i g \<or> (\<exists>j. local_index g = Some j \<and> (i, j) \<in> (uses cert)\<^sup>+)"
    and "g \<in> dependency_global_ref ` set deps \<Longrightarrow> local_index g = Some j \<Longrightarrow> j < i"
proof -
  from assms obtain closure implementations where
    closure: "local_transparency_dependencies i (dc_decl d) (mc_declarations cert) (mc_term_table cert) nodes = Inr (closure, nodes')"
    and checked: "\<forall>dep \<in> set (td_interface_dependencies closure). \<exists>h.
      interface_hash_for_global_ref sha cert views i (dependency_global_ref dep) = Inr h"
    and implementations: "traverse (\<lambda>k. checked_local_implementation (GLocal (word_of_nat k)) i (mc_declarations cert))
       (td_opaque_definition_indices closure) = Inr implementations"
    and deps: "set deps = set (td_interface_dependencies closure) \<union> set implementations"
    by (auto simp: expected_dependencies_for_decl_with_budget_def complete_local_transparency_dependencies_def
        rbind_eq_Inr check_all_eq_Inr split: prod.splits)
  let ?opaque = "set (td_opaque_definition_indices closure)"
  note refs = local_transparency_refs [OF d closure]
  have ground: "unat (word_of_nat k :: usize) = k" if "k \<in> ?opaque" for k
    using refs(2) that uses_round by blast
  from implementations have "list_all2 (\<lambda>k e. dependency_global_ref e = GLocal (word_of_nat k))
      (td_opaque_definition_indices closure) implementations"
    unfolding traverse_eq_Inr by (rule list_all2_mono) (auto dest: checked_implementation_ref)
  then have impl: "dependency_global_ref ` set implementations = (\<lambda>k. GLocal (word_of_nat k)) ` ?opaque"
    by (induction rule: list_all2_induct) auto
  have all: "dependency_global_ref ` set deps = {g. refers cert i g \<and> \<not> (\<exists>j. g = GLocal j \<and> unat j \<in> ?opaque)} \<union>
      (\<lambda>k. GLocal (word_of_nat k)) ` ?opaque"
    unfolding deps image_Un impl refs(1) ..
  show "g \<in> dependency_global_ref ` set deps" if "refers cert i g"
  proof (cases "\<exists>j. g = GLocal j \<and> unat j \<in> ?opaque")
    case True
    then obtain j where "g = GLocal j" "unat j \<in> ?opaque" by blast
    then have "g \<in> (\<lambda>k. GLocal (word_of_nat k)) ` ?opaque" by (intro image_eqI [of _ _ "unat j"]) simp_all
    then show ?thesis unfolding all by (rule UnI2)
  next
    case False
    with that show ?thesis unfolding all by blast
  qed
  show "refers cert i g \<or> (\<exists>j. local_index g = Some j \<and> (i, j) \<in> (uses cert)\<^sup>+)"
    if "g \<in> dependency_global_ref ` set deps"
    using that refs(2) unfolding all by (auto simp: local_index_def ground)
  show "j < i" if g: "g \<in> dependency_global_ref ` set deps" and j: "local_index g = Some j"
  proof (cases "g \<in> dependency_global_ref ` set (td_interface_dependencies closure)")
    case True
    with checked j show ?thesis by (auto dest: interface_hash_local)
  next
    case False
    with g j refs(2) show ?thesis unfolding deps image_Un impl by (auto simp: local_index_def ground)
  qed
qed

section \<open>The axiom report is exact\<close>

text \<open>
  A declaration rests on an axiom if it is the axiom, refers to the built-in axiom or to an
  imported declaration that was exported with the axiom, or refers to a local declaration that
  rests on it.
\<close>

inductive rests_on :: "digest \<Rightarrow> module_cert \<Rightarrow> module_cert list \<Rightarrow> nat \<Rightarrow> axiom_ref \<Rightarrow> bool" for sha cert views where
  rests_self: "get_at (mc_declarations cert) i = Some d \<Longrightarrow> axiom_name (dc_decl d) = Some n \<Longrightarrow>
    rests_on sha cert views i \<lparr>ar_global_ref = GLocal (word_of_nat i), ar_name = n,
      ar_decl_interface_hash = dh_decl_interface_hash (dc_hashes d)\<rparr>"
| rests_builtin: "refers cert i (GBuiltin n ih) \<Longrightarrow> get_at (mc_name_table cert) (unat n) = Some name \<Longrightarrow>
    builtin_is_axiom name \<Longrightarrow>
    rests_on sha cert views i \<lparr>ar_global_ref = GBuiltin n ih, ar_name = n, ar_decl_interface_hash = ih\<rparr>"
| rests_imported: "refers cert i (GImported k n ih) \<Longrightarrow>
    imported_export_entry_for_global_ref (mc_name_table cert) views (GImported k n ih) = Inr entry \<Longrightarrow>
    get_at views (unat k) = Some m \<Longrightarrow> a' \<in> set (ee_axiom_dependencies entry) \<Longrightarrow>
    remap_axiom_ref_from_cert_import sha cert views m a' = Inr a \<Longrightarrow> rests_on sha cert views i a"
| rests_local: "refers cert i g \<Longrightarrow> local_index g = Some j \<Longrightarrow> rests_on sha cert views j a \<Longrightarrow>
    rests_on sha cert views i a"

lemma rests_uses: "(i, j) \<in> (uses cert)\<^sup>+ \<Longrightarrow> rests_on sha cert views j a \<Longrightarrow> rests_on sha cert views i a"
  by (induction rule: converse_trancl_induct) (auto simp: uses_def intro: rests_local)

text \<open>What the loop established for a declaration.\<close>

definition decl_verified :: "digest \<Rightarrow> module_cert \<Rightarrow> module_cert list \<Rightarrow> nat \<Rightarrow> bool" where
  "decl_verified sha cert views i \<longleftrightarrow>
     (let d = mc_declarations cert ! i in
      (\<exists>nodes nodes'. expected_dependencies_for_decl_with_budget sha cert views i (dc_decl d) nodes =
         Inr (dc_dependencies d, nodes')) \<and>
      (\<exists>direct. expected_axioms_for_decl sha cert views i (dc_decl d) (dc_dependencies d)
           (map dc_axiom_dependencies (take i (mc_declarations cert))) = Inr (direct, dc_axiom_dependencies d) \<and>
         get_at (rep_per_declaration (mc_axiom_report cert)) i =
           Some \<lparr>dar_decl_index = word_of_nat i, dar_direct_axioms = direct,
             dar_transitive_axioms = dc_axiom_dependencies d\<rparr>))"

lemma verify_loop:
  assumes "fold_res (\<lambda>(i, d). verify_decl_dependencies sha cert views i d) (enumerate (length seen) ds)
      (map dc_axiom_dependencies seen, nodes) = Inr (previous, nodes')"
    and "mc_declarations cert = seen @ ds"
  shows "previous = map dc_axiom_dependencies (mc_declarations cert) \<and>
    (\<forall>i. length seen \<le> i \<and> i < length (mc_declarations cert) \<longrightarrow> decl_verified sha cert views i)"
  using assms
proof (induction ds arbitrary: seen nodes)
  case (Cons d ds)
  from Cons.prems(1) obtain st where
    step: "verify_decl_dependencies sha cert views (length seen) d (map dc_axiom_dependencies seen, nodes) = Inr st"
    and rest: "fold_res (\<lambda>(i, d). verify_decl_dependencies sha cert views i d) (enumerate (Suc (length seen)) ds) st =
      Inr (previous, nodes')"
    by (auto simp: rbind_eq_Inr)
  from step obtain nodes1 direct where
    deps: "expected_dependencies_for_decl_with_budget sha cert views (length seen) (dc_decl d) nodes = Inr (dc_dependencies d, nodes1)"
    and axioms: "expected_axioms_for_decl sha cert views (length seen) (dc_decl d) (dc_dependencies d)
        (map dc_axiom_dependencies seen) = Inr (direct, dc_axiom_dependencies d)"
    and report: "get_at (rep_per_declaration (mc_axiom_report cert)) (length seen) =
      Some \<lparr>dar_decl_index = word_of_nat (length seen), dar_direct_axioms = direct,
        dar_transitive_axioms = dc_axiom_dependencies d\<rparr>"
    and st: "st = (map dc_axiom_dependencies (seen @ [d]), nodes1)"
    by (auto simp: verify_decl_dependencies_def rbind_eq_Inr report_mismatch_def split: prod.splits if_splits)
  have "decl_verified sha cert views (length seen)"
    using deps axioms report by (auto simp: decl_verified_def Let_def Cons.prems(2))
  moreover from Cons.IH [of "seen @ [d]" nodes1] rest Cons.prems(2) st
  have "previous = map dc_axiom_dependencies (mc_declarations cert)"
    and "\<forall>i. Suc (length seen) \<le> i \<and> i < length (mc_declarations cert) \<longrightarrow> decl_verified sha cert views i" by simp_all
  ultimately show ?case by (metis Suc_leI le_neq_implies_less)
qed auto

lemma verify_dependenciesD:
  assumes "verify_dependencies_and_axioms sha cert views = Inr ()"
  shows "\<forall>i < length (mc_declarations cert). decl_verified sha cert views i"
    and "rep_module_axioms (mc_axiom_report cert) = union_axioms (concat (map dc_axiom_dependencies (mc_declarations cert)))"
  using assms verify_loop [of sha cert views "[]" "mc_declarations cert" 0]
  by (auto simp: verify_dependencies_and_axioms_def rbind_eq_Inr split: prod.splits if_splits)

lemma set_union_axioms [simp]: "set (union_axioms axioms) = set axioms"
  by (simp add: union_axioms_def)

lemma decl_axioms:
  assumes "decl_verified sha cert views i" and "i < length (mc_declarations cert)"
  defines "d \<equiv> mc_declarations cert ! i"
  shows "\<exists>axs self. list_all2 (\<lambda>dep ax. dependency_axioms sha cert views
        (map dc_axiom_dependencies (take i (mc_declarations cert))) (dependency_global_ref dep) = Inr ax)
        (dc_dependencies d) axs \<and>
      self_axioms cert i (dc_decl d) = Inr self \<and>
      set (dc_axiom_dependencies d) = \<Union> (set ` snd ` set axs) \<union> set self"
proof -
  from assms obtain axs self direct where
    "traverse (\<lambda>dep. dependency_axioms sha cert views (map dc_axiom_dependencies (take i (mc_declarations cert)))
       (dependency_global_ref dep)) (dc_dependencies d) = Inr axs"
    and self: "self_axioms cert i (dc_decl d) = Inr self"
    and eq: "union_axioms (concat (map snd axs) @ self) = dc_axiom_dependencies d"
    unfolding decl_verified_def Let_def expected_axioms_for_decl_def by (auto simp: rbind_eq_Inr)
  moreover from eq have "set (dc_axiom_dependencies d) = \<Union> (set ` snd ` set axs) \<union> set self"
    by (auto simp flip: eq)
  ultimately show ?thesis unfolding traverse_eq_Inr by blast
qed

lemma previous_axioms:
  "j < i \<Longrightarrow> i \<le> length declarations \<Longrightarrow>
   get_at (map dc_axiom_dependencies (take i declarations)) j = Some (dc_axiom_dependencies (declarations ! j))"
  by (simp add: get_at_def)

lemma dependency_axioms_sound:
  assumes ax: "dependency_axioms sha cert views (map dc_axiom_dependencies (take i (mc_declarations cert))) g = Inr ax"
    and a: "a \<in> set (snd ax)" and i: "i < length (mc_declarations cert)"
    and ref: "refers cert i g \<or> (\<exists>j. local_index g = Some j \<and> (i, j) \<in> (uses cert)\<^sup>+)"
    and below: "\<And>j. local_index g = Some j \<Longrightarrow> j < i"
    and IH: "\<And>j. j < i \<Longrightarrow> a \<in> set (dc_axiom_dependencies (mc_declarations cert ! j)) \<Longrightarrow> rests_on sha cert views j a"
  shows "rests_on sha cert views i a"
proof (cases "local_index g")
  case None
  with ref have "refers cert i g" by simp
  with None ax a show ?thesis
    by (auto simp: dependency_axioms_def local_index_def rbind_eq_Inr Let_def split: global_ref.splits if_splits
        intro: rests_builtin rests_imported dest: traverse_set)
next
  case (Some j)
  then have "a \<in> set (dc_axiom_dependencies (mc_declarations cert ! j))"
    using ax a below previous_axioms [of _ i "mc_declarations cert"] i
    by (auto simp: dependency_axioms_def local_index_def split: global_ref.splits)
  with IH below Some have "rests_on sha cert views j a" by blast
  with ref Some show ?thesis by (auto intro: rests_uses rests_local)
qed

lemma decl_axioms_complete:
  assumes verified: "\<forall>i < length (mc_declarations cert). decl_verified sha cert views i"
    and "rests_on sha cert views i a"
  shows "i < length (mc_declarations cert) \<and> a \<in> set (dc_axiom_dependencies (mc_declarations cert ! i))"
proof -
  have dep: "i < length (mc_declarations cert) \<and> (\<exists>ax. dependency_axioms sha cert views
      (map dc_axiom_dependencies (take i (mc_declarations cert))) g = Inr ax \<and>
      set (snd ax) \<subseteq> set (dc_axiom_dependencies (mc_declarations cert ! i))) \<and>
      (\<forall>j. local_index g = Some j \<longrightarrow> j < i)"
    if "refers cert i g" for i g
  proof -
    from that have i: "i < length (mc_declarations cert)"
      and d: "get_at (mc_declarations cert) i = Some (mc_declarations cert ! i)"
      by (auto simp: refers_def get_at_eq_Some)
    with verified have v: "decl_verified sha cert views i" by simp
    then obtain nodes nodes' where deps: "expected_dependencies_for_decl_with_budget sha cert views i
        (dc_decl (mc_declarations cert ! i)) nodes = Inr (dc_dependencies (mc_declarations cert ! i), nodes')"
      by (auto simp: decl_verified_def Let_def)
    note refs = expected_dependencies_refs [OF d deps, of g]
    from refs(1) [OF that] obtain e where e: "e \<in> set (dc_dependencies (mc_declarations cert ! i))"
      "dependency_global_ref e = g" by auto
    from decl_axioms [OF v i] obtain axs self where all: "list_all2 (\<lambda>dep ax. dependency_axioms sha cert views
        (map dc_axiom_dependencies (take i (mc_declarations cert))) (dependency_global_ref dep) = Inr ax)
        (dc_dependencies (mc_declarations cert ! i)) axs"
      and union: "set (dc_axiom_dependencies (mc_declarations cert ! i)) = \<Union> (set ` snd ` set axs) \<union> set self" by blast
    from list_all2_left [OF all e(1)] e(2) union refs(1,3) that i show ?thesis by blast
  qed
  from assms(2) show ?thesis
  proof (induction rule: rests_on.induct)
    case (rests_self i d n)
    then have i: "i < length (mc_declarations cert)" and d: "mc_declarations cert ! i = d"
      by (auto simp: get_at_eq_Some)
    from decl_axioms [OF _ i] verified i rests_self d show ?case by (fastforce simp: self_axioms_def rbind_eq_Inr)
  next
    case (rests_builtin i n ih name)
    with dep [OF rests_builtin(1)] show ?case by (auto simp: dependency_axioms_def Let_def)
  next
    case (rests_imported i k n ih entry m a' a)
    from dep [OF rests_imported(1)] rests_imported(2,3) obtain axs where
      "i < length (mc_declarations cert)" "set axs \<subseteq> set (dc_axiom_dependencies (mc_declarations cert ! i))"
      and "traverse (remap_axiom_ref_from_cert_import sha cert views m) (ee_axiom_dependencies entry) = Inr axs"
      by (auto simp: dependency_axioms_def rbind_eq_Inr)
    with list_all2_left [OF _ rests_imported(4)] rests_imported(5) show ?case
      unfolding traverse_eq_Inr by fastforce
  next
    case (rests_local i g j a)
    from dep [OF rests_local(1)] rests_local(2,4) previous_axioms [of j i "mc_declarations cert"] show ?case
      by (auto simp: dependency_axioms_def local_index_def split: global_ref.splits)
  qed
qed

lemma decl_axioms_sound:
  assumes verified: "\<forall>i < length (mc_declarations cert). decl_verified sha cert views i"
    and "i < length (mc_declarations cert)" and "a \<in> set (dc_axiom_dependencies (mc_declarations cert ! i))"
  shows "rests_on sha cert views i a"
  using assms(2,3)
proof (induction i rule: less_induct)
  case (less i)
  let ?d = "mc_declarations cert ! i"
  from verified less.prems(1) have v: "decl_verified sha cert views i" by simp
  then obtain nodes nodes' where deps: "expected_dependencies_for_decl_with_budget sha cert views i
      (dc_decl ?d) nodes = Inr (dc_dependencies ?d, nodes')" by (auto simp: decl_verified_def Let_def)
  have d: "get_at (mc_declarations cert) i = Some ?d" using less.prems(1) by (simp add: get_at_eq_Some)
  from decl_axioms [OF v less.prems(1)] obtain axs self where all: "list_all2 (\<lambda>dep ax. dependency_axioms sha cert views
      (map dc_axiom_dependencies (take i (mc_declarations cert))) (dependency_global_ref dep) = Inr ax)
      (dc_dependencies ?d) axs"
    and self: "self_axioms cert i (dc_decl ?d) = Inr self"
    and union: "set (dc_axiom_dependencies ?d) = \<Union> (set ` snd ` set axs) \<union> set self" by blast
  from less.prems(2) union consider ax where "ax \<in> set axs" "a \<in> set (snd ax)" | "a \<in> set self" by auto
  then show ?case
  proof cases
    case 1
    from list_all2_right [OF all 1(1)] obtain e where e: "e \<in> set (dc_dependencies ?d)"
      "dependency_axioms sha cert views (map dc_axiom_dependencies (take i (mc_declarations cert)))
         (dependency_global_ref e) = Inr ax" by blast
    note refs = expected_dependencies_refs(2,3) [OF d deps imageI [OF e(1)]]
    show ?thesis
      using less.IH less.prems(1) by (intro dependency_axioms_sound [OF e(2) 1(2) less.prems(1) refs]) auto
  next
    case 2
    with self d show ?thesis
      by (auto simp: self_axioms_def rbind_eq_Inr split: option.splits intro: rests_self)
  qed
qed

text \<open>
  C32: The axiom report of a certificate that passed the check of dependencies and axioms is
  exact: for every declaration it lists the axioms that the declaration rests on and no others,
  and the axioms of the module are those of its declarations. A declaration rests on an axiom if
  it is the axiom, refers to the built-in axiom, refers to an imported declaration that was
  exported with the axiom, or refers to a local declaration that rests on it.
\<close>

theorem axiom_report_exact:
  assumes "verify_dependencies_and_axioms sha cert views = Inr ()"
  shows "(\<forall>i < length (mc_declarations cert).
      set (dar_transitive_axioms (rep_per_declaration (mc_axiom_report cert) ! i)) = {a. rests_on sha cert views i a}) \<and>
    set (rep_module_axioms (mc_axiom_report cert)) = {a. \<exists>i. rests_on sha cert views i a}"
proof -
  note v = verify_dependenciesD [OF assms]
  have axioms: "set (dc_axiom_dependencies (mc_declarations cert ! i)) = {a. rests_on sha cert views i a}"
    if "i < length (mc_declarations cert)" for i
    using decl_axioms_sound [OF v(1)] decl_axioms_complete [OF v(1)] that by blast
  moreover have "dar_transitive_axioms (rep_per_declaration (mc_axiom_report cert) ! i) =
      dc_axiom_dependencies (mc_declarations cert ! i)" if "i < length (mc_declarations cert)" for i
    using v(1) that by (auto simp: decl_verified_def Let_def get_at_eq_Some)
  moreover have "(\<exists>d \<in> set (mc_declarations cert). a \<in> set (dc_axiom_dependencies d)) \<longleftrightarrow>
      (\<exists>i. rests_on sha cert views i a)" for a
    using decl_axioms_sound [OF v(1)] decl_axioms_complete [OF v(1)] by (metis in_set_conv_nth nth_mem)
  moreover have "set (rep_module_axioms (mc_axiom_report cert)) = {a. \<exists>d \<in> set (mc_declarations cert). a \<in> set (dc_axiom_dependencies d)}"
    by (auto simp: v(2))
  ultimately show ?thesis by simp
qed

text \<open>A module with an axiom and a definition that uses it.\<close>

definition sample_axiom :: axiom_ref where
  "sample_axiom = \<lparr>ar_global_ref = GLocal 0, ar_name = 1, ar_decl_interface_hash = sample_hash\<rparr>"

definition axiom_cert :: module_cert where
  "axiom_cert = identity_cert\<lparr>
     mc_name_table := [[''Identity''], [''ax''], [''use'']],
     mc_term_table := [TNSort 0, TNConst (GLocal 0) []],
     mc_declarations := [
       \<lparr>dc_decl = PAxiom 1 [] 0, dc_dependencies = [], dc_axiom_dependencies = [sample_axiom],
        dc_hashes = \<lparr>dh_decl_interface_hash = sample_hash, dh_decl_certificate_hash = sample_hash\<rparr>\<rparr>,
       \<lparr>dc_decl = PDef 2 [] 0 1 CertReducible, dc_dependencies = [DInterface (GLocal 0) sample_hash],
        dc_axiom_dependencies = [sample_axiom],
        dc_hashes = \<lparr>dh_decl_interface_hash = sample_hash, dh_decl_certificate_hash = sample_hash\<rparr>\<rparr>],
     mc_axiom_report := \<lparr>rep_per_declaration = [
         \<lparr>dar_decl_index = 0, dar_direct_axioms = [sample_axiom], dar_transitive_axioms = [sample_axiom]\<rparr>,
         \<lparr>dar_decl_index = 1, dar_direct_axioms = [sample_axiom], dar_transitive_axioms = [sample_axiom]\<rparr>],
       rep_module_axioms = [sample_axiom]\<rparr>\<rparr>"

theorem axiom_report_exact_witness:
  "verify_dependencies_and_axioms sample_digest axiom_cert [] = Inr () \<and>
   rests_on sample_digest axiom_cert [] 1 sample_axiom"
proof
  show run: "verify_dependencies_and_axioms sample_digest axiom_cert [] = Inr ()" by code_simp
  have "dar_transitive_axioms (rep_per_declaration (mc_axiom_report axiom_cert) ! 1) = [sample_axiom]"
    by (simp add: axiom_cert_def)
  moreover have "1 < length (mc_declarations axiom_cert)" by (simp add: axiom_cert_def)
  ultimately have "sample_axiom \<in> {a. rests_on sample_digest axiom_cert [] 1 a}"
    using conjunct1 [OF axiom_report_exact [OF run]] by (metis list.set_intros(1))
  then show "rests_on sample_digest axiom_cert [] 1 sample_axiom" by simp
qed

end
