(* ===== verification/Cert_Charge.thy ===== *)
theory Cert_Charge
  imports Cert_Dependencies
begin

text \<open>
  The budget of the tables of shared expressions (\<^verbatim>\<open>kernel.rs\<close>): what a table is charged, which
  nodes it needs, and when it is built. Charges are 64-bit numbers and an overflow means that no
  table is built. A table only replaces the recursive conversion, and it returns the same answer
  for every term it was built for, so the budget decides nothing about a certificate.
\<close>

section \<open>Charges\<close>

text \<open>A charge that overflows, or a reference out of its table, is \<open>Inl ()\<close>.\<close>

definition checked_add :: "nat \<Rightarrow> nat \<Rightarrow> unit + nat" where
  "checked_add a b = (if a + b \<le> usize_max then Inr (a + b) else Inl ())"

definition checked_mul :: "nat \<Rightarrow> nat \<Rightarrow> unit + nat" where
  "checked_mul a b = (if a * b \<le> usize_max then Inr (a * b) else Inl ())"

definition TERM_MATERIALIZATION_CHARGED_BYTE_LIMIT :: nat where
  "TERM_MATERIALIZATION_CHARGED_BYTE_LIMIT = 268435456"

definition TERM_EXPR_INLINE_CHARGE_BYTES_V1 :: nat where
  "TERM_EXPR_INLINE_CHARGE_BYTES_V1 = 64"

definition TERM_ARC_NODE_METADATA_CHARGE_BYTES_V1 :: nat where
  "TERM_ARC_NODE_METADATA_CHARGE_BYTES_V1 = 64"

definition TERM_OPTION_ARC_SLOT_CHARGE_BYTES_V1 :: nat where
  "TERM_OPTION_ARC_SLOT_CHARGE_BYTES_V1 = 8"

definition TERM_ID_SLOT_CHARGE_BYTES_V1 :: nat where
  "TERM_ID_SLOT_CHARGE_BYTES_V1 = 8"

definition TERM_SELECTION_SLOT_CHARGE_BYTES_V1 :: nat where
  "TERM_SELECTION_SLOT_CHARGE_BYTES_V1 = 1"

definition TERM_LEVEL_NODE_CHARGE_BYTES_V1 :: nat where
  "TERM_LEVEL_NODE_CHARGE_BYTES_V1 = 64"

text \<open>\<^verbatim>\<open>TermMaterializationBudgetV1\<close> is the number of bytes it has admitted.\<close>

type_synonym term_budget = nat

definition budget_fits :: "term_budget \<Rightarrow> nat \<Rightarrow> bool" where
  "budget_fits admitted candidate =
     (case checked_add admitted candidate of
        Inl _ \<Rightarrow> False
      | Inr n \<Rightarrow> n \<le> TERM_MATERIALIZATION_CHARGED_BYTE_LIMIT)"

text \<open>A commit follows a fit of the same budget, so that its addition does not overflow.\<close>

definition budget_commit :: "term_budget \<Rightarrow> nat \<Rightarrow> term_budget" where
  "budget_commit admitted candidate = admitted + candidate"

lemma budget_within_limit: "budget_fits b c \<Longrightarrow> budget_commit b c \<le> TERM_MATERIALIZATION_CHARGED_BYTE_LIMIT"
  by (auto simp: budget_fits_def budget_commit_def checked_add_def split: if_splits)

definition name_owned_bytes :: "cname \<Rightarrow> unit + nat" where
  "name_owned_bytes name =
     rbind (fold_res (\<lambda>component total. checked_add total (length component)) name 0) (\<lambda>bytes.
     checked_add bytes (length name - 1))"

definition name_id_owned_bytes :: "module_cert \<Rightarrow> name_id \<Rightarrow> unit + nat" where
  "name_id_owned_bytes cert name =
     rbind (ok_or () (get_at (mc_name_table cert) (unat name))) name_owned_bytes"

definition global_ref_owned_name_bytes :: "module_cert \<Rightarrow> global_ref \<Rightarrow> unit + nat" where
  "global_ref_owned_name_bytes cert g =
     (case g of
        GBuiltin name _ \<Rightarrow> name_id_owned_bytes cert name
      | GImported _ name _ \<Rightarrow> name_id_owned_bytes cert name
      | GLocalGenerated _ name \<Rightarrow> name_id_owned_bytes cert name
      | GLocal j \<Rightarrow> rbind (ok_or () (get_at (mc_declarations cert) (unat j))) (\<lambda>d.
          name_id_owned_bytes cert (payload_name (dc_decl d))))"

text \<open>A level is charged as the tree it unfolds to.\<close>

partial_function (option) level_owned_charge :: "module_cert \<Rightarrow> level_id \<Rightarrow> (unit + nat) option" where
  "level_owned_charge cert l =
     (case get_at (mc_level_table cert) (unat l) of
        None \<Rightarrow> Some (Inl ())
      | Some node \<Rightarrow>
          (case node of
             LNZero \<Rightarrow> Some (Inr TERM_LEVEL_NODE_CHARGE_BYTES_V1)
           | LNSucc i \<Rightarrow> obind (level_owned_charge cert i) (\<lambda>c.
               Some (checked_add TERM_LEVEL_NODE_CHARGE_BYTES_V1 c))
           | LNMax a b \<Rightarrow> obind (level_owned_charge cert a) (\<lambda>c.
               obind (Some (checked_add TERM_LEVEL_NODE_CHARGE_BYTES_V1 c)) (\<lambda>total.
               obind (level_owned_charge cert b) (\<lambda>d. Some (checked_add total d))))
           | LNIMax a b \<Rightarrow> obind (level_owned_charge cert a) (\<lambda>c.
               obind (Some (checked_add TERM_LEVEL_NODE_CHARGE_BYTES_V1 c)) (\<lambda>total.
               obind (level_owned_charge cert b) (\<lambda>d. Some (checked_add total d))))
           | LNParam name \<Rightarrow> Some (rbind (name_id_owned_bytes cert name)
               (checked_add TERM_LEVEL_NODE_CHARGE_BYTES_V1))))"

declare level_owned_charge.simps [code]

definition charge_all :: "('a \<Rightarrow> (unit + nat) option) \<Rightarrow> 'a list \<Rightarrow> nat \<Rightarrow> (unit + nat) option" where
  "charge_all f xs start = ofold (\<lambda>x total. obind (f x) (\<lambda>c. Some (checked_add total c))) xs start"

text \<open>The contents of a node, which its own charge and the charge of a copy of it have in common.\<close>

definition node_contents_charge :: "module_cert \<Rightarrow> nat \<Rightarrow> term_node \<Rightarrow> (unit + nat) option" where
  "node_contents_charge cert base node =
     (case node of
        TNSort l \<Rightarrow> obind (level_owned_charge cert l) (\<lambda>c. Some (checked_add base c))
      | TNBVar _ \<Rightarrow> Some (Inr base)
      | TNApp _ _ \<Rightarrow> Some (Inr base)
      | TNConst g ls \<Rightarrow>
          obind (Some (rbind (global_ref_owned_name_bytes cert g) (checked_add base)))
            (charge_all (level_owned_charge cert) ls)
      | TNLam _ _ \<Rightarrow> Some (checked_add base 1)
      | TNPi _ _ \<Rightarrow> Some (checked_add base 1))"

definition term_node_owned_charge :: "module_cert \<Rightarrow> term_node \<Rightarrow> (unit + nat) option" where
  "term_node_owned_charge cert node =
     obind (Some (checked_add TERM_EXPR_INLINE_CHARGE_BYTES_V1 TERM_ARC_NODE_METADATA_CHARGE_BYTES_V1)) (\<lambda>total.
     node_contents_charge cert total node)"

definition root_handoff_charge :: "module_cert \<Rightarrow> term_id \<Rightarrow> (unit + nat) option" where
  "root_handoff_charge cert root =
     obind (Some (ok_or () (get_at (mc_term_table cert) (unat root))))
       (node_contents_charge cert TERM_EXPR_INLINE_CHARGE_BYTES_V1)"

definition slot_charges :: "(nat \<times> nat) list \<Rightarrow> unit + nat" where
  "slot_charges slots =
     fold_res (\<lambda>(count, bytes) total. rbind (checked_mul count bytes) (checked_add total)) slots 0"

definition selected_charge :: "module_cert \<Rightarrow> nat \<times> term_node \<Rightarrow> nat \<Rightarrow> (unit + nat) option" where
  "selected_charge cert = (\<lambda>(selected, node) total.
     if selected = 1 then obind (term_node_owned_charge cert node) (\<lambda>c. Some (checked_add total c))
     else if selected \<noteq> 0 then Some (Inl ()) else Some (Inr total))"

definition complete_materialization_charge ::
    "module_cert \<Rightarrow> nat list \<Rightarrow> term_id list \<Rightarrow> nat \<Rightarrow> nat \<Rightarrow> (unit + nat) option" where
  "complete_materialization_charge cert selection root_requests root_capacity stack_capacity =
     (if length selection \<noteq> length (mc_term_table cert) then Some (Inl ())
      else obind (Some (slot_charges
          [(length (mc_term_table cert), TERM_OPTION_ARC_SLOT_CHARGE_BYTES_V1),
           (length selection, TERM_SELECTION_SLOT_CHARGE_BYTES_V1),
           (root_capacity, TERM_ID_SLOT_CHARGE_BYTES_V1), (stack_capacity, TERM_ID_SLOT_CHARGE_BYTES_V1)])) (\<lambda>total.
        obind (ofold (selected_charge cert) (zip selection (mc_term_table cert)) total) (\<lambda>total.
        charge_all (root_handoff_charge cert) root_requests total)))"

definition complete_dense_materialization_charge :: "module_cert \<Rightarrow> term_id list \<Rightarrow> (unit + nat) option" where
  "complete_dense_materialization_charge cert root_requests =
     obind (Some (slot_charges
         [(length (mc_term_table cert), TERM_OPTION_ARC_SLOT_CHARGE_BYTES_V1),
          (length (mc_term_table cert), TERM_SELECTION_SLOT_CHARGE_BYTES_V1),
          (length root_requests, TERM_ID_SLOT_CHARGE_BYTES_V1)])) (\<lambda>total.
     obind (charge_all (term_node_owned_charge cert) (mc_term_table cert) total) (\<lambda>total.
     charge_all (root_handoff_charge cert) root_requests total))"

text \<open>Before the planner of imports allocates anything, every term counts as selected and as a root.\<close>

definition conservative_all_roots_selected_charge :: "module_cert \<Rightarrow> (unit + nat) option" where
  "conservative_all_roots_selected_charge cert =
     (let n = length (mc_term_table cert) in
      obind (Some (slot_charges
         [(n, TERM_OPTION_ARC_SLOT_CHARGE_BYTES_V1), (n, TERM_SELECTION_SLOT_CHARGE_BYTES_V1),
          (n, TERM_ID_SLOT_CHARGE_BYTES_V1), (n, TERM_ID_SLOT_CHARGE_BYTES_V1)])) (\<lambda>total.
      ofold (\<lambda>(i, node) total.
          obind (term_node_owned_charge cert node) (\<lambda>c.
          obind (Some (checked_add total c)) (\<lambda>total.
          obind (root_handoff_charge cert (word_of_nat i)) (\<lambda>c. Some (checked_add total c)))))
        (enumerate 0 (mc_term_table cert)) total))"

section \<open>Selected terms\<close>

definition push_child :: "nat \<Rightarrow> term_id \<Rightarrow> nat list \<times> term_id list \<Rightarrow> materialization_stop + nat list \<times> term_id list" where
  "push_child parent child = (\<lambda>(selection, stack).
     if unat child \<ge> length selection \<or> unat child \<ge> parent then Inl SpeculativeInvariant
     else if selection ! unat child = 0 then Inr (selection[unat child := 1], child # stack)
     else Inr (selection, stack))"

definition push_root :: "term_id \<Rightarrow> nat list \<times> term_id list \<Rightarrow> materialization_stop + nat list \<times> term_id list" where
  "push_root root = (\<lambda>(selection, stack).
     if unat root \<ge> length selection then Inl SpeculativeInvariant
     else if selection ! unat root = 0 then Inr (selection[unat root := 1], root # stack)
     else Inr (selection, stack))"

definition unselected :: "nat list \<Rightarrow> nat" where
  "unselected selection = length (filter (\<lambda>s. s = 0) selection)"

lemma unselected_update:
  assumes "k < length selection" and "selection ! k = 0"
  shows "Suc (unselected (selection[k := 1])) = unselected selection"
proof -
  have split: "selection = take k selection @ selection ! k # drop (Suc k) selection"
    using assms(1) by (rule id_take_nth_drop)
  have "unselected selection = Suc (unselected (take k selection @ 1 # drop (Suc k) selection))"
    using arg_cong [OF split, of unselected] assms(2) by (simp add: unselected_def)
  with assms(1) show ?thesis by (simp add: upd_conv_take_nth_drop)
qed

lemma push_child_measure:
  "push_child parent c (selection, stack) = Inr (selection', stack') \<Longrightarrow>
   2 * unselected selection' + length stack' \<le> 2 * unselected selection + length stack"
  using unselected_update [of "unat c" selection]
  by (auto simp: push_child_def split: if_splits)

lemma push_children_measure:
  "fold_res (push_child parent) cs (selection, stack) = Inr (selection', stack') \<Longrightarrow>
   2 * unselected selection' + length stack' \<le> 2 * unselected selection + length stack"
proof (induction cs arbitrary: selection stack)
  case (Cons c cs)
  then obtain sel st where "push_child parent c (selection, stack) = Inr (sel, st)"
    "fold_res (push_child parent) cs (sel, st) = Inr (selection', stack')" by (auto simp: rbind_eq_Inr)
  with Cons.IH [of sel st] push_child_measure [of parent c selection stack sel st] show ?case by linarith
qed simp

text \<open>
  The loop of \<^verbatim>\<open>mark_selected_term_closure\<close>; the terms in the order in which they are taken from
  the stack are returned with the selection.
\<close>

function mark_loop ::
    "module_cert \<Rightarrow> nat list \<Rightarrow> term_id list \<Rightarrow> materialization_stop + nat list \<times> term_id list" where
  "mark_loop cert selection [] = Inr (selection, [])"
| "mark_loop cert selection (t # stack) =
     rbind (ok_or SpeculativeInvariant (get_at (mc_term_table cert) (unat t))) (\<lambda>node.
     rbind (fold_res (push_child (unat t)) (rev (term_children node)) (selection, stack)) (\<lambda>(selection, stack).
     rbind (mark_loop cert selection stack) (\<lambda>(selection, visited).
     Inr (selection, t # visited))))"
  by pat_completeness auto
termination
proof (relation "measure (\<lambda>(cert, selection, stack). 2 * unselected selection + length stack)", goal_cases)
  case (2 cert selection t stack node pushed selection' stack')
  then show ?case using push_children_measure [of "unat t" "rev (term_children node)" selection stack selection' stack'] by auto
qed simp

definition visit_selected :: "module_cert \<Rightarrow> term_id list \<Rightarrow> materialization_stop + nat list \<times> term_id list" where
  "visit_selected cert roots =
     rbind (fold_res push_root (rev roots) (replicate (length (mc_term_table cert)) 0, [])) (\<lambda>(selection, stack).
     mark_loop cert selection stack)"

definition mark_selected_term_closure :: "module_cert \<Rightarrow> term_id list \<Rightarrow> materialization_stop + nat list" where
  "mark_selected_term_closure cert roots = rbind (visit_selected cert roots) (\<lambda>(selection, visited). Inr selection)"

section \<open>Building tables\<close>

text \<open>
  The sizes of the types of the program on a 64-bit machine, which it also asserts when it is
  compiled. Allocations succeed; one that fails has the effect of a charge that does not fit.
\<close>

definition materialization_layout_supported :: bool where
  "materialization_layout_supported = True"

record selected_term_plan =
  stp_selection :: "nat list"
  stp_charge :: nat

definition capacity :: "(unit + 'a) option \<Rightarrow> (materialization_stop + 'a) option" where
  "capacity r = map_option (map_err (\<lambda>_. Capacity)) r"

definition plan_selected_roots_unadmitted ::
    "module_cert \<Rightarrow> term_id list \<Rightarrow> (materialization_stop + selected_term_plan) option" where
  "plan_selected_roots_unadmitted cert root_requests =
     (if \<not> materialization_layout_supported then Some (Inl Capacity)
      else let roots = sort_dedup (\<lambda>r. r) root_requests in
        obind (Some (map_err (\<lambda>_. SpeculativeInvariant) (mark_selected_term_closure cert roots))) (\<lambda>selection.
        obind (capacity (complete_materialization_charge cert selection root_requests (length root_requests)
          (length (mc_term_table cert)))) (\<lambda>charge.
        Some (Inr \<lparr>stp_selection = selection, stp_charge = charge\<rparr>))))"

definition empty_nodes :: "module_cert \<Rightarrow> expr option list" where
  "empty_nodes cert = replicate (length (mc_term_table cert)) None"

definition build_selected_roots_uncommitted ::
    "module_cert \<Rightarrow> selected_term_plan \<Rightarrow> (materialization_stop + expr option list) option" where
  "build_selected_roots_uncommitted cert plan =
     (if length (stp_selection plan) \<noteq> length (mc_term_table cert) then Some (Inl SpeculativeInvariant)
      else build_forward cert (stp_selection plan) (empty_nodes cert))"

text \<open>The table of the current module has all its terms; the budget is returned with the attempt.\<close>

definition for_current_module ::
    "module_cert \<Rightarrow> term_id list \<Rightarrow> term_budget \<Rightarrow> ((materialization_stop + expr option list) \<times> term_budget) option" where
  "for_current_module cert root_requests budget =
     (if \<not> materialization_layout_supported then Some (Inl Capacity, budget)
      else Option.bind (complete_dense_materialization_charge cert root_requests) (\<lambda>r.
        case r of
          Inl _ \<Rightarrow> Some (Inl Capacity, budget)
        | Inr cost \<Rightarrow>
            if \<not> budget_fits budget cost then Some (Inl Capacity, budget)
            else Option.bind (build_forward cert (replicate (length (mc_term_table cert)) 1) (empty_nodes cert)) (\<lambda>t.
              case t of
                Inl _ \<Rightarrow> Some (Inl SpeculativeInvariant, budget)
              | Inr nodes \<Rightarrow> Some (Inr nodes, budget_commit budget cost))))"

text \<open>
  The table of one export. The budget is not returned, since the caller makes a new one for
  every export; the first check is that of the room for the planning itself.
\<close>

definition for_selected_roots ::
    "module_cert \<Rightarrow> term_id list \<Rightarrow> term_budget \<Rightarrow> (materialization_stop + expr option list) option" where
  "for_selected_roots cert root_requests budget =
     (let n = length (mc_term_table cert) in
      if \<not> materialization_layout_supported then Some (Inl Capacity)
      else obind (capacity (Some (slot_charges [(n, TERM_SELECTION_SLOT_CHARGE_BYTES_V1),
          (n, TERM_ID_SLOT_CHARGE_BYTES_V1), (length root_requests, TERM_ID_SLOT_CHARGE_BYTES_V1)]))) (\<lambda>preliminary.
        if \<not> budget_fits budget preliminary then Some (Inl Capacity)
        else obind (plan_selected_roots_unadmitted cert root_requests) (\<lambda>plan.
          if \<not> budget_fits budget (stp_charge plan) then Some (Inl Capacity)
          else map_option (map_err (\<lambda>_. SpeculativeInvariant))
            (build_forward cert (stp_selection plan) (empty_nodes cert)))))"

definition from_attempt :: "materialization_stop + expr option list \<Rightarrow> term_conversion" where
  "from_attempt attempt = (case attempt of Inl _ \<Rightarrow> Legacy | Inr nodes \<Rightarrow> Materialized nodes)"

definition count_all :: "nat list \<Rightarrow> unit + nat" where
  "count_all counts = fold_res (\<lambda>n total. checked_add total n) counts 0"

definition recursor_count :: "recursor_spec option \<Rightarrow> nat" where
  "recursor_count r = (if r = None then 0 else 1)"

fun decl_payload_term_root_count :: "decl_payload \<Rightarrow> unit + nat" where
  "decl_payload_term_root_count (PAxiom n ups t) = Inr 1"
| "decl_payload_term_root_count (PAxiomConstrained n ups ucs t) = Inr 1"
| "decl_payload_term_root_count (PDef n ups t v r) = Inr 2"
| "decl_payload_term_root_count (PDefConstrained n ups ucs t v r) = Inr 2"
| "decl_payload_term_root_count (PTheorem n ups t p op) = Inr 2"
| "decl_payload_term_root_count (PTheoremConstrained n ups ucs t p op) = Inr 2"
| "decl_payload_term_root_count (PInductive n ups ps is s cs r) =
     count_all [length ps, length is, length cs, recursor_count r]"
| "decl_payload_term_root_count (PInductiveConstrained n ups ucs ps is s cs r) =
     count_all [length ps, length is, length cs, recursor_count r]"
| "decl_payload_term_root_count (PMutualInductiveBlock n ups ucs is) =
     count_all (concat (map (\<lambda>i. [length (mis_params i), length (mis_indices i), length (mis_constructors i),
       recursor_count (mis_recursor i)]) is))"

text \<open>
  The terms that the checks of the current module ask for: those of the generated recursors
  first, then those of all the declarations.
\<close>

fun generated_term_ids :: "decl_payload \<Rightarrow> term_id list" where
  "generated_term_ids (PInductive n ups ps is s cs (Some r)) = inductive_type_ids ps is cs (Some r)"
| "generated_term_ids (PInductiveConstrained n ups ucs ps is s cs (Some r)) = inductive_type_ids ps is cs (Some r)"
| "generated_term_ids (PMutualInductiveBlock n ups ucs is) =
     concat (map (\<lambda>i. inductive_type_ids (mis_params i) (mis_indices i) (mis_constructors i) None) is) @
     concat (map (\<lambda>i. case mis_recursor i of None \<Rightarrow> [] | Some r \<Rightarrow> [rs_ty r]) is)"
| "generated_term_ids _ = []"

fun generated_root_count :: "decl_payload \<Rightarrow> unit + nat" where
  "generated_root_count (PInductive n ups ps is s cs (Some r)) = count_all [length ps, length is, length cs, 1]"
| "generated_root_count (PInductiveConstrained n ups ucs ps is s cs (Some r)) =
     count_all [length ps, length is, length cs, 1]"
| "generated_root_count (PMutualInductiveBlock n ups ucs is) =
     rbind (count_all (concat (map (\<lambda>i. [length (mis_params i), length (mis_indices i), length (mis_constructors i)]) is)))
       (\<lambda>expected. checked_add expected (length (filter (\<lambda>i. mis_recursor i \<noteq> None) is)))"
| "generated_root_count _ = Inr 0"

definition count_decls :: "(decl_payload \<Rightarrow> unit + nat) \<Rightarrow> decl_cert list \<Rightarrow> unit + nat" where
  "count_decls count ds = fold_res (\<lambda>d total. rbind (count (dc_decl d)) (checked_add total)) ds 0"

definition collect_current_module_term_roots :: "module_cert \<Rightarrow> materialization_stop + term_id list" where
  "collect_current_module_term_roots cert =
     (let ds = mc_declarations cert in
      map_err (\<lambda>_. Capacity)
        (rbind (count_decls generated_root_count ds) (\<lambda>generated.
         rbind (count_decls decl_payload_term_root_count ds) (\<lambda>declarations.
         rbind (checked_add generated declarations) (\<lambda>_.
         Inr (concat (map (\<lambda>d. generated_term_ids (dc_decl d)) ds) @
           concat (map (\<lambda>d. decl_term_ids (dc_decl d)) ds)))))))"

definition select_current_term_conversion :: "module_cert \<Rightarrow> term_budget \<Rightarrow> (term_conversion \<times> term_budget) option" where
  "select_current_term_conversion cert budget =
     (case collect_current_module_term_roots cert of
        Inl stop \<Rightarrow> Some (from_attempt (Inl stop), budget)
      | Inr roots \<Rightarrow>
          Option.bind (for_current_module cert roots budget) (\<lambda>(attempt, budget).
          Some (from_attempt attempt, budget)))"

section \<open>A table answers like the recursive conversion\<close>

definition agrees :: "module_cert \<Rightarrow> term_conversion \<Rightarrow> term_id set \<Rightarrow> bool" where
  "agrees cert terms ids \<longleftrightarrow> (\<forall>t \<in> ids. root_expr cert terms t = root_expr cert Legacy t)"

lemma agrees_Legacy [simp]: "agrees cert Legacy ids"
  by (simp add: agrees_def)

lemma agrees_mono: "agrees cert terms ids \<Longrightarrow> ids' \<subseteq> ids \<Longrightarrow> agrees cert terms ids'"
  by (auto simp: agrees_def)

lemma build_loop_filled:
  assumes "build_forward_loop cert selection nodes = Some (Inr nodes')"
  shows "length nodes' = length nodes \<and> (\<forall>i < length nodes. nodes ! i \<noteq> None \<longrightarrow> nodes' ! i \<noteq> None) \<and>
    (\<forall>(i, s) \<in> set selection. s \<noteq> 0 \<longrightarrow> i < length nodes \<longrightarrow> nodes' ! i \<noteq> None)"
  using assms
proof (induction cert selection nodes rule: build_forward_loop.induct)
  case (2 cert index selected rest nodes)
  show ?case
  proof (cases "selected = 0")
    case True
    with 2 show ?thesis by simp
  next
    case False
    with 2(3) obtain node x where "selected = 1" "get_at (mc_term_table cert) index = Some node"
      "materialized_expr_from_node cert nodes node = Some (Inr x)"
      "build_forward_loop cert rest (nodes[index := Some x]) = Some (Inr nodes')"
      by (auto simp: obind_Inr split: if_splits)
    with 2(2) [of x] False have IH: "length nodes' = length nodes"
        "\<forall>i < length nodes. nodes[index := Some x] ! i \<noteq> None \<longrightarrow> nodes' ! i \<noteq> None"
        "\<forall>(i, s) \<in> set rest. s \<noteq> 0 \<longrightarrow> i < length nodes \<longrightarrow> nodes' ! i \<noteq> None" by auto
    have "nodes' ! i \<noteq> None" if "i < length nodes" "nodes ! i \<noteq> None \<or> i = index" for i
      using that IH(2) by (cases "i = index") (auto simp: nth_list_update)
    with IH(1,3) show ?thesis by auto
  qed
qed simp

lemma table_agrees:
  assumes "build_forward cert selection (empty_nodes cert) = Some (Inr nodes)"
    and "\<And>t. t \<in> ids \<Longrightarrow> unat t < length (mc_term_table cert) \<Longrightarrow> selection ! unat t \<noteq> 0"
  shows "agrees cert (Materialized nodes) ids"
  unfolding agrees_def
proof
  fix t
  assume t: "t \<in> ids"
  from assms(1) have run: "length selection = length (mc_term_table cert)"
    "build_forward_loop cert (enumerate 0 selection) (empty_nodes cert) = Some (Inr nodes)"
    by (auto simp: build_forward_def empty_nodes_def split: if_splits)
  from build_loop_filled [OF run(2)] have filled: "length nodes = length (mc_term_table cert)"
      "\<forall>(i, s) \<in> set (enumerate 0 selection). s \<noteq> 0 \<longrightarrow> i < length (mc_term_table cert) \<longrightarrow> nodes ! i \<noteq> None"
    by (auto simp: empty_nodes_def)
  show "root_expr cert (Materialized nodes) t = root_expr cert Legacy t"
  proof (cases "unat t < length (mc_term_table cert)")
    case True
    then have "(unat t, selection ! unat t) \<in> set (enumerate 0 selection)"
      using run(1) by (simp add: in_set_enumerate_eq)
    with filled(2) assms(2) [OF t True] True obtain x where "nodes ! unat t = Some x" by fastforce
    with True filled(1) have x: "root_expr cert (Materialized nodes) t = Some (Inr x)"
      by (simp add: root_expr_def get_at_def)
    with materialization_sound [OF assms(1) [unfolded empty_nodes_def] x] show ?thesis by simp
  next
    case False
    with filled(1) show ?thesis
      by (simp add: root_expr_def get_at_def expr_from_term.simps [of cert t])
  qed
qed

lemma push_root_Inr:
  "push_root r (sel, st) = Inr (sel', st') \<Longrightarrow>
   unat r < length sel \<and> length sel' = length sel \<and> sel' ! unat r \<noteq> 0 \<and> (\<forall>i. sel ! i \<noteq> 0 \<longrightarrow> sel' ! i \<noteq> 0)"
  by (auto simp: push_root_def nth_list_update split: if_splits)

lemma push_roots_selected:
  assumes "fold_res push_root roots (sel, st) = Inr (sel', st')"
  shows "length sel' = length sel \<and> (\<forall>i. sel ! i \<noteq> 0 \<longrightarrow> sel' ! i \<noteq> 0) \<and>
    (\<forall>r \<in> set roots. unat r < length sel \<and> sel' ! unat r \<noteq> 0)"
  using assms
proof (induction roots arbitrary: sel st)
  case (Cons r roots)
  then obtain s1 t1 where "push_root r (sel, st) = Inr (s1, t1)" "fold_res push_root roots (s1, t1) = Inr (sel', st')"
    by (auto simp: rbind_eq_Inr)
  with Cons.IH [of s1 t1] push_root_Inr [of r sel st s1 t1] show ?case by auto
qed simp

lemma push_child_Inr:
  "push_child p c (sel, st) = Inr (sel', st') \<Longrightarrow> length sel' = length sel \<and> (\<forall>i. sel ! i \<noteq> 0 \<longrightarrow> sel' ! i \<noteq> 0)"
  by (auto simp: push_child_def nth_list_update split: if_splits)

lemma push_children_keep:
  assumes "fold_res (push_child p) cs (sel, st) = Inr (sel', st')"
  shows "length sel' = length sel \<and> (\<forall>i. sel ! i \<noteq> 0 \<longrightarrow> sel' ! i \<noteq> 0)"
  using assms
proof (induction cs arbitrary: sel st)
  case (Cons c cs)
  then obtain s1 t1 where "push_child p c (sel, st) = Inr (s1, t1)" "fold_res (push_child p) cs (s1, t1) = Inr (sel', st')"
    by (auto simp: rbind_eq_Inr)
  with Cons.IH [of s1 t1] push_child_Inr [of p c sel st s1 t1] show ?case by auto
qed simp

lemma mark_loop_keeps:
  "mark_loop cert sel st = Inr (sel', visited) \<Longrightarrow> length sel' = length sel \<and> (\<forall>i. sel ! i \<noteq> 0 \<longrightarrow> sel' ! i \<noteq> 0)"
proof (induction cert sel st arbitrary: sel' visited rule: mark_loop.induct)
  case (2 cert selection t stack)
  from 2(2) obtain node s1 t1 v where node: "ok_or SpeculativeInvariant (get_at (mc_term_table cert) (unat t)) = Inr node"
    and push: "fold_res (push_child (unat t)) (rev (term_children node)) (selection, stack) = Inr (s1, t1)"
    and rest: "mark_loop cert s1 t1 = Inr (sel', v)"
    by (auto simp: rbind_eq_Inr split: prod.splits)
  from 2(1) [OF node push refl rest] push_children_keep [OF push] show ?case by auto
qed simp

lemma mark_selected_roots:
  assumes "mark_selected_term_closure cert roots = Inr selection"
  shows "length selection = length (mc_term_table cert) \<and> (\<forall>r \<in> set roots. selection ! unat r \<noteq> 0)"
proof -
  from assms obtain s1 t1 v where
    push: "fold_res push_root (rev roots) (replicate (length (mc_term_table cert)) 0, []) = Inr (s1, t1)"
    and run: "mark_loop cert s1 t1 = Inr (selection, v)"
    by (auto simp: mark_selected_term_closure_def visit_selected_def rbind_eq_Inr split: prod.splits)
  from push_roots_selected [OF push] mark_loop_keeps [OF run] show ?thesis by auto
qed

text \<open>The table of the roots of an imported module, and that of the whole current module.\<close>

lemma selected_table_agrees:
  assumes "plan_selected_roots_unadmitted cert roots = Some (Inr plan)"
    and "build_selected_roots_uncommitted cert plan = Some (Inr nodes)"
  shows "agrees cert (Materialized nodes) (set roots)"
proof -
  from assms(1) have "mark_selected_term_closure cert (sort_dedup (\<lambda>r. r) roots) = Inr (stp_selection plan)"
    by (auto simp: plan_selected_roots_unadmitted_def materialization_layout_supported_def Let_def obind_Inr)
  from mark_selected_roots [OF this] have "selection ! unat r \<noteq> 0"
    if "r \<in> set roots" "selection = stp_selection plan" for r selection using that by simp
  with assms(2) show ?thesis
    by (auto simp: build_selected_roots_uncommitted_def split: if_splits intro: table_agrees)
qed

lemma current_conversion_agrees:
  assumes "select_current_term_conversion cert budget = Some (terms, budget')"
  shows "agrees cert terms UNIV"
proof -
  have "agrees cert (Materialized nodes) UNIV"
    if "build_forward cert (replicate (length (mc_term_table cert)) 1) (empty_nodes cert) = Some (Inr nodes)" for nodes
    using that by (rule table_agrees) simp
  note dense = this
  have "agrees cert (from_attempt attempt) UNIV" if run: "for_current_module cert roots budget = Some (attempt, budget')" for attempt roots
  proof (cases attempt)
    case (Inr nodes)
    with run obtain cost where cost: "complete_dense_materialization_charge cert roots = Some (Inr cost)"
      by (cases "complete_dense_materialization_charge cert roots"; cases "the (complete_dense_materialization_charge cert roots)")
        (auto simp: for_current_module_def materialization_layout_supported_def)
    with run Inr have "build_forward cert (replicate (length (mc_term_table cert)) 1) (empty_nodes cert) = Some (Inr nodes)"
      by (cases "build_forward cert (replicate (length (mc_term_table cert)) 1) (empty_nodes cert)";
          cases "the (build_forward cert (replicate (length (mc_term_table cert)) 1) (empty_nodes cert))")
        (auto simp: for_current_module_def materialization_layout_supported_def split: if_splits)
    with dense Inr show ?thesis by (simp add: from_attempt_def)
  qed (simp add: from_attempt_def)
  with assms show ?thesis
    by (cases "collect_current_module_term_roots cert")
      (auto simp: select_current_term_conversion_def bind_eq_Some_conv, simp add: from_attempt_def)
qed

section \<open>Conversions that agree give the same declarations\<close>

lemma otraverse_cong: "(\<And>x. x \<in> set xs \<Longrightarrow> f x = g x) \<Longrightarrow> otraverse f xs = otraverse g xs"
  by (induction xs) (auto intro: obind_cong)

lemma binders_agree:
  "agrees cert terms (bt_ty ` set bs) \<Longrightarrow>
   otraverse (binder_from cert terms f) (enumerate k bs) = otraverse (binder_from cert Legacy f) (enumerate k bs)"
  by (rule otraverse_cong) (auto simp: agrees_def binder_from_def in_set_enumerate_eq)

lemma constructors_agree:
  "agrees cert terms (cs_ty ` set cs) \<Longrightarrow>
   otraverse (constructor_from cert terms e) cs = otraverse (constructor_from cert Legacy e) cs"
  by (rule otraverse_cong) (simp add: agrees_def constructor_from_def)

lemma recursor_agrees:
  "agrees cert terms (case r of None \<Rightarrow> {} | Some r \<Rightarrow> {rs_ty r}) \<Longrightarrow>
   recursor_from cert terms r = recursor_from cert Legacy r"
  by (cases r) (simp_all add: recursor_from_def agrees_def)

lemma inductive_ids_agree:
  assumes "agrees cert terms (set (inductive_type_ids ps is cs r))"
  shows "agrees cert terms (bt_ty ` set ps)" "agrees cert terms (bt_ty ` set is)" "agrees cert terms (cs_ty ` set cs)"
    "agrees cert terms (case r of None \<Rightarrow> {} | Some r \<Rightarrow> {rs_ty r})"
  using assms by (auto simp: inductive_type_ids_def agrees_def split: option.splits)

lemma inductive_from_agrees:
  assumes "agrees cert terms (set (inductive_type_ids ps is cs r))"
  shows "inductive_from cert terms p n ups ps is s cs r = inductive_from cert Legacy p n ups ps is s cs r"
  unfolding inductive_from_def Let_def
  by (simp only: binders_agree constructors_agree recursor_agrees inductive_ids_agree [OF assms])

lemma mutual_from_agrees:
  assumes "agrees cert terms (set (inductive_type_ids (mis_params i) (mis_indices i) (mis_constructors i) (mis_recursor i)))"
  shows "mutual_inductive_from cert terms ups i = mutual_inductive_from cert Legacy ups i"
  unfolding mutual_inductive_from_def
  by (simp only: binders_agree constructors_agree recursor_agrees inductive_ids_agree [OF assms])

lemma payload_agrees:
  assumes "agrees cert terms (set (decl_term_ids p))"
  shows "decl_payload_to_kernel_decl_with_terms cert terms p = decl_payload_to_kernel_decl_with_terms cert Legacy p"
proof (cases p)
  case (PMutualInductiveBlock n ups ucs "is")
  with assms have "agrees cert terms (set (inductive_type_ids (mis_params i) (mis_indices i) (mis_constructors i) (mis_recursor i)))"
    if "i \<in> set is" for i using that by (auto simp: agrees_def)
  then have "otraverse (mutual_inductive_from cert terms ups) is = otraverse (mutual_inductive_from cert Legacy ups) is"
    by (intro otraverse_cong mutual_from_agrees)
  with PMutualInductiveBlock show ?thesis by (simp add: decl_payload_to_kernel_decl_with_terms_def)
next
  case (PInductive n ups ps "is" s cs r)
  with assms inductive_from_agrees [of cert terms ps "is" cs r p] show ?thesis
    by (simp add: decl_payload_to_kernel_decl_with_terms_def)
next
  case (PInductiveConstrained n ups ucs ps "is" s cs r)
  with assms inductive_from_agrees [of cert terms ps "is" cs r p] show ?thesis
    by (simp add: decl_payload_to_kernel_decl_with_terms_def)
qed (use assms in \<open>simp_all add: decl_payload_to_kernel_decl_with_terms_def agrees_def\<close>)

lemma export_decl_agrees:
  assumes "collect_export_entry_roots m entry = Inr roots" and "agrees m terms (set roots)"
  shows "certificate_import_export_entry_to_kernel_decl_with_terms m terms entry =
    certificate_import_export_entry_to_kernel_decl_with_terms m Legacy entry"
proof -
  consider "ee_kind entry \<in> {EKAxiom, EKTheorem}" | "ee_kind entry = EKDef"
    | "ee_kind entry \<notin> {EKAxiom, EKTheorem, EKDef}" by auto
  then show ?thesis
  proof cases
    case 3
    with assms obtain i d where d: "source_decl_index_for_export_entry m entry = Inr i"
      "get_at (mc_declarations m) i = Some d" "agrees m terms (set (decl_term_ids (dc_decl d)))"
      by (auto simp: collect_export_entry_roots_def rbind_eq_Inr)
    with 3 payload_agrees [OF d(3)] show ?thesis
      by (simp add: certificate_import_export_entry_to_kernel_decl_with_terms_def)
  qed (use assms in \<open>auto simp: certificate_import_export_entry_to_kernel_decl_with_terms_def agrees_def
      collect_export_entry_roots_def rbind_eq_Inr intro!: obind_cong split: if_splits cert_reducibility.splits\<close>)
qed

text \<open>What \<^verbatim>\<open>certificate_import_export_entry_to_kernel_decl\<close> does with its table.\<close>

lemma export_table_agrees:
  assumes "collect_export_entry_roots m entry = Inr roots" and "for_selected_roots m roots budget = Some attempt"
  shows "certificate_import_export_entry_to_kernel_decl_with_terms m (from_attempt attempt) entry =
    certificate_import_export_entry_to_kernel_decl m entry"
proof -
  have "agrees m (from_attempt attempt) (set roots)"
  proof (cases attempt)
    case (Inr nodes)
    with assms(2) obtain plan where plan: "plan_selected_roots_unadmitted m roots = Some (Inr plan)"
      and build: "build_forward m (stp_selection plan) (empty_nodes m) = Some (Inr nodes)"
      by (auto simp: for_selected_roots_def Let_def obind_Inr split: if_splits)
    then have "build_selected_roots_uncommitted m plan = Some (Inr nodes)"
      by (auto simp: build_selected_roots_uncommitted_def build_forward_def empty_nodes_def split: if_splits)
    with plan Inr show ?thesis by (auto simp: from_attempt_def intro: selected_table_agrees)
  qed (simp add: from_attempt_def)
  from export_decl_agrees [OF assms(1) this] assms(1) show ?thesis
    by (simp add: certificate_import_export_entry_to_kernel_decl_def)
qed

lemma artifacts_agree:
  assumes "agrees cert terms UNIV"
  shows "verify_inductive_generated_artifacts cert terms = verify_inductive_generated_artifacts cert Legacy"
proof -
  have R: "root_expr cert terms = root_expr cert Legacy" using assms by (auto simp: agrees_def)
  have B: "binder_from cert terms = binder_from cert Legacy" "constructor_from cert terms = constructor_from cert Legacy"
    by (intro ext; simp add: binder_from_def constructor_from_def R)+
  have M: "mutual_base_from cert terms = mutual_base_from cert Legacy"
    "compare_mutual_recursor cert terms = compare_mutual_recursor cert Legacy"
    by (intro ext; simp only: mutual_base_from_def compare_mutual_recursor_def R B)+
  have N: "verifier_expected_minor_type_expr cert terms = verifier_expected_minor_type_expr cert Legacy"
    by (intro ext) (simp only: verifier_expected_minor_type_expr_def R)
  have "verify_recursor cert terms = verify_recursor cert Legacy"
    by (intro ext) (simp only: verify_recursor_def expected_recursor_type_expr_def R N)
  moreover have "verify_mutual_inductive_generated_artifacts cert terms = verify_mutual_inductive_generated_artifacts cert Legacy"
    by (intro ext) (simp only: verify_mutual_inductive_generated_artifacts_def M)
  ultimately have "verify_decl_artifacts cert terms = verify_decl_artifacts cert Legacy"
    by (intro ext) (simp only: verify_decl_artifacts_def)
  then show ?thesis by (simp only: verify_inductive_generated_artifacts_def)
qed

lemma declarations_agree:
  assumes "agrees cert terms UNIV"
  shows "add_certificate_declarations cert terms ds E = add_certificate_declarations cert Legacy ds E"
proof -
  have "decl_payload_to_kernel_decl_with_terms cert terms p = decl_payload_to_kernel_decl_with_terms cert Legacy p" for p
    by (rule payload_agrees [OF agrees_mono [OF assms subset_UNIV]])
  then show ?thesis by (induction ds arbitrary: E) (simp_all cong: obind_cong)
qed

section \<open>Charges and tables are computed\<close>

lemma level_charge_result:
  assumes "level_from_node cert l = Some r"
  shows "\<exists>c. level_owned_charge cert l = Some c \<and> (\<forall>e. r = Inl e \<longrightarrow> c = Inl ())"
proof (rule level_from_node.raw_induct
    [where P = "\<lambda>cert l r. \<exists>c. level_owned_charge cert l = Some c \<and> (\<forall>e. r = Inl e \<longrightarrow> c = Inl ())", OF _ assms])
  fix f cert and l :: level_id and r
  assume IH: "\<And>cert l r. f cert l = Some r \<Longrightarrow> \<exists>c. level_owned_charge cert l = Some c \<and> (\<forall>e. r = Inl e \<longrightarrow> c = Inl ())"
    and body: "(case get_at (mc_level_table cert) (unat l) of
        None \<Rightarrow> Some (Inl DecodeError)
      | Some n \<Rightarrow>
          (case n of
             LNZero \<Rightarrow> Some (Inr LZero)
           | LNSucc i \<Rightarrow> obind (f cert i) (\<lambda>a. Some (Inr (LSucc a)))
           | LNMax l r \<Rightarrow> obind (f cert l) (\<lambda>a. obind (f cert r) (\<lambda>b. Some (Inr (LMax a b))))
           | LNIMax l r \<Rightarrow> obind (f cert l) (\<lambda>a. obind (f cert r) (\<lambda>b. Some (Inr (LIMax a b))))
           | LNParam name \<Rightarrow> Some (rbind (name_to_string cert name) (\<lambda>s. Inr (LParam s))))) = Some r"
  have sub: "f cert i = Some s \<Longrightarrow> (\<exists>e c. s = Inl e \<and> level_owned_charge cert i = Some (Inl ())) \<or>
      (\<exists>a c. s = Inr a \<and> level_owned_charge cert i = Some c)" for i s
    using IH [of cert i s] by (cases s) auto
  have pair: "\<exists>c. obind (level_owned_charge cert a) (\<lambda>c. obind (Some (checked_add TERM_LEVEL_NODE_CHARGE_BYTES_V1 c))
        (\<lambda>n. obind (level_owned_charge cert b) (\<lambda>d. Some (checked_add n d)))) = Some c \<and> (\<forall>e. r = Inl e \<longrightarrow> c = Inl ())"
    if "obind (f cert a) (\<lambda>x. obind (f cert b) (\<lambda>y. Some (Inr (g x y)))) = Some r" for a b and g :: "level \<Rightarrow> level \<Rightarrow> level"
  proof (cases "f cert a")
    case (Some s)
    with that sub [OF Some] sub [of b] show ?thesis
      by (cases "f cert b") (auto simp: obind_def checked_add_def split: sum.splits if_splits)
  qed (use that in simp)
  show "\<exists>c. level_owned_charge cert l = Some c \<and> (\<forall>e. r = Inl e \<longrightarrow> c = Inl ())"
  proof (cases "get_at (mc_level_table cert) (unat l)")
    case None
    then show ?thesis by (simp add: level_owned_charge.simps [of cert l])
  next
    case (Some n)
    show ?thesis
    proof (cases n)
      case (LNSucc i)
      with body Some obtain s where "f cert i = Some s" "obind (Some s) (\<lambda>a. Some (Inr (LSucc a))) = Some r"
        by (cases "f cert i") auto
      with sub [of i s] Some LNSucc show ?thesis
        by (auto simp: level_owned_charge.simps [of cert l] obind_def split: sum.splits)
    next
      case (LNMax a b)
      with body Some pair [of a b LMax] show ?thesis by (simp add: level_owned_charge.simps [of cert l])
    next
      case (LNIMax a b)
      with body Some pair [of a b LIMax] show ?thesis by (simp add: level_owned_charge.simps [of cert l])
    next
      case (LNParam name)
      with body Some show ?thesis
        by (auto simp: level_owned_charge.simps [of cert l] name_to_string_def name_id_owned_bytes_def
            rbind_eq_Inl ok_or_def split: option.splits)
    qed (use body Some in \<open>auto simp: level_owned_charge.simps [of cert l]\<close>)
  qed
qed

lemma level_charge_returns: "tables_resolve cert \<Longrightarrow> returns (level_owned_charge cert l)"
  using level_charge_result [of cert l] unfolding tables_resolve_def returns_def by (metis not_None_eq)

lemma charge_all_returns: "(\<And>x. returns (f x)) \<Longrightarrow> returns (charge_all f xs k)"
  unfolding charge_all_def by (intro ofold_returns obind_returns) simp_all

lemma contents_charge_returns: "tables_resolve cert \<Longrightarrow> returns (node_contents_charge cert k node)"
  unfolding node_contents_charge_def
  by (cases node) (auto intro!: obind_returns charge_all_returns level_charge_returns)

lemma node_charges_return:
  assumes "tables_resolve cert"
  shows "returns (term_node_owned_charge cert node)" and "returns (root_handoff_charge cert root)"
  unfolding term_node_owned_charge_def root_handoff_charge_def
  by (intro obind_returns contents_charge_returns assms; simp)+

lemma table_charges_return:
  assumes "tables_resolve cert"
  shows "returns (complete_materialization_charge cert selection roots k n)"
    and "returns (complete_dense_materialization_charge cert roots)"
    and "returns (conservative_all_roots_selected_charge cert)"
proof -
  have sel: "returns (selected_charge cert p t)" for p t
    unfolding selected_charge_def by (cases p) (auto intro!: obind_returns node_charges_return assms)
  show "returns (complete_materialization_charge cert selection roots k n)"
    unfolding complete_materialization_charge_def
    by (auto intro!: obind_returns ofold_returns charge_all_returns node_charges_return sel assms)
  show "returns (complete_dense_materialization_charge cert roots)"
    unfolding complete_dense_materialization_charge_def
    by (auto intro!: obind_returns charge_all_returns node_charges_return assms)
  show "returns (conservative_all_roots_selected_charge cert)"
    unfolding conservative_all_roots_selected_charge_def Let_def
    by (auto intro!: obind_returns ofold_returns node_charges_return assms)
qed

lemma speculative_returns: "returns r \<Longrightarrow> returns (speculative r)"
  by (auto simp: returns_def speculative_def)

lemma levels_return: "tables_resolve cert \<Longrightarrow> returns (levels_from_nodes cert ls)"
  by (induction ls) (auto intro!: obind_returns simp: tables_resolve_def)

lemma build_loop_returns: "tables_resolve cert \<Longrightarrow> returns (build_forward_loop cert selection nodes)"
proof (induction cert selection nodes rule: build_forward_loop.induct)
  case (2 cert index selected rest nodes)
  from 2(3) have "returns (level_from_node cert l)" for l by (simp add: tables_resolve_def)
  then have "returns (materialized_expr_from_node cert nodes node)" for node
    unfolding materialized_expr_from_node_def
    by (cases node) (auto intro!: obind_returns speculative_returns levels_return 2(3))
  with 2 show ?case by (auto intro!: obind_returns)
qed simp

lemma build_forward_returns: "tables_resolve cert \<Longrightarrow> returns (build_forward cert selection nodes)"
  by (simp add: build_forward_def build_loop_returns)

lemma current_conversion_returns:
  assumes "tables_resolve cert"
  shows "returns (select_current_term_conversion cert budget)"
proof -
  have "returns (for_current_module cert roots budget)" for roots
    using table_charges_return(2) [OF assms, of roots]
      build_forward_returns [OF assms, of "replicate (length (mc_term_table cert)) 1" "empty_nodes cert"]
    by (cases "the (complete_dense_materialization_charge cert roots)";
        cases "the (build_forward cert (replicate (length (mc_term_table cert)) 1) (empty_nodes cert))")
      (auto simp: for_current_module_def returns_def)
  note current = this
  show ?thesis
  proof (cases "collect_current_module_term_roots cert")
    case (Inr roots)
    from current [of roots] obtain r where "for_current_module cert roots budget = Some r" by (auto simp: returns_def)
    with Inr show ?thesis by (simp add: select_current_term_conversion_def split: prod.splits)
  qed (simp add: select_current_term_conversion_def)
qed

end
