(* ===== verification/Cert_Planner.thy ===== *)
theory Cert_Planner
  imports Cert_Charge
begin

text \<open>
  The planned lane of the import loader (\<^verbatim>\<open>PlannedImportLoader\<close> in \<^verbatim>\<open>verify.rs\<close>): before it touches
  the environment it lists the actions that the recursive loader would take, plans one table of
  shared expressions per imported module, and replays the actions if the tables fit the budget.
  Any problem before the replay sends the verifier to the recursive loader. The replay gives the
  environment of the recursive loader, or an error that the recursive loader need not give: a
  module of which no loaded declaration has a term gets no table.
\<close>

section \<open>The budget of the planner\<close>

definition TERM_PLANNER_RECORD_CHARGE_BYTES_V1 :: nat where
  "TERM_PLANNER_RECORD_CHARGE_BYTES_V1 = 256"

definition TERM_PLANNER_NAME_COMPONENT_CHARGE_BYTES_V1 :: nat where
  "TERM_PLANNER_NAME_COMPONENT_CHARGE_BYTES_V1 = 32"

definition planner_name_charge :: "cname \<Rightarrow> unit + nat" where
  "planner_name_charge name =
     rbind (checked_mul (length name) TERM_PLANNER_NAME_COMPONENT_CHARGE_BYTES_V1)
       (fold_res (\<lambda>component t. checked_add t (length component)) name)"

definition checked_planner_records :: "nat \<Rightarrow> unit + nat" where
  "checked_planner_records count = checked_mul count TERM_PLANNER_RECORD_CHARGE_BYTES_V1"

definition exported_decl :: "module_cert \<Rightarrow> export_entry \<Rightarrow> decl_payload cresult" where
  "exported_decl m entry =
     rbind (source_decl_index_for_export_entry m entry) (\<lambda>i.
     rbind (ok_or DecodeError (get_at (mc_declarations m) i)) (\<lambda>d. Inr (dc_decl d)))"

definition imported_module_root_capacity :: "module_cert \<Rightarrow> unit + nat" where
  "imported_module_root_capacity m =
     fold_res (\<lambda>entry t.
       rbind (if ee_kind entry \<in> {EKAxiom, EKTheorem} then Inr 1
              else if ee_kind entry = EKDef then Inr 2
              else rbind (map_err (\<lambda>_. ()) (exported_decl m entry)) decl_payload_term_root_count)
         (checked_add t)) (mc_export_block m) 0"

definition dependency_count :: "decl_cert list \<Rightarrow> unit + nat" where
  "dependency_count ds = count_all (map (\<lambda>d. length (dc_dependencies d)) ds)"

record planner_totals =
  pt_action_capacity :: nat
  pt_records :: nat
  pt_tables :: nat
  pt_retained_names :: nat
  pt_largest_name :: nat

definition add_counts :: "nat \<Rightarrow> nat list \<Rightarrow> unit + nat" where
  "add_counts start counts = fold_res (\<lambda>n t. checked_add t n) counts start"

definition preflight_module :: "module_cert \<Rightarrow> planner_totals \<Rightarrow> (unit + planner_totals) option" where
  "preflight_module m s =
     obind (Some (planner_name_charge (hdr_module (mc_header m)))) (\<lambda>name_charge.
     obind (Some (checked_add (pt_retained_names s) name_charge)) (\<lambda>retained.
     obind (Some (dependency_count (mc_declarations m))) (\<lambda>dependencies.
     obind (Some (imported_module_root_capacity m)) (\<lambda>roots.
     let declarations = length (mc_declarations m); terms = length (mc_term_table m) in
     obind (Some (add_counts (pt_action_capacity s) [dependencies, declarations])) (\<lambda>actions.
     obind (Some (add_counts (pt_records s) [declarations, roots, dependencies, terms, terms, terms])) (\<lambda>records.
     obind (conservative_all_roots_selected_charge m) (\<lambda>table_bound.
     obind (Some (checked_add (pt_tables s) table_bound)) (\<lambda>tables.
     Some (Inr \<lparr>pt_action_capacity = actions, pt_records = records, pt_tables = tables,
       pt_retained_names = retained, pt_largest_name = max (pt_largest_name s) name_charge\<rparr>)))))))))"

text \<open>\<^verbatim>\<open>imported_planner_preflight\<close>: the number of actions there may be, if a bound of the charge fits.\<close>

definition imported_planner_preflight ::
    "decl_cert list \<Rightarrow> module_cert list \<Rightarrow> term_budget \<Rightarrow> (materialization_stop + nat) option" where
  "imported_planner_preflight declarations views budget = capacity (
     obind (Some (dependency_count declarations)) (\<lambda>top.
     obind (ofold preflight_module views \<lparr>pt_action_capacity = top, pt_records = length views, pt_tables = 0,
       pt_retained_names = 0, pt_largest_name = 0\<rparr>) (\<lambda>s.
     obind (Some (add_counts (pt_records s) [pt_action_capacity s, top])) (\<lambda>records.
     obind (Some (checked_planner_records records)) (\<lambda>planner_charge.
     obind (Some (add_counts planner_charge [pt_tables s, pt_retained_names s])) (\<lambda>bytes.
     obind (Some (checked_mul (pt_action_capacity s) (pt_largest_name s))) (\<lambda>names.
     obind (Some (checked_add bytes names)) (\<lambda>conservative.
     Some (if budget_fits budget conservative then Inr (pt_action_capacity s) else Inl ())))))))))"

section \<open>Planning\<close>

type_synonym module_identity = "cname \<times> hash \<times> hash"

definition exact_imported_module_identity :: "module_cert \<Rightarrow> module_identity" where
  "exact_imported_module_identity m =
     (hdr_module (mc_header m), mh_export_hash (mc_hashes m), mh_certificate_hash (mc_hashes m))"

datatype imported_builtin_owner = OwnerCurrent | OwnerImported nat module_identity

record export_entry_identity =
  xi_module_slot :: nat
  xi_export_index :: nat
  xi_source_decl_index :: nat

datatype imported_load_action =
    LoadBuiltin imported_builtin_owner name_id hash
  | LoadDeclaration imported_decl_key export_entry_identity

text \<open>
  The state of the loader: the declarations whose state is \<open>2\<close>, by slot and index, the roots of
  all the modules, each with its slot, and the actions. The declarations whose state is \<open>1\<close> are
  those of the calls under way, and an argument.
\<close>

record planner =
  pl_planned :: "(nat \<times> nat) list"
  pl_roots :: "(nat \<times> term_id) list"
  pl_actions :: "imported_load_action list"

fun dedup_by_identity :: "module_cert list \<Rightarrow> module_cert list" where
  "dedup_by_identity (a # b # ms) =
     (if exact_imported_module_identity a = exact_imported_module_identity b then dedup_by_identity (a # ms)
      else a # dedup_by_identity (b # ms))"
| "dedup_by_identity ms = ms"

text \<open>\<^verbatim>\<open>PlannedImportLoader::new\<close>: the modules in the slots.\<close>

definition planner_slots :: "module_cert list \<Rightarrow> materialization_stop + module_cert list" where
  "planner_slots views =
     (let slots = dedup_by_identity (sort_key exact_imported_module_identity views) in
      rbind (check_all (\<lambda>m. guard_res (\<not> is_ok (imported_module_root_capacity m)) SpeculativeInvariant) slots) (\<lambda>_.
      Inr slots))"

definition module_slot :: "module_cert list \<Rightarrow> module_cert \<Rightarrow> materialization_stop + nat" where
  "module_slot slots m =
     ok_or SpeculativeInvariant
       (position (\<lambda>s. exact_imported_module_identity s = exact_imported_module_identity m) slots)"

definition speculate :: "cert_error + 'a \<Rightarrow> materialization_stop + 'a" where
  "speculate r = map_err (\<lambda>_. SpeculativeInvariant) r"

definition generated_kind :: "export_entry \<Rightarrow> bool" where
  "generated_kind entry \<longleftrightarrow> ee_kind entry \<in> {EKInductive, EKConstructor, EKRecursor}"

definition term_refs :: "module_cert \<Rightarrow> term_id list \<Rightarrow> global_ref list" where
  "term_refs m ids =
     concat (map (\<lambda>t. case get_at (mc_term_table m) (unat t) of Some (TNConst g _) \<Rightarrow> [g] | _ \<Rightarrow> []) ids)"

definition collect_imported_kernel_refs_for_export_planned ::
    "module_cert \<Rightarrow> export_entry \<Rightarrow> materialization_stop + global_ref list" where
  "collect_imported_kernel_refs_for_export_planned m entry =
     rbind (if generated_kind entry
            then rbind (speculate (exported_decl m entry)) (\<lambda>d.
              rbind (map_err (\<lambda>_. Capacity) (decl_payload_term_root_count d)) (\<lambda>_. Inr (decl_term_ids d)))
            else Inr (ee_ty entry # (case ee_body entry of None \<Rightarrow> [] | Some b \<Rightarrow> [b]))) (\<lambda>roots.
     rbind (visit_selected m roots) (\<lambda>(selection, visited).
     let refs = sort_dedup global_ref_order_key (term_refs m visited) in
     if generated_kind entry
     then rbind (speculate (source_decl_index_for_export_entry m entry)) (\<lambda>i.
       Inr (filter (\<lambda>g. case g of GLocal j \<Rightarrow> unat j \<noteq> i | GLocalGenerated j _ \<Rightarrow> unat j \<noteq> i | _ \<Rightarrow> True) refs))
     else Inr refs))"

definition append_action :: "nat \<Rightarrow> imported_load_action \<Rightarrow> planner \<Rightarrow> materialization_stop + planner" where
  "append_action action_capacity action st =
     (if length (pl_actions st) = action_capacity then Inl Capacity
      else Inr (st\<lparr>pl_actions := pl_actions st @ [action]\<rparr>))"

definition slot_roots :: "planner \<Rightarrow> nat \<Rightarrow> term_id list" where
  "slot_roots st slot = map snd (filter (\<lambda>r. fst r = slot) (pl_roots st))"

definition export_entry_root_count :: "module_cert \<Rightarrow> export_entry \<Rightarrow> materialization_stop + nat" where
  "export_entry_root_count m entry =
     (if ee_kind entry \<in> {EKAxiom, EKTheorem} then Inr 1
      else if ee_kind entry = EKDef then Inr (if ee_reducibility entry = Some CertReducible then 2 else 1)
      else rbind (speculate (exported_decl m entry)) (\<lambda>d. map_err (\<lambda>_. Capacity) (decl_payload_term_root_count d)))"

definition append_export_entry_roots_planned ::
    "module_cert list \<Rightarrow> module_cert \<Rightarrow> export_entry \<Rightarrow> nat \<Rightarrow> planner \<Rightarrow> materialization_stop + planner" where
  "append_export_entry_roots_planned slots m entry slot st =
     rbind (export_entry_root_count m entry) (\<lambda>root_count.
     rbind (map_err (\<lambda>_. SpeculativeInvariant) (imported_module_root_capacity (slots ! slot))) (\<lambda>root_capacity.
     if root_capacity - length (slot_roots st slot) < root_count then Inl Capacity
     else rbind (speculate (collect_export_entry_roots m entry)) (\<lambda>roots.
       Inr (st\<lparr>pl_roots := pl_roots st @ map (Pair slot) roots\<rparr>))))"

definition slot_keys :: "module_cert list \<Rightarrow> (nat \<times> nat) set" where
  "slot_keys slots = {(s, i). s < length slots \<and> i < length (mc_declarations (slots ! s))}"

lemma finite_slot_keys: "finite (slot_keys slots)"
proof -
  have "slot_keys slots = (\<Union>s < length slots. Pair s ` {..<length (mc_declarations (slots ! s))})"
    by (auto simp: slot_keys_def)
  then show ?thesis by simp
qed

lemma module_slot_Inr:
  "module_slot slots m = Inr s \<Longrightarrow>
   s < length slots \<and> exact_imported_module_identity (slots ! s) = exact_imported_module_identity m"
  by (auto simp: module_slot_def ok_or_def dest: position_Some split: option.splits)

lemma plan_measure:
  assumes "module_slot slots m = Inr s" and "i < length (mc_declarations (slots ! s))" and "(s, i) \<notin> set loading"
  shows "card (slot_keys slots - insert (s, i) (set loading)) < card (slot_keys slots - set loading)"
proof (rule psubset_card_mono)
  from module_slot_Inr [OF assms(1)] assms(2) have "(s, i) \<in> slot_keys slots" by (simp add: slot_keys_def)
  with assms(3) show "slot_keys slots - insert (s, i) (set loading) \<subset> slot_keys slots - set loading" by blast
qed (simp add: finite_slot_keys)

text \<open>
  An entry is found by its address in the export block, hence as the first one that is equal to
  it: it came from a search from the start of that block.
\<close>

function plan_module_export_entry ::
    "module_cert list \<Rightarrow> module_cert list \<Rightarrow> nat \<Rightarrow> (nat \<times> nat) list \<Rightarrow> module_cert \<Rightarrow> export_entry \<Rightarrow> planner \<Rightarrow>
     materialization_stop + planner" where
  "plan_module_export_entry views slots action_capacity loading m entry st =
     rbind (module_slot slots m) (\<lambda>slot.
     rbind (speculate (source_decl_index_for_export_entry m entry)) (\<lambda>i.
     if i \<ge> length (mc_declarations (slots ! slot)) then Inl SpeculativeInvariant
     else if (slot, i) \<in> set (pl_planned st) then Inr st
     else if (slot, i) \<in> set loading then Inl SpeculativeInvariant
     else
       rbind (collect_imported_kernel_refs_for_export_planned m entry) (\<lambda>refs.
       rbind (fold_res (\<lambda>g st.
           case g of
             GBuiltin name ih \<Rightarrow>
               append_action action_capacity
                 (LoadBuiltin (OwnerImported slot (exact_imported_module_identity (slots ! slot))) name ih) st
           | _ \<Rightarrow>
               rbind (speculate (referenced_export views m g)) (\<lambda>(m', e).
               plan_module_export_entry views slots action_capacity ((slot, i) # loading) m' e st)) refs st) (\<lambda>st.
       rbind (ok_or SpeculativeInvariant (position (\<lambda>candidate. candidate = entry) (mc_export_block m))) (\<lambda>export_index.
       rbind (speculate (source_decl_index_for_export_entry m (mc_export_block m ! export_index))) (\<lambda>source_index.
       if source_index \<noteq> i then Inl SpeculativeInvariant
       else
         rbind (append_export_entry_roots_planned slots m entry slot st) (\<lambda>st.
         rbind (append_action action_capacity (LoadDeclaration (decl_key m i)
           \<lparr>xi_module_slot = slot, xi_export_index = export_index, xi_source_decl_index = i\<rparr>) st) (\<lambda>st.
         Inr (st\<lparr>pl_planned := (slot, i) # pl_planned st\<rparr>)))))))))"
  by pat_completeness auto
termination
  by (relation "measure (\<lambda>(views, slots, action_capacity, loading, m, entry, st). card (slot_keys slots - set loading))")
    (auto intro: plan_measure)

declare plan_module_export_entry.simps [simp del]

definition plan_top_level ::
    "module_cert list \<Rightarrow> module_cert list \<Rightarrow> nat \<Rightarrow> decl_cert list \<Rightarrow> cname list \<Rightarrow> materialization_stop + planner" where
  "plan_top_level views slots action_capacity declarations names =
     rbind (map_err (\<lambda>_. Capacity) (dependency_count declarations)) (\<lambda>_.
     let refs = sort_dedup global_ref_order_key
       (concat (map (\<lambda>d. map dependency_global_ref (dc_dependencies d)) declarations)) in
     fold_res (\<lambda>g st.
       case g of
         GBuiltin name ih \<Rightarrow> append_action action_capacity (LoadBuiltin OwnerCurrent name ih) st
       | GImported import_index name ih \<Rightarrow>
           rbind (ok_or SpeculativeInvariant (get_at views (unat import_index))) (\<lambda>m.
           rbind (speculate (imported_export_entry_for_global_ref names views g)) (\<lambda>entry.
           plan_module_export_entry views slots action_capacity [] m entry st))
       | _ \<Rightarrow> Inr st) refs \<lparr>pl_planned = [], pl_roots = [], pl_actions = []\<rparr>)"

section \<open>Tables and replay\<close>

definition action_name :: "imported_load_action \<Rightarrow> cname option" where
  "action_name action =
     (case action of
        LoadBuiltin (OwnerImported _ identity) _ _ \<Rightarrow> Some (fst identity)
      | LoadBuiltin OwnerCurrent _ _ \<Rightarrow> None
      | LoadDeclaration key _ \<Rightarrow> Some (fst key))"

definition charge_names :: "cname list \<Rightarrow> nat \<Rightarrow> unit + nat" where
  "charge_names names start = fold_res (\<lambda>n t. rbind (planner_name_charge n) (checked_add t)) names start"

definition retained_planner_charge :: "module_cert list \<Rightarrow> nat \<Rightarrow> planner \<Rightarrow> unit + nat" where
  "retained_planner_charge slots action_capacity st =
     rbind (add_counts 1 [length slots, length slots, action_capacity]) (\<lambda>records.
     rbind (fold_res (\<lambda>m t.
         rbind (checked_add t (length (mc_declarations m))) (\<lambda>t.
         rbind (imported_module_root_capacity m) (checked_add t))) slots records) (\<lambda>records.
     rbind (checked_planner_records records) (\<lambda>bytes.
     rbind (charge_names (map (\<lambda>m. hdr_module (mc_header m)) slots) bytes) (\<lambda>bytes.
     charge_names (List.map_filter action_name (pl_actions st)) bytes))))"

definition plan_table ::
    "planner \<Rightarrow> nat \<times> module_cert \<Rightarrow> nat \<times> selected_term_plan option list \<Rightarrow>
     (materialization_stop + nat \<times> selected_term_plan option list) option" where
  "plan_table st = (\<lambda>(slot, m) (aggregate, plans).
     if slot_roots st slot = [] then Some (Inr (aggregate, plans @ [None]))
     else obind (plan_selected_roots_unadmitted m (slot_roots st slot)) (\<lambda>plan.
       obind (capacity (Some (checked_add aggregate (stp_charge plan)))) (\<lambda>aggregate.
       Some (Inr (aggregate, plans @ [Some plan])))))"

definition plan_tables ::
    "module_cert list \<Rightarrow> nat \<Rightarrow> planner \<Rightarrow> (materialization_stop + nat \<times> selected_term_plan option list) option" where
  "plan_tables slots action_capacity st =
     obind (capacity (Some (retained_planner_charge slots action_capacity st))) (\<lambda>aggregate.
     ofold (plan_table st) (enumerate 0 slots) (aggregate, []))"

definition build_table ::
    "module_cert \<times> selected_term_plan option \<Rightarrow> (materialization_stop + term_conversion option) option" where
  "build_table = (\<lambda>(m, plan).
     case plan of
       None \<Rightarrow> Some (Inr None)
     | Some plan \<Rightarrow> obind (build_selected_roots_uncommitted m plan) (\<lambda>nodes. Some (Inr (Some (Materialized nodes)))))"

definition replay_action ::
    "digest \<Rightarrow> cname list \<Rightarrow> module_cert list \<Rightarrow> term_conversion option list \<Rightarrow> imported_load_action \<Rightarrow> env \<Rightarrow>
     (cert_error + env) option" where
  "replay_action sha names slots conversions action E =
     (case action of
        LoadBuiltin owner name ih \<Rightarrow>
          (case owner of
             OwnerCurrent \<Rightarrow> Some (add_builtin_ref_to_env sha names name ih E)
           | OwnerImported slot identity \<Rightarrow>
               obind (Some (ok_or DecodeError (get_at slots slot))) (\<lambda>m.
               if exact_imported_module_identity m \<noteq> identity then Some (Inl DecodeError)
               else Some (add_builtin_ref_to_env sha (mc_name_table m) name ih E)))
      | LoadDeclaration key export \<Rightarrow>
          obind (Some (ok_or DecodeError (get_at slots (xi_module_slot export)))) (\<lambda>m.
          if decl_key m (xi_source_decl_index export) \<noteq> key then Some (Inl DecodeError)
          else obind (Some (ok_or DecodeError (get_at (mc_export_block m) (xi_export_index export)))) (\<lambda>entry.
          obind (Some (source_decl_index_for_export_entry m entry)) (\<lambda>i.
          if i \<noteq> xi_source_decl_index export then Some (Inl DecodeError)
          else obind (Some (ok_or DecodeError
            (Option.bind (get_at conversions (xi_module_slot export)) (\<lambda>c. c)))) (\<lambda>terms.
          obind (certificate_import_export_entry_to_kernel_decl_with_terms m terms entry) (\<lambda>d.
          Some (add_imported_decl_to_env sha d E)))))))"

definition replay ::
    "digest \<Rightarrow> cname list \<Rightarrow> module_cert list \<Rightarrow> term_conversion option list \<Rightarrow> imported_load_action list \<Rightarrow> env \<Rightarrow>
     (cert_error + env) option" where
  "replay sha names slots conversions actions = ofold (replay_action sha names slots conversions) actions"

text \<open>
  \<^verbatim>\<open>materialize_and_replay_planned_imports\<close>. The outer sum is the attempt, the inner one the result
  of the replay. The budget, which nothing reads afterwards, is not returned.
\<close>

definition materialize_and_replay_planned_imports ::
    "digest \<Rightarrow> cname list \<Rightarrow> module_cert list \<Rightarrow> nat \<Rightarrow> planner \<Rightarrow> term_budget \<Rightarrow> env \<Rightarrow>
     (materialization_stop + (cert_error + env)) option" where
  "materialize_and_replay_planned_imports sha names slots action_capacity st budget E =
     obind (plan_tables slots action_capacity st) (\<lambda>(aggregate, plans).
     if \<not> budget_fits budget aggregate then Some (Inl Capacity)
     else obind (otraverse build_table (zip slots plans)) (\<lambda>conversions.
       map_option Inr (replay sha names slots conversions (pl_actions st) E)))"

definition add_referenced_imports_to_env_planned ::
    "digest \<Rightarrow> decl_cert list \<Rightarrow> cname list \<Rightarrow> module_cert list \<Rightarrow> term_budget \<Rightarrow> env \<Rightarrow>
     (materialization_stop + (cert_error + env)) option" where
  "add_referenced_imports_to_env_planned sha declarations names views budget E =
     obind (imported_planner_preflight declarations views budget) (\<lambda>action_capacity.
     obind (Some (planner_slots views)) (\<lambda>slots.
     obind (Some (plan_top_level views slots action_capacity declarations names)) (\<lambda>st.
     materialize_and_replay_planned_imports sha names slots action_capacity st budget E)))"

definition add_referenced_imports_to_env ::
    "digest \<Rightarrow> module_cert \<Rightarrow> module_cert list \<Rightarrow> term_budget \<Rightarrow> env \<Rightarrow> (cert_error + env) option" where
  "add_referenced_imports_to_env sha cert views budget E =
     Option.bind (add_referenced_imports_to_env_planned sha (mc_declarations cert) (mc_name_table cert) views budget E)
       (\<lambda>attempt. case attempt of
          Inr r \<Rightarrow> Some r
        | Inl _ \<Rightarrow> add_referenced_imports_to_env_legacy sha cert views E)"

section \<open>The references of an export\<close>

lemma remdups_adj_strict: "sorted (xs :: 'a::linorder list) \<Longrightarrow> sorted_wrt (<) (remdups_adj xs)"
  by (induction xs rule: remdups_adj.induct) auto

lemma strict_sort_dedup:
  assumes "inj_on key (set zs)"
  shows "sorted_wrt (<) (map key (sort_dedup key zs))"
proof -
  have "inj_on key (set us) \<Longrightarrow> map key (remdups_adj us) = remdups_adj (map key us)" for us
    by (induction us rule: remdups_adj.induct) (auto dest: inj_onD)
  from this [of "sort_key key zs"] assms have "map key (sort_dedup key zs) = remdups_adj (map key (sort_key key zs))"
    by (simp add: sort_dedup_def)
  then show ?thesis by (simp add: remdups_adj_strict)
qed

lemma sort_dedup_strict:
  assumes "sorted_wrt (<) (map key xs)"
  shows "sort_dedup key xs = xs"
proof -
  from assms have "sorted (map key xs)" "distinct (map key xs)" by (auto simp: strict_sorted_iff)
  then show ?thesis
    by (simp add: sort_dedup_def sorted_sort_id remdups_adj_distinct distinct_map sort_key_id_if_sorted)
qed

lemma strictly_sorted_key_unique:
  assumes "inj key" and "set xs = set ys"
  shows "sort_dedup key xs = sort_dedup key ys"
proof -
  note strict = strict_sort_dedup [OF inj_on_subset [OF assms(1) subset_UNIV]]
  have "set (map key (sort_dedup key xs)) = set (map key (sort_dedup key ys))" using assms(2) by simp
  with strict [of xs] strict [of ys] have "map key (sort_dedup key xs) = map key (sort_dedup key ys)"
    by (metis strict_sorted_equal)
  with assms(1) show ?thesis by (simp add: inj_map_eq_map)
qed

lemma filtered_sort_dedup:
  assumes "inj key" and "set xs = set ys"
  shows "sort_dedup key (filter P xs) = filter P (sort_dedup key ys)"
proof -
  have "sort_dedup key (filter P xs) = sort_dedup key (filter P (sort_dedup key ys))"
    using assms(2) by (intro strictly_sorted_key_unique assms(1)) simp
  moreover have "sorted_wrt (<) (map key (filter P (sort_dedup key ys)))"
    using strict_sort_dedup [OF inj_on_subset [OF assms(1) subset_UNIV], of ys] by (simp add: sorted_wrt_map sorted_wrt_filter)
  then have "sort_dedup key (filter P (sort_dedup key ys)) = filter P (sort_dedup key ys)"
    by (rule sort_dedup_strict)
  ultimately show ?thesis by simp
qed

lemma global_ref_key_inj: "inj global_ref_order_key"
proof (rule injI)
  fix g h :: global_ref
  assume "global_ref_order_key g = global_ref_order_key h"
  then show "g = h"
    using usize.same_prefix usize.same_prefix [where r = "[]" and s = "[]"]
    by (cases g; cases h) (auto simp: encode_order_uvar_eq)
qed

lemma mentions_closed:
  assumes "\<And>t. t \<in> set ids \<Longrightarrow> \<exists>node. get_at terms (unat t) = Some node \<and> set (term_children node) \<subseteq> set ids"
    and "mentions terms t g" and "t \<in> set ids"
  shows "\<exists>t ls. t \<in> set ids \<and> get_at terms (unat t) = Some (TNConst g ls)"
  using assms(2,3)
proof (induction rule: mentions.induct)
  case (mentions_child t node c g)
  with assms(1) [of t] show ?case by auto
qed blast

definition closed_ids :: "term_node list \<Rightarrow> term_id set \<Rightarrow> bool" where
  "closed_ids terms S \<longleftrightarrow> (\<forall>t \<in> S. \<exists>node. get_at terms (unat t) = Some node \<and> set (term_children node) \<subseteq> S)"

lemma reachable_refs_closed:
  assumes "closed_ids terms S" and "set pending \<subseteq> S" and "set visited \<subseteq> S"
    and "\<forall>v \<in> set visited. \<forall>node. get_at terms (unat v) = Some node \<longrightarrow> set (term_children node) \<subseteq> set visited \<union> set pending"
  shows "\<exists>refs. reachable_global_refs terms pending visited = Inr refs \<and>
    {g. \<exists>t \<in> set visited. \<exists>ls. get_at terms (unat t) = Some (TNConst g ls)} \<union> set refs =
    {g. \<exists>t \<in> set visited \<union> set pending. mentions terms t g}"
  using assms
proof (induction terms pending visited rule: reachable_global_refs.induct)
  case (1 terms visited)
  have "\<exists>node. get_at terms (unat t) = Some node \<and> set (term_children node) \<subseteq> set visited" if "t \<in> set visited" for t
  proof -
    from that 1(1,3) obtain node where "get_at terms (unat t) = Some node" unfolding closed_ids_def by blast
    with that 1(4) show ?thesis by simp
  qed
  from mentions_closed [OF this]
  have "\<exists>t ls. t \<in> set visited \<and> get_at terms (unat t) = Some (TNConst g ls)" if "t \<in> set visited" "mentions terms t g" for t g
    using that by blast
  then have "{g. \<exists>t \<in> set visited. \<exists>ls. get_at terms (unat t) = Some (TNConst g ls)} =
      {g. \<exists>t \<in> set visited. mentions terms t g}" by (blast intro: mentions_const)
  then show ?case by simp
next
  case (2 terms t pending visited)
  show ?case
  proof (cases "t \<in> set visited")
    case True
    with 2(1) [OF True] 2(3-6) show ?thesis by (auto simp: insert_absorb)
  next
    case False
    from 2(3,4) obtain node where node: "get_at terms (unat t) = Some node" "set (term_children node) \<subseteq> S"
      by (auto simp: closed_ids_def)
    have "\<exists>refs. reachable_global_refs terms (term_children node @ pending) (t # visited) = Inr refs \<and>
        {g. \<exists>s \<in> set (t # visited). \<exists>ls. get_at terms (unat s) = Some (TNConst g ls)} \<union> set refs =
        {g. \<exists>s \<in> set (t # visited) \<union> set (term_children node @ pending). mentions terms s g}"
      by (rule 2(2) [OF False node(1) 2(3)]) (use 2(4-6) node in auto)
    then obtain refs where refs: "reachable_global_refs terms (term_children node @ pending) (t # visited) = Inr refs"
      and set: "{g. \<exists>s \<in> set (t # visited). \<exists>ls. get_at terms (unat s) = Some (TNConst g ls)} \<union> set refs =
        {g. \<exists>s \<in> set (t # visited) \<union> set (term_children node @ pending). mentions terms s g}" by blast
    have "{g. \<exists>s \<in> set (t # visited) \<union> set (term_children node @ pending). mentions terms s g} =
        {g. \<exists>s \<in> set visited \<union> set (t # pending). mentions terms s g}"
      using node(1) by (auto intro: mentions_child)
    moreover have "set (case node of TNConst g _ \<Rightarrow> [g] | _ \<Rightarrow> []) = {g. \<exists>ls. get_at terms (unat t) = Some (TNConst g ls)}"
      using node(1) by (cases node) auto
    ultimately show ?thesis using False node(1) refs set by auto
  qed
qed

lemma collect_refs_closed:
  assumes "closed_ids terms S" and "set ids \<subseteq> S"
  shows "\<exists>refs. collect_global_refs terms ids = Inr refs \<and> set refs = {g. \<exists>t \<in> set ids. mentions terms t g}"
  using assms(2)
proof (induction ids)
  case (Cons t ids)
  from Cons.prems assms(1) have "unat t < length terms" by (auto simp: closed_ids_def get_at_eq_Some)
  with reachable_refs_closed [OF assms(1), of "[t]" "[]"] Cons show ?case
    by (auto simp: collect_global_refs_def collect_global_refs_from_term_table_def rbind_eq_Inr)
qed (simp add: collect_global_refs_def)

definition selected_ids :: "nat list \<Rightarrow> term_id set" where
  "selected_ids sel = {t. unat t < length sel \<and> sel ! unat t \<noteq> 0}"

lemma selected_update: "unat c < length sel \<Longrightarrow> selected_ids (sel[unat c := 1]) = insert c (selected_ids sel)"
  by (auto simp: selected_ids_def nth_list_update dest: word_unat_eq_iff [THEN iffD2])

lemma selected_update_Suc: "unat c < length sel \<Longrightarrow> selected_ids (sel[unat c := Suc 0]) = insert c (selected_ids sel)"
  using selected_update by simp

definition pushes :: "(term_id \<Rightarrow> nat list \<times> term_id list \<Rightarrow> materialization_stop + nat list \<times> term_id list) \<Rightarrow> bool" where
  "pushes push \<longleftrightarrow> (\<forall>c sel st sel' st'. push c (sel, st) = Inr (sel', st') \<longrightarrow>
     selected_ids sel' = insert c (selected_ids sel) \<and> set st \<subseteq> set st' \<and> set st' \<subseteq> insert c (set st) \<and>
     selected_ids sel' \<subseteq> selected_ids sel \<union> set st')"

lemma push_child_sets: "pushes (push_child p)"
  unfolding pushes_def
  by (auto simp: push_child_def selected_update_Suc insert_absorb not_le split: if_splits) (auto simp: selected_ids_def)

lemma push_root_sets: "pushes push_root"
  unfolding pushes_def
  by (auto simp: push_root_def selected_update_Suc insert_absorb not_le split: if_splits) (auto simp: selected_ids_def)

text \<open>A loop of pushes, of the roots or of the children of a term.\<close>

lemma push_all_sets:
  assumes "pushes push" and "fold_res push cs (sel, st) = Inr (sel', st')"
  shows "selected_ids sel' = selected_ids sel \<union> set cs \<and> set st \<subseteq> set st' \<and> set st' \<subseteq> set st \<union> set cs \<and>
    selected_ids sel' \<subseteq> selected_ids sel \<union> set st'"
  using assms(2)
proof (induction cs arbitrary: sel st)
  case (Cons c cs)
  then obtain s1 t1 where p: "push c (sel, st) = Inr (s1, t1)" "fold_res push cs (s1, t1) = Inr (sel', st')"
    by (auto simp: rbind_eq_Inr)
  note one = assms(1) [unfolded pushes_def, rule_format, OF p(1)] and rest = Cons.IH [OF p(2)]
  from one rest have "selected_ids sel' \<subseteq> selected_ids sel \<union> set st'" by blast
  with one rest show ?case by (simp add: Un_commute insert_commute) blast
qed simp

lemma mark_loop_sets:
  "mark_loop cert sel st = Inr (sel', visited) \<Longrightarrow>
   set st \<subseteq> set visited \<and> selected_ids sel \<subseteq> selected_ids sel' \<and> selected_ids sel' \<subseteq> selected_ids sel \<union> set visited \<and>
   (\<forall>v \<in> set visited. \<exists>node. get_at (mc_term_table cert) (unat v) = Some node \<and> set (term_children node) \<subseteq> selected_ids sel') \<and>
   (\<forall>v \<in> set visited. \<forall>g. mentions (mc_term_table cert) v g \<longrightarrow> (\<exists>t \<in> set st. mentions (mc_term_table cert) t g))"
proof (induction cert sel st arbitrary: sel' visited rule: mark_loop.induct)
  case (2 cert sel t st)
  from 2(2) obtain node s1 t1 v where n: "ok_or SpeculativeInvariant (get_at (mc_term_table cert) (unat t)) = Inr node"
    and push: "fold_res (push_child (unat t)) (rev (term_children node)) (sel, st) = Inr (s1, t1)"
    and rest: "mark_loop cert s1 t1 = Inr (sel', v)" and visited: "visited = t # v"
    by (auto simp: rbind_eq_Inr split: prod.splits)
  from n have node: "get_at (mc_term_table cert) (unat t) = Some node" by simp
  have p: "selected_ids s1 = selected_ids sel \<union> set (term_children node)" "set st \<subseteq> set t1"
    "set t1 \<subseteq> set st \<union> set (term_children node)" "selected_ids s1 \<subseteq> selected_ids sel \<union> set t1"
    using push_all_sets [OF push_child_sets push] by auto
  note IH = 2(1) [OF n push refl rest]
  have "\<exists>s \<in> set (t # st). mentions (mc_term_table cert) s g" if m: "mentions (mc_term_table cert) w g" "w \<in> set v" for w g
  proof -
    from IH m obtain s where "s \<in> set t1" "mentions (mc_term_table cert) s g" by blast
    with p node show ?thesis by (auto intro: mentions_child)
  qed
  with p IH visited node show ?case by auto
qed simp

lemma visit_selected_closed:
  assumes "visit_selected m roots = Inr (sel, visited)"
  shows "set roots \<subseteq> set visited" and "closed_ids (mc_term_table m) (set visited)"
    and "set (term_refs m visited) = {g. \<exists>t \<in> set roots. mentions (mc_term_table m) t g}"
proof -
  let ?T = "mc_term_table m"
  from assms obtain s1 t1 where push: "fold_res push_root (rev roots) (replicate (length ?T) 0, []) = Inr (s1, t1)"
    and run: "mark_loop m s1 t1 = Inr (sel, visited)"
    by (auto simp: visit_selected_def rbind_eq_Inr split: prod.splits)
  have "selected_ids (replicate (length ?T) 0) = {}" by (auto simp: selected_ids_def)
  with push_all_sets [OF push_root_sets push] have p: "selected_ids s1 = set roots" "set t1 = set roots" by auto
  note v = mark_loop_sets [OF run, unfolded p]
  from v show roots: "set roots \<subseteq> set visited" by blast
  with v have "selected_ids sel \<subseteq> set visited" by blast
  with v show closed: "closed_ids ?T (set visited)" by (fastforce simp: closed_ids_def)
  have "set (case get_at ?T (unat t) of Some (TNConst g _) \<Rightarrow> [g] | _ \<Rightarrow> []) = {g. \<exists>ls. get_at ?T (unat t) = Some (TNConst g ls)}" for t :: term_id
    by (auto split: option.splits term_node.splits) (metis)+
  then have refs: "set (term_refs m visited) = {g. \<exists>t \<in> set visited. \<exists>ls. get_at ?T (unat t) = Some (TNConst g ls)}"
    unfolding term_refs_def set_concat set_map image_image by (simp only: UN_iff) blast
  have "\<exists>t ls. t \<in> set visited \<and> get_at ?T (unat t) = Some (TNConst g ls)" if "t \<in> set roots" "mentions ?T t g" for t g
    using that roots closed by (intro mentions_closed) (auto simp: closed_ids_def)
  then have "{g. \<exists>t \<in> set roots. mentions ?T t g} \<subseteq> set (term_refs m visited)" unfolding refs by blast
  moreover have "\<exists>t \<in> set roots. mentions ?T t g" if "g \<in> set (term_refs m visited)" for g
    using that v unfolding refs by (blast intro: mentions_const)
  ultimately show "set (term_refs m visited) = {g. \<exists>t \<in> set roots. mentions ?T t g}" by blast
qed

text \<open>The planner collects the references that the recursive loader collects, in the same order.\<close>

lemma planned_refs:
  assumes "collect_imported_kernel_refs_for_export_planned m entry = Inr refs"
  shows "collect_imported_kernel_refs_for_export m entry = Inr refs"
proof (cases "generated_kind entry")
  case True
  with assms obtain i d sel visited where d: "source_decl_index_for_export_entry m entry = Inr i"
      "get_at (mc_declarations m) i = Some d"
    and visit: "visit_selected m (decl_term_ids (dc_decl d)) = Inr (sel, visited)"
    and refs: "refs = filter (\<lambda>g. case g of GLocal j \<Rightarrow> unat j \<noteq> i | GLocalGenerated j _ \<Rightarrow> unat j \<noteq> i | _ \<Rightarrow> True)
      (sort_dedup global_ref_order_key (term_refs m visited))" (is "_ = filter ?keep _")
    by (auto simp: collect_imported_kernel_refs_for_export_planned_def exported_decl_def speculate_def
        rbind_eq_Inr Let_def split: prod.splits)
  note v = visit_selected_closed [OF visit]
  from collect_refs_closed [OF v(2,1)] obtain all where all:
    "collect_global_refs (mc_term_table m) (decl_term_ids (dc_decl d)) = Inr all" "set all = set (term_refs m visited)"
    using v(3) by auto
  have "sort_dedup global_ref_order_key (filter ?keep all) = filter ?keep (sort_dedup global_ref_order_key (term_refs m visited))"
    using all(2) by (rule filtered_sort_dedup [OF global_ref_key_inj])
  with True d all(1) refs show ?thesis
    by (simp add: collect_imported_kernel_refs_for_export_def generated_kind_def)
next
  case False
  with assms obtain sel visited where
    visit: "visit_selected m (ee_ty entry # (case ee_body entry of None \<Rightarrow> [] | Some b \<Rightarrow> [b])) = Inr (sel, visited)"
    and refs: "refs = sort_dedup global_ref_order_key (term_refs m visited)"
    by (auto simp: collect_imported_kernel_refs_for_export_planned_def rbind_eq_Inr Let_def split: prod.splits)
  note v = visit_selected_closed [OF visit]
  from collect_refs_closed [OF v(2,1)] obtain all where all:
    "collect_global_refs (mc_term_table m) (ee_ty entry # (case ee_body entry of None \<Rightarrow> [] | Some b \<Rightarrow> [b])) = Inr all"
    "set all = set (term_refs m visited)" using v(3) by auto
  with strictly_sorted_key_unique [OF global_ref_key_inj all(2)] False refs show ?thesis
    by (simp add: collect_imported_kernel_refs_for_export_def generated_kind_def)
qed

section \<open>The replay simulates the recursive loader\<close>

lemma ofold_append: "ofold f (xs @ ys) s = obind (ofold f xs s) (ofold f ys)"
  by (induction xs arbitrary: s) (auto simp: obind_def split: option.splits sum.splits bind_splits)

text \<open>
  Modules are known by their names and certificate hashes. Two modules with the same name and
  the same certificate hash would be a collision of the hash function.
\<close>

definition unambiguous :: "module_cert list \<Rightarrow> bool" where
  "unambiguous views \<longleftrightarrow> inj_on (\<lambda>m. (hdr_module (mc_header m), mh_certificate_hash (mc_hashes m))) (set views)"

definition slots_of :: "module_cert list \<Rightarrow> module_cert list \<Rightarrow> bool" where
  "slots_of views slots \<longleftrightarrow> unambiguous views \<and> distinct slots \<and> set slots = set views"

definition slot_key :: "module_cert list \<Rightarrow> nat \<times> nat \<Rightarrow> imported_decl_key" where
  "slot_key slots = (\<lambda>(s, i). decl_key (slots ! s) i)"

lemma slot_module:
  assumes "slots_of views slots" and "module_slot slots m = Inr s" and "m \<in> set views"
  shows "s < length slots \<and> slots ! s = m"
proof -
  from module_slot_Inr [OF assms(2)] have s: "s < length slots"
    "exact_imported_module_identity (slots ! s) = exact_imported_module_identity m" by auto
  with assms(1) have "slots ! s \<in> set views" using nth_mem slots_of_def by blast
  with s assms show ?thesis
    by (auto simp: slots_of_def unambiguous_def exact_imported_module_identity_def dest: inj_onD)
qed

lemma slot_key_inj:
  assumes "slots_of views slots" and "fst a < length slots" and "fst b < length slots"
  shows "slot_key slots a = slot_key slots b \<longleftrightarrow> a = b"
proof
  assume eq: "slot_key slots a = slot_key slots b"
  from assms have "slots ! fst a \<in> set views" "slots ! fst b \<in> set views" using nth_mem slots_of_def by blast+
  with eq assms(1) have "slots ! fst a = slots ! fst b"
    by (auto simp: slots_of_def unambiguous_def slot_key_def decl_key_def dest: inj_onD split: prod.splits)
  with assms have "fst a = fst b" by (simp add: slots_of_def nth_eq_iff_index_eq)
  with eq show "a = b" by (auto simp: slot_key_def decl_key_def prod_eq_iff split: prod.splits)
qed simp

definition valid_slots :: "module_cert list \<Rightarrow> (nat \<times> nat) list \<Rightarrow> bool" where
  "valid_slots slots keys \<longleftrightarrow> (\<forall>k \<in> set keys. fst k < length slots)"

lemma planned_key:
  assumes "slots_of views slots" and "valid_slots slots keys" and "s < length slots"
  shows "decl_key (slots ! s) i \<in> set (map (slot_key slots) keys) \<longleftrightarrow> (s, i) \<in> set keys"
proof -
  have "decl_key (slots ! s) i = slot_key slots (s, i)" by (simp add: slot_key_def)
  moreover have "slot_key slots (s, i) = slot_key slots k \<longleftrightarrow> (s, i) = k" if "k \<in> set keys" for k
    using that assms by (intro slot_key_inj) (auto simp: valid_slots_def)
  ultimately show ?thesis by (auto simp: image_iff)
qed

text \<open>A table per planned module, which answers for the roots that were planned.\<close>

definition conversion_for :: "term_conversion option list \<Rightarrow> nat \<Rightarrow> term_conversion option" where
  "conversion_for conversions s = Option.bind (get_at conversions s) (\<lambda>c. c)"

definition conversions_agree :: "module_cert list \<Rightarrow> term_conversion option list \<Rightarrow> planner \<Rightarrow> bool" where
  "conversions_agree slots conversions st \<longleftrightarrow>
     (\<forall>k \<in> set (pl_planned st). \<forall>terms. conversion_for conversions (fst k) = Some terms \<longrightarrow>
        agrees (slots ! fst k) terms (set (slot_roots st (fst k))))"

definition conversions_present :: "term_conversion option list \<Rightarrow> planner \<Rightarrow> bool" where
  "conversions_present conversions st \<longleftrightarrow> (\<forall>k \<in> set (pl_planned st). conversion_for conversions (fst k) \<noteq> None)"

definition rooted :: "planner \<Rightarrow> bool" where
  "rooted st \<longleftrightarrow> (\<forall>k \<in> set (pl_planned st). slot_roots st (fst k) \<noteq> [])"

definition declarations_have_terms :: "module_cert list \<Rightarrow> bool" where
  "declarations_have_terms ms \<longleftrightarrow> list_all (\<lambda>m. list_all (\<lambda>d. decl_term_ids (dc_decl d) \<noteq> []) (mc_declarations m)) ms"

definition plan_grows :: "planner \<Rightarrow> planner \<Rightarrow> bool" where
  "plan_grows st st' \<longleftrightarrow> set (pl_planned st) \<subseteq> set (pl_planned st') \<and> set (pl_roots st) \<subseteq> set (pl_roots st')"

lemma plan_grows_trans: "plan_grows a b \<Longrightarrow> plan_grows b c \<Longrightarrow> plan_grows a c"
  by (auto simp: plan_grows_def)

lemma slot_roots_grow: "plan_grows st st' \<Longrightarrow> set (slot_roots st s) \<subseteq> set (slot_roots st' s)"
  by (auto simp: plan_grows_def slot_roots_def)

lemma conversions_agree_earlier: "plan_grows st st' \<Longrightarrow> conversions_agree slots cs st' \<Longrightarrow> conversions_agree slots cs st"
  unfolding conversions_agree_def using slot_roots_grow [of st st'] by (meson agrees_mono plan_grows_def subsetD)

lemma conversions_present_earlier: "plan_grows st st' \<Longrightarrow> conversions_present cs st' \<Longrightarrow> conversions_present cs st"
  by (auto simp: conversions_present_def plan_grows_def)

text \<open>
  A piece of planning from \<open>st\<close> to \<open>st'\<close> simulates the piece \<open>load\<close> of the recursive loader: with
  tables that agree, replaying the new actions gives what \<open>load\<close> gives, or the error of a module
  that has no table.
\<close>

definition simulates ::
    "digest \<Rightarrow> cname list \<Rightarrow> module_cert list \<Rightarrow> term_conversion option list \<Rightarrow> planner \<Rightarrow> planner \<Rightarrow>
     (loader_state \<Rightarrow> (cert_error + loader_state) option) \<Rightarrow> bool" where
  "simulates sha names slots cs st st' load \<longleftrightarrow>
     (\<exists>actions. pl_actions st' = pl_actions st @ actions \<and> plan_grows st st' \<and> valid_slots slots (pl_planned st') \<and>
       (declarations_have_terms slots \<longrightarrow> rooted st \<longrightarrow> rooted st') \<and>
       (conversions_agree slots cs st' \<longrightarrow>
         (\<forall>E. \<not> conversions_present cs st' \<and> replay sha names slots cs actions E = Some (Inl DecodeError) \<or>
           load (E, map (slot_key slots) (pl_planned st)) =
             obind (replay sha names slots cs actions E) (\<lambda>E'. Some (Inr (E', map (slot_key slots) (pl_planned st')))))))"

lemma simulates_refl:
  "valid_slots slots (pl_planned st) \<Longrightarrow> (\<And>E. load (E, map (slot_key slots) (pl_planned st)) =
     Some (Inr (E, map (slot_key slots) (pl_planned st)))) \<Longrightarrow> simulates sha names slots cs st st load"
  by (simp add: simulates_def plan_grows_def replay_def)

lemma simulates_cong:
  assumes "simulates sha names slots cs st st' load"
    and "\<And>E. load' (E, map (slot_key slots) (pl_planned st)) = load (E, map (slot_key slots) (pl_planned st))"
  shows "simulates sha names slots cs st st' load'"
  using assms by (simp add: simulates_def)

lemma simulates_seq:
  assumes "simulates sha names slots cs st st1 load1" and "simulates sha names slots cs st1 st2 load2"
  shows "simulates sha names slots cs st st2 (\<lambda>s. obind (load1 s) load2)"
proof -
  let ?K = "\<lambda>st. map (slot_key slots) (pl_planned st)" and ?R = "replay sha names slots cs"
  from assms(1) obtain a1 where a1: "pl_actions st1 = pl_actions st @ a1" "plan_grows st st1"
      "declarations_have_terms slots \<longrightarrow> rooted st \<longrightarrow> rooted st1"
    and one: "\<And>E. conversions_agree slots cs st1 \<Longrightarrow> \<not> conversions_present cs st1 \<and> ?R a1 E = Some (Inl DecodeError) \<or>
      load1 (E, ?K st) = obind (?R a1 E) (\<lambda>E'. Some (Inr (E', ?K st1)))"
    unfolding simulates_def by blast
  from assms(2) obtain a2 where a2: "pl_actions st2 = pl_actions st1 @ a2" "plan_grows st1 st2" "valid_slots slots (pl_planned st2)"
      "declarations_have_terms slots \<longrightarrow> rooted st1 \<longrightarrow> rooted st2"
    and two: "\<And>E. conversions_agree slots cs st2 \<Longrightarrow> \<not> conversions_present cs st2 \<and> ?R a2 E = Some (Inl DecodeError) \<or>
      load2 (E, ?K st1) = obind (?R a2 E) (\<lambda>E'. Some (Inr (E', ?K st2)))"
    unfolding simulates_def by blast
  have "\<not> conversions_present cs st2 \<and> ?R (a1 @ a2) E = Some (Inl DecodeError) \<or>
      obind (load1 (E, ?K st)) load2 = obind (?R (a1 @ a2) E) (\<lambda>E'. Some (Inr (E', ?K st2)))"
    if agree: "conversions_agree slots cs st2" for E
  proof -
    have R: "?R (a1 @ a2) E = obind (?R a1 E) (?R a2)" by (simp add: replay_def ofold_append)
    from one [OF conversions_agree_earlier [OF a2(2) agree], of E] show ?thesis
    proof
      assume "\<not> conversions_present cs st1 \<and> ?R a1 E = Some (Inl DecodeError)"
      with conversions_present_earlier [OF a2(2)] R show ?thesis by auto
    next
      assume "load1 (E, ?K st) = obind (?R a1 E) (\<lambda>E'. Some (Inr (E', ?K st1)))"
      with two [OF agree] R show ?thesis
        by (cases "?R a1 E") (auto simp: obind_def split: sum.splits)
    qed
  qed
  with a1 a2 plan_grows_trans [OF a1(2) a2(2)] show ?thesis unfolding simulates_def by (intro exI [of _ "a1 @ a2"]) auto
qed

lemma simulates_valid: "simulates sha names slots cs st st' load \<Longrightarrow> valid_slots slots (pl_planned st')"
  unfolding simulates_def by blast

lemma simulates_fold:
  assumes "\<And>g st st'. g \<in> set refs \<Longrightarrow> valid_slots slots (pl_planned st) \<Longrightarrow> plan g st = Inr st' \<Longrightarrow>
      simulates sha names slots cs st st' (load g)"
    and "fold_res plan refs st = Inr st'" and "valid_slots slots (pl_planned st)"
  shows "simulates sha names slots cs st st' (ofold load refs)"
  using assms
proof (induction refs arbitrary: st)
  case Nil
  then show ?case by (auto intro: simulates_refl)
next
  case (Cons g refs)
  then obtain st1 where st1: "plan g st = Inr st1" "fold_res plan refs st1 = Inr st'" by (auto simp: rbind_eq_Inr)
  with Cons.prems(1,3) have "simulates sha names slots cs st st1 (load g)" by simp
  moreover from this have "valid_slots slots (pl_planned st1)" by (rule simulates_valid)
  with Cons.IH [OF _ st1(2)] Cons.prems(1) have "simulates sha names slots cs st1 st' (ofold load refs)" by simp
  ultimately have "simulates sha names slots cs st st' (\<lambda>s. obind (load g s) (ofold load refs))" by (rule simulates_seq)
  then show ?case by simp
qed

lemma simulates_builtin:
  assumes "append_action n (LoadBuiltin owner name ih) st = Inr st'" and "valid_slots slots (pl_planned st)"
    and "\<And>E. replay_action sha names slots cs (LoadBuiltin owner name ih) E = Some (add_builtin_ref_to_env sha table name ih E)"
  shows "simulates sha names slots cs st st' (\<lambda>(E, loaded).
    Some (rbind (add_builtin_ref_to_env sha table name ih E) (\<lambda>E. Inr (E, loaded))))"
proof -
  from assms(1) have st': "st' = st\<lparr>pl_actions := pl_actions st @ [LoadBuiltin owner name ih]\<rparr>"
    by (auto simp: append_action_def split: if_splits)
  have "Some (rbind (add_builtin_ref_to_env sha table name ih E) (\<lambda>E. Inr (E, loaded))) =
      obind (replay sha names slots cs [LoadBuiltin owner name ih] E) (\<lambda>E'. Some (Inr (E', loaded)))"
    for E and loaded :: "imported_decl_key list"
    using assms(3) [of E] by (cases "add_builtin_ref_to_env sha table name ih E") (simp_all add: replay_def)
  with st' assms(2) show ?thesis
    unfolding simulates_def plan_grows_def rooted_def slot_roots_def by (intro exI [of _ "[LoadBuiltin owner name ih]"]) simp
qed

lemma export_roots_nonempty:
  assumes "declarations_have_terms ms" and "m \<in> set ms" and "collect_export_entry_roots m entry = Inr ids"
  shows "ids \<noteq> []"
  using assms
  by (auto simp: declarations_have_terms_def collect_export_entry_roots_def rbind_eq_Inr list_all_iff get_at_eq_Some
      split: if_splits)

lemma simulates_declaration:
  assumes "slots_of views slots" and "s < length slots" and "valid_slots slots (pl_planned st)"
    and index: "source_decl_index_for_export_entry (slots ! s) entry = Inr i"
    and entry: "position (\<lambda>e. e = entry) (mc_export_block (slots ! s)) = Some k"
    and roots: "append_export_entry_roots_planned slots (slots ! s) entry s st = Inr st1"
    and action: "append_action n (LoadDeclaration (decl_key (slots ! s) i)
      \<lparr>xi_module_slot = s, xi_export_index = k, xi_source_decl_index = i\<rparr>) st1 = Inr st2"
  shows "simulates sha names slots cs st (st2\<lparr>pl_planned := (s, i) # pl_planned st2\<rparr>) (\<lambda>(E, loaded).
    obind (certificate_import_export_entry_to_kernel_decl (slots ! s) entry) (\<lambda>d.
    obind (Some (add_imported_decl_to_env sha d E)) (\<lambda>E. Some (Inr (E, decl_key (slots ! s) i # loaded)))))"
    (is "simulates _ _ _ _ _ ?st _")
proof -
  let ?m = "slots ! s" and ?a = "LoadDeclaration (decl_key (slots ! s) i)
      \<lparr>xi_module_slot = s, xi_export_index = k, xi_source_decl_index = i\<rparr>"
  let ?convert = "certificate_import_export_entry_to_kernel_decl_with_terms ?m"
  from roots obtain ids where ids: "collect_export_entry_roots ?m entry = Inr ids"
    and st1: "st1 = st\<lparr>pl_roots := pl_roots st @ map (Pair s) ids\<rparr>"
    by (auto simp: append_export_entry_roots_planned_def speculate_def rbind_eq_Inr split: if_splits)
  from action have st2: "st2 = st1\<lparr>pl_actions := pl_actions st1 @ [?a]\<rparr>"
    by (auto simp: append_action_def split: if_splits)
  from position_Some [OF entry] have k: "get_at (mc_export_block ?m) k = Some entry" by (simp add: get_at_def)
  have "set ids \<subseteq> set (slot_roots ?st s)" by (auto simp: st1 st2 slot_roots_def)
  then have agree: "?convert terms entry = certificate_import_export_entry_to_kernel_decl ?m entry"
    if "conversions_agree slots cs ?st" "conversion_for cs s = Some terms" for terms
  proof -
    from that(1) [unfolded conversions_agree_def, rule_format, of "(s, i)" terms] that(2)
    have "agrees ?m terms (set (slot_roots ?st s))" by simp
    from agrees_mono [OF this \<open>set ids \<subseteq> set (slot_roots ?st s)\<close>] have "agrees ?m terms (set ids)" .
    from export_decl_agrees [OF ids this] ids show ?thesis
      by (simp add: certificate_import_export_entry_to_kernel_decl_def)
  qed
  have run: "replay_action sha names slots cs ?a E =
      obind (Some (ok_or DecodeError (conversion_for cs s))) (\<lambda>terms.
      obind (?convert terms entry) (\<lambda>d. Some (add_imported_decl_to_env sha d E)))" for E
    using assms(2) k index by (simp add: replay_action_def get_at_def [of slots] conversion_for_def)
  have step: "\<not> conversions_present cs ?st \<and> replay_action sha names slots cs ?a E = Some (Inl DecodeError) \<or>
      obind (certificate_import_export_entry_to_kernel_decl ?m entry) (\<lambda>d.
      obind (Some (add_imported_decl_to_env sha d E)) (\<lambda>E. Some (Inr (E, decl_key ?m i # loaded)))) =
      obind (replay_action sha names slots cs ?a E) (\<lambda>E'. Some (Inr (E', decl_key ?m i # loaded)))"
    if "conversions_agree slots cs ?st" for E and loaded :: "imported_decl_key list"
  proof (cases "conversion_for cs s")
    case None
    with run show ?thesis by (simp add: conversions_present_def)
  next
    case (Some terms)
    with run agree [OF that Some] show ?thesis
      by (cases "certificate_import_export_entry_to_kernel_decl ?m entry") (auto simp: obind_def split: sum.splits)
  qed
  have "replay sha names slots cs [?a] E = replay_action sha names slots cs ?a E" for E
    by (cases "replay_action sha names slots cs ?a E") (auto simp: replay_def obind_def split: sum.splits)
  with step have "conversions_agree slots cs ?st \<longrightarrow> (\<forall>E. \<not> conversions_present cs ?st \<and>
        replay sha names slots cs [?a] E = Some (Inl DecodeError) \<or>
      obind (certificate_import_export_entry_to_kernel_decl ?m entry) (\<lambda>d.
      obind (Some (add_imported_decl_to_env sha d E)) (\<lambda>E. Some (Inr (E, decl_key ?m i # map (slot_key slots) (pl_planned st))))) =
      obind (replay sha names slots cs [?a] E) (\<lambda>E'. Some (Inr (E', map (slot_key slots) (pl_planned ?st)))))"
    by (simp add: st1 st2 slot_key_def)
  moreover have "plan_grows st ?st" "valid_slots slots (pl_planned ?st)" "pl_actions ?st = pl_actions st @ [?a]"
    using assms(2,3) by (auto simp: plan_grows_def valid_slots_def st1 st2)
  moreover have "rooted ?st" if terms: "declarations_have_terms slots" and rooted: "rooted st"
  proof -
    have "ids \<noteq> []"
      using ids export_roots_nonempty [OF terms nth_mem [OF assms(2)]] by blast
    then have "slot_roots ?st s \<noteq> []" by (auto simp: st1 st2 slot_roots_def filter_empty_conv)
    moreover have "slot_roots ?st t = slot_roots st t @ (if t = s then ids else [])" for t
      by (auto simp: st1 st2 slot_roots_def filter_map comp_def)
    ultimately show ?thesis using rooted by (auto simp: rooted_def st1 st2)
  qed
  ultimately show ?thesis unfolding simulates_def by (intro exI [of _ "[?a]"]) simp
qed

lemma plan_entryE:
  assumes "plan_module_export_entry views slots n loading m entry st = Inr st'"
  obtains (planned) s i where "module_slot slots m = Inr s" "source_decl_index_for_export_entry m entry = Inr i"
      "(s, i) \<in> set (pl_planned st)" "st' = st"
  | (added) s i refs st1 k st2 st3 where "module_slot slots m = Inr s" "source_decl_index_for_export_entry m entry = Inr i"
      "\<not> length (mc_declarations (slots ! s)) \<le> i" "(s, i) \<notin> set (pl_planned st)" "(s, i) \<notin> set loading"
      "collect_imported_kernel_refs_for_export_planned m entry = Inr refs"
      "fold_res (\<lambda>g st.
           case g of
             GBuiltin name ih \<Rightarrow>
               append_action n (LoadBuiltin (OwnerImported s (exact_imported_module_identity (slots ! s))) name ih) st
           | _ \<Rightarrow>
               rbind (speculate (referenced_export views m g)) (\<lambda>(m', e).
               plan_module_export_entry views slots n ((s, i) # loading) m' e st)) refs st = Inr st1"
      "position (\<lambda>candidate. candidate = entry) (mc_export_block m) = Some k"
      "append_export_entry_roots_planned slots m entry s st1 = Inr st2"
      "append_action n (LoadDeclaration (decl_key m i)
         \<lparr>xi_module_slot = s, xi_export_index = k, xi_source_decl_index = i\<rparr>) st2 = Inr st3"
      "st' = st3\<lparr>pl_planned := (s, i) # pl_planned st3\<rparr>"
proof -
  from assms obtain s i where s: "module_slot slots m = Inr s" and i: "source_decl_index_for_export_entry m entry = Inr i"
    unfolding plan_module_export_entry.simps [of views slots n loading m entry st]
    by (elim rbind_InrE) (simp add: speculate_def)
  have i': "speculate (source_decl_index_for_export_entry m entry) = Inr i" using i by (simp add: speculate_def)
  note run = assms [unfolded plan_module_export_entry.simps [of views slots n loading m entry st] s i' rbind_Inr]
  have bound: "\<not> length (mc_declarations (slots ! s)) \<le> i"
  proof
    assume "length (mc_declarations (slots ! s)) \<le> i"
    from run [unfolded if_P [OF this]] show False by simp
  qed
  note run = run [unfolded if_not_P [OF bound]]
  show thesis
  proof (cases "(s, i) \<in> set (pl_planned st)")
    case True
    from run [unfolded if_P [OF True]] have "st' = st" by simp
    with s i True show thesis by (rule planned)
  next
    case False
    note run = run [unfolded if_not_P [OF False]]
    have free: "(s, i) \<notin> set loading"
    proof
      assume "(s, i) \<in> set loading"
      from run [unfolded if_P [OF this]] show False by simp
    qed
    note run = run [unfolded if_not_P [OF free]]
    from run obtain refs st1 k j st2 st3 where
      refs: "collect_imported_kernel_refs_for_export_planned m entry = Inr refs"
      and loop: "fold_res (\<lambda>g st.
           case g of
             GBuiltin name ih \<Rightarrow>
               append_action n (LoadBuiltin (OwnerImported s (exact_imported_module_identity (slots ! s))) name ih) st
           | _ \<Rightarrow>
               rbind (speculate (referenced_export views m g)) (\<lambda>(m', e).
               plan_module_export_entry views slots n ((s, i) # loading) m' e st)) refs st = Inr st1"
      and k: "ok_or SpeculativeInvariant (position (\<lambda>candidate. candidate = entry) (mc_export_block m)) = Inr k"
      and fin: "(if j \<noteq> i then Inl SpeculativeInvariant
       else
         rbind (append_export_entry_roots_planned slots m entry s st1) (\<lambda>st.
         rbind (append_action n (LoadDeclaration (decl_key m i)
           \<lparr>xi_module_slot = s, xi_export_index = k, xi_source_decl_index = i\<rparr>) st) (\<lambda>st.
         Inr (st\<lparr>pl_planned := (s, i) # pl_planned st\<rparr>)))) = Inr st'"
      by (elim rbind_InrE) blast
    from fin have "j = i" by (rule contrapos_pp) simp
    with fin obtain st2 st3 where "append_export_entry_roots_planned slots m entry s st1 = Inr st2"
      "append_action n (LoadDeclaration (decl_key m i)
         \<lparr>xi_module_slot = s, xi_export_index = k, xi_source_decl_index = i\<rparr>) st2 = Inr st3"
      "st' = st3\<lparr>pl_planned := (s, i) # pl_planned st3\<rparr>"
      by (auto simp: rbind_eq_Inr)
    with s i bound False free refs loop k show thesis by (intro added) simp_all
  qed
qed

lemma plan_simulates:
  assumes "plan_module_export_entry views slots n loading m entry st = Inr st'"
    and "slots_of views slots" and "m \<in> set views" and "valid_slots slots loading" and "valid_slots slots (pl_planned st)"
  shows "simulates sha names slots cs st st' (load_module_export_entry sha views (map (slot_key slots) loading) m entry)"
  using assms
proof (induction views slots n loading m entry st arbitrary: st' rule: plan_module_export_entry.induct)
  case (1 views slots n loading m entry st)
  note IH = 1(1-3) and prems = 1(4-)
  from prems(1) show ?case
  proof (cases rule: plan_entryE)
    case (planned s i)
    with slot_module [OF prems(2) planned(1) prems(3)] planned_key [OF prems(2,5), of s i]
    have "load_module_export_entry sha views (map (slot_key slots) loading) m entry (E, map (slot_key slots) (pl_planned st)) =
        Some (Inr (E, map (slot_key slots) (pl_planned st)))" for E
      by (subst load_module_export_entry.simps) (simp add: planned(2) Let_def)
    with planned(4) prems(5) show ?thesis by (auto intro: simulates_refl)
  next
    case (added s i refs st1 k st2 st3)
    from slot_module [OF prems(2) added(1) prems(3)] have s: "s < length slots" and m: "slots ! s = m" by auto
    let ?load = "\<lambda>g (E, loaded).
           case g of
             GBuiltin name ih \<Rightarrow>
               Some (rbind (add_builtin_ref_to_env sha (mc_name_table m) name ih E) (\<lambda>E. Inr (E, loaded)))
           | _ \<Rightarrow>
               obind (Some (referenced_export views m g)) (\<lambda>(m', e).
               load_module_export_entry sha views (decl_key m i # map (slot_key slots) loading) m' e (E, loaded))"
    have loading: "valid_slots slots ((s, i) # loading)" using s prems(4) by (simp add: valid_slots_def)
    have keys: "map (slot_key slots) ((s, i) # loading) = decl_key m i # map (slot_key slots) loading"
      by (simp add: slot_key_def m)
    have "simulates sha names slots cs st st1 (ofold ?load refs)"
    proof (rule simulates_fold [OF _ added(7) prems(5)])
      fix g t t'
      assume g: "g \<in> set refs" and t: "valid_slots slots (pl_planned t)"
        and plan: "(case g of
             GBuiltin name ih \<Rightarrow>
               append_action n (LoadBuiltin (OwnerImported s (exact_imported_module_identity (slots ! s))) name ih) t
           | _ \<Rightarrow>
               rbind (speculate (referenced_export views m g)) (\<lambda>(m', e).
               plan_module_export_entry views slots n ((s, i) # loading) m' e t)) = Inr t'"
      show "simulates sha names slots cs t t' (?load g)"
      proof (cases "\<exists>name ih. g = GBuiltin name ih")
        case True
        then obtain name ih where gb: "g = GBuiltin name ih" by blast
        have act: "append_action n (LoadBuiltin (OwnerImported s (exact_imported_module_identity (slots ! s))) name ih) t = Inr t'"
          using plan gb by simp
        have "replay_action sha names slots cs (LoadBuiltin (OwnerImported s (exact_imported_module_identity (slots ! s))) name ih) E =
            Some (add_builtin_ref_to_env sha (mc_name_table m) name ih E)" for E
          using s m by (simp add: replay_action_def get_at_def)
        from simulates_builtin [OF act t this] show ?thesis using gb by simp
      next
        case False
        with plan obtain m' e where e: "referenced_export views m g = Inr (m', e)"
          and run: "plan_module_export_entry views slots n ((s, i) # loading) m' e t = Inr t'"
          by (auto simp: speculate_def rbind_eq_Inr split: global_ref.splits)
        from referenced_export_module [OF e] prems(3) have m': "m' \<in> set views" by blast
        have spec: "speculate (source_decl_index_for_export_entry m entry) = Inr i"
          "speculate (referenced_export views m g) = Inr (m', e)" using added(2) e by (simp_all add: speculate_def)
        have "simulates sha names slots cs t t' (load_module_export_entry sha views (map (slot_key slots) ((s, i) # loading)) m' e)"
        proof (cases g)
          case (GImported a b c)
          show ?thesis by (rule IH(1) [OF added(1) spec(1) added(3-6) g GImported spec(2) refl run prems(2) m' loading t])
        next
          case (GLocal a)
          show ?thesis by (rule IH(2) [OF added(1) spec(1) added(3-6) g GLocal spec(2) refl run prems(2) m' loading t])
        next
          case (GLocalGenerated a b)
          show ?thesis by (rule IH(3) [OF added(1) spec(1) added(3-6) g GLocalGenerated spec(2) refl run prems(2) m' loading t])
        qed (use False in simp)
        then show ?thesis
          unfolding keys by (rule simulates_cong) (use e False in \<open>auto split: global_ref.splits\<close>)
      qed
    qed
    moreover have "simulates sha names slots cs st1 st' (\<lambda>(E, loaded).
        obind (certificate_import_export_entry_to_kernel_decl m entry) (\<lambda>d.
        obind (Some (add_imported_decl_to_env sha d E)) (\<lambda>E. Some (Inr (E, decl_key m i # loaded)))))"
      using simulates_declaration [OF prems(2) s simulates_valid [OF calculation], unfolded m, OF added(2,8,9,10)] added(11) by simp
    ultimately have "simulates sha names slots cs st st' (\<lambda>s. obind (ofold ?load refs s) (\<lambda>(E, loaded).
        obind (certificate_import_export_entry_to_kernel_decl m entry) (\<lambda>d.
        obind (Some (add_imported_decl_to_env sha d E)) (\<lambda>E. Some (Inr (E, decl_key m i # loaded))))))"
      by (rule simulates_seq)
    then show ?thesis
    proof (rule simulates_cong)
      fix E
      have "decl_key m i \<notin> set (map (slot_key slots) (pl_planned st))" "decl_key m i \<notin> set (map (slot_key slots) loading)"
        using planned_key [OF prems(2,5) s, of i] planned_key [OF prems(2,4) s, of i] added(4,5) m by auto
      then show "load_module_export_entry sha views (map (slot_key slots) loading) m entry (E, map (slot_key slots) (pl_planned st)) =
          obind (ofold ?load refs (E, map (slot_key slots) (pl_planned st))) (\<lambda>(E, loaded).
          obind (certificate_import_export_entry_to_kernel_decl m entry) (\<lambda>d.
          obind (Some (add_imported_decl_to_env sha d E)) (\<lambda>E. Some (Inr (E, decl_key m i # loaded)))))"
        unfolding load_module_export_entry.simps [of sha views _ m entry] added(2) planned_refs [OF added(6)] obind_simps Let_def
        by (simp only: if_False)
    qed
  qed
qed

section \<open>The planned lane agrees with the recursive one\<close>

lemma planner_slots_of:
  assumes "unambiguous views" and "planner_slots views = Inr slots"
  shows "slots_of views slots"
proof -
  let ?id = exact_imported_module_identity
  have inj: "inj_on ?id (set views)"
    using assms(1) by (auto simp: unambiguous_def exact_imported_module_identity_def inj_on_def)
  have "inj_on ?id (set ms) \<Longrightarrow> dedup_by_identity ms = remdups_adj ms" for ms
    by (induction ms rule: dedup_by_identity.induct) (auto dest: inj_onD)
  from this [of "sort_key ?id views"] inj assms(2) have slots: "slots = sort_dedup ?id views"
    by (auto simp: planner_slots_def Let_def rbind_eq_Inr sort_dedup_def)
  have "distinct (map ?id slots)"
    using strict_sort_dedup [OF inj] by (simp add: slots strict_sorted_iff)
  with assms(1) slots show ?thesis by (simp add: slots_of_def distinct_map)
qed

lemma plan_tables_nth:
  assumes "ofold (plan_table st) (enumerate k ms) (bytes, plans) = Some (Inr (bytes', plans'))"
    and "length plans = k"
  shows "length plans' = k + length ms \<and> take k plans' = plans \<and> (\<forall>j < length ms.
    (slot_roots st (k + j) = [] \<longrightarrow> plans' ! (k + j) = None) \<and>
    (slot_roots st (k + j) \<noteq> [] \<longrightarrow> (\<exists>plan. plans' ! (k + j) = Some plan \<and>
      plan_selected_roots_unadmitted (ms ! j) (slot_roots st (k + j)) = Some (Inr plan))))"
  using assms
proof (induction ms arbitrary: k bytes plans)
  case (Cons m ms)
  from Cons.prems(1) obtain b1 p where step: "plan_table st (k, m) (bytes, plans) = Some (Inr (b1, plans @ [p]))"
    and rest: "ofold (plan_table st) (enumerate (Suc k) ms) (b1, plans @ [p]) = Some (Inr (bytes', plans'))"
    by (auto simp: obind_Inr plan_table_def split: if_splits)
  note IH = Cons.IH [OF rest] Cons.prems(2)
  then have len: "length plans' = k + length (m # ms)" and pre: "take (Suc k) plans' = plans @ [p]" by simp_all
  from pre len have "take k plans' = plans" "plans' ! k = p"
    using Cons.prems(2) take_Suc_conv_app_nth [of k plans'] by auto
  moreover have "(slot_roots st k = [] \<longrightarrow> p = None) \<and> (slot_roots st k \<noteq> [] \<longrightarrow> (\<exists>plan. p = Some plan \<and>
      plan_selected_roots_unadmitted m (slot_roots st k) = Some (Inr plan)))"
    using step by (auto simp: plan_table_def obind_Inr split: if_splits)
  ultimately show ?case using len IH by (auto simp: less_Suc_eq_0_disj)
qed simp

lemma otraverse_nth:
  assumes "otraverse f xs = Some (Inr ys)" and "i < length xs"
  shows "i < length ys \<and> f (xs ! i) = Some (Inr (ys ! i))"
  using assms
proof (induction xs arbitrary: ys i)
  case (Cons x xs)
  then show ?case by (cases i) (auto simp: obind_Inr)
qed simp

lemma tables_conversions:
  assumes "plan_tables slots n st = Some (Inr (bytes, plans))"
    and "otraverse build_table (zip slots plans) = Some (Inr cs)" and "s < length slots"
  shows "if slot_roots st s = [] then conversion_for cs s = None
    else \<exists>terms. conversion_for cs s = Some terms \<and> agrees (slots ! s) terms (set (slot_roots st s))"
proof -
  from assms(1) obtain b where "ofold (plan_table st) (enumerate 0 slots) (b, []) = Some (Inr (bytes, plans))"
    by (auto simp: plan_tables_def obind_Inr)
  from plan_tables_nth [OF this] assms(3) have len: "length plans = length slots" and
    none: "slot_roots st s = [] \<Longrightarrow> plans ! s = None" and
    some: "slot_roots st s \<noteq> [] \<Longrightarrow> \<exists>plan. plans ! s = Some plan \<and>
      plan_selected_roots_unadmitted (slots ! s) (slot_roots st s) = Some (Inr plan)" by auto
  from otraverse_nth [OF assms(2), of s] len assms(3) have c: "s < length cs"
    "build_table (slots ! s, plans ! s) = Some (Inr (cs ! s))" by auto
  show ?thesis
  proof (cases "slot_roots st s = []")
    case True
    with c none show ?thesis by (auto simp: conversion_for_def get_at_def build_table_def)
  next
    case False
    with some obtain plan where plan: "plans ! s = Some plan"
      "plan_selected_roots_unadmitted (slots ! s) (slot_roots st s) = Some (Inr plan)" by blast
    with c obtain nodes where nodes: "build_selected_roots_uncommitted (slots ! s) plan = Some (Inr nodes)"
      "cs ! s = Some (Materialized nodes)" by (auto simp: build_table_def obind_Inr)
    with selected_table_agrees [OF plan(2) nodes(1)] c False show ?thesis
      by (simp add: conversion_for_def get_at_def)
  qed
qed

lemma top_level_simulates:
  assumes "plan_top_level views slots n (mc_declarations cert) (mc_name_table cert) = Inr st" and "slots_of views slots"
  defines "start \<equiv> \<lparr>pl_planned = [], pl_roots = [], pl_actions = []\<rparr>"
  shows "simulates sha (mc_name_table cert) slots cs start st (ofold (\<lambda>g (E, loaded).
      case g of
        GBuiltin name ih \<Rightarrow>
          Some (rbind (add_builtin_ref_to_env sha (mc_name_table cert) name ih E) (\<lambda>E. Inr (E, loaded)))
      | GImported import_index name ih \<Rightarrow> load_imported_global_ref_from_cert sha views cert g (E, loaded)
      | _ \<Rightarrow> Some (Inr (E, loaded)))
    (sort_dedup global_ref_order_key (concat (map (\<lambda>d. map dependency_global_ref (dc_dependencies d)) (mc_declarations cert)))))"
    (is "simulates _ _ _ _ _ _ (ofold ?load ?refs)")
proof -
  let ?plan = "\<lambda>g st.
       case g of
         GBuiltin name ih \<Rightarrow> append_action n (LoadBuiltin OwnerCurrent name ih) st
       | GImported import_index name ih \<Rightarrow>
           rbind (ok_or SpeculativeInvariant (get_at views (unat import_index))) (\<lambda>m.
           rbind (speculate (imported_export_entry_for_global_ref (mc_name_table cert) views g)) (\<lambda>entry.
           plan_module_export_entry views slots n [] m entry st))
       | _ \<Rightarrow> Inr st"
  from assms(1) have run: "fold_res ?plan ?refs start = Inr st"
    by (auto simp: plan_top_level_def Let_def rbind_eq_Inr start_def)
  show ?thesis
  proof (rule simulates_fold [OF _ run])
    show "valid_slots slots (pl_planned start)" by (simp add: start_def valid_slots_def)
  next
    fix g t t'
    assume t: "valid_slots slots (pl_planned t)" and plan: "?plan g t = Inr t'"
    show "simulates sha (mc_name_table cert) slots cs t t' (?load g)"
    proof (cases g)
      case (GBuiltin name ih)
      with plan simulates_builtin [OF _ t, of n OwnerCurrent name ih t' sha "mc_name_table cert" cs "mc_name_table cert"]
      show ?thesis by (simp add: replay_action_def)
    next
      case (GImported k name ih)
      with plan obtain m entry where m: "get_at views (unat k) = Some m"
        "imported_export_entry_for_global_ref (mc_name_table cert) views g = Inr entry"
        and run: "plan_module_export_entry views slots n [] m entry t = Inr t'"
        by (auto simp: speculate_def rbind_eq_Inr)
      from m(1) have "m \<in> set views" by (auto simp: get_at_eq_Some)
      with plan_simulates [OF run assms(2) this _ t] have
        "simulates sha (mc_name_table cert) slots cs t t' (load_module_export_entry sha views [] m entry)"
        by (simp add: valid_slots_def)
      then show ?thesis
        by (rule simulates_cong) (use GImported m in \<open>simp add: load_imported_global_ref_from_cert_def\<close>)
    qed (use plan t in \<open>auto intro: simulates_refl\<close>)
  qed
qed

lemma planned_replay:
  fixes sha :: digest and E :: env
  assumes "unambiguous views" and slots: "planner_slots views = Inr slots"
    and st: "plan_top_level views slots n (mc_declarations cert) (mc_name_table cert) = Inr st"
    and tables: "plan_tables slots n st = Some (Inr (bytes, plans))"
    and cs: "otraverse build_table (zip slots plans) = Some (Inr cs)"
  defines "answer \<equiv> replay sha (mc_name_table cert) slots cs (pl_actions st) E"
  shows "add_referenced_imports_to_env_legacy sha cert views E = answer \<or>
    answer = Some (Inl DecodeError) \<and> \<not> declarations_have_terms views"
proof -
  let ?start = "\<lparr>pl_planned = [], pl_roots = [], pl_actions = []\<rparr>"
  note of = planner_slots_of [OF assms(1) slots] and conv = tables_conversions [OF tables cs]
  let ?load = "ofold (\<lambda>g (E, loaded).
      case g of
        GBuiltin name ih \<Rightarrow>
          Some (rbind (add_builtin_ref_to_env sha (mc_name_table cert) name ih E) (\<lambda>E. Inr (E, loaded)))
      | GImported import_index name ih \<Rightarrow> load_imported_global_ref_from_cert sha views cert g (E, loaded)
      | _ \<Rightarrow> Some (Inr (E, loaded)))
    (sort_dedup global_ref_order_key (concat (map (\<lambda>d. map dependency_global_ref (dc_dependencies d)) (mc_declarations cert))))"
  from top_level_simulates [OF st of, of sha cs] have valid: "valid_slots slots (pl_planned st)"
    and rooted: "declarations_have_terms slots \<longrightarrow> rooted ?start \<longrightarrow> rooted st"
    and sim: "conversions_agree slots cs st \<Longrightarrow>
      \<not> conversions_present cs st \<and> answer = Some (Inl DecodeError) \<or>
      ?load (E, []) = obind answer (\<lambda>E'. Some (Inr (E', map (slot_key slots) (pl_planned st))))"
    unfolding simulates_def answer_def by auto
  have "conversions_agree slots cs st"
    using valid conv by (fastforce simp: conversions_agree_def valid_slots_def split: if_splits)
  from sim [OF this] show ?thesis
  proof
    assume bad: "\<not> conversions_present cs st \<and> answer = Some (Inl DecodeError)"
    have "\<not> rooted st"
      using bad valid conv by (fastforce simp: conversions_present_def rooted_def valid_slots_def split: if_splits)
    moreover have "rooted ?start" by (simp add: rooted_def)
    ultimately have "\<not> declarations_have_terms slots" using rooted by blast
    with of have "\<not> declarations_have_terms views" by (simp add: declarations_have_terms_def slots_of_def list_all_iff)
    with bad show ?thesis by simp
  next
    assume "?load (E, []) = obind answer (\<lambda>E'. Some (Inr (E', map (slot_key slots) (pl_planned st))))"
    then show ?thesis
      by (cases answer; cases "the answer") (simp_all add: add_referenced_imports_to_env_legacy_def)
  qed
qed

lemma capacity_returns: "returns r \<Longrightarrow> returns (capacity r)"
  by (auto simp: returns_def capacity_def)

lemma planner_preflight_returns:
  assumes "list_all tables_resolve views"
  shows "returns (imported_planner_preflight ds views budget)"
proof -
  have "returns (ofold preflight_module views s)" for s
    using assms by (intro ofold_returns)
      (auto simp: preflight_module_def Let_def list_all_iff intro!: obind_returns table_charges_return(3))
  then show ?thesis
    unfolding imported_planner_preflight_def by (intro capacity_returns obind_returns) simp_all
qed

lemma planned_tables_return:
  assumes "\<And>m. m \<in> set slots \<Longrightarrow> tables_resolve m"
  shows "returns (plan_tables slots n st)"
proof -
  have plan: "returns (plan_selected_roots_unadmitted m roots)" if "m \<in> set slots" for m roots
    unfolding plan_selected_roots_unadmitted_def Let_def
    using table_charges_return(1) [OF assms [OF that]] by (auto intro!: obind_returns capacity_returns)
  show ?thesis
    unfolding plan_tables_def
    by (intro obind_returns ofold_returns)
      (auto simp: plan_table_def capacity_def in_set_enumerate_eq intro!: obind_returns plan)
qed

lemma built_tables_return:
  assumes "\<And>m. m \<in> set slots \<Longrightarrow> tables_resolve m"
  shows "returns (otraverse build_table (zip slots plans))"
proof -
  have "returns (build_selected_roots_uncommitted m plan)" if "m \<in> set slots" for m plan
    unfolding build_selected_roots_uncommitted_def using build_forward_returns [OF assms [OF that]] by simp
  then show ?thesis
    by (intro otraverse_returns)
      (auto simp: build_table_def dest!: set_zip_leftD intro!: obind_returns split: option.splits)
qed

text \<open>The attempt returns, and what it returns is the answer of the recursive loader.\<close>

lemma planned_lane:
  assumes "list_all tables_resolve views" and "unambiguous views"
    and "add_referenced_imports_to_env_legacy sha cert views E = Some answer"
  shows "\<exists>attempt. add_referenced_imports_to_env_planned sha (mc_declarations cert) (mc_name_table cert) views budget E =
      Some attempt \<and> (\<forall>r. attempt = Inr r \<longrightarrow> r = answer \<or> r = Inl DecodeError \<and> \<not> declarations_have_terms views)"
proof -
  let ?names = "mc_name_table cert" and ?ds = "mc_declarations cert"
  from planner_preflight_returns [OF assms(1)] obtain p where p: "imported_planner_preflight ?ds views budget = Some p"
    unfolding returns_def by blast
  show ?thesis
  proof (cases "\<exists>n slots st. p = Inr n \<and> planner_slots views = Inr slots \<and> plan_top_level views slots n ?ds ?names = Inr st")
    case False
    then show ?thesis
      unfolding add_referenced_imports_to_env_planned_def p by (auto simp: obind_def split: sum.splits)
  next
    case True
    then obtain n slots st where n: "p = Inr n" and slots: "planner_slots views = Inr slots"
      and st: "plan_top_level views slots n ?ds ?names = Inr st" by blast
    have resolve: "tables_resolve m" if "m \<in> set slots" for m
      using that planner_slots_of [OF assms(2) slots] assms(1) by (simp add: slots_of_def list_all_iff)
    have run: "add_referenced_imports_to_env_planned sha ?ds ?names views budget E =
        materialize_and_replay_planned_imports sha ?names slots n st budget E"
      unfolding add_referenced_imports_to_env_planned_def using p n slots st by simp
    from planned_tables_return [of slots n st] resolve obtain t where t: "plan_tables slots n st = Some t"
      unfolding returns_def by blast
    show ?thesis
    proof (cases t)
      case (Inl stop)
      with t show ?thesis unfolding run materialize_and_replay_planned_imports_def by simp
    next
      case (Inr tp)
      obtain bytes plans where tp: "t = Inr (bytes, plans)" using Inr by (cases tp) simp
      from built_tables_return [of slots plans] resolve obtain c where c: "otraverse build_table (zip slots plans) = Some c"
        unfolding returns_def by blast
      show ?thesis
      proof (cases c)
        case (Inl stop)
        with t tp c show ?thesis unfolding run materialize_and_replay_planned_imports_def by simp
      next
        case (Inr cs)
        from planned_replay [OF assms(2) slots st t [unfolded tp] c [unfolded Inr], of sha E]
        obtain r where "replay sha ?names slots cs (pl_actions st) E = Some r"
          "r = answer \<or> r = Inl DecodeError \<and> \<not> declarations_have_terms views" using assms(3) by metis
        with t tp c Inr show ?thesis unfolding run materialize_and_replay_planned_imports_def by auto
      qed
    qed
  qed
qed

text \<open>
  The environment in which a module is checked is the one that the recursive loader builds. A
  successful planned lane needs no assumption on the tables.
\<close>

lemma planned_imports_sound:
  assumes "add_referenced_imports_to_env sha cert views budget E = Some (Inr E')" and "unambiguous views"
  shows "add_referenced_imports_to_env_legacy sha cert views E = Some (Inr E')"
proof -
  let ?p = "add_referenced_imports_to_env_planned sha (mc_declarations cert) (mc_name_table cert) views budget E"
  from assms(1) consider stop where "?p = Some (Inl stop)" "add_referenced_imports_to_env_legacy sha cert views E = Some (Inr E')"
    | "?p = Some (Inr (Inr E'))"
    unfolding add_referenced_imports_to_env_def by (cases ?p; cases "the ?p") auto
  then show ?thesis
  proof cases
    case 2
    then obtain n slots st bytes plans cs where
      "planner_slots views = Inr slots" "plan_top_level views slots n (mc_declarations cert) (mc_name_table cert) = Inr st"
      "plan_tables slots n st = Some (Inr (bytes, plans))" "otraverse build_table (zip slots plans) = Some (Inr cs)"
      and run: "replay sha (mc_name_table cert) slots cs (pl_actions st) E = Some (Inr E')"
      by (auto simp: add_referenced_imports_to_env_planned_def materialize_and_replay_planned_imports_def obind_Inr
          split: if_splits prod.splits)
    from planned_replay [OF assms(2) this(1-4), of sha E] run show ?thesis by simp
  qed
qed

lemma planned_loading_agrees:
  assumes "list_all tables_resolve views" and "unambiguous views" and "declarations_have_terms views"
  shows "add_referenced_imports_to_env sha cert views budget E = add_referenced_imports_to_env_legacy sha cert views E"
proof -
  obtain answer where answer: "add_referenced_imports_to_env_legacy sha cert views E = Some answer"
    using legacy_loading_returns [OF assms(1), of sha cert E] by (auto simp: returns_def)
  from planned_lane [OF assms(1,2) answer, of budget] assms(3) answer show ?thesis
    by (auto simp: add_referenced_imports_to_env_def split: sum.splits)
qed

text \<open>
  C33: The loader that plans, charges a budget and replays its actions with tables of shared
  expressions is equivalent to the recursive loader: with every budget it returns the same
  environment or the same error, on imports that passed the structural checks, that are told
  apart by name and certificate hash, and of which every declaration has a term. Without the last
  condition the two loaders differ, as shown below.
\<close>

theorem planned_imports_agree:
  assumes "list_all (\<lambda>m. (\<exists>cost. structural_preflight m = Inr cost) \<and> decl_names_in_table m) views"
    and "inj_on (\<lambda>m. (hdr_module (mc_header m), mh_certificate_hash (mc_hashes m))) (set views)"
    and "\<forall>m \<in> set views. \<forall>d \<in> set (mc_declarations m). decl_term_ids (dc_decl d) \<noteq> []"
  shows "add_referenced_imports_to_env sha cert views budget E = add_referenced_imports_to_env_legacy sha cert views E"
  using assms by (intro planned_loading_agrees)
    (auto simp: list_all_iff unambiguous_def declarations_have_terms_def intro: preflight_resolve)

theorem planned_imports_agree_witness:
  "add_referenced_imports_to_env sample_digest identity_cert [identity_cert] 0 env_new =
   add_referenced_imports_to_env_legacy sample_digest identity_cert [identity_cert] env_new"
proof (rule planned_imports_agree)
  show "list_all (\<lambda>m. (\<exists>cost. structural_preflight m = Inr cost) \<and> decl_names_in_table m) [identity_cert]"
    using identity_preflight identity_names by auto
  show "\<forall>m \<in> set [identity_cert]. \<forall>d \<in> set (mc_declarations m). decl_term_ids (dc_decl d) \<noteq> []"
    by (simp add: identity_cert_def)
qed simp

section \<open>A declaration without terms\<close>

text \<open>
  A module with an empty inductive type that has no recursor, and a module whose only declaration
  is an axiom of that type.
\<close>

definition termless_cert :: module_cert where
  "termless_cert = identity_cert\<lparr>
     mc_header := \<lparr>hdr_format = FORMAT, hdr_core_spec = CORE_SPEC, hdr_module = [''Termless'']\<rparr>,
     mc_name_table := [[''Empty''], [''Termless'']], mc_term_table := [TNSort 0],
     mc_declarations := [\<lparr>dc_decl = PInductive 0 [] [] [] 0 [] None, dc_dependencies = [], dc_axiom_dependencies = [],
       dc_hashes = \<lparr>dh_decl_interface_hash = sample_hash, dh_decl_certificate_hash = sample_hash\<rparr>\<rparr>],
     mc_export_block := [\<lparr>ee_name = 0, ee_kind = EKInductive, ee_universe_params = [],
       ee_universe_constraints = [], ee_ty = 0, ee_body = None, ee_type_hash = sample_hash,
       ee_body_hash = None, ee_reducibility = None, ee_opacity = None,
       ee_decl_interface_hash = sample_hash, ee_axiom_dependencies = []\<rparr>]\<rparr>"

definition termless_user_cert :: module_cert where
  "termless_user_cert = identity_cert\<lparr>
     mc_header := \<lparr>hdr_format = FORMAT, hdr_core_spec = CORE_SPEC, hdr_module = [''User'']\<rparr>,
     mc_imports := [\<lparr>ie_module = [''Termless''], ie_export_hash = sample_hash, ie_certificate_hash = None\<rparr>],
     mc_name_table := [[''Empty''], [''User''], [''ax'']], mc_term_table := [TNConst (GImported 0 0 sample_hash) []],
     mc_declarations := [\<lparr>dc_decl = PAxiom 2 [] 0, dc_dependencies = [DInterface (GImported 0 0 sample_hash) sample_hash],
       dc_axiom_dependencies = [],
       dc_hashes = \<lparr>dh_decl_interface_hash = sample_hash, dh_decl_certificate_hash = sample_hash\<rparr>\<rparr>]\<rparr>"

text \<open>
  C19: The two loaders differ on a declaration without terms. An inductive type with no parameter,
  index, constructor and recursor is admitted by the kernel and loaded by the recursive loader, and
  the axiom that refers to it is admitted then; the planned loader makes no table for its module
  and refuses the import as malformed.
\<close>

theorem planned_loader_refuses_termless:
  "add_referenced_imports_to_env sha termless_user_cert [termless_cert] 0 env_new = Some (Inl DecodeError) \<and>
   (\<exists>E E'. add_referenced_imports_to_env_legacy sha termless_user_cert [termless_cert] env_new = Some (Inr E) \<and>
     add_certificate_declarations termless_user_cert Legacy (mc_declarations termless_user_cert) E = Some (Inr E'))"
proof
  have "map_option (case_sum Some (\<lambda>_. None)) (add_referenced_imports_to_env sha termless_user_cert [termless_cert] 0 env_new) =
      Some (Some DecodeError)" by code_simp
  then show "add_referenced_imports_to_env sha termless_user_cert [termless_cert] 0 env_new = Some (Inl DecodeError)"
    by (cases "add_referenced_imports_to_env sha termless_user_cert [termless_cert] 0 env_new";
        cases "the (add_referenced_imports_to_env sha termless_user_cert [termless_cert] 0 env_new)") auto
  have "map_option is_ok (obind (add_referenced_imports_to_env_legacy sha termless_user_cert [termless_cert] env_new) (\<lambda>E.
      add_certificate_declarations termless_user_cert Legacy (mc_declarations termless_user_cert) E)) = Some True"
    by code_simp
  then show "\<exists>E E'. add_referenced_imports_to_env_legacy sha termless_user_cert [termless_cert] env_new = Some (Inr E) \<and>
     add_certificate_declarations termless_user_cert Legacy (mc_declarations termless_user_cert) E = Some (Inr E')"
    by (auto simp: is_ok_iff obind_Inr)
qed

end
