(* ===== verification/Cert_Module.thy ===== *)
theory Cert_Module
  imports Cert_Planner
begin

text \<open>
  The verification of a module (\<^verbatim>\<open>verify.rs\<close>): the stages of the other theories in the order of the
  source, from the bytes to the environment that all the declarations were added to, and the
  session that modules are verified in. Verification returns on all bytes. The theorems of a
  verified module are proved in its environment, its axioms are those that the policy allows, and
  its certificate hash identifies it.
\<close>

section \<open>Verification\<close>

definition check_with_imports ::
    "digest \<Rightarrow> module_cert \<Rightarrow> structural_cost \<Rightarrow> axiom_policy \<Rightarrow> verified_module list \<Rightarrow> term_conversion \<Rightarrow>
     term_budget \<Rightarrow> (cert_error + closure_summary \<times> env) option" where
  "check_with_imports sha cert cost policy imports terms budget =
     (let views = map vm_certificate imports in
      obind (Some (build_closure_summary cert cost (map vm_structural_closure imports))) (\<lambda>closure.
      obind (Some (verify_dependencies_and_axioms sha cert views)) (\<lambda>_.
      obind (Some (enforce_axiom_policy cert policy)) (\<lambda>_.
      obind (Some (enforce_import_axiom_policy views policy)) (\<lambda>_.
      obind (Some (referenced_builtins_from_cert sha cert)) (\<lambda>builtins.
      obind (add_referenced_imports_to_env sha cert views budget env_new) (\<lambda>E.
      obind (Some (add_referenced_builtins_to_env builtins E)) (\<lambda>E.
      obind (Some (cert_format_version (mc_header cert))) (\<lambda>version.
      obind (add_certificate_declarations cert terms (mc_declarations cert) E) (\<lambda>E.
      Some (Inr (closure, E))))))))))))"

text \<open>\<^verbatim>\<open>verify_decoded_module_cert_checks_after_hashes_inner\<close>; the resolution of imports is an argument.\<close>

definition checks_after_hashes ::
    "digest \<Rightarrow> module_cert \<Rightarrow> structural_cost \<Rightarrow> axiom_policy \<Rightarrow> (module_cert \<Rightarrow> verified_module list cresult) \<Rightarrow>
     (cert_error + closure_summary \<times> env) option" where
  "checks_after_hashes sha cert cost policy resolve =
     obind (Some (verify_declaration_order cert)) (\<lambda>_.
     Option.bind (select_current_term_conversion cert 0) (\<lambda>(terms, budget).
     obind (verify_inductive_generated_artifacts cert terms) (\<lambda>_.
     obind (Some (resolve cert)) (\<lambda>imports.
     check_with_imports sha cert cost policy imports terms budget))))"

text \<open>
  \<^verbatim>\<open>verify_decoded_module_cert_with_import_resolver_observed\<close> and the variant that owns the
  certificate. The environment is dropped at the end of the source; here it is returned beside
  the module, so that one can say what was established in it.
\<close>

definition verify_decoded_module_cert ::
    "digest \<Rightarrow> module_cert \<Rightarrow> byte list \<Rightarrow> axiom_policy \<Rightarrow> (module_cert \<Rightarrow> verified_module list cresult) \<Rightarrow>
     (cert_error + verified_module \<times> env) option" where
  "verify_decoded_module_cert sha cert bytes policy resolve =
     obind (Some (ensure_certificate_byte_limit bytes)) (\<lambda>_.
     obind (Some (structural_preflight cert)) (\<lambda>cost.
     obind (Some (verify_canonical_encoding cert bytes)) (\<lambda>canonical.
     obind (verify_hash_and_table_checks sha cert canonical) (\<lambda>_.
     obind (checks_after_hashes sha cert cost policy resolve) (\<lambda>(closure, E).
     Some (Inr (\<lparr>vm_certificate = cert, vm_structural_closure = closure\<rparr>, E)))))))"

definition verify_built_module_cert_with_import_refs ::
    "digest \<Rightarrow> module_cert \<Rightarrow> verified_module list \<Rightarrow> axiom_policy \<Rightarrow> (cert_error + verified_module \<times> env) option" where
  "verify_built_module_cert_with_import_refs sha cert imports policy =
     obind (Some (structural_preflight cert)) (\<lambda>cost.
     obind (verify_built_hash_and_table_checks sha cert) (\<lambda>_.
     obind (checks_after_hashes sha cert cost policy (\<lambda>cert. resolve_import_refs cert imports policy)) (\<lambda>(closure, E).
     Some (Inr (\<lparr>vm_certificate = cert, vm_structural_closure = closure\<rparr>, E)))))"

definition verify_decoded_module_cert_with_import_refs ::
    "digest \<Rightarrow> module_cert \<Rightarrow> byte list \<Rightarrow> verified_module list \<Rightarrow> axiom_policy \<Rightarrow>
     (cert_error + verified_module \<times> env) option" where
  "verify_decoded_module_cert_with_import_refs sha cert bytes imports policy =
     verify_decoded_module_cert sha cert bytes policy (\<lambda>cert. resolve_import_refs cert imports policy)"

definition verify_module_cert_with_import_refs ::
    "digest \<Rightarrow> byte list \<Rightarrow> verified_module list \<Rightarrow> axiom_policy \<Rightarrow> (cert_error + verified_module \<times> env) option" where
  "verify_module_cert_with_import_refs sha bytes imports policy =
     obind (Some (decode_module_cert bytes)) (\<lambda>cert.
     verify_decoded_module_cert_with_import_refs sha cert bytes imports policy)"

text \<open>
  \<^verbatim>\<open>verify_decoded_module_cert_with_observations_impl\<close> and \<^verbatim>\<open>verify_module_cert_impl\<close>: the session is
  changed only when the verification succeeds.
\<close>

definition verify_decoded_module_cert_in_session ::
    "digest \<Rightarrow> module_cert \<Rightarrow> byte list \<Rightarrow> axiom_policy \<Rightarrow> verifier_session \<Rightarrow>
     (cert_error + verified_module \<times> verifier_session) option" where
  "verify_decoded_module_cert_in_session sha cert bytes policy session =
     obind (verify_decoded_module_cert sha cert bytes policy (\<lambda>cert. resolve_imports cert session policy)) (\<lambda>(m, E).
     Some (Inr (m, insert_verified m (pol_mode policy) session)))"

definition verify_module_cert ::
    "digest \<Rightarrow> byte list \<Rightarrow> axiom_policy \<Rightarrow> verifier_session \<Rightarrow> (cert_error + verified_module \<times> verifier_session) option" where
  "verify_module_cert sha bytes policy session =
     obind (Some (decode_module_cert bytes)) (\<lambda>cert.
     verify_decoded_module_cert_in_session sha cert bytes policy session)"

section \<open>What a verified module went through\<close>

text \<open>The facts that a successful verification establishes, one per stage.\<close>

lemma checks_after_hashesE:
  assumes "checks_after_hashes sha cert cost policy resolve = Some (Inr (closure, E))"
  obtains mods builtins budget E1 E2 where
    "verify_declaration_order cert = Inr ()" "verify_inductive_generated_artifacts cert Legacy = Some (Inr ())"
    "resolve cert = Inr mods"
    "build_closure_summary cert cost (map vm_structural_closure mods) = Inr closure"
    "verify_dependencies_and_axioms sha cert (map vm_certificate mods) = Inr ()"
    "enforce_axiom_policy cert policy = Inr ()"
    "enforce_import_axiom_policy (map vm_certificate mods) policy = Inr ()"
    "referenced_builtins_from_cert sha cert = Inr builtins"
    "add_referenced_imports_to_env sha cert (map vm_certificate mods) budget env_new = Some (Inr E1)"
    "add_referenced_builtins_to_env builtins E1 = Inr E2"
    "add_certificate_declarations cert Legacy (mc_declarations cert) E2 = Some (Inr E)"
proof -
  from assms obtain terms budget where order: "verify_declaration_order cert = Inr ()"
    and terms: "select_current_term_conversion cert 0 = Some (terms, budget)"
    and rest: "obind (verify_inductive_generated_artifacts cert terms) (\<lambda>_.
      obind (Some (resolve cert)) (\<lambda>imports. check_with_imports sha cert cost policy imports terms budget)) =
      Some (Inr (closure, E))"
    unfolding checks_after_hashes_def obind_Inr
    by (cases "select_current_term_conversion cert 0") (auto simp: obind_Inr split: prod.splits)
  note agree = current_conversion_agrees [OF terms]
  from rest [unfolded artifacts_agree [OF agree] obind_Inr] obtain mods where
    "verify_inductive_generated_artifacts cert Legacy = Some (Inr ())" "resolve cert = Inr mods"
    and last: "check_with_imports sha cert cost policy mods terms budget = Some (Inr (closure, E))" by auto
  with order that last [unfolded check_with_imports_def Let_def declarations_agree [OF agree] obind_Inr]
  show thesis by (auto simp: declarations_agree [OF agree])
qed

section \<open>Verification returns\<close>

lemma collected_refs_return:
  assumes "validate_term_references sha cert = Inr ()"
  shows "returns (collect_global_refs_from_term (mc_term_table cert) t)"
proof (induction "unat t" arbitrary: t rule: less_induct)
  case less
  show ?case
  proof (cases "get_at (mc_term_table cert) (unat t)")
    case None
    then show ?thesis by (subst collect_global_refs_from_term.simps) simp
  next
    case (Some n)
    have "returns (collect_global_refs_from_term (mc_term_table cert) c)" if "c \<in> set (term_children n)" for c
      using less term_references [OF assms Some that] .
    with Some show ?thesis
      by (subst collect_global_refs_from_term.simps) (cases n; auto intro!: obind_returns)
  qed
qed

lemma hash_checks_return: "returns (verify_hash_and_table_checks sha cert canonical)"
proof -
  have refs: "returns (collect_global_refs_from_terms (mc_term_table cert) ts)"
    if "validate_term_references sha cert = Inr ()" for ts
    by (induction ts) (auto intro!: obind_returns collected_refs_return [OF that])
  have hashes: "returns (verify_hashes_from_canonical_input sha cert tables canonical)"
    if "verify_tables sha cert = Some (Inr tables)" for tables
    using that unfolding verify_hashes_from_canonical_input_def verify_hashes_through_export_def verify_decl_hashes_def
      compute_decl_hashes_def interface_dependencies_for_decl_def
    by (auto simp: verify_tables_Inr intro!: obind_returns otraverse_returns refs)
  obtain r where "verify_tables sha cert = Some r" using table_checks_return by blast
  with hashes show ?thesis
    by (cases r) (auto simp: verify_hash_and_table_checks_def intro!: obind_returns)
qed

lemma artifacts_return:
  assumes "tables_resolve cert"
  shows "returns (verify_inductive_generated_artifacts cert Legacy)"
proof -
  have levels: "returns (level_from_node cert l)" and terms: "returns (expr_from_term cert t)" for l t
    using assms by (simp_all add: tables_resolve_def)
  have "returns (universe_constraints_from_specs cert ucs)" for ucs
    using levels by (intro constraints_return) (auto simp: list_all_iff constraint_roots_def)
  note intros = obind_returns otraverse_returns levels terms this
  have base: "returns (mutual_base_from cert Legacy us i)" for us i
    unfolding mutual_base_from_def by (auto simp: binder_from_def constructor_from_def intro!: intros)
  have compare: "returns (compare_mutual_recursor cert Legacy n p)" for n p
    unfolding compare_mutual_recursor_def Let_def by (auto intro!: intros)
  have mutual: "returns (verify_mutual_inductive_generated_artifacts cert Legacy n ups ucs is)" for n ups ucs "is"
    unfolding verify_mutual_inductive_generated_artifacts_def by (auto intro!: intros base compare)
  have "returns (verifier_expected_minor_type_expr cert Legacy n ups a b c i)" for n ups a b c i
    unfolding verifier_expected_minor_type_expr_def by (auto intro!: intros)
  then have "returns (expected_recursor_type_expr cert Legacy view)" for view
    unfolding expected_recursor_type_expr_def verifier_expected_motive_level_def by (auto intro!: intros)
  then have "returns (verify_recursor cert Legacy view)" for view
    unfolding verify_recursor_def Let_def by (auto simp: generated_mismatch_def intro!: intros)
  with mutual have "returns (verify_decl_artifacts cert Legacy d)" for d
    unfolding verify_decl_artifacts_def by (auto split: decl_payload.splits option.splits)
  then show ?thesis unfolding verify_inductive_generated_artifacts_def by (intro intros) simp_all
qed

lemma payload_conversion_returns:
  assumes "tables_resolve m"
  shows "returns (decl_payload_to_kernel_decl_with_terms m terms p)"
proof -
  have roots: "returns (root_expr m terms t)" for t
    using assms by (cases terms) (simp_all add: root_expr_def tables_resolve_def)
  have levels: "returns (level_from_node m l)" for l using assms by (simp add: tables_resolve_def)
  then have cs: "returns (universe_constraints_from_specs m ucs)" for ucs
    by (intro constraints_return) (auto simp: list_all_iff constraint_roots_def)
  note intros = obind_returns otraverse_returns roots levels cs
  have parts: "returns (binder_from m terms f b)" "returns (constructor_from m terms e c)" "returns (recursor_from m terms r)"
    for f b e c r
    unfolding binder_from_def constructor_from_def recursor_from_def by (auto intro!: intros split: option.splits)
  have ind: "returns (inductive_from m terms p n ups ps is s cs r)" for p n ups ps "is" s cs r
    unfolding inductive_from_def Let_def universe_constraints_from_decl_payload_def by (auto intro!: intros parts)
  have mutual: "returns (mutual_inductive_from m terms ups i)" for ups i
    unfolding mutual_inductive_from_def by (auto intro!: intros parts)
  show ?thesis
    unfolding decl_payload_to_kernel_decl_with_terms_def
    by (cases p) (auto intro!: intros ind mutual)
qed

lemma replayed_export_returns:
  assumes "tables_resolve m"
  shows "returns (certificate_import_export_entry_to_kernel_decl_with_terms m terms entry)"
proof -
  have roots: "returns (root_expr m terms t)" for t
    using assms by (cases terms) (simp_all add: root_expr_def tables_resolve_def)
  have "returns (universe_constraints_from_specs m ucs)" for ucs
    using assms by (intro constraints_return) (auto simp: list_all_iff constraint_roots_def tables_resolve_def)
  moreover have "returns (exported_axiom m entry us ty)" for us ty
    by (auto simp: exported_axiom_def intro!: obind_returns)
  ultimately show ?thesis
    unfolding certificate_import_export_entry_to_kernel_decl_with_terms_def
    by (auto intro!: obind_returns roots payload_conversion_returns [OF assms] split: cert_reducibility.splits)
qed

lemma replay_returns:
  assumes "\<And>m. m \<in> set slots \<Longrightarrow> tables_resolve m"
  shows "returns (replay sha names slots cs actions E)"
proof -
  have "returns (replay_action sha names slots cs action E)" for action E
  proof (cases action)
    case (LoadBuiltin owner name ih)
    then show ?thesis by (cases owner) (auto simp: replay_action_def intro!: obind_returns)
  next
    case (LoadDeclaration key export)
    show ?thesis
    proof (cases "get_at slots (xi_module_slot export)")
      case (Some m)
      then have "tables_resolve m" using assms by (auto simp: get_at_eq_Some)
      with LoadDeclaration Some show ?thesis
        by (auto simp: replay_action_def intro!: obind_returns replayed_export_returns)
    qed (simp add: LoadDeclaration replay_action_def)
  qed
  then show ?thesis unfolding replay_def by (intro ofold_returns)
qed

lemma planner_slots_subset: "planner_slots views = Inr slots \<Longrightarrow> set slots \<subseteq> set views"
proof -
  have "set (dedup_by_identity ms) \<subseteq> set ms" for ms
    by (induction ms rule: dedup_by_identity.induct) auto
  from this [of "sort_key exact_imported_module_identity views"]
  show "planner_slots views = Inr slots \<Longrightarrow> set slots \<subseteq> set views"
    by (auto simp: planner_slots_def Let_def rbind_eq_Inr)
qed

lemma planned_loading_returns:
  assumes "list_all tables_resolve views"
  shows "returns (add_referenced_imports_to_env sha cert views budget E)"
proof -
  have "returns (materialize_and_replay_planned_imports sha names slots n st budget E)"
    if "planner_slots views = Inr slots" for names slots n st
  proof -
    have resolve: "tables_resolve m" if "m \<in> set slots" for m
      using that planner_slots_subset [OF \<open>planner_slots views = Inr slots\<close>] assms by (auto simp: list_all_iff)
    have "returns (otraverse build_table (zip slots plans))" for plans
      by (rule built_tables_return) (rule resolve)
    moreover have "returns (map_option Inr (replay sha names slots cs (pl_actions st) E))" for cs
      using replay_returns [of slots sha names cs] resolve by (simp add: returns_def)
    ultimately show ?thesis
      unfolding materialize_and_replay_planned_imports_def
      using planned_tables_return [of slots n st, OF resolve] by (auto intro!: obind_returns)
  qed
  then have "returns (add_referenced_imports_to_env_planned sha (mc_declarations cert) (mc_name_table cert) views budget E)"
    unfolding add_referenced_imports_to_env_planned_def
    using planner_preflight_returns [OF assms] by (cases "planner_slots views") (auto intro!: obind_returns)
  moreover have "returns (add_referenced_imports_to_env_legacy sha cert views E)"
    using assms by (rule legacy_loading_returns)
  ultimately show ?thesis
    unfolding add_referenced_imports_to_env_def
    by (cases "add_referenced_imports_to_env_planned sha (mc_declarations cert) (mc_name_table cert) views budget E")
      (auto simp: returns_def split: sum.splits)
qed

lemma checks_return:
  assumes "tables_resolve cert" and "\<And>mods. resolve cert = Inr mods \<Longrightarrow> list_all tables_resolve (map vm_certificate mods)"
  shows "returns (checks_after_hashes sha cert cost policy resolve)"
proof -
  obtain terms budget where terms: "select_current_term_conversion cert 0 = Some (terms, budget)"
    using current_conversion_returns [OF assms(1), of 0] by (auto simp: returns_def)
  note agree = current_conversion_agrees [OF terms]
  have decls: "returns (add_certificate_declarations cert Legacy ds E)" for ds E
    using assms(1) by (intro declarations_return payload_returns)
      (auto simp: list_all_iff resolves_def tables_resolve_def split: semantic_root.splits)
  have "returns (check_with_imports sha cert cost policy mods terms budget)" if "resolve cert = Inr mods" for mods
    unfolding check_with_imports_def Let_def declarations_agree [OF agree]
    using assms(2) [OF that] by (auto intro!: obind_returns planned_loading_returns decls)
  then show ?thesis
    using artifacts_return [OF assms(1)]
    by (cases "resolve cert")
      (auto simp: checks_after_hashes_def terms artifacts_agree [OF agree] intro!: obind_returns)
qed

section \<open>Verified modules and reached sessions\<close>

text \<open>
  The modules that verification returned, for a certificate and its bytes or for one that was just
  built, on imports that were returned in the same way, and the sessions that the calls of the
  interface lead to. A module is registered in a session only after it was verified elsewhere. The
  registration takes the trust from the caller and does not look at the imports of the module; the
  set \<open>vouched\<close> has the keys of the modules that the caller registered with high trust.
\<close>

inductive authentic :: "digest \<Rightarrow> verified_module \<Rightarrow> bool"
  and session_reached :: "digest \<Rightarrow> session_key set \<Rightarrow> verifier_session \<Rightarrow> bool" for sha where
  authentic_bytes: "verify_decoded_module_cert_with_import_refs sha cert bytes mods policy = Some (Inr (m, E)) \<Longrightarrow>
    \<forall>i \<in> set mods. authentic sha i \<Longrightarrow> authentic sha m"
| authentic_built: "verify_built_module_cert_with_import_refs sha cert mods policy = Some (Inr (m, E)) \<Longrightarrow>
    \<forall>i \<in> set mods. authentic sha i \<Longrightarrow> authentic sha m"
| authentic_session: "session_reached sha vouched s \<Longrightarrow>
    verify_decoded_module_cert_in_session sha cert bytes policy s = Some (Inr (m, s')) \<Longrightarrow> authentic sha m"
| session_start: "session_reached sha {} session_new"
| session_verify: "session_reached sha vouched s \<Longrightarrow>
    verify_decoded_module_cert_in_session sha cert bytes policy s = Some (Inr (m, s')) \<Longrightarrow>
    session_reached sha vouched s'"
| session_register: "session_reached sha vouched s \<Longrightarrow> authentic sha m \<Longrightarrow>
    session_reached sha vouched (register_verified_module m s)"
| session_register_with_trust: "session_reached sha vouched s \<Longrightarrow> authentic sha m \<Longrightarrow>
    session_reached sha (if mode = HighTrust then insert (session_key_of m) vouched else vouched)
      (register_verified_module_with_trust m mode s)"

text \<open>The calls on bytes decode them first.\<close>

lemma bytes_authentic:
  "verify_module_cert_with_import_refs sha bytes mods policy = Some (Inr (m, E)) \<Longrightarrow>
   \<forall>i \<in> set mods. authentic sha i \<Longrightarrow> authentic sha m"
  by (auto simp: verify_module_cert_with_import_refs_def obind_Inr intro: authentic_bytes)

lemma bytes_reached:
  "session_reached sha vouched s \<Longrightarrow> verify_module_cert sha bytes policy s = Some (Inr (m, s')) \<Longrightarrow>
   authentic sha m \<and> session_reached sha vouched s'"
  by (auto simp: verify_module_cert_def obind_Inr intro: authentic_session session_verify)

lemma verified_decodedE:
  assumes "verify_decoded_module_cert sha cert bytes policy resolve = Some (Inr (m, E))"
  obtains cost canonical tables closure where "structural_preflight cert = Inr cost"
    "verify_canonical_encoding cert bytes = Inr canonical" "verify_tables sha cert = Some (Inr tables)"
    "verify_hashes_from_canonical_input sha cert tables canonical = Some (Inr ())"
    "checks_after_hashes sha cert cost policy resolve = Some (Inr (closure, E))"
    "m = \<lparr>vm_certificate = cert, vm_structural_closure = closure\<rparr>"
  using assms by (auto simp: verify_decoded_module_cert_def verify_hash_and_table_checks_def obind_Inr)

lemma verified_builtE:
  assumes "verify_built_module_cert_with_import_refs sha cert mods policy = Some (Inr (m, E))"
  obtains cost tables closure where "structural_preflight cert = Inr cost" "verify_tables sha cert = Some (Inr tables)"
    "checks_after_hashes sha cert cost policy (\<lambda>cert. resolve_import_refs cert mods policy) = Some (Inr (closure, E))"
    "m = \<lparr>vm_certificate = cert, vm_structural_closure = closure\<rparr>"
  using assms by (auto simp: verify_built_module_cert_with_import_refs_def verify_built_hash_and_table_checks_def obind_Inr)

definition tables_checked :: "digest \<Rightarrow> verified_module \<Rightarrow> bool" where
  "tables_checked sha m \<longleftrightarrow> (\<exists>cost. structural_preflight (vm_certificate m) = Inr cost) \<and>
     (\<exists>tables. verify_tables sha (vm_certificate m) = Some (Inr tables))"

lemma authentic_tables: "authentic sha m \<Longrightarrow> tables_checked sha m"
  by (erule authentic.cases)
    (auto simp: verify_decoded_module_cert_with_import_refs_def verify_decoded_module_cert_in_session_def obind_Inr
      tables_checked_def elim!: verified_decodedE verified_builtE)

lemma tables_checkedD:
  assumes "tables_checked sha m"
  shows "tables_resolve (vm_certificate m)" and "cert_small (vm_certificate m)"
  using assms preflight_resolve verified_tables_names verified_tables_small by (auto simp: tables_checked_def)



lemma resolved_from_session:
  assumes "resolve_imports cert session policy = Inr mods" and "m \<in> set mods"
  shows "\<exists>key e. (key, e) \<in> set session \<and> m = se_module e"
  using assms traverse_set [of _ "mc_imports cert" mods m]
  by (fastforce simp: resolve_imports_def resolve_with_def split: if_splits dest: find_import_sound)

lemma resolved_from_list:
  assumes "resolve_import_refs cert available policy = Inr mods"
  shows "set mods \<subseteq> set available"
proof
  fix m assume "m \<in> set mods"
  with assms obtain entry where "find_import_ref available entry (pol_mode policy) = Inr m"
    by (auto simp: resolve_import_refs_def resolve_with_def dest!: traverse_set split: if_splits)
  then show "m \<in> set available"
    by (auto simp: find_import_ref_def Let_def find_Some_iff split: option.splits)
qed

lemma obind_returns_after: "returns m \<Longrightarrow> (\<And>x. m = Some (Inr x) \<Longrightarrow> returns (f x)) \<Longrightarrow> returns (obind m f)"
  by (cases m) (auto simp: returns_def obind_def split: sum.splits)

lemma decoded_verification_returns:
  assumes "\<And>mods. resolve cert = Inr mods \<Longrightarrow> \<forall>m \<in> set mods. tables_checked sha m"
  shows "returns (verify_decoded_module_cert sha cert bytes policy resolve)"
proof -
  have "returns (checks_after_hashes sha cert cost policy resolve)"
    if "structural_preflight cert = Inr cost" "verify_hash_and_table_checks sha cert canonical = Some (Inr ())" for cost canonical
  proof (rule checks_return)
    show "tables_resolve cert"
      using that by (auto simp: verify_hash_and_table_checks_def obind_Inr intro: preflight_resolve verified_tables_names)
    show "list_all tables_resolve (map vm_certificate mods)" if "resolve cert = Inr mods" for mods
      using assms [OF that] tables_checkedD(1) by (auto simp: list_all_iff)
  qed
  then show ?thesis
    unfolding verify_decoded_module_cert_def by (auto intro!: obind_returns_after hash_checks_return)
qed

definition trusted :: "verifier_session \<Rightarrow> session_key \<Rightarrow> bool" where
  "trusted session key \<longleftrightarrow> (\<exists>e. map_of session key = Some e \<and> se_mode e = HighTrust)"

definition import_key :: "import_entry \<Rightarrow> session_key" where
  "import_key entry = (ie_module entry, ie_export_hash entry, ie_certificate_hash entry)"

text \<open>
  High trust is closed under imports, but for the modules that the caller vouched for; those have
  high trust.
\<close>

definition trust_closed :: "session_key set \<Rightarrow> verifier_session \<Rightarrow> bool" where
  "trust_closed vouched session \<longleftrightarrow> (\<forall>key \<in> vouched. trusted session key) \<and>
     (\<forall>key e. map_of session key = Some e \<and> se_mode e = HighTrust \<and> key \<notin> vouched \<longrightarrow>
       (\<forall>entry \<in> set (mc_imports (vm_certificate (se_module e))). trusted session (import_key entry)))"

lemma session_member: "session_ok session \<Longrightarrow> (key, e) \<in> set session \<longleftrightarrow> map_of session key = Some e"
  by (auto simp: session_ok_def strict_sorted_iff dest: map_of_SomeD)

lemma insert_verified_lookup:
  assumes "session_ok session"
  shows "map_of (insert_verified m mode session) = (map_of session)(session_key_of m \<mapsto>
    (case map_of session (session_key_of m) of None \<Rightarrow> \<lparr>se_module = m, se_mode = mode\<rparr>
     | Some e \<Rightarrow> replace_entry e \<lparr>se_module = m, se_mode = mode\<rparr>))"
  using assms by (simp add: insert_verified_def session_insert_lookup session_ok_def)

lemma insert_verified_entries:
  assumes "session_ok session" and "map_of (insert_verified m mode session) key = Some e"
  shows "map_of session key = Some e \<or> key = session_key_of m \<and> e = \<lparr>se_module = m, se_mode = mode\<rparr>"
  using assms(2) by (auto simp: insert_verified_lookup [OF assms(1)] replace_entry_def split: if_splits option.splits)

lemma insert_verified_trusted:
  "session_ok session \<Longrightarrow> trusted session key \<Longrightarrow> trusted (insert_verified m mode session) key"
  by (auto simp: trusted_def insert_verified_lookup replace_entry_def)

lemma insert_verified_trusts: "session_ok session \<Longrightarrow> trusted (insert_verified m HighTrust session) (session_key_of m)"
  by (auto simp: trusted_def insert_verified_lookup replace_entry_def split: option.splits)

lemma high_trust_imports:
  assumes "session_ok session" and "resolve_imports cert session policy = Inr mods" and "pol_mode policy = HighTrust"
    and "entry \<in> set (mc_imports cert)"
  shows "trusted session (import_key entry)"
proof -
  from assms obtain m where "find_import session entry HighTrust = Inr m"
    by (auto simp: resolve_imports_def resolve_with_def traverse_eq_Inr list_all2_conv_all_nth in_set_conv_nth split: if_splits)
  from find_import_sound [OF this] obtain key e where "(key, e) \<in> set session" "m = se_module e" "import_matches entry m"
    "se_mode e = HighTrust" "ie_certificate_hash entry = Some (vm_certificate_hash m)" by auto
  moreover from this assms(1) have "key = import_key entry"
    by (auto simp: session_ok_def import_key_def session_key_of_def import_matches_def)
  ultimately show ?thesis by (auto simp: trusted_def session_member [OF assms(1), symmetric])
qed

definition session_sound :: "digest \<Rightarrow> session_key set \<Rightarrow> verifier_session \<Rightarrow> bool" where
  "session_sound sha vouched session \<longleftrightarrow> session_ok session \<and> (\<forall>(key, e) \<in> set session. authentic sha (se_module e)) \<and>
     trust_closed vouched session"

lemma trust_closed_insert:
  assumes "trust_closed vouched session" and ok: "session_ok session" and "vouched \<subseteq> vouched'"
    and "\<forall>key \<in> vouched' - vouched. trusted (insert_verified m mode session) key"
    and "mode = HighTrust \<Longrightarrow> session_key_of m \<notin> vouched' \<Longrightarrow>
      \<forall>entry \<in> set (mc_imports (vm_certificate m)). trusted session (import_key entry)"
  shows "trust_closed vouched' (insert_verified m mode session)"
  unfolding trust_closed_def
proof (intro conjI allI impI ballI)
  fix key assume "key \<in> vouched'"
  with assms(1,4) insert_verified_trusted [OF ok] show "trusted (insert_verified m mode session) key"
    unfolding trust_closed_def by blast
next
  fix key e entry
  assume e: "map_of (insert_verified m mode session) key = Some e \<and> se_mode e = HighTrust \<and> key \<notin> vouched'"
    and entry: "entry \<in> set (mc_imports (vm_certificate (se_module e)))"
  from e insert_verified_entries [OF ok, of m mode key e]
  consider "map_of session key = Some e" | "key = session_key_of m" "e = \<lparr>se_module = m, se_mode = mode\<rparr>" by blast
  then have "trusted session (import_key entry)"
  proof cases
    case 1
    with e entry assms(1,3) show ?thesis unfolding trust_closed_def by blast
  next
    case 2
    with e entry assms(5) show ?thesis by simp
  qed
  then show "trusted (insert_verified m mode session) (import_key entry)" by (rule insert_verified_trusted [OF ok])
qed

lemma session_sound_insert:
  assumes "session_sound sha vouched session" and "authentic sha m" and "vouched \<subseteq> vouched'"
    and "\<forall>key \<in> vouched' - vouched. trusted (insert_verified m mode session) key"
    and "mode = HighTrust \<Longrightarrow> session_key_of m \<notin> vouched' \<Longrightarrow>
      \<forall>entry \<in> set (mc_imports (vm_certificate m)). trusted session (import_key entry)"
  shows "session_sound sha vouched' (insert_verified m mode session)"
proof -
  from assms(1) have ok: "session_ok session" by (simp add: session_sound_def)
  have "authentic sha (se_module e)" if "(key, e) \<in> set (insert_verified m mode session)" for key e
    using insert_verified_entries [OF ok, of m mode key e] that assms(1,2)
    by (auto simp: session_member [OF session_insert_ok [OF ok]] session_sound_def session_member [OF ok])
  moreover have "trust_closed vouched' (insert_verified m mode session)"
    using assms(1) by (intro trust_closed_insert [OF _ ok assms(3-5)]) (simp add: session_sound_def)
  ultimately show ?thesis using session_insert_ok [OF ok] by (auto simp: session_sound_def)
qed

lemma reached_sessions:
  shows "authentic sha m \<Longrightarrow> True"
    and reached_session_sound: "session_reached sha vouched session \<Longrightarrow> session_sound sha vouched session"
proof (induction rule: authentic_session_reached.inducts)
  case session_start
  then show ?case by (simp add: session_sound_def session_new_def session_ok_def trust_closed_def)
next
  case (session_verify vouched s cert bytes policy m s')
  from session_verify(3) obtain E where run: "verify_decoded_module_cert sha cert bytes policy
      (\<lambda>cert. resolve_imports cert s policy) = Some (Inr (m, E))"
    and s': "s' = insert_verified m (pol_mode policy) s" by (auto simp: verify_decoded_module_cert_in_session_def obind_Inr)
  from run obtain cost closure where "checks_after_hashes sha cert cost policy (\<lambda>cert. resolve_imports cert s policy) =
      Some (Inr (closure, E))" and m: "vm_certificate m = cert" by (auto elim: verified_decodedE)
  then obtain mods where "resolve_imports cert s policy = Inr mods" by (auto elim: checks_after_hashesE)
  with session_verify(2) have "\<forall>entry \<in> set (mc_imports (vm_certificate m)). trusted s (import_key entry)"
    if "pol_mode policy = HighTrust"
    using that by (auto simp: m session_sound_def intro: high_trust_imports)
  then show ?case unfolding s'
    using session_sound_insert [OF session_verify(2) authentic_session [OF session_verify(1,3)] subset_refl] by blast
next
  case (session_register vouched s m)
  then show ?case unfolding register_verified_module_def by (intro session_sound_insert [where vouched = vouched]) simp_all
next
  case (session_register_with_trust vouched s m mode)
  then have "session_ok s" by (simp add: session_sound_def)
  with session_register_with_trust insert_verified_trusts [of s m] show ?case
    unfolding register_verified_module_with_trust_def
    by (intro session_sound_insert [where vouched = vouched]) auto
qed simp_all

lemma reached_imports_checked:
  assumes "session_reached sha vouched session" and "resolve_imports cert session policy = Inr mods" and "m \<in> set mods"
  shows "authentic sha m" and "tables_checked sha m"
  using resolved_from_session [OF assms(2,3)] reached_session_sound [OF assms(1)] authentic_tables
  by (auto simp: session_sound_def)

text \<open>
  C6: Whatever modules were verified in it or registered with either trust before, a session keeps
  its entries in the order of their keys and under the key of their module, and all of them are
  modules that the verifier returned. High trust comes from the verifier or from the caller: every
  import of an entry of high trust, identified by name, export hash and certificate hash, is itself
  an entry of high trust, unless the caller registered the importing module with high trust.
  The modules that the caller registered so keep high trust.
\<close>

theorem session_invariant:
  assumes "session_reached sha vouched session"
  shows "session_ok session \<and> (\<forall>(key, e) \<in> set session. authentic sha (se_module e)) \<and>
    (\<forall>key \<in> vouched. trusted session key) \<and>
    (\<forall>key e entry. map_of session key = Some e \<and> se_mode e = HighTrust \<and> key \<notin> vouched \<and>
       entry \<in> set (mc_imports (vm_certificate (se_module e))) \<longrightarrow> trusted session (import_key entry))"
  using reached_session_sound [OF assms] unfolding session_sound_def trust_closed_def by blast

text \<open>
  C7: Verification returns, a module or an error, for all bytes and in every session that can
  be reached: cyclic tables, hostile counts and references between modules included. None of its
  loops runs forever.
\<close>

theorem verification_returns:
  assumes "session_reached sha vouched session"
  shows "\<exists>r. verify_module_cert sha bytes policy session = Some r"
proof -
  have "returns (verify_decoded_module_cert sha cert bytes policy (\<lambda>cert. resolve_imports cert session policy))" for cert
    by (rule decoded_verification_returns) (use reached_imports_checked [OF assms] in blast)
  then have "returns (verify_module_cert sha bytes policy session)"
    unfolding verify_module_cert_def verify_decoded_module_cert_in_session_def by (auto intro!: obind_returns)
  then show ?thesis by (simp add: returns_def)
qed

section \<open>What is true of a verified module\<close>

definition axiom_allowed :: "axiom_policy \<Rightarrow> module_cert \<Rightarrow> axiom_ref \<Rightarrow> bool" where
  "axiom_allowed policy cert a \<longleftrightarrow>
     (\<exists>name. get_at (mc_name_table cert) (unat (ar_name a)) = Some name \<and>
        \<not> (pol_deny_sorry policy \<and> contains_str ''sorry'' (name_as_dotted name)) \<and>
        (pol_mode policy = HighTrust \<or> pol_allowlisted_axioms policy \<noteq> [] \<longrightarrow>
         name \<in> set (pol_allowlisted_axioms policy)))"

text \<open>The bytes that the certificate hash is computed from.\<close>

definition hash_input :: "module_cert \<Rightarrow> byte list" where
  "hash_input cert = encode_module_cert_parts_with_format cert V0_4_0 False"

lemma hashed_bytes:
  assumes "verify_decoded_module_cert sha cert bytes policy resolve = Some (Inr (m, E))"
  shows "vm_certificate_hash m = hash_with_domain sha MODULE_CERT_DOMAIN (hash_input cert)"
    and "bytes = hash_input cert @ encode_hash (vm_certificate_hash m)"
proof -
  from assms obtain canonical tables where bytes: "verify_canonical_encoding cert bytes = Inr canonical"
    and hash: "verify_hashes_from_canonical_input sha cert tables canonical = Some (Inr ())" and m: "vm_certificate m = cert"
    by (auto elim: verified_decodedE)
  from bytes have canonical: "bytes = hash_input cert @ encode_hash (mh_certificate_hash (mc_hashes cert))"
    "canonical = AuthoritativeBytes V0_4_0 bytes (length (hash_input cert))"
    by (auto simp: verify_canonical_encoding_def rbind_eq_Inr encode_module_cert_full_with_boundary_for_header_def
        hash_input_def cert_format_version_def Let_def split: sum.splits if_splits)
  then show "bytes = hash_input cert @ encode_hash (vm_certificate_hash m)" by (simp add: vm_certificate_hash_def m)
  from hash canonical show "vm_certificate_hash m = hash_with_domain sha MODULE_CERT_DOMAIN (hash_input cert)"
    by (auto simp: verify_hashes_from_canonical_input_def obind_Inr rbind_eq_Inr check_certificate_hash_def
        canonical_certificate_hash_def module_certificate_domain_def vm_certificate_hash_def m split: if_splits)
qed

text \<open>
  C1: The theorems of a verified module are proved, for a module verified in a session that verified
  or registered any modules before, with either trust. The environment that the verifier ends
  with consists of the declarations loaded from the imports, the built-in declarations and the
  declarations of the module. Every theorem goes back to an environment of the kernel before it
  that did not have the name of the theorem: there its statement is a type and the proof of the
  certificate has that type, and so they are in the environment at the end. The only condition
  on the imports is that no two of them share the name and the certificate hash.
\<close>

theorem verified_theorems_proved:
  assumes "session_reached sha vouched session"
    and "verify_decoded_module_cert sha cert bytes policy (\<lambda>cert. resolve_imports cert session policy) = Some (Inr (m, E))"
    and "resolve_imports cert session policy = Inr mods" and "unambiguous (map vm_certificate mods)"
    and "d \<in> set (mc_declarations cert)" and "theorem_parts (dc_decl d) = Some (n, ups, ucs, t, p)"
  shows "\<exists>name us cs stmt pf E0 u l. name_to_string cert n = Inr name \<and> universe_names cert ups = Inr us \<and>
    universe_constraints_from_specs cert ucs = Some (Inr cs) \<and>
    expr_from_term cert t = Some (Inr stmt) \<and> expr_from_term cert p = Some (Inr pf) \<and>
    reachable request_small E0 \<and> env_extends E0 E \<and> decls E0 name = None \<and> universe_context_new us cs = Inr u \<and>
    has_type E0 u [] stmt (Sort l) \<and> has_type E0 u [] pf stmt \<and> has_type E u [] stmt (Sort l) \<and> has_type E u [] pf stmt"
proof -
  from assms(2) obtain cost tables closure where tables: "structural_preflight cert = Inr cost"
      "verify_tables sha cert = Some (Inr tables)"
    and checks: "checks_after_hashes sha cert cost policy (\<lambda>cert. resolve_imports cert session policy) = Some (Inr (closure, E))"
    by (rule verified_decodedE)
  from checks assms(3) obtain builtins budget E1 E2 where
    imported: "add_referenced_imports_to_env sha cert (map vm_certificate mods) budget env_new = Some (Inr E1)"
    and added: "add_referenced_builtins_to_env builtins E1 = Inr E2"
      "add_certificate_declarations cert Legacy (mc_declarations cert) E2 = Some (Inr E)"
    by (auto elim: checks_after_hashesE)
  have "imports_allowed (map vm_certificate mods)"
    using reached_imports_checked(2) [OF assms(1,3)] tables_checkedD(2) by (auto simp: imports_allowed_def list_all_iff)
  then have "reachable request_small E1"
    by (rule referenced_imports_reachable [OF planned_imports_sound [OF imported assms(4)] reach_new])
  from certificate_theorems_proved [OF this added _ verified_tables_small [OF tables] assms(5,6)]
  show ?thesis by (simp add: conversion_of_def)
qed

text \<open>
  C8: The axioms under a verified module are allowed. Under a policy of high trust, or one with a
  list of axioms, every axiom that a declaration of the module rests on, directly or through other
  declarations and imports, has a name that is on the list, and no axiom with \<^verbatim>\<open>sorry\<close> in its
  name is used where the policy denies that; the axioms that the imported modules report are
  subject to the same.
\<close>

theorem verified_axioms_allowed:
  assumes "verify_decoded_module_cert sha cert bytes policy resolve = Some (Inr (m, E))" and "resolve cert = Inr mods"
  shows "(\<forall>i a. rests_on sha cert (map vm_certificate mods) i a \<longrightarrow> axiom_allowed policy cert a) \<and>
    (\<forall>v \<in> set (map vm_certificate mods). \<forall>a \<in> set (rep_module_axioms (mc_axiom_report v)). axiom_allowed policy v a)"
proof -
  let ?views = "map vm_certificate mods"
  from assms(1) obtain cost closure where "checks_after_hashes sha cert cost policy resolve = Some (Inr (closure, E))"
    by (rule verified_decodedE)
  with assms(2) have deps: "verify_dependencies_and_axioms sha cert ?views = Inr ()"
    and policy: "enforce_axiom_policy cert policy = Inr ()" "enforce_import_axiom_policy ?views policy = Inr ()"
    by (auto elim: checks_after_hashesE)
  have "a \<in> set (rep_module_axioms (mc_axiom_report cert))" if "rests_on sha cert ?views i a" for i a
    using decl_axioms_complete [OF verify_dependenciesD(1) [OF deps] that] verify_dependenciesD(2) [OF deps] by force
  with policy show ?thesis
    by (auto simp: enforce_axiom_policy_def enforce_import_axiom_policy_def check_all_eq_Inr enforce_axiom_policy_ok
        axiom_allowed_def)
qed

text \<open>
  C29: The certificate hash identifies the certificate. If two byte sequences are verified and their
  certificates carry the same certificate hash, and the digest does not collide on the two inputs
  of that hash, then the bytes are the same.
\<close>

theorem certificate_hash_binds:
  assumes "verify_decoded_module_cert sha cert bytes policy resolve = Some (Inr (m, E))"
    and "verify_decoded_module_cert sha cert' bytes' policy' resolve' = Some (Inr (m', E'))"
    and "vm_certificate_hash m = vm_certificate_hash m'"
    and "inj_on (hash_with_domain sha MODULE_CERT_DOMAIN) {hash_input cert, hash_input cert'}"
  shows "bytes = bytes'"
proof -
  have "hash_input cert = hash_input cert'"
    by (rule inj_onD [OF assms(4)])
      (simp_all add: hashed_bytes(1) [OF assms(1), symmetric] hashed_bytes(1) [OF assms(2), symmetric] assms(3))
  with assms(3) show ?thesis by (subst hashed_bytes(2) [OF assms(1)], subst hashed_bytes(2) [OF assms(2)]) simp
qed

section \<open>Verified modules\<close>

text \<open>With a constant digest the bytes matter only for the check of the encoding.\<close>

lemma sample_verified:
  assumes "structural_preflight cert = Inr cost" and "cert_format_version (mc_header cert) = Inr V0_4_0"
    and "verify_hash_and_table_checks sample_digest cert (Streamed V0_4_0 sample_hash) = Some (Inr ())"
    and "mh_certificate_hash (mc_hashes cert) = sample_hash"
    and size: "ensure_certificate_byte_limit (hash_input cert @ encode_hash sample_hash) = Inr ()"
    and run: "map_option is_ok (checks_after_hashes sample_digest cert cost policy (\<lambda>_. Inr mods)) = Some True"
    and resolve: "resolve cert = Inr mods"
  obtains m E where "verify_decoded_module_cert sample_digest cert (hash_input cert @ encode_hash sample_hash) policy resolve =
    Some (Inr (m, E))"
proof -
  from assms(3) have hashes: "verify_hash_and_table_checks sample_digest cert (AuthoritativeBytes V0_4_0 bs n) = Some (Inr ())" for bs n
    by (simp add: verify_hash_and_table_checks_def verify_hashes_from_canonical_input_def canonical_certificate_hash_def
        hash_with_domain_def sample_digest_def)
  have encoding: "verify_canonical_encoding cert (hash_input cert @ encode_hash sample_hash) =
      Inr (AuthoritativeBytes V0_4_0 (hash_input cert @ encode_hash sample_hash) (length (hash_input cert)))"
    by (simp add: hash_input_def verify_canonical_encoding_def encode_module_cert_full_with_boundary_for_header_def
        ensure_dependency_layout_supported_def encodes_tagged_dependencies_def Let_def assms(2,4))
  from run obtain closure E where "checks_after_hashes sample_digest cert cost policy (\<lambda>_. Inr mods) = Some (Inr (closure, E))"
    by (auto simp: is_ok_iff)
  then have "checks_after_hashes sample_digest cert cost policy resolve = Some (Inr (closure, E))"
    unfolding checks_after_hashes_def by (simp add: resolve)
  then show thesis using that by (simp add: verify_decoded_module_cert_def size assms(1) encoding hashes)
qed

text \<open>The module of the identity, and one with an axiom and a definition that uses it.\<close>

lemma identity_verified:
  obtains m E where "verify_decoded_module_cert sample_digest identity_cert (hash_input identity_cert @ encode_hash sample_hash)
    policy (\<lambda>cert. resolve_imports cert session_new policy) = Some (Inr (m, E))"
proof -
  have "cert_format_version (mc_header identity_cert) = Inr V0_4_0 \<and>
      verify_hash_and_table_checks sample_digest identity_cert (Streamed V0_4_0 sample_hash) = Some (Inr ()) \<and>
      mh_certificate_hash (mc_hashes identity_cert) = sample_hash \<and>
      ensure_certificate_byte_limit (hash_input identity_cert @ encode_hash sample_hash) = Inr ()" by code_simp
  moreover have "map_option is_ok (checks_after_hashes sample_digest identity_cert
      \<lparr>sc_max_depth = 3, sc_max_root_expansion = 6, sc_certificate_expansion = 18\<rparr> policy (\<lambda>_. Inr [])) = Some True"
    by code_simp
  moreover have "resolve_imports identity_cert session_new policy = Inr []"
    by (simp add: resolve_imports_def resolve_with_def identity_cert_def)
  ultimately show thesis
    using sample_verified [OF identity_preflight, of policy "[]" "\<lambda>cert. resolve_imports cert session_new policy"] that by blast
qed

definition exported_axiom_cert :: module_cert where
  "exported_axiom_cert = axiom_cert\<lparr>mc_export_block := [
     \<lparr>ee_name = 1, ee_kind = EKAxiom, ee_universe_params = [], ee_universe_constraints = [], ee_ty = 0, ee_body = None,
      ee_type_hash = sample_hash, ee_body_hash = None, ee_reducibility = None, ee_opacity = None,
      ee_decl_interface_hash = sample_hash, ee_axiom_dependencies = [sample_axiom]\<rparr>,
     \<lparr>ee_name = 2, ee_kind = EKDef, ee_universe_params = [], ee_universe_constraints = [], ee_ty = 0, ee_body = Some 1,
      ee_type_hash = sample_hash, ee_body_hash = Some sample_hash, ee_reducibility = Some CertReducible, ee_opacity = None,
      ee_decl_interface_hash = sample_hash, ee_axiom_dependencies = [sample_axiom]\<rparr>]\<rparr>"

definition ax_policy :: axiom_policy where
  "ax_policy = \<lparr>pol_mode = HighTrust, pol_allowlisted_axioms = [[''ax'']], pol_deny_sorry = True\<rparr>"

lemma axiom_verified:
  obtains m E where "verify_decoded_module_cert sample_digest exported_axiom_cert
    (hash_input exported_axiom_cert @ encode_hash sample_hash) ax_policy (\<lambda>_. Inr []) = Some (Inr (m, E))"
proof -
  let ?cost = "\<lparr>sc_max_depth = 2, sc_max_root_expansion = 2, sc_certificate_expansion = 10\<rparr>"
  have "structural_preflight exported_axiom_cert = Inr ?cost \<and>
      cert_format_version (mc_header exported_axiom_cert) = Inr V0_4_0 \<and>
      verify_hash_and_table_checks sample_digest exported_axiom_cert (Streamed V0_4_0 sample_hash) = Some (Inr ()) \<and>
      mh_certificate_hash (mc_hashes exported_axiom_cert) = sample_hash \<and>
      ensure_certificate_byte_limit (hash_input exported_axiom_cert @ encode_hash sample_hash) = Inr ()" by code_simp
  moreover have "map_option is_ok (checks_after_hashes sample_digest exported_axiom_cert ?cost ax_policy (\<lambda>_. Inr [])) = Some True"
    by code_simp
  ultimately show thesis using sample_verified [of exported_axiom_cert ?cost ax_policy "[]" "\<lambda>_. Inr []"] that by blast
qed

theorem verified_theorems_proved_witness:
  "\<exists>m E E0 u l stmt pf. verify_decoded_module_cert sample_digest identity_cert
       (hash_input identity_cert @ encode_hash sample_hash) high_trust_policy
       (\<lambda>cert. resolve_imports cert session_new high_trust_policy) = Some (Inr (m, E)) \<and>
     expr_from_term identity_cert 6 = Some (Inr stmt) \<and> expr_from_term identity_cert 5 = Some (Inr pf) \<and>
     env_extends E0 E \<and> decls E0 ''identity'' = None \<and> has_type E0 u [] stmt (Sort l) \<and> has_type E0 u [] pf stmt"
proof -
  obtain m E where run: "verify_decoded_module_cert sample_digest identity_cert
      (hash_input identity_cert @ encode_hash sample_hash) high_trust_policy
      (\<lambda>cert. resolve_imports cert session_new high_trust_policy) = Some (Inr (m, E))" by (rule identity_verified)
  have "resolve_imports identity_cert session_new high_trust_policy = Inr []" by code_simp
  moreover have "unambiguous (map vm_certificate [])" by (simp add: unambiguous_def)
  moreover have "hd (mc_declarations identity_cert) \<in> set (mc_declarations identity_cert)" by (simp add: identity_cert_def)
  moreover have "theorem_parts (dc_decl (hd (mc_declarations identity_cert))) = Some (1, [], [], 6, 5)" by code_simp
  moreover have "name_to_string identity_cert 1 = Inr ''identity''" by code_simp
  ultimately show ?thesis using verified_theorems_proved [OF session_start run] run by fastforce
qed

theorem verified_axioms_allowed_witness:
  "rests_on sample_digest exported_axiom_cert [] 0 sample_axiom \<and> axiom_allowed ax_policy exported_axiom_cert sample_axiom"
proof -
  obtain m E where run: "verify_decoded_module_cert sample_digest exported_axiom_cert
      (hash_input exported_axiom_cert @ encode_hash sample_hash) ax_policy (\<lambda>_. Inr []) = Some (Inr (m, E))"
    by (rule axiom_verified)
  have "rests_on sample_digest exported_axiom_cert [] 0 \<lparr>ar_global_ref = GLocal (word_of_nat 0), ar_name = 1,
      ar_decl_interface_hash = dh_decl_interface_hash (dc_hashes (hd (mc_declarations exported_axiom_cert)))\<rparr>"
    by (rule rests_self) (simp_all add: exported_axiom_cert_def axiom_cert_def get_at_def)
  then have "rests_on sample_digest exported_axiom_cert [] 0 sample_axiom"
    by (simp add: sample_axiom_def exported_axiom_cert_def axiom_cert_def)
  with verified_axioms_allowed [OF run refl] show ?thesis by simp
qed

theorem certificate_hash_binds_witness:
  "\<exists>bytes bytes' m m' E E'. verify_decoded_module_cert sample_digest identity_cert bytes high_trust_policy
       (\<lambda>cert. resolve_imports cert session_new high_trust_policy) = Some (Inr (m, E)) \<and>
     verify_decoded_module_cert sample_digest identity_cert bytes' normal_policy
       (\<lambda>cert. resolve_imports cert session_new normal_policy) = Some (Inr (m', E')) \<and>
     vm_certificate_hash m = vm_certificate_hash m' \<and> bytes = bytes'"
proof -
  obtain m E where run: "verify_decoded_module_cert sample_digest identity_cert
      (hash_input identity_cert @ encode_hash sample_hash) high_trust_policy
      (\<lambda>cert. resolve_imports cert session_new high_trust_policy) = Some (Inr (m, E))" by (rule identity_verified)
  obtain m' E' where run': "verify_decoded_module_cert sample_digest identity_cert
      (hash_input identity_cert @ encode_hash sample_hash) normal_policy
      (\<lambda>cert. resolve_imports cert session_new normal_policy) = Some (Inr (m', E'))" by (rule identity_verified)
  have eq: "vm_certificate_hash m = vm_certificate_hash m'" by (simp add: hashed_bytes(1) [OF run] hashed_bytes(1) [OF run'])
  have "inj_on (hash_with_domain sample_digest MODULE_CERT_DOMAIN) {hash_input identity_cert, hash_input identity_cert}" by simp
  from run run' eq certificate_hash_binds [OF run run' eq this] show ?thesis by (intro exI conjI)
qed

theorem verification_returns_witness: "\<exists>r. verify_module_cert sample_digest [] high_trust_policy session_new = Some r"
  by (rule verification_returns) (rule session_start)

theorem session_invariant_witness:
  "\<exists>m session. verify_decoded_module_cert_in_session sample_digest identity_cert
       (hash_input identity_cert @ encode_hash sample_hash) high_trust_policy session_new = Some (Inr (m, session)) \<and>
     session_ok session \<and> (\<forall>key e entry. map_of session key = Some e \<and> se_mode e = HighTrust \<and>
       entry \<in> set (mc_imports (vm_certificate (se_module e))) \<longrightarrow> trusted session (import_key entry))"
proof -
  obtain m E where "verify_decoded_module_cert sample_digest identity_cert
      (hash_input identity_cert @ encode_hash sample_hash) high_trust_policy
      (\<lambda>cert. resolve_imports cert session_new high_trust_policy) = Some (Inr (m, E))" by (rule identity_verified)
  then have run: "verify_decoded_module_cert_in_session sample_digest identity_cert
      (hash_input identity_cert @ encode_hash sample_hash) high_trust_policy session_new =
      Some (Inr (m, insert_verified m (pol_mode high_trust_policy) session_new))"
    by (simp add: verify_decoded_module_cert_in_session_def)
  from session_invariant [OF session_verify [OF session_start run]] run show ?thesis by auto
qed

section \<open>The checks without tables and plans\<close>

text \<open>
  The checks as they read without the optimizations: terms are converted recursively, and the
  imports are loaded by the recursive loader.
\<close>

definition reference_checks ::
    "digest \<Rightarrow> module_cert \<Rightarrow> structural_cost \<Rightarrow> axiom_policy \<Rightarrow> verified_module list \<Rightarrow>
     (cert_error + closure_summary \<times> env) option" where
  "reference_checks sha cert cost policy mods =
     (let views = map vm_certificate mods in
      obind (Some (build_closure_summary cert cost (map vm_structural_closure mods))) (\<lambda>closure.
      obind (Some (verify_dependencies_and_axioms sha cert views)) (\<lambda>_.
      obind (Some (enforce_axiom_policy cert policy)) (\<lambda>_.
      obind (Some (enforce_import_axiom_policy views policy)) (\<lambda>_.
      obind (Some (referenced_builtins_from_cert sha cert)) (\<lambda>builtins.
      obind (add_referenced_imports_to_env_legacy sha cert views env_new) (\<lambda>E.
      obind (Some (add_referenced_builtins_to_env builtins E)) (\<lambda>E.
      obind (Some (cert_format_version (mc_header cert))) (\<lambda>version.
      obind (add_certificate_declarations cert Legacy (mc_declarations cert) E) (\<lambda>E.
      Some (Inr (closure, E))))))))))))"

lemma checks_agree:
  assumes "tables_resolve cert" and "verify_declaration_order cert = Inr ()"
    and "verify_inductive_generated_artifacts cert Legacy = Some (Inr ())" and "resolve cert = Inr mods"
    and "list_all tables_resolve (map vm_certificate mods)" and "unambiguous (map vm_certificate mods)"
    and "declarations_have_terms (map vm_certificate mods)"
  shows "checks_after_hashes sha cert cost policy resolve = reference_checks sha cert cost policy mods"
proof -
  obtain terms budget where terms: "select_current_term_conversion cert 0 = Some (terms, budget)"
    using current_conversion_returns [OF assms(1), of 0] by (auto simp: returns_def)
  note agree = current_conversion_agrees [OF terms]
  show ?thesis
    by (simp add: checks_after_hashes_def assms(2,3,4) terms artifacts_agree [OF agree] check_with_imports_def
        reference_checks_def declarations_agree [OF agree] planned_loading_agrees [OF assms(5-7)])
qed

end
