(* ===== verification/Cert_Findings.thy ===== *)
theory Cert_Findings
  imports Cert_Module
begin

text \<open>
  A module that the verifier accepts and that proves a false statement. The declarations of imports
  are added to the environment under their bare names, and a declaration with the name of a
  built-in one is not added again.
\<close>

section \<open>Three modules\<close>

definition finding_decl :: "decl_payload \<Rightarrow> global_ref list \<Rightarrow> decl_cert" where
  "finding_decl p refs = \<lparr>dc_decl = p, dc_dependencies = map (\<lambda>g. DInterface g sample_hash) refs, dc_axiom_dependencies = [],
     dc_hashes = \<lparr>dh_decl_interface_hash = sample_hash, dh_decl_certificate_hash = sample_hash\<rparr>\<rparr>"

definition finding_export :: "name_id \<Rightarrow> export_kind \<Rightarrow> name_id list \<Rightarrow> term_id \<Rightarrow> export_entry" where
  "finding_export n kind ups t = \<lparr>ee_name = n, ee_kind = kind, ee_universe_params = ups, ee_universe_constraints = [],
     ee_ty = t, ee_body = None, ee_type_hash = sample_hash, ee_body_hash = None, ee_reducibility = None, ee_opacity = None,
     ee_decl_interface_hash = sample_hash, ee_axiom_dependencies = []\<rparr>"

definition finding_import :: "string \<Rightarrow> import_entry" where
  "finding_import n = \<lparr>ie_module = [n], ie_export_hash = sample_hash, ie_certificate_hash = Some sample_hash\<rparr>"

definition finding_cert :: "string \<Rightarrow> import_entry list \<Rightarrow> cname list \<Rightarrow> level_node list \<Rightarrow> term_node list \<Rightarrow>
    decl_cert list \<Rightarrow> export_entry list \<Rightarrow> module_cert" where
  "finding_cert n is names levels terms ds exports = identity_cert\<lparr>
     mc_header := \<lparr>hdr_format = FORMAT, hdr_core_spec = CORE_SPEC, hdr_module = [n]\<rparr>,
     mc_imports := is, mc_name_table := names, mc_level_table := levels, mc_term_table := terms, mc_declarations := ds,
     mc_export_block := exports,
     mc_axiom_report := \<lparr>rep_per_declaration = map (\<lambda>i. \<lparr>dar_decl_index = word_of_nat i, dar_direct_axioms = [],
       dar_transitive_axioms = []\<rparr>) [0..<length ds], rep_module_axioms = []\<rparr>\<rparr>"

text \<open>A definition of type \<^verbatim>\<open>Nat\<close>, the built-in one: \<^verbatim>\<open>one : Nat := Nat.zero\<close>.\<close>

definition base_cert :: module_cert where
  "base_cert = finding_cert ''Base'' [] [[''Base''], [''Nat''], [''Nat'', ''zero''], [''one'']] []
     [TNConst (GBuiltin 1 sample_hash) [], TNConst (GBuiltin 2 sample_hash) []]
     [finding_decl (PDef 3 [] 0 1 CertReducible) [GBuiltin 1 sample_hash, GBuiltin 2 sample_hash]]
     [(finding_export 3 EKDef [] 0)\<lparr>ee_body := Some 1, ee_body_hash := Some sample_hash, ee_reducibility := Some CertReducible\<rparr>]"

text \<open>An empty inductive type that is also called \<^verbatim>\<open>Nat\<close>, and the elimination of its elements into all propositions.\<close>

definition empty_nat_cert :: module_cert where
  "empty_nat_cert = finding_cert ''Empty'' [] [[''Empty''], [''Nat''], [''Nat'', ''rec''], [''elim''], [''u'']]
     [LNZero, LNParam 4, LNSucc 0]
     [TNSort 0, TNSort 1, TNSort 2, TNBVar 0, TNBVar 1, TNConst (GLocal 0) [], TNConst (GLocalGenerated 0 2) [0],
      TNPi 5 1, TNApp 4 3, TNPi 0 3, TNLam 5 4, TNPi 5 8, TNPi 5 9, TNApp 6 10, TNPi 7 11, TNApp 13 4, TNLam 0 15, TNLam 5 16]
     [finding_decl (PInductive 1 [] [] [] 2 [] (Some \<lparr>rs_name = 2, rs_universe_params = [4], rs_ty = 14,
        rs_rules = \<lparr>rrs_minor_start = 1, rrs_major_index = 1\<rparr>\<rparr>)) [],
      finding_decl (PTheorem 3 [] 12 17 OpacityOpaque) [GLocal 0, GLocalGenerated 0 2]]
     [finding_export 1 EKInductive [] 2, finding_export 2 EKRecursor [4] 14,
      (finding_export 3 EKTheorem [] 12)\<lparr>ee_opacity := Some OpacityOpaque\<rparr>]"

text \<open>\<^verbatim>\<open>false : \<forall>P : Prop. P := elim one\<close>\<close>

definition false_cert :: module_cert where
  "false_cert = finding_cert ''Main'' [finding_import ''Base'', finding_import ''Empty'']
     [[''Main''], [''elim''], [''false''], [''one'']] [LNZero]
     [TNSort 0, TNBVar 0, TNConst (GImported 0 3 sample_hash) [], TNConst (GImported 1 1 sample_hash) [], TNPi 0 1, TNApp 3 2]
     [finding_decl (PTheorem 2 [] 4 5 OpacityOpaque) [GImported 0 3 sample_hash, GImported 1 1 sample_hash]]
     [(finding_export 2 EKTheorem [] 4)\<lparr>ee_opacity := Some OpacityOpaque\<rparr>]"

section \<open>A proof of a false statement\<close>

text \<open>The checks of a certificate that has just been built, after those of its hashes and tables.\<close>

definition accept_module :: "module_cert \<Rightarrow> verified_module list \<Rightarrow> (cert_error + verified_module \<times> env) option" where
  "accept_module cert mods =
     obind (Some (structural_preflight cert)) (\<lambda>cost.
     obind (checks_after_hashes sample_digest cert cost high_trust_policy
       (\<lambda>cert. resolve_import_refs cert mods high_trust_policy)) (\<lambda>(closure, E).
     Some (Inr (\<lparr>vm_certificate = cert, vm_structural_closure = closure\<rparr>, E))))"

text \<open>The checks of a certificate on its own, which do not look at its imports.\<close>

definition passes_alone :: "module_cert \<Rightarrow> structural_cost \<Rightarrow> cname list \<Rightarrow> bool" where
  "passes_alone cert cost builtins \<longleftrightarrow>
     structural_preflight cert = Inr cost \<and> decl_names_in_table cert \<and> verify_declaration_order cert = Inr () \<and>
     verify_inductive_generated_artifacts cert Legacy = Some (Inr ()) \<and>
     enforce_axiom_policy cert high_trust_policy = Inr () \<and>
     referenced_builtins_from_cert sample_digest cert = Inr builtins \<and>
     is_ok (cert_format_version (mc_header cert))"

lemma accepted:
  assumes "passes_alone cert cost builtins" and "resolve_import_refs cert mods high_trust_policy = Inr mods"
    and "list_all tables_resolve (map vm_certificate mods)" and "unambiguous (map vm_certificate mods)"
    and "declarations_have_terms (map vm_certificate mods)"
    and "build_closure_summary cert cost (map vm_structural_closure mods) = Inr closure"
    and "verify_dependencies_and_axioms sample_digest cert (map vm_certificate mods) = Inr ()"
    and "enforce_import_axiom_policy (map vm_certificate mods) high_trust_policy = Inr ()"
    and "map_option is_ok (obind (add_referenced_imports_to_env_legacy sample_digest cert (map vm_certificate mods) env_new) (\<lambda>E.
      obind (Some (add_referenced_builtins_to_env builtins E)) (\<lambda>E.
      add_certificate_declarations cert Legacy (mc_declarations cert) E))) = Some True"
  shows "\<exists>E. accept_module cert mods = Some (Inr (\<lparr>vm_certificate = cert, vm_structural_closure = closure\<rparr>, E))"
proof -
  from assms(9) obtain E1 E2 E where "add_referenced_imports_to_env_legacy sample_digest cert (map vm_certificate mods) env_new = Some (Inr E1)"
    "add_referenced_builtins_to_env builtins E1 = Inr E2" "add_certificate_declarations cert Legacy (mc_declarations cert) E2 = Some (Inr E)"
    by (auto simp: is_ok_iff obind_Inr)
  moreover have checks: "checks_after_hashes sample_digest cert cost high_trust_policy
      (\<lambda>cert. resolve_import_refs cert mods high_trust_policy) = reference_checks sample_digest cert cost high_trust_policy mods"
    by (rule checks_agree) (use assms in \<open>auto simp: passes_alone_def intro: preflight_resolve\<close>)
  ultimately show ?thesis using assms(1)
    by (auto simp: accept_module_def passes_alone_def is_ok_iff checks reference_checks_def assms(6-8))
qed

definition own_closure :: "string \<Rightarrow> nat \<Rightarrow> closure_summary" where
  "own_closure n expansion =
     [(\<lparr>si_module = [n], si_export_hash = sample_hash, si_certificate_hash = sample_hash\<rparr>, expansion)]"

definition base_module :: verified_module where
  "base_module = \<lparr>vm_certificate = base_cert, vm_structural_closure = own_closure ''Base'' 4\<rparr>"

definition empty_nat_module :: verified_module where
  "empty_nat_module = \<lparr>vm_certificate = empty_nat_cert, vm_structural_closure = own_closure ''Empty'' 50\<rparr>"

lemma base_alone: "passes_alone base_cert \<lparr>sc_max_depth = 1, sc_max_root_expansion = 1, sc_certificate_expansion = 4\<rparr>
    [[''Nat''], [''Nat'', ''zero'']]"
  by code_simp

lemma empty_nat_alone: "passes_alone empty_nat_cert
    \<lparr>sc_max_depth = 6, sc_max_root_expansion = 13, sc_certificate_expansion = 50\<rparr> []"
  by code_simp

lemma false_alone: "passes_alone false_cert \<lparr>sc_max_depth = 3, sc_max_root_expansion = 4, sc_certificate_expansion = 11\<rparr> []"
  by code_simp

lemma base_computed: "verify_dependencies_and_axioms sample_digest base_cert [] = Inr () \<and>
    resolve_import_refs base_cert [] high_trust_policy = Inr [] \<and>
    build_closure_summary base_cert \<lparr>sc_max_depth = 1, sc_max_root_expansion = 1, sc_certificate_expansion = 4\<rparr> [] =
      Inr (own_closure ''Base'' 4) \<and>
    map_option is_ok (obind (add_referenced_imports_to_env_legacy sample_digest base_cert [] env_new) (\<lambda>E.
      obind (Some (add_referenced_builtins_to_env [[''Nat''], [''Nat'', ''zero'']] E)) (\<lambda>E.
      add_certificate_declarations base_cert Legacy (mc_declarations base_cert) E))) = Some True"
  by code_simp

lemma empty_nat_dependencies: "verify_dependencies_and_axioms sample_digest empty_nat_cert [] = Inr ()"
  by code_simp

lemma empty_nat_computed: "resolve_import_refs empty_nat_cert [] high_trust_policy = Inr [] \<and>
    build_closure_summary empty_nat_cert \<lparr>sc_max_depth = 6, sc_max_root_expansion = 13, sc_certificate_expansion = 50\<rparr> [] =
      Inr (own_closure ''Empty'' 50) \<and>
    map_option is_ok (obind (add_referenced_imports_to_env_legacy sample_digest empty_nat_cert [] env_new) (\<lambda>E.
      obind (Some (add_referenced_builtins_to_env [] E)) (\<lambda>E.
      add_certificate_declarations empty_nat_cert Legacy (mc_declarations empty_nat_cert) E))) = Some True"
  by code_simp

lemma false_computed: "verify_dependencies_and_axioms sample_digest false_cert [base_cert, empty_nat_cert] = Inr () \<and>
    enforce_import_axiom_policy [base_cert, empty_nat_cert] high_trust_policy = Inr () \<and>
    unambiguous [base_cert, empty_nat_cert] \<and> declarations_have_terms [base_cert, empty_nat_cert] \<and>
    is_ok (build_closure_summary false_cert \<lparr>sc_max_depth = 3, sc_max_root_expansion = 4, sc_certificate_expansion = 11\<rparr>
      [own_closure ''Base'' 4, own_closure ''Empty'' 50]) \<and>
    theorem_parts (dc_decl (hd (mc_declarations false_cert))) = Some (2, [], [], 4, 5) \<and>
    expr_from_term false_cert 4 = Some (Inr (Pi ''_'' (Sort LZero) (BVar 0)))"
  by code_simp

lemma false_resolution: "resolve_import_refs false_cert [base_module, empty_nat_module] high_trust_policy =
    Inr [base_module, empty_nat_module]"
  by code_simp

lemma false_loading: "map_option is_ok (obind (add_referenced_imports_to_env_legacy sample_digest false_cert
    [base_cert, empty_nat_cert] env_new) (\<lambda>E. obind (Some (add_referenced_builtins_to_env [] E)) (\<lambda>E.
    add_certificate_declarations false_cert Legacy (mc_declarations false_cert) E))) = Some True"
  by code_simp

lemmas no_imports = unambiguous_def declarations_have_terms_def enforce_import_axiom_policy_def

lemma base_accepted: "\<exists>E. accept_module base_cert [] = Some (Inr (base_module, E))"
  unfolding base_module_def
  by (rule accepted [OF base_alone]) (simp_all add: base_computed no_imports del: One_nat_def)

lemma empty_nat_accepted: "\<exists>E. accept_module empty_nat_cert [] = Some (Inr (empty_nat_module, E))"
  unfolding empty_nat_module_def
  by (rule accepted [OF empty_nat_alone]) (simp_all add: empty_nat_computed empty_nat_dependencies no_imports)

text \<open>
  C16: The verifier accepts, in high trust and without axioms, a module with a theorem whose
  statement is \<open>\<forall>P : Prop. P\<close>. Its first import brings the built-in \<^verbatim>\<open>Nat\<close> into the environment;
  the second one declares an empty type called \<^verbatim>\<open>Nat\<close>, which is skipped because a built-in name
  is not added twice, and its theorem that from an element of \<^verbatim>\<open>Nat\<close> everything follows is then
  added as a statement on the built-in type, which has elements. The checks of the hashes and
  of the order of the tables come before these and read nothing of what a declaration means.
\<close>

theorem false_module_accepted:
  "\<exists>E1 E2 E3 main. accept_module base_cert [] = Some (Inr (base_module, E1)) \<and>
     accept_module empty_nat_cert [] = Some (Inr (empty_nat_module, E2)) \<and>
     accept_module false_cert [base_module, empty_nat_module] = Some (Inr (main, E3)) \<and>
     theorem_parts (dc_decl (hd (mc_declarations false_cert))) = Some (2, [], [], 4, 5) \<and>
     expr_from_term false_cert 4 = Some (Inr (Pi ''_'' (Sort LZero) (BVar 0)))"
proof -
  let ?mods = "[base_module, empty_nat_module]"
  have certs: "map vm_certificate ?mods = [base_cert, empty_nat_cert]"
    and closures: "map vm_structural_closure ?mods = [own_closure ''Base'' 4, own_closure ''Empty'' 50]"
    by (simp_all add: base_module_def empty_nat_module_def)
  from false_computed obtain closure where closure: "build_closure_summary false_cert
      \<lparr>sc_max_depth = 3, sc_max_root_expansion = 4, sc_certificate_expansion = 11\<rparr> (map vm_structural_closure ?mods) = Inr closure"
    unfolding closures is_ok_iff by blast
  have "list_all tables_resolve (map vm_certificate ?mods)"
    using base_alone empty_nat_alone unfolding certs by (auto simp: passes_alone_def intro: preflight_resolve)
  then have "\<exists>E. accept_module false_cert ?mods =
      Some (Inr (\<lparr>vm_certificate = false_cert, vm_structural_closure = closure\<rparr>, E))"
    by (rule accepted [OF false_alone false_resolution _ _ _ closure])
      (simp_all only: certs false_computed false_loading)
  with base_accepted empty_nat_accepted false_computed show ?thesis by blast
qed

end
