(* ===== verification/Spec2Isabelle.thy ===== *)
theory Spec2Isabelle
  imports Kernel_Findings Cert_Findings
begin

text \<open>
  A verification development of the trusted part of npa: its kernel
  (\<^verbatim>\<open>crates/npa-kernel/src\<close>), a proof checker for a dependent type theory with
  universe-polymorphic declarations, inductive types, mutual blocks and recursors, and the
  certificates of modules (\<^verbatim>\<open>crates/npa-cert/src\<close>), the binary files that the kernel checks.
  Everything else in the repository (elaborator, tactics, packages, service and command line)
  produces certificates, so that the meaning of a checked theorem rests on these parts.

  \<^bold>\<open>The program.\<close> A universe level is a term over parameters (\<^verbatim>\<open>level.rs\<close>). A declaration
  may constrain its parameters; a universe context turns the constraints into difference
  bounds, closes them with the algorithm of Floyd and Warshall and answers entailment
  questions. Terms have de Bruijn indices (\<^verbatim>\<open>expr.rs\<close>, \<^verbatim>\<open>subst.rs\<close>, \<^verbatim>\<open>context.rs\<close>). The
  environment (\<^verbatim>\<open>env.rs\<close>) holds declarations and mutual groups by name. It normalizes
  terms with a frame machine, compares them by definitional equality, infers and checks
  types, and admits declarations: axioms, definitions, theorems, inductives with constructors
  and recursors, and mutual blocks. Normalization and conversion spend fuel and end in an
  error when it is exhausted.

  A certificate (\<^verbatim>\<open>types.rs\<close>) has tables of names, levels and terms whose nodes refer to
  earlier nodes, declarations with their dependencies, exports, an axiom report and hashes.
  It is decoded from bytes (\<^verbatim>\<open>binary.rs\<close>), its size when unfolded is bounded before it is
  unfolded (\<^verbatim>\<open>structural.rs\<close>), its hashes (\<^verbatim>\<open>hash.rs\<close>), tables, generated recursors
  (\<^verbatim>\<open>inductive.rs\<close>), dependencies (\<^verbatim>\<open>local_transparency.rs\<close>) and axioms are checked, its imports
  are found among the modules verified before, their declarations and its own become kernel
  declarations (\<^verbatim>\<open>kernel.rs\<close>) and these are admitted one after the other (\<^verbatim>\<open>verify.rs\<close>). A session
  (\<^verbatim>\<open>types.rs\<close>) keeps the verified modules with the trust mode they were verified in.

  \<^bold>\<open>The theories.\<close>
  \<^item> \<^verbatim>\<open>Prelude\<close>: results (\<open>Inl\<close> an error, \<open>Inr\<close> a value), loops that stop at the first error,
    list access, comparison and the collections \<open>res_simps\<close> and \<open>env_lookup\<close>.
  \<^item> \<^verbatim>\<open>Kernel_Syntax\<close>: \<^verbatim>\<open>Level\<close>, \<^verbatim>\<open>Expr\<close>, \<^verbatim>\<open>Decl\<close> and \<^verbatim>\<open>Error\<close> as datatypes and records;
    application spines and syntactic equality with their work lists.
  \<^item> \<^verbatim>\<open>Universe_Level\<close>, \<^verbatim>\<open>Universe_Context\<close>: normalization, comparison, substitution and
    validation of levels with their explicit stacks; decomposition of constraints into atoms,
    the bound matrix, its closure, entailment and the resource limits.
  \<^item> \<^verbatim>\<open>Universe_Closure\<close>, \<^verbatim>\<open>Universe_Soundness\<close>: the closed matrix holds exactly the
    consequences of the edges; entailment is sound for the valuations of the parameters and
    satisfiability is decided; the interface \<open>universe_oracle\<close> and its interpretation.
  \<^item> \<^verbatim>\<open>Kernel_Name\<close>, \<^verbatim>\<open>Kernel_Subst\<close>, \<^verbatim>\<open>Kernel_Env\<close>, \<^verbatim>\<open>Kernel_Shape\<close>: names; shifting,
    instantiation and level substitution with the 32-bit index arithmetic and their agreement
    with reference substitution; lookups, freshness and the type of a constant; telescopes,
    minor premises and the positivity test with its inductive specification.
  \<^item> \<^verbatim>\<open>Metered\<close>: fuelled computations, the interface \<open>fuelled\<close> and what it gives: outcomes do
    not depend on the fuel unless it runs out.
  \<^item> \<^verbatim>\<open>Kernel_Whnf\<close>, \<^verbatim>\<open>Kernel_Conversion\<close>: the frame machine, the recursive definition it
    refines, definitional equality, and the relation \<open>conv\<close> both stay inside.
  \<^item> \<^verbatim>\<open>Kernel_Typing\<close>: inference and checking, with fuel per call and with shared fuel, the
    declarative judgement \<open>has_type\<close>, the interface \<open>conversion_oracle\<close> with one
    interpretation per checker, soundness of both and their agreement.
  \<^item> \<^verbatim>\<open>Kernel_Builtins\<close>, \<^verbatim>\<open>Kernel_Admission\<close>: the built-in declarations and every admission
    with the constructor and recursor checks.
  \<^item> \<^verbatim>\<open>Kernel_Extension\<close>, \<^verbatim>\<open>Kernel_Invariant\<close>, \<^verbatim>\<open>Kernel_Mutual\<close>, \<^verbatim>\<open>Kernel_Machine\<close>: growing
    environments keep conversion and typing; the invariant and its preservation, through the
    interfaces \<open>admission\<close> and \<open>typed_admission\<close>; the state machine of requests and its
    reachable environments.
  \<^item> \<^verbatim>\<open>Kernel_Findings\<close>: declarations the kernel admits and should not.
  \<^item> \<^verbatim>\<open>Cert_Bytes\<close>, \<^verbatim>\<open>Cert_Format\<close>, \<^verbatim>\<open>Cert_Decode\<close>, \<^verbatim>\<open>Cert_Codec\<close>: the cursor of the decoder with
    variable-length integers, strings and vectors; the data of certificates and every encoder;
    every method of the decoder; the interface \<open>codec\<close>, interpreted for every part of a
    certificate, and from it that decoding inverts encoding.
  \<^item> \<^verbatim>\<open>Cert_Structural\<close>: counts, references, depths and unfolded sizes of the tables, the
    audit and the summary of the import closure.
  \<^item> \<^verbatim>\<open>Cert_Kernel\<close>: the conversion of levels and terms, recursive and through a table of
    shared expressions, and that the structural checks make it return within the bounds.
  \<^item> \<^verbatim>\<open>Cert_Admission\<close>: the conversion and admission of the declarations of a certificate.
  \<^item> \<^verbatim>\<open>Cert_Hash\<close>, \<^verbatim>\<open>Cert_Tables\<close>, \<^verbatim>\<open>Cert_Scope\<close>, \<^verbatim>\<open>Cert_Levels\<close>: keys and hashes, with the digest
    an argument \<open>sha\<close> of which nothing is assumed; the checks of the tables; that they leave only
    closed terms, and only levels in normal form that are pairwise different; that they return
    on every certificate, and a certificate on which a comparison takes exponential time.
  \<^item> \<^verbatim>\<open>Cert_Verify\<close>, \<^verbatim>\<open>Cert_Artifacts\<close>: the canonical encoding, the hashes, the order of the
    declarations and the policy on axioms; the generator of recursors and the check against it.
  \<^item> \<^verbatim>\<open>Cert_Session\<close>, \<^verbatim>\<open>Cert_Imports\<close>, \<^verbatim>\<open>Cert_Dependencies\<close>: verified modules, sessions and the
    resolution of imports; the recursive loader of imported declarations; the expected
    dependencies and the axiom report, which lists exactly what a declaration rests on.
  \<^item> \<^verbatim>\<open>Cert_Charge\<close>, \<^verbatim>\<open>Cert_Planner\<close>: the budget of the tables of shared expressions, and the loader
    that plans its actions ahead under that budget; both change no answer.
  \<^item> \<^verbatim>\<open>Cert_Module\<close>: verification from the bytes to the final environment, the verified modules and
    the sessions that can be reached, and what holds of them.
  \<^item> \<^verbatim>\<open>Cert_Findings\<close>: a module that is accepted and proves a falsehood.

  \<^bold>\<open>Correspondence.\<close> \<open>env\<close> has the maps \<open>decls\<close> and \<open>mutual_groups\<close> of \<^verbatim>\<open>Env\<close>; a method
  that changes the environment returns the new one or an error, as the source works on a
  clone or checks before it inserts. \<^verbatim>\<open>Result\<close> is a sum, \<^verbatim>\<open>Option\<close> an option; an indexing
  or subtraction that would panic is the error \<open>Panic\<close>. Indices are natural numbers with the
  casts to \<^verbatim>\<open>i32\<close> and the additions on \<^verbatim>\<open>i32\<close>, \<^verbatim>\<open>u32\<close>, \<^verbatim>\<open>u64\<close> and \<^verbatim>\<open>i128\<close> written out. The
  integers of a certificate are words, \<^verbatim>\<open>usize\<close> of 64 bits; reservations of memory are taken
  to succeed. A recursion of the source that may not end is an option with \<open>None\<close> for it.

  \<^bold>\<open>What is shown.\<close> In an environment reached by admissions, with arbitrary mutual blocks, every
  stored theorem was proved in an earlier environment that did not have its name; names, groups
  and index bounds are kept and earlier judgements stay derivable. Where the mutual blocks have no
  universe constraints and at most one recursor, every declaration is well typed. Inference,
  checking, normalization and definitional equality are sound for the declarative relations, in
  which constants unfold and recursors reduce by the rules of the kernel. Universe entailment is
  sound and, on atoms, complete, when no assumed side of a constraint has an \<^verbatim>\<open>IMax\<close>. The
  restrictions are sharp: \<^verbatim>\<open>Kernel_Findings\<close> and \<^verbatim>\<open>Universe_Soundness\<close> have a block with two
  recursors by whose reductions a falsehood is proved, and a constraint with \<^verbatim>\<open>IMax\<close> on its left
  from which a wrong bound is derived.

  A certificate is decoded exactly from its own encoding. When it passes the structural
  checks, every node of its tables unfolds, within the depth and size that the checks report,
  and its declarations are processed to an end. Verification returns on all bytes and in every
  session that can be reached. The terms of its declarations are closed, those of parameters and
  indices under the binders before them. In the environment a successful verification ends with,
  every theorem of the module has a proof of its statement, which was one before the theorem was
  declared, unless two of the imports share name and certificate hash; the axioms of the module are
  allowed by the policy and the certificate hash identifies the bytes unless the digest collides.
  The trust of a session is that of the verifier and of its caller: the imports of an entry of
  high trust have high trust, but for the modules that the caller registered with high trust. The
  recursors of mutual blocks are those of the generator; of the recursor of a single inductive
  the rules and the type are, at the universe parameters of the certificate. The statement on
  theorems is relative to the final environment, which holds the imported theorems as axioms:
  \<^verbatim>\<open>Cert_Findings\<close> shows that an import may mean something else there than in its own module, when
  it declares a built-in name.

  \<^bold>\<open>Bounds and fuel.\<close> The soundness theorems assume de Bruijn indices below \<open>2\<^sup>3\<^sup>1\<close>
  (\<open>small\<close>), where the casts are exact; the conclusions keep the bound. The fuel limits are
  those of the source, 100000 for a normalization and 5000000 for a conversion; theorems
  about the fuelled functions hold for every amount of fuel.

  \<^bold>\<open>Not modelled.\<close> The memo table of \<^verbatim>\<open>memo.rs\<close>, the work counters of \<^verbatim>\<open>work.rs\<close>, the
  diagnosed variants of the admissions and checks, which repeat the modelled ones and record
  where they fail (\<^verbatim>\<open>diagnostic.rs\<close>), the observers of the verifier, failing allocations, the
  builder of certificates (\<^verbatim>\<open>canonical.rs\<close>, \<^verbatim>\<open>producer.rs\<close>) with the loaders of chosen exports that
  only it uses, the reference checker and everything outside the two crates. They are listed
  in the manifest with the reason.
\<close>

end
